(* ===== verification/Dove_Prelude.thy ===== *)
theory Dove_Prelude
  imports Main "HOL-Library.Word" "HOL-Library.Monad_Syntax"
begin

text \<open>
  Memory and control idioms of C shared by the components.

  A pointer into a buffer is modelled by the suffix of the buffer it points to,
  a list of bytes.  An access outside the object has no defined behaviour in C
  and is the value \<open>None\<close> here.  A routine that fills a buffer
  and returns the number of bytes it used becomes a function from the old
  buffer to the new buffer and that number.  The host is little endian (the
  x86 machines the daemons and agents are built for); network byte order is
  obtained through \<open>htons\<close> and \<open>htonl\<close> as in the code.
\<close>

unbundle bit_operations_syntax

type_synonym u8 = "8 word"
type_synonym u16 = "16 word"
type_synonym u32 = "32 word"
type_synonym bytes = "u8 list"

named_theorems c_mem \<open>evaluation of reads and writes on concatenated buffers\<close>
named_theorems c_writes \<open>what each routine leaves in the buffer it fills\<close>

section \<open>Integers in memory\<close>

definition bytes16 :: "u16 \<Rightarrow> bytes" where
  "bytes16 v = [ucast v, ucast (drop_bit 8 v)]"

definition bytes32 :: "u32 \<Rightarrow> bytes" where
  "bytes32 v = [ucast v, ucast (drop_bit 8 v), ucast (drop_bit 16 v), ucast (drop_bit 24 v)]"

definition of_bytes16 :: "bytes \<Rightarrow> u16" where
  "of_bytes16 bs = (ucast (bs ! 0) :: u16) OR push_bit 8 (ucast (bs ! 1))"

definition of_bytes32 :: "bytes \<Rightarrow> u32" where
  "of_bytes32 bs = (ucast (bs ! 0) :: u32) OR push_bit 8 (ucast (bs ! 1))
     OR push_bit 16 (ucast (bs ! 2)) OR push_bit 24 (ucast (bs ! 3))"

definition htons :: "u16 \<Rightarrow> u16" where
  "htons v = push_bit 8 v OR drop_bit 8 v"

definition htonl :: "u32 \<Rightarrow> u32" where
  "htonl v = push_bit 24 v OR push_bit 16 (take_bit 8 (drop_bit 8 v))
     OR push_bit 8 (take_bit 8 (drop_bit 16 v)) OR drop_bit 24 v"

abbreviation ntohs :: "u16 \<Rightarrow> u16" where "ntohs \<equiv> htons"
abbreviation ntohl :: "u32 \<Rightarrow> u32" where "ntohl \<equiv> htonl"

text \<open>The network (big endian) image of an integer.\<close>

definition be16 :: "u16 \<Rightarrow> bytes" where
  "be16 v = [ucast (drop_bit 8 v), ucast v]"

definition be32 :: "u32 \<Rightarrow> bytes" where
  "be32 v = [ucast (drop_bit 24 v), ucast (drop_bit 16 v), ucast (drop_bit 8 v), ucast v]"

lemma length_bytes [simp]:
  "length (bytes16 v) = 2" "length (bytes32 w) = 4" "length (be16 v) = 2" "length (be32 w) = 4"
  by (simp_all add: bytes16_def bytes32_def be16_def be32_def)

lemma be_ne [simp]: "be16 v \<noteq> []" "be32 w \<noteq> []"
  by (simp_all add: be16_def be32_def)

lemma bytes16_htons [simp]: "bytes16 (htons v) = be16 v"
  unfolding bytes16_def be16_def htons_def
  by (auto intro!: bit_word_eqI simp: bit_simps)

lemma bytes32_htonl [simp]: "bytes32 (htonl v) = be32 v"
  unfolding bytes32_def be32_def htonl_def
  by (auto intro!: bit_word_eqI simp: bit_simps)

lemma byte_cases:
  assumes "n < LENGTH(32)"
  obtains m where "n = m" "m < 8" | m where "n = 8 + m" "m < 8"
    | m where "n = 16 + m" "m < 8" | m where "n = 24 + m" "m < 8"
proof -
  consider "n < 8" | "8 \<le> n" "n < 16" | "16 \<le> n" "n < 24" | "24 \<le> n" "n < 32"
    using assms by (simp, linarith)
  then show thesis
    using that(1) [of n] that(2) [of "n - 8"] that(3) [of "n - 16"] that(4) [of "n - 24"]
    by cases simp_all
qed

lemma ntohs_be16 [simp]: "ntohs (of_bytes16 (be16 v)) = v"
  unfolding of_bytes16_def be16_def htons_def
  by (auto intro!: bit_word_eqI simp: bit_simps)

lemma ntohl_be32 [simp]: "ntohl (of_bytes32 (be32 v)) = v"
  unfolding of_bytes32_def be32_def htonl_def
  by (rule bit_word_eqI, erule byte_cases) (auto simp: bit_simps)

text \<open>The same facts once the simplifier has turned a store of \<open>ntohl v\<close> into the network image of \<open>v\<close>.\<close>

lemma be_of_be [simp]: "be16 (of_bytes16 (be16 v)) = bytes16 v" "be32 (of_bytes32 (be32 w)) = bytes32 w"
  by (metis bytes16_htons ntohs_be16) (metis bytes32_htonl ntohl_be32)

lemma of_bytes16_bytes16 [simp]: "of_bytes16 (bytes16 v) = v"
  unfolding of_bytes16_def bytes16_def
  by (auto intro!: bit_word_eqI simp: bit_simps)

lemma of_bytes32_bytes32 [simp]: "of_bytes32 (bytes32 v) = v"
  unfolding of_bytes32_def bytes32_def
  by (rule bit_word_eqI, erule byte_cases) (auto simp: bit_simps)

lemma bytes32_of_bytes32 [simp]:
  assumes "length bs = 4"
  shows "bytes32 (of_bytes32 bs) = bs"
proof -
  obtain a b c d where "bs = [a, b, c, d]"
    using assms by (auto simp: length_Suc_conv numeral_eq_Suc)
  then show ?thesis
    by (auto simp: bytes32_def of_bytes32_def numeral_2_eq_2 numeral_3_eq_3 intro!: bit_word_eqI)
       (auto simp: bit_simps dest: bit_imp_le_length)
qed

section \<open>Reading and writing buffers\<close>

definition peek :: "nat \<Rightarrow> nat \<Rightarrow> bytes \<Rightarrow> bytes option" where
  "peek n k bs = (if n + k \<le> length bs then Some (take k (drop n bs)) else None)"

definition poke :: "nat \<Rightarrow> bytes \<Rightarrow> bytes \<Rightarrow> bytes option" where
  "poke n vs bs = (if n + length vs \<le> length bs
     then Some (take n bs @ vs @ drop (n + length vs) bs) else None)"

definition ld8 :: "nat \<Rightarrow> bytes \<Rightarrow> u8 option" where
  "ld8 n bs = (if n < length bs then Some (bs ! n) else None)"

definition ld16 :: "nat \<Rightarrow> bytes \<Rightarrow> u16 option" where
  "ld16 n bs = map_option of_bytes16 (peek n 2 bs)"

definition ld32 :: "nat \<Rightarrow> bytes \<Rightarrow> u32 option" where
  "ld32 n bs = map_option of_bytes32 (peek n 4 bs)"

definition st8 :: "nat \<Rightarrow> u8 \<Rightarrow> bytes \<Rightarrow> bytes option" where
  "st8 n v bs = poke n [v] bs"

definition st16 :: "nat \<Rightarrow> u16 \<Rightarrow> bytes \<Rightarrow> bytes option" where
  "st16 n v bs = poke n (bytes16 v) bs"

definition st32 :: "nat \<Rightarrow> u32 \<Rightarrow> bytes \<Rightarrow> bytes option" where
  "st32 n v bs = poke n (bytes32 v) bs"

text \<open>
  \<open>at_off n f\<close> is \<open>buff += f(buff)\<close> with \<open>buff\<close>
  standing \<open>n\<close> bytes into the object: \<open>f\<close> sees the suffix, and the
  new offset is returned with the updated object.
\<close>

definition at_off :: "nat \<Rightarrow> (bytes \<Rightarrow> (bytes \<times> nat) option) \<Rightarrow> bytes \<Rightarrow> (bytes \<times> nat) option" where
  "at_off n f bs = (if n \<le> length bs
     then map_option (\<lambda>(bs', m). (take n bs @ bs', n + m)) (f (drop n bs)) else None)"

text \<open>\<open>from_off n f\<close> is the reading counterpart: the reader sees the suffix.\<close>

definition from_off :: "nat \<Rightarrow> (bytes \<Rightarrow> ('a \<times> nat) option) \<Rightarrow> bytes \<Rightarrow> ('a \<times> nat) option" where
  "from_off n f bs = (if n \<le> length bs
     then map_option (\<lambda>(x, m). (x, n + m)) (f (drop n bs)) else None)"

lemma peek_append_right [simp]: "length xs \<le> n \<Longrightarrow> peek n k (xs @ ys) = peek (n - length xs) k ys"
  by (auto simp: peek_def)

lemma peek_append_left [simp]: "n + k \<le> length xs \<Longrightarrow> peek n k (xs @ ys) = peek n k xs"
  by (auto simp: peek_def)

lemma peek_all [simp]: "length xs = k \<Longrightarrow> peek 0 k xs = Some xs"
  by (simp add: peek_def)

lemma peek_prefix [simp]: "length xs = k \<Longrightarrow> peek 0 k (xs @ ys) = Some xs"
  by (simp add: peek_def)

lemma ld8_append [simp]:
  "length xs \<le> n \<Longrightarrow> ld8 n (xs @ ys) = ld8 (n - length xs) ys"
  "n < length xs \<Longrightarrow> ld8 n (xs @ ys) = ld8 n xs"
  by (auto simp: ld8_def nth_append)

lemma ld8_Cons [simp]:
  "ld8 0 (x # xs) = Some x"
  "ld8 (Suc n) (x # xs) = ld8 n xs"
  "ld8 (numeral k) (x # xs) = ld8 (pred_numeral k) xs"
  by (auto simp: ld8_def numeral_eq_Suc)

lemma peek_Cons [simp]:
  "peek (Suc n) k (x # xs) = peek n k xs"
  "peek (numeral j) k (x # xs) = peek (pred_numeral j) k xs"
  by (auto simp: peek_def numeral_eq_Suc)

lemma ld16_append [simp]:
  "length xs \<le> n \<Longrightarrow> ld16 n (xs @ ys) = ld16 (n - length xs) ys"
  "n + 2 \<le> length xs \<Longrightarrow> ld16 n (xs @ ys) = ld16 n xs"
  by (auto simp: ld16_def)

lemma ld32_append [simp]:
  "length xs \<le> n \<Longrightarrow> ld32 n (xs @ ys) = ld32 (n - length xs) ys"
  "n + 4 \<le> length xs \<Longrightarrow> ld32 n (xs @ ys) = ld32 n xs"
  by (auto simp: ld32_def)

lemma ld16_Cons [simp]:
  "ld16 (Suc n) (x # xs) = ld16 n xs"
  "ld16 (numeral j) (x # xs) = ld16 (pred_numeral j) xs"
  by (auto simp: ld16_def)

lemma ld32_Cons [simp]:
  "ld32 (Suc n) (x # xs) = ld32 n xs"
  "ld32 (numeral j) (x # xs) = ld32 (pred_numeral j) xs"
  by (auto simp: ld32_def)

lemma ld_be [simp]:
  "ld16 0 (be16 v) = Some (of_bytes16 (be16 v))"
  "ld16 0 (be16 v @ ys) = Some (of_bytes16 (be16 v))"
  "ld32 0 (be32 w) = Some (of_bytes32 (be32 w))"
  "ld32 0 (be32 w @ ys) = Some (of_bytes32 (be32 w))"
  by (simp_all add: ld16_def ld32_def)

section \<open>Filling a buffer step by step\<close>

text \<open>
  The state of a routine that fills a buffer is the object together with the
  offset of the moving pointer.  \<open>put f\<close> is \<open>buff += f(buff)\<close>,
  \<open>advance n\<close> is \<open>buff += n\<close>, and \<open>for_each\<close> a
  counting loop over the elements of an array.
\<close>

type_synonym cursor = "bytes \<times> nat"

definition put :: "(bytes \<Rightarrow> cursor option) \<Rightarrow> cursor \<Rightarrow> cursor option" where
  "put f s = at_off (snd s) f (fst s)"

definition advance :: "nat \<Rightarrow> cursor \<Rightarrow> cursor option" where
  "advance n s = Some (fst s, snd s + n)"

fun for_each :: "('a \<Rightarrow> 's \<Rightarrow> 's option) \<Rightarrow> 'a list \<Rightarrow> 's \<Rightarrow> 's option" where
  "for_each f [] s = Some s"
| "for_each f (x # xs) s = f x s \<bind> for_each f xs"

text \<open>The first \<open>n\<close> elements of an array: reading past its end is undefined.\<close>

definition slots :: "nat \<Rightarrow> 'a list \<Rightarrow> 'a list option" where
  "slots n xs = (if n \<le> length xs then Some (take n xs) else None)"

text \<open>Writing element \<open>i\<close> of an array with room for \<open>cap\<close> elements,
  of which the listed ones have been written so far.\<close>

definition put_slot :: "nat \<Rightarrow> nat \<Rightarrow> 'a \<Rightarrow> 'a list \<Rightarrow> 'a list option" where
  "put_slot cap i x xs = (if i < cap \<and> i \<le> length xs then Some (take i xs @ x # drop (Suc i) xs) else None)"

definition writes :: "(bytes \<Rightarrow> cursor option) \<Rightarrow> nat \<Rightarrow> (bytes \<Rightarrow> bool) \<Rightarrow> bool" where
  "writes f n P \<longleftrightarrow> (\<forall>bs. n \<le> length bs \<longrightarrow>
     (\<exists>p. length p = n \<and> P p \<and> f bs = Some (p @ drop n bs, n)))"

definition emits :: "(cursor \<Rightarrow> cursor option) \<Rightarrow> nat \<Rightarrow> (bytes \<Rightarrow> bool) \<Rightarrow> bool" where
  "emits c n P \<longleftrightarrow> (\<forall>q bs. n \<le> length bs \<longrightarrow>
     (\<exists>p. length p = n \<and> P p \<and> c (q @ bs, length q) = Some (q @ p @ drop n bs, length q + n)))"

definition seqp :: "(bytes \<Rightarrow> bool) \<Rightarrow> (bytes \<Rightarrow> bool) \<Rightarrow> bytes \<Rightarrow> bool" where
  "seqp P Q p \<longleftrightarrow> (\<exists>p1 p2. p = p1 @ p2 \<and> P p1 \<and> Q p2)"

lemma writesD:
  "writes f n P \<Longrightarrow> n \<le> length bs \<Longrightarrow> \<exists>p. length p = n \<and> P p \<and> f bs = Some (p @ drop n bs, n)"
  by (simp add: writes_def)

lemma writesI:
  "(\<And>p bs. length p = n \<Longrightarrow> \<exists>p'. length p' = n \<and> P p' \<and> f (p @ bs) = Some (p' @ bs, n)) \<Longrightarrow> writes f n P"
  unfolding writes_def by (metis append_take_drop_id length_take min.absorb2)

lemma emitsD:
  "emits c n P \<Longrightarrow> n \<le> length bs \<Longrightarrow>
     \<exists>p. length p = n \<and> P p \<and> c (q @ bs, length q) = Some (q @ p @ drop n bs, length q + n)"
  by (simp add: emits_def)

lemma writes_mono: "writes f n P \<Longrightarrow> (\<And>p. length p = n \<Longrightarrow> P p \<Longrightarrow> Q p) \<Longrightarrow> writes f n Q"
  unfolding writes_def by blast

lemma emits_mono: "emits c n P \<Longrightarrow> (\<And>p. length p = n \<Longrightarrow> P p \<Longrightarrow> Q p) \<Longrightarrow> emits c n Q"
  unfolding emits_def by blast

lemma emits_put: "writes f n P \<Longrightarrow> emits (put f) n P"
  unfolding emits_def put_def at_off_def
  by (auto dest!: writesD)

lemma emits_Some: "emits Some 0 (\<lambda>p. p = [])"
  by (simp add: emits_def)

lemma emits_advance: "emits (advance n) n (\<lambda>p. length p = n)"
  unfolding emits_def advance_def
proof (intro allI impI)
  fix q bs :: bytes assume "n \<le> length bs"
  then show "\<exists>p. length p = n \<and> length p = n \<and>
      Some (fst (q @ bs, length q), snd (q @ bs, length q) + n) = Some (q @ p @ drop n bs, length q + n)"
    by (intro exI [of _ "take n bs"]) simp
qed

lemma emits_bind:
  assumes "emits c n P" and "emits d m Q"
  shows "emits (\<lambda>s. c s \<bind> d) (n + m) (seqp P Q)"
  unfolding emits_def
proof (intro allI impI)
  fix q bs :: bytes assume len: "n + m \<le> length bs"
  obtain p1 where p1: "length p1 = n" "P p1" "c (q @ bs, length q) = Some (q @ p1 @ drop n bs, length q + n)"
    using emitsD [OF assms(1), of bs q] len by auto
  obtain p2 where p2: "length p2 = m" "Q p2"
      "d ((q @ p1) @ drop n bs, length (q @ p1)) = Some ((q @ p1) @ p2 @ drop m (drop n bs), length (q @ p1) + m)"
    using emitsD [OF assms(2), of "drop n bs" "q @ p1"] len by fastforce
  show "\<exists>p. length p = n + m \<and> seqp P Q p \<and>
      c (q @ bs, length q) \<bind> d = Some (q @ p @ drop (n + m) bs, length q + (n + m))"
    using p1 p2 by (intro exI [of _ "p1 @ p2"]) (auto simp: seqp_def add.commute)
qed

lemma emits_if:
  assumes "b \<Longrightarrow> emits c n P" and "\<not> b \<Longrightarrow> emits d m Q"
  shows "emits (\<lambda>s. if b then c s else d s) (if b then n else m) (if b then P else Q)"
  using assms by (cases b) auto

lemma emits_for_each:
  assumes "\<And>x. x \<in> set xs \<Longrightarrow> emits (f x) (sz x) (E x)"
  shows "emits (for_each f xs) (sum_list (map sz xs))
           (\<lambda>p. \<exists>ps. p = concat ps \<and> list_all2 (\<lambda>x p. length p = sz x \<and> E x p) xs ps)"
  using assms
proof (induction xs)
  case Nil
  then show ?case by (simp add: emits_def)
next
  case (Cons x xs)
  let ?L = "\<lambda>xs p. \<exists>ps. p = concat ps \<and> list_all2 (\<lambda>x p. length p = sz x \<and> E x p) xs ps"
  have hd: "emits (f x) (sz x) (\<lambda>p. length p = sz x \<and> E x p)"
    using Cons.prems [of x] by (auto intro: emits_mono)
  have "emits (\<lambda>s. f x s \<bind> for_each f xs) (sz x + sum_list (map sz xs))
      (seqp (\<lambda>p. length p = sz x \<and> E x p) (?L xs))"
    using emits_bind [OF hd Cons.IH] Cons.prems by simp
  then have "emits (\<lambda>s. f x s \<bind> for_each f xs) (sz x + sum_list (map sz xs)) (?L (x # xs))"
  proof (rule emits_mono)
    fix p assume "seqp (\<lambda>p. length p = sz x \<and> E x p) (?L xs) p"
    then obtain p1 ps where "p = p1 @ concat ps" "length p1 = sz x" "E x p1"
        "list_all2 (\<lambda>x p. length p = sz x \<and> E x p) xs ps"
      unfolding seqp_def by blast
    then show "?L (x # xs) p" by (intro exI [of _ "p1 # ps"]) simp
  qed
  then show ?case by simp
qed

lemma writes_of_emits: "emits c n P \<Longrightarrow> writes (\<lambda>bs. c (bs, 0)) n P"
  unfolding emits_def writes_def by (metis append_Nil list.size(3) add_0)

section \<open>Loops\<close>

text \<open>
  A \<open>while\<close> loop over a state.  The result is \<open>None\<close> when the body
  makes an undefined access and when the loop does not end; the two are told
  apart by \<open>while_opt_stuck\<close> below, which shows a defined body that
  leaves the state unchanged.
\<close>

partial_function (option) while_opt :: "('s \<Rightarrow> bool) \<Rightarrow> ('s \<Rightarrow> 's option) \<Rightarrow> 's \<Rightarrow> 's option" where
  "while_opt c b s = (if c s then b s \<bind> while_opt c b else Some s)"

lemma while_opt_step: "c s \<Longrightarrow> b s = Some s' \<Longrightarrow> while_opt c b s = while_opt c b s'"
  by (subst while_opt.simps) simp

lemma while_opt_done: "\<not> c s \<Longrightarrow> while_opt c b s = Some s"
  by (subst while_opt.simps) simp

lemma while_opt_fault: "c s \<Longrightarrow> b s = None \<Longrightarrow> while_opt c b s = None"
  by (subst while_opt.simps) simp

lemma while_opt_Some_induct [consumes 1, case_names stop step]:
  assumes "while_opt c b s = Some y"
    and "\<And>s. \<not> c s \<Longrightarrow> P s s"
    and "\<And>s s' y. c s \<Longrightarrow> b s = Some s' \<Longrightarrow> P s' y \<Longrightarrow> P s y"
  shows "P s y"
proof -
  have "c = c \<longrightarrow> b = b \<longrightarrow> P s y"
    by (rule while_opt.raw_induct [where P = "\<lambda>c' b' s y. c' = c \<longrightarrow> b' = b \<longrightarrow> P s y", OF _ assms(1)])
       (auto split: if_splits simp: bind_eq_Some_conv intro: assms(2,3))
  then show ?thesis by simp
qed

lemma while_opt_stuck:
  assumes "c s" and "b s = Some s"
  shows "while_opt c b s = None"
proof (rule ccontr)
  assume "while_opt c b s \<noteq> None"
  then obtain y where "while_opt c b s = Some y" by auto
  then have "s = s \<longrightarrow> False"
    by (rule while_opt_Some_induct [where P = "\<lambda>x y. x = s \<longrightarrow> False"]) (use assms in auto)
  then show False by simp
qed

text \<open>A loop whose every iteration succeeds and decreases a measure returns.\<close>

lemma while_opt_total:
  assumes "I s"
    and "\<And>s. I s \<Longrightarrow> c s \<Longrightarrow> \<exists>s'. b s = Some s' \<and> I s' \<and> (m s' :: nat) < m s"
  shows "\<exists>s'. while_opt c b s = Some s' \<and> I s' \<and> \<not> c s'"
  using assms(1)
proof (induction "m s" arbitrary: s rule: less_induct)
  case less
  show ?case
  proof (cases "c s")
    case True
    then obtain s' where "b s = Some s'" "I s'" "m s' < m s"
      using assms(2) less.prems by blast
    then show ?thesis using less.hyps [of s'] while_opt_step [of c s b s'] True by simp
  qed (use less.prems in \<open>auto simp: while_opt_done\<close>)
qed

text \<open>
  Decoding a sequence of items laid out one after the other.  The invariant
  speaks about the items decoded so far.
\<close>

lemma while_opt_items:
  assumes "list_all2 E xs ps" and "bs = pre @ concat ps @ rest" and "Inv [] st"
    and guard: "\<And>xs1 st pos. Inv xs1 st \<Longrightarrow> c (st, pos) \<longleftrightarrow> pos < length pre + length (concat ps)"
    and body: "\<And>st pre x p suf xs1 xs2. bs = pre @ p @ suf \<Longrightarrow> xs = xs1 @ x # xs2 \<Longrightarrow> E x p \<Longrightarrow> Inv xs1 st \<Longrightarrow>
      p \<noteq> [] \<and> (\<exists>st'. b (st, length pre) = Some (st', length pre + length p) \<and> Inv (xs1 @ [x]) st')"
  shows "\<exists>st'. while_opt c b (st, length pre) = Some (st', length pre + length (concat ps)) \<and> Inv xs st'"
proof -
  define fin where "fin = length pre + length (concat ps)"
  have "\<exists>st'. while_opt c b (st, length pre') = Some (st', fin) \<and> Inv xs st'"
    if "list_all2 E ys qs" "bs = pre' @ concat qs @ rest" "Inv xs1 st"
       "xs = xs1 @ ys" "fin = length pre' + length (concat qs)" for ys qs pre' st xs1
    using that
  proof (induction arbitrary: pre' st xs1 rule: list_all2_induct)
    case Nil
    then show ?case using guard [of xs1 st fin] by (auto simp: fin_def while_opt_done)
  next
    case (Cons x ys p qs)
    obtain st' where *: "p \<noteq> []" "b (st, length pre') = Some (st', length pre' + length p)" "Inv (xs1 @ [x]) st'"
      using body [of pre' p "concat qs @ rest" xs1 x ys st] Cons.prems Cons.hyps by auto
    have "while_opt c b (st, length pre') = while_opt c b (st', length (pre' @ p))"
      using * Cons.prems guard [of xs1 st] by (intro while_opt_step) (auto simp: fin_def)
    moreover have "\<exists>st''. while_opt c b (st', length (pre' @ p)) = Some (st'', fin) \<and> Inv xs st''"
      using Cons.prems * by (intro Cons.IH) auto
    ultimately show ?case by simp
  qed
  from this [OF assms(1,2,3)] show ?thesis by (simp add: fin_def)
qed

end
