(* ===== verification/Dps_Types.thy ===== *)
theory Dps_Types
  imports Dove_Prelude
begin

text \<open>
  The structures of \<open>dps_client_common.h\<close> and the constants of
  \<open>dps_pkt.h\<close>.  Structs are records; a MAC address is a list of six
  bytes, an IPv6 address a list of sixteen.  The union of \<open>ip4\<close> and
  \<open>ip6\<close> is kept as its sixteen bytes, of which \<open>ip4\<close> is the
  host-order integer in the first four, so that code which reads one view
  after writing the other means here what it means in C.  The zero-length and
  one-element arrays at the end of a struct are lists.  The anonymous union
  inside \<open>dps_client_data_t\<close> is a datatype with one constructor for
  each member.
\<close>

section \<open>Constants\<close>

abbreviation (input) AF_INET :: u16 where "AF_INET \<equiv> 2"
abbreviation (input) AF_INET6 :: u16 where "AF_INET6 \<equiv> 10"
abbreviation (input) MAX_VIP_ADDR :: nat where "MAX_VIP_ADDR \<equiv> 16"
abbreviation (input) DPS_MAX_BUFF_SZ :: nat where "DPS_MAX_BUFF_SZ \<equiv> 32768"
abbreviation (input) DPS_SEND_BUFF_SZ :: nat where "DPS_SEND_BUFF_SZ \<equiv> 4096"

abbreviation (input) DPS_SUCCESS :: u32 where "DPS_SUCCESS \<equiv> 0"
abbreviation (input) DPS_ERROR :: u32 where "DPS_ERROR \<equiv> 1"
abbreviation (input) DPS_ERROR_EXCEEDS_CAP :: u32 where "DPS_ERROR_EXCEEDS_CAP \<equiv> 2"
abbreviation (input) DPS_ERROR_NO_RESOURCES :: u32 where "DPS_ERROR_NO_RESOURCES \<equiv> 3"
abbreviation (input) DPS_XMIT_ERROR :: u32 where "DPS_XMIT_ERROR \<equiv> 4"
abbreviation (input) DPS_NO_ERR :: u32 where "DPS_NO_ERR \<equiv> 0"
abbreviation (input) DPS_NO_RESPONSE :: u32 where "DPS_NO_RESPONSE \<equiv> 14"

abbreviation (input) DPS_ENDPOINT_LOC_REQ :: u8 where "DPS_ENDPOINT_LOC_REQ \<equiv> 1"
abbreviation (input) DPS_ENDPOINT_LOC_REPLY :: u8 where "DPS_ENDPOINT_LOC_REPLY \<equiv> 2"
abbreviation (input) DPS_POLICY_REQ :: u8 where "DPS_POLICY_REQ \<equiv> 3"
abbreviation (input) DPS_POLICY_REPLY :: u8 where "DPS_POLICY_REPLY \<equiv> 4"
abbreviation (input) DPS_POLICY_INVALIDATE :: u8 where "DPS_POLICY_INVALIDATE \<equiv> 5"
abbreviation (input) DPS_ENDPOINT_UPDATE :: u8 where "DPS_ENDPOINT_UPDATE \<equiv> 6"
abbreviation (input) DPS_ENDPOINT_UPDATE_REPLY :: u8 where "DPS_ENDPOINT_UPDATE_REPLY \<equiv> 7"
abbreviation (input) DPS_ADDR_RESOLVE :: u8 where "DPS_ADDR_RESOLVE \<equiv> 8"
abbreviation (input) DPS_ADDR_REPLY :: u8 where "DPS_ADDR_REPLY \<equiv> 9"
abbreviation (input) DPS_INTERNAL_GW_REQ :: u8 where "DPS_INTERNAL_GW_REQ \<equiv> 10"
abbreviation (input) DPS_INTERNAL_GW_REPLY :: u8 where "DPS_INTERNAL_GW_REPLY \<equiv> 11"
abbreviation (input) DPS_UNSOLICITED_VNID_POLICY_LIST :: u8 where "DPS_UNSOLICITED_VNID_POLICY_LIST \<equiv> 12"
abbreviation (input) DPS_BCAST_LIST_REQ :: u8 where "DPS_BCAST_LIST_REQ \<equiv> 13"
abbreviation (input) DPS_BCAST_LIST_REPLY :: u8 where "DPS_BCAST_LIST_REPLY \<equiv> 14"
abbreviation (input) DPS_VM_MIGRATION_EVENT :: u8 where "DPS_VM_MIGRATION_EVENT \<equiv> 15"
abbreviation (input) DPS_MCAST_SENDER_REGISTRATION :: u8 where "DPS_MCAST_SENDER_REGISTRATION \<equiv> 16"
abbreviation (input) DPS_MCAST_SENDER_DEREGISTRATION :: u8 where "DPS_MCAST_SENDER_DEREGISTRATION \<equiv> 17"
abbreviation (input) DPS_MCAST_RECEIVER_JOIN :: u8 where "DPS_MCAST_RECEIVER_JOIN \<equiv> 18"
abbreviation (input) DPS_MCAST_RECEIVER_LEAVE :: u8 where "DPS_MCAST_RECEIVER_LEAVE \<equiv> 19"
abbreviation (input) DPS_MCAST_RECEIVER_DS_LIST :: u8 where "DPS_MCAST_RECEIVER_DS_LIST \<equiv> 20"
abbreviation (input) DPS_UNSOLICITED_BCAST_LIST_REPLY :: u8 where "DPS_UNSOLICITED_BCAST_LIST_REPLY \<equiv> 21"
abbreviation (input) DPS_UNSOLICITED_INTERNAL_GW_REPLY :: u8 where "DPS_UNSOLICITED_INTERNAL_GW_REPLY \<equiv> 22"
abbreviation (input) DPS_GENERAL_ACK :: u8 where "DPS_GENERAL_ACK \<equiv> 23"
abbreviation (input) DPS_UNSOLICITED_EXTERNAL_GW_LIST :: u8 where "DPS_UNSOLICITED_EXTERNAL_GW_LIST \<equiv> 24"
abbreviation (input) DPS_UNSOLICITED_VLAN_GW_LIST :: u8 where "DPS_UNSOLICITED_VLAN_GW_LIST \<equiv> 25"
abbreviation (input) DPS_TUNNEL_REGISTER :: u8 where "DPS_TUNNEL_REGISTER \<equiv> 26"
abbreviation (input) DPS_TUNNEL_DEREGISTER :: u8 where "DPS_TUNNEL_DEREGISTER \<equiv> 27"
abbreviation (input) DPS_REG_DEREGISTER_ACK :: u8 where "DPS_REG_DEREGISTER_ACK \<equiv> 28"
abbreviation (input) DPS_EXTERNAL_GW_LIST_REQ :: u8 where "DPS_EXTERNAL_GW_LIST_REQ \<equiv> 29"
abbreviation (input) DPS_EXTERNAL_GW_LIST_REPLY :: u8 where "DPS_EXTERNAL_GW_LIST_REPLY \<equiv> 30"
abbreviation (input) DPS_VLAN_GW_LIST_REQ :: u8 where "DPS_VLAN_GW_LIST_REQ \<equiv> 31"
abbreviation (input) DPS_VLAN_GW_LIST_REPLY :: u8 where "DPS_VLAN_GW_LIST_REPLY \<equiv> 32"
abbreviation (input) DPS_UNSOLICITED_ENDPOINT_LOC_REPLY :: u8 where "DPS_UNSOLICITED_ENDPOINT_LOC_REPLY \<equiv> 33"
abbreviation (input) DPS_VNID_POLICY_LIST_REQ :: u8 where "DPS_VNID_POLICY_LIST_REQ \<equiv> 34"
abbreviation (input) DPS_VNID_POLICY_LIST_REPLY :: u8 where "DPS_VNID_POLICY_LIST_REPLY \<equiv> 35"
abbreviation (input) DPS_MCAST_CTRL_GW_REQ :: u8 where "DPS_MCAST_CTRL_GW_REQ \<equiv> 36"
abbreviation (input) DPS_MCAST_CTRL_GW_REPLY :: u8 where "DPS_MCAST_CTRL_GW_REPLY \<equiv> 37"
abbreviation (input) DPS_UNSOLICITED_VNID_DEL_REQ :: u8 where "DPS_UNSOLICITED_VNID_DEL_REQ \<equiv> 38"
abbreviation (input) DPS_CTRL_PLANE_HB :: u8 where "DPS_CTRL_PLANE_HB \<equiv> 39"
abbreviation (input) DPS_GET_DCS_NODE :: u8 where "DPS_GET_DCS_NODE \<equiv> 40"
abbreviation (input) DPS_UNSOLICITED_VM_LOC_INFO :: u8 where "DPS_UNSOLICITED_VM_LOC_INFO \<equiv> 41"
abbreviation (input) DPS_MAX_MSG_TYPE :: u8 where "DPS_MAX_MSG_TYPE \<equiv> 42"

abbreviation (input) DPS_TRANSACTION_NORMAL :: u8 where "DPS_TRANSACTION_NORMAL \<equiv> 1"
abbreviation (input) DPS_POLICY_TYPE_CONNECTIVITY :: u8 where "DPS_POLICY_TYPE_CONNECTIVITY \<equiv> 1"
abbreviation (input) DPS_POLICY_TYPE_SOURCE_ROUTING :: u8 where "DPS_POLICY_TYPE_SOURCE_ROUTING \<equiv> 2"

abbreviation (input) MCAST_ADDR_MAC :: u16 where "MCAST_ADDR_MAC \<equiv> 0"
abbreviation (input) MCAST_ADDR_V4 :: u16 where "MCAST_ADDR_V4 \<equiv> 1"
abbreviation (input) MCAST_ADDR_V6 :: u16 where "MCAST_ADDR_V6 \<equiv> 2"
abbreviation (input) MCAST_ADDR_V4_ICB_RANGE :: u16 where "MCAST_ADDR_V4_ICB_RANGE \<equiv> 3"

abbreviation (input) VMAC_TLV :: u8 where "VMAC_TLV \<equiv> 1"
abbreviation (input) IP_ADDR_TLV :: u8 where "IP_ADDR_TLV \<equiv> 2"
abbreviation (input) EUID_TLV :: u8 where "EUID_TLV \<equiv> 3"
abbreviation (input) ENDPOINT_LOC_TLV :: u8 where "ENDPOINT_LOC_TLV \<equiv> 5"
abbreviation (input) SERVICE_LOC_TLV :: u8 where "SERVICE_LOC_TLV \<equiv> 6"
abbreviation (input) POLICY_TLV :: u8 where "POLICY_TLV \<equiv> 7"
abbreviation (input) POLICY_ID_TLV :: u8 where "POLICY_ID_TLV \<equiv> 8"
abbreviation (input) POLICY_TYPE_TLV :: u8 where "POLICY_TYPE_TLV \<equiv> 9"
abbreviation (input) REPLY_SERVICE_LOC_TLV :: u8 where "REPLY_SERVICE_LOC_TLV \<equiv> 10"
abbreviation (input) ENDPOINT_INFO_TLV :: u8 where "ENDPOINT_INFO_TLV \<equiv> 11"
abbreviation (input) IPV4_ADDR_LIST_TLV :: u8 where "IPV4_ADDR_LIST_TLV \<equiv> 12"
abbreviation (input) IPV6_ADDR_LIST_TLV :: u8 where "IPV6_ADDR_LIST_TLV \<equiv> 13"
abbreviation (input) MCAST_ADDR_MAC_TLV :: u8 where "MCAST_ADDR_MAC_TLV \<equiv> 14"
abbreviation (input) MCAST_ADDR_V4_TLV :: u8 where "MCAST_ADDR_V4_TLV \<equiv> 15"
abbreviation (input) MCAST_ADDR_V4_ICB_RANGE_TLV :: u8 where "MCAST_ADDR_V4_ICB_RANGE_TLV \<equiv> 16"
abbreviation (input) MCAST_ADDR_V6_TLV :: u8 where "MCAST_ADDR_V6_TLV \<equiv> 17"
abbreviation (input) MCAST_GRP_REC_TLV :: u8 where "MCAST_GRP_REC_TLV \<equiv> 18"
abbreviation (input) TUNNEL_LIST_TLV :: u8 where "TUNNEL_LIST_TLV \<equiv> 19"
abbreviation (input) VNID_TUNNEL_LIST_TLV :: u8 where "VNID_TUNNEL_LIST_TLV \<equiv> 20"
abbreviation (input) ENDPOINT_UPDATE_REPLY_TLV :: u8 where "ENDPOINT_UPDATE_REPLY_TLV \<equiv> 21"
abbreviation (input) EPRI_TLV :: u8 where "EPRI_TLV \<equiv> 22"
abbreviation (input) IP4_INFO_LIST_TLV :: u8 where "IP4_INFO_LIST_TLV \<equiv> 23"
abbreviation (input) IP6_INFO_LIST_TLV :: u8 where "IP6_INFO_LIST_TLV \<equiv> 24"

abbreviation (input) DPS_PKT_HDR_TLV_LEN :: nat where "DPS_PKT_HDR_TLV_LEN \<equiv> 4"
abbreviation (input) DPS_PKT_HDR_LEN :: nat where "DPS_PKT_HDR_LEN \<equiv> 20"
abbreviation (input) DPS_MAC_ADDR_LEN :: nat where "DPS_MAC_ADDR_LEN \<equiv> 6"
abbreviation (input) DPS_PROTOCOL_VER :: u8 where "DPS_PROTOCOL_VER \<equiv> 1"
abbreviation (input) DPS_VNID_LEN :: nat where "DPS_VNID_LEN \<equiv> 4"
abbreviation (input) DPS_DATA_VER_LEN :: nat where "DPS_DATA_VER_LEN \<equiv> 4"
abbreviation (input) DPS_IP4_ADDR_LEN :: nat where "DPS_IP4_ADDR_LEN \<equiv> 4"
abbreviation (input) DPS_IP6_ADDR_LEN :: nat where "DPS_IP6_ADDR_LEN \<equiv> 16"
abbreviation (input) DPS_IP4_TUNNEL_INFO_LEN :: nat where "DPS_IP4_TUNNEL_INFO_LEN \<equiv> 16"
abbreviation (input) DPS_IP6_TUNNEL_INFO_LEN :: nat where "DPS_IP6_TUNNEL_INFO_LEN \<equiv> 28"
abbreviation (input) DPS_TLV_HDR_LEN :: nat where "DPS_TLV_HDR_LEN \<equiv> 4"
abbreviation (input) DPS_VMAC_TLV_LEN :: nat where "DPS_VMAC_TLV_LEN \<equiv> 12"
abbreviation (input) DPS_IP4_TLV_LEN :: nat where "DPS_IP4_TLV_LEN \<equiv> 8"
abbreviation (input) DPS_IP6_TLV_LEN :: nat where "DPS_IP6_TLV_LEN \<equiv> 20"
abbreviation (input) DPS_EUID_TLV_LEN :: nat where "DPS_EUID_TLV_LEN \<equiv> 16"
abbreviation (input) DPS_SVCLOC4_TLV_LEN :: nat where "DPS_SVCLOC4_TLV_LEN \<equiv> 12"
abbreviation (input) DPS_SVCLOC6_TLV_LEN :: nat where "DPS_SVCLOC6_TLV_LEN \<equiv> 24"
abbreviation (input) DPS_POLICY_ID_TLV_LEN :: nat where "DPS_POLICY_ID_TLV_LEN \<equiv> 16"
abbreviation (input) DPS_ENDPOINT4_INFO_TLV_LEN :: nat where "DPS_ENDPOINT4_INFO_TLV_LEN \<equiv> 24"
abbreviation (input) DPS_ENDPOINT6_INFO_TLV_LEN :: nat where "DPS_ENDPOINT6_INFO_TLV_LEN \<equiv> 36"

text \<open>Sizes of structs on the 64-bit hosts, where the code uses \<open>sizeof\<close>.\<close>

abbreviation (input) SIZEOF_CLIENT_DATA :: nat where "SIZEOF_CLIENT_DATA \<equiv> 552"
abbreviation (input) SIZEOF_TUNNEL_ENDPOINT :: nat where "SIZEOF_TUNNEL_ENDPOINT \<equiv> 28"

section \<open>Addresses and tunnels\<close>

record ip_addr_t =
  ia_family :: u16
  ia_port :: u16
  ia_xport_type :: u16
  ia_port_http :: u16
  ia_ip6 :: bytes

definition ia_ip4 :: "ip_addr_t \<Rightarrow> u32" where
  "ia_ip4 a = of_bytes32 (take 4 (ia_ip6 a))"

definition set_ip4 :: "u32 \<Rightarrow> bytes \<Rightarrow> bytes" where
  "set_ip4 v u = bytes32 v @ drop 4 u"

definition zero_ip_addr :: ip_addr_t where
  "zero_ip_addr = \<lparr>ia_family = 0, ia_port = 0, ia_xport_type = 0, ia_port_http = 0, ia_ip6 = replicate 16 0\<rparr>"

record dps_ip4_info_t =
  i4_ip :: u32
  i4_flags :: u16
  i4_reserved :: u16

record dps_ip6_info_t =
  i6_ip :: bytes
  i6_flags :: u16
  i6_reserved :: u16

record dps_ip4_info_list_t =
  i4l_num_of_ips :: u32
  i4l_ip_info :: "dps_ip4_info_t list"

record dps_ip6_info_list_t =
  i6l_num_of_ips :: u32
  i6l_ip_info :: "dps_ip6_info_t list"

record dps_tunnel_endpoint_t =
  te_family :: u16
  te_port :: u16
  te_vnid :: u32
  te_tunnel_type :: u16
  te_flags :: u16
  te_ip6 :: bytes

definition te_ip4 :: "dps_tunnel_endpoint_t \<Rightarrow> u32" where
  "te_ip4 t = of_bytes32 (take 4 (te_ip6 t))"

record dps_tunnel_list_t =
  tl_num_of_tunnels :: u16
  tl_tunnel_list :: "dps_tunnel_endpoint_t list"

section \<open>Client messages\<close>

record dps_client_hdr_t =
  ch_type :: u8
  ch_sub_type :: u8
  ch_client_id :: u8
  ch_transaction_type :: u8
  ch_vnid :: u32
  ch_resp_status :: u32
  ch_query_id :: u32
  ch_reply_addr :: ip_addr_t

record dps_endpoint_loc_req_t =
  lq_vnid :: u32
  lq_mac :: bytes
  lq_vm_ip_addr :: ip_addr_t
  lq_dps_client_addr :: ip_addr_t

record dps_endpoint_loc_reply_t =
  lr_vnid :: u32
  lr_mac :: bytes
  lr_vm_ip_addr :: ip_addr_t
  lr_version :: u32
  lr_tunnel_info :: dps_tunnel_list_t

record dps_endpoint_update_t =
  eu_vnid :: u32
  eu_mac :: bytes
  eu_version :: u32
  eu_vm_ip_addr :: ip_addr_t
  eu_dps_client_addr :: ip_addr_t
  eu_tunnel_info :: dps_tunnel_list_t

record dps_endpoint_update_reply_t =
  ur_vnid :: u32
  ur_mac :: bytes
  ur_version :: u32
  ur_num_of_vip :: u32
  ur_vm_ip_addr :: "ip_addr_t list"
  ur_tunnel_info :: dps_tunnel_list_t

record dps_endpoint_info_t =
  ei_vnid :: u32
  ei_mac :: bytes
  ei_vm_ip_addr :: ip_addr_t

record src_dst_vnid_t =
  sd_svnid :: u32
  sd_dvnid :: u32

text \<open>
  In \<open>dps_policy_t\<close> the connectivity and source routing members share
  their first halfword: \<open>num_permit_rules\<close> is also
  \<open>address_count\<close>.
\<close>

record dps_policy_t =
  po_version :: u8
  po_policy_type :: u8
  po_num_permit_rules :: u16
  po_num_deny_rules :: u16
  po_src_dst_vnid :: "src_dst_vnid_t list"

abbreviation po_address_count :: "dps_policy_t \<Rightarrow> u16" where
  "po_address_count \<equiv> po_num_permit_rules"

record dps_policy_info_t =
  pi_policy_id :: u32
  pi_version :: u32
  pi_ttl :: u32
  pi_dps_policy :: dps_policy_t

record dps_policy_req_t =
  pq_dst_endpoint :: dps_endpoint_info_t
  pq_src_endpoint :: dps_endpoint_info_t
  pq_dps_client_addr :: ip_addr_t

record dps_policy_reply_t =
  pr_dps_policy_info :: dps_policy_info_t
  pr_dst_endpoint_loc_reply :: dps_endpoint_loc_reply_t

record dps_bulk_vnid_policy_t =
  bp_num_permit_rules :: u16
  bp_num_deny_rules :: u16
  bp_src_dst_vnid :: "src_dst_vnid_t list"

record dps_epri_t =
  ep_vnid :: u32
  ep_mac :: bytes
  ep_vm_ip4_addr :: dps_ip4_info_list_t
  ep_vm_ip6_addr :: dps_ip6_info_list_t
  ep_tunnel_info :: dps_tunnel_list_t

text \<open>
  The packed address lists hold host-order 32-bit words for IPv4 followed by
  sixteen raw bytes for each IPv6 address, so the trailing array is kept as
  bytes.
\<close>

record dps_internal_gw_t =
  gw_num_v4_gw :: u16
  gw_num_v6_gw :: u16
  gw_gw_list :: bytes

record dps_pkd_tunnel_list_t =
  pk_vnid :: u32
  pk_num_v4_tunnels :: u16
  pk_num_v6_tunnels :: u16
  pk_tunnel_list :: bytes

record dps_vm_migration_event_t =
  vm_migrated_vm_info :: dps_endpoint_info_t
  vm_src_vm_loc :: dps_endpoint_loc_reply_t

record dps_tunnel_reg_dereg_t =
  td_dps_client_addr :: ip_addr_t
  td_tunnel_info :: dps_tunnel_list_t

record dps_mcast_addr_t =
  ma_mcast_addr_type :: u16
  ma_mcast_mac :: bytes
  ma_mcast_ip6 :: bytes

definition ma_mcast_ip4 :: "dps_mcast_addr_t \<Rightarrow> u32" where
  "ma_mcast_ip4 a = of_bytes32 (take 4 (ma_mcast_ip6 a))"

record dps_mcast_group_record_t =
  mg_mcast_addr :: dps_mcast_addr_t
  mg_num_of_srcs :: u16
  mg_family :: u16
  mg_src_addr :: bytes

record dps_mcast_sender_t =
  ms_tunnel_endpoint :: ip_addr_t
  ms_mcast_src_vm :: dps_endpoint_info_t
  ms_mcast_addr :: dps_mcast_addr_t
  ms_dps_client_addr :: ip_addr_t

record dps_mcast_receiver_t =
  mr_tunnel_endpoint :: ip_addr_t
  mr_dps_client_addr :: ip_addr_t
  mr_mcast_group_rec :: dps_mcast_group_record_t

record dps_mcast_receiver_ds_list_t =
  md_mcast_addr :: dps_mcast_addr_t
  md_num_of_rec :: u32
  md_mcast_recvr_list :: "dps_pkd_tunnel_list_t list"

datatype dps_client_body =
    Endpoint_loc_req dps_endpoint_loc_req_t
  | Endpoint_loc_reply dps_endpoint_loc_reply_t
  | Policy_req dps_policy_req_t
  | Policy_reply dps_policy_reply_t
  | Endpoint_update dps_endpoint_update_t
  | Endpoint_update_reply dps_endpoint_update_reply_t
  | Internal_gw_list dps_internal_gw_t
  | Bulk_vnid_policy dps_bulk_vnid_policy_t
  | Gen_msg_req ip_addr_t
  | Dove_switch_list dps_pkd_tunnel_list_t
  | Vm_migration_event dps_vm_migration_event_t
  | Mcast_sender dps_mcast_sender_t
  | Mcast_receiver dps_mcast_receiver_t
  | Mcast_receiver_ds_list dps_mcast_receiver_ds_list_t
  | Tunnel_info dps_tunnel_list_t
  | Tunnel_reg_dereg dps_tunnel_reg_dereg_t
  | Vm_invalidate_msg dps_epri_t
  | No_body

record dps_client_data_t =
  cd_context :: nat
  cd_hdr :: dps_client_hdr_t
  cd_body :: dps_client_body

section \<open>Zeroed structures and well-formed ones\<close>

text \<open>The contents of a client buffer after \<open>memset(buff, 0, sizeof(dps_client_data_t))\<close>.\<close>

definition zero_mac :: bytes where "zero_mac = replicate 6 0"

definition zero_hdr :: dps_client_hdr_t where
  "zero_hdr = \<lparr>ch_type = 0, ch_sub_type = 0, ch_client_id = 0, ch_transaction_type = 0, ch_vnid = 0,
     ch_resp_status = 0, ch_query_id = 0, ch_reply_addr = zero_ip_addr\<rparr>"

definition zero_tunnel_list :: dps_tunnel_list_t where
  "zero_tunnel_list = \<lparr>tl_num_of_tunnels = 0, tl_tunnel_list = []\<rparr>"

definition zero_loc_req :: dps_endpoint_loc_req_t where
  "zero_loc_req = \<lparr>lq_vnid = 0, lq_mac = zero_mac, lq_vm_ip_addr = zero_ip_addr, lq_dps_client_addr = zero_ip_addr\<rparr>"

definition zero_loc_reply :: dps_endpoint_loc_reply_t where
  "zero_loc_reply = \<lparr>lr_vnid = 0, lr_mac = zero_mac, lr_vm_ip_addr = zero_ip_addr, lr_version = 0,
     lr_tunnel_info = zero_tunnel_list\<rparr>"

definition zero_update :: dps_endpoint_update_t where
  "zero_update = \<lparr>eu_vnid = 0, eu_mac = zero_mac, eu_version = 0, eu_vm_ip_addr = zero_ip_addr,
     eu_dps_client_addr = zero_ip_addr, eu_tunnel_info = zero_tunnel_list\<rparr>"

definition zero_update_reply :: dps_endpoint_update_reply_t where
  "zero_update_reply = \<lparr>ur_vnid = 0, ur_mac = zero_mac, ur_version = 0, ur_num_of_vip = 0,
     ur_vm_ip_addr = replicate MAX_VIP_ADDR zero_ip_addr, ur_tunnel_info = zero_tunnel_list\<rparr>"

definition zero_endpoint_info :: dps_endpoint_info_t where
  "zero_endpoint_info = \<lparr>ei_vnid = 0, ei_mac = zero_mac, ei_vm_ip_addr = zero_ip_addr\<rparr>"

definition zero_policy_info :: dps_policy_info_t where
  "zero_policy_info = \<lparr>pi_policy_id = 0, pi_version = 0, pi_ttl = 0, pi_dps_policy =
     \<lparr>po_version = 0, po_policy_type = 0, po_num_permit_rules = 0, po_num_deny_rules = 0, po_src_dst_vnid = []\<rparr>\<rparr>"

definition zero_mcast_addr :: dps_mcast_addr_t where
  "zero_mcast_addr = \<lparr>ma_mcast_addr_type = 0, ma_mcast_mac = zero_mac, ma_mcast_ip6 = replicate 16 0\<rparr>"

definition zero_epri :: dps_epri_t where
  "zero_epri = \<lparr>ep_vnid = 0, ep_mac = zero_mac,
     ep_vm_ip4_addr = \<lparr>i4l_num_of_ips = 0, i4l_ip_info = replicate MAX_VIP_ADDR \<lparr>i4_ip = 0, i4_flags = 0, i4_reserved = 0\<rparr>\<rparr>,
     ep_vm_ip6_addr = \<lparr>i6l_num_of_ips = 0, i6l_ip_info = replicate MAX_VIP_ADDR \<lparr>i6_ip = replicate 16 0, i6_flags = 0, i6_reserved = 0\<rparr>\<rparr>,
     ep_tunnel_info = zero_tunnel_list\<rparr>"

definition wf_mac :: "bytes \<Rightarrow> bool" where "wf_mac m \<longleftrightarrow> length m = 6"

definition wf_ip :: "ip_addr_t \<Rightarrow> bool" where "wf_ip a \<longleftrightarrow> length (ia_ip6 a) = 16"

definition wf_tunnel :: "dps_tunnel_endpoint_t \<Rightarrow> bool" where
  "wf_tunnel t \<longleftrightarrow> length (te_ip6 t) = 16"

definition wf_tunnel_list :: "dps_tunnel_list_t \<Rightarrow> bool" where
  "wf_tunnel_list l \<longleftrightarrow> unat (tl_num_of_tunnels l) = length (tl_tunnel_list l) \<and> list_all wf_tunnel (tl_tunnel_list l)"

text \<open>What the retransmission timer tells the owner of a packet.\<close>

datatype raw_proto_retransmit_status_t =
    RAW_PROTO_RETRANSMIT_ERR
  | RAW_PROTO_MAX_NUM_RETRANSMIT_EXCEEDED
  | RAW_PROTO_MAX_NUM_OUTSTANDING_PKTS_EXCEEDED
  | RAW_PROTO_RETRANSMIT_OK

end
