(* ===== verification/Dps_Tlv_Set.thy ===== *)
theory Dps_Tlv_Set
  imports Dps_Types
begin

text \<open>
  The \<open>dps_set_*\<close> routines of \<open>dps_pkt_process.c\<close>: each writes
  one TLV (type, length, value) of the DPS client-server protocol at the
  beginning of a buffer and returns the number of bytes used.  The bytes the
  code leaves untouched (padding, \<open>xport_type\<close>) keep their old
  contents.
\<close>

section \<open>Headers and fixed-size TLVs\<close>

definition dps_set_tlv_hdr :: "u8 \<Rightarrow> u8 \<Rightarrow> u16 \<Rightarrow> bytes \<Rightarrow> bytes option" where
  "dps_set_tlv_hdr ver data_type len buff = do {
     b \<leftarrow> st8 0 ver buff;
     b \<leftarrow> st8 1 data_type b;
     st16 2 (htons len) b }"

definition dps_set_ip4_tlv :: "u32 \<Rightarrow> bytes \<Rightarrow> cursor option" where
  "dps_set_ip4_tlv ip4 buff = do {
     b \<leftarrow> dps_set_tlv_hdr 0x04 IP_ADDR_TLV (of_nat (DPS_IP4_TLV_LEN - DPS_TLV_HDR_LEN)) buff;
     b \<leftarrow> st32 DPS_TLV_HDR_LEN (htonl ip4) b;
     Some (b, DPS_IP4_TLV_LEN) }"

definition dps_set_ip6_tlv :: "bytes \<Rightarrow> bytes \<Rightarrow> cursor option" where
  "dps_set_ip6_tlv ip6 buff = do {
     b \<leftarrow> dps_set_tlv_hdr 0x06 IP_ADDR_TLV (of_nat (DPS_IP6_TLV_LEN - DPS_TLV_HDR_LEN)) buff;
     src \<leftarrow> peek 0 DPS_IP6_ADDR_LEN ip6;
     b \<leftarrow> poke DPS_TLV_HDR_LEN src b;
     Some (b, DPS_IP6_TLV_LEN) }"

definition dps_set_vmac_tlv :: "bytes \<Rightarrow> bytes \<Rightarrow> cursor option" where
  "dps_set_vmac_tlv mac buff = do {
     b \<leftarrow> dps_set_tlv_hdr 0x01 VMAC_TLV (of_nat (DPS_VMAC_TLV_LEN - DPS_TLV_HDR_LEN)) buff;
     src \<leftarrow> peek 0 DPS_MAC_ADDR_LEN mac;
     b \<leftarrow> poke DPS_TLV_HDR_LEN src b;
     Some (b, DPS_VMAC_TLV_LEN) }"

definition dps_set_ip_tlv :: "ip_addr_t \<Rightarrow> bytes \<Rightarrow> cursor option" where
  "dps_set_ip_tlv ip buff =
     (if ia_family ip = AF_INET \<or> ia_family ip = 0 then dps_set_ip4_tlv (ia_ip4 ip) buff
      else if ia_family ip = AF_INET6 then dps_set_ip6_tlv (ia_ip6 ip) buff
      else Some (buff, 0))"

text \<open>The caller passes the address of a \<open>vnid\<close> field directly followed by a MAC.\<close>

definition dps_set_euid_tlv :: "u32 \<Rightarrow> bytes \<Rightarrow> bytes \<Rightarrow> cursor option" where
  "dps_set_euid_tlv vnid mac buff = do {
     b \<leftarrow> dps_set_tlv_hdr 0x01 EUID_TLV (of_nat (DPS_EUID_TLV_LEN - DPS_TLV_HDR_LEN)) buff;
     b \<leftarrow> st32 4 (htonl vnid) b;
     src \<leftarrow> peek 0 DPS_MAC_ADDR_LEN mac;
     b \<leftarrow> poke 8 src b;
     Some (b, DPS_EUID_TLV_LEN) }"

definition dps_set_svcloc_tlv :: "ip_addr_t \<Rightarrow> bytes \<Rightarrow> cursor option" where
  "dps_set_svcloc_tlv phy_loc buff =
     (if ia_family phy_loc = AF_INET \<or> ia_family phy_loc = 0 then do {
        b \<leftarrow> dps_set_tlv_hdr 0x04 SERVICE_LOC_TLV (of_nat (DPS_SVCLOC4_TLV_LEN - DPS_TLV_HDR_LEN)) buff;
        b \<leftarrow> st32 8 (htonl (ia_ip4 phy_loc)) b;
        b \<leftarrow> st16 6 (htons (ia_port phy_loc)) b;
        Some (b, DPS_SVCLOC4_TLV_LEN) }
      else do {
        b \<leftarrow> dps_set_tlv_hdr 0x06 SERVICE_LOC_TLV (of_nat (DPS_SVCLOC6_TLV_LEN - DPS_TLV_HDR_LEN)) buff;
        src \<leftarrow> peek 0 DPS_IP6_ADDR_LEN (ia_ip6 phy_loc);
        b \<leftarrow> poke 8 src b;
        b \<leftarrow> st16 6 (htons (ia_port phy_loc)) b;
        Some (b, DPS_SVCLOC6_TLV_LEN) })"

definition dps_set_endpoint_info_tlv :: "dps_endpoint_info_t \<Rightarrow> bytes \<Rightarrow> cursor option" where
  "dps_set_endpoint_info_tlv ei buff = do {
     b \<leftarrow> st32 4 (htonl (ei_vnid ei)) buff;
     src \<leftarrow> peek 0 DPS_MAC_ADDR_LEN (ei_mac ei);
     b \<leftarrow> poke 8 src b;
     (if ia_family (ei_vm_ip_addr ei) = AF_INET6 then do {
        b \<leftarrow> dps_set_tlv_hdr 0x01 ENDPOINT_INFO_TLV (of_nat (DPS_ENDPOINT6_INFO_TLV_LEN - DPS_TLV_HDR_LEN)) b;
        at_off 16 (dps_set_ip6_tlv (ia_ip6 (ei_vm_ip_addr ei))) b }
      else do {
        b \<leftarrow> dps_set_tlv_hdr 0x01 ENDPOINT_INFO_TLV (of_nat (DPS_ENDPOINT4_INFO_TLV_LEN - DPS_TLV_HDR_LEN)) b;
        at_off 16 (dps_set_ip4_tlv (ia_ip4 (ei_vm_ip_addr ei))) b }) }"

definition dps_set_policy_id_tlv :: "u32 \<Rightarrow> u32 \<Rightarrow> u32 \<Rightarrow> bytes \<Rightarrow> cursor option" where
  "dps_set_policy_id_tlv pid version ttl buff = do {
     b \<leftarrow> dps_set_tlv_hdr 0x01 POLICY_ID_TLV (of_nat (DPS_POLICY_ID_TLV_LEN - DPS_TLV_HDR_LEN)) buff;
     b \<leftarrow> st32 4 (htonl pid) b;
     b \<leftarrow> st32 8 (htonl version) b;
     b \<leftarrow> st32 12 (htonl ttl) b;
     Some (b, DPS_POLICY_ID_TLV_LEN) }"

section \<open>Lists\<close>

text \<open>\<open>*(uintNN_t * )buff = v; buff += NN/8\<close> and a TLV whose header is set last,
  when its length is known.\<close>

definition store16 :: "u16 \<Rightarrow> bytes \<Rightarrow> cursor option" where
  "store16 v buff = do { b \<leftarrow> st16 0 v buff; Some (b, 2) }"

definition store32 :: "u32 \<Rightarrow> bytes \<Rightarrow> cursor option" where
  "store32 v buff = do { b \<leftarrow> st32 0 v buff; Some (b, 4) }"

definition store_bytes :: "nat \<Rightarrow> bytes \<Rightarrow> bytes \<Rightarrow> cursor option" where
  "store_bytes n mem buff = do { src \<leftarrow> peek 0 n mem; b \<leftarrow> poke 0 src buff; Some (b, n) }"

definition tlv_block :: "u8 \<Rightarrow> u8 \<Rightarrow> (cursor \<Rightarrow> cursor option) \<Rightarrow> bytes \<Rightarrow> cursor option" where
  "tlv_block ver data_type fill buff = do {
     (b, len) \<leftarrow> fill (buff, DPS_TLV_HDR_LEN);
     b \<leftarrow> dps_set_tlv_hdr ver data_type (of_nat (len - DPS_TLV_HDR_LEN)) b;
     Some (b, len) }"

definition dps_set_ipv4_tunnel_info :: "dps_tunnel_endpoint_t \<Rightarrow> bytes \<Rightarrow> cursor option" where
  "dps_set_ipv4_tunnel_info t buff = do {
     s \<leftarrow> put (store16 (htons 4)) (buff, 0);
     s \<leftarrow> put (store16 (htons (te_port t))) s;
     s \<leftarrow> put (store16 (htons (te_tunnel_type t))) s;
     s \<leftarrow> put (store16 (htons (te_flags t))) s;
     s \<leftarrow> put (store32 (htonl (te_vnid t))) s;
     put (store32 (htonl (te_ip4 t))) s }"

definition dps_set_ipv6_tunnel_info :: "dps_tunnel_endpoint_t \<Rightarrow> bytes \<Rightarrow> cursor option" where
  "dps_set_ipv6_tunnel_info t buff = do {
     s \<leftarrow> put (store16 (htons 6)) (buff, 0);
     s \<leftarrow> put (store16 (htons (te_port t))) s;
     s \<leftarrow> put (store16 (htons (te_tunnel_type t))) s;
     s \<leftarrow> put (store16 (htons (te_flags t))) s;
     s \<leftarrow> put (store32 (htonl (te_vnid t))) s;
     put (store_bytes DPS_IP6_ADDR_LEN (te_ip6 t)) s }"

definition set_tunnel_info :: "dps_tunnel_endpoint_t \<Rightarrow> cursor \<Rightarrow> cursor option" where
  "set_tunnel_info t s =
     (if te_family t = AF_INET then put (dps_set_ipv4_tunnel_info t) s
      else if te_family t = AF_INET6 then put (dps_set_ipv6_tunnel_info t) s
      else Some s)"

definition dps_set_tunnel_list_tlv :: "dps_tunnel_endpoint_t list \<Rightarrow> u16 \<Rightarrow> bytes \<Rightarrow> cursor option" where
  "dps_set_tunnel_list_tlv client_buff num_of_tunnels buff =
     (if num_of_tunnels = 0 then Some (buff, 0)
      else do {
        ts \<leftarrow> slots (unat num_of_tunnels) client_buff;
        tlv_block 1 TUNNEL_LIST_TLV (for_each set_tunnel_info ts) buff })"

definition dps_set_ipv4_list_tlv :: "bytes \<Rightarrow> u32 \<Rightarrow> bytes \<Rightarrow> cursor option" where
  "dps_set_ipv4_list_tlv client_buff num_v4_addr buff = do {
     b \<leftarrow> dps_set_tlv_hdr 1 IPV4_ADDR_LIST_TLV (ucast (num_v4_addr * of_nat DPS_IP4_ADDR_LEN)) buff;
     for_each (\<lambda>i s. do { v \<leftarrow> ld32 (4 * i) client_buff; put (store32 (htonl v)) s })
       [0..<unat num_v4_addr] (b, DPS_TLV_HDR_LEN) }"

definition dps_set_ipv6_list_tlv :: "bytes \<Rightarrow> u32 \<Rightarrow> bytes \<Rightarrow> cursor option" where
  "dps_set_ipv6_list_tlv client_buff num_v6_addr buff = do {
     b \<leftarrow> dps_set_tlv_hdr 1 IPV6_ADDR_LIST_TLV (ucast (num_v6_addr * of_nat DPS_IP6_ADDR_LEN)) buff;
     for_each (\<lambda>i s. do { v \<leftarrow> peek (16 * i) DPS_IP6_ADDR_LEN client_buff; put (store_bytes DPS_IP6_ADDR_LEN v) s })
       [0..<unat num_v6_addr] (b, DPS_TLV_HDR_LEN) }"

definition dps_set_ip4_info_tlv :: "dps_ip4_info_list_t \<Rightarrow> bytes \<Rightarrow> cursor option" where
  "dps_set_ip4_info_tlv l buff = do {
     b \<leftarrow> dps_set_tlv_hdr 1 IP4_INFO_LIST_TLV (of_nat (unat (i4l_num_of_ips l) * 8)) buff;
     is \<leftarrow> slots (unat (i4l_num_of_ips l)) (i4l_ip_info l);
     for_each (\<lambda>i s. do {
         s \<leftarrow> put (store32 (htonl (i4_ip i))) s;
         s \<leftarrow> put (store16 (htons (i4_flags i))) s;
         put (store16 (htons (i4_reserved i))) s }) is (b, DPS_TLV_HDR_LEN) }"

definition dps_set_ip6_info_tlv :: "dps_ip6_info_list_t \<Rightarrow> bytes \<Rightarrow> cursor option" where
  "dps_set_ip6_info_tlv l buff = do {
     b \<leftarrow> dps_set_tlv_hdr 1 IP6_INFO_LIST_TLV (of_nat (unat (i6l_num_of_ips l) * 20)) buff;
     is \<leftarrow> slots (unat (i6l_num_of_ips l)) (i6l_ip_info l);
     for_each (\<lambda>i s. do {
         s \<leftarrow> put (store_bytes DPS_IP6_ADDR_LEN (i6_ip i)) s;
         s \<leftarrow> put (store16 (htons (i6_flags i))) s;
         put (store16 (htons (i6_reserved i))) s }) is (b, DPS_TLV_HDR_LEN) }"

section \<open>Policies\<close>

definition set_rules :: "src_dst_vnid_t list \<Rightarrow> cursor \<Rightarrow> cursor option" where
  "set_rules = for_each (\<lambda>r s. do {
     s \<leftarrow> put (store32 (htonl (sd_svnid r))) s;
     put (store32 (htonl (sd_dvnid r))) s })"

text \<open>One group of rules: the action, their number, then the rules.  Nothing is written for no rules.\<close>

definition set_rule_group :: "u16 \<Rightarrow> u16 \<Rightarrow> src_dst_vnid_t list \<Rightarrow> cursor \<Rightarrow> cursor option" where
  "set_rule_group action num rules s =
     (if num = 0 then Some s
      else do {
        s \<leftarrow> put (store16 (htons action)) s;
        s \<leftarrow> put (store16 (htons num)) s;
        rs \<leftarrow> slots (unat num) rules;
        set_rules rs s })"

text \<open>The returned length is a \<open>uint16_t\<close> counted beside the data pointer.\<close>

definition policy_type_len :: "dps_policy_t \<Rightarrow> u16" where
  "policy_type_len p =
     (if po_policy_type p = DPS_POLICY_TYPE_CONNECTIVITY
      then 8 + (if po_num_permit_rules p = 0 then 0 else 4 + 8 * po_num_permit_rules p)
             + (if po_num_deny_rules p = 0 then 0 else 4 + 8 * po_num_deny_rules p)
      else 8)"

definition dps_set_policy_type_tlv :: "dps_policy_t \<Rightarrow> bytes \<Rightarrow> cursor option" where
  "dps_set_policy_type_tlv p buff = do {
     b \<leftarrow> st8 4 (po_version p) buff;
     b \<leftarrow> st8 5 (po_policy_type p) b;
     b \<leftarrow> (if po_policy_type p = DPS_POLICY_TYPE_CONNECTIVITY then do {
         b \<leftarrow> st16 6 (htons (po_num_permit_rules p + po_num_deny_rules p)) b;
         s \<leftarrow> set_rule_group 1 (po_num_permit_rules p) (po_src_dst_vnid p) (b, 8);
         s \<leftarrow> set_rule_group 0 (po_num_deny_rules p) (drop (unat (po_num_permit_rules p)) (po_src_dst_vnid p)) s;
         Some (fst s) }
       else Some b);
     b \<leftarrow> dps_set_tlv_hdr 0x01 POLICY_TYPE_TLV (policy_type_len p - of_nat DPS_TLV_HDR_LEN) b;
     Some (b, unat (policy_type_len p)) }"

definition dps_set_policy_tlv :: "dps_policy_info_t \<Rightarrow> bytes \<Rightarrow> cursor option" where
  "dps_set_policy_tlv pinfo = tlv_block 0x01 POLICY_TLV (\<lambda>s. do {
     s \<leftarrow> put (dps_set_policy_id_tlv (pi_policy_id pinfo) (pi_version pinfo) (pi_ttl pinfo)) s;
     put (dps_set_policy_type_tlv (pi_dps_policy pinfo)) s })"

section \<open>Endpoints\<close>

definition set_vm_ip :: "ip_addr_t \<Rightarrow> cursor \<Rightarrow> cursor option" where
  "set_vm_ip ip s =
     (if ia_family ip = AF_INET \<or> ia_family ip = 0 then put (dps_set_ip4_tlv (ia_ip4 ip)) s
      else if ia_family ip = AF_INET6 then put (dps_set_ip6_tlv (ia_ip6 ip)) s
      else Some s)"

definition dps_set_endpoint_loc_reply_tlv :: "dps_endpoint_loc_reply_t \<Rightarrow> bytes \<Rightarrow> cursor option" where
  "dps_set_endpoint_loc_reply_tlv d = tlv_block 1 ENDPOINT_LOC_TLV (\<lambda>s. do {
     s \<leftarrow> put (store32 (htonl (lr_version d))) s;
     s \<leftarrow> put (dps_set_euid_tlv (lr_vnid d) (lr_mac d)) s;
     s \<leftarrow> set_vm_ip (lr_vm_ip_addr d) s;
     put (dps_set_tunnel_list_tlv (tl_tunnel_list (lr_tunnel_info d)) (tl_num_of_tunnels (lr_tunnel_info d))) s })"

definition dps_set_policy_reply_tlv :: "dps_policy_reply_t \<Rightarrow> dps_client_hdr_t \<Rightarrow> bytes \<Rightarrow> cursor option" where
  "dps_set_policy_reply_tlv d hdr buff = do {
     s \<leftarrow> put (dps_set_endpoint_loc_reply_tlv (pr_dst_endpoint_loc_reply d)) (buff, 0);
     (if ch_resp_status hdr = DPS_NO_ERR then put (dps_set_policy_tlv (pr_dps_policy_info d)) s else Some s) }"

definition dps_set_endpoint_update_tlv :: "dps_endpoint_update_t \<Rightarrow> bytes \<Rightarrow> cursor option" where
  "dps_set_endpoint_update_tlv d = tlv_block 1 ENDPOINT_LOC_TLV (\<lambda>s. do {
     s \<leftarrow> put (store32 (htonl (eu_version d))) s;
     s \<leftarrow> put (dps_set_euid_tlv (eu_vnid d) (eu_mac d)) s;
     s \<leftarrow> set_vm_ip (eu_vm_ip_addr d) s;
     put (dps_set_tunnel_list_tlv (tl_tunnel_list (eu_tunnel_info d)) (tl_num_of_tunnels (eu_tunnel_info d))) s })"

definition vip4s :: "ip_addr_t list \<Rightarrow> ip_addr_t list" where
  "vip4s = filter (\<lambda>a. ia_family a = AF_INET)"

definition vip6s :: "ip_addr_t list \<Rightarrow> ip_addr_t list" where
  "vip6s = filter (\<lambda>a. ia_family a = AF_INET6)"

definition dps_set_endpoint_update_reply_tlv :: "dps_endpoint_update_reply_t \<Rightarrow> bytes \<Rightarrow> cursor option" where
  "dps_set_endpoint_update_reply_tlv d = tlv_block 1 ENDPOINT_UPDATE_REPLY_TLV (\<lambda>s. do {
     s \<leftarrow> put (store32 (htonl (ur_version d))) s;
     s \<leftarrow> put (dps_set_euid_tlv (ur_vnid d) (ur_mac d)) s;
     vips \<leftarrow> slots (unat (ur_num_of_vip d)) (ur_vm_ip_addr d);
     vip4_buff \<leftarrow> slots (length (vip4s vips)) (take MAX_VIP_ADDR (map ia_ip4 (vip4s vips)));
     vip6_buff \<leftarrow> slots (length (vip6s vips)) (take MAX_VIP_ADDR (map (take 16 \<circ> ia_ip6) (vip6s vips)));
     s \<leftarrow> (if vip4s vips = [] then Some s
           else put (dps_set_ipv4_list_tlv (concat (map bytes32 vip4_buff)) (of_nat (length (vip4s vips)))) s);
     s \<leftarrow> (if vip6s vips = [] then Some s
           else put (dps_set_ipv6_list_tlv (concat vip6_buff) (of_nat (length (vip6s vips)))) s);
     put (dps_set_tunnel_list_tlv (tl_tunnel_list (ur_tunnel_info d)) (tl_num_of_tunnels (ur_tunnel_info d))) s })"

definition dps_set_bulk_policy_xfer :: "dps_bulk_vnid_policy_t \<Rightarrow> bytes \<Rightarrow> cursor option" where
  "dps_set_bulk_policy_xfer d buff = do {
     s \<leftarrow> put (store16 (htons (bp_num_permit_rules d))) (buff, 0);
     s \<leftarrow> put (store16 (htons (bp_num_deny_rules d))) s;
     permits \<leftarrow> slots (unat (bp_num_permit_rules d)) (bp_src_dst_vnid d);
     s \<leftarrow> set_rules permits s;
     denies \<leftarrow> slots (unat (bp_num_deny_rules d)) (drop (unat (bp_num_permit_rules d)) (bp_src_dst_vnid d));
     set_rules denies s }"

definition dps_set_epri_tlv :: "dps_epri_t \<Rightarrow> bytes \<Rightarrow> cursor option" where
  "dps_set_epri_tlv d = tlv_block 1 EPRI_TLV (\<lambda>s. do {
     s \<leftarrow> put (dps_set_euid_tlv (ep_vnid d) (ep_mac d)) s;
     s \<leftarrow> put (dps_set_ip4_info_tlv (ep_vm_ip4_addr d)) s;
     s \<leftarrow> put (dps_set_ip6_info_tlv (ep_vm_ip6_addr d)) s;
     put (dps_set_tunnel_list_tlv (tl_tunnel_list (ep_tunnel_info d)) (tl_num_of_tunnels (ep_tunnel_info d))) s })"

section \<open>Multicast and packed tunnel lists\<close>

definition mcast_tlv_type :: "dps_mcast_addr_t \<Rightarrow> u8" where
  "mcast_tlv_type a =
     (if ma_mcast_addr_type a = MCAST_ADDR_V6 then MCAST_ADDR_V6_TLV
      else if ma_mcast_addr_type a = MCAST_ADDR_MAC then MCAST_ADDR_MAC_TLV
      else if ma_mcast_addr_type a = MCAST_ADDR_V4 then MCAST_ADDR_V4_TLV
      else MCAST_ADDR_V4_ICB_RANGE_TLV)"

definition dps_set_mcast_addr_tlv :: "dps_mcast_addr_t \<Rightarrow> bytes \<Rightarrow> cursor option" where
  "dps_set_mcast_addr_tlv a = tlv_block 1 (mcast_tlv_type a) (\<lambda>s. do {
     s \<leftarrow> put (dps_set_vmac_tlv (ma_mcast_mac a)) s;
     (if ma_mcast_addr_type a = MCAST_ADDR_V6 then put (dps_set_ip6_tlv (ma_mcast_ip6 a)) s
      else put (dps_set_ip4_tlv (ma_mcast_ip4 a)) s) })"

definition dps_set_mcast_grp_rec_tlv :: "dps_mcast_group_record_t \<Rightarrow> bytes \<Rightarrow> cursor option" where
  "dps_set_mcast_grp_rec_tlv g = tlv_block 0x01 MCAST_GRP_REC_TLV (\<lambda>s. do {
     s \<leftarrow> put (dps_set_mcast_addr_tlv (mg_mcast_addr g)) s;
     (if mg_num_of_srcs g \<noteq> 0 then
        (if mg_family g = AF_INET then put (dps_set_ipv4_list_tlv (mg_src_addr g) (ucast (mg_num_of_srcs g))) s
         else if mg_family g = AF_INET6 then put (dps_set_ipv6_list_tlv (mg_src_addr g) (ucast (mg_num_of_srcs g))) s
         else Some s)
      else Some s) })"

definition dps_set_vnid_tunnel_list_tlv :: "dps_pkd_tunnel_list_t \<Rightarrow> bytes \<Rightarrow> cursor option" where
  "dps_set_vnid_tunnel_list_tlv d = tlv_block 0x01 VNID_TUNNEL_LIST_TLV (\<lambda>s. do {
     s \<leftarrow> put (store32 (htonl (pk_vnid d))) s;
     s \<leftarrow> (if pk_num_v4_tunnels d \<noteq> 0
           then put (dps_set_ipv4_list_tlv (pk_tunnel_list d) (ucast (pk_num_v4_tunnels d))) s else Some s);
     (if pk_num_v6_tunnels d \<noteq> 0
      then put (dps_set_ipv6_list_tlv (drop (4 * unat (pk_num_v4_tunnels d)) (pk_tunnel_list d))
             (ucast (pk_num_v6_tunnels d))) s else Some s) })"

end
