(* ===== verification/Dps_Tlv_Get.thy ===== *)
theory Dps_Tlv_Get
  imports Dps_Types
begin

text \<open>
  The \<open>dps_get_*\<close> routines of \<open>dps_pkt_process.c\<close>: each reads
  one TLV at the beginning of a buffer into a structure of the client and
  returns the number of bytes consumed.  Where the code fills an array, the
  model is given the number of elements the array has room for; an element
  beyond it is an undefined write.  Elements not written before keep the
  contents of the memory they lie in, the function \<open>fresh\<close>.
\<close>

section \<open>Headers and fixed-size TLVs\<close>

record dps_tlv_hdr_t =
  tlv_ver :: u8
  tlv_type :: u8
  tlv_len :: u16

definition dps_get_pkt_hdr :: "bytes \<Rightarrow> dps_client_hdr_t \<Rightarrow> (dps_client_hdr_t \<times> u32) option" where
  "dps_get_pkt_hdr pkt_hdr client_hdr = do {
     ptype \<leftarrow> ld8 1 pkt_hdr;
     vnid \<leftarrow> ld32 8 pkt_hdr;
     query_id \<leftarrow> ld32 4 pkt_hdr;
     resp_status \<leftarrow> ld16 14 pkt_hdr;
     sub_type \<leftarrow> ld16 12 pkt_hdr;
     client_id \<leftarrow> ld8 16 pkt_hdr;
     transaction_type \<leftarrow> ld8 17 pkt_hdr;
     len \<leftarrow> ld16 2 pkt_hdr;
     Some (client_hdr\<lparr>ch_type := ptype, ch_vnid := ntohl vnid, ch_query_id := ntohl query_id,
         ch_resp_status := ucast (ntohs resp_status), ch_sub_type := ucast (ntohs sub_type),
         ch_client_id := client_id, ch_transaction_type := transaction_type\<rparr>,
       push_bit 2 (ucast (ntohs len)) - of_nat DPS_PKT_HDR_LEN + of_nat DPS_PKT_HDR_TLV_LEN) }"

definition dps_get_tlv_hdr :: "bytes \<Rightarrow> dps_tlv_hdr_t option" where
  "dps_get_tlv_hdr buff = do {
     ver \<leftarrow> ld8 0 buff;
     ty \<leftarrow> ld8 1 buff;
     len \<leftarrow> ld16 2 buff;
     Some \<lparr>tlv_ver = ver, tlv_type = ty, tlv_len = ntohs len\<rparr> }"

definition dps_get_vmac_tlv :: "bytes \<Rightarrow> (bytes \<times> nat) option" where
  "dps_get_vmac_tlv buff = do { mac \<leftarrow> peek 4 DPS_MAC_ADDR_LEN buff; Some (mac, DPS_VMAC_TLV_LEN) }"

definition dps_get_euid_tlv :: "bytes \<Rightarrow> ((u32 \<times> bytes) \<times> nat) option" where
  "dps_get_euid_tlv buff = do {
     vnid \<leftarrow> ld32 4 buff;
     mac \<leftarrow> peek 8 DPS_MAC_ADDR_LEN buff;
     Some ((ntohl vnid, mac), DPS_EUID_TLV_LEN) }"

definition dps_get_policy_id_tlv :: "bytes \<Rightarrow> dps_policy_info_t \<Rightarrow> (dps_policy_info_t \<times> nat) option" where
  "dps_get_policy_id_tlv buff plcy = do {
     pid \<leftarrow> ld32 4 buff;
     version \<leftarrow> ld32 8 buff;
     ttl \<leftarrow> ld32 12 buff;
     Some (plcy\<lparr>pi_policy_id := ntohl pid, pi_version := ntohl version, pi_ttl := ntohl ttl\<rparr>, DPS_POLICY_ID_TLV_LEN) }"

definition dps_get_ip4_tlv :: "bytes \<Rightarrow> (u32 \<times> nat) option" where
  "dps_get_ip4_tlv buff = do { ip \<leftarrow> ld32 4 buff; Some (ntohl ip, DPS_IP4_TLV_LEN) }"

definition dps_get_ip6_tlv :: "bytes \<Rightarrow> (bytes \<times> nat) option" where
  "dps_get_ip6_tlv buff = do { ip \<leftarrow> peek 4 DPS_IP6_ADDR_LEN buff; Some (ip, DPS_IP6_TLV_LEN) }"

definition dps_get_ip_tlv :: "bytes \<Rightarrow> ip_addr_t \<Rightarrow> (ip_addr_t \<times> nat) option" where
  "dps_get_ip_tlv buff client_ip = do {
     ver \<leftarrow> ld8 0 buff;
     (if ver = 4 then do {
        (ip4, len) \<leftarrow> dps_get_ip4_tlv buff;
        Some (client_ip\<lparr>ia_ip6 := set_ip4 ip4 (ia_ip6 client_ip), ia_family := AF_INET\<rparr>, len) }
      else do {
        (ip6, len) \<leftarrow> dps_get_ip6_tlv buff;
        Some (client_ip\<lparr>ia_ip6 := ip6, ia_family := AF_INET6\<rparr>, len) }) }"

definition dps_get_svcloc_tlv :: "bytes \<Rightarrow> ip_addr_t \<Rightarrow> (ip_addr_t \<times> nat) option" where
  "dps_get_svcloc_tlv buff svc_loc = do {
     ver \<leftarrow> ld8 0 buff;
     xport \<leftarrow> ld16 4 buff;
     port \<leftarrow> ld16 6 buff;
     (if ver = 4 then do {
        ip \<leftarrow> ld32 8 buff;
        Some (svc_loc\<lparr>ia_family := AF_INET, ia_xport_type := ntohs xport, ia_port := ntohs port,
                ia_ip6 := set_ip4 (ntohl ip) (ia_ip6 svc_loc)\<rparr>, DPS_SVCLOC4_TLV_LEN) }
      else do {
        ip6 \<leftarrow> peek 8 DPS_IP6_ADDR_LEN buff;
        Some (svc_loc\<lparr>ia_family := AF_INET6, ia_xport_type := ntohs xport, ia_port := ntohs port,
                ia_ip6 := ip6\<rparr>, DPS_SVCLOC6_TLV_LEN) }) }"

definition dps_get_endpoint_info_tlv :: "bytes \<Rightarrow> dps_endpoint_info_t \<Rightarrow> (dps_endpoint_info_t \<times> nat) option" where
  "dps_get_endpoint_info_tlv buff info = do {
     vnid \<leftarrow> ld32 4 buff;
     mac \<leftarrow> peek 8 DPS_MAC_ADDR_LEN buff;
     (ip, len) \<leftarrow> from_off 16 (\<lambda>b. dps_get_ip_tlv b (ei_vm_ip_addr info)) buff;
     Some (info\<lparr>ei_vnid := ntohl vnid, ei_mac := mac, ei_vm_ip_addr := ip\<rparr>, len) }"

section \<open>Address lists\<close>

text \<open>Writing bytes at an offset of a destination of \<open>cap\<close> bytes, of which the listed
  ones have been written so far.\<close>

definition put_bytes :: "nat \<Rightarrow> nat \<Rightarrow> bytes \<Rightarrow> bytes \<Rightarrow> bytes option" where
  "put_bytes cap off vs mem =
     (if off + length vs \<le> cap \<and> off \<le> length mem
      then Some (take off mem @ vs @ drop (off + length vs) mem) else None)"

definition ipv4_list_step :: "nat \<Rightarrow> bytes \<Rightarrow> (bytes \<times> nat) \<times> nat \<Rightarrow> ((bytes \<times> nat) \<times> nat) option" where
  "ipv4_list_step cap buff s = (case s of ((mem, off), pos) \<Rightarrow> do {
     v \<leftarrow> ld32 pos buff;
     mem \<leftarrow> put_bytes cap off (bytes32 (ntohl v)) mem;
     Some ((mem, off + 4), pos + DPS_IP4_ADDR_LEN) })"

definition dps_get_ipv4_list_tlv :: "nat \<Rightarrow> nat \<Rightarrow> bytes \<Rightarrow> bytes \<Rightarrow> (bytes \<times> nat) option" where
  "dps_get_ipv4_list_tlv cap off buff client_buff = do {
     h \<leftarrow> dps_get_tlv_hdr buff;
     ((mem, _), pos) \<leftarrow> while_opt (\<lambda>(st, pos). pos < DPS_TLV_HDR_LEN + unat (tlv_len h))
       (ipv4_list_step cap buff) ((client_buff, off), DPS_TLV_HDR_LEN);
     Some (mem, pos) }"

definition ipv6_list_step :: "nat \<Rightarrow> bytes \<Rightarrow> (bytes \<times> nat) \<times> nat \<Rightarrow> ((bytes \<times> nat) \<times> nat) option" where
  "ipv6_list_step cap buff s = (case s of ((mem, off), pos) \<Rightarrow> do {
     v \<leftarrow> peek pos DPS_IP6_ADDR_LEN buff;
     mem \<leftarrow> put_bytes cap off v mem;
     Some ((mem, off + DPS_IP6_ADDR_LEN), pos + DPS_IP6_ADDR_LEN) })"

definition dps_get_ipv6_list_tlv :: "nat \<Rightarrow> nat \<Rightarrow> bytes \<Rightarrow> bytes \<Rightarrow> (bytes \<times> nat) option" where
  "dps_get_ipv6_list_tlv cap off buff client_buff = do {
     h \<leftarrow> dps_get_tlv_hdr buff;
     ((mem, _), pos) \<leftarrow> while_opt (\<lambda>(st, pos). pos < DPS_TLV_HDR_LEN + unat (tlv_len h))
       (ipv6_list_step cap buff) ((client_buff, off), DPS_TLV_HDR_LEN);
     Some (mem, pos) }"

text \<open>
  The two routines that fill the \<open>vm_ip_addr\<close> array of an endpoint
  update reply.  The state is the array, the index of the next element and
  \<open>num_of_vip\<close>.  In the IPv6 routine the address is copied over the
  beginning of the structure (\<open>memcpy(client_buff, buff, 16)\<close>), then
  the family is set.
\<close>

definition upd_at :: "nat \<Rightarrow> ('a \<Rightarrow> 'a) \<Rightarrow> 'a list \<Rightarrow> 'a list option" where
  "upd_at i f xs = (if i < length xs then Some (xs[i := f (xs ! i)]) else None)"

definition overlay_ip_addr :: "bytes \<Rightarrow> ip_addr_t \<Rightarrow> ip_addr_t" where
  "overlay_ip_addr v a = a\<lparr>ia_family := of_bytes16 (take 2 v), ia_port := of_bytes16 (take 2 (drop 2 v)),
     ia_xport_type := of_bytes16 (take 2 (drop 4 v)), ia_port_http := of_bytes16 (take 2 (drop 6 v)),
     ia_ip6 := drop 8 v @ drop 8 (ia_ip6 a)\<rparr>"

type_synonym vip_state = "ip_addr_t list \<times> nat \<times> u32"

text \<open>When the count exceeds the limit the pointer moves to the end of the TLV, which ends the loop.\<close>

definition vip4_step :: "bytes \<Rightarrow> u32 \<Rightarrow> nat \<Rightarrow> vip_state \<times> nat \<Rightarrow> (vip_state \<times> nat) option" where
  "vip4_step buff max_vip fin s = (case s of ((arr, i, num), pos) \<Rightarrow>
     if num \<le> max_vip then do {
       v \<leftarrow> ld32 pos buff;
       arr \<leftarrow> upd_at i (\<lambda>a. a\<lparr>ia_ip6 := set_ip4 (ntohl v) (ia_ip6 a), ia_family := AF_INET\<rparr>) arr;
       Some ((arr, i + 1, num + 1), pos + DPS_IP4_ADDR_LEN) }
     else Some ((arr, i, num), fin))"

definition dps_get_ipv4_list_to_ipaddr :: "bytes \<Rightarrow> u32 \<Rightarrow> vip_state \<Rightarrow> (vip_state \<times> nat) option" where
  "dps_get_ipv4_list_to_ipaddr buff max_vip st = do {
     h \<leftarrow> dps_get_tlv_hdr buff;
     while_opt (\<lambda>(st, pos). pos < DPS_TLV_HDR_LEN + unat (tlv_len h))
       (vip4_step buff max_vip (DPS_TLV_HDR_LEN + unat (tlv_len h))) (st, DPS_TLV_HDR_LEN) }"

definition vip6_step :: "bytes \<Rightarrow> u32 \<Rightarrow> nat \<Rightarrow> vip_state \<times> nat \<Rightarrow> (vip_state \<times> nat) option" where
  "vip6_step buff max_vip fin s = (case s of ((arr, i, num), pos) \<Rightarrow>
     if num \<le> max_vip then do {
       v \<leftarrow> peek pos DPS_IP6_ADDR_LEN buff;
       arr \<leftarrow> upd_at i (\<lambda>a. (overlay_ip_addr v a)\<lparr>ia_family := AF_INET6\<rparr>) arr;
       Some ((arr, i + 1, num + 1), pos + DPS_IP6_ADDR_LEN) }
     else Some ((arr, i, num), fin))"

definition dps_get_ipv6_list_to_ipaddr :: "bytes \<Rightarrow> u32 \<Rightarrow> vip_state \<Rightarrow> (vip_state \<times> nat) option" where
  "dps_get_ipv6_list_to_ipaddr buff max_vip st = do {
     h \<leftarrow> dps_get_tlv_hdr buff;
     while_opt (\<lambda>(st, pos). pos < DPS_TLV_HDR_LEN + unat (tlv_len h))
       (vip6_step buff max_vip (DPS_TLV_HDR_LEN + unat (tlv_len h))) (st, DPS_TLV_HDR_LEN) }"

section \<open>Tunnels and address information\<close>

definition dps_get_ipv4_tunnel_info :: "bytes \<Rightarrow> dps_tunnel_endpoint_t \<Rightarrow> (dps_tunnel_endpoint_t \<times> nat) option" where
  "dps_get_ipv4_tunnel_info buff t = do {
     port \<leftarrow> ld16 2 buff;
     ty \<leftarrow> ld16 4 buff;
     flags \<leftarrow> ld16 6 buff;
     vnid \<leftarrow> ld32 8 buff;
     ip4 \<leftarrow> ld32 12 buff;
     Some (t\<lparr>te_family := AF_INET, te_port := ntohs port, te_tunnel_type := ntohs ty, te_flags := ntohs flags,
         te_vnid := ntohl vnid, te_ip6 := set_ip4 (ntohl ip4) (te_ip6 t)\<rparr>, DPS_IP4_TUNNEL_INFO_LEN) }"

definition dps_get_ipv6_tunnel_info :: "bytes \<Rightarrow> dps_tunnel_endpoint_t \<Rightarrow> (dps_tunnel_endpoint_t \<times> nat) option" where
  "dps_get_ipv6_tunnel_info buff t = do {
     port \<leftarrow> ld16 2 buff;
     ty \<leftarrow> ld16 4 buff;
     flags \<leftarrow> ld16 6 buff;
     vnid \<leftarrow> ld32 8 buff;
     ip6 \<leftarrow> peek 12 DPS_IP6_ADDR_LEN buff;
     Some (t\<lparr>te_family := AF_INET6, te_port := ntohs port, te_tunnel_type := ntohs ty, te_flags := ntohs flags,
         te_vnid := ntohl vnid, te_ip6 := ip6\<rparr>, DPS_IP6_TUNNEL_INFO_LEN) }"

text \<open>The destination of a tunnel list: how many elements it has room for, and what they held before.\<close>

type_synonym tunnel_room = "nat \<times> (nat \<Rightarrow> dps_tunnel_endpoint_t)"

definition old_slot :: "(nat \<Rightarrow> 'a) \<Rightarrow> nat \<Rightarrow> 'a list \<Rightarrow> 'a" where
  "old_slot fresh i xs = (if i < length xs then xs ! i else fresh i)"

type_synonym tunnel_state = "dps_tunnel_endpoint_t list \<times> u16 \<times> bool"

definition tunnel_list_step :: "tunnel_room \<Rightarrow> bytes \<Rightarrow> u16 \<Rightarrow> tunnel_state \<times> nat \<Rightarrow> (tunnel_state \<times> nat) option" where
  "tunnel_list_step room buff len s = (case s of ((ts, i, bad), pos) \<Rightarrow> do {
     fam \<leftarrow> ld16 pos buff;
     (if ntohs fam = 4 then do {
        (t, pos) \<leftarrow> from_off pos (\<lambda>b. dps_get_ipv4_tunnel_info b (old_slot (snd room) (unat i) ts)) buff;
        ts \<leftarrow> put_slot (fst room) (unat i) t ts;
        Some ((ts, i + 1, False), pos) }
      else if ntohs fam = 6 then do {
        (t, pos) \<leftarrow> from_off pos (\<lambda>b. dps_get_ipv6_tunnel_info b (old_slot (snd room) (unat i) ts)) buff;
        ts \<leftarrow> put_slot (fst room) (unat i) t ts;
        Some ((ts, i + 1, False), pos) }
      else Some ((ts, i, True), unat len + 4)) })"

definition dps_get_tunnel_list_tlv :: "tunnel_room \<Rightarrow> bytes \<Rightarrow> dps_tunnel_list_t \<Rightarrow> (dps_tunnel_list_t \<times> nat) option" where
  "dps_get_tunnel_list_tlv room buff tinfo = do {
     h \<leftarrow> dps_get_tlv_hdr buff;
     ((ts, i, _), pos) \<leftarrow> while_opt (\<lambda>((ts, i, bad), pos). \<not> bad \<and> pos < DPS_TLV_HDR_LEN + unat (tlv_len h))
       (tunnel_list_step room buff (tlv_len h)) ((tl_tunnel_list tinfo, 0, False), DPS_TLV_HDR_LEN);
     Some (\<lparr>tl_num_of_tunnels = i, tl_tunnel_list = ts\<rparr>, pos) }"

definition ip4_info_step :: "bytes \<Rightarrow> dps_ip4_info_list_t \<times> nat \<Rightarrow> (dps_ip4_info_list_t \<times> nat) option" where
  "ip4_info_step buff s = (case s of (l, pos) \<Rightarrow> do {
     ip \<leftarrow> ld32 pos buff;
     flags \<leftarrow> ld16 (pos + 4) buff;
     reserved \<leftarrow> ld16 (pos + 6) buff;
     is \<leftarrow> upd_at (unat (i4l_num_of_ips l))
        (\<lambda>_. \<lparr>i4_ip = ntohl ip, i4_flags = ntohs flags, i4_reserved = ntohs reserved\<rparr>) (i4l_ip_info l);
     Some (\<lparr>i4l_num_of_ips = i4l_num_of_ips l + 1, i4l_ip_info = is\<rparr>, pos + 8) })"

definition dps_get_ip4_info_list_tlv :: "bytes \<Rightarrow> dps_ip4_info_list_t \<Rightarrow> (dps_ip4_info_list_t \<times> nat) option" where
  "dps_get_ip4_info_list_tlv buff l = do {
     h \<leftarrow> dps_get_tlv_hdr buff;
     while_opt (\<lambda>(l, pos). pos < DPS_TLV_HDR_LEN + unat (tlv_len h))
       (ip4_info_step buff) (l\<lparr>i4l_num_of_ips := 0\<rparr>, DPS_TLV_HDR_LEN) }"

definition ip6_info_step :: "bytes \<Rightarrow> dps_ip6_info_list_t \<times> nat \<Rightarrow> (dps_ip6_info_list_t \<times> nat) option" where
  "ip6_info_step buff s = (case s of (l, pos) \<Rightarrow> do {
     ip \<leftarrow> peek pos DPS_IP6_ADDR_LEN buff;
     flags \<leftarrow> ld16 (pos + 16) buff;
     reserved \<leftarrow> ld16 (pos + 18) buff;
     is \<leftarrow> upd_at (unat (i6l_num_of_ips l))
        (\<lambda>_. \<lparr>i6_ip = ip, i6_flags = ntohs flags, i6_reserved = ntohs reserved\<rparr>) (i6l_ip_info l);
     Some (\<lparr>i6l_num_of_ips = i6l_num_of_ips l + 1, i6l_ip_info = is\<rparr>, pos + 20) })"

definition dps_get_ip6_info_list_tlv :: "bytes \<Rightarrow> dps_ip6_info_list_t \<Rightarrow> (dps_ip6_info_list_t \<times> nat) option" where
  "dps_get_ip6_info_list_tlv buff l = do {
     h \<leftarrow> dps_get_tlv_hdr buff;
     while_opt (\<lambda>(l, pos). pos < DPS_TLV_HDR_LEN + unat (tlv_len h))
       (ip6_info_step buff) (l\<lparr>i6l_num_of_ips := 0\<rparr>, DPS_TLV_HDR_LEN) }"

section \<open>Scanning a sequence of TLVs\<close>

text \<open>
  The idiom \<open>while (buff < end) { dps_get_tlv_hdr(buff, &h); switch (type) ... }\<close>.
  A branch of the switch either consumes bytes or jumps to the error label;
  a branch that only logs consumes none.
\<close>

datatype 'st branch = Take 'st nat | Goto_error

definition tlv_step :: "(dps_tlv_hdr_t \<Rightarrow> bytes \<Rightarrow> 'st \<Rightarrow> 'st branch option) \<Rightarrow> bytes \<Rightarrow>
    ('st \<times> bool) \<times> nat \<Rightarrow> (('st \<times> bool) \<times> nat) option" where
  "tlv_step sw buff s = (case s of ((st, err), pos) \<Rightarrow> do {
     h \<leftarrow> dps_get_tlv_hdr (drop pos buff);
     r \<leftarrow> sw h (drop pos buff) st;
     (case r of Take st' n \<Rightarrow> Some ((st', False), pos + n) | Goto_error \<Rightarrow> Some ((st, True), pos)) })"

definition tlv_scan :: "nat \<Rightarrow> (dps_tlv_hdr_t \<Rightarrow> bytes \<Rightarrow> 'st \<Rightarrow> 'st branch option) \<Rightarrow> bytes \<Rightarrow>
    'st \<Rightarrow> nat \<Rightarrow> (('st \<times> bool) \<times> nat) option" where
  "tlv_scan fin sw buff st pos =
     while_opt (\<lambda>((st, err), pos). \<not> err \<and> pos < fin) (tlv_step sw buff) ((st, False), pos)"

definition took :: "('a \<Rightarrow> 'st) \<Rightarrow> ('a \<times> nat) option \<Rightarrow> 'st branch option" where
  "took f r = map_option (\<lambda>(x, n). Take (f x) n) r"

definition loc_reply_switch :: "tunnel_room \<Rightarrow> dps_tlv_hdr_t \<Rightarrow> bytes \<Rightarrow> dps_endpoint_loc_reply_t \<Rightarrow>
    dps_endpoint_loc_reply_t branch option" where
  "loc_reply_switch room h b er =
     (if tlv_type h = EUID_TLV then
        took (\<lambda>(vnid, mac). er\<lparr>lr_vnid := vnid, lr_mac := mac\<rparr>) (dps_get_euid_tlv b)
      else if tlv_type h = IP_ADDR_TLV then
        took (\<lambda>ip. er\<lparr>lr_vm_ip_addr := ip\<rparr>) (dps_get_ip_tlv b (lr_vm_ip_addr er))
      else if tlv_type h = TUNNEL_LIST_TLV then
        took (\<lambda>tinfo. er\<lparr>lr_tunnel_info := tinfo\<rparr>) (dps_get_tunnel_list_tlv room b (lr_tunnel_info er))
      else Some Goto_error)"

definition dps_get_endpoint_loc_reply_tlv ::
    "tunnel_room \<Rightarrow> bytes \<Rightarrow> dps_endpoint_loc_reply_t \<Rightarrow> (dps_endpoint_loc_reply_t \<times> nat) option" where
  "dps_get_endpoint_loc_reply_tlv room buff er = do {
     h \<leftarrow> dps_get_tlv_hdr buff;
     version \<leftarrow> ld32 4 buff;
     ((er, _), pos) \<leftarrow> tlv_scan (8 + unat ((ucast (tlv_len h) :: u32) - of_nat DPS_DATA_VER_LEN))
       (loc_reply_switch room) buff (er\<lparr>lr_version := ntohl version\<rparr>) 8;
     Some (er, pos) }"

definition update_switch :: "tunnel_room \<Rightarrow> dps_tlv_hdr_t \<Rightarrow> bytes \<Rightarrow> dps_endpoint_update_t \<Rightarrow>
    dps_endpoint_update_t branch option" where
  "update_switch room h b eu =
     (if tlv_type h = EUID_TLV then
        took (\<lambda>(vnid, mac). eu\<lparr>eu_vnid := vnid, eu_mac := mac\<rparr>) (dps_get_euid_tlv b)
      else if tlv_type h = IP_ADDR_TLV then
        took (\<lambda>ip. eu\<lparr>eu_vm_ip_addr := ip\<rparr>) (dps_get_ip_tlv b (eu_vm_ip_addr eu))
      else if tlv_type h = TUNNEL_LIST_TLV then
        took (\<lambda>tinfo. eu\<lparr>eu_tunnel_info := tinfo\<rparr>) (dps_get_tunnel_list_tlv room b (eu_tunnel_info eu))
      else Some Goto_error)"

definition dps_get_endpoint_update_tlv ::
    "tunnel_room \<Rightarrow> bytes \<Rightarrow> dps_endpoint_update_t \<Rightarrow> (dps_endpoint_update_t \<times> nat) option" where
  "dps_get_endpoint_update_tlv room buff eu = do {
     h \<leftarrow> dps_get_tlv_hdr buff;
     version \<leftarrow> ld32 4 buff;
     ((eu, _), pos) \<leftarrow> tlv_scan (8 + unat ((ucast (tlv_len h) :: u32) - of_nat DPS_DATA_VER_LEN))
       (update_switch room) buff (eu\<lparr>eu_version := ntohl version\<rparr>) 8;
     Some (eu, pos) }"

text \<open>The scan of an endpoint update reply also carries the local pointer \<open>vip\<close>, an index.\<close>

definition update_reply_switch :: "tunnel_room \<Rightarrow> dps_tlv_hdr_t \<Rightarrow> bytes \<Rightarrow> dps_endpoint_update_reply_t \<times> nat \<Rightarrow>
    (dps_endpoint_update_reply_t \<times> nat) branch option" where
  "update_reply_switch room h b st = (case st of (ur, vip) \<Rightarrow>
     if tlv_type h = EUID_TLV then
       took (\<lambda>(vnid, mac). (ur\<lparr>ur_vnid := vnid, ur_mac := mac\<rparr>, vip)) (dps_get_euid_tlv b)
     else if tlv_type h = IPV4_ADDR_LIST_TLV then
       took (\<lambda>(arr, vip, num). (ur\<lparr>ur_vm_ip_addr := arr, ur_num_of_vip := num\<rparr>, vip))
         (dps_get_ipv4_list_to_ipaddr b (of_nat MAX_VIP_ADDR) (ur_vm_ip_addr ur, vip, ur_num_of_vip ur))
     else if tlv_type h = IPV6_ADDR_LIST_TLV then
       took (\<lambda>(arr, vip, num). (ur\<lparr>ur_vm_ip_addr := arr, ur_num_of_vip := num\<rparr>, vip))
         (dps_get_ipv6_list_to_ipaddr b (of_nat MAX_VIP_ADDR) (ur_vm_ip_addr ur, vip, ur_num_of_vip ur))
     else if tlv_type h = TUNNEL_LIST_TLV then
       took (\<lambda>tinfo. (ur\<lparr>ur_tunnel_info := tinfo\<rparr>, vip)) (dps_get_tunnel_list_tlv room b (ur_tunnel_info ur))
     else Some Goto_error)"

definition dps_get_endpoint_update_reply_tlv ::
    "tunnel_room \<Rightarrow> bytes \<Rightarrow> dps_endpoint_update_reply_t \<Rightarrow> (dps_endpoint_update_reply_t \<times> nat) option" where
  "dps_get_endpoint_update_reply_tlv room buff ur = do {
     h \<leftarrow> dps_get_tlv_hdr buff;
     version \<leftarrow> ld32 4 buff;
     (((ur, _), _), pos) \<leftarrow> tlv_scan (8 + unat ((ucast (tlv_len h) :: u32) - of_nat DPS_DATA_VER_LEN))
       (update_reply_switch room) buff (ur\<lparr>ur_version := ntohl version\<rparr>, 0) 8;
     Some (ur, pos) }"

section \<open>Policies\<close>

type_synonym rules_room = "nat \<times> (nat \<Rightarrow> src_dst_vnid_t)"

text \<open>\<open>n\<close> rules read from offset \<open>pos\<close> into the elements from \<open>j\<close> on.\<close>

definition get_rules :: "nat \<Rightarrow> bytes \<Rightarrow> nat \<Rightarrow> (src_dst_vnid_t list \<times> u16) \<times> nat \<Rightarrow>
    ((src_dst_vnid_t list \<times> u16) \<times> nat) option" where
  "get_rules cap buff n = for_each (\<lambda>_ ((rs, j :: u16), pos). do {
     sv \<leftarrow> ld32 pos buff;
     dv \<leftarrow> ld32 (pos + 4) buff;
     rs \<leftarrow> put_slot cap (unat j) \<lparr>sd_svnid = ntohl sv, sd_dvnid = ntohl dv\<rparr> rs;
     Some ((rs, j + 1), pos + 8) }) [0..<n]"

definition rule_group_step :: "nat \<Rightarrow> bytes \<Rightarrow> (dps_policy_t \<times> u16) \<times> nat \<Rightarrow> ((dps_policy_t \<times> u16) \<times> nat) option" where
  "rule_group_step cap buff s = (case s of ((p, j), pos) \<Rightarrow> do {
     action \<leftarrow> ld16 pos buff;
     num \<leftarrow> ld16 (pos + 2) buff;
     ((rs, j), pos) \<leftarrow> get_rules cap buff (unat (ntohs num)) ((po_src_dst_vnid p, j), pos + 4);
     Some (((if ntohs action = 1 then p\<lparr>po_num_permit_rules := ntohs num\<rparr>
             else p\<lparr>po_num_deny_rules := ntohs num\<rparr>)\<lparr>po_src_dst_vnid := rs\<rparr>, j), pos) })"

definition dps_get_policy_type_tlv :: "nat \<Rightarrow> bytes \<Rightarrow> dps_policy_t \<Rightarrow> (dps_policy_t \<times> nat) option" where
  "dps_get_policy_type_tlv cap buff p = do {
     _ \<leftarrow> dps_get_tlv_hdr buff;
     h \<leftarrow> dps_get_tlv_hdr (drop 4 buff);
     (if tlv_type h = DPS_POLICY_TYPE_CONNECTIVITY then do {
        ((p, j), pos) \<leftarrow> while_opt (\<lambda>((p, j), pos). j < tlv_len h) (rule_group_step cap buff)
          ((p\<lparr>po_version := tlv_ver h, po_policy_type := tlv_type h\<rparr>, 0), 8);
        Some (p, pos) }
      else Some (p\<lparr>po_version := tlv_ver h, po_policy_type := tlv_type h\<rparr>, 8)) }"

definition policy_step :: "nat \<Rightarrow> bytes \<Rightarrow> dps_policy_info_t \<times> nat \<Rightarrow> (dps_policy_info_t \<times> nat) option" where
  "policy_step cap buff s = (case s of (pinfo, pos) \<Rightarrow> do {
     (pinfo, pos) \<leftarrow> from_off pos (\<lambda>b. dps_get_policy_id_tlv b pinfo) buff;
     (pol, pos) \<leftarrow> from_off pos (\<lambda>b. dps_get_policy_type_tlv cap b (pi_dps_policy pinfo)) buff;
     Some (pinfo\<lparr>pi_dps_policy := pol\<rparr>, pos) })"

definition dps_get_policy_tlv :: "nat \<Rightarrow> bytes \<Rightarrow> dps_policy_info_t \<Rightarrow> (dps_policy_info_t \<times> nat) option" where
  "dps_get_policy_tlv cap buff pinfo = do {
     h \<leftarrow> dps_get_tlv_hdr buff;
     while_opt (\<lambda>(pinfo, pos). pos < DPS_TLV_HDR_LEN + unat (tlv_len h)) (policy_step cap buff)
       (pinfo, DPS_TLV_HDR_LEN) }"

text \<open>
  In the loop over the deny rules the second assignment is to \<open>svnid\<close>
  again, of a 16-bit load widened to 32 bits; \<open>dvnid\<close> keeps its old
  contents.  The value returned, \<open>bufptr - buff\<close>, is not used by the
  caller.
\<close>

definition dps_get_bulk_policy_xfer ::
    "rules_room \<Rightarrow> bytes \<Rightarrow> dps_bulk_vnid_policy_t \<Rightarrow> (dps_bulk_vnid_policy_t \<times> nat) option" where
  "dps_get_bulk_policy_xfer room buff d = do {
     np \<leftarrow> ld16 0 buff;
     nd \<leftarrow> ld16 2 buff;
     ((rs, j), pos) \<leftarrow> for_each (\<lambda>_ ((rs, j), pos). do {
          sv \<leftarrow> ld32 pos buff;
          dv \<leftarrow> ld32 (pos + 4) buff;
          rs \<leftarrow> put_slot (fst room) j \<lparr>sd_svnid = ntohl sv, sd_dvnid = ntohl dv\<rparr> rs;
          Some ((rs, j + 1), pos + 8) }) [0..<unat (ntohs np)] ((bp_src_dst_vnid d, 0), 4);
     ((rs, j), pos) \<leftarrow> for_each (\<lambda>_ ((rs, j), pos). do {
          _ \<leftarrow> ld32 pos buff;
          sv \<leftarrow> ld16 (pos + 4) buff;
          rs \<leftarrow> put_slot (fst room) j
             ((old_slot (snd room) j rs)\<lparr>sd_svnid := ntohl (ucast sv)\<rparr>) rs;
          Some ((rs, j + 1), pos + 8) }) [0..<unat (ntohs nd)] ((rs, j), pos);
     Some (d\<lparr>bp_num_permit_rules := ntohs np, bp_num_deny_rules := ntohs nd, bp_src_dst_vnid := rs\<rparr>, pos) }"

section \<open>Multicast and packed tunnel lists\<close>

definition dps_get_mcast_addr_tlv :: "bytes \<Rightarrow> dps_mcast_addr_t \<Rightarrow> (dps_mcast_addr_t \<times> nat) option" where
  "dps_get_mcast_addr_tlv buff a = do {
     h \<leftarrow> dps_get_tlv_hdr buff;
     (mac, pos) \<leftarrow> from_off DPS_TLV_HDR_LEN dps_get_vmac_tlv buff;
     ver \<leftarrow> ld8 pos buff;
     (if ver = 4 then do {
        (ip4, pos) \<leftarrow> from_off pos dps_get_ip4_tlv buff;
        Some (a\<lparr>ma_mcast_mac := mac, ma_mcast_ip6 := set_ip4 ip4 (ma_mcast_ip6 a),
            ma_mcast_addr_type := (if tlv_type h = MCAST_ADDR_MAC_TLV then MCAST_ADDR_MAC
               else if tlv_type h = MCAST_ADDR_V4_TLV then MCAST_ADDR_V4 else MCAST_ADDR_V4_ICB_RANGE)\<rparr>, pos) }
      else do {
        (ip6, pos) \<leftarrow> from_off pos dps_get_ip6_tlv buff;
        Some (a\<lparr>ma_mcast_mac := mac, ma_mcast_addr_type := MCAST_ADDR_V6, ma_mcast_ip6 := ip6\<rparr>, pos) }) }"

definition grp_rec_switch :: "nat \<Rightarrow> dps_tlv_hdr_t \<Rightarrow> bytes \<Rightarrow> dps_mcast_group_record_t \<Rightarrow>
    dps_mcast_group_record_t branch option" where
  "grp_rec_switch cap h b g =
     (if tlv_type h \<in> {MCAST_ADDR_MAC_TLV, MCAST_ADDR_V4_TLV, MCAST_ADDR_V6_TLV, MCAST_ADDR_V4_ICB_RANGE_TLV} then
        took (\<lambda>a. g\<lparr>mg_mcast_addr := a\<rparr>) (dps_get_mcast_addr_tlv b (mg_mcast_addr g))
      else if tlv_type h = IPV4_ADDR_LIST_TLV then
        took (\<lambda>m. g\<lparr>mg_src_addr := m, mg_num_of_srcs := tlv_len h div 4, mg_family := AF_INET\<rparr>)
          (dps_get_ipv4_list_tlv cap 0 b (mg_src_addr g))
      else if tlv_type h = IPV6_ADDR_LIST_TLV then
        took (\<lambda>m. g\<lparr>mg_src_addr := m, mg_num_of_srcs := tlv_len h div 16, mg_family := AF_INET6\<rparr>)
          (dps_get_ipv6_list_tlv cap 0 b (mg_src_addr g))
      else Some (Take g 0))"

definition dps_get_mcast_grp_rec_tlv :: "nat \<Rightarrow> bytes \<Rightarrow> dps_mcast_group_record_t \<Rightarrow>
    (dps_mcast_group_record_t \<times> nat) option" where
  "dps_get_mcast_grp_rec_tlv cap buff g = do {
     h \<leftarrow> dps_get_tlv_hdr buff;
     ((g, _), pos) \<leftarrow> tlv_scan (DPS_TLV_HDR_LEN + unat (tlv_len h)) (grp_rec_switch cap) buff g DPS_TLV_HDR_LEN;
     Some (g, pos) }"

definition vnid_tunnel_switch :: "nat \<Rightarrow> dps_tlv_hdr_t \<Rightarrow> bytes \<Rightarrow> dps_pkd_tunnel_list_t \<Rightarrow>
    dps_pkd_tunnel_list_t branch option" where
  "vnid_tunnel_switch cap h b d =
     (if tlv_type h = IPV4_ADDR_LIST_TLV then
        took (\<lambda>m. d\<lparr>pk_tunnel_list := m, pk_num_v4_tunnels := tlv_len h div 4\<rparr>)
          (dps_get_ipv4_list_tlv cap 0 b (pk_tunnel_list d))
      else if tlv_type h = IPV6_ADDR_LIST_TLV then
        took (\<lambda>m. d\<lparr>pk_tunnel_list := m, pk_num_v6_tunnels := tlv_len h div 16\<rparr>)
          (dps_get_ipv6_list_tlv cap 0 b (pk_tunnel_list d))
      else Some (Take d 0))"

definition dps_get_vnid_tunnel_list_tlv :: "nat \<Rightarrow> bytes \<Rightarrow> dps_pkd_tunnel_list_t \<Rightarrow>
    (dps_pkd_tunnel_list_t \<times> nat) option" where
  "dps_get_vnid_tunnel_list_tlv cap buff d = do {
     h \<leftarrow> dps_get_tlv_hdr buff;
     vnid \<leftarrow> ld32 4 buff;
     ((d, _), pos) \<leftarrow> tlv_scan (DPS_TLV_HDR_LEN + unat ((ucast (tlv_len h) :: u32) - of_nat DPS_VNID_LEN))
       (vnid_tunnel_switch cap) buff (d\<lparr>pk_vnid := ntohl vnid\<rparr>) 8;
     Some (d, pos) }"

definition epri_switch :: "tunnel_room \<Rightarrow> dps_tlv_hdr_t \<Rightarrow> bytes \<Rightarrow> dps_epri_t \<Rightarrow> dps_epri_t branch option" where
  "epri_switch room h b ep =
     (if tlv_type h = EUID_TLV then
        took (\<lambda>(vnid, mac). ep\<lparr>ep_vnid := vnid, ep_mac := mac\<rparr>) (dps_get_euid_tlv b)
      else if tlv_type h = IP4_INFO_LIST_TLV then
        took (\<lambda>l. ep\<lparr>ep_vm_ip4_addr := l\<rparr>) (dps_get_ip4_info_list_tlv b (ep_vm_ip4_addr ep))
      else if tlv_type h = IP6_INFO_LIST_TLV then
        took (\<lambda>l. ep\<lparr>ep_vm_ip6_addr := l\<rparr>) (dps_get_ip6_info_list_tlv b (ep_vm_ip6_addr ep))
      else if tlv_type h = TUNNEL_LIST_TLV then
        took (\<lambda>tinfo. ep\<lparr>ep_tunnel_info := tinfo\<rparr>) (dps_get_tunnel_list_tlv room b (ep_tunnel_info ep))
      else Some (Take ep (unat (tlv_len h) + DPS_TLV_HDR_LEN)))"

definition dps_get_epri_tlv :: "tunnel_room \<Rightarrow> bytes \<Rightarrow> dps_epri_t \<Rightarrow> (dps_epri_t \<times> nat) option" where
  "dps_get_epri_tlv room buff ep = do {
     h \<leftarrow> dps_get_tlv_hdr buff;
     ((ep, _), pos) \<leftarrow> tlv_scan (DPS_TLV_HDR_LEN + unat (tlv_len h)) (epri_switch room) buff ep DPS_TLV_HDR_LEN;
     Some (ep, pos) }"

end
