(* ===== verification/Dps_Link.thy ===== *)
theory Dps_Link
  imports Dps_Tlv_Set Dps_Tlv_Get
begin

text \<open>
  What \<open>dps_pkt_process.c\<close> needs from its surroundings, the buffers it
  allocates and the packet header it writes.  The same source is compiled
  into the server (\<open>DPS_SERVER\<close>) and into the clients; the two builds
  differ in the functions of the record \<open>dps_link\<close>, which also hides
  the rest of the program as a state of type \<open>'w\<close>.
\<close>

section \<open>The surroundings\<close>

record 'w dps_link =
  lk_server :: bool
  lk_malloc :: "'w \<Rightarrow> bytes option \<times> 'w"
  lk_free :: "'w \<Rightarrow> 'w"
  lk_active :: "'w \<Rightarrow> bool"
  lk_query_id :: "'w \<Rightarrow> u32 \<times> 'w"
  lk_xmit :: "bytes \<Rightarrow> ip_addr_t \<Rightarrow> nat \<Rightarrow> 'w \<Rightarrow> u32 \<times> 'w"
  lk_timer_stop :: "u32 \<Rightarrow> 'w \<Rightarrow> (bool \<times> nat) \<times> 'w"
  lk_deliver :: "dps_client_data_t \<Rightarrow> 'w \<Rightarrow> 'w"
  lk_new_node :: "u32 \<Rightarrow> 'w \<Rightarrow> 'w"
  lk_uninit :: "'w \<Rightarrow> ip_addr_t"

text \<open>
  \<open>lk_malloc\<close> is \<open>malloc(DPS_MAX_BUFF_SZ)\<close>: a block with
  arbitrary contents, or a null pointer.  \<open>lk_active\<close> is
  \<open>dps_cluster_is_local_node_active\<close>; \<open>lk_query_id\<close> is
  \<open>raw_proto_query_id_generate\<close>; \<open>lk_xmit\<close> is
  \<open>dps_protocol_xmit\<close> with the packet, its destination and the context
  pointer; \<open>lk_timer_stop\<close> stops the retransmission of a query and says
  whether that succeeded and which context belonged to it;
  \<open>lk_deliver\<close> hands a message to the server or client above;
  \<open>lk_new_node\<close> is \<open>dps_req_new_dps_node\<close>; \<open>lk_uninit\<close>
  is what an uninitialised address variable happens to hold.
\<close>

definition wf_link :: "'w dps_link \<Rightarrow> bool" where
  "wf_link lk \<longleftrightarrow> (\<forall>w. case fst (lk_malloc lk w) of None \<Rightarrow> True | Some mem \<Rightarrow> length mem = DPS_MAX_BUFF_SZ)"

section \<open>Buffers\<close>

text \<open>The length asked for is ignored: the block always has \<open>DPS_MAX_BUFF_SZ\<close> bytes.\<close>

definition dps_alloc_buff :: "'w dps_link \<Rightarrow> 'w \<Rightarrow> bytes option \<times> 'w" where
  "dps_alloc_buff lk w = (case lk_malloc lk w of
     (None, w) \<Rightarrow> (None, w)
   | (Some mem, w) \<Rightarrow> (Some (replicate SIZEOF_CLIENT_DATA 0 @ drop SIZEOF_CLIENT_DATA mem), w))"

text \<open>A structure lying in a block at a byte offset.\<close>

definition tunnel_at :: "bytes \<Rightarrow> nat \<Rightarrow> dps_tunnel_endpoint_t" where
  "tunnel_at mem off = (let b = drop off mem in
     \<lparr>te_family = of_bytes16 (take 2 b), te_port = of_bytes16 (take 2 (drop 2 b)), te_vnid = of_bytes32 (take 4 (drop 4 b)),
      te_tunnel_type = of_bytes16 (take 2 (drop 8 b)), te_flags = of_bytes16 (take 2 (drop 10 b)), te_ip6 = take 16 (drop 12 b)\<rparr>)"

definition rule_at :: "bytes \<Rightarrow> nat \<Rightarrow> src_dst_vnid_t" where
  "rule_at mem off = \<lparr>sd_svnid = of_bytes32 (take 4 (drop off mem)), sd_dvnid = of_bytes32 (take 4 (drop (off + 4) mem))\<rparr>"

text \<open>The elements of a trailing array that begins at offset \<open>off\<close> of a client buffer.\<close>

definition tunnel_space :: "bytes \<Rightarrow> nat \<Rightarrow> tunnel_room" where
  "tunnel_space mem off = ((DPS_MAX_BUFF_SZ - off) div SIZEOF_TUNNEL_ENDPOINT, \<lambda>i. tunnel_at mem (off + SIZEOF_TUNNEL_ENDPOINT * i))"

definition rules_space :: "bytes \<Rightarrow> nat \<Rightarrow> rules_room" where
  "rules_space mem off = ((DPS_MAX_BUFF_SZ - off) div 8, \<lambda>i. rule_at mem (off + 8 * i))"

section \<open>The packet header\<close>

text \<open>
  \<open>(len - 4) / 4\<close> of a 16-bit length, computed in \<open>int\<close> and
  truncated to 16 bits: a length that wrapped below 4 gives -1 or 0.
\<close>

definition hdr_words :: "u16 \<Rightarrow> u16" where
  "hdr_words len = (if 4 \<le> len then (len - 4) div 4 else if len = 0 then -1 else 0)"

definition dps_set_pkt_hdr :: "'w dps_link \<Rightarrow> u8 \<Rightarrow> dps_client_hdr_t \<Rightarrow> nat \<Rightarrow> bytes \<Rightarrow> 'w \<Rightarrow>
    (cursor \<times> dps_client_hdr_t \<times> 'w) option" where
  "dps_set_pkt_hdr lk pkt_type client_hdr len buff w = do {
     b \<leftarrow> st8 0 DPS_PROTOCOL_VER buff;
     b \<leftarrow> st8 1 pkt_type b;
     b \<leftarrow> st16 2 (htons (hdr_words (of_nat len))) b;
     (let (hdr, w) = (if lk_server lk then (client_hdr, w)
        else let (qid, w) = (if ch_query_id client_hdr = 0 then lk_query_id lk w else (ch_query_id client_hdr, w))
             in (client_hdr\<lparr>ch_query_id := qid, ch_transaction_type := DPS_TRANSACTION_NORMAL\<rparr>, w))
      in do {
        b \<leftarrow> st32 8 (htonl (ch_vnid hdr)) b;
        b \<leftarrow> st16 12 (htons (ucast (ch_sub_type hdr))) b;
        b \<leftarrow> st16 14 (htons (ucast (ch_resp_status hdr))) b;
        b \<leftarrow> st8 16 (ch_client_id hdr) b;
        b \<leftarrow> st8 17 (ch_transaction_type hdr) b;
        b \<leftarrow> st32 4 (htonl (ch_query_id hdr)) b;
        Some ((b, DPS_PKT_HDR_LEN), hdr, w) }) }"

section \<open>The retransmission timer\<close>

definition dps_stop_retransmit_timer :: "'w dps_link \<Rightarrow> u32 \<Rightarrow> 'w \<Rightarrow> (u32 \<times> nat) \<times> 'w" where
  "dps_stop_retransmit_timer lk query_id w =
     (if query_id = 0 then ((DPS_SUCCESS, 0), w)
      else case lk_timer_stop lk query_id w of ((ok, context), w) \<Rightarrow> ((if ok then DPS_SUCCESS else DPS_ERROR, context), w))"

section \<open>The length of a packet\<close>

text \<open>
  A message whose body is not the union member its type calls for is not
  modelled (\<open>None\<close>): the code would read the bytes of another member.
  Lengths stay below \<open>2 ^ 32\<close> (the counts are 16-bit, or bounded by an
  array), so they are natural numbers.
\<close>

definition dps_calc_vip_tlv_len :: "u32 \<Rightarrow> ip_addr_t list \<Rightarrow> nat option" where
  "dps_calc_vip_tlv_len num_of_vip vip = do {
     vs \<leftarrow> slots (unat num_of_vip) vip;
     (let j = length (vip4s vs); k = length (vip6s vs) in
       Some ((if j \<noteq> 0 then DPS_TLV_HDR_LEN + j * DPS_IP4_ADDR_LEN else 0) +
             (if k \<noteq> 0 then DPS_TLV_HDR_LEN + k * DPS_IP6_ADDR_LEN else 0))) }"

definition tunnel_info_len :: "dps_tunnel_endpoint_t \<Rightarrow> nat" where
  "tunnel_info_len t = (if te_family t = AF_INET then DPS_IP4_TUNNEL_INFO_LEN
     else if te_family t = AF_INET6 then DPS_IP6_TUNNEL_INFO_LEN else 0)"

definition dps_calc_tunnel_tlv_len :: "dps_tunnel_list_t \<Rightarrow> nat option" where
  "dps_calc_tunnel_tlv_len tinfo = do {
     ts \<leftarrow> slots (unat (tl_num_of_tunnels tinfo)) (tl_tunnel_list tinfo);
     Some ((if tl_num_of_tunnels tinfo \<noteq> 0 then DPS_TLV_HDR_LEN else 0) + sum_list (map tunnel_info_len ts)) }"

definition dps_calc_endpoint_loc_reply_tlv_len :: "dps_endpoint_loc_reply_t \<Rightarrow> nat option" where
  "dps_calc_endpoint_loc_reply_tlv_len d = do {
     n \<leftarrow> dps_calc_tunnel_tlv_len (lr_tunnel_info d);
     Some (DPS_TLV_HDR_LEN + DPS_EUID_TLV_LEN + 4 +
       (if ia_family (lr_vm_ip_addr d) = AF_INET \<or> ia_family (lr_vm_ip_addr d) = 0 then DPS_IP4_TLV_LEN else DPS_IP6_TLV_LEN) + n) }"

definition DPS_GET_IP_ADDR_TLV_LEN :: "u16 \<Rightarrow> nat" where
  "DPS_GET_IP_ADDR_TLV_LEN family = (if family = AF_INET then DPS_IP4_TLV_LEN
     else if family = AF_INET6 then DPS_IP6_TLV_LEN else DPS_IP4_TLV_LEN)"

definition dps_calc_endpoint_info_tlv_len :: "dps_endpoint_info_t \<Rightarrow> nat" where
  "dps_calc_endpoint_info_tlv_len d =
     DPS_TLV_HDR_LEN + DPS_VNID_LEN + DPS_MAC_ADDR_LEN + 2 + DPS_GET_IP_ADDR_TLV_LEN (ia_family (ei_vm_ip_addr d))"

definition client_addr_len :: "ip_addr_t \<Rightarrow> nat" where
  "client_addr_len a = (if ia_family a = AF_INET then DPS_SVCLOC4_TLV_LEN
     else if ia_family a = AF_INET6 then DPS_SVCLOC6_TLV_LEN else 0)"

definition addr_lists_len :: "u16 \<Rightarrow> u16 \<Rightarrow> nat" where
  "addr_lists_len v4 v6 =
     (if v4 \<noteq> 0 then DPS_TLV_HDR_LEN + unat v4 * DPS_IP4_ADDR_LEN else 0) +
     (if v6 \<noteq> 0 then DPS_TLV_HDR_LEN + unat v6 * DPS_IP6_ADDR_LEN else 0)"

definition policy_len :: "dps_policy_t \<Rightarrow> nat" where
  "policy_len p = DPS_TLV_HDR_LEN + DPS_POLICY_ID_TLV_LEN + DPS_TLV_HDR_LEN +
     (if po_policy_type p = DPS_POLICY_TYPE_CONNECTIVITY then
        4 + (unat (po_num_permit_rules p) + unat (po_num_deny_rules p)) * 8 +
        (if po_num_permit_rules p \<noteq> 0 then 4 else 0) + (if po_num_deny_rules p \<noteq> 0 then 4 else 0)
      else if po_policy_type p = DPS_POLICY_TYPE_SOURCE_ROUTING then
        4 + (if po_version p = ucast AF_INET then 4 * unat (po_address_count p) else 16 * unat (po_address_count p))
      else 0)"

definition mcast_len :: "dps_mcast_addr_t \<Rightarrow> nat" where
  "mcast_len a = DPS_TLV_HDR_LEN + DPS_VMAC_TLV_LEN +
     (if ma_mcast_addr_type a = MCAST_ADDR_V6 then DPS_IP6_TLV_LEN else DPS_IP4_TLV_LEN)"

fun loc_req_len :: "dps_client_body \<Rightarrow> nat option" where
  "loc_req_len (Endpoint_loc_req d) = Some (DPS_EUID_TLV_LEN +
     (if ia_family (lq_vm_ip_addr d) = AF_INET then DPS_IP4_TLV_LEN
      else if ia_family (lq_vm_ip_addr d) = AF_INET6 then DPS_IP6_TLV_LEN else 0) + client_addr_len (lq_dps_client_addr d))"
| "loc_req_len _ = None"

fun loc_reply_len :: "dps_client_body \<Rightarrow> nat option" where
  "loc_reply_len (Endpoint_loc_reply d) = dps_calc_endpoint_loc_reply_tlv_len d"
| "loc_reply_len _ = None"

fun policy_req_len :: "dps_client_body \<Rightarrow> nat option" where
  "policy_req_len (Policy_req d) = Some (dps_calc_endpoint_info_tlv_len (pq_dst_endpoint d) +
     dps_calc_endpoint_info_tlv_len (pq_src_endpoint d) + client_addr_len (pq_dps_client_addr d))"
| "policy_req_len _ = None"

fun policy_reply_len :: "u32 \<Rightarrow> dps_client_body \<Rightarrow> nat option" where
  "policy_reply_len resp_status (Policy_reply d) = do {
     n \<leftarrow> dps_calc_endpoint_loc_reply_tlv_len (pr_dst_endpoint_loc_reply d);
     Some (n + (if resp_status = DPS_NO_ERR then policy_len (pi_dps_policy (pr_dps_policy_info d)) else 0)) }"
| "policy_reply_len _ _ = None"

fun endpoint_update_len :: "dps_client_body \<Rightarrow> nat option" where
  "endpoint_update_len (Endpoint_update d) = do {
     n \<leftarrow> dps_calc_tunnel_tlv_len (eu_tunnel_info d);
     Some (DPS_TLV_HDR_LEN + DPS_EUID_TLV_LEN + DPS_DATA_VER_LEN +
       (if ia_family (eu_vm_ip_addr d) = AF_INET \<or> ia_family (eu_vm_ip_addr d) = 0 then DPS_IP4_TLV_LEN else DPS_IP6_TLV_LEN) +
       n + client_addr_len (eu_dps_client_addr d)) }"
| "endpoint_update_len _ = None"

fun endpoint_update_reply_len :: "dps_client_body \<Rightarrow> nat option" where
  "endpoint_update_reply_len (Endpoint_update_reply d) = do {
     v \<leftarrow> dps_calc_vip_tlv_len (ur_num_of_vip d) (ur_vm_ip_addr d);
     n \<leftarrow> dps_calc_tunnel_tlv_len (ur_tunnel_info d);
     Some (DPS_TLV_HDR_LEN + DPS_EUID_TLV_LEN + DPS_DATA_VER_LEN + v + n) }"
| "endpoint_update_reply_len _ = None"

fun internal_gw_len :: "dps_client_body \<Rightarrow> nat option" where
  "internal_gw_len (Internal_gw_list d) = Some (addr_lists_len (gw_num_v4_gw d) (gw_num_v6_gw d))"
| "internal_gw_len _ = None"

fun gen_msg_len :: "dps_client_body \<Rightarrow> nat option" where
  "gen_msg_len (Gen_msg_req a) = Some (client_addr_len a)"
| "gen_msg_len _ = None"

fun bcast_list_len :: "dps_client_body \<Rightarrow> nat option" where
  "bcast_list_len (Dove_switch_list d) = Some (addr_lists_len (pk_num_v4_tunnels d) (pk_num_v6_tunnels d))"
| "bcast_list_len _ = None"

fun bulk_policy_len :: "dps_client_body \<Rightarrow> nat option" where
  "bulk_policy_len (Bulk_vnid_policy d) = Some (4 + (unat (bp_num_permit_rules d) + unat (bp_num_deny_rules d)) * 8)"
| "bulk_policy_len _ = None"

fun vm_migration_len :: "dps_client_body \<Rightarrow> nat option" where
  "vm_migration_len (Vm_migration_event d) = do {
     n \<leftarrow> dps_calc_endpoint_loc_reply_tlv_len (vm_src_vm_loc d);
     Some (n + dps_calc_endpoint_info_tlv_len (vm_migrated_vm_info d)) }"
| "vm_migration_len _ = None"

fun mcast_sender_len :: "dps_client_body \<Rightarrow> nat option" where
  "mcast_sender_len (Mcast_sender d) = Some (DPS_GET_IP_ADDR_TLV_LEN (ia_family (ms_tunnel_endpoint d)) +
     dps_calc_endpoint_info_tlv_len (ms_mcast_src_vm d) + mcast_len (ms_mcast_addr d) + client_addr_len (ms_dps_client_addr d))"
| "mcast_sender_len _ = None"

fun mcast_receiver_len :: "dps_client_body \<Rightarrow> nat option" where
  "mcast_receiver_len (Mcast_receiver d) = (let g = mr_mcast_group_rec d in
     Some (DPS_GET_IP_ADDR_TLV_LEN (ia_family (mr_tunnel_endpoint d)) + DPS_TLV_HDR_LEN + mcast_len (mg_mcast_addr g) +
       (if mg_num_of_srcs g \<noteq> 0 then
          (if mg_family g = AF_INET then DPS_TLV_HDR_LEN + unat (mg_num_of_srcs g) * DPS_IP4_ADDR_LEN else 0) +
          (if mg_family g = AF_INET6 then DPS_TLV_HDR_LEN + unat (mg_num_of_srcs g) * DPS_IP6_ADDR_LEN else 0)
        else 0) + client_addr_len (mr_dps_client_addr d)))"
| "mcast_receiver_len _ = None"

fun gw_list_len :: "dps_client_body \<Rightarrow> nat option" where
  "gw_list_len (Tunnel_info d) = Some (if tl_num_of_tunnels d \<noteq> 0
     then DPS_TLV_HDR_LEN + unat (tl_num_of_tunnels d) * SIZEOF_TUNNEL_ENDPOINT else 0)"
| "gw_list_len _ = None"

fun tunnel_reg_len :: "dps_client_body \<Rightarrow> nat option" where
  "tunnel_reg_len (Tunnel_reg_dereg d) = Some ((if tl_num_of_tunnels (td_tunnel_info d) \<noteq> 0
     then DPS_TLV_HDR_LEN + unat (tl_num_of_tunnels (td_tunnel_info d)) * SIZEOF_TUNNEL_ENDPOINT else 0) + DPS_SVCLOC6_TLV_LEN)"
| "tunnel_reg_len _ = None"

definition calc_pkt_len :: "u8 \<Rightarrow> dps_client_data_t \<Rightarrow> nat option" where
  "calc_pkt_len t req = (let b = cd_body req in map_option ((+) DPS_PKT_HDR_LEN)
     (if t \<in> {DPS_ENDPOINT_LOC_REQ, DPS_ADDR_RESOLVE} then loc_req_len b
      else if t \<in> {DPS_ENDPOINT_LOC_REPLY, DPS_UNSOLICITED_ENDPOINT_LOC_REPLY} then loc_reply_len b
      else if t = DPS_POLICY_REQ then policy_req_len b
      else if t = DPS_POLICY_REPLY then policy_reply_len (ch_resp_status (cd_hdr req)) b
      else if t = DPS_ENDPOINT_UPDATE then endpoint_update_len b
      else if t = DPS_ENDPOINT_UPDATE_REPLY then endpoint_update_reply_len b
      else if t \<in> {DPS_INTERNAL_GW_REPLY, DPS_UNSOLICITED_INTERNAL_GW_REPLY} then internal_gw_len b
      else if t \<in> {DPS_BCAST_LIST_REQ, DPS_EXTERNAL_GW_LIST_REQ, DPS_VLAN_GW_LIST_REQ, DPS_INTERNAL_GW_REQ,
                   DPS_VNID_POLICY_LIST_REQ, DPS_UNSOLICITED_VNID_DEL_REQ, DPS_MCAST_CTRL_GW_REQ, DPS_CTRL_PLANE_HB} then gen_msg_len b
      else if t \<in> {DPS_BCAST_LIST_REPLY, DPS_UNSOLICITED_BCAST_LIST_REPLY} then bcast_list_len b
      else if t \<in> {DPS_UNSOLICITED_VNID_POLICY_LIST, DPS_VNID_POLICY_LIST_REPLY} then bulk_policy_len b
      else if t = DPS_VM_MIGRATION_EVENT then vm_migration_len b
      else if t \<in> {DPS_MCAST_SENDER_REGISTRATION, DPS_MCAST_SENDER_DEREGISTRATION} then mcast_sender_len b
      else if t \<in> {DPS_MCAST_RECEIVER_JOIN, DPS_MCAST_RECEIVER_LEAVE} then mcast_receiver_len b
      else if t \<in> {DPS_UNSOLICITED_EXTERNAL_GW_LIST, DPS_UNSOLICITED_VLAN_GW_LIST, DPS_EXTERNAL_GW_LIST_REPLY,
                   DPS_VLAN_GW_LIST_REPLY, DPS_MCAST_CTRL_GW_REPLY} then gw_list_len b
      else if t \<in> {DPS_TUNNEL_REGISTER, DPS_TUNNEL_DEREGISTER} then tunnel_reg_len b
      else Some 0))"

end
