(* ===== verification/Dps_Send.thy ===== *)
theory Dps_Send
  imports Dps_Link
begin

text \<open>
  The \<open>dps_send_*\<close> routines: each builds the packet for one message
  in a fresh buffer and transmits it.  A routine returns its status, the
  header of the message (\<open>dps_set_pkt_hdr\<close> may fill in a query id) and
  the new state of the surroundings.  The buffer is freed before returning.
\<close>

type_synonym 'w sender = "dps_client_data_t \<Rightarrow> 'w \<Rightarrow> (u32 \<times> dps_client_hdr_t \<times> 'w) option"

section \<open>Building and transmitting\<close>

definition dps_protocol_xmit :: "'w dps_link \<Rightarrow> bytes \<Rightarrow> nat \<Rightarrow> ip_addr_t \<Rightarrow> nat \<Rightarrow> 'w \<Rightarrow> (u32 \<times> 'w) option" where
  "dps_protocol_xmit lk buff len addr context w = do {
     pkt \<leftarrow> slots len buff;
     Some (lk_xmit lk pkt addr context w) }"

text \<open>The header is written first, with a length computed beforehand.\<close>

definition send_header_first :: "'w dps_link \<Rightarrow> u32 \<Rightarrow> u8 \<Rightarrow> nat \<Rightarrow> (cursor \<Rightarrow> cursor option) \<Rightarrow> 'w sender" where
  "send_header_first lk nomem pkt_type len body req w = (case dps_alloc_buff lk w of
     (None, w) \<Rightarrow> Some (nomem, cd_hdr req, w)
   | (Some buff, w) \<Rightarrow> do {
       (s, hdr, w) \<leftarrow> dps_set_pkt_hdr lk pkt_type (cd_hdr req) len buff w;
       (buff, n) \<leftarrow> body s;
       (status, w) \<leftarrow> dps_protocol_xmit lk buff n (ch_reply_addr hdr) (cd_context req) w;
       Some (status, hdr, lk_free lk w) })"

text \<open>The header is written last, with the length the body turned out to have.\<close>

definition send_header_last :: "'w dps_link \<Rightarrow> u8 \<Rightarrow> (cursor \<Rightarrow> cursor option) \<Rightarrow> 'w sender" where
  "send_header_last lk pkt_type body req w = (case dps_alloc_buff lk w of
     (None, w) \<Rightarrow> Some (DPS_ERROR, cd_hdr req, w)
   | (Some buff, w) \<Rightarrow> do {
       (buff, n) \<leftarrow> body (buff, DPS_PKT_HDR_LEN);
       ((buff, _), hdr, w) \<leftarrow> dps_set_pkt_hdr lk pkt_type (cd_hdr req) n buff w;
       (status, w) \<leftarrow> dps_protocol_xmit lk buff n (ch_reply_addr hdr) (cd_context req) w;
       Some (status, hdr, lk_free lk w) })"

definition put_client_addr :: "ip_addr_t \<Rightarrow> cursor \<Rightarrow> cursor option" where
  "put_client_addr a s = (if ia_family a = AF_INET \<or> ia_family a = AF_INET6 then put (dps_set_svcloc_tlv a) s else Some s)"

definition put_addr_lists :: "u16 \<Rightarrow> u16 \<Rightarrow> bytes \<Rightarrow> cursor \<Rightarrow> cursor option" where
  "put_addr_lists v4 v6 addrs s = do {
     s \<leftarrow> (if v4 \<noteq> 0 then put (dps_set_ipv4_list_tlv addrs (ucast v4)) s else Some s);
     (if v6 \<noteq> 0 then put (dps_set_ipv6_list_tlv (drop (4 * unat v4) addrs) (ucast v6)) s else Some s) }"

definition put_tunnels :: "dps_tunnel_list_t \<Rightarrow> cursor \<Rightarrow> cursor option" where
  "put_tunnels d = put (dps_set_tunnel_list_tlv (tl_tunnel_list d) (tl_num_of_tunnels d))"

section \<open>Endpoints and policies\<close>

definition loc_req_body :: "dps_endpoint_loc_req_t \<Rightarrow> cursor \<Rightarrow> cursor option" where
  "loc_req_body d s = do {
     s \<leftarrow> put (dps_set_euid_tlv (lq_vnid d) (lq_mac d)) s;
     s \<leftarrow> (if ia_family (lq_vm_ip_addr d) = AF_INET then put (dps_set_ip4_tlv (ia_ip4 (lq_vm_ip_addr d))) s
           else if ia_family (lq_vm_ip_addr d) = AF_INET6 then put (dps_set_ip6_tlv (ia_ip6 (lq_vm_ip_addr d))) s
           else Some s);
     put_client_addr (lq_dps_client_addr d) s }"

definition dps_send_endpoint_loc_req :: "'w dps_link \<Rightarrow> 'w sender" where
  "dps_send_endpoint_loc_req lk req w = (case cd_body req of
     Endpoint_loc_req d \<Rightarrow> do {
       len \<leftarrow> calc_pkt_len DPS_ENDPOINT_LOC_REQ req;
       send_header_first lk DPS_ERROR DPS_ENDPOINT_LOC_REQ len (loc_req_body d) req w }
   | _ \<Rightarrow> None)"

definition dps_send_endpoint_loc_reply :: "'w dps_link \<Rightarrow> 'w sender" where
  "dps_send_endpoint_loc_reply lk req w = (case cd_body req of
     Endpoint_loc_reply d \<Rightarrow> do {
       len \<leftarrow> (if ch_resp_status (cd_hdr req) \<noteq> 0 then Some DPS_PKT_HDR_LEN else calc_pkt_len (ch_type (cd_hdr req)) req);
       send_header_first lk DPS_ERROR (ch_type (cd_hdr req)) len
         (\<lambda>s. if len \<noteq> DPS_PKT_HDR_LEN then put (dps_set_endpoint_loc_reply_tlv d) s else Some s) req w }
   | _ \<Rightarrow> None)"

definition dps_send_endpoint_update :: "'w dps_link \<Rightarrow> 'w sender" where
  "dps_send_endpoint_update lk req w = (case cd_body req of
     Endpoint_update d \<Rightarrow> do {
       len \<leftarrow> calc_pkt_len DPS_ENDPOINT_UPDATE req;
       (if len = DPS_PKT_HDR_LEN then Some (DPS_ERROR, cd_hdr req, w)
        else send_header_last lk DPS_ENDPOINT_UPDATE (\<lambda>s. do {
          s \<leftarrow> put (dps_set_endpoint_update_tlv d) s;
          put_client_addr (eu_dps_client_addr d) s }) req w) }
   | _ \<Rightarrow> None)"

definition dps_send_endpoint_update_reply :: "'w dps_link \<Rightarrow> 'w sender" where
  "dps_send_endpoint_update_reply lk req w = (case cd_body req of
     Endpoint_update_reply d \<Rightarrow> do {
       len \<leftarrow> calc_pkt_len (ch_type (cd_hdr req)) req;
       send_header_first lk DPS_ERROR DPS_ENDPOINT_UPDATE_REPLY len
         (\<lambda>s. if len \<noteq> DPS_PKT_HDR_LEN then put (dps_set_endpoint_update_reply_tlv d) s else Some s) req w }
   | _ \<Rightarrow> None)"

definition dps_send_policy_req :: "'w dps_link \<Rightarrow> 'w sender" where
  "dps_send_policy_req lk req w = (case cd_body req of
     Policy_req d \<Rightarrow> do {
       len \<leftarrow> calc_pkt_len DPS_POLICY_REQ req;
       send_header_first lk DPS_ERROR DPS_POLICY_REQ len (\<lambda>s. do {
         s \<leftarrow> put (dps_set_endpoint_info_tlv (pq_dst_endpoint d)) s;
         s \<leftarrow> put (dps_set_endpoint_info_tlv (pq_src_endpoint d)) s;
         put_client_addr (pq_dps_client_addr d) s }) req w }
   | _ \<Rightarrow> None)"

text \<open>The status of the transmission is dropped here: success is returned whenever a buffer was available.\<close>

definition dps_send_policy_reply :: "'w dps_link \<Rightarrow> 'w sender" where
  "dps_send_policy_reply lk req w = (case cd_body req of
     Policy_reply d \<Rightarrow> do {
       len \<leftarrow> calc_pkt_len DPS_POLICY_REPLY req;
       (case fst (dps_alloc_buff lk w) of
          None \<Rightarrow> Some (DPS_ERROR, cd_hdr req, snd (dps_alloc_buff lk w))
        | Some _ \<Rightarrow> do {
            (_, hdr, w) \<leftarrow> send_header_first lk DPS_ERROR DPS_POLICY_REPLY len
              (put (dps_set_policy_reply_tlv d (cd_hdr req))) req w;
            Some (DPS_SUCCESS, hdr, w) }) }
   | _ \<Rightarrow> None)"

definition dps_send_policy_invalidate :: "'w dps_link \<Rightarrow> 'w sender" where
  "dps_send_policy_invalidate lk req w = Some (DPS_SUCCESS, cd_hdr req, w)"

definition dps_send_addr_resolve :: "'w dps_link \<Rightarrow> 'w sender" where
  "dps_send_addr_resolve lk req w = (case cd_body req of
     Endpoint_loc_req d \<Rightarrow> do {
       len \<leftarrow> calc_pkt_len DPS_ADDR_RESOLVE req;
       send_header_first lk DPS_ERROR (ch_type (cd_hdr req)) len (loc_req_body d) req w }
   | _ \<Rightarrow> None)"

definition dps_send_addr_reply :: "'w dps_link \<Rightarrow> 'w sender" where
  "dps_send_addr_reply lk req w = Some (DPS_SUCCESS, cd_hdr req, w)"

section \<open>Lists\<close>

definition dps_send_internal_gw_reply :: "'w dps_link \<Rightarrow> 'w sender" where
  "dps_send_internal_gw_reply lk req w = (case cd_body req of
     Internal_gw_list d \<Rightarrow> do {
       len \<leftarrow> (if ch_resp_status (cd_hdr req) \<noteq> 0 then Some DPS_PKT_HDR_LEN else calc_pkt_len (ch_type (cd_hdr req)) req);
       send_header_first lk DPS_ERROR (ch_type (cd_hdr req)) len
         (\<lambda>s. if len \<noteq> DPS_PKT_HDR_LEN then put_addr_lists (gw_num_v4_gw d) (gw_num_v6_gw d) (gw_gw_list d) s else Some s) req w }
   | _ \<Rightarrow> None)"

definition dps_send_gen_msg_req :: "'w dps_link \<Rightarrow> 'w sender" where
  "dps_send_gen_msg_req lk req w = (case cd_body req of
     Gen_msg_req a \<Rightarrow> do {
       len \<leftarrow> calc_pkt_len (ch_type (cd_hdr req)) req;
       send_header_first lk DPS_ERROR (ch_type (cd_hdr req)) len (put_client_addr a) req w }
   | _ \<Rightarrow> None)"

definition dps_send_bcast_list_reply :: "'w dps_link \<Rightarrow> 'w sender" where
  "dps_send_bcast_list_reply lk req w = (case cd_body req of
     Dove_switch_list d \<Rightarrow> do {
       len \<leftarrow> (if ch_resp_status (cd_hdr req) \<noteq> 0 then Some DPS_PKT_HDR_LEN else calc_pkt_len (ch_type (cd_hdr req)) req);
       send_header_first lk DPS_ERROR (ch_type (cd_hdr req)) len
         (\<lambda>s. if len \<noteq> DPS_PKT_HDR_LEN then put_addr_lists (pk_num_v4_tunnels d) (pk_num_v6_tunnels d) (pk_tunnel_list d) s
           else Some s) req w }
   | _ \<Rightarrow> None)"

definition dps_send_bulk_policy_xfer :: "'w dps_link \<Rightarrow> 'w sender" where
  "dps_send_bulk_policy_xfer lk req w = (case cd_body req of
     Bulk_vnid_policy d \<Rightarrow> do {
       len \<leftarrow> calc_pkt_len (ch_type (cd_hdr req)) req;
       send_header_first lk DPS_ERROR_NO_RESOURCES (ch_type (cd_hdr req)) len (put (dps_set_bulk_policy_xfer d)) req w }
   | _ \<Rightarrow> None)"

text \<open>
  \<open>dps_send_gw_list\<close> goes on after a failed allocation and writes
  through the null pointer, which is undefined.
\<close>

definition dps_send_gw_list :: "'w dps_link \<Rightarrow> 'w sender" where
  "dps_send_gw_list lk req w = (case cd_body req of
     Tunnel_info d \<Rightarrow> do {
       len \<leftarrow> (if ch_resp_status (cd_hdr req) \<noteq> 0 then Some DPS_PKT_HDR_LEN else calc_pkt_len (ch_type (cd_hdr req)) req);
       (case fst (dps_alloc_buff lk w) of
          None \<Rightarrow> None
        | Some _ \<Rightarrow> send_header_last lk (ch_type (cd_hdr req))
            (\<lambda>s. if len \<noteq> DPS_PKT_HDR_LEN then put_tunnels d s else Some s) req w) }
   | _ \<Rightarrow> None)"

definition dps_send_tunnel_reg_dereg :: "'w dps_link \<Rightarrow> 'w sender" where
  "dps_send_tunnel_reg_dereg lk req w = (case cd_body req of
     Tunnel_reg_dereg d \<Rightarrow> do {
       len \<leftarrow> (if ch_resp_status (cd_hdr req) \<noteq> 0 then Some DPS_PKT_HDR_LEN else calc_pkt_len (ch_type (cd_hdr req)) req);
       send_header_last lk (ch_type (cd_hdr req)) (\<lambda>s. if len \<noteq> DPS_PKT_HDR_LEN then do {
           s \<leftarrow> put_tunnels (td_tunnel_info d) s;
           put_client_addr (td_dps_client_addr d) s } else Some s) req w }
   | _ \<Rightarrow> None)"

definition dps_send_vm_migration_event :: "'w dps_link \<Rightarrow> 'w sender" where
  "dps_send_vm_migration_event lk req w = (case cd_body req of
     Vm_migration_event d \<Rightarrow> do {
       len \<leftarrow> calc_pkt_len DPS_VM_MIGRATION_EVENT req;
       send_header_first lk DPS_ERROR DPS_VM_MIGRATION_EVENT len (\<lambda>s. do {
         s \<leftarrow> put (dps_set_endpoint_info_tlv (vm_migrated_vm_info d)) s;
         put (dps_set_endpoint_loc_reply_tlv (vm_src_vm_loc d)) s }) req w }
   | _ \<Rightarrow> None)"

section \<open>Multicast\<close>

text \<open>The two multicast routines repeat their body until the computed length is reached.\<close>

definition dps_send_mcast_sender_reg_dereg :: "'w dps_link \<Rightarrow> 'w sender" where
  "dps_send_mcast_sender_reg_dereg lk req w = (case cd_body req of
     Mcast_sender d \<Rightarrow> do {
       len \<leftarrow> calc_pkt_len (ch_type (cd_hdr req)) req;
       send_header_first lk DPS_ERROR (ch_type (cd_hdr req)) len (while_opt (\<lambda>(b, n). n < len) (\<lambda>s. do {
         s \<leftarrow> put (dps_set_ip_tlv (ms_tunnel_endpoint d)) s;
         s \<leftarrow> put (dps_set_endpoint_info_tlv (ms_mcast_src_vm d)) s;
         s \<leftarrow> put (dps_set_mcast_addr_tlv (ms_mcast_addr d)) s;
         put_client_addr (ms_dps_client_addr d) s })) req w }
   | _ \<Rightarrow> None)"

definition dps_send_mcast_receiver_join_leave :: "'w dps_link \<Rightarrow> 'w sender" where
  "dps_send_mcast_receiver_join_leave lk req w = (case cd_body req of
     Mcast_receiver d \<Rightarrow> do {
       len \<leftarrow> calc_pkt_len (ch_type (cd_hdr req)) req;
       send_header_first lk DPS_ERROR (ch_type (cd_hdr req)) len (while_opt (\<lambda>(b, n). n < len) (\<lambda>s. do {
         s \<leftarrow> put (dps_set_ip_tlv (mr_tunnel_endpoint d)) s;
         s \<leftarrow> put (dps_set_mcast_grp_rec_tlv (mr_mcast_group_rec d)) s;
         put_client_addr (mr_dps_client_addr d) s })) req w }
   | _ \<Rightarrow> None)"

text \<open>
  The check against \<open>DPS_SEND_BUFF_SZ\<close> stops adding records; what is
  there is sent, and the status of the transmission replaces the error.
\<close>

definition put_record :: "dps_pkd_tunnel_list_t \<Rightarrow> cursor \<times> bool \<Rightarrow> (cursor \<times> bool) option" where
  "put_record r s = (case s of ((b, n), full) \<Rightarrow>
     if full \<or> n > DPS_SEND_BUFF_SZ then Some ((b, n), True)
     else map_option (\<lambda>s. (s, False)) (put (dps_set_vnid_tunnel_list_tlv r) (b, n)))"

definition dps_send_mcast_receiver_ds_list :: "'w dps_link \<Rightarrow> 'w sender" where
  "dps_send_mcast_receiver_ds_list lk req w = (case cd_body req of
     Mcast_receiver_ds_list d \<Rightarrow>
       send_header_last lk (ch_type (cd_hdr req)) (\<lambda>s. do {
         s \<leftarrow> put (dps_set_mcast_addr_tlv (md_mcast_addr d)) s;
         rs \<leftarrow> slots (unat (md_num_of_rec d)) (md_mcast_recvr_list d);
         (s, _) \<leftarrow> for_each put_record rs (s, False);
         Some s }) req w
   | _ \<Rightarrow> None)"

section \<open>Acknowledgements and invalidation\<close>

text \<open>The acknowledgement is built in a zeroed header on the stack and carries no context.\<close>

definition dps_send_general_ack :: "'w dps_link \<Rightarrow> 'w sender" where
  "dps_send_general_ack lk req w = do {
     ((buff, _), hdr, w) \<leftarrow> dps_set_pkt_hdr lk (ch_type (cd_hdr req)) (cd_hdr req) DPS_PKT_HDR_LEN (replicate DPS_PKT_HDR_LEN 0) w;
     (status, w) \<leftarrow> dps_protocol_xmit lk buff DPS_PKT_HDR_LEN (ch_reply_addr hdr) 0 w;
     Some (status, hdr, w) }"

definition dps_send_vm_loc_info :: "'w dps_link \<Rightarrow> 'w sender" where
  "dps_send_vm_loc_info lk req w = (case cd_body req of
     Vm_invalidate_msg d \<Rightarrow> (case fst (dps_alloc_buff lk w) of
          None \<Rightarrow> Some (DPS_ERROR, cd_hdr req, snd (dps_alloc_buff lk w))
        | Some _ \<Rightarrow> do {
            (_, hdr, w) \<leftarrow> send_header_last lk (ch_type (cd_hdr req)) (put (dps_set_epri_tlv d)) req w;
            Some (DPS_SUCCESS, hdr, w) })
   | _ \<Rightarrow> None)"

definition dps_noop_func :: "'w dps_link \<Rightarrow> 'w sender" where
  "dps_noop_func lk req w = Some (DPS_SUCCESS, cd_hdr req, w)"

end
