(* ===== verification/Dps_Dispatch.thy ===== *)
theory Dps_Dispatch
  imports Dps_Send
begin

text \<open>
  The statistics table, the table of send routines and
  \<open>dps_protocol_client_send\<close>, the entry point through which the
  server and the clients send a message; and the general acknowledgement the
  receive routines send through it.
\<close>

section \<open>Statistics\<close>

record dps_pkt_stats_t =
  ps_packet_name :: string
  ps_recv :: "64 word"
  ps_recv_error :: "64 word"
  ps_sent :: "64 word"
  ps_transmit_error :: "64 word"

type_synonym dps_stats = "dps_pkt_stats_t list"

definition no_stats :: "string \<Rightarrow> dps_pkt_stats_t" where
  "no_stats name = \<lparr>ps_packet_name = name, ps_recv = 0, ps_recv_error = 0, ps_sent = 0, ps_transmit_error = 0\<rparr>"

definition dps_pkt_stats_tbl :: dps_stats where
  "dps_pkt_stats_tbl = map no_stats [
     ''Unknown Packet'',
     ''Endpoint Location Request'',
     ''Endpoint Location Reply'',
     ''Policy Request'',
     ''Policy Reply'',
     ''Policy Invalidate'',
     ''Endpoint Update'',
     ''Endpoint Ack'',
     ''Address Resolve'',
     ''Address Reply'',
     ''Internal Gw Req'',
     ''Internal Gw Reply'',
     ''Bulk Policy Transfer'',
     ''Broadcast Req'',
     ''Broadcast Reply'',
     ''VM Migration Event'',
     ''Mcast Sender Registration'',
     ''Mcast Sender DeRegistration'',
     ''Mcast Receiver Join'',
     ''Mcast Receiver Leave'',
     ''Mcast Receiver DS List'',
     ''Unsolicited Bcast List Reply'',
     ''Unsolicited Internal Gw Reply'',
     ''General Ack'',
     ''Unsolicited External Gw List'',
     ''Unsolicited Vlan Gw List'',
     ''Register Tunnels'',
     ''Deregister Tunnels'',
     ''Reg/Deregister Tunnel Ack'',
     ''External Gw List Req'',
     ''External Gw List Reply'',
     ''Vlan Gw List Req'',
     ''Vlan Gw List Reply'',
     ''Unsolicited Endpoint Location Reply'',
     ''Bulk VNID Policy Req'',
     ''Bulk VNID Policy Reply'',
     ''Mcast Ctrl Gw Req'',
     ''Mcast Ctrl Gw Reply'',
     ''Unsolicited Vnid Del Req'',
     ''Control Plane Heart Beat'',
     ''New DCS Node Req'',
     ''Unsolicited VM Location Info'']"

text \<open>An entry of the table; the callers have checked the index.\<close>

definition bump :: "nat \<Rightarrow> (dps_pkt_stats_t \<Rightarrow> dps_pkt_stats_t) \<Rightarrow> dps_stats \<Rightarrow> dps_stats option" where
  "bump i f tbl = (if i < length tbl then Some (tbl[i := f (tbl ! i)]) else None)"

definition count_sent :: "u32 \<Rightarrow> dps_pkt_stats_t \<Rightarrow> dps_pkt_stats_t" where
  "count_sent ret s = (if ret = DPS_SUCCESS then s\<lparr>ps_sent := ps_sent s + 1\<rparr>
     else s\<lparr>ps_transmit_error := ps_transmit_error s + 1\<rparr>)"

definition count_recv :: "u32 \<Rightarrow> dps_pkt_stats_t \<Rightarrow> dps_pkt_stats_t" where
  "count_recv ret s = (if ret = DPS_SUCCESS then s\<lparr>ps_recv := ps_recv s + 1\<rparr>
     else s\<lparr>ps_recv_error := ps_recv_error s + 1\<rparr>)"

definition clear_stats :: "dps_pkt_stats_t \<Rightarrow> dps_pkt_stats_t" where
  "clear_stats s = s\<lparr>ps_sent := 0, ps_transmit_error := 0, ps_recv := 0, ps_recv_error := 0\<rparr>"

definition dps_packet_stats_clear :: "u32 \<Rightarrow> dps_stats \<Rightarrow> dps_stats option" where
  "dps_packet_stats_clear pkt_type tbl =
     (if pkt_type < ucast DPS_ENDPOINT_LOC_REQ \<or> pkt_type > ucast DPS_ADDR_REPLY
      then for_each (\<lambda>i. bump i clear_stats) [unat DPS_ENDPOINT_LOC_REQ..<Suc (unat DPS_ADDR_REPLY)] tbl
      else bump (unat pkt_type) clear_stats tbl)"

text \<open>The rows \<open>dps_packet_stats_show\<close> prints.\<close>

definition dps_packet_stats_show :: "u32 \<Rightarrow> dps_stats \<Rightarrow> dps_pkt_stats_t list option" where
  "dps_packet_stats_show pkt_type tbl =
     (if pkt_type < ucast DPS_ENDPOINT_LOC_REQ \<or> pkt_type > ucast DPS_ADDR_REPLY
      then map_option (drop (unat DPS_ENDPOINT_LOC_REQ)) (slots (Suc (unat DPS_ADDR_REPLY)) tbl)
      else map_option (drop (unat pkt_type)) (slots (Suc (unat pkt_type)) tbl))"

section \<open>Sending\<close>

type_synonym 'w dps_state = "dps_stats \<times> 'w"

definition dps_send_func_tbl :: "'w dps_link \<Rightarrow> (string \<times> 'w sender option) list" where
  "dps_send_func_tbl lk = [
     ('''', None),
     (''Endpoint Loc Req'', Some (dps_send_endpoint_loc_req lk)),
     (''Endpoint Loc Reply'', Some (dps_send_endpoint_loc_reply lk)),
     (''Policy Req'', Some (dps_send_policy_req lk)),
     (''Policy Reply'', Some (dps_send_policy_reply lk)),
     (''Policy Invalidate'', Some (dps_send_policy_invalidate lk)),
     (''Endpoint Update'', Some (dps_send_endpoint_update lk)),
     (''Endpoint Update Reply'', Some (dps_send_endpoint_update_reply lk)),
     (''Addr Resolve'', Some (dps_send_addr_resolve lk)),
     (''Addr Reply'', Some (dps_send_addr_reply lk)),
     (''Internal Gw Req'', Some (dps_send_gen_msg_req lk)),
     (''Internal Gw Reply'', Some (dps_send_internal_gw_reply lk)),
     (''Bulk Policy Xfer'', Some (dps_send_bulk_policy_xfer lk)),
     (''Bcast List Req'', Some (dps_send_gen_msg_req lk)),
     (''Bcast List Reply'', Some (dps_send_bcast_list_reply lk)),
     (''VM Migration Info'', Some (dps_send_vm_migration_event lk)),
     (''Mcast Sender Registration'', Some (dps_send_mcast_sender_reg_dereg lk)),
     (''Mcast Sender De-Registration'', Some (dps_send_mcast_sender_reg_dereg lk)),
     (''Mcast Receiver Join'', Some (dps_send_mcast_receiver_join_leave lk)),
     (''Mcast Receiver Leave'', Some (dps_send_mcast_receiver_join_leave lk)),
     (''Mcast Receiver Dove Switch List'', Some (dps_send_mcast_receiver_ds_list lk)),
     (''Unsolicited Bcast List Reply'', Some (dps_send_bcast_list_reply lk)),
     (''Unsolicited Internal Gw Reply'', Some (dps_send_internal_gw_reply lk)),
     (''General Ack'', Some (dps_send_general_ack lk)),
     (''Unsolicited External Gw List'', Some (dps_send_gw_list lk)),
     (''Unsolicited Vlan Gw List'', Some (dps_send_gw_list lk)),
     (''Register Tunnel'', Some (dps_send_tunnel_reg_dereg lk)),
     (''Deregister Tunnel'', Some (dps_send_tunnel_reg_dereg lk)),
     (''Reg/Dereg Tunnel Ack'', Some (dps_send_general_ack lk)),
     (''External Gw List Req'', Some (dps_send_gen_msg_req lk)),
     (''External Gw List Reply'', Some (dps_send_gw_list lk)),
     (''Vlan Gw List Req'', Some (dps_send_gen_msg_req lk)),
     (''Vlan Gw List Reply'', Some (dps_send_gw_list lk)),
     (''Unsolicited Endpoint Loc Reply'', Some (dps_send_endpoint_loc_reply lk)),
     (''Vnid Policy List Req'', Some (dps_send_gen_msg_req lk)),
     (''Vnid Policy List Reply'', Some (dps_send_bulk_policy_xfer lk)),
     (''Mcast Ctrl Gw Req'', Some (dps_send_gen_msg_req lk)),
     (''Mcast Ctrl Gw Reply'', Some (dps_send_gw_list lk)),
     (''Unsolicited Vnid Del Req'', Some (dps_send_gen_msg_req lk)),
     (''Control Plane heart beat'', Some (dps_send_gen_msg_req lk)),
     (''New DCS Node Req'', Some (dps_noop_func lk)),
     (''Unsolicited VM Location Info'', Some (dps_send_vm_loc_info lk))]"

definition dps_msg_name :: "'w dps_link \<Rightarrow> u8 \<Rightarrow> string option" where
  "dps_msg_name lk pkt_type = (if unat pkt_type < length (dps_send_func_tbl lk)
     then Some (fst (dps_send_func_tbl lk ! unat pkt_type)) else None)"

definition valid_type :: "u8 \<Rightarrow> bool" where
  "valid_type t \<longleftrightarrow> \<not> (t < DPS_ENDPOINT_LOC_REQ \<or> t \<ge> DPS_MAX_MSG_TYPE)"

definition dps_protocol_client_send ::
    "'w dps_link \<Rightarrow> dps_client_data_t \<Rightarrow> 'w dps_state \<Rightarrow> (u32 \<times> dps_client_hdr_t \<times> 'w dps_state) option" where
  "dps_protocol_client_send lk msg st = (case st of (tbl, w) \<Rightarrow>
     if lk_server lk \<and> \<not> lk_active lk w then Some (DPS_SUCCESS, cd_hdr msg, (tbl, w))
     else if \<not> valid_type (ch_type (cd_hdr msg)) then do {
       tbl \<leftarrow> bump 0 (\<lambda>s. s\<lparr>ps_transmit_error := ps_transmit_error s + 1\<rparr>) tbl;
       Some (DPS_ERROR, cd_hdr msg, (tbl, w)) }
     else do {
       fn \<leftarrow> snd (dps_send_func_tbl lk ! unat (ch_type (cd_hdr msg)));
       (ret, hdr, w) \<leftarrow> fn msg w;
       tbl \<leftarrow> bump (unat (ch_type (cd_hdr msg))) (count_sent ret) tbl;
       Some (ret, hdr, (tbl, w)) })"

section \<open>The general acknowledgement\<close>

definition registration_types :: "u8 list" where
  "registration_types = [DPS_TUNNEL_REGISTER, DPS_TUNNEL_DEREGISTER, DPS_MCAST_SENDER_REGISTRATION,
     DPS_MCAST_SENDER_DEREGISTRATION, DPS_MCAST_RECEIVER_JOIN, DPS_MCAST_RECEIVER_LEAVE]"

definition ack_hdr :: "dps_client_hdr_t \<Rightarrow> dps_client_hdr_t" where
  "ack_hdr hdr = hdr\<lparr>ch_sub_type := ch_type hdr,
     ch_type := (if ch_type hdr \<in> set registration_types then DPS_REG_DEREGISTER_ACK else DPS_GENERAL_ACK),
     ch_resp_status := DPS_NO_ERR\<rparr>"

text \<open>
  Only the header of the local \<open>client_data\<close> is set; sending an
  acknowledgement uses nothing else.  The result of the send is ignored.
\<close>

definition dps_client_create_general_ack :: "'w dps_link \<Rightarrow> dps_client_hdr_t \<Rightarrow> 'w dps_state \<Rightarrow> 'w dps_state option" where
  "dps_client_create_general_ack lk hdr st =
     (if ch_query_id hdr \<noteq> 0 then do {
        (_, _, st) \<leftarrow> dps_protocol_client_send lk \<lparr>cd_context = 0, cd_hdr = ack_hdr hdr, cd_body = No_body\<rparr> st;
        Some st }
      else Some st)"

end
