(* ===== verification/Dps_Process.thy ===== *)
theory Dps_Process
  imports Dps_Dispatch
begin

text \<open>
  The \<open>dps_process_*\<close> routines: each parses a received packet into a
  client buffer, stops the retransmission the packet answers, hands the
  result to the layer above and acknowledges unsolicited messages.  The
  received packet is the buffer it was read into; the sender's address comes
  with it.  An invalid TLV makes a routine drop the message and return
  success.
\<close>

type_synonym 'w receiver = "bytes \<Rightarrow> ip_addr_t \<Rightarrow> 'w dps_state \<Rightarrow> (u32 \<times> 'w dps_state) option"

section \<open>Common parts\<close>

definition with_client_buff :: "'w dps_link \<Rightarrow> (bytes \<Rightarrow> 'w dps_state \<Rightarrow> (u32 \<times> 'w dps_state) option) \<Rightarrow>
    'w dps_state \<Rightarrow> (u32 \<times> 'w dps_state) option" where
  "with_client_buff lk f st = (case st of (tbl, w) \<Rightarrow> (case dps_alloc_buff lk w of
     (None, w) \<Rightarrow> Some (DPS_ERROR, (tbl, w))
   | (Some mem, w) \<Rightarrow> do {
       (ret, (tbl, w)) \<leftarrow> f mem (tbl, w);
       Some (ret, (tbl, lk_free lk w)) }))"

definition dps_send_to_protocol_client :: "'w dps_link \<Rightarrow> dps_client_data_t \<Rightarrow> 'w dps_state \<Rightarrow> 'w dps_state" where
  "dps_send_to_protocol_client lk msg st = (case st of (tbl, w) \<Rightarrow> (tbl, lk_deliver lk msg w))"

definition stop_timer :: "'w dps_link \<Rightarrow> u32 \<Rightarrow> 'w dps_state \<Rightarrow> (u32 \<times> nat) \<times> 'w dps_state" where
  "stop_timer lk qid st = (case st of (tbl, w) \<Rightarrow>
     (case dps_stop_retransmit_timer lk qid w of (r, w) \<Rightarrow> (r, (tbl, w))))"

text \<open>Scanning the TLVs after the packet header, up to the length the header states.\<close>

definition scan_pkt :: "(dps_tlv_hdr_t \<Rightarrow> bytes \<Rightarrow> 'st \<Rightarrow> 'st branch option) \<Rightarrow> bytes \<Rightarrow> u32 \<Rightarrow> 'st \<Rightarrow> ('st \<times> bool) option" where
  "scan_pkt sw recv_buff pkt_len st =
     map_option fst (tlv_scan (DPS_PKT_HDR_LEN + unat pkt_len) sw recv_buff st DPS_PKT_HDR_LEN)"

section \<open>Endpoints\<close>

definition loc_req_switch :: "dps_tlv_hdr_t \<Rightarrow> bytes \<Rightarrow> dps_endpoint_loc_req_t \<Rightarrow> dps_endpoint_loc_req_t branch option" where
  "loc_req_switch h b r =
     (if tlv_type h = VMAC_TLV then took (\<lambda>m. r\<lparr>lq_mac := m\<rparr>) (dps_get_vmac_tlv b)
      else if tlv_type h = IP_ADDR_TLV then took (\<lambda>ip. r\<lparr>lq_vm_ip_addr := ip\<rparr>) (dps_get_ip_tlv b (lq_vm_ip_addr r))
      else if tlv_type h = EUID_TLV then took (\<lambda>(vnid, mac). r\<lparr>lq_vnid := vnid, lq_mac := mac\<rparr>) (dps_get_euid_tlv b)
      else if tlv_type h = REPLY_SERVICE_LOC_TLV \<or> tlv_type h = SERVICE_LOC_TLV then
        took (\<lambda>a. r\<lparr>lq_dps_client_addr := a\<rparr>) (dps_get_svcloc_tlv b (lq_dps_client_addr r))
      else Some Goto_error)"

definition dps_process_endpoint_loc_req :: "'w dps_link \<Rightarrow> 'w receiver" where
  "dps_process_endpoint_loc_req lk recv_buff addr = with_client_buff lk (\<lambda>mem st. do {
     (hdr, pkt_len) \<leftarrow> dps_get_pkt_hdr recv_buff zero_hdr;
     (req, err) \<leftarrow> scan_pkt loc_req_switch recv_buff pkt_len (zero_loc_req\<lparr>lq_dps_client_addr := addr\<rparr>);
     Some (DPS_SUCCESS, if err then st else dps_send_to_protocol_client lk
       \<lparr>cd_context = 0, cd_hdr = hdr\<lparr>ch_reply_addr := addr\<rparr>, cd_body = Endpoint_loc_req req\<rparr> st) })"

text \<open>The type of an unsolicited reply is rewritten before the message is delivered and acknowledged.\<close>

definition dps_process_endpoint_loc_reply :: "'w dps_link \<Rightarrow> 'w receiver" where
  "dps_process_endpoint_loc_reply lk recv_buff addr st = do {
     (hdr, pkt_len) \<leftarrow> dps_get_pkt_hdr recv_buff zero_hdr;
     with_client_buff lk (\<lambda>mem st. do {
       ((ret, context), st) \<leftarrow> Some (if ch_type hdr = DPS_ENDPOINT_LOC_REPLY then stop_timer lk (ch_query_id hdr) st
          else ((DPS_SUCCESS, 0), st));
       (reply, _) \<leftarrow> while_opt (\<lambda>(d, pos). pos < DPS_PKT_HDR_LEN + unat pkt_len)
          (\<lambda>(d, pos). from_off pos (\<lambda>b. dps_get_endpoint_loc_reply_tlv (tunnel_space mem 92) b d) recv_buff)
          (zero_loc_reply, DPS_PKT_HDR_LEN);
       (let h = hdr\<lparr>ch_reply_addr := addr,
                ch_type := (if ch_type hdr = DPS_UNSOLICITED_ENDPOINT_LOC_REPLY then DPS_ENDPOINT_LOC_REPLY else ch_type hdr)\<rparr>;
            st = dps_send_to_protocol_client lk \<lparr>cd_context = context, cd_hdr = h, cd_body = Endpoint_loc_reply reply\<rparr> st
        in do {
          st \<leftarrow> (if ch_type hdr = DPS_UNSOLICITED_ENDPOINT_LOC_REPLY then dps_client_create_general_ack lk h st else Some st);
          Some (ret, st) }) }) st }"

definition update_pkt_switch :: "tunnel_room \<Rightarrow> dps_tlv_hdr_t \<Rightarrow> bytes \<Rightarrow> dps_endpoint_update_t \<Rightarrow> dps_endpoint_update_t branch option" where
  "update_pkt_switch room h b d =
     (if tlv_type h = ENDPOINT_LOC_TLV then took (\<lambda>d. d) (dps_get_endpoint_update_tlv room b d)
      else if tlv_type h = SERVICE_LOC_TLV \<or> tlv_type h = REPLY_SERVICE_LOC_TLV then
        took (\<lambda>a. d\<lparr>eu_dps_client_addr := a\<rparr>) (dps_get_svcloc_tlv b (eu_dps_client_addr d))
      else Some Goto_error)"

definition dps_process_endpoint_update :: "'w dps_link \<Rightarrow> 'w receiver" where
  "dps_process_endpoint_update lk recv_buff addr st = do {
     (hdr, pkt_len) \<leftarrow> dps_get_pkt_hdr recv_buff zero_hdr;
     with_client_buff lk (\<lambda>mem st. do {
       (d, err) \<leftarrow> scan_pkt (update_pkt_switch (tunnel_space mem 116)) recv_buff pkt_len (zero_update\<lparr>eu_dps_client_addr := addr\<rparr>);
       Some (DPS_SUCCESS, if err then st else dps_send_to_protocol_client lk
         \<lparr>cd_context = 0, cd_hdr = hdr\<lparr>ch_reply_addr := addr\<rparr>, cd_body = Endpoint_update d\<rparr> st) }) st }"

definition update_reply_pkt_switch :: "tunnel_room \<Rightarrow> dps_tlv_hdr_t \<Rightarrow> bytes \<Rightarrow> dps_endpoint_update_reply_t \<Rightarrow>
    dps_endpoint_update_reply_t branch option" where
  "update_reply_pkt_switch room h b d =
     (if tlv_type h = ENDPOINT_UPDATE_REPLY_TLV then took (\<lambda>d. d) (dps_get_endpoint_update_reply_tlv room b d)
      else Some Goto_error)"

definition dps_process_endpoint_update_reply :: "'w dps_link \<Rightarrow> 'w receiver" where
  "dps_process_endpoint_update_reply lk recv_buff addr st = do {
     (hdr, pkt_len) \<leftarrow> dps_get_pkt_hdr recv_buff zero_hdr;
     with_client_buff lk (\<lambda>mem st. do {
       ((ret, context), st) \<leftarrow> Some (stop_timer lk (ch_query_id hdr) st);
       (d, err) \<leftarrow> scan_pkt (update_reply_pkt_switch (tunnel_space mem 456)) recv_buff pkt_len zero_update_reply;
       Some (ret, if err then st else dps_send_to_protocol_client lk
         \<lparr>cd_context = context, cd_hdr = hdr\<lparr>ch_reply_addr := addr\<rparr>, cd_body = Endpoint_update_reply d\<rparr> st) }) st }"

section \<open>Policies\<close>

text \<open>
  The state of a policy request also counts the endpoints seen: the first
  goes to \<open>dst_endpoint\<close>, the second to \<open>src_endpoint\<close>, a third
  would be written past them.  There is no default branch.
\<close>

definition policy_req_switch :: "dps_tlv_hdr_t \<Rightarrow> bytes \<Rightarrow> dps_policy_req_t \<times> nat \<Rightarrow> (dps_policy_req_t \<times> nat) branch option" where
  "policy_req_switch h b s = (case s of (r, k) \<Rightarrow>
     if tlv_type h = ENDPOINT_INFO_TLV then
       (if k = 0 then took (\<lambda>e. (r\<lparr>pq_dst_endpoint := e\<rparr>, 1)) (dps_get_endpoint_info_tlv b (pq_dst_endpoint r))
        else if k = 1 then took (\<lambda>e. (r\<lparr>pq_src_endpoint := e\<rparr>, 2)) (dps_get_endpoint_info_tlv b (pq_src_endpoint r))
        else None)
     else if tlv_type h = SERVICE_LOC_TLV \<or> tlv_type h = REPLY_SERVICE_LOC_TLV then
       took (\<lambda>a. (r\<lparr>pq_dps_client_addr := a\<rparr>, k)) (dps_get_svcloc_tlv b (pq_dps_client_addr r))
     else Some (Take (r, k) 0))"

definition zero_policy_req :: dps_policy_req_t where
  "zero_policy_req = \<lparr>pq_dst_endpoint = zero_endpoint_info, pq_src_endpoint = zero_endpoint_info, pq_dps_client_addr = zero_ip_addr\<rparr>"

definition dps_process_policy_req :: "'w dps_link \<Rightarrow> 'w receiver" where
  "dps_process_policy_req lk recv_buff addr = with_client_buff lk (\<lambda>mem st. do {
     (hdr, pkt_len) \<leftarrow> dps_get_pkt_hdr recv_buff zero_hdr;
     ((req, _), _) \<leftarrow> scan_pkt policy_req_switch recv_buff pkt_len (zero_policy_req\<lparr>pq_dps_client_addr := addr\<rparr>, 0);
     Some (DPS_SUCCESS, dps_send_to_protocol_client lk
       \<lparr>cd_context = 0, cd_hdr = hdr\<lparr>ch_reply_addr := addr\<rparr>, cd_body = Policy_req req\<rparr> st) })"

text \<open>
  In a policy reply the rules are followed by another member of the
  structure, so there is room for the one rule of \<open>src_dst_vnid[1]\<close>.
\<close>

definition policy_reply_switch :: "tunnel_room \<Rightarrow> dps_tlv_hdr_t \<Rightarrow> bytes \<Rightarrow> dps_policy_reply_t \<Rightarrow> dps_policy_reply_t branch option" where
  "policy_reply_switch room h b r =
     (if tlv_type h = ENDPOINT_LOC_TLV then
        took (\<lambda>e. r\<lparr>pr_dst_endpoint_loc_reply := e\<rparr>) (dps_get_endpoint_loc_reply_tlv room b (pr_dst_endpoint_loc_reply r))
      else if tlv_type h = POLICY_TLV then
        took (\<lambda>i. r\<lparr>pr_dps_policy_info := i\<rparr>) (dps_get_policy_tlv 1 b (pr_dps_policy_info r))
      else Some Goto_error)"

definition zero_policy_reply :: dps_policy_reply_t where
  "zero_policy_reply = \<lparr>pr_dps_policy_info = zero_policy_info, pr_dst_endpoint_loc_reply = zero_loc_reply\<rparr>"

definition dps_process_policy_reply :: "'w dps_link \<Rightarrow> 'w receiver" where
  "dps_process_policy_reply lk recv_buff addr st = do {
     (hdr, pkt_len) \<leftarrow> dps_get_pkt_hdr recv_buff zero_hdr;
     with_client_buff lk (\<lambda>mem st. do {
       ((_, context), st) \<leftarrow> Some (stop_timer lk (ch_query_id hdr) st);
       (d, err) \<leftarrow> scan_pkt (policy_reply_switch (tunnel_space mem 120)) recv_buff pkt_len zero_policy_reply;
       Some (DPS_SUCCESS, if err then st else dps_send_to_protocol_client lk
         \<lparr>cd_context = context, cd_hdr = hdr\<lparr>ch_reply_addr := addr\<rparr>, cd_body = Policy_reply d\<rparr> st) }) st }"

definition dps_process_policy_invalidate :: "'w dps_link \<Rightarrow> 'w receiver" where
  "dps_process_policy_invalidate lk recv_buff addr st = Some (DPS_SUCCESS, st)"

definition dps_process_bulk_policy_xfer :: "'w dps_link \<Rightarrow> 'w receiver" where
  "dps_process_bulk_policy_xfer lk recv_buff addr st = do {
     (hdr, pkt_len) \<leftarrow> dps_get_pkt_hdr recv_buff zero_hdr;
     with_client_buff lk (\<lambda>mem st. do {
       ((_, context), st) \<leftarrow> Some (if ch_type hdr = DPS_VNID_POLICY_LIST_REPLY then stop_timer lk (ch_query_id hdr) st
          else ((DPS_SUCCESS, 0), st));
       (d, _) \<leftarrow> from_off DPS_PKT_HDR_LEN (\<lambda>b. dps_get_bulk_policy_xfer (rules_space mem 52) b
          \<lparr>bp_num_permit_rules = 0, bp_num_deny_rules = 0, bp_src_dst_vnid = []\<rparr>) recv_buff;
       (let h = hdr\<lparr>ch_reply_addr := addr\<rparr>;
            st = dps_send_to_protocol_client lk \<lparr>cd_context = context, cd_hdr = h, cd_body = Bulk_vnid_policy d\<rparr> st
        in do {
          st \<leftarrow> (if ch_type hdr = DPS_UNSOLICITED_VNID_POLICY_LIST then dps_client_create_general_ack lk h st else Some st);
          Some (DPS_SUCCESS, st) }) }) st }"

section \<open>Address lists and gateways\<close>

text \<open>The state of the two packed-list routines carries the offset of the local list pointer.\<close>

definition gw_switch :: "nat \<Rightarrow> dps_tlv_hdr_t \<Rightarrow> bytes \<Rightarrow> dps_internal_gw_t \<times> nat \<Rightarrow> (dps_internal_gw_t \<times> nat) branch option" where
  "gw_switch cap h b s = (case s of (d, off) \<Rightarrow>
     if tlv_type h = IPV4_ADDR_LIST_TLV then
       took (\<lambda>m. (d\<lparr>gw_gw_list := m, gw_num_v4_gw := tlv_len h div 4\<rparr>, off + 4 * unat (tlv_len h div 4)))
         (dps_get_ipv4_list_tlv cap off b (gw_gw_list d))
     else if tlv_type h = IPV6_ADDR_LIST_TLV then
       took (\<lambda>m. (d\<lparr>gw_gw_list := m, gw_num_v6_gw := tlv_len h div 16\<rparr>, off)) (dps_get_ipv6_list_tlv cap off b (gw_gw_list d))
     else Some Goto_error)"

definition dps_process_internal_gw_reply :: "'w dps_link \<Rightarrow> 'w receiver" where
  "dps_process_internal_gw_reply lk recv_buff addr st = do {
     (hdr, pkt_len) \<leftarrow> dps_get_pkt_hdr recv_buff zero_hdr;
     with_client_buff lk (\<lambda>mem st. do {
       ((_, context), st) \<leftarrow> Some (if ch_type hdr = DPS_INTERNAL_GW_REPLY then stop_timer lk (ch_query_id hdr) st
          else ((DPS_SUCCESS, 0), st));
       ((d, _), err) \<leftarrow> scan_pkt (gw_switch (DPS_MAX_BUFF_SZ - 52)) recv_buff pkt_len
          (\<lparr>gw_num_v4_gw = 0, gw_num_v6_gw = 0, gw_gw_list = []\<rparr>, 0);
       (if err then Some (DPS_SUCCESS, st) else
        let h = hdr\<lparr>ch_reply_addr := addr\<rparr>;
            st = dps_send_to_protocol_client lk \<lparr>cd_context = context, cd_hdr = h, cd_body = Internal_gw_list d\<rparr> st
        in do {
          st \<leftarrow> (if ch_type hdr = DPS_UNSOLICITED_INTERNAL_GW_REPLY then dps_client_create_general_ack lk h st else Some st);
          Some (DPS_SUCCESS, st) }) }) st }"

definition bcast_switch :: "nat \<Rightarrow> dps_tlv_hdr_t \<Rightarrow> bytes \<Rightarrow> dps_pkd_tunnel_list_t \<times> nat \<Rightarrow>
    (dps_pkd_tunnel_list_t \<times> nat) branch option" where
  "bcast_switch cap h b s = (case s of (d, off) \<Rightarrow>
     if tlv_type h = IPV4_ADDR_LIST_TLV then
       took (\<lambda>m. (d\<lparr>pk_tunnel_list := m, pk_num_v4_tunnels := tlv_len h div 4\<rparr>, off + 4 * unat (tlv_len h div 4)))
         (dps_get_ipv4_list_tlv cap off b (pk_tunnel_list d))
     else if tlv_type h = IPV6_ADDR_LIST_TLV then
       took (\<lambda>m. (d\<lparr>pk_tunnel_list := m, pk_num_v6_tunnels := tlv_len h div 16\<rparr>, off))
         (dps_get_ipv6_list_tlv cap off b (pk_tunnel_list d))
     else Some Goto_error)"

definition dps_process_bcast_list_reply :: "'w dps_link \<Rightarrow> 'w receiver" where
  "dps_process_bcast_list_reply lk recv_buff addr st = do {
     (hdr, pkt_len) \<leftarrow> dps_get_pkt_hdr recv_buff zero_hdr;
     with_client_buff lk (\<lambda>mem st. do {
       ((_, context), st) \<leftarrow> Some (if ch_type hdr = DPS_BCAST_LIST_REPLY then stop_timer lk (ch_query_id hdr) st
          else ((DPS_SUCCESS, 0), st));
       ((d, _), err) \<leftarrow> scan_pkt (bcast_switch (DPS_MAX_BUFF_SZ - 56)) recv_buff pkt_len
          (\<lparr>pk_vnid = 0, pk_num_v4_tunnels = 0, pk_num_v6_tunnels = 0, pk_tunnel_list = []\<rparr>, 0);
       (if err then Some (DPS_SUCCESS, st) else
        let h = hdr\<lparr>ch_reply_addr := addr\<rparr>;
            st = dps_send_to_protocol_client lk \<lparr>cd_context = context, cd_hdr = h, cd_body = Dove_switch_list d\<rparr> st
        in do {
          st \<leftarrow> (if ch_type hdr = DPS_UNSOLICITED_BCAST_LIST_REPLY then dps_client_create_general_ack lk h st else Some st);
          Some (DPS_SUCCESS, st) }) }) st }"

definition gen_msg_switch :: "dps_tlv_hdr_t \<Rightarrow> bytes \<Rightarrow> ip_addr_t \<Rightarrow> ip_addr_t branch option" where
  "gen_msg_switch h b a =
     (if tlv_type h = SERVICE_LOC_TLV \<or> tlv_type h = REPLY_SERVICE_LOC_TLV then took (\<lambda>a. a) (dps_get_svcloc_tlv b a)
      else Some Goto_error)"

definition dps_process_gen_msg_req :: "'w dps_link \<Rightarrow> 'w receiver" where
  "dps_process_gen_msg_req lk recv_buff addr = with_client_buff lk (\<lambda>mem st. do {
     (hdr, pkt_len) \<leftarrow> dps_get_pkt_hdr recv_buff zero_hdr;
     (a, err) \<leftarrow> scan_pkt gen_msg_switch recv_buff pkt_len addr;
     (if err then Some (DPS_SUCCESS, st)
      else if ch_type hdr = DPS_CTRL_PLANE_HB then do {
        st \<leftarrow> dps_client_create_general_ack lk (hdr\<lparr>ch_reply_addr := addr\<rparr>) st;
        Some (DPS_SUCCESS, st) }
      else Some (DPS_SUCCESS, dps_send_to_protocol_client lk
        \<lparr>cd_context = 0, cd_hdr = hdr\<lparr>ch_reply_addr := addr\<rparr>, cd_body = Gen_msg_req a\<rparr> st)) })"

definition gw_list_switch :: "tunnel_room \<Rightarrow> dps_tlv_hdr_t \<Rightarrow> bytes \<Rightarrow> dps_tunnel_list_t \<Rightarrow> dps_tunnel_list_t branch option" where
  "gw_list_switch room h b d =
     (if tlv_type h = TUNNEL_LIST_TLV then took (\<lambda>d. d) (dps_get_tunnel_list_tlv room b d) else Some Goto_error)"

definition dps_process_gw_list :: "'w dps_link \<Rightarrow> 'w receiver" where
  "dps_process_gw_list lk recv_buff addr st = do {
     (hdr, pkt_len) \<leftarrow> dps_get_pkt_hdr recv_buff zero_hdr;
     with_client_buff lk (\<lambda>mem st. do {
       ((_, context), st) \<leftarrow> Some (if ch_type hdr = DPS_EXTERNAL_GW_LIST_REPLY \<or> ch_type hdr = DPS_VLAN_GW_LIST_REPLY \<or>
          ch_type hdr = DPS_MCAST_CTRL_GW_REPLY then stop_timer lk (ch_query_id hdr) st else ((DPS_SUCCESS, 0), st));
       (d, err) \<leftarrow> scan_pkt (gw_list_switch (tunnel_space mem 52)) recv_buff pkt_len zero_tunnel_list;
       (if err then Some (DPS_SUCCESS, st) else
        let h = hdr\<lparr>ch_reply_addr := addr\<rparr>;
            st = dps_send_to_protocol_client lk \<lparr>cd_context = context, cd_hdr = h, cd_body = Tunnel_info d\<rparr> st
        in do {
          st \<leftarrow> (if ch_type hdr = DPS_UNSOLICITED_EXTERNAL_GW_LIST \<or> ch_type hdr = DPS_UNSOLICITED_VLAN_GW_LIST
                then dps_client_create_general_ack lk h st else Some st);
          Some (DPS_SUCCESS, st) }) }) st }"

definition tunnel_reg_switch :: "tunnel_room \<Rightarrow> dps_tlv_hdr_t \<Rightarrow> bytes \<Rightarrow> dps_tunnel_reg_dereg_t \<Rightarrow> dps_tunnel_reg_dereg_t branch option" where
  "tunnel_reg_switch room h b d =
     (if tlv_type h = TUNNEL_LIST_TLV then
        took (\<lambda>l. d\<lparr>td_tunnel_info := l\<rparr>) (dps_get_tunnel_list_tlv room b (td_tunnel_info d))
      else if tlv_type h = SERVICE_LOC_TLV \<or> tlv_type h = REPLY_SERVICE_LOC_TLV then
        took (\<lambda>a. d\<lparr>td_dps_client_addr := a\<rparr>) (dps_get_svcloc_tlv b (td_dps_client_addr d))
      else Some Goto_error)"

definition dps_process_tunnel_reg_dereg :: "'w dps_link \<Rightarrow> 'w receiver" where
  "dps_process_tunnel_reg_dereg lk recv_buff addr st = do {
     (hdr, pkt_len) \<leftarrow> dps_get_pkt_hdr recv_buff zero_hdr;
     with_client_buff lk (\<lambda>mem st. do {
       (d, err) \<leftarrow> scan_pkt (tunnel_reg_switch (tunnel_space mem 76)) recv_buff pkt_len
          \<lparr>td_dps_client_addr = addr, td_tunnel_info = zero_tunnel_list\<rparr>;
       Some (DPS_SUCCESS, if err then st else dps_send_to_protocol_client lk
         \<lparr>cd_context = 0, cd_hdr = hdr\<lparr>ch_reply_addr := addr\<rparr>, cd_body = Tunnel_reg_dereg d\<rparr> st) }) st }"

definition vm_migration_switch :: "tunnel_room \<Rightarrow> dps_tlv_hdr_t \<Rightarrow> bytes \<Rightarrow> dps_vm_migration_event_t \<Rightarrow>
    dps_vm_migration_event_t branch option" where
  "vm_migration_switch room h b d =
     (if tlv_type h = ENDPOINT_LOC_TLV then
        took (\<lambda>e. d\<lparr>vm_src_vm_loc := e\<rparr>) (dps_get_endpoint_loc_reply_tlv room b (vm_src_vm_loc d))
      else if tlv_type h = ENDPOINT_INFO_TLV then
        took (\<lambda>e. d\<lparr>vm_migrated_vm_info := e\<rparr>) (dps_get_endpoint_info_tlv b (vm_migrated_vm_info d))
      else Some Goto_error)"

definition dps_process_vm_migration_event :: "'w dps_link \<Rightarrow> 'w receiver" where
  "dps_process_vm_migration_event lk recv_buff addr = with_client_buff lk (\<lambda>mem st. do {
     (hdr, pkt_len) \<leftarrow> dps_get_pkt_hdr recv_buff zero_hdr;
     (d, err) \<leftarrow> scan_pkt (vm_migration_switch (tunnel_space mem 128)) recv_buff pkt_len
        \<lparr>vm_migrated_vm_info = zero_endpoint_info, vm_src_vm_loc = zero_loc_reply\<rparr>;
     Some (DPS_SUCCESS, if err then st else dps_send_to_protocol_client lk
       \<lparr>cd_context = 0, cd_hdr = hdr\<lparr>ch_reply_addr := addr\<rparr>, cd_body = Vm_migration_event d\<rparr> st) })"

section \<open>Multicast\<close>

definition mcast_sender_switch :: "dps_tlv_hdr_t \<Rightarrow> bytes \<Rightarrow> dps_mcast_sender_t \<Rightarrow> dps_mcast_sender_t branch option" where
  "mcast_sender_switch h b d =
     (if tlv_type h = IP_ADDR_TLV then took (\<lambda>a. d\<lparr>ms_tunnel_endpoint := a\<rparr>) (dps_get_ip_tlv b (ms_tunnel_endpoint d))
      else if tlv_type h = ENDPOINT_INFO_TLV then
        took (\<lambda>e. d\<lparr>ms_mcast_src_vm := e\<rparr>) (dps_get_endpoint_info_tlv b (ms_mcast_src_vm d))
      else if tlv_type h \<in> {MCAST_ADDR_MAC_TLV, MCAST_ADDR_V4_TLV, MCAST_ADDR_V6_TLV} then
        took (\<lambda>a. d\<lparr>ms_mcast_addr := a\<rparr>) (dps_get_mcast_addr_tlv b (ms_mcast_addr d))
      else if tlv_type h = SERVICE_LOC_TLV \<or> tlv_type h = REPLY_SERVICE_LOC_TLV then
        took (\<lambda>a. d\<lparr>ms_dps_client_addr := a\<rparr>) (dps_get_svcloc_tlv b (ms_dps_client_addr d))
      else Some Goto_error)"

definition dps_process_mcast_sender_reg_dereg :: "'w dps_link \<Rightarrow> 'w receiver" where
  "dps_process_mcast_sender_reg_dereg lk recv_buff addr = with_client_buff lk (\<lambda>mem st. do {
     (hdr, pkt_len) \<leftarrow> dps_get_pkt_hdr recv_buff zero_hdr;
     (d, err) \<leftarrow> scan_pkt mcast_sender_switch recv_buff pkt_len \<lparr>ms_tunnel_endpoint = zero_ip_addr,
        ms_mcast_src_vm = zero_endpoint_info, ms_mcast_addr = zero_mcast_addr, ms_dps_client_addr = addr\<rparr>;
     Some (DPS_SUCCESS, if err then st else dps_send_to_protocol_client lk
       \<lparr>cd_context = 0, cd_hdr = hdr\<lparr>ch_reply_addr := addr\<rparr>, cd_body = Mcast_sender d\<rparr> st) })"

definition mcast_receiver_switch :: "nat \<Rightarrow> dps_tlv_hdr_t \<Rightarrow> bytes \<Rightarrow> dps_mcast_receiver_t \<Rightarrow> dps_mcast_receiver_t branch option" where
  "mcast_receiver_switch cap h b d =
     (if tlv_type h = IP_ADDR_TLV then took (\<lambda>a. d\<lparr>mr_tunnel_endpoint := a\<rparr>) (dps_get_ip_tlv b (mr_tunnel_endpoint d))
      else if tlv_type h = MCAST_GRP_REC_TLV then
        took (\<lambda>g. d\<lparr>mr_mcast_group_rec := g\<rparr>) (dps_get_mcast_grp_rec_tlv cap b (mr_mcast_group_rec d))
      else if tlv_type h = SERVICE_LOC_TLV \<or> tlv_type h = REPLY_SERVICE_LOC_TLV then
        took (\<lambda>a. d\<lparr>mr_dps_client_addr := a\<rparr>) (dps_get_svcloc_tlv b (mr_dps_client_addr d))
      else Some Goto_error)"

definition dps_process_mcast_receiver_join_leave :: "'w dps_link \<Rightarrow> 'w receiver" where
  "dps_process_mcast_receiver_join_leave lk recv_buff addr st = do {
     (hdr, pkt_len) \<leftarrow> dps_get_pkt_hdr recv_buff zero_hdr;
     with_client_buff lk (\<lambda>mem st. do {
       (d, err) \<leftarrow> scan_pkt (mcast_receiver_switch (DPS_MAX_BUFF_SZ - 124)) recv_buff pkt_len
          \<lparr>mr_tunnel_endpoint = zero_ip_addr, mr_dps_client_addr = addr, mr_mcast_group_rec =
             \<lparr>mg_mcast_addr = zero_mcast_addr, mg_num_of_srcs = 0, mg_family = 0, mg_src_addr = []\<rparr>\<rparr>;
       Some (DPS_SUCCESS, if err then st else dps_send_to_protocol_client lk
         \<lparr>cd_context = 0, cd_hdr = hdr\<lparr>ch_reply_addr := addr\<rparr>, cd_body = Mcast_receiver d\<rparr> st) }) st }"

text \<open>
  The records of a receiver list lie one after the other in the client
  buffer, each as long as its own counts say.  The state is the group
  address, the number of records, the offset of the next record and the
  buffer itself; the counts a record does not receive are whatever the buffer
  holds there.
\<close>

definition pkd_at :: "bytes \<Rightarrow> nat \<Rightarrow> dps_pkd_tunnel_list_t" where
  "pkd_at mem p = \<lparr>pk_vnid = of_bytes32 (take 4 (drop p mem)), pk_num_v4_tunnels = of_bytes16 (take 2 (drop (p + 4) mem)),
     pk_num_v6_tunnels = of_bytes16 (take 2 (drop (p + 6) mem)), pk_tunnel_list = drop (p + 8) mem\<rparr>"

definition pkd_bytes :: "dps_pkd_tunnel_list_t \<Rightarrow> bytes" where
  "pkd_bytes d = bytes32 (pk_vnid d) @ bytes16 (pk_num_v4_tunnels d) @ bytes16 (pk_num_v6_tunnels d) @ pk_tunnel_list d"

definition pkd_size :: "dps_pkd_tunnel_list_t \<Rightarrow> nat" where
  "pkd_size d = 8 + 4 * (unat (pk_num_v4_tunnels d) + 4 * unat (pk_num_v6_tunnels d))"

fun pkds_at :: "bytes \<Rightarrow> nat \<Rightarrow> nat \<Rightarrow> dps_pkd_tunnel_list_t list" where
  "pkds_at mem p 0 = []"
| "pkds_at mem p (Suc n) = (let d = pkd_at mem p in
     d\<lparr>pk_tunnel_list := take (pkd_size d - 8) (pk_tunnel_list d)\<rparr> # pkds_at mem (p + pkd_size d) n)"

type_synonym ds_list_state = "dps_mcast_addr_t \<times> u32 \<times> nat \<times> bytes"

definition ds_list_switch :: "dps_tlv_hdr_t \<Rightarrow> bytes \<Rightarrow> ds_list_state \<Rightarrow> ds_list_state branch option" where
  "ds_list_switch h b s = (case s of (a, num, p, mem) \<Rightarrow>
     if tlv_type h \<in> {MCAST_ADDR_MAC_TLV, MCAST_ADDR_V4_TLV, MCAST_ADDR_V6_TLV} then
       took (\<lambda>a. (a, num, p, mem)) (dps_get_mcast_addr_tlv b a)
     else if tlv_type h = VNID_TUNNEL_LIST_TLV then
       (if p + 8 \<le> length mem then
          took (\<lambda>d. (a, num + 1, p + pkd_size d, take p mem @ pkd_bytes d))
            (dps_get_vnid_tunnel_list_tlv (length mem - (p + 8)) b (pkd_at mem p))
        else None)
     else Some Goto_error)"

text \<open>The sender's address is stored in the header and then lost when the header is copied over it.\<close>

definition dps_process_mcast_receiver_ds_list :: "'w dps_link \<Rightarrow> 'w receiver" where
  "dps_process_mcast_receiver_ds_list lk recv_buff addr st = do {
     (hdr, pkt_len) \<leftarrow> dps_get_pkt_hdr recv_buff (zero_hdr\<lparr>ch_reply_addr := lk_uninit lk (snd st)\<rparr>);
     with_client_buff lk (\<lambda>mem st. do {
       ((a, num, _, mem), err) \<leftarrow> scan_pkt ds_list_switch recv_buff pkt_len (zero_mcast_addr, 0, 76, mem);
       (if err then Some (DPS_SUCCESS, st) else
        let st = dps_send_to_protocol_client lk \<lparr>cd_context = 0, cd_hdr = hdr, cd_body = Mcast_receiver_ds_list
              \<lparr>md_mcast_addr = a, md_num_of_rec = num, md_mcast_recvr_list = pkds_at mem 76 (unat num)\<rparr>\<rparr> st
        in do {
          st \<leftarrow> dps_client_create_general_ack lk hdr st;
          Some (DPS_SUCCESS, st) }) }) st }"

section \<open>Acknowledgements, resolution and invalidation\<close>

definition dps_process_general_ack :: "'w dps_link \<Rightarrow> 'w receiver" where
  "dps_process_general_ack lk recv_buff addr = with_client_buff lk (\<lambda>mem st. do {
     (hdr, _) \<leftarrow> dps_get_pkt_hdr recv_buff zero_hdr;
     ((ret, context), st) \<leftarrow> Some (stop_timer lk (ch_query_id hdr) st);
     Some (ret, dps_send_to_protocol_client lk
       \<lparr>cd_context = context, cd_hdr = hdr\<lparr>ch_reply_addr := addr\<rparr>, cd_body = No_body\<rparr> st) })"

definition dps_process_addr_resolve :: "'w dps_link \<Rightarrow> 'w receiver" where
  "dps_process_addr_resolve lk recv_buff addr = with_client_buff lk (\<lambda>mem st. do {
     (hdr, pkt_len) \<leftarrow> dps_get_pkt_hdr recv_buff zero_hdr;
     (req, err) \<leftarrow> scan_pkt loc_req_switch recv_buff pkt_len (zero_loc_req\<lparr>lq_dps_client_addr := addr\<rparr>);
     (if err then Some (DPS_SUCCESS, st) else
      let h = hdr\<lparr>ch_reply_addr := addr\<rparr>;
          st = dps_send_to_protocol_client lk \<lparr>cd_context = 0, cd_hdr = h, cd_body = Endpoint_loc_req req\<rparr> st
      in do {
        st \<leftarrow> dps_client_create_general_ack lk h st;
        Some (DPS_SUCCESS, st) }) })"

definition dps_process_addr_reply :: "'w dps_link \<Rightarrow> 'w receiver" where
  "dps_process_addr_reply lk recv_buff addr st = Some (DPS_SUCCESS, st)"

definition vm_loc_switch :: "tunnel_room \<Rightarrow> dps_tlv_hdr_t \<Rightarrow> bytes \<Rightarrow> dps_epri_t \<Rightarrow> dps_epri_t branch option" where
  "vm_loc_switch room h b d =
     (if tlv_type h = EPRI_TLV then took (\<lambda>d. d) (dps_get_epri_tlv room b d)
      else Some (Take d (unat (tlv_len h) + DPS_TLV_HDR_LEN)))"

definition dps_process_vm_loc_info :: "'w dps_link \<Rightarrow> 'w receiver" where
  "dps_process_vm_loc_info lk recv_buff addr st = do {
     (hdr, pkt_len) \<leftarrow> dps_get_pkt_hdr recv_buff zero_hdr;
     with_client_buff lk (\<lambda>mem st. do {
       (d, _) \<leftarrow> scan_pkt (vm_loc_switch (tunnel_space mem 520)) recv_buff pkt_len zero_epri;
       (let h = hdr\<lparr>ch_reply_addr := addr\<rparr>;
            st = dps_send_to_protocol_client lk \<lparr>cd_context = 0, cd_hdr = h, cd_body = Vm_invalidate_msg d\<rparr> st
        in do {
          st \<leftarrow> dps_client_create_general_ack lk h st;
          Some (DPS_SUCCESS, st) }) }) st }"

definition dps_noop_recv :: "'w dps_link \<Rightarrow> 'w receiver" where
  "dps_noop_recv lk recv_buff addr st = Some (DPS_SUCCESS, st)"

end
