(* ===== verification/Dps_Receive.thy ===== *)
theory Dps_Receive
  imports Dps_Process
begin

text \<open>
  The table of receive routines and \<open>dps_process_rcvd_pkt\<close>, through
  which every received packet enters; and the reply a client fabricates for
  itself when the retransmissions of a request are used up.
\<close>

section \<open>Receiving\<close>

definition dps_recv_func_tbl :: "'w dps_link \<Rightarrow> (string \<times> 'w receiver option) list" where
  "dps_recv_func_tbl lk = [
     ('''', None),
     (''Endpoint Loc Req'', Some (dps_process_endpoint_loc_req lk)),
     (''Endpoint Loc Reply'', Some (dps_process_endpoint_loc_reply lk)),
     (''Policy Req'', Some (dps_process_policy_req lk)),
     (''Policy Reply'', Some (dps_process_policy_reply lk)),
     (''Policy Invalidate'', Some (dps_process_policy_invalidate lk)),
     (''Endpoint Update'', Some (dps_process_endpoint_update lk)),
     (''Endpoint Update Reply'', Some (dps_process_endpoint_update_reply lk)),
     (''Addr Resolve'', Some (dps_process_addr_resolve lk)),
     (''Addr Reply'', Some (dps_process_addr_reply lk)),
     (''Internal Gw Req'', Some (dps_process_gen_msg_req lk)),
     (''Internal Gw Reply'', Some (dps_process_internal_gw_reply lk)),
     (''Bulk Policy Xfer'', Some (dps_process_bulk_policy_xfer lk)),
     (''Bcast List Req'', Some (dps_process_gen_msg_req lk)),
     (''Bcast List Reply'', Some (dps_process_bcast_list_reply lk)),
     (''VM Migration Info'', Some (dps_process_vm_migration_event lk)),
     (''Mcast Sender Registration'', Some (dps_process_mcast_sender_reg_dereg lk)),
     (''Mcast Sender De-Registration'', Some (dps_process_mcast_sender_reg_dereg lk)),
     (''Mcast Receiver Join'', Some (dps_process_mcast_receiver_join_leave lk)),
     (''Mcast Receiver Leave'', Some (dps_process_mcast_receiver_join_leave lk)),
     (''Mcast Receiver Dove Switch List'', Some (dps_process_mcast_receiver_ds_list lk)),
     (''Unsolicited Bcast List Reply'', Some (dps_process_bcast_list_reply lk)),
     (''Unsolicited Internal Gw Reply'', Some (dps_process_internal_gw_reply lk)),
     (''General Ack'', Some (dps_process_general_ack lk)),
     (''Unsolicited External Gw List'', Some (dps_process_gw_list lk)),
     (''Unsolicited Vlan Gw List'', Some (dps_process_gw_list lk)),
     (''Register Tunnel'', Some (dps_process_tunnel_reg_dereg lk)),
     (''Deregister Tunnel'', Some (dps_process_tunnel_reg_dereg lk)),
     (''Reg/Dereg Tunnel Ack'', Some (dps_process_general_ack lk)),
     (''External Gw List Req'', Some (dps_process_gen_msg_req lk)),
     (''External Gw List Reply'', Some (dps_process_gw_list lk)),
     (''Vlan Gw List Req'', Some (dps_process_gen_msg_req lk)),
     (''Vlan Gw List Reply'', Some (dps_process_gw_list lk)),
     (''Unsolicited Endpoint Loc Reply'', Some (dps_process_endpoint_loc_reply lk)),
     (''Vnid Policy List Req'', Some (dps_process_gen_msg_req lk)),
     (''Vnid Policy List Reply'', Some (dps_process_bulk_policy_xfer lk)),
     (''Mcast Ctrl Gw Req'', Some (dps_process_gen_msg_req lk)),
     (''Mcast Ctrl Gw Reply'', Some (dps_process_gw_list lk)),
     (''Unsolicited Vnid Del Req'', Some (dps_process_gen_msg_req lk)),
     (''Control Plane Heart Beat'', Some (dps_process_gen_msg_req lk)),
     (''New DCS Node Req'', Some (dps_noop_recv lk)),
     (''Unsolicited VM Location Info'', Some (dps_process_vm_loc_info lk))]"

definition dps_process_rcvd_pkt :: "'w dps_link \<Rightarrow> 'w receiver" where
  "dps_process_rcvd_pkt lk recv_buff addr st = do {
     ty \<leftarrow> ld8 1 recv_buff;
     (if \<not> valid_type ty then (case st of (tbl, w) \<Rightarrow> do {
        tbl \<leftarrow> bump 0 (\<lambda>s. s\<lparr>ps_recv_error := ps_recv_error s + 1\<rparr>) tbl;
        Some (DPS_ERROR, (tbl, w)) })
      else do {
        fn \<leftarrow> snd (dps_recv_func_tbl lk ! unat ty);
        (ret, (tbl, w)) \<leftarrow> fn recv_buff addr st;
        tbl \<leftarrow> bump (unat ty) (count_recv ret) tbl;
        Some (ret, (tbl, w)) }) }"

section \<open>The reply after the last retransmission\<close>

text \<open>
  These routines are only called on client data that was zeroed and given the
  header of the packet, so every member of the union is zero; \<open>No_body\<close>
  stands for the zeroed union.
\<close>

abbreviation set_type :: "u8 \<Rightarrow> dps_client_data_t \<Rightarrow> dps_client_data_t" where
  "set_type t d \<equiv> d\<lparr>cd_hdr := (cd_hdr d)\<lparr>ch_type := t\<rparr>\<rparr>"

definition dps_construct_reply_endpoint_loc_req :: "dps_client_data_t \<Rightarrow> dps_client_data_t" where
  "dps_construct_reply_endpoint_loc_req d = (set_type DPS_ENDPOINT_LOC_REPLY d)
     \<lparr>cd_body := Endpoint_loc_reply (zero_loc_reply\<lparr>lr_vnid := 0, lr_version := 0, lr_tunnel_info := zero_tunnel_list\<rparr>)\<rparr>"

definition dps_construct_reply_policy_req :: "dps_client_data_t \<Rightarrow> dps_client_data_t" where
  "dps_construct_reply_policy_req d = (let dst = pq_dst_endpoint zero_policy_req in
     (set_type DPS_POLICY_REPLY d)\<lparr>cd_body := Policy_reply
       \<lparr>pr_dps_policy_info = zero_policy_info\<lparr>pi_ttl := 0, pi_policy_id := 0, pi_version := 0, pi_dps_policy :=
           (pi_dps_policy zero_policy_info)\<lparr>po_policy_type := DPS_POLICY_TYPE_CONNECTIVITY,
             po_num_deny_rules := 0, po_num_permit_rules := 0\<rparr>\<rparr>,
        pr_dst_endpoint_loc_reply = zero_loc_reply\<lparr>lr_vnid := ch_vnid (cd_hdr d), lr_version := 0,
           lr_vm_ip_addr := ei_vm_ip_addr dst, lr_mac := ei_mac dst\<rparr>\<rparr>\<rparr>)"

definition dps_construct_reply_endpoint_update :: "dps_client_data_t \<Rightarrow> dps_client_data_t" where
  "dps_construct_reply_endpoint_update d = (set_type DPS_ENDPOINT_UPDATE_REPLY d)
     \<lparr>cd_body := Endpoint_update_reply zero_update_reply\<rparr>"

definition dps_construct_reply_internal_gw_req :: "dps_client_data_t \<Rightarrow> dps_client_data_t" where
  "dps_construct_reply_internal_gw_req d = (set_type DPS_INTERNAL_GW_REPLY d)
     \<lparr>cd_body := Internal_gw_list \<lparr>gw_num_v4_gw = 0, gw_num_v6_gw = 0, gw_gw_list = []\<rparr>\<rparr>"

definition dps_construct_reply_bcast_list_req :: "dps_client_data_t \<Rightarrow> dps_client_data_t" where
  "dps_construct_reply_bcast_list_req d = (set_type DPS_BCAST_LIST_REPLY d)
     \<lparr>cd_body := Dove_switch_list \<lparr>pk_vnid = 0, pk_num_v4_tunnels = 0, pk_num_v6_tunnels = 0, pk_tunnel_list = []\<rparr>\<rparr>"

definition dps_construct_reply_external_gw_req :: "dps_client_data_t \<Rightarrow> dps_client_data_t" where
  "dps_construct_reply_external_gw_req d = (set_type DPS_EXTERNAL_GW_LIST_REPLY d)\<lparr>cd_body := Tunnel_info zero_tunnel_list\<rparr>"

definition dps_construct_reply_vlan_gw_req :: "dps_client_data_t \<Rightarrow> dps_client_data_t" where
  "dps_construct_reply_vlan_gw_req d = (set_type DPS_VLAN_GW_LIST_REPLY d)\<lparr>cd_body := Tunnel_info zero_tunnel_list\<rparr>"

definition dps_construct_reply_policy_list_req :: "dps_client_data_t \<Rightarrow> dps_client_data_t" where
  "dps_construct_reply_policy_list_req d = (set_type DPS_VNID_POLICY_LIST_REPLY d)
     \<lparr>cd_body := Bulk_vnid_policy \<lparr>bp_num_permit_rules = 0, bp_num_deny_rules = 0, bp_src_dst_vnid = []\<rparr>\<rparr>"

definition dps_construct_reply_generic_ack :: "dps_client_data_t \<Rightarrow> dps_client_data_t" where
  "dps_construct_reply_generic_ack d =
     set_type (if ch_type (cd_hdr d) \<in> set registration_types then DPS_REG_DEREGISTER_ACK else DPS_GENERAL_ACK) d"

definition dps_construct_reply_mcast_ctrl_gw_req :: "dps_client_data_t \<Rightarrow> dps_client_data_t" where
  "dps_construct_reply_mcast_ctrl_gw_req d = (set_type DPS_MCAST_CTRL_GW_REPLY d)\<lparr>cd_body := Tunnel_info zero_tunnel_list\<rparr>"

definition dps_construct_noop_func :: "dps_client_data_t \<Rightarrow> dps_client_data_t" where
  "dps_construct_noop_func d = d"

definition dps_construct_msg_reply_table :: "(string \<times> (dps_client_data_t \<Rightarrow> dps_client_data_t) option) list" where
  "dps_construct_msg_reply_table = [
     (''None'', None),
     (''Endpoint Loc Request'', Some dps_construct_reply_endpoint_loc_req),
     (''Endpoint Loc Reply'', None),
     (''Policy Req'', Some dps_construct_reply_policy_req),
     (''Policy Reply'', None),
     (''Policy Invalidate'', None),
     (''Endpoint Update'', Some dps_construct_reply_endpoint_update),
     (''Endpoint Update Reply'', None),
     (''Addr Resolve'', Some dps_construct_reply_generic_ack),
     (''Addr Reply'', None),
     (''Internal Gw Req'', Some dps_construct_reply_internal_gw_req),
     (''Internal Gw Reply'', None),
     (''Bulk Policy Xfer'', Some dps_construct_reply_generic_ack),
     (''Bcast List Req'', Some dps_construct_reply_bcast_list_req),
     (''Bcast List Reply'', None),
     (''VM Migration Info'', None),
     (''Mcast Sender Registration'', Some dps_construct_reply_generic_ack),
     (''Mcast Sender De-Registration'', Some dps_construct_reply_generic_ack),
     (''Mcast Receiver Join'', Some dps_construct_reply_generic_ack),
     (''Mcast Receiver Leave'', Some dps_construct_reply_generic_ack),
     (''Mcast Receiver Dove Switch List'', Some dps_construct_reply_generic_ack),
     (''Unsolicited Bcast List Reply'', Some dps_construct_reply_generic_ack),
     (''Unsolicited Internal Gw Reply'', Some dps_construct_reply_generic_ack),
     (''General Ack'', None),
     (''Unsolicited External Gw List'', Some dps_construct_reply_generic_ack),
     (''Unsolicited Vlan Gw List'', Some dps_construct_reply_generic_ack),
     (''Tunnel Register'', Some dps_construct_reply_generic_ack),
     (''Tunnel Deregister'', Some dps_construct_reply_generic_ack),
     (''Tunnel Reg/Dereg Ack'', Some dps_construct_reply_generic_ack),
     (''External Gw Req'', Some dps_construct_reply_external_gw_req),
     (''External Gw Reply'', None),
     (''Vlan Gw Req'', Some dps_construct_reply_vlan_gw_req),
     (''Vlan Gw Reply'', None),
     (''Unsolicited Endpoint Loc Reply'', Some dps_construct_reply_generic_ack),
     (''Vnid Policy List Req'', Some dps_construct_reply_policy_list_req),
     (''Vnid Policy List Reply'', None),
     (''Mcast Ctrl Gw Req'', Some dps_construct_reply_mcast_ctrl_gw_req),
     (''Mcast Ctrl Gw Reply'', None),
     (''Unsolicited Vnid Del Req'', Some dps_construct_reply_generic_ack),
     (''Control Plane Heart Beat'', Some dps_construct_reply_generic_ack),
     (''New DCS Node Req'', Some dps_construct_noop_func),
     (''VM Invalidate Msg'', Some dps_construct_reply_generic_ack)]"

definition dps_retransmit_callback :: "'w dps_link \<Rightarrow> raw_proto_retransmit_status_t \<Rightarrow> bytes \<Rightarrow> nat \<Rightarrow>
    'w dps_state \<Rightarrow> 'w dps_state option" where
  "dps_retransmit_callback lk status pkt context st = (case status of
     RAW_PROTO_MAX_NUM_RETRANSMIT_EXCEEDED \<Rightarrow> (case st of (tbl, w) \<Rightarrow> do {
       (hdr, _) \<leftarrow> dps_get_pkt_hdr pkt zero_hdr;
       (let w = (if lk_server lk then w else lk_new_node lk (ch_vnid hdr) w) in
        if \<not> valid_type (ch_type hdr) then do {
          tbl \<leftarrow> bump 0 (\<lambda>s. s\<lparr>ps_transmit_error := ps_transmit_error s + 1\<rparr>) tbl;
          Some (tbl, w) }
        else
          let data = \<lparr>cd_context = 0, cd_hdr = hdr, cd_body = No_body\<rparr>;
              data = (case snd (dps_construct_msg_reply_table ! unat (ch_type hdr)) of None \<Rightarrow> data | Some f \<Rightarrow> f data);
              data = data\<lparr>cd_context := context,
                cd_hdr := (cd_hdr data)\<lparr>ch_resp_status := DPS_NO_RESPONSE, ch_sub_type := ch_type hdr\<rparr>\<rparr>
          in Some (dps_send_to_protocol_client lk data (tbl, w))) })
   | _ \<Rightarrow> Some st)"

end
