(* ===== verification/Dove_Chain.thy ===== *)
theory Dove_Chain
  imports Dove_Prelude
begin

text \<open>
  Linked lists in memory.  Allocated nodes are a finite part of a map from
  addresses to nodes; a pointer is an optional address, \<open>None\<close> for the
  null pointer.  \<open>chain nx h p as q\<close>: following \<open>nx\<close> from
  \<open>p\<close> visits the allocated addresses \<open>as\<close> and ends at
  \<open>q\<close>.
\<close>

type_synonym ptr = "nat option"

primrec chain :: "('n \<Rightarrow> ptr) \<Rightarrow> (nat \<rightharpoonup> 'n) \<Rightarrow> ptr \<Rightarrow> nat list \<Rightarrow> ptr \<Rightarrow> bool" where
  "chain nx h p [] q \<longleftrightarrow> p = q"
| "chain nx h p (a # as) q \<longleftrightarrow> p = Some a \<and> (\<exists>n. h a = Some n \<and> chain nx h (nx n) as q)"

named_theorems chain_simps \<open>facts about linked lists\<close>

lemma chain_append [chain_simps]: "chain nx h p (as @ bs) q \<longleftrightarrow> (\<exists>r. chain nx h p as r \<and> chain nx h r bs q)"
  by (induction as arbitrary: p) auto

lemma chain_null [simp]: "chain nx h None as None \<longleftrightarrow> as = []"
  by (cases as) auto

lemma chain_Some: "chain nx h (Some a) as None \<longleftrightarrow> (\<exists>n bs. as = a # bs \<and> h a = Some n \<and> chain nx h (nx n) bs None)"
  by (cases as) auto

lemma chain_allocated: "chain nx h p as q \<Longrightarrow> set as \<subseteq> dom h"
  by (induction as arbitrary: p) auto

lemma chain_cong:
  assumes "\<And>a. a \<in> set as \<Longrightarrow> map_option nx (h' a) = map_option nx (h a)"
  shows "chain nx h' p as q = chain nx h p as q"
  using assms
proof (induction as arbitrary: p)
  case (Cons a as)
  have "map_option nx (h' a) = map_option nx (h a)" using Cons.prems by simp
  moreover have "chain nx h' r as q = chain nx h r as q" for r using Cons by simp
  ultimately show ?case by (cases "h a"; cases "h' a") auto
qed simp

lemma chain_frame [chain_simps]: "b \<notin> set as \<Longrightarrow> chain nx (h(b := v)) p as q = chain nx h p as q"
  by (rule chain_cong) auto

lemma chain_unique: "chain nx h p as None \<Longrightarrow> chain nx h p bs None \<Longrightarrow> as = bs"
proof (induction as arbitrary: p bs)
  case (Cons a as)
  then show ?case by (cases bs) auto
qed (cases bs; auto)

lemma chain_distinct: "chain nx h p as None \<Longrightarrow> distinct as"
proof (induction as arbitrary: p)
  case (Cons a as)
  then obtain n where n: "h a = Some n" "chain nx h (nx n) as None" by auto
  have "a \<notin> set as"
  proof
    assume "a \<in> set as"
    then obtain bs cs where as: "as = bs @ a # cs" by (auto simp: in_set_conv_decomp)
    then have "chain nx h (nx n) cs None" using n by (auto simp: chain_append)
    with n(2) have "as = cs" by (rule chain_unique)
    with as have "length cs = length bs + Suc (length cs)" by (metis length_append length_Cons)
    then show False by simp
  qed
  with Cons n show ?case by auto
qed simp

text \<open>Linking a node behind the last one, and unlinking the node behind another.\<close>

lemma chain_snoc:
  assumes "chain nx h p (as @ [a]) None" and "h a = Some n" and "nx n' = Some b" and "nx m = None" and "b \<notin> set (as @ [a])"
  shows "chain nx (h(a \<mapsto> n', b \<mapsto> m)) p (as @ [a, b]) None"
proof -
  have "a \<notin> set as" using chain_distinct [OF assms(1)] by simp
  then show ?thesis using assms by (auto simp: chain_append chain_frame)
qed

lemma chain_unlink:
  assumes "chain nx h p (as @ a # b # bs) None" and "h b = Some m" and "nx n' = nx m"
  shows "chain nx (h(a \<mapsto> n')) p (as @ a # bs) None"
proof -
  have "a \<notin> set (as @ bs)" using chain_distinct [OF assms(1)] by auto
  then show ?thesis using assms by (auto simp: chain_append chain_frame)
qed

text \<open>A loop that follows the links until it finds a node.\<close>

lemma chain_search:
  assumes "chain nx h p as None"
  shows "while_opt (\<lambda>p. case p of None \<Rightarrow> False | Some a \<Rightarrow> (case h a of None \<Rightarrow> True | Some e \<Rightarrow> \<not> P e))
     (\<lambda>p. do { a \<leftarrow> p; e \<leftarrow> h a; Some (nx e) }) p = Some (List.find (\<lambda>a. P (the (h a))) as)"
  using assms
proof (induction as arbitrary: p)
  case Nil
  then show ?case by (simp add: while_opt_done)
next
  case (Cons a as)
  then obtain n where n: "p = Some a" "h a = Some n" "chain nx h (nx n) as None" by auto
  show ?case
  proof (cases "P n")
    case True
    then show ?thesis using n by (simp add: while_opt_done)
  next
    case False
    then show ?thesis using n Cons.IH [OF n(3)] by (subst while_opt_step [where s' = "nx n"]) simp_all
  qed
qed

end
