(* ===== verification/Raw_Proto_Timer.thy ===== *)
theory Raw_Proto_Timer
  imports Dove_Chain Dps_Types
begin

text \<open>
  \<open>raw_proto_timer.c\<close>: the packets that wait for an answer, in a hash
  table of linked lists, and the thread that sends them again.  The nodes lie
  in a store; reading, writing or freeing a node that is not allocated is
  undefined, \<open>None\<close>.  Each critical section of \<open>pktTimerListMutex\<close>
  is one operation; what other threads and the callback do while
  \<open>raw_pkt_retransmit\<close> has released the mutex is \<open>tm_call\<close>.
\<close>

section \<open>State\<close>

abbreviation (input) MAX_HASH_BUCKET :: nat where "MAX_HASH_BUCKET \<equiv> 1000"
abbreviation (input) RETRY_TIMER_OFFSET :: nat where "RETRY_TIMER_OFFSET \<equiv> 1"
abbreviation (input) RAW_PKT_DEF_RETRANSMIT_INTERVAL :: int where "RAW_PKT_DEF_RETRANSMIT_INTERVAL \<equiv> 4"
abbreviation (input) MAX_NUM_DEF_RETRANSMIT :: int where "MAX_NUM_DEF_RETRANSMIT \<equiv> 3"
abbreviation (input) RPT_OWNER_FIRST :: int where "RPT_OWNER_FIRST \<equiv> 1"
abbreviation (input) RPT_OWNER_DPSA :: int where "RPT_OWNER_DPSA \<equiv> 2"
abbreviation (input) RPT_OWNER_DPS :: int where "RPT_OWNER_DPS \<equiv> 4"
abbreviation (input) RPT_OWNER_LAST :: int where "RPT_OWNER_LAST \<equiv> 4"
abbreviation (input) SIZEOF_SOCKADDR :: nat where "SIZEOF_SOCKADDR \<equiv> 16"

definition IS_VALID_RPT_OWNER :: "int \<Rightarrow> bool" where
  "IS_VALID_RPT_OWNER owner \<longleftrightarrow> RPT_OWNER_FIRST \<le> owner \<and> owner \<le> RPT_OWNER_LAST"

datatype raw_proto_timer_return_status_t =
    RAW_PROTO_TIMER_RETURN_OK
  | RAW_PROTO_TIMER_RETURN_ERR
  | RAW_PROTO_TIMER_RETURN_INVALID_ARG

text \<open>The block \<open>rawPkt\<close> points to belongs to the node alone and is freed with it, so it is a value here.\<close>

record raw_proto_pkt_timer_t =
  pt_pktId :: u32
  pt_lastSentTime :: int
  pt_rawPkt :: bytes
  pt_rawPktLen :: nat
  pt_retransmitInterval :: int
  pt_maxNumRetransmit :: int
  pt_transmitCount :: int
  pt_context :: nat
  pt_owner :: int
  pt_sockFd :: int
  pt_addr :: bytes
  pt_next :: ptr

record raw_packet_t =
  rp_data :: bytes
  rp_pktId :: u32
  rp_len :: nat
  rp_retransmitInterval :: int
  rp_maxNumRetransmit :: int
  rp_context :: nat
  rp_owner :: int
  rp_sockFd :: int
  rp_addr :: bytes

text \<open>
  The global variables, and the rest of the system.  A callback is known by a
  number.
\<close>

record 'w timer_state =
  ts_heap :: "nat \<rightharpoonup> raw_proto_pkt_timer_t"
  ts_gHashTab :: "ptr list"
  ts_rpt_callbacks :: "nat option list"
  ts_init_done :: bool
  ts_queryId :: u32
  ts_world :: 'w

text \<open>
  What the timer calls: \<open>malloc\<close> for a node and for a copy of a packet
  (both may fail), \<open>time\<close>, \<open>sendto\<close>, the callbacks, the
  initialisation and locking of mutexes before a callback is registered, the
  unlocking after it, the creation of the thread, and the timed wait of the
  thread, which ends with \<open>ETIMEDOUT\<close> or by a wakeup.
\<close>

record 'w timer_env =
  tm_malloc :: "'w timer_state \<Rightarrow> ptr"
  tm_malloc_pkt :: "'w timer_state \<Rightarrow> bool"
  tm_time :: "'w \<Rightarrow> int \<times> 'w"
  tm_sendto :: "int \<Rightarrow> bytes \<Rightarrow> bytes \<Rightarrow> 'w \<Rightarrow> 'w"
  tm_call :: "nat \<Rightarrow> raw_proto_retransmit_status_t \<Rightarrow> bytes \<Rightarrow> nat \<Rightarrow> int \<Rightarrow> 'w timer_state \<Rightarrow> 'w timer_state option"
  tm_mutex_ok :: bool
  tm_unlock_ok :: bool
  tm_thread_ok :: bool
  tm_wait :: "'w \<Rightarrow> bool \<times> 'w"

definition fresh_alloc :: "'w timer_env \<Rightarrow> bool" where
  "fresh_alloc env \<longleftrightarrow> (\<forall>s a. tm_malloc env s = Some a \<longrightarrow> ts_heap s a = None)"

definition time_now :: "'w timer_env \<Rightarrow> 'w timer_state \<Rightarrow> int \<times> 'w timer_state" where
  "time_now env s = (case tm_time env (ts_world s) of (t, w) \<Rightarrow> (t, s\<lparr>ts_world := w\<rparr>))"

section \<open>The hash function and the retry interval\<close>

text \<open>The remainder of C has the sign of the dividend, so a key read as a negative number has no bucket.\<close>

definition hash :: "u32 \<Rightarrow> int" where
  "hash key = (if 0 \<le> sint key then sint key mod int MAX_HASH_BUCKET else - ((- sint key) mod int MAX_HASH_BUCKET))"

definition bucket_of :: "u32 \<Rightarrow> nat option" where
  "bucket_of key = (if 0 \<le> hash key then Some (nat (hash key)) else None)"

text \<open>
  The interval is computed as a \<open>float\<close>.  A number is given by its
  double; a \<open>float\<close> keeps 24 significant bits and rounds to even.
\<close>

fun excess_bits :: "nat \<Rightarrow> nat" where
  "excess_bits m = (if m < 2 ^ 24 then 0 else Suc (excess_bits (m div 2)))"

definition round_float :: "nat \<Rightarrow> nat" where
  "round_float m = (let e = 2 ^ excess_bits m; q = m div e; r = m mod e in
     (if 2 * r < e \<or> 2 * r = e \<and> even q then q else q + 1) * e)"

definition uceil :: "nat \<Rightarrow> nat" where
  "uceil x2 = (let y = x2 div 2 in if x2 = 2 * y then y else y + 1)"

text \<open>Shifting a one out of an \<open>int\<close> is undefined.\<close>

definition calculate_retry_interval :: "int \<Rightarrow> nat option" where
  "calculate_retry_interval n = (if 0 \<le> n \<and> n < 31
     then Some (uceil (round_float (2 * RETRY_TIMER_OFFSET + (2 ^ nat n - 1)))) else None)"

section \<open>Insertion and deletion\<close>

definition load_node :: "'w timer_state \<Rightarrow> ptr \<Rightarrow> raw_proto_pkt_timer_t option" where
  "load_node s p = p \<bind> ts_heap s"

definition store_node :: "nat \<Rightarrow> raw_proto_pkt_timer_t \<Rightarrow> 'w timer_state \<Rightarrow> 'w timer_state" where
  "store_node a n s = s\<lparr>ts_heap := (ts_heap s)(a \<mapsto> n)\<rparr>"

definition free_node :: "nat \<Rightarrow> 'w timer_state \<Rightarrow> 'w timer_state option" where
  "free_node a s = (if ts_heap s a = None then None else Some (s\<lparr>ts_heap := (ts_heap s)(a := None)\<rparr>))"

definition set_next :: "nat \<Rightarrow> ptr \<Rightarrow> 'w timer_state \<Rightarrow> 'w timer_state option" where
  "set_next a p s = map_option (\<lambda>n. store_node a (n\<lparr>pt_next := p\<rparr>) s) (ts_heap s a)"

definition set_bucket :: "nat \<Rightarrow> ptr \<Rightarrow> 'w timer_state \<Rightarrow> 'w timer_state option" where
  "set_bucket i p s = (if i < length (ts_gHashTab s) then Some (s\<lparr>ts_gHashTab := (ts_gHashTab s)[i := p]\<rparr>) else None)"

definition get_bucket :: "'w timer_state \<Rightarrow> nat \<Rightarrow> ptr option" where
  "get_bucket s i = (if i < length (ts_gHashTab s) then Some (ts_gHashTab s ! i) else None)"

definition new_timer_node :: "raw_packet_t \<Rightarrow> int \<Rightarrow> raw_proto_pkt_timer_t" where
  "new_timer_node rawPkt now = \<lparr>pt_pktId = rp_pktId rawPkt, pt_lastSentTime = now, pt_rawPkt = rp_data rawPkt, pt_rawPktLen = rp_len rawPkt,
     pt_retransmitInterval = rp_retransmitInterval rawPkt, pt_maxNumRetransmit = rp_maxNumRetransmit rawPkt, pt_transmitCount = 1,
     pt_context = rp_context rawPkt, pt_owner = rp_owner rawPkt, pt_sockFd = rp_sockFd rawPkt,
     pt_addr = take SIZEOF_SOCKADDR (rp_addr rawPkt), pt_next = None\<rparr>"

definition last_node :: "'w timer_state \<Rightarrow> nat \<Rightarrow> nat option" where
  "last_node s a = while_opt (\<lambda>a. case ts_heap s a of None \<Rightarrow> True | Some n \<Rightarrow> pt_next n \<noteq> None)
     (\<lambda>a. ts_heap s a \<bind> pt_next) a"

text \<open>Linking a stored node behind the last one of a bucket.\<close>

definition link_node :: "nat \<Rightarrow> nat \<Rightarrow> 'w timer_state \<Rightarrow> 'w timer_state option" where
  "link_node i a s = do {
     head \<leftarrow> get_bucket s i;
     (case head of
        None \<Rightarrow> set_bucket i (Some a) s
      | Some h \<Rightarrow> do { c \<leftarrow> last_node s h; set_next c (Some a) s }) }"

definition insert_raw_pkt :: "'w timer_env \<Rightarrow> raw_packet_t option \<Rightarrow> 'w timer_state \<Rightarrow> (int \<times> 'w timer_state) option" where
  "insert_raw_pkt env rawPkt s = (case rawPkt of
     None \<Rightarrow> Some (-1, s)
   | Some rawPkt \<Rightarrow> (case tm_malloc env s of
       None \<Rightarrow> Some (-3, s)
     | Some a \<Rightarrow> (case time_now env s of (now, s) \<Rightarrow> do {
         i \<leftarrow> bucket_of (rp_pktId rawPkt);
         s \<leftarrow> link_node i a (store_node a (new_timer_node rawPkt now) s);
         Some (0, s) })))"

text \<open>The search for the node behind the first one: the node before it and the node itself.\<close>

definition find_behind :: "'w timer_state \<Rightarrow> u32 \<Rightarrow> nat \<times> ptr \<Rightarrow> (nat \<times> ptr) option" where
  "find_behind s rawPktId = while_opt
     (\<lambda>(prev, p). case p of None \<Rightarrow> False | Some a \<Rightarrow> (case ts_heap s a of None \<Rightarrow> True | Some n \<Rightarrow> pt_pktId n \<noteq> rawPktId))
     (\<lambda>(prev, p). do { a \<leftarrow> p; n \<leftarrow> ts_heap s a; Some (a, pt_next n) })"

definition delete_raw_pkt :: "u32 \<Rightarrow> nat \<times> int \<Rightarrow> 'w timer_state \<Rightarrow> (int \<times> (nat \<times> int) \<times> 'w timer_state) option" where
  "delete_raw_pkt rawPktId out s = (if rawPktId = 0 then Some (-1, out, s) else do {
     i \<leftarrow> bucket_of rawPktId;
     head \<leftarrow> get_bucket s i;
     (case head of
        None \<Rightarrow> Some (-1, (0, RPT_OWNER_FIRST), s)
      | Some h \<Rightarrow> do {
          n \<leftarrow> ts_heap s h;
          (if pt_pktId n = rawPktId then do {
             s \<leftarrow> set_bucket i (pt_next n) s;
             s \<leftarrow> free_node h s;
             Some (0, (pt_context n, pt_owner n), s) }
           else do {
             (prev, p) \<leftarrow> find_behind s rawPktId (h, pt_next n);
             (case p of
                None \<Rightarrow> Some (0, out, s)
              | Some a \<Rightarrow> do {
                  m \<leftarrow> ts_heap s a;
                  s \<leftarrow> set_next prev (pt_next m) s;
                  s \<leftarrow> free_node a s;
                  Some (0, (pt_context m, pt_owner m), s) }) }) }) })"

section \<open>Retransmission\<close>

text \<open>The loop over a bucket: the current node, the one before it, the head, and the state.\<close>

type_synonym 'w pass_state = "ptr \<times> ptr \<times> ptr \<times> 'w timer_state"

definition call_owner :: "'w timer_env \<Rightarrow> raw_proto_pkt_timer_t \<Rightarrow> 'w timer_state \<Rightarrow> 'w timer_state option" where
  "call_owner env n s = (if IS_VALID_RPT_OWNER (pt_owner n) then
     (case ts_rpt_callbacks s ! nat (pt_owner n) of
        None \<Rightarrow> Some s
      | Some f \<Rightarrow> tm_call env f RAW_PROTO_MAX_NUM_RETRANSMIT_EXCEEDED (pt_rawPkt n) (pt_context n) (pt_owner n) s)
     else Some s)"

definition give_up :: "'w timer_env \<Rightarrow> nat \<Rightarrow> nat \<Rightarrow> ptr \<Rightarrow> ptr \<Rightarrow> 'w timer_state \<Rightarrow> 'w pass_state option" where
  "give_up env i c prev head s = do {
     n \<leftarrow> ts_heap s c;
     p \<leftarrow> prev;
     s \<leftarrow> set_next p (pt_next n) s;
     del \<leftarrow> ts_heap s c;
     (prev, head, s) \<leftarrow> (if Some c = head
        then map_option (\<lambda>s. (pt_next del, pt_next del, s)) (set_bucket i (pt_next del) s)
        else Some (prev, head, s));
     s' \<leftarrow> call_owner env del s;
     s' \<leftarrow> free_node c s';
     Some (pt_next del, prev, head, s') }"

definition retransmit_step :: "'w timer_env \<Rightarrow> nat \<Rightarrow> 'w pass_state \<Rightarrow> 'w pass_state option" where
  "retransmit_step env i st = (case st of (cur, prev, head, s) \<Rightarrow> do {
     c \<leftarrow> cur;
     n \<leftarrow> ts_heap s c;
     gap \<leftarrow> calculate_retry_interval (pt_transmitCount n);
     (now, s) \<leftarrow> Some (time_now env s);
     (if now - pt_lastSentTime n \<ge> int gap then
        (if pt_transmitCount n \<le> pt_maxNumRetransmit n then
           (case time_now env s of (now, s) \<Rightarrow>
              let n = n\<lparr>pt_transmitCount := pt_transmitCount n + 1, pt_lastSentTime := now\<rparr>;
                  s = store_node c n s;
                  s = s\<lparr>ts_world := tm_sendto env (pt_sockFd n) (pt_rawPkt n) (pt_addr n) (ts_world s)\<rparr>
              in Some (pt_next n, cur, head, s))
         else give_up env i c prev head s)
      else Some (pt_next n, cur, head, s)) })"

definition retransmit_bucket :: "'w timer_env \<Rightarrow> nat \<Rightarrow> 'w timer_state \<Rightarrow> 'w timer_state option" where
  "retransmit_bucket env i s = do {
     head \<leftarrow> get_bucket s i;
     (_, _, _, s) \<leftarrow> while_opt (\<lambda>(cur, _). cur \<noteq> None) (retransmit_step env i) (head, head, head, s);
     Some s }"

definition raw_pkt_retransmit :: "'w timer_env \<Rightarrow> 'w timer_state \<Rightarrow> 'w timer_state option" where
  "raw_pkt_retransmit env s = for_each (retransmit_bucket env) [0..<MAX_HASH_BUCKET] s"

text \<open>
  The loop of the thread.  \<open>wait_mutex\<close> is an ordinary mutex and is
  released only when the wait timed out; locking it while it is held never
  returns.
\<close>

definition thread_turn :: "'w timer_env \<Rightarrow> bool \<times> 'w timer_state \<Rightarrow> (bool \<times> 'w timer_state) option" where
  "thread_turn env st = (case st of (held, s) \<Rightarrow>
     if held then None
     else (case tm_wait env (ts_world s) of (timedout, w) \<Rightarrow>
       let s = s\<lparr>ts_world := w\<rparr> in
       if timedout then do { s \<leftarrow> raw_pkt_retransmit env s; Some (False, s) }
       else Some (True, s)))"

definition raw_pkt_retransmision_thread_entry :: "'w timer_env \<Rightarrow> nat \<Rightarrow> bool \<times> 'w timer_state \<Rightarrow> (bool \<times> 'w timer_state) option" where
  "raw_pkt_retransmision_thread_entry env turns st = for_each (\<lambda>_. thread_turn env) [0..<turns] st"

section \<open>The interface\<close>

definition raw_proto_timer_init :: "'w timer_env \<Rightarrow> nat option \<Rightarrow> int \<Rightarrow> 'w timer_state \<Rightarrow>
    (raw_proto_timer_return_status_t \<times> 'w timer_state) option" where
  "raw_proto_timer_init env callback owner s =
     (let register = (\<lambda>s. if 0 \<le> owner \<and> nat owner < length (ts_rpt_callbacks s)
            then Some (s\<lparr>ts_rpt_callbacks := (ts_rpt_callbacks s)[nat owner := callback]\<rparr>) else None)
      in if ts_init_done s then
        if \<not> tm_mutex_ok env then Some (RAW_PROTO_TIMER_RETURN_ERR, s)
        else do {
          s \<leftarrow> register s;
          Some (if tm_unlock_ok env then RAW_PROTO_TIMER_RETURN_OK else RAW_PROTO_TIMER_RETURN_ERR, s) }
      else let s = s\<lparr>ts_gHashTab := replicate MAX_HASH_BUCKET None\<rparr> in
        if callback = None then Some (RAW_PROTO_TIMER_RETURN_INVALID_ARG, s)
        else if \<not> IS_VALID_RPT_OWNER owner then Some (RAW_PROTO_TIMER_RETURN_INVALID_ARG, s)
        else if \<not> tm_mutex_ok env then Some (RAW_PROTO_TIMER_RETURN_ERR, s)
        else do {
          s \<leftarrow> register s;
          Some (if tm_unlock_ok env \<and> tm_thread_ok env then (RAW_PROTO_TIMER_RETURN_OK, s\<lparr>ts_init_done := True\<rparr>)
                else (RAW_PROTO_TIMER_RETURN_ERR, s)) })"

definition raw_proto_timer_start :: "'w timer_env \<Rightarrow> bytes option \<Rightarrow> nat \<Rightarrow> u32 \<Rightarrow> int \<Rightarrow> int \<Rightarrow> int \<Rightarrow> bytes option \<Rightarrow> nat \<Rightarrow> int \<Rightarrow>
    'w timer_state \<Rightarrow> (int \<times> 'w timer_state) option" where
  "raw_proto_timer_start env rawPkt rawPktLen rawPktId retransmitInterval maxNumRetransmit sockFd addr context owner s =
     (case (rawPkt, addr) of
        (Some buf, Some sa) \<Rightarrow>
          if \<not> IS_VALID_RPT_OWNER owner then Some (-1, s)
          else if \<not> tm_malloc_pkt env s then Some (-4, s)
          else do {
            data \<leftarrow> slots rawPktLen buf;
            insert_raw_pkt env (Some \<lparr>rp_data = data, rp_pktId = rawPktId, rp_len = rawPktLen, rp_retransmitInterval = retransmitInterval,
              rp_maxNumRetransmit = maxNumRetransmit, rp_context = context, rp_owner = owner, rp_sockFd = sockFd, rp_addr = sa\<rparr>) s }
      | _ \<Rightarrow> Some (-1, s))"

text \<open>The two out-parameters must not be null.  A deletion that fails reports no context.\<close>

definition raw_proto_timer_stop :: "u32 \<Rightarrow> bool \<Rightarrow> bool \<Rightarrow> 'w timer_state \<Rightarrow>
    (raw_proto_timer_return_status_t \<times> (nat \<times> int) option \<times> 'w timer_state) option" where
  "raw_proto_timer_stop rawPktId context_ok owner_ok s =
     (if rawPktId = 0 \<or> \<not> context_ok \<or> \<not> owner_ok then Some (RAW_PROTO_TIMER_RETURN_INVALID_ARG, None, s)
      else do {
        (rc, (context, owner), s) \<leftarrow> delete_raw_pkt rawPktId (0, RPT_OWNER_FIRST) s;
        Some (RAW_PROTO_TIMER_RETURN_OK, Some (if rc < 0 then (0, owner) else (context, owner)), s) })"

definition raw_proto_query_id_generate :: "'w timer_state \<Rightarrow> u32 \<times> 'w timer_state" where
  "raw_proto_query_id_generate s = (let q = (if ts_queryId s = 0xFFFFFFFF then 1 else ts_queryId s + 1)
     in (q, s\<lparr>ts_queryId := q\<rparr>))"

end
