(* ===== verification/Dcs_Retransmit.thy ===== *)
theory Dcs_Retransmit
  imports Raw_Proto_Timer "HOL-Library.AList"
begin

text \<open>
  The retransmission of the server: the class \<open>DPSRetransmitHandler\<close> of
  \<open>retransmit_handler.py\<close> and the C functions around it,
  \<open>retransmit_interface.c\<close>.  Messages are blocks of C memory; the
  Python side only keeps pointers to them, in a dictionary by query id.
\<close>

section \<open>State\<close>

text \<open>\<open>dps_retransmit_context_t\<close>; the packet is its last member, and its length is \<open>data_len\<close>.\<close>

record dps_retransmit_context_t =
  rc_family :: u16
  rc_sock_fd :: int
  rc_address :: bytes
  rc_query_id :: u32
  rc_context :: nat
  rc_callback_function :: nat
  rc_owner_type :: int
  rc_data :: bytes

text \<open>
  A dictionary is an association list in the order of insertion.  The entries
  of \<open>Query_ID_Hash\<close> are a message, the retransmissions that are left
  and the size of the message.
\<close>

type_synonym message = "nat \<times> nat \<times> nat"

record 'w rt_state =
  rt_Query_ID_Hash :: "(u32 \<times> message) list"
  rt_msg_size_total :: int
  rt_retransmit_total :: int
  rt_QueryID :: int
  rt_heap :: "nat \<Rightarrow> dps_retransmit_context_t option"
  rt_world :: 'w

text \<open>
  The surroundings: memory, whether Python can make an object or a tuple of
  arguments, the order in which a dictionary lists its keys (any order will
  do), the socket, and the functions that are called back.
\<close>

record 'w rt_env =
  re_malloc :: "'w rt_state \<Rightarrow> nat option"
  re_object_ok :: "'w \<Rightarrow> bool"
  re_args_ok :: "'w \<Rightarrow> bool"
  re_keys :: "u32 list \<Rightarrow> u32 list"
  re_sendto :: "int \<Rightarrow> bytes \<Rightarrow> bytes \<Rightarrow> 'w \<Rightarrow> int \<times> 'w"
  re_call :: "nat \<Rightarrow> raw_proto_retransmit_status_t \<Rightarrow> bytes \<Rightarrow> nat \<Rightarrow> int \<Rightarrow> 'w rt_state \<Rightarrow> 'w rt_state option"

section \<open>The handler in Python\<close>

abbreviation (input) max_retransmit :: nat where "max_retransmit \<equiv> 3"
abbreviation (input) max_queue_len :: nat where "max_queue_len \<equiv> 8192"

definition Queue :: "u32 \<Rightarrow> nat \<Rightarrow> nat \<Rightarrow> 'w rt_state \<Rightarrow> int \<times> 'w rt_state" where
  "Queue query_id msg msg_size s =
     (if length (rt_Query_ID_Hash s) > max_queue_len then (-1, s)
      else case map_of (rt_Query_ID_Hash s) query_id of
        Some _ \<Rightarrow> (-1, s)
      | None \<Rightarrow> (0, s\<lparr>rt_Query_ID_Hash := AList.update query_id (msg, max_retransmit, msg_size) (rt_Query_ID_Hash s),
          rt_msg_size_total := rt_msg_size_total s + int msg_size\<rparr>))"

definition DeQueue :: "u32 \<Rightarrow> 'w rt_state \<Rightarrow> (int \<times> nat option) \<times> 'w rt_state" where
  "DeQueue query_id s = (case map_of (rt_Query_ID_Hash s) query_id of
     Some (msg, _, msg_size) \<Rightarrow> ((0, Some msg), s\<lparr>rt_msg_size_total := rt_msg_size_total s - int msg_size,
       rt_Query_ID_Hash := AList.delete query_id (rt_Query_ID_Hash s)\<rparr>)
   | None \<Rightarrow> ((-1, None), s))"

abbreviation (input) MaxQueryID :: int where "MaxQueryID \<equiv> 2147483647"

definition generate_query_id :: "'w rt_state \<Rightarrow> int \<times> 'w rt_state" where
  "generate_query_id s = (let q = rt_QueryID s + 1 in (rt_QueryID s, s\<lparr>rt_QueryID := if q \<ge> MaxQueryID then 1 else q\<rparr>))"

section \<open>Sending again and giving up\<close>

definition retransmit_data :: "'w rt_env \<Rightarrow> nat \<Rightarrow> 'w rt_state \<Rightarrow> (int \<times> 'w rt_state) option" where
  "retransmit_data env msg s = do {
     c \<leftarrow> rt_heap s msg;
     Some (if rc_family c = AF_INET \<or> rc_family c = AF_INET6
       then (case re_sendto env (rc_sock_fd c) (rc_data c) (rc_address c) (rt_world s) of (n, w) \<Rightarrow>
         (if n < 0 then n else 0, s\<lparr>rt_world := w\<rparr>))
       else (-1, s)) }"

definition release :: "nat \<Rightarrow> 'w rt_state \<Rightarrow> 'w rt_state option" where
  "release msg s = (case rt_heap s msg of None \<Rightarrow> None | Some _ \<Rightarrow> Some (s\<lparr>rt_heap := (rt_heap s)(msg := None)\<rparr>))"

definition retransmit_timeout :: "'w rt_env \<Rightarrow> nat \<Rightarrow> 'w rt_state \<Rightarrow> 'w rt_state option" where
  "retransmit_timeout env msg s = do {
     c \<leftarrow> rt_heap s msg;
     s \<leftarrow> re_call env (rc_callback_function c) RAW_PROTO_MAX_NUM_RETRANSMIT_EXCEEDED (rc_data c) (rc_context c) (rc_owner_type c) s;
     release msg s }"

text \<open>
  The timer: under the lock, every message is either sent again or taken out
  as expired; the expired ones are reported after the lock is released.
\<close>

definition visit :: "'w rt_env \<Rightarrow> u32 \<Rightarrow> nat list \<times> 'w rt_state \<Rightarrow> (nat list \<times> 'w rt_state) option" where
  "visit env key = (\<lambda>(expired, s). case map_of (rt_Query_ID_Hash s) key of
     None \<Rightarrow> Some (expired, s)
   | Some (msg, count, msg_size) \<Rightarrow>
       if count = 0 then Some (expired @ [msg], s\<lparr>rt_msg_size_total := rt_msg_size_total s - int msg_size,
         rt_Query_ID_Hash := AList.delete key (rt_Query_ID_Hash s)\<rparr>)
       else do {
         (_, s) \<leftarrow> retransmit_data env msg s;
         Some (expired, s\<lparr>rt_retransmit_total := rt_retransmit_total s + 1,
           rt_Query_ID_Hash := AList.update key (msg, count - 1, msg_size) (rt_Query_ID_Hash s)\<rparr>) })"

fun visit_all :: "'w rt_env \<Rightarrow> u32 list \<Rightarrow> nat list \<times> 'w rt_state \<Rightarrow> (nat list \<times> 'w rt_state) option" where
  "visit_all env [] st = Some st"
| "visit_all env (key # keys) st = visit env key st \<bind> visit_all env keys"

fun timeout_all :: "'w rt_env \<Rightarrow> nat list \<Rightarrow> 'w rt_state \<Rightarrow> 'w rt_state option" where
  "timeout_all env [] s = Some s"
| "timeout_all env (msg # msgs) s = retransmit_timeout env msg s \<bind> timeout_all env msgs"

definition expire :: "'w rt_env \<Rightarrow> 'w rt_state \<Rightarrow> (nat list \<times> 'w rt_state) option" where
  "expire env s = visit_all env (re_keys env (map fst (rt_Query_ID_Hash s))) ([], s)"

definition Timer_Routine :: "'w rt_env \<Rightarrow> 'w rt_state \<Rightarrow> 'w rt_state option" where
  "Timer_Routine env s = do { (expired, s) \<leftarrow> expire env s; timeout_all env expired s }"

section \<open>The functions the protocol calls\<close>

definition retransmit_timer_start :: "'w rt_env \<Rightarrow> bytes \<Rightarrow> nat \<Rightarrow> u32 \<Rightarrow> int \<Rightarrow> bytes \<Rightarrow> nat \<Rightarrow> nat \<Rightarrow> int \<Rightarrow>
    'w rt_state \<Rightarrow> (int \<times> 'w rt_state) option" where
  "retransmit_timer_start env data data_len query_id sockFd addr context callback owner s =
     (if sockFd < 0 then Some (-1, s)
      else do {
        family \<leftarrow> ld16 0 addr;
        (case re_malloc env s of
           None \<Rightarrow> Some (-1, s)
         | Some msg \<Rightarrow> if \<not> re_object_ok env (rt_world s) then Some (-1, s)
             else do {
               address \<leftarrow> peek 0 (if family = AF_INET then 16 else 28) addr;
               data \<leftarrow> slots data_len data;
               (let s = s\<lparr>rt_heap := (rt_heap s)(msg \<mapsto> \<lparr>rc_family = family, rc_sock_fd = sockFd, rc_address = address,
                   rc_query_id = query_id, rc_context = context, rc_callback_function = callback, rc_owner_type = owner, rc_data = data\<rparr>)\<rparr>;
                    (status, s) = (if re_args_ok env (rt_world s) then Queue query_id msg data_len s else (-1, s))
                in if status \<noteq> 0 then do { s \<leftarrow> release msg s; Some (status, s) } else Some (status, s)) }) })"

definition retransmit_timer_stop :: "'w rt_env \<Rightarrow> u32 \<Rightarrow> 'w rt_state \<Rightarrow> (int \<times> nat option \<times> 'w rt_state) option" where
  "retransmit_timer_stop env query_id s =
     (if \<not> re_args_ok env (rt_world s) then Some (-1, None, s)
      else case DeQueue query_id s of
        ((status, Some msg), s) \<Rightarrow> if status \<noteq> 0 then Some (status, None, s) else do {
          c \<leftarrow> rt_heap s msg;
          s \<leftarrow> release msg s;
          Some (status, Some (rc_context c), s) }
      | ((status, None), s) \<Rightarrow> Some (status, None, s))"

definition retransmit_timer_query_id_generate :: "'w rt_env \<Rightarrow> 'w rt_state \<Rightarrow> u32 \<times> 'w rt_state" where
  "retransmit_timer_query_id_generate env s =
     (if re_args_ok env (rt_world s) then (case generate_query_id s of (q, s) \<Rightarrow> (word_of_int q, s)) else (0, s))"

end
