(* ===== verification/Dps_Server_Ctrl.thy ===== *)
theory Dps_Server_Ctrl
  imports Dps_Receive Dcs_Retransmit
begin

text \<open>
  The server side of the transport, \<open>dps_svr_ctrl.c\<close>: one UDP socket,
  sending with retransmission by the handler in Python, and receiving.  The
  server only speaks IPv4.
\<close>

section \<open>State\<close>

record 'w server_world =
  sw_server_sock :: int
  sw_buffer :: bytes
  sw_stats :: dps_stats
  sw_outer :: 'w

text \<open>
  The retransmission handler runs in the same process, so the state of the
  server is the state of the handler with the rest of the server as its
  surroundings; \<open>None\<close> there means that something undefined has
  happened.
\<close>

type_synonym 'w server_state = "'w server_world option rt_state"

text \<open>
  What the server calls: memory, Python, the timer module (which the server
  initialises but does not use), sockets, the dispatcher of file descriptors,
  the state of the cluster and the data handler; and what uninitialised
  variables happen to hold.
\<close>

record 'w server_env =
  se_alloc_message :: "'w server_state \<Rightarrow> nat option"
  se_object_ok :: "'w \<Rightarrow> bool"
  se_args_ok :: "'w \<Rightarrow> bool"
  se_keys :: "u32 list \<Rightarrow> u32 list"
  se_malloc :: "'w \<Rightarrow> bytes option \<times> 'w"
  se_free :: "'w \<Rightarrow> 'w"
  se_active :: "'w \<Rightarrow> bool"
  se_timer_init :: "'w \<Rightarrow> raw_proto_timer_return_status_t \<times> 'w"
  se_socket :: "'w \<Rightarrow> int \<times> 'w"
  se_bind :: "int \<Rightarrow> u16 \<Rightarrow> 'w \<Rightarrow> int \<times> 'w"
  se_buffer_size :: "int \<Rightarrow> 'w \<Rightarrow> 'w"
  se_fcntl :: "int \<Rightarrow> 'w \<Rightarrow> int \<times> 'w"
  se_add_fd :: "int \<Rightarrow> 'w \<Rightarrow> int \<times> 'w"
  se_sendto :: "int \<Rightarrow> bytes \<Rightarrow> bytes \<Rightarrow> 'w \<Rightarrow> int \<times> 'w"
  se_recvfrom :: "int \<Rightarrow> nat \<Rightarrow> 'w \<Rightarrow> (int \<times> bytes \<times> bytes \<times> nat) \<times> 'w"
  se_deliver :: "dps_client_data_t \<Rightarrow> 'w \<Rightarrow> 'w"
  se_uninit_zero :: bytes
  se_uninit_hdr :: dps_client_hdr_t

definition sio :: "('w \<Rightarrow> 'a \<times> 'w) \<Rightarrow> 'w server_world \<Rightarrow> 'a \<times> 'w server_world" where
  "sio f c = (case f (sw_outer c) of (r, w) \<Rightarrow> (r, c\<lparr>sw_outer := w\<rparr>))"

definition sio_do :: "('w \<Rightarrow> 'w) \<Rightarrow> 'w server_world \<Rightarrow> 'w server_world" where
  "sio_do f c = c\<lparr>sw_outer := f (sw_outer c)\<rparr>"

abbreviation (input) SERVER_CALLBACK :: nat where "SERVER_CALLBACK \<equiv> 1"

text \<open>The surroundings of the retransmission handler, for a way to call the protocol back.\<close>

definition retransmit_calls :: "'w server_env \<Rightarrow>
    (nat \<Rightarrow> raw_proto_retransmit_status_t \<Rightarrow> bytes \<Rightarrow> nat \<Rightarrow> int \<Rightarrow> 'w server_state \<Rightarrow> 'w server_state option) \<Rightarrow>
    'w server_world option rt_env" where
  "retransmit_calls env call = \<lparr>
     re_malloc = se_alloc_message env,
     re_object_ok = (\<lambda>w. case w of None \<Rightarrow> True | Some c \<Rightarrow> se_object_ok env (sw_outer c)),
     re_args_ok = (\<lambda>w. case w of None \<Rightarrow> True | Some c \<Rightarrow> se_args_ok env (sw_outer c)),
     re_keys = se_keys env,
     re_sendto = (\<lambda>fd pkt addr w. case w of None \<Rightarrow> (-1, None) | Some c \<Rightarrow> map_prod id Some (sio (se_sendto env fd pkt addr) c)),
     re_call = call\<rparr>"

text \<open>Starting and stopping a retransmission call nobody back.\<close>

definition no_calls :: "'w server_env \<Rightarrow> 'w server_world option rt_env" where
  "no_calls env = retransmit_calls env (\<lambda>_ _ _ _ _. Some)"

section \<open>Sending\<close>

definition dst_addr :: "'w server_env \<Rightarrow> ip_addr_t \<Rightarrow> bytes" where
  "dst_addr env addr = bytes16 AF_INET @ bytes16 (htons (ia_port addr)) @ bytes32 (htonl (ia_ip4 addr)) @ se_uninit_zero env"

definition server_send :: "'w server_env \<Rightarrow> bytes \<Rightarrow> ip_addr_t \<Rightarrow> 'w server_state \<Rightarrow> (u32 \<times> 'w server_state) option" where
  "server_send env buff addr s = do {
     c \<leftarrow> rt_world s;
     (case sio (se_sendto env (sw_server_sock c) buff (dst_addr env addr)) c of (ret_val, c) \<Rightarrow>
        Some (if ret_val \<le> 0 then DPS_ERROR else DPS_SUCCESS, s\<lparr>rt_world := Some c\<rparr>)) }"

definition dps_protocol_xmit :: "'w server_env \<Rightarrow> bytes \<Rightarrow> ip_addr_t \<Rightarrow> nat \<Rightarrow> 'w server_state \<Rightarrow> (u32 \<times> 'w server_state) option" where
  "dps_protocol_xmit env buff addr context s = do {
     c \<leftarrow> rt_world s;
     (if context \<noteq> 0 then do {
        (hdr, _) \<leftarrow> dps_get_pkt_hdr buff (se_uninit_hdr env);
        (rc, s) \<leftarrow> retransmit_timer_start (no_calls env) buff (length buff) (ch_query_id hdr) (sw_server_sock c) (dst_addr env addr)
          context SERVER_CALLBACK RPT_OWNER_DPS s;
        (if rc \<noteq> 0 then Some (DPS_ERROR_NO_RESOURCES, s) else server_send env buff addr s) }
      else server_send env buff addr s) }"

section \<open>The surroundings of the packet code\<close>

definition on_server :: "('w server_world \<Rightarrow> 'w server_world option) \<Rightarrow> 'w server_state \<Rightarrow> 'w server_state" where
  "on_server f s = s\<lparr>rt_world := rt_world s \<bind> f\<rparr>"

definition server_crashed :: "'w server_state \<Rightarrow> 'w server_state" where
  "server_crashed s = s\<lparr>rt_world := None\<rparr>"

text \<open>The server's data handler chooses the query ids, so the packet code never asks for one; a server asks nobody for another server.\<close>

definition server_link :: "'w server_env \<Rightarrow> 'w server_state dps_link" where
  "server_link env = \<lparr>
     lk_server = True,
     lk_malloc = (\<lambda>s. case rt_world s of None \<Rightarrow> (None, s)
       | Some c \<Rightarrow> (case sio (se_malloc env) c of (mem, c) \<Rightarrow> (mem, s\<lparr>rt_world := Some c\<rparr>))),
     lk_free = on_server (\<lambda>c. Some (sio_do (se_free env) c)),
     lk_active = (\<lambda>s. case rt_world s of None \<Rightarrow> False | Some c \<Rightarrow> se_active env (sw_outer c)),
     lk_query_id = retransmit_timer_query_id_generate (no_calls env),
     lk_xmit = (\<lambda>pkt addr context s. case dps_protocol_xmit env pkt addr context s of
         None \<Rightarrow> (DPS_ERROR, server_crashed s) | Some r \<Rightarrow> r),
     lk_timer_stop = (\<lambda>q s. case retransmit_timer_stop (no_calls env) q s of
         None \<Rightarrow> ((False, 0), server_crashed s)
       | Some (rc, context, s) \<Rightarrow> ((rc = 0, case context of None \<Rightarrow> 0 | Some context \<Rightarrow> context), s)),
     lk_deliver = (\<lambda>d. on_server (\<lambda>c. Some (sio_do (se_deliver env d) c))),
     lk_new_node = (\<lambda>_. id),
     lk_uninit = (\<lambda>_. zero_ip_addr)\<rparr>"

definition put_server_stats :: "dps_stats \<Rightarrow> 'w server_state \<Rightarrow> 'w server_state" where
  "put_server_stats tbl = on_server (\<lambda>c. Some (c\<lparr>sw_stats := tbl\<rparr>))"

definition server_callback :: "'w server_env \<Rightarrow> nat \<Rightarrow> raw_proto_retransmit_status_t \<Rightarrow> bytes \<Rightarrow> nat \<Rightarrow> int \<Rightarrow>
    'w server_state \<Rightarrow> 'w server_state option" where
  "server_callback env f status pkt context owner s = Some (case rt_world s of
     None \<Rightarrow> s
   | Some c \<Rightarrow> if f \<noteq> SERVER_CALLBACK then server_crashed s
       else (case dps_retransmit_callback (server_link env) status pkt context (sw_stats c, s) of
           None \<Rightarrow> server_crashed s
         | Some (tbl, s) \<Rightarrow> put_server_stats tbl s))"

definition server_retransmit :: "'w server_env \<Rightarrow> 'w server_world option rt_env" where
  "server_retransmit env = retransmit_calls env (server_callback env)"

section \<open>Receiving\<close>

text \<open>
  The loop over the packets that wait on the socket, at most \<open>loops\<close>
  of them.  The address of the sender is cleared before each packet is read;
  a packet overwrites the beginning of the receive buffer.
\<close>

fun server_receive_loop :: "'w server_env \<Rightarrow> int \<Rightarrow> nat \<Rightarrow> ip_addr_t \<times> nat \<Rightarrow> 'w server_state \<Rightarrow> 'w server_state option" where
  "server_receive_loop env socket 0 (sender_addr, addr_len) s = Some s"
| "server_receive_loop env socket (Suc loops) (sender_addr, addr_len) s = do {
     c \<leftarrow> rt_world s;
     (case sio (se_recvfrom env socket addr_len) c of ((bytes_read, data, frm, addr_len), c) \<Rightarrow>
        if bytes_read \<le> 0 then Some (s\<lparr>rt_world := Some c\<rparr>)
        else
          let client_addr = frm @ drop (length frm) (replicate 16 0);
              buff = data @ drop (length data) (sw_buffer c);
              c = c\<lparr>sw_buffer := buff\<rparr>
          in do {
            ip \<leftarrow> ld32 4 client_addr;
            port \<leftarrow> ld16 2 client_addr;
            (let sender_addr = (if ia_family sender_addr = AF_INET
                   then sender_addr\<lparr>ia_ip6 := set_ip4 (ntohl ip) (ia_ip6 sender_addr)\<rparr> else sender_addr);
                 sender_addr = sender_addr\<lparr>ia_port := ntohs port\<rparr>
             in do {
               (_, (tbl, s)) \<leftarrow> dps_process_rcvd_pkt (server_link env) buff sender_addr (sw_stats c, s\<lparr>rt_world := Some c\<rparr>);
               server_receive_loop env socket loops (sender_addr, addr_len) (put_server_stats tbl s) }) }) }"

definition dps_process_data_rcvd :: "'w server_env \<Rightarrow> int \<Rightarrow> 'w server_state \<Rightarrow> 'w server_state option" where
  "dps_process_data_rcvd env socket = server_receive_loop env socket 50000 (zero_ip_addr\<lparr>ia_family := AF_INET\<rparr>, 16)"

section \<open>Start-up\<close>

datatype dove_status = DOVE_STATUS_OK | DOVE_STATUS_INVALID_FD | DOVE_STATUS_NO_RESOURCES | DOVE_STATUS_NOT_SUPPORTED | DOVE_STATUS_BIND_FAILED

text \<open>Only the status of the timer, the socket and the dispatcher decide; changing the size of the receive buffer may fail.\<close>

definition dps_svr_proto_init :: "'w server_env \<Rightarrow> u32 \<Rightarrow> 'w server_world \<Rightarrow> dove_status \<times> 'w server_world" where
  "dps_svr_proto_init env portnum c = (case sio (se_timer_init env) c of (rc, c) \<Rightarrow>
     if rc \<noteq> RAW_PROTO_TIMER_RETURN_OK then (DOVE_STATUS_NO_RESOURCES, c)
     else (case sio (se_socket env) c of (fd, c) \<Rightarrow> let c = c\<lparr>sw_server_sock := fd\<rparr> in
       if fd = -1 then (DOVE_STATUS_INVALID_FD, c)
       else (case sio (se_bind env fd (htons (ucast portnum))) c of (rc, c) \<Rightarrow>
         if rc = -1 then (DOVE_STATUS_BIND_FAILED, c)
         else (case sio (se_fcntl env fd) (sio_do (se_buffer_size env fd) c) of (rc, c) \<Rightarrow>
           if rc = -1 then (DOVE_STATUS_NOT_SUPPORTED, c)
           else (case sio (se_add_fd env fd) (c\<lparr>sw_buffer := replicate DPS_MAX_BUFF_SZ 0\<rparr>) of (core_status, c) \<Rightarrow>
             (if core_status = 0 then DOVE_STATUS_OK else DOVE_STATUS_NO_RESOURCES, c))))))"

end
