(* ===== verification/Raw_Proto_Table.thy ===== *)
theory Raw_Proto_Table
  imports Raw_Proto_Timer
begin

text \<open>
  The hash table of waiting packets as what it stands for: for each bucket a
  list of entries.  Every operation keeps the lists well-formed and does to
  the lists what its description says.
\<close>

section \<open>The invariant\<close>

text \<open>
  \<open>table s B X\<close>: bucket \<open>i\<close> is the chain of the nodes at
  \<open>B i\<close>, each in the bucket its packet id hashes to, and the nodes
  allocated are those of the buckets and the detached ones \<open>X\<close>.
\<close>

definition table :: "'w timer_state \<Rightarrow> (nat \<Rightarrow> nat list) \<Rightarrow> nat set \<Rightarrow> bool" where
  "table s B X \<longleftrightarrow> length (ts_gHashTab s) = MAX_HASH_BUCKET \<and> length (ts_rpt_callbacks s) = 5 \<and>
     (\<forall>i < MAX_HASH_BUCKET. chain pt_next (ts_heap s) (ts_gHashTab s ! i) (B i) None \<and>
        (\<forall>a \<in> set (B i). \<exists>n. ts_heap s a = Some n \<and> bucket_of (pt_pktId n) = Some i)) \<and>
     (\<forall>i \<ge> MAX_HASH_BUCKET. B i = []) \<and>
     dom (ts_heap s) = X \<union> (\<Union>i. set (B i)) \<and> (\<forall>i. X \<inter> set (B i) = {})"

lemma bucket_of_less: "bucket_of k = Some i \<Longrightarrow> i < MAX_HASH_BUCKET"
  by (auto simp: bucket_of_def hash_def split: if_splits)

lemma tableD:
  assumes "table s B X"
  shows "length (ts_gHashTab s) = MAX_HASH_BUCKET"
    and "i < MAX_HASH_BUCKET \<Longrightarrow> chain pt_next (ts_heap s) (ts_gHashTab s ! i) (B i) None"
    and "a \<in> set (B i) \<Longrightarrow> \<exists>n. ts_heap s a = Some n \<and> bucket_of (pt_pktId n) = Some i"
    and "i < MAX_HASH_BUCKET \<Longrightarrow> get_bucket s i = Some (ts_gHashTab s ! i)"
    and "distinct (B i)"
proof -
  show b: "a \<in> set (B i) \<Longrightarrow> \<exists>n. ts_heap s a = Some n \<and> bucket_of (pt_pktId n) = Some i" for a i
    using assms by (cases "i < 1000") (auto simp: table_def)
  show "distinct (B i)"
    using assms chain_distinct [of pt_next "ts_heap s" "ts_gHashTab s ! i" "B i"] by (cases "i < 1000") (auto simp: table_def)
qed (use assms in \<open>auto simp: table_def get_bucket_def\<close>)

lemma table_disjoint: "table s B X \<Longrightarrow> a \<in> set (B i) \<Longrightarrow> a \<in> set (B j) \<Longrightarrow> i = j"
  using tableD(3) [of s B X a i] tableD(3) [of s B X a j] by auto

lemma table_detached: "table s B X \<Longrightarrow> X \<inter> set (B i) = {}"
  by (simp add: table_def)

lemma table_bucket_null: "table s B X \<Longrightarrow> i < MAX_HASH_BUCKET \<Longrightarrow> ts_gHashTab s ! i = None \<longleftrightarrow> B i = []"
  using tableD(2) [of s B X i] by (cases "B i") auto

text \<open>A bucket is replaced; the other chains are not touched.\<close>

lemma table_replace:
  assumes t: "table s B X" and i: "i < MAX_HASH_BUCKET"
    and tab: "ts_gHashTab s' = (ts_gHashTab s)[i := p]" and cb: "ts_rpt_callbacks s' = ts_rpt_callbacks s"
    and c: "chain pt_next (ts_heap s') p as None"
    and b: "\<And>a. a \<in> set as \<Longrightarrow> \<exists>n. ts_heap s' a = Some n \<and> bucket_of (pt_pktId n) = Some i"
    and h: "\<And>a. a \<notin> set (B i) \<union> set as \<union> X \<union> Y \<Longrightarrow> ts_heap s' a = ts_heap s a"
    and d: "dom (ts_heap s') = Y \<union> set as \<union> (\<Union>j \<in> - {i}. set (B j))" and y: "Y \<inter> set as = {}" "\<And>j. j \<noteq> i \<Longrightarrow> Y \<inter> set (B j) = {}"
    and n: "\<And>j. j \<noteq> i \<Longrightarrow> set as \<inter> set (B j) = {}"
  shows "table s' (B(i := as)) Y"
proof -
  have o: "ts_heap s' a = ts_heap s a" if "a \<in> set (B j)" "j \<noteq> i" for a j
  proof (rule h)
    have "a \<notin> set (B i)" using that table_disjoint [OF t] by blast
    moreover have "a \<notin> X" using t that(1) unfolding table_def by blast
    moreover have "a \<notin> Y" "a \<notin> set as" using that y(2) n by blast+
    ultimately show "a \<notin> set (B i) \<union> set as \<union> X \<union> Y" by simp
  qed
  have "chain pt_next (ts_heap s') (ts_gHashTab s ! j) (B j) None" if "j < 1000" "j \<noteq> i" for j
    using tableD(2) [OF t that(1)] chain_cong [of "B j" pt_next "ts_heap s'" "ts_heap s"] o that by simp
  moreover have "\<exists>n. ts_heap s' a = Some n \<and> bucket_of (pt_pktId n) = Some j" if "a \<in> set (B j)" "j \<noteq> i" for a j
    using tableD(3) [OF t that(1)] o [OF that] by simp
  moreover have "(\<Union>j. set ((B(i := as)) j)) = set as \<union> (\<Union>j \<in> - {i}. set (B j))" by (auto split: if_splits)
  ultimately show ?thesis
    using assms by (auto simp: table_def nth_list_update fun_upd_def)
qed

section \<open>Insertion\<close>

text \<open>An entry is a node without its link.\<close>

definition entry_at :: "'w timer_state \<Rightarrow> nat \<Rightarrow> raw_proto_pkt_timer_t" where
  "entry_at s a = (the (ts_heap s a))\<lparr>pt_next := None\<rparr>"

text \<open>\<open>same_globals s s'\<close>: only the table and the rest of the system may differ.\<close>

definition same_globals :: "'w timer_state \<Rightarrow> 'w timer_state \<Rightarrow> bool" where
  "same_globals s s' \<longleftrightarrow> ts_rpt_callbacks s' = ts_rpt_callbacks s \<and> ts_init_done s' = ts_init_done s \<and> ts_queryId s' = ts_queryId s"

lemma last_node_chain:
  "chain pt_next (ts_heap s) (Some a) (a # as) None \<Longrightarrow> last_node s a = Some (last (a # as))"
proof (induction as arbitrary: a)
  case Nil
  then show ?case by (auto simp: last_node_def intro!: while_opt_done)
next
  case (Cons b as)
  then obtain n where n: "ts_heap s a = Some n" "pt_next n = Some b" by auto
  then have "last_node s a = last_node s b" unfolding last_node_def by (intro while_opt_step) simp_all
  moreover have "chain pt_next (ts_heap s) (Some b) (b # as) None" using Cons.prems n by auto
  ultimately show ?case using Cons.IH [of b] by simp
qed

text \<open>\<open>linked s B X i a n s'\<close>: the node \<open>n\<close> has been added at \<open>a\<close> as the last of bucket \<open>i\<close>.\<close>

definition linked :: "'w timer_state \<Rightarrow> (nat \<Rightarrow> nat list) \<Rightarrow> nat set \<Rightarrow> nat \<Rightarrow> nat \<Rightarrow> raw_proto_pkt_timer_t \<Rightarrow> 'w timer_state \<Rightarrow> bool" where
  "linked s B X i a n s' \<longleftrightarrow> table s' (B(i := B i @ [a])) X \<and> ts_world s' = ts_world s \<and> same_globals s s' \<and>
     entry_at s' a = n \<and> (\<forall>b \<in> dom (ts_heap s). entry_at s' b = entry_at s b)"

lemma table_dom: "table s B X \<Longrightarrow> dom (ts_heap s) = X \<union> set (B i) \<union> (\<Union>j \<in> - {i}. set (B j))"
  by (auto simp: table_def)

lemma table_new: "table s B X \<Longrightarrow> a \<notin> dom (ts_heap s) \<Longrightarrow> a \<notin> X \<and> a \<notin> set (B j)"
  by (auto simp: table_def)

lemma link_first:
  assumes t: "table s B X" and a: "a \<notin> dom (ts_heap s)" and i: "i < MAX_HASH_BUCKET" "bucket_of (pt_pktId n) = Some i"
    and n: "pt_next n = None" and e: "B i = []"
  shows "\<exists>s'. link_node i a (store_node a n s) = Some s' \<and> linked s B X i a n s'"
proof -
  define s' where "s' = (store_node a n s)\<lparr>ts_gHashTab := (ts_gHashTab s)[i := Some a]\<rparr>"
  have h: "ts_heap s' = (ts_heap s)(a \<mapsto> n)" by (simp add: s'_def store_node_def)
  have "link_node i a (store_node a n s) = Some s'"
    using table_bucket_null [OF t i(1)] e tableD(1) [OF t] i(1)
    by (simp add: link_node_def get_bucket_def set_bucket_def s'_def store_node_def)
  moreover have "table s' (B(i := [a])) X"
    by (rule table_replace [OF t i(1), where p = "Some a"])
       (use h n i table_new [OF t a] table_dom [OF t, of i] e t in \<open>auto simp: s'_def store_node_def table_def\<close>)
  ultimately show ?thesis
    using a h n e by (auto simp: linked_def s'_def store_node_def entry_at_def same_globals_def)
qed

lemma link_last:
  assumes t: "table s B X" and a: "a \<notin> dom (ts_heap s)" and i: "i < MAX_HASH_BUCKET" "bucket_of (pt_pktId n) = Some i"
    and n: "pt_next n = None" and e: "B i = b # bs"
  shows "\<exists>s'. link_node i a (store_node a n s) = Some s' \<and> linked s B X i a n s'"
proof -
  note new = table_new [OF t a]
  define c where "c = last (B i)"
  have Bi: "butlast (B i) @ [c] = B i" "butlast (B i) @ [c, a] = B i @ [a]"
    using e append_butlast_last_id [of "B i"] by (simp_all only: c_def) (metis append.assoc append_Cons append_Nil list.distinct(1))+
  have ch: "chain pt_next (ts_heap s) (Some b) (B i) None" "ts_gHashTab s ! i = Some b"
    using tableD(2) [OF t i(1)] e by auto
  have cB: "c \<in> set (B i)" using e by (simp add: c_def)
  then obtain m where m: "ts_heap s c = Some m" "bucket_of (pt_pktId m) = Some i" using tableD(3) [OF t] by blast
  have ca: "c \<noteq> a" using m(1) a by auto
  define s' where "s' = store_node c (m\<lparr>pt_next := Some a\<rparr>) (store_node a n s)"
  have h: "ts_heap s' = (ts_heap s)(c \<mapsto> m\<lparr>pt_next := Some a\<rparr>, a \<mapsto> n)"
    using ca by (simp add: s'_def store_node_def fun_upd_twist)
  have "chain pt_next (ts_heap (store_node a n s)) (Some b) (B i) None"
    using ch(1) new by (simp add: store_node_def chain_frame)
  then have "last_node (store_node a n s) b = Some c" by (simp only: e last_node_chain c_def)
  then have "link_node i a (store_node a n s) = Some s'"
    using tableD(1) [OF t] i(1) ch(2) m ca by (simp add: link_node_def get_bucket_def set_next_def s'_def store_node_def)
  moreover have "chain pt_next (ts_heap s') (Some b) (B i @ [a]) None"
    using chain_snoc [of pt_next "ts_heap s" "Some b" "butlast (B i)" c m "m\<lparr>pt_next := Some a\<rparr>" a n] ch(1) m(1) n new
    unfolding Bi h by simp
  then have "table s' (B(i := B i @ [a])) X"
  proof (rule table_replace [OF t i(1), where p = "Some b", rotated 2])
    show "ts_gHashTab s' = (ts_gHashTab s)[i := Some b]"
      using ch(2) by (simp add: s'_def store_node_def list_update_same_conv [symmetric] tableD(1) [OF t] i(1))
  qed (use h n m i new cB table_dom [OF t, of i] tableD(3) [OF t] table_disjoint [OF t] t in \<open>auto simp: s'_def store_node_def table_def\<close>)
  ultimately show ?thesis
    using a h n m by (auto simp: linked_def s'_def store_node_def entry_at_def same_globals_def)
qed

lemma insert_table:
  assumes t: "table s B X" and f: "fresh_alloc env" "tm_malloc env s = Some a" and i: "bucket_of (rp_pktId p) = Some i"
    and now: "time_now env s = (now, s1)"
  shows "\<exists>s'. insert_raw_pkt env (Some p) s = Some (0, s') \<and> linked s1 B X i a (new_timer_node p now) s' \<and> a \<notin> dom (ts_heap s)"
proof -
  obtain w where s1: "s1 = s\<lparr>ts_world := w\<rparr>" using now by (auto simp: time_now_def split: prod.splits)
  have a: "a \<notin> dom (ts_heap s)" using f by (auto simp: fresh_alloc_def)
  have "table s1 B X" "a \<notin> dom (ts_heap s1)" using t a by (simp_all add: s1 table_def)
  moreover have "bucket_of (pt_pktId (new_timer_node p now)) = Some i" "pt_next (new_timer_node p now) = None"
    using i by (simp_all add: new_timer_node_def)
  ultimately have "\<exists>s'. link_node i a (store_node a (new_timer_node p now) s1) = Some s' \<and> linked s1 B X i a (new_timer_node p now) s'"
    using link_first [of s1 B X a i] link_last [of s1 B X a i] bucket_of_less [OF i] by (cases "B i") auto
  then show ?thesis using a by (auto simp: insert_raw_pkt_def f now i)
qed

section \<open>Deletion\<close>

definition pkt_id_at :: "'w timer_state \<Rightarrow> nat \<Rightarrow> u32" where
  "pkt_id_at s a = pt_pktId (entry_at s a)"

lemma pkt_id_at_node: "ts_heap s a = Some n \<Longrightarrow> pkt_id_at s a = pt_pktId n"
  by (simp add: pkt_id_at_def entry_at_def)

text \<open>
  \<open>detached s B X i a s'\<close>: the node at \<open>a\<close> has been taken out
  of bucket \<open>i\<close> but is still allocated.
\<close>

definition detached :: "'w timer_state \<Rightarrow> (nat \<Rightarrow> nat list) \<Rightarrow> nat set \<Rightarrow> nat \<Rightarrow> nat \<Rightarrow> 'w timer_state \<Rightarrow> bool" where
  "detached s B X i a s' \<longleftrightarrow> table s' (B(i := remove1 a (B i))) (insert a X) \<and> ts_world s' = ts_world s \<and> same_globals s s' \<and>
     dom (ts_heap s') = dom (ts_heap s) \<and> (\<forall>b \<in> dom (ts_heap s). entry_at s' b = entry_at s b)"

lemma free_table:
  assumes t: "table s B (insert a X)" and "a \<notin> X"
  shows "\<exists>s'. free_node a s = Some s' \<and> table s' B X \<and> ts_world s' = ts_world s \<and> same_globals s s' \<and>
    (\<forall>b \<in> dom (ts_heap s) - {a}. entry_at s' b = entry_at s b)"
proof -
  have a: "ts_heap s a \<noteq> None" "\<And>i. a \<notin> set (B i)"
    using t table_detached [OF t] by (auto simp: table_def)
  moreover have "table (s\<lparr>ts_heap := (ts_heap s)(a := None)\<rparr>) B X"
    using t a assms(2) by (auto simp: table_def chain_frame)
  ultimately show ?thesis by (auto simp: free_node_def same_globals_def entry_at_def)
qed

lemma find_behind_none:
  "chain pt_next (ts_heap s) p bs None \<Longrightarrow> \<forall>b \<in> set bs. pkt_id_at s b \<noteq> k \<Longrightarrow> \<exists>q. find_behind s k (prev, p) = Some (q, None)"
proof (induction bs arbitrary: prev p)
  case Nil
  then show ?case by (auto simp: find_behind_def while_opt_done)
next
  case (Cons b bs)
  then obtain n where n: "p = Some b" "ts_heap s b = Some n" "chain pt_next (ts_heap s) (pt_next n) bs None" by auto
  then have "find_behind s k (prev, p) = find_behind s k (b, pt_next n)"
    using Cons.prems unfolding find_behind_def by (intro while_opt_step) (auto simp: pkt_id_at_node)
  then show ?case using Cons n by simp
qed

lemma find_behind_match:
  assumes "pkt_id_at s a = k"
  shows "chain pt_next (ts_heap s) p (xs @ a # ys) None \<Longrightarrow> \<forall>b \<in> set xs. pkt_id_at s b \<noteq> k \<Longrightarrow>
    find_behind s k (prev, p) = Some (last (prev # xs), Some a)"
proof (induction xs arbitrary: prev p)
  case Nil
  then show ?case using assms by (auto simp: find_behind_def pkt_id_at_node intro!: while_opt_done)
next
  case (Cons b xs)
  then obtain n where n: "p = Some b" "ts_heap s b = Some n" "chain pt_next (ts_heap s) (pt_next n) (xs @ a # ys) None" by auto
  then have "find_behind s k (prev, p) = find_behind s k (b, pt_next n)"
    using Cons.prems unfolding find_behind_def by (intro while_opt_step) (auto simp: pkt_id_at_node)
  then show ?case using Cons n by simp
qed

lemma unlink_first:
  assumes t: "table s B X" and i: "i < MAX_HASH_BUCKET" and e: "B i = a # bs" and n: "ts_heap s a = Some n"
  shows "\<exists>s'. set_bucket i (pt_next n) s = Some s' \<and> detached s B X i a s'"
proof -
  define s' where "s' = s\<lparr>ts_gHashTab := (ts_gHashTab s)[i := pt_next n]\<rparr>"
  have nd: "a \<notin> set bs" using tableD(5) [OF t, of i] e by simp
  note aX = table_detached [OF t, of i, unfolded e]
  have "set_bucket i (pt_next n) s = Some s'"
    using tableD(1) [OF t] i n by (simp add: set_bucket_def s'_def)
  moreover have "table s' (B(i := bs)) (insert a X)"
  proof (rule table_replace [OF t i, where p = "pt_next n"])
    show "chain pt_next (ts_heap s') (pt_next n) bs None" using tableD(2) [OF t i] e n by (simp add: s'_def)
    show "dom (ts_heap s') = insert a X \<union> set bs \<union> (\<Union>j \<in> - {i}. set (B j))" using table_dom [OF t, of i] e by (auto simp: s'_def)
    show "insert a X \<inter> set bs = {}" using aX nd by auto
  qed (use e n nd tableD(3) [OF t, of _ i] table_disjoint [OF t] t in \<open>auto simp: s'_def table_def\<close>)
  ultimately show ?thesis
    using e by (auto simp: detached_def s'_def same_globals_def entry_at_def)
qed

lemma unlink_behind:
  assumes t: "table s B X" and i: "i < MAX_HASH_BUCKET" and e: "B i = xs @ c # a # ys" and n: "ts_heap s a = Some n"
  shows "\<exists>s'. set_next c (pt_next n) s = Some s' \<and> detached s B X i a s'"
proof -
  obtain m where m: "ts_heap s c = Some m" "bucket_of (pt_pktId m) = Some i" using tableD(3) [OF t, of c i] e by auto
  define s' where "s' = store_node c (m\<lparr>pt_next := pt_next n\<rparr>) s"
  have nd: "a \<noteq> c" "a \<notin> set xs" "a \<notin> set ys" using tableD(5) [OF t, of i] e by auto
  then have r: "remove1 a (B i) = xs @ c # ys" using e by (simp add: remove1_append)
  note aX = table_detached [OF t, of i, unfolded e]
  have "set_next c (pt_next n) s = Some s'" using m by (simp add: set_next_def s'_def)
  moreover have "table s' (B(i := xs @ c # ys)) (insert a X)"
  proof (rule table_replace [OF t i, where p = "ts_gHashTab s ! i"])
    show "chain pt_next (ts_heap s') (ts_gHashTab s ! i) (xs @ c # ys) None"
      using chain_unlink [of pt_next "ts_heap s" _ xs c a ys n "m\<lparr>pt_next := pt_next n\<rparr>"] tableD(2) [OF t i] e n
      by (simp add: s'_def store_node_def)
    show "dom (ts_heap s') = insert a X \<union> set (xs @ c # ys) \<union> (\<Union>j \<in> - {i}. set (B j))"
      using table_dom [OF t, of i] e m by (auto simp: s'_def store_node_def)
    show "insert a X \<inter> set (xs @ c # ys) = {}" using aX nd by auto
  qed (use e n m nd tableD(1) [OF t] tableD(3) [OF t, of _ i] table_disjoint [OF t] i t in \<open>auto simp: s'_def store_node_def table_def\<close>)
  ultimately show ?thesis
    using e m r by (auto simp: detached_def s'_def store_node_def same_globals_def entry_at_def)
qed

text \<open>\<open>removed s B X i a s'\<close>: the node at \<open>a\<close> has been taken out of bucket \<open>i\<close> and freed.\<close>

definition removed :: "'w timer_state \<Rightarrow> (nat \<Rightarrow> nat list) \<Rightarrow> nat set \<Rightarrow> nat \<Rightarrow> nat \<Rightarrow> 'w timer_state \<Rightarrow> bool" where
  "removed s B X i a s' \<longleftrightarrow> table s' (B(i := remove1 a (B i))) X \<and> ts_world s' = ts_world s \<and> same_globals s s' \<and>
     (\<forall>b \<in> dom (ts_heap s) - {a}. entry_at s' b = entry_at s b)"

lemma detached_free:
  assumes "table s B X" and "a \<in> set (B i)" and d: "detached s B X i a s'"
  shows "\<exists>s''. free_node a s' = Some s'' \<and> removed s B X i a s''"
proof -
  have "a \<notin> X" using table_detached [OF assms(1), of i] assms(2) by auto
  moreover have "table s' (B(i := remove1 a (B i))) (insert a X)" using d by (simp add: detached_def)
  ultimately obtain s'' where s'': "free_node a s' = Some s''" "table s'' (B(i := remove1 a (B i))) X" "ts_world s'' = ts_world s'"
    "same_globals s' s''" "\<forall>b \<in> dom (ts_heap s') - {a}. entry_at s'' b = entry_at s' b"
    using free_table [of s' _ a X] by blast
  then show ?thesis using d by (auto simp: detached_def removed_def same_globals_def)
qed

lemma delete_none:
  assumes t: "table s B X" and k: "k \<noteq> 0" "bucket_of k = Some i" and none: "\<forall>a \<in> set (B i). pkt_id_at s a \<noteq> k"
  shows "delete_raw_pkt k out s = Some (if B i = [] then (-1, (0, RPT_OWNER_FIRST), s) else (0, out, s))"
proof (cases "B i")
  case Nil
  then show ?thesis
    using table_bucket_null [OF t bucket_of_less [OF k(2)]] tableD(4) [OF t bucket_of_less [OF k(2)]] k by (simp add: delete_raw_pkt_def)
next
  case (Cons h bs)
  then obtain n where n: "ts_heap s h = Some n" "ts_gHashTab s ! i = Some h" "chain pt_next (ts_heap s) (pt_next n) bs None"
    using tableD(2) [OF t bucket_of_less [OF k(2)]] by auto
  obtain q where "find_behind s k (h, pt_next n) = Some (q, None)"
    using find_behind_none [OF n(3), of k h] none Cons by auto
  then show ?thesis
    using tableD(4) [OF t bucket_of_less [OF k(2)]] k n none Cons by (simp add: delete_raw_pkt_def pkt_id_at_node)
qed

lemma delete_match:
  assumes t: "table s B X" and k: "k \<noteq> 0" "bucket_of k = Some i" and e: "B i = xs @ a # ys"
    and m: "pkt_id_at s a = k" "\<forall>b \<in> set xs. pkt_id_at s b \<noteq> k"
  shows "\<exists>s'. delete_raw_pkt k out s = Some (0, (pt_context (entry_at s a), pt_owner (entry_at s a)), s') \<and> removed s B X i a s'"
proof -
  note il = bucket_of_less [OF k(2)]
  have aB: "a \<in> set (B i)" using e by simp
  then obtain n where n: "ts_heap s a = Some n" using tableD(3) [OF t] by blast
  then have ctx: "pt_context n = pt_context (entry_at s a)" "pt_owner n = pt_owner (entry_at s a)" by (simp_all add: entry_at_def)
  show ?thesis
  proof (cases xs)
    case Nil
    have "B i = a # ys" using e Nil by simp
    then obtain s1 s2 where "set_bucket i (pt_next n) s = Some s1" "free_node a s1 = Some s2" "removed s B X i a s2"
      using unlink_first [OF t il _ n] detached_free [OF t aB] by blast
    then show ?thesis
      using tableD(2) [OF t il] tableD(4) [OF t il] k n m e Nil ctx by (auto simp: delete_raw_pkt_def pkt_id_at_node)
  next
    case (Cons h zs)
    then obtain m' where h: "ts_heap s h = Some m'" "ts_gHashTab s ! i = Some h" "chain pt_next (ts_heap s) (pt_next m') (zs @ a # ys) None"
      using tableD(2) [OF t il] e by auto
    have f: "find_behind s k (h, pt_next m') = Some (last xs, Some a)"
      using find_behind_match [OF m(1) h(3), of h] m(2) Cons by simp
    have "B i = butlast xs @ last xs # a # ys" using e Cons append_butlast_last_id [of xs] by simp
    then obtain s1 s2 where "set_next (last xs) (pt_next n) s = Some s1" "free_node a s1 = Some s2" "removed s B X i a s2"
      using unlink_behind [OF t il _ n] detached_free [OF t aB] by blast
    then show ?thesis
      using f h tableD(4) [OF t il] k n m Cons ctx by (auto simp: delete_raw_pkt_def pkt_id_at_node)
  qed
qed

end
