(* ===== verification/Raw_Proto_Pass.thy ===== *)
theory Raw_Proto_Pass
  imports Raw_Proto_Table
begin

text \<open>
  The retransmission pass over a bucket, as a function on the list of its
  entries.
\<close>

section \<open>The retry interval\<close>

lemma uceil_eq: "uceil x2 = (x2 + 1) div 2"
  by (auto simp: uceil_def Let_def)

lemma round_float_exact: "m < 2 ^ 24 \<Longrightarrow> round_float m = m"
  by (simp add: round_float_def)

definition retry_gap :: "int \<Rightarrow> int" where
  "retry_gap n = 2 ^ nat (n - 1) + 1"

lemma calculate_retry_interval_eq:
  assumes "1 \<le> n" and "n < 24"
  shows "calculate_retry_interval n = Some (nat (retry_gap n))"
proof -
  define k where "k = nat (n - 1)"
  then have k: "n = int k + 1" "k < 23" using assms by auto
  then have "(2::nat) ^ Suc k < 2 ^ 24" by (intro power_strict_increasing) auto
  then have "uceil (round_float (2 + (2 ^ Suc k - 1))) = 2 ^ k + 1"
    by (simp add: round_float_exact uceil_eq)
  moreover have "nat n = Suc k" "nat (n - 1) = k" using k by auto
  ultimately show ?thesis using assms by (simp add: calculate_retry_interval_def retry_gap_def nat_add_distrib nat_power_eq)
qed

section \<open>What a pass does to the entries\<close>

text \<open>
  A callback that leaves the table alone: it changes the rest of the system
  in a way that depends only on its arguments.
\<close>

type_synonym 'w callback_effect = "nat \<Rightarrow> raw_proto_retransmit_status_t \<Rightarrow> bytes \<Rightarrow> nat \<Rightarrow> int \<Rightarrow> 'w \<Rightarrow> 'w"

definition calls_only :: "'w timer_env \<Rightarrow> 'w callback_effect \<Rightarrow> bool" where
  "calls_only env cw \<longleftrightarrow> (\<forall>f status pkt context owner s.
     tm_call env f status pkt context owner s = Some (s\<lparr>ts_world := cw f status pkt context owner (ts_world s)\<rparr>))"

definition report :: "'w callback_effect \<Rightarrow> nat option list \<Rightarrow> raw_proto_pkt_timer_t \<Rightarrow> 'w \<Rightarrow> 'w" where
  "report cw cbs e w = (if IS_VALID_RPT_OWNER (pt_owner e) then (case cbs ! nat (pt_owner e) of
       None \<Rightarrow> w
     | Some f \<Rightarrow> cw f RAW_PROTO_MAX_NUM_RETRANSMIT_EXCEEDED (pt_rawPkt e) (pt_context e) (pt_owner e) w) else w)"

fun pass_entries :: "'w timer_env \<Rightarrow> 'w callback_effect \<Rightarrow> nat option list \<Rightarrow> raw_proto_pkt_timer_t list \<Rightarrow> 'w \<Rightarrow>
    raw_proto_pkt_timer_t list \<times> 'w" where
  "pass_entries env cw cbs [] w = ([], w)"
| "pass_entries env cw cbs (e # es) w = (case tm_time env w of (now, w) \<Rightarrow>
     if now - pt_lastSentTime e \<ge> retry_gap (pt_transmitCount e) then
       (if pt_transmitCount e \<le> pt_maxNumRetransmit e then
          (case tm_time env w of (now, w) \<Rightarrow>
             (case pass_entries env cw cbs es (tm_sendto env (pt_sockFd e) (pt_rawPkt e) (pt_addr e) w) of
                (es', w') \<Rightarrow> (e\<lparr>pt_transmitCount := pt_transmitCount e + 1, pt_lastSentTime := now\<rparr> # es', w')))
        else pass_entries env cw cbs es (report cw cbs e w))
     else (case pass_entries env cw cbs es w of (es', w') \<Rightarrow> (e # es', w')))"

definition ok_entry :: "raw_proto_pkt_timer_t \<Rightarrow> bool" where
  "ok_entry e \<longleftrightarrow> 1 \<le> pt_transmitCount e \<and> pt_transmitCount e \<le> pt_maxNumRetransmit e + 1 \<and> pt_maxNumRetransmit e < 23"

lemma pass_entries_ok:
  "list_all ok_entry es \<Longrightarrow> list_all ok_entry (fst (pass_entries env cw cbs es w))"
proof (induction env cw cbs es w rule: pass_entries.induct)
  case (2 env cw cbs e es w)
  then show ?case by (auto simp: ok_entry_def split: prod.splits)
qed simp

text \<open>The pointers of the loop: \<open>ds\<close> has been visited and kept, \<open>rs\<close> is still to come.\<close>

definition hd_ptr :: "nat list \<Rightarrow> ptr" where
  "hd_ptr rs = (case rs of [] \<Rightarrow> None | a # _ \<Rightarrow> Some a)"

definition prev_ptr :: "nat list \<Rightarrow> nat list \<Rightarrow> ptr" where
  "prev_ptr ds rs = (if ds = [] then hd_ptr rs else Some (last ds))"

lemma hd_ptr_simps [simp]: "hd_ptr [] = None" "hd_ptr (a # rs) = Some a"
  by (simp_all add: hd_ptr_def)

lemma call_owner_report:
  assumes "calls_only env cw" and "ts_rpt_callbacks s = cbs"
  shows "call_owner env n s = Some (s\<lparr>ts_world := report cw cbs n (ts_world s)\<rparr>)"
  using assms by (auto simp: call_owner_def report_def calls_only_def split: option.splits)

lemma table_world: "table (s\<lparr>ts_world := w\<rparr>) B X = table s B X"
  by (simp add: table_def)

lemma entry_at_world: "entry_at (s\<lparr>ts_world := w\<rparr>) = entry_at s"
  by (simp add: entry_at_def fun_eq_iff)

lemma next_of_node:
  assumes "table s B X" and "i < MAX_HASH_BUCKET" and "B i = ds @ a # rs" and "ts_heap s a = Some n"
  shows "pt_next n = hd_ptr rs"
  using tableD(2) [OF assms(1,2)] assms(3,4) by (cases rs) (auto simp: chain_append)

lemma head_of_bucket: "table s B X \<Longrightarrow> i < MAX_HASH_BUCKET \<Longrightarrow> ts_gHashTab s ! i = hd_ptr (B i)"
  using tableD(2) [of s B X i] by (cases "B i") auto

text \<open>Unlinking as the pass does it, for the first node of a bucket and for a later one.\<close>

lemma unlink_in_pass:
  assumes t: "table s B X" and i: "i < MAX_HASH_BUCKET" and e: "B i = ds @ a # rs" and n: "ts_heap s a = Some n"
  shows "\<exists>s1 s2. set_next (the (prev_ptr ds (a # rs))) (pt_next n) s = Some s1 \<and> ts_heap s1 a = Some n \<and> detached s B X i a s2 \<and>
    (if Some a = hd_ptr (B i) then map_option (\<lambda>s. (pt_next n, pt_next n, s)) (set_bucket i (pt_next n) s1)
     else Some (prev_ptr ds (a # rs), hd_ptr (B i), s1)) = Some (prev_ptr ds rs, hd_ptr (ds @ rs), s2)"
proof (cases ds rule: rev_cases)
  case Nil
  have "set_next a (pt_next n) s = Some s" using n by (simp add: set_next_def store_node_def fun_upd_idem)
  then show ?thesis
    using unlink_first [OF t i _ n, of rs] next_of_node [OF t i e n] e n Nil by (auto simp: prev_ptr_def)
next
  case (snoc xs c)
  then obtain s1 where s1: "set_next c (pt_next n) s = Some s1" "detached s B X i a s1"
    using unlink_behind [OF t i _ n, of xs c rs] e by auto
  have "c \<noteq> a" "Some a \<noteq> hd_ptr (B i)" using tableD(5) [OF t, of i] e snoc by (cases xs; auto)+
  moreover from this have "ts_heap s1 a = Some n" using s1(1) n by (auto simp: set_next_def store_node_def)
  ultimately show ?thesis using s1 e snoc by (cases xs) (auto simp: prev_ptr_def)
qed

lemma give_up_entry:
  assumes t: "table s B X" and i: "i < MAX_HASH_BUCKET" and e: "B i = ds @ a # rs" and n: "ts_heap s a = Some n" and c: "calls_only env cw"
  shows "\<exists>s'. give_up env i a (prev_ptr ds (a # rs)) (hd_ptr (B i)) s = Some (hd_ptr rs, prev_ptr ds rs, hd_ptr (ds @ rs), s') \<and>
    removed (s\<lparr>ts_world := report cw (ts_rpt_callbacks s) n (ts_world s)\<rparr>) B X i a s'"
proof -
  obtain s1 s2 where s1: "set_next (the (prev_ptr ds (a # rs))) (pt_next n) s = Some s1" "ts_heap s1 a = Some n" "detached s B X i a s2"
    "(if Some a = hd_ptr (B i) then map_option (\<lambda>s. (pt_next n, pt_next n, s)) (set_bucket i (pt_next n) s1)
     else Some (prev_ptr ds (a # rs), hd_ptr (B i), s1)) = Some (prev_ptr ds rs, hd_ptr (ds @ rs), s2)"
    using unlink_in_pass [OF t i e n] by blast
  let ?w = "report cw (ts_rpt_callbacks s) n (ts_world s)"
  have co: "call_owner env n s2 = Some (s2\<lparr>ts_world := ?w\<rparr>)"
    using call_owner_report [OF c, of s2 "ts_rpt_callbacks s"] s1(3) by (simp add: detached_def same_globals_def)
  have "detached (s\<lparr>ts_world := ?w\<rparr>) B X i a (s2\<lparr>ts_world := ?w\<rparr>)"
    using s1(3) by (simp add: detached_def same_globals_def table_world entry_at_world)
  then obtain s' where "free_node a (s2\<lparr>ts_world := ?w\<rparr>) = Some s'" "removed (s\<lparr>ts_world := ?w\<rparr>) B X i a s'"
    using detached_free [of "s\<lparr>ts_world := ?w\<rparr>" B X a i] t e by (auto simp: table_world)
  moreover obtain p where p: "prev_ptr ds (a # rs) = Some p" by (cases "ds = []") (simp_all add: prev_ptr_def)
  moreover have "prev_ptr ds rs = Some p" if "Some a \<noteq> hd_ptr (B i)" using s1(4) p that by simp
  ultimately show ?thesis
    using s1 co n next_of_node [OF t i e n] by (cases "Some a = hd_ptr (B i)") (auto simp: give_up_def)
qed

lemma time_now_eq: "time_now env s = (fst (tm_time env (ts_world s)), s\<lparr>ts_world := snd (tm_time env (ts_world s))\<rparr>)"
  by (simp add: time_now_def split: prod.splits)

definition stamped :: "raw_proto_pkt_timer_t \<Rightarrow> int \<Rightarrow> raw_proto_pkt_timer_t" where
  "stamped n now = n\<lparr>pt_transmitCount := pt_transmitCount n + 1, pt_lastSentTime := now\<rparr>"

lemma table_stamp: "table s B X \<Longrightarrow> ts_heap s a = Some n \<Longrightarrow> table (store_node a (stamped n now) s) B X"
proof -
  assume t: "table s B X" and n: "ts_heap s a = Some n"
  have "chain pt_next ((ts_heap s)(a \<mapsto> stamped n now)) p as None = chain pt_next (ts_heap s) p as None" for p as
    by (rule chain_cong) (simp add: n stamped_def)
  moreover have "bucket_of (pt_pktId n) = Some i" if "a \<in> set (B i)" for i using tableD(3) [OF t that] n by simp
  ultimately show ?thesis using t n by (auto simp: table_def store_node_def stamped_def)
qed

text \<open>The three outcomes of an iteration.\<close>

lemma step_entry:
  assumes t: "table s B X" and i: "i < MAX_HASH_BUCKET" and e: "B i = ds @ a # rs" and n: "ts_heap s a = Some n"
    and ok: "ok_entry n" and c: "calls_only env cw" and w: "tm_time env (ts_world s) = (now, w)" "tm_time env w = (now2, w2)"
  shows "if now - pt_lastSentTime n < retry_gap (pt_transmitCount n) then
      retransmit_step env i (hd_ptr (a # rs), prev_ptr ds (a # rs), hd_ptr (B i), s) =
        Some (hd_ptr rs, prev_ptr (ds @ [a]) rs, hd_ptr (B i), s\<lparr>ts_world := w\<rparr>)
    else if pt_transmitCount n \<le> pt_maxNumRetransmit n then
      retransmit_step env i (hd_ptr (a # rs), prev_ptr ds (a # rs), hd_ptr (B i), s) =
        Some (hd_ptr rs, prev_ptr (ds @ [a]) rs, hd_ptr (B i),
          (store_node a (stamped n now2) s)\<lparr>ts_world := tm_sendto env (pt_sockFd n) (pt_rawPkt n) (pt_addr n) w2\<rparr>)
    else \<exists>s'. retransmit_step env i (hd_ptr (a # rs), prev_ptr ds (a # rs), hd_ptr (B i), s) =
        Some (hd_ptr rs, prev_ptr ds rs, hd_ptr (ds @ rs), s') \<and>
        removed (s\<lparr>ts_world := report cw (ts_rpt_callbacks s) n w\<rparr>) B X i a s'"
proof -
  have gap: "calculate_retry_interval (pt_transmitCount n) = Some (nat (retry_gap (pt_transmitCount n)))"
    using ok by (intro calculate_retry_interval_eq) (auto simp: ok_entry_def)
  have pos: "0 \<le> retry_gap (pt_transmitCount n)" by (simp add: retry_gap_def)
  have nx: "pt_next n = hd_ptr rs" by (rule next_of_node [OF t i e n])
  have g: "\<exists>s'. give_up env i a (prev_ptr ds (a # rs)) (hd_ptr (B i)) (s\<lparr>ts_world := w\<rparr>) = Some (hd_ptr rs, prev_ptr ds rs, hd_ptr (ds @ rs), s') \<and>
    removed (s\<lparr>ts_world := report cw (ts_rpt_callbacks s) n w\<rparr>) B X i a s'"
    using give_up_entry [of "s\<lparr>ts_world := w\<rparr>" B X i ds a rs n env cw] t i e n c by (simp add: table_world)
  show ?thesis
    using g gap pos nx n w
    by (auto simp: retransmit_step_def time_now_eq stamped_def prev_ptr_def store_node_def Let_def not_less)
qed

definition pass_loop :: "'w timer_env \<Rightarrow> nat \<Rightarrow> 'w pass_state \<Rightarrow> 'w pass_state option" where
  "pass_loop env i = while_opt (\<lambda>(cur, _). cur \<noteq> None) (retransmit_step env i)"

lemma pass_loop_step: "retransmit_step env i (Some a, p, h, s) = Some st \<Longrightarrow> pass_loop env i (Some a, p, h, s) = pass_loop env i st"
  unfolding pass_loop_def by (rule while_opt_step) simp_all

lemma ok_entry_node: "ts_heap s a = Some n \<Longrightarrow> ok_entry (entry_at s a) = ok_entry n"
  by (simp add: entry_at_def ok_entry_def)

definition passed :: "'w timer_env \<Rightarrow> 'w callback_effect \<Rightarrow> 'w timer_state \<Rightarrow> (nat \<Rightarrow> nat list) \<Rightarrow> nat set \<Rightarrow> nat \<Rightarrow>
    nat list \<Rightarrow> nat list \<Rightarrow> 'w timer_state \<Rightarrow> nat list \<Rightarrow> bool" where
  "passed env cw s B X i ds rs s' as \<longleftrightarrow> table s' (B(i := ds @ as)) X \<and> same_globals s s' \<and>
     pass_entries env cw (ts_rpt_callbacks s) (map (entry_at s) rs) (ts_world s) = (map (entry_at s') as, ts_world s') \<and>
     (\<forall>b \<in> dom (ts_heap s) - set rs. entry_at s' b = entry_at s b)"

text \<open>One more entry, kept or dropped, in front of a pass over the others.\<close>

lemma passed_kept:
  assumes t: "table s B X" and e: "B i = ds @ a # rs" and n: "ts_heap s a = Some n" and t1: "table s1 B X"
    and s1: "ts_heap s1 = (ts_heap s)(a \<mapsto> n')" "same_globals s s1" and p: "passed env cw s1 B X i (ds @ [a]) rs s' as"
    and w: "\<And>es w'. pass_entries env cw (ts_rpt_callbacks s) (map (entry_at s) rs) (ts_world s1) = (es, w') \<Longrightarrow>
      pass_entries env cw (ts_rpt_callbacks s) (entry_at s a # map (entry_at s) rs) (ts_world s) = (n'\<lparr>pt_next := None\<rparr> # es, w')"
  shows "passed env cw s B X i ds (a # rs) s' (a # as)"
proof -
  have a: "a \<notin> set rs" using tableD(5) [OF t, of i] e by simp
  have same: "entry_at s1 b = entry_at s b" if "b \<noteq> a" for b using that s1(1) by (simp add: entry_at_def)
  then have rs: "map (entry_at s1) rs = map (entry_at s) rs" using a by (auto intro!: same)
  have "entry_at s' a = entry_at s1 a" using p a s1(1) by (auto simp: passed_def)
  then have ea: "entry_at s' a = n'\<lparr>pt_next := None\<rparr>" using s1(1) by (simp add: entry_at_def)
  have "dom (ts_heap s1) = dom (ts_heap s)" using n s1(1) by auto
  then show ?thesis
    using p rs ea w same s1(2) by (auto simp: passed_def same_globals_def)
qed

lemma passed_dropped:
  assumes t: "table s B X" and e: "B i = ds @ a # rs" and r: "removed (s\<lparr>ts_world := w\<rparr>) B X i a s1"
    and p: "passed env cw s1 (B(i := ds @ rs)) X i ds rs s' as"
    and w: "pass_entries env cw (ts_rpt_callbacks s) (entry_at s a # map (entry_at s) rs) (ts_world s) =
      pass_entries env cw (ts_rpt_callbacks s) (map (entry_at s) rs) w"
  shows "passed env cw s B X i ds (a # rs) s' as"
proof -
  have a: "a \<notin> set rs" using tableD(5) [OF t, of i] e by simp
  have same: "entry_at s1 b = entry_at s b" if "b \<in> dom (ts_heap s)" "b \<noteq> a" for b
    using that r by (auto simp: removed_def entry_at_world)
  have "set rs \<subseteq> dom (ts_heap s)" using tableD(3) [OF t, of _ i] e by fastforce
  then have rs: "map (entry_at s1) rs = map (entry_at s) rs" using a by (auto intro!: same)
  have "b \<in> dom (ts_heap s1)" if "b \<in> dom (ts_heap s)" "b \<noteq> a" for b
  proof -
    have "dom (ts_heap s1) = X \<union> (\<Union>j. set ((B(i := remove1 a (B i))) j))" using r by (simp add: removed_def table_def)
    moreover have "b \<in> X \<or> (\<exists>j. b \<in> set (B j))" using t that(1) by (auto simp: table_def)
    ultimately show ?thesis using that(2) by (auto simp: in_set_remove1)
  qed
  then show ?thesis
    using p rs same r w by (auto simp: passed_def removed_def same_globals_def)
qed

text \<open>Whether a pass at the given time keeps an entry.\<close>

definition dropped :: "int \<Rightarrow> raw_proto_pkt_timer_t \<Rightarrow> bool" where
  "dropped now e \<longleftrightarrow> retry_gap (pt_transmitCount e) \<le> now - pt_lastSentTime e \<and> pt_maxNumRetransmit e < pt_transmitCount e"

lemma step_kept:
  assumes t: "table s B X" and i: "i < MAX_HASH_BUCKET" and e: "B i = ds @ a # rs" and n: "ts_heap s a = Some n"
    and ok: "ok_entry n" and c: "calls_only env cw" and d: "\<not> dropped (fst (tm_time env (ts_world s))) n"
  shows "\<exists>s1 n'. retransmit_step env i (hd_ptr (a # rs), prev_ptr ds (a # rs), hd_ptr (B i), s) =
      Some (hd_ptr rs, prev_ptr (ds @ [a]) rs, hd_ptr (B i), s1) \<and>
    table s1 B X \<and> ts_heap s1 = (ts_heap s)(a \<mapsto> n') \<and> same_globals s s1 \<and>
    (\<forall>es es' w'. pass_entries env cw (ts_rpt_callbacks s) es (ts_world s1) = (es', w') \<longrightarrow>
      pass_entries env cw (ts_rpt_callbacks s) (entry_at s a # es) (ts_world s) = (n'\<lparr>pt_next := None\<rparr> # es', w'))"
proof -
  obtain now w now2 w2 where w: "tm_time env (ts_world s) = (now, w)" "tm_time env w = (now2, w2)" by fastforce
  note step = step_entry [OF t i e n ok c w]
  have en: "entry_at s a = n\<lparr>pt_next := None\<rparr>" using n by (simp add: entry_at_def)
  show ?thesis
  proof (cases "now - pt_lastSentTime n < retry_gap (pt_transmitCount n)")
    case True
    then show ?thesis
      using step t n w en by (intro exI [of _ "s\<lparr>ts_world := w\<rparr>"] exI [of _ n]) (auto simp: table_world same_globals_def fun_upd_idem)
  next
    case False
    let ?s = "(store_node a (stamped n now2) s)\<lparr>ts_world := tm_sendto env (pt_sockFd n) (pt_rawPkt n) (pt_addr n) w2\<rparr>"
    from False show ?thesis
      using step table_stamp [OF t n] d w en
      by (intro exI [of _ ?s] exI [of _ "stamped n now2"])
         (auto simp: table_world same_globals_def dropped_def store_node_def stamped_def)
  qed
qed

lemma step_dropped:
  assumes t: "table s B X" and i: "i < MAX_HASH_BUCKET" and e: "B i = ds @ a # rs" and n: "ts_heap s a = Some n"
    and ok: "ok_entry n" and c: "calls_only env cw" and d: "dropped (fst (tm_time env (ts_world s))) n"
  shows "\<exists>s1 w. retransmit_step env i (hd_ptr (a # rs), prev_ptr ds (a # rs), hd_ptr (B i), s) =
      Some (hd_ptr rs, prev_ptr ds rs, hd_ptr (ds @ rs), s1) \<and> removed (s\<lparr>ts_world := w\<rparr>) B X i a s1 \<and>
    (\<forall>es. pass_entries env cw (ts_rpt_callbacks s) (entry_at s a # es) (ts_world s) = pass_entries env cw (ts_rpt_callbacks s) es w)"
proof -
  obtain now w now2 w2 where w: "tm_time env (ts_world s) = (now, w)" "tm_time env w = (now2, w2)" by fastforce
  have en: "entry_at s a = n\<lparr>pt_next := None\<rparr>" using n by (simp add: entry_at_def)
  have "\<forall>es. pass_entries env cw (ts_rpt_callbacks s) (entry_at s a # es) (ts_world s) =
      pass_entries env cw (ts_rpt_callbacks s) es (report cw (ts_rpt_callbacks s) n w)"
    using d w by (simp add: en dropped_def report_def split: option.split)
  moreover have "\<exists>s1. retransmit_step env i (hd_ptr (a # rs), prev_ptr ds (a # rs), hd_ptr (B i), s) =
      Some (hd_ptr rs, prev_ptr ds rs, hd_ptr (ds @ rs), s1) \<and> removed (s\<lparr>ts_world := report cw (ts_rpt_callbacks s) n w\<rparr>) B X i a s1"
    using step_entry [OF t i e n ok c w] d w by (auto simp: dropped_def)
  ultimately show ?thesis by blast
qed

lemma pass_rest:
  assumes c: "calls_only env cw" and i: "i < MAX_HASH_BUCKET"
  shows "table s B X \<Longrightarrow> B i = ds @ rs \<Longrightarrow> \<forall>a \<in> set rs. ok_entry (entry_at s a) \<Longrightarrow>
    \<exists>s' as p h. pass_loop env i (hd_ptr rs, prev_ptr ds rs, hd_ptr (B i), s) = Some (None, p, h, s') \<and> passed env cw s B X i ds rs s' as"
proof (induction rs arbitrary: s B ds)
  case Nil
  then show ?case by (auto simp: pass_loop_def while_opt_done passed_def same_globals_def intro!: exI [of _ "[]"])
next
  case (Cons a rs)
  note t = Cons.prems(1) and e = Cons.prems(2)
  obtain n where n: "ts_heap s a = Some n" using tableD(3) [OF t, of a i] e by auto
  have nd: "a \<notin> set rs" "a \<notin> set ds" using tableD(5) [OF t, of i] e by auto
  have ok: "ok_entry n" using Cons.prems(3) ok_entry_node [OF n] by simp
  show ?case
  proof (cases "dropped (fst (tm_time env (ts_world s))) n")
    case False
    then obtain s1 n' where s1: "retransmit_step env i (hd_ptr (a # rs), prev_ptr ds (a # rs), hd_ptr (B i), s) =
        Some (hd_ptr rs, prev_ptr (ds @ [a]) rs, hd_ptr (B i), s1)"
      "table s1 B X" "ts_heap s1 = (ts_heap s)(a \<mapsto> n')" "same_globals s s1"
      "\<And>es es' w'. pass_entries env cw (ts_rpt_callbacks s) es (ts_world s1) = (es', w') \<Longrightarrow>
        pass_entries env cw (ts_rpt_callbacks s) (entry_at s a # es) (ts_world s) = (n'\<lparr>pt_next := None\<rparr> # es', w')"
      using step_kept [OF t i e n ok c] by blast
    have "\<forall>b \<in> set rs. entry_at s1 b = entry_at s b" using nd s1(3) by (auto simp: entry_at_def)
    then obtain s' as p h where s': "pass_loop env i (hd_ptr rs, prev_ptr (ds @ [a]) rs, hd_ptr (B i), s1) = Some (None, p, h, s')"
      "passed env cw s1 B X i (ds @ [a]) rs s' as"
      using Cons.IH [OF s1(2), of "ds @ [a]"] Cons.prems by auto
    have "passed env cw s B X i ds (a # rs) s' (a # as)" by (rule passed_kept [OF t e n s1(2-4) s'(2) s1(5)])
    then show ?thesis using s1(1) s'(1) by (auto dest!: pass_loop_step)
  next
    case True
    then obtain s1 w where s1: "retransmit_step env i (hd_ptr (a # rs), prev_ptr ds (a # rs), hd_ptr (B i), s) =
        Some (hd_ptr rs, prev_ptr ds rs, hd_ptr (ds @ rs), s1)" "removed (s\<lparr>ts_world := w\<rparr>) B X i a s1"
      "\<forall>es. pass_entries env cw (ts_rpt_callbacks s) (entry_at s a # es) (ts_world s) = pass_entries env cw (ts_rpt_callbacks s) es w"
      using step_dropped [OF t i e n ok c] by blast
    have t1: "table s1 (B(i := ds @ rs)) X" using s1(2) e nd by (simp add: removed_def remove1_append)
    have "\<forall>b \<in> set rs. entry_at s1 b = entry_at s b"
      using nd s1(2) tableD(3) [OF t, of _ i] e by (fastforce simp: removed_def entry_at_world)
    then obtain s' as p h where s': "pass_loop env i (hd_ptr rs, prev_ptr ds rs, hd_ptr (ds @ rs), s1) = Some (None, p, h, s')"
      "passed env cw s1 (B(i := ds @ rs)) X i ds rs s' as"
      using Cons.IH [OF t1, of ds] Cons.prems(3) unfolding fun_upd_same by (metis list.set_intros(2))
    then show ?thesis
      using s1(1) passed_dropped [OF t e s1(2) s'(2) s1(3) [rule_format]] by (auto dest!: pass_loop_step)
  qed
qed

lemma retransmit_bucket_table:
  assumes c: "calls_only env cw" and i: "i < MAX_HASH_BUCKET" and t: "table s B X" and ok: "\<forall>a \<in> set (B i). ok_entry (entry_at s a)"
  shows "\<exists>s' as. retransmit_bucket env i s = Some s' \<and> passed env cw s B X i [] (B i) s' as"
proof -
  obtain s' as p h where "pass_loop env i (hd_ptr (B i), prev_ptr [] (B i), hd_ptr (B i), s) = Some (None, p, h, s')"
    "passed env cw s B X i [] (B i) s' as"
    using pass_rest [OF c i t, of "[]" "B i"] ok by auto
  then show ?thesis
    using tableD(4) [OF t i] head_of_bucket [OF t i] by (auto simp: retransmit_bucket_def pass_loop_def prev_ptr_def)
qed

end
