(* ===== verification/Raw_Proto_Store.thy ===== *)
theory Raw_Proto_Store
  imports Raw_Proto_Pass
begin

text \<open>
  The timer as its callers see it: for every query id the queries that wait,
  in the order in which they were started.
\<close>

section \<open>What the table represents\<close>

type_synonym queries = "nat \<Rightarrow> raw_proto_pkt_timer_t list"

definition represents :: "'w timer_state \<Rightarrow> queries \<Rightarrow> bool" where
  "represents s Q \<longleftrightarrow> (\<exists>B. table s B {} \<and> Q = (\<lambda>i. map (entry_at s) (B i)))"

lemma representsE:
  assumes "represents s Q"
  obtains B where "table s B {}" and "Q = (\<lambda>i. map (entry_at s) (B i))"
  using assms by (auto simp: represents_def)

lemma represents_bucket: "represents s Q \<Longrightarrow> e \<in> set (Q i) \<Longrightarrow> bucket_of (pt_pktId e) = Some i"
  by (erule representsE) (auto simp: entry_at_def dest!: tableD(3))

lemma represents_beyond: "represents s Q \<Longrightarrow> MAX_HASH_BUCKET \<le> i \<Longrightarrow> Q i = []"
  by (auto simp: represents_def table_def)

lemma represents_world: "represents (s\<lparr>ts_world := w\<rparr>) Q = represents s Q"
  by (simp add: represents_def table_world entry_at_world)

lemma represents_unique: "represents s Q \<Longrightarrow> represents s Q' \<Longrightarrow> Q = Q'"
proof (elim representsE)
  fix B B' assume t: "table s B {}" "table s B' {}" and q: "Q = (\<lambda>i. map (entry_at s) (B i))" "Q' = (\<lambda>i. map (entry_at s) (B' i))"
  have "B i = B' i" for i
    using t chain_unique [of pt_next "ts_heap s" "ts_gHashTab s ! i" "B i" "B' i"] by (cases "i < 1000") (auto simp: table_def)
  then show ?thesis using q by simp
qed

section \<open>The operations\<close>

lemma insert_represents:
  assumes r: "represents s Q" and f: "fresh_alloc env" "tm_malloc env s = Some a" and i: "bucket_of (rp_pktId p) = Some i"
    and now: "tm_time env (ts_world s) = (now, w)"
  shows "\<exists>s'. insert_raw_pkt env (Some p) s = Some (0, s') \<and> represents s' (Q(i := Q i @ [new_timer_node p now])) \<and>
    ts_world s' = w \<and> same_globals s s'"
proof -
  obtain B where B: "table s B {}" "Q = (\<lambda>i. map (entry_at s) (B i))" using r by (rule representsE)
  have "time_now env s = (now, s\<lparr>ts_world := w\<rparr>)" using now by (simp add: time_now_def)
  then obtain s' where s': "insert_raw_pkt env (Some p) s = Some (0, s')" "linked (s\<lparr>ts_world := w\<rparr>) B {} i a (new_timer_node p now) s'"
    using insert_table [OF B(1) f i] by blast
  have "b \<in> dom (ts_heap s)" if "b \<in> set (B j)" for b j using B(1) that by (auto simp: table_def)
  then have "(\<lambda>j. map (entry_at s') ((B(i := B i @ [a])) j)) = Q(i := Q i @ [new_timer_node p now])"
    using s'(2) by (auto simp: linked_def B(2) entry_at_world fun_eq_iff)
  then show ?thesis using s' by (auto simp: represents_def linked_def same_globals_def)
qed

fun drop_first :: "('a \<Rightarrow> bool) \<Rightarrow> 'a list \<Rightarrow> 'a list" where
  "drop_first P [] = []"
| "drop_first P (x # xs) = (if P x then xs else x # drop_first P xs)"

lemma drop_first_split: "\<forall>x \<in> set xs. \<not> P x \<Longrightarrow> P a \<Longrightarrow> drop_first P (xs @ a # ys) = xs @ ys"
  by (induction xs) auto

lemma drop_first_none: "\<forall>x \<in> set xs. \<not> P x \<Longrightarrow> drop_first P xs = xs"
  by (induction xs) auto

lemma filter_drop_first:
  "filter P (drop_first P xs) = tl (filter P xs)"
  "(\<And>x. P x \<Longrightarrow> \<not> R x) \<Longrightarrow> filter R (drop_first P xs) = filter R xs"
  by (induction xs) (auto dest: filter_id_conv [THEN iffD1])

definition context_of :: "raw_proto_pkt_timer_t list \<Rightarrow> nat \<times> int" where
  "context_of es = (case es of [] \<Rightarrow> (0, RPT_OWNER_FIRST) | e # _ \<Rightarrow> (pt_context e, pt_owner e))"

lemma delete_represents:
  assumes r: "represents s Q" and k: "k \<noteq> 0" "bucket_of k = Some i"
  shows "\<exists>s' rc. delete_raw_pkt k (0, RPT_OWNER_FIRST) s = Some (rc, context_of (filter (\<lambda>e. pt_pktId e = k) (Q i)), s') \<and>
    (rc < 0 \<longrightarrow> filter (\<lambda>e. pt_pktId e = k) (Q i) = []) \<and>
    represents s' (Q(i := drop_first (\<lambda>e. pt_pktId e = k) (Q i))) \<and> ts_world s' = ts_world s \<and> same_globals s s'"
proof -
  obtain B where B: "table s B {}" "Q = (\<lambda>i. map (entry_at s) (B i))" using r by (rule representsE)
  show ?thesis
  proof (cases "\<exists>a \<in> set (B i). pkt_id_at s a = k")
    case False
    then have none: "\<forall>e \<in> set (Q i). pt_pktId e \<noteq> k" by (auto simp: B(2) pkt_id_at_def)
    then have "filter (\<lambda>e. pt_pktId e = k) (Q i) = []" by (simp add: filter_empty_conv)
    then show ?thesis
      using delete_none [OF B(1) k] False r drop_first_none [OF none] by (auto simp: context_of_def same_globals_def)
  next
    case True
    then obtain xs a ys where e: "B i = xs @ a # ys" "pkt_id_at s a = k" "\<forall>b \<in> set xs. pkt_id_at s b \<noteq> k"
      using split_list_first_prop [of "B i" "\<lambda>a. pkt_id_at s a = k"] by blast
    obtain s' where s': "delete_raw_pkt k (0, RPT_OWNER_FIRST) s = Some (0, (pt_context (entry_at s a), pt_owner (entry_at s a)), s')"
      "removed s B {} i a s'"
      using delete_match [OF B(1) k e] by blast
    have d: "distinct (xs @ a # ys)" using tableD(5) [OF B(1), of i] e(1) by simp
    have first: "filter (\<lambda>e. pt_pktId e = k) (Q i) = entry_at s a # filter (\<lambda>e. pt_pktId e = k) (map (entry_at s) ys)"
      "drop_first (\<lambda>e. pt_pktId e = k) (Q i) = map (entry_at s) (xs @ ys)"
      using e by (auto simp: B(2) pkt_id_at_def filter_empty_conv drop_first_split)
    have same: "entry_at s' b = entry_at s b" if "b \<in> set (B j)" "b \<noteq> a" for b j
      using s'(2) tableD(3) [OF B(1) that(1)] that(2) by (auto simp: removed_def)
    have "a \<in> set (B j) \<Longrightarrow> j = i" for j using table_disjoint [OF B(1), of a] e(1) by auto
    then have "(\<lambda>j. map (entry_at s') ((B(i := xs @ ys)) j)) = Q(i := map (entry_at s) (xs @ ys))"
      using same [of _ i] same d e(1) by (fastforce simp: B(2) fun_eq_iff)
    moreover have "table s' (B(i := xs @ ys)) {}" using s'(2) d e(1) by (simp add: removed_def remove1_append)
    ultimately have "represents s' (Q(i := map (entry_at s) (xs @ ys)))" unfolding represents_def by metis
    then show ?thesis using s' first by (auto simp: context_of_def removed_def)
  qed
qed

section \<open>A pass over the whole table\<close>

definition waiting :: "queries \<Rightarrow> raw_proto_pkt_timer_t list" where
  "waiting Q = concat (map Q [0..<MAX_HASH_BUCKET])"

lemma pass_entries_append:
  "pass_entries env cw cbs (es @ fs) w = (case pass_entries env cw cbs es w of (es', w) \<Rightarrow>
     (case pass_entries env cw cbs fs w of (fs', w) \<Rightarrow> (es' @ fs', w)))"
  by (induction es arbitrary: w) (auto split: prod.splits)

lemma bucket_represents:
  assumes c: "calls_only env cw" and i: "i < MAX_HASH_BUCKET" and r: "represents s Q" and ok: "\<forall>e \<in> set (Q i). ok_entry e"
  shows "\<exists>s' es. retransmit_bucket env i s = Some s' \<and> represents s' (Q(i := es)) \<and> same_globals s s' \<and>
    pass_entries env cw (ts_rpt_callbacks s) (Q i) (ts_world s) = (es, ts_world s')"
proof -
  obtain B where B: "table s B {}" "Q = (\<lambda>i. map (entry_at s) (B i))" using r by (rule representsE)
  obtain s' as where s': "retransmit_bucket env i s = Some s'" "passed env cw s B {} i [] (B i) s' as"
    using retransmit_bucket_table [OF c i B(1)] ok by (auto simp: B(2))
  have t: "table s' (B(i := as)) {}" using s'(2) by (simp add: passed_def)
  have "entry_at s' b = entry_at s b" if "b \<in> set (B j)" "j \<noteq> i" for b j
    using s'(2) tableD(3) [OF B(1) that(1)] table_disjoint [OF B(1) that(1), of i] that(2) by (auto simp: passed_def)
  then have "(\<lambda>j. map (entry_at s') ((B(i := as)) j)) = Q(i := map (entry_at s') as)" by (auto simp: B(2) fun_eq_iff)
  then have "represents s' (Q(i := map (entry_at s') as))" using t unfolding represents_def by metis
  then show ?thesis using s' by (auto simp: passed_def B(2))
qed

lemma buckets_represents:
  assumes c: "calls_only env cw"
  shows "represents s Q \<Longrightarrow> distinct is \<Longrightarrow> \<forall>i \<in> set is. i < MAX_HASH_BUCKET \<and> (\<forall>e \<in> set (Q i). ok_entry e) \<Longrightarrow>
    \<exists>s' Q'. for_each (retransmit_bucket env) is s = Some s' \<and> represents s' Q' \<and> same_globals s s' \<and> (\<forall>j. j \<notin> set is \<longrightarrow> Q' j = Q j) \<and>
      pass_entries env cw (ts_rpt_callbacks s) (concat (map Q is)) (ts_world s) = (concat (map Q' is), ts_world s')"
proof (induction "is" arbitrary: s Q)
  case Nil
  then show ?case by (auto simp: same_globals_def)
next
  case (Cons i "is")
  then obtain s1 es where s1: "retransmit_bucket env i s = Some s1" "represents s1 (Q(i := es))" "same_globals s s1"
    "pass_entries env cw (ts_rpt_callbacks s) (Q i) (ts_world s) = (es, ts_world s1)"
    using bucket_represents [OF c, of i s Q] by auto
  have eq: "map (Q(i := es)) is = map Q is" using Cons.prems(2) by auto
  have pre: "\<forall>j \<in> set is. j < MAX_HASH_BUCKET \<and> (\<forall>e \<in> set ((Q(i := es)) j). ok_entry e)" using Cons.prems by auto
  obtain s' Q' where s': "for_each (retransmit_bucket env) is s1 = Some s'" "represents s' Q'" "same_globals s1 s'"
    "\<forall>j. j \<notin> set is \<longrightarrow> Q' j = (Q(i := es)) j"
    "pass_entries env cw (ts_rpt_callbacks s1) (concat (map Q is)) (ts_world s1) = (concat (map Q' is), ts_world s')"
    using Cons.IH [OF s1(2) _ pre] Cons.prems(2) unfolding eq by auto
  then show ?case
    using s1 Cons.prems(2) by (auto simp: pass_entries_append same_globals_def)
qed

definition timer_queries :: "'w timer_state \<Rightarrow> queries \<Rightarrow> bool" where
  "timer_queries s Q \<longleftrightarrow> represents s Q \<and> (\<forall>e \<in> set (waiting Q). ok_entry e)"

lemma waiting_iff: "represents s Q \<Longrightarrow> e \<in> set (waiting Q) \<longleftrightarrow> (\<exists>i. e \<in> set (Q i))"
proof -
  assume "represents s Q"
  then have "e \<in> set (Q i) \<Longrightarrow> i < MAX_HASH_BUCKET" for i using represents_beyond [of s Q i] by (cases "i < 1000") auto
  then show ?thesis by (auto simp: waiting_def)
qed

lemma retransmit_represents:
  assumes c: "calls_only env cw" and r: "timer_queries s Q"
  shows "\<exists>s' Q'. raw_pkt_retransmit env s = Some s' \<and> timer_queries s' Q' \<and> same_globals s s' \<and>
    pass_entries env cw (ts_rpt_callbacks s) (waiting Q) (ts_world s) = (waiting Q', ts_world s')"
proof -
  have r1: "represents s Q" and ok: "list_all ok_entry (waiting Q)" using r by (auto simp: timer_queries_def list_all_iff)
  obtain s' Q' where s': "raw_pkt_retransmit env s = Some s'" "represents s' Q'" "same_globals s s'"
    "pass_entries env cw (ts_rpt_callbacks s) (waiting Q) (ts_world s) = (waiting Q', ts_world s')"
    using buckets_represents [OF c r1, of "[0..<1000]"] r waiting_iff [OF r1]
    by (auto simp: timer_queries_def raw_pkt_retransmit_def waiting_def)
  moreover have "list_all ok_entry (waiting Q')" using pass_entries_ok [OF ok, of env cw "ts_rpt_callbacks s" "ts_world s"] s'(4) by simp
  ultimately show ?thesis by (auto simp: timer_queries_def list_all_iff)
qed

end
