(* ===== verification/Raw_Proto_Queries.thy ===== *)
theory Raw_Proto_Queries
  imports Raw_Proto_Store
begin

text \<open>
  What the timer promises its callers, as an interface: a query that has been
  started is handed back by the stop with its id, once and in order.  The
  interface is interpreted on \<open>raw_proto_timer_start\<close> and
  \<open>raw_proto_timer_stop\<close>.  All states a program can bring the timer
  into satisfy the invariant of the table.
\<close>

section \<open>The interface\<close>

type_synonym owned_context = "nat \<times> int"

definition first_context :: "owned_context list \<Rightarrow> owned_context" where
  "first_context cs = (case cs of [] \<Rightarrow> (0, RPT_OWNER_FIRST) | c # _ \<Rightarrow> c)"

datatype 'q store_op = Start u32 'q | Stop u32
datatype store_out = Started int | Stopped owned_context

fun run_store :: "(u32 \<Rightarrow> 'q \<Rightarrow> 's \<Rightarrow> (int \<times> 's) option) \<Rightarrow> (u32 \<Rightarrow> 's \<Rightarrow> (owned_context \<times> 's) option) \<Rightarrow>
    'q store_op list \<Rightarrow> 's \<Rightarrow> (store_out list \<times> 's) option" where
  "run_store start stop [] s = Some ([], s)"
| "run_store start stop (Start k q # ops) s = do {
     (rc, s) \<leftarrow> start k q s; (outs, s) \<leftarrow> run_store start stop ops s; Some (Started rc # outs, s) }"
| "run_store start stop (Stop k # ops) s = do {
     (c, s) \<leftarrow> stop k s; (outs, s) \<leftarrow> run_store start stop ops s; Some (Stopped c # outs, s) }"

text \<open>
  The specification: a queue of contexts per query id.  Given the results of
  a run it says whether they are right and what is left.
\<close>

fun accepts :: "('q \<Rightarrow> owned_context) \<Rightarrow> 'q store_op list \<Rightarrow> store_out list \<Rightarrow> (u32 \<Rightarrow> owned_context list) \<Rightarrow>
    (u32 \<Rightarrow> owned_context list) option" where
  "accepts ctx [] [] P = Some P"
| "accepts ctx (Start k q # ops) (Started rc # outs) P = accepts ctx ops outs (if rc = 0 then P(k := P k @ [ctx q]) else P)"
| "accepts ctx (Stop k # ops) (Stopped c # outs) P =
     (if c = first_context (P k) then accepts ctx ops outs (P(k := tl (P k))) else None)"
| "accepts ctx _ _ P = None"

fun op_key :: "'q store_op \<Rightarrow> u32" where
  "op_key (Start k q) = k"
| "op_key (Stop k) = k"

fun op_query_ok :: "('q \<Rightarrow> bool) \<Rightarrow> 'q store_op \<Rightarrow> bool" where
  "op_query_ok ok (Start k q) = ok q"
| "op_query_ok ok (Stop k) = True"

locale query_store =
  fixes repr :: "'s \<Rightarrow> (u32 \<Rightarrow> owned_context list) \<Rightarrow> bool"
    and start :: "u32 \<Rightarrow> 'q \<Rightarrow> 's \<Rightarrow> (int \<times> 's) option"
    and stop :: "u32 \<Rightarrow> 's \<Rightarrow> (owned_context \<times> 's) option"
    and key_ok :: "u32 \<Rightarrow> bool" and query_ok :: "'q \<Rightarrow> bool" and ctx :: "'q \<Rightarrow> owned_context"
  assumes start_law: "repr s P \<Longrightarrow> key_ok k \<Longrightarrow> query_ok q \<Longrightarrow>
      \<exists>rc s'. start k q s = Some (rc, s') \<and> repr s' (if rc = 0 then P(k := P k @ [ctx q]) else P)"
    and stop_law: "repr s P \<Longrightarrow> key_ok k \<Longrightarrow> \<exists>s'. stop k s = Some (first_context (P k), s') \<and> repr s' (P(k := tl (P k)))"
begin

lemma run_accepted:
  "repr s P \<Longrightarrow> \<forall>x \<in> set ops. key_ok (op_key x) \<and> op_query_ok query_ok x \<Longrightarrow>
   \<exists>outs s' P'. run_store start stop ops s = Some (outs, s') \<and> accepts ctx ops outs P = Some P' \<and> repr s' P'"
proof (induction ops arbitrary: s P)
  case Nil
  then show ?case by auto
next
  case (Cons x ops)
  have pre: "\<forall>x \<in> set ops. key_ok (op_key x) \<and> op_query_ok query_ok x" using Cons.prems(2) by simp
  show ?case
  proof (cases x)
    case (Start k q)
    then obtain rc s1 where s1: "start k q s = Some (rc, s1)" "repr s1 (if rc = 0 then P(k := P k @ [ctx q]) else P)"
      using start_law [OF Cons.prems(1), of k q] Cons.prems(2) by auto
    obtain outs s' P' where "run_store start stop ops s1 = Some (outs, s')"
      "accepts ctx ops outs (if rc = 0 then P(k := P k @ [ctx q]) else P) = Some P'" "repr s' P'"
      using Cons.IH [OF s1(2) pre] by blast
    then show ?thesis using s1(1) Start by (intro exI [of _ "Started rc # outs"]) auto
  next
    case (Stop k)
    then obtain s1 where s1: "stop k s = Some (first_context (P k), s1)" "repr s1 (P(k := tl (P k)))"
      using stop_law [OF Cons.prems(1), of k] Cons.prems(2) by auto
    obtain outs s' P' where "run_store start stop ops s1 = Some (outs, s')" "accepts ctx ops outs (P(k := tl (P k))) = Some P'" "repr s' P'"
      using Cons.IH [OF s1(2) pre] by blast
    then show ?thesis using s1(1) Stop by (intro exI [of _ "Stopped (first_context (P k)) # outs"]) auto
  qed
qed

text \<open>Operations on other ids do not disturb a query; its first answer finds its context, a second one finds nothing.\<close>

lemma accepts_other:
  "accepts ctx ops outs P = Some P' \<Longrightarrow> \<forall>x \<in> set ops. op_key x \<noteq> k \<Longrightarrow> P' k = P k"
  by (induction ctx ops outs P arbitrary: P' rule: accepts.induct) (auto split: if_splits)

lemma answered_once:
  assumes r: "repr s P" and k: "key_ok k" "query_ok q" "P k = []" and s1: "start k q s = Some (0, s1)"
    and ops: "\<forall>x \<in> set ops. key_ok (op_key x) \<and> op_query_ok query_ok x \<and> op_key x \<noteq> k"
  shows "\<exists>outs s2 s3 s4. run_store start stop ops s1 = Some (outs, s2) \<and> stop k s2 = Some (ctx q, s3) \<and>
    stop k s3 = Some ((0, RPT_OWNER_FIRST), s4)"
proof -
  have r1: "repr s1 (P(k := [ctx q]))" using start_law [OF r k(1,2)] s1 k(3) by auto
  obtain outs s2 P2 where s2: "run_store start stop ops s1 = Some (outs, s2)" "accepts ctx ops outs (P(k := [ctx q])) = Some P2" "repr s2 P2"
    using run_accepted [OF r1] ops by blast
  have "P2 k = [ctx q]" using accepts_other [OF s2(2)] ops by simp
  then obtain s3 where s3: "stop k s2 = Some (ctx q, s3)" "repr s3 (P2(k := []))"
    using stop_law [OF s2(3) k(1)] by (auto simp: first_context_def)
  then show ?thesis using s2(1) stop_law [OF s3(2) k(1)] by (auto simp: first_context_def)
qed

end

section \<open>The timer provides it\<close>

definition pending :: "queries \<Rightarrow> u32 \<Rightarrow> raw_proto_pkt_timer_t list" where
  "pending Q k = (case bucket_of k of None \<Rightarrow> [] | Some i \<Rightarrow> filter (\<lambda>e. pt_pktId e = k) (Q i))"

definition timer_repr :: "'w timer_env \<Rightarrow> 'w timer_state \<Rightarrow> (u32 \<Rightarrow> owned_context list) \<Rightarrow> bool" where
  "timer_repr env s P \<longleftrightarrow> fresh_alloc env \<and> (\<exists>Q. timer_queries s Q \<and> P = (\<lambda>k. map (\<lambda>e. (pt_context e, pt_owner e)) (pending Q k)))"

definition start_query :: "'w timer_env \<Rightarrow> u32 \<Rightarrow> raw_packet_t \<Rightarrow> 'w timer_state \<Rightarrow> (int \<times> 'w timer_state) option" where
  "start_query env k p = raw_proto_timer_start env (Some (rp_data p)) (rp_len p) k (rp_retransmitInterval p) (rp_maxNumRetransmit p)
     (rp_sockFd p) (Some (rp_addr p)) (rp_context p) (rp_owner p)"

definition stop_query :: "u32 \<Rightarrow> 'w timer_state \<Rightarrow> (owned_context \<times> 'w timer_state) option" where
  "stop_query k s = do { (rc, c, s) \<leftarrow> raw_proto_timer_stop k True True s; c \<leftarrow> c; Some (c, s) }"

definition valid_id :: "u32 \<Rightarrow> bool" where
  "valid_id k \<longleftrightarrow> k \<noteq> 0 \<and> bucket_of k \<noteq> None"

definition valid_query :: "raw_packet_t \<Rightarrow> bool" where
  "valid_query p \<longleftrightarrow> rp_len p \<le> length (rp_data p) \<and> IS_VALID_RPT_OWNER (rp_owner p) \<and> 0 \<le> rp_maxNumRetransmit p \<and> rp_maxNumRetransmit p < 23"

definition query_context :: "raw_packet_t \<Rightarrow> owned_context" where
  "query_context p = (rp_context p, rp_owner p)"

text \<open>The entry a query becomes when it is started at a time.\<close>

definition query_entry :: "u32 \<Rightarrow> raw_packet_t \<Rightarrow> int \<Rightarrow> raw_proto_pkt_timer_t" where
  "query_entry k p now = new_timer_node (p\<lparr>rp_data := take (rp_len p) (rp_data p), rp_pktId := k\<rparr>) now"

definition has_room :: "'w timer_env \<Rightarrow> 'w timer_state \<Rightarrow> bool" where
  "has_room env s \<longleftrightarrow> tm_malloc_pkt env s \<and> tm_malloc env s \<noteq> None"

lemma start_query_eq:
  assumes "valid_query p"
  shows "start_query env k p s = (if tm_malloc_pkt env s
    then insert_raw_pkt env (Some (p\<lparr>rp_data := take (rp_len p) (rp_data p), rp_pktId := k\<rparr>)) s else Some (-4, s))"
proof -
  have "slots (rp_len p) (rp_data p) = Some (take (rp_len p) (rp_data p))" using assms by (simp add: valid_query_def slots_def)
  then show ?thesis using assms by (cases p) (simp add: start_query_def raw_proto_timer_start_def valid_query_def)
qed

lemma timer_queries_add:
  assumes "timer_queries s Q" and "represents s' (Q(i := Q i @ [e]))" and "ok_entry e"
  shows "timer_queries s' (Q(i := Q i @ [e]))"
  using assms waiting_iff [of s Q] waiting_iff [OF assms(2)] by (auto simp: timer_queries_def split: if_splits)

lemma start_queries:
  assumes r: "timer_queries s Q" and f: "fresh_alloc env" and k: "bucket_of k = Some i" and p: "valid_query p"
  shows "if has_room env s
    then \<exists>s'. start_query env k p s = Some (0, s') \<and> same_globals s s' \<and> ts_world s' = snd (tm_time env (ts_world s)) \<and>
      timer_queries s' (Q(i := Q i @ [query_entry k p (fst (tm_time env (ts_world s)))]))
    else \<exists>rc. start_query env k p s = Some (rc, s) \<and> rc < 0"
proof (cases "has_room env s")
  case True
  obtain now w where now: "tm_time env (ts_world s) = (now, w)" by fastforce
  obtain a where a: "tm_malloc env s = Some a" "tm_malloc_pkt env s" using True by (auto simp: has_room_def)
  have "represents s Q" using r by (simp add: timer_queries_def)
  from insert_represents [OF this f a(1) _ now, of "p\<lparr>rp_data := take (rp_len p) (rp_data p), rp_pktId := k\<rparr>" i]
  obtain s' where s': "start_query env k p s = Some (0, s')" "represents s' (Q(i := Q i @ [query_entry k p now]))" "ts_world s' = w" "same_globals s s'"
    using k a(2) by (auto simp: start_query_eq [OF p] query_entry_def)
  have "ok_entry (query_entry k p now)" using p by (simp add: ok_entry_def query_entry_def new_timer_node_def valid_query_def)
  then show ?thesis using True s' now timer_queries_add [OF r s'(2)] by auto
next
  case False
  then show ?thesis by (auto simp: start_query_eq [OF p] has_room_def insert_raw_pkt_def)
qed

lemma pending_add:
  "bucket_of k = Some i \<Longrightarrow> pt_pktId e = k \<Longrightarrow> pending (Q(i := Q i @ [e])) = (pending Q)(k := pending Q k @ [e])"
  by (auto simp: pending_def fun_eq_iff split: option.split)

lemma pending_drop:
  assumes "bucket_of k = Some i"
  shows "pending (Q(i := drop_first (\<lambda>e. pt_pktId e = k) (Q i))) = (pending Q)(k := tl (pending Q k))"
proof
  fix k' show "pending (Q(i := drop_first (\<lambda>e. pt_pktId e = k) (Q i))) k' = ((pending Q)(k := tl (pending Q k))) k'"
    using assms filter_drop_first(1) [of "\<lambda>e. pt_pktId e = k" "Q i"]
      filter_drop_first(2) [of "\<lambda>e. pt_pktId e = k" "\<lambda>e. pt_pktId e = k'" "Q i"]
    by (cases "k' = k") (auto simp: pending_def split: option.split)
qed

lemma drop_first_subset: "set (drop_first P xs) \<subseteq> set xs"
  by (induction xs) auto

lemma stop_queries:
  assumes r: "timer_queries s Q" and k: "k \<noteq> 0" "bucket_of k = Some i"
  shows "\<exists>s'. stop_query k s = Some (context_of (pending Q k), s') \<and> same_globals s s' \<and> ts_world s' = ts_world s \<and>
    timer_queries s' (Q(i := drop_first (\<lambda>e. pt_pktId e = k) (Q i)))"
proof -
  have r1: "represents s Q" using r by (simp add: timer_queries_def)
  from delete_represents [OF this k] obtain s' rc
    where s': "delete_raw_pkt k (0, RPT_OWNER_FIRST) s = Some (rc, context_of (filter (\<lambda>e. pt_pktId e = k) (Q i)), s')"
      "rc < 0 \<longrightarrow> filter (\<lambda>e. pt_pktId e = k) (Q i) = []" "represents s' (Q(i := drop_first (\<lambda>e. pt_pktId e = k) (Q i)))"
      "ts_world s' = ts_world s" "same_globals s s'" by auto
  have "timer_queries s' (Q(i := drop_first (\<lambda>e. pt_pktId e = k) (Q i)))"
    using r s'(3) waiting_iff [OF r1] waiting_iff [OF s'(3)] drop_first_subset [of "\<lambda>e. pt_pktId e = k" "Q i"]
    by (fastforce simp: timer_queries_def split: if_splits)
  moreover have "stop_query k s = Some (context_of (pending Q k), s')"
    using s'(1,2) k by (auto simp: stop_query_def raw_proto_timer_stop_def pending_def context_of_def)
  ultimately show ?thesis using s'(4,5) by blast
qed

lemma context_of_first: "context_of es = first_context (map (\<lambda>e. (pt_context e, pt_owner e)) es)"
  by (simp add: context_of_def first_context_def split: list.split)

definition contexts :: "queries \<Rightarrow> u32 \<Rightarrow> owned_context list" where
  "contexts Q k = map (\<lambda>e. (pt_context e, pt_owner e)) (pending Q k)"

lemma timer_repr_queries: "timer_queries s Q \<Longrightarrow> fresh_alloc env \<Longrightarrow> contexts Q = P \<Longrightarrow> timer_repr env s P"
  by (auto simp: timer_repr_def contexts_def fun_eq_iff)

lemma timer_reprE:
  assumes "timer_repr env s P"
  obtains Q where "fresh_alloc env" and "timer_queries s Q" and "P = contexts Q"
  using assms by (auto simp: timer_repr_def contexts_def [abs_def])

lemma contexts_add:
  assumes "bucket_of k = Some i"
  shows "contexts (Q(i := Q i @ [query_entry k q t])) = (contexts Q)(k := contexts Q k @ [query_context q])"
  using pending_add [OF assms, of "query_entry k q t" Q]
  by (auto simp: contexts_def fun_eq_iff query_entry_def new_timer_node_def query_context_def)

lemma contexts_drop:
  assumes "bucket_of k = Some i"
  shows "contexts (Q(i := drop_first (\<lambda>e. pt_pktId e = k) (Q i))) = (contexts Q)(k := tl (contexts Q k))"
  using pending_drop [OF assms, of Q] by (auto simp: contexts_def fun_eq_iff map_tl)

interpretation timer_store: query_store "timer_repr env" "start_query env" stop_query valid_id valid_query query_context for env :: "'w timer_env"
proof
  fix s P k q assume "timer_repr env s P" and k: "valid_id k" and q: "valid_query q"
  then obtain Q where Q: "fresh_alloc env" "timer_queries s Q" "P = contexts Q" by (elim timer_reprE)
  obtain i where i: "bucket_of k = Some i" using k by (auto simp: valid_id_def)
  show "\<exists>rc s'. start_query env k q s = Some (rc, s') \<and> timer_repr env s' (if rc = 0 then P(k := P k @ [query_context q]) else P)"
  proof (cases "has_room env s")
    case True
    then obtain s' t where s': "start_query env k q s = Some (0, s')" "timer_queries s' (Q(i := Q i @ [query_entry k q t]))"
      using start_queries [OF Q(2,1) i q] by auto
    then have "timer_repr env s' (P(k := P k @ [query_context q]))" using timer_repr_queries [OF _ Q(1) contexts_add [OF i]] Q(3) by blast
    then show ?thesis using s'(1) by (intro exI [of _ 0] exI [of _ s']) simp
  next
    case False
    then obtain rc where rc: "start_query env k q s = Some (rc, s)" "rc < 0" using start_queries [OF Q(2,1) i q] by auto
    have "timer_repr env s P" using timer_repr_queries [OF Q(2,1)] Q(3) by simp
    then show ?thesis using rc by (intro exI [of _ rc] exI [of _ s]) simp
  qed
next
  fix s P k assume "timer_repr env s P" and k: "valid_id k"
  then obtain Q where Q: "fresh_alloc env" "timer_queries s Q" "P = contexts Q" by (elim timer_reprE)
  obtain i where i: "bucket_of k = Some i" "k \<noteq> 0" using k by (auto simp: valid_id_def)
  obtain s' where "stop_query k s = Some (context_of (pending Q k), s')" "timer_queries s' (Q(i := drop_first (\<lambda>e. pt_pktId e = k) (Q i)))"
    using stop_queries [OF Q(2) i(2,1)] by blast
  then show "\<exists>s'. stop_query k s = Some (first_context (P k), s') \<and> timer_repr env s' (P(k := tl (P k)))"
    using timer_repr_queries [OF _ Q(1) contexts_drop [OF i(1)]] Q(3) unfolding context_of_first contexts_def [symmetric] by blast
qed

section \<open>Reachable states\<close>

definition timer_boot :: "'w \<Rightarrow> 'w timer_state" where
  "timer_boot w = \<lparr>ts_heap = Map.empty, ts_gHashTab = replicate MAX_HASH_BUCKET None, ts_rpt_callbacks = replicate 5 None,
     ts_init_done = False, ts_queryId = 0, ts_world = w\<rparr>"

text \<open>The calls a program may make, and what the rest of the system does in between.\<close>

datatype timer_call =
    Init "nat option" int
  | Query u32 raw_packet_t
  | Answer u32
  | Pass
  | New_Id

definition timer_step :: "'w timer_env \<Rightarrow> timer_call \<Rightarrow> 'w timer_state \<Rightarrow> 'w timer_state option" where
  "timer_step env c s = (case c of
     Init callback owner \<Rightarrow> map_option snd (raw_proto_timer_init env callback owner s)
   | Query k p \<Rightarrow> map_option snd (start_query env k p s)
   | Answer k \<Rightarrow> map_option (snd \<circ> snd) (raw_proto_timer_stop k True True s)
   | Pass \<Rightarrow> raw_pkt_retransmit env s
   | New_Id \<Rightarrow> Some (snd (raw_proto_query_id_generate s)))"

definition may_call :: "timer_call \<Rightarrow> 'w timer_state \<Rightarrow> bool" where
  "may_call c s \<longleftrightarrow> (case c of
     Init callback owner \<Rightarrow> 0 \<le> owner \<and> owner \<le> RPT_OWNER_LAST
   | Query k p \<Rightarrow> ts_init_done s \<and> bucket_of k \<noteq> None \<and> valid_query p
   | Answer k \<Rightarrow> ts_init_done s \<and> bucket_of k \<noteq> None
   | Pass \<Rightarrow> ts_init_done s
   | New_Id \<Rightarrow> True)"

inductive timer_reaches :: "'w timer_env \<Rightarrow> 'w timer_state \<Rightarrow> bool" for env :: "'w timer_env" where
  boot: "timer_reaches env (timer_boot w)"
| call: "timer_reaches env s \<Longrightarrow> may_call c s \<Longrightarrow> timer_step env c s = Some s' \<Longrightarrow> timer_reaches env s'"
| world: "timer_reaches env s \<Longrightarrow> timer_reaches env (s\<lparr>ts_world := w\<rparr>)"

definition timer_inv :: "'w timer_state \<Rightarrow> bool" where
  "timer_inv s \<longleftrightarrow> (\<exists>Q. timer_queries s Q) \<and> (\<not> ts_init_done s \<longrightarrow> ts_heap s = Map.empty)"

lemma timer_queries_empty:
  assumes "ts_heap s = Map.empty" and "ts_gHashTab s = replicate MAX_HASH_BUCKET None" and "length (ts_rpt_callbacks s) = 5"
  shows "timer_queries s (\<lambda>_. [])"
  using assms by (auto simp: timer_queries_def represents_def table_def waiting_def intro!: exI [of _ "\<lambda>_. []"])

lemma timer_queries_cong:
  assumes "timer_queries s Q" and "ts_heap s' = ts_heap s" and "ts_gHashTab s' = ts_gHashTab s"
    and "length (ts_rpt_callbacks s') = length (ts_rpt_callbacks s)"
  shows "timer_queries s' Q"
proof -
  have "entry_at s' = entry_at s" "table s' = table s" using assms(2-4) by (auto simp: entry_at_def [abs_def] table_def [abs_def])
  then show ?thesis using assms(1) by (simp add: timer_queries_def represents_def)
qed

lemma timer_inv_cong:
  assumes "timer_inv s" and "ts_heap s' = ts_heap s" and "ts_gHashTab s' = ts_gHashTab s"
    and "length (ts_rpt_callbacks s') = length (ts_rpt_callbacks s)" and "ts_init_done s' = ts_init_done s"
  shows "timer_inv s'"
  using assms timer_queries_cong [OF _ assms(2-4)] unfolding timer_inv_def by metis

lemma timer_inv_empty:
  assumes "ts_heap s = Map.empty" and "ts_gHashTab s = replicate MAX_HASH_BUCKET None" and "length (ts_rpt_callbacks s) = 5"
  shows "timer_inv s"
  using timer_queries_empty [OF assms] assms(1) by (auto simp: timer_inv_def)

lemma init_inv:
  assumes "timer_inv s" and "0 \<le> owner" and "owner \<le> RPT_OWNER_LAST"
  shows "\<exists>rc s'. raw_proto_timer_init env callback owner s = Some (rc, s') \<and> timer_inv s'"
proof -
  obtain Q where Q: "timer_queries s Q" using assms(1) by (auto simp: timer_inv_def)
  then have l: "length (ts_rpt_callbacks s) = 5" by (auto simp: timer_queries_def represents_def table_def)
  have o: "nat owner < 5" using assms by auto
  show ?thesis
  proof (cases "ts_init_done s")
    case True
    have "timer_inv (s\<lparr>ts_rpt_callbacks := (ts_rpt_callbacks s)[nat owner := callback]\<rparr>)" by (rule timer_inv_cong [OF assms(1)]) simp_all
    then show ?thesis using True assms l o by (simp add: raw_proto_timer_init_def)
  next
    case False
    then have "ts_heap s = Map.empty" using assms(1) by (simp add: timer_inv_def)
    then have "timer_inv (s\<lparr>ts_gHashTab := replicate MAX_HASH_BUCKET None\<rparr>)"
      "timer_inv (s\<lparr>ts_gHashTab := replicate MAX_HASH_BUCKET None, ts_rpt_callbacks := (ts_rpt_callbacks s)[nat owner := callback]\<rparr>)"
      "timer_inv (s\<lparr>ts_gHashTab := replicate MAX_HASH_BUCKET None, ts_rpt_callbacks := (ts_rpt_callbacks s)[nat owner := callback],
         ts_init_done := True\<rparr>)"
      using l by (auto intro!: timer_inv_empty)
    then show ?thesis using False assms(2,3) l o
      by (cases "callback = None \<or> \<not> IS_VALID_RPT_OWNER owner \<or> \<not> tm_mutex_ok env"; cases "tm_unlock_ok env \<and> tm_thread_ok env")
         (auto simp: raw_proto_timer_init_def Let_def)
  qed
qed

lemma query_inv:
  assumes "timer_queries s Q" and "ts_init_done s" and "fresh_alloc env" and "bucket_of k = Some i" and "valid_query p"
  shows "\<exists>rc s'. start_query env k p s = Some (rc, s') \<and> timer_inv s'"
proof (cases "has_room env s")
  case True
  then obtain s' Q' where "start_query env k p s = Some (0, s')" "same_globals s s'" "timer_queries s' Q'"
    using start_queries [OF assms(1,3-5)] by auto
  then show ?thesis using assms(2) unfolding timer_inv_def same_globals_def by blast
next
  case False
  then obtain rc where "start_query env k p s = Some (rc, s)" using start_queries [OF assms(1,3-5)] by auto
  then show ?thesis using assms(1,2) unfolding timer_inv_def by blast
qed

lemma answer_inv:
  assumes "timer_queries s Q" and "ts_init_done s" and "bucket_of k = Some i"
  shows "\<exists>rc c s'. raw_proto_timer_stop k True True s = Some (rc, c, s') \<and> timer_inv s'"
proof (cases "k = 0")
  case True
  then show ?thesis using assms(1,2) by (auto simp: raw_proto_timer_stop_def timer_inv_def)
next
  case False
  then obtain c s' Q' where s': "stop_query k s = Some (c, s')" "same_globals s s'" "timer_queries s' Q'"
    using stop_queries [OF assms(1) _ assms(3)] by blast
  then have "timer_inv s'" using assms(2) unfolding timer_inv_def same_globals_def by blast
  then show ?thesis using s'(1) by (auto simp: stop_query_def split: bind_splits)
qed

lemma step_inv:
  assumes inv: "timer_inv s" and c: "may_call c s" and f: "fresh_alloc env" and w: "calls_only env cw"
  shows "\<exists>s'. timer_step env c s = Some s' \<and> timer_inv s'"
proof -
  obtain Q where Q: "timer_queries s Q" using inv by (auto simp: timer_inv_def)
  show ?thesis
  proof (cases c)
    case (Init callback owner)
    then show ?thesis using init_inv [OF inv, of owner env callback] c by (auto simp: timer_step_def may_call_def)
  next
    case (Query k p)
    then show ?thesis using query_inv [OF Q _ f, of k _ p] c by (auto simp: timer_step_def may_call_def)
  next
    case (Answer k)
    then show ?thesis using answer_inv [OF Q, of k] c by (auto simp: timer_step_def may_call_def)
  next
    case Pass
    then obtain s' Q' where "raw_pkt_retransmit env s = Some s'" "timer_queries s' Q'" "ts_init_done s'"
      using retransmit_represents [OF w Q] c by (auto simp: may_call_def same_globals_def)
    then show ?thesis using Pass by (auto simp: timer_step_def timer_inv_def)
  next
    case New_Id
    then show ?thesis by (auto simp: timer_step_def raw_proto_query_id_generate_def Let_def intro: timer_inv_cong [OF inv])
  qed
qed

lemma reaches_inv:
  assumes f: "fresh_alloc env" and w: "calls_only env cw"
  shows "timer_reaches env s \<Longrightarrow> timer_inv s"
proof (induction rule: timer_reaches.induct)
  case (boot w)
  show ?case by (rule timer_inv_empty) (simp_all add: timer_boot_def)
next
  case (call s c s')
  then show ?case using step_inv [OF _ _ f w] by force
next
  case (world s w)
  then show ?case by (auto intro: timer_inv_cong [of s])
qed

end
