(* ===== verification/Dcs_Retransmit_Laws.thy ===== *)
theory Dcs_Retransmit_Laws
  imports Dcs_Retransmit Raw_Proto_Queries
begin

text \<open>
  What the retransmission of the server keeps: its dictionary and the memory
  of the messages belong together.  The dictionary provides the interface
  \<open>query_store\<close> that the client's timer provides, with at most one
  query per id.
\<close>

section \<open>Dictionaries\<close>

lemma update_new: "k \<notin> fst ` set d \<Longrightarrow> AList.update k v d = d @ [(k, v)]"
  by (induction d) auto

lemma dict_split:
  assumes "distinct (map fst d)" and "map_of d k = Some v"
  obtains xs ys where "d = xs @ (k, v) # ys" and "k \<notin> fst ` set (xs @ ys)"
    and "AList.delete k d = xs @ ys" and "AList.update k v' d = xs @ (k, v') # ys"
proof -
  obtain xs ys where d: "d = xs @ (k, v) # ys" using split_list [OF map_of_SomeD [OF assms(2)]] by blast
  then have k: "k \<notin> fst ` set xs" "k \<notin> fst ` set ys" using assms(1) by auto
  have "AList.update k v' (xs @ (k, v) # ys) = xs @ (k, v') # ys" using k(1) by (induction xs) auto
  moreover have "AList.delete k (xs @ (k, v) # ys) = xs @ ys" using k
    by (simp add: delete_notin_dom)
       (induction xs, auto simp: delete_notin_dom)
  ultimately show thesis using that d k by auto
qed

lemma map_of_None: "map_of d k = None \<longleftrightarrow> k \<notin> fst ` set d"
  by (rule map_of_eq_None_iff)

section \<open>The invariant\<close>

text \<open>
  \<open>rt_inv E s\<close>: each message of the dictionary has its memory, and so
  have the expired messages \<open>E\<close> the timer still has to report; nothing
  else is allocated, no block has two owners, and the sizes add up.
\<close>

definition blocks :: "'w rt_state \<Rightarrow> nat list" where
  "blocks s = map (fst \<circ> snd) (rt_Query_ID_Hash s)"

definition ok_message :: "(nat \<Rightarrow> dps_retransmit_context_t option) \<Rightarrow> u32 \<times> message \<Rightarrow> bool" where
  "ok_message h = (\<lambda>(k, m, n, z). n \<le> max_retransmit \<and>
     (case h m of None \<Rightarrow> False | Some c \<Rightarrow> rc_query_id c = k \<and> length (rc_data c) = z))"

definition rt_inv :: "nat list \<Rightarrow> 'w rt_state \<Rightarrow> bool" where
  "rt_inv E s \<longleftrightarrow> distinct (map fst (rt_Query_ID_Hash s)) \<and> distinct (blocks s @ E) \<and> dom (rt_heap s) = set (blocks s @ E) \<and>
     list_all (ok_message (rt_heap s)) (rt_Query_ID_Hash s) \<and>
     rt_msg_size_total s = (\<Sum>(k, m, n, z) \<leftarrow> rt_Query_ID_Hash s. int z) \<and> length (rt_Query_ID_Hash s) \<le> Suc max_queue_len"

definition fresh_messages :: "'w rt_env \<Rightarrow> bool" where
  "fresh_messages env \<longleftrightarrow> (\<forall>s m. re_malloc env s = Some m \<longrightarrow> rt_heap s m = None)"

lemma ok_message_other: "m \<notin> set (map (fst \<circ> snd) d) \<Longrightarrow> list_all (ok_message (h(m := c))) d = list_all (ok_message h) d"
  by (induction d) (auto simp: ok_message_def)

lemma dict_blocks: "map_of (rt_Query_ID_Hash s) k = Some (m, n, z) \<Longrightarrow> m \<in> set (blocks s)"
  by (force simp: blocks_def dest: map_of_SomeD)

lemma rt_inv_lookup:
  assumes "rt_inv E s" and "map_of (rt_Query_ID_Hash s) k = Some (m, n, z)"
  obtains c where "rt_heap s m = Some c" and "rc_query_id c = k" and "length (rc_data c) = z" and "n \<le> max_retransmit" and "m \<notin> set E"
proof -
  have "ok_message (rt_heap s) (k, m, n, z)" using assms map_of_SomeD [OF assms(2)] by (auto simp: rt_inv_def list_all_iff)
  moreover have "m \<notin> set E" using assms(1) dict_blocks [OF assms(2)] by (auto simp: rt_inv_def)
  ultimately show thesis using that by (auto simp: ok_message_def split: option.splits)
qed

lemma rt_inv_world: "rt_inv E (s\<lparr>rt_world := w\<rparr>) = rt_inv E s" "rt_inv E (s\<lparr>rt_QueryID := q\<rparr>) = rt_inv E s"
  "rt_inv E (s\<lparr>rt_retransmit_total := t\<rparr>) = rt_inv E s"
  by (simp_all add: rt_inv_def blocks_def)

lemma rt_inv_empty: "rt_Query_ID_Hash s = [] \<Longrightarrow> rt_heap s = Map.empty \<Longrightarrow> rt_msg_size_total s = 0 \<Longrightarrow> rt_inv [] s"
  by (simp add: rt_inv_def blocks_def)

lemma rt_inv_add:
  assumes "rt_inv E s" and "rt_heap s m = None" and "k \<notin> fst ` set (rt_Query_ID_Hash s)" and "length (rt_Query_ID_Hash s) \<le> max_queue_len"
    and "rc_query_id c = k"
  shows "rt_inv E (s\<lparr>rt_heap := (rt_heap s)(m \<mapsto> c), rt_Query_ID_Hash := rt_Query_ID_Hash s @ [(k, m, max_retransmit, length (rc_data c))],
    rt_msg_size_total := rt_msg_size_total s + int (length (rc_data c))\<rparr>)"
proof -
  have "m \<notin> set (blocks s @ E)" using assms(1,2) by (auto simp: rt_inv_def)
  then show ?thesis
    using assms ok_message_other [of m "rt_Query_ID_Hash s" "rt_heap s" "Some c"] by (auto simp: rt_inv_def blocks_def ok_message_def)
qed

text \<open>A message that is taken out of the dictionary is still allocated.\<close>

lemma rt_inv_take_out:
  assumes "rt_inv E s" and "map_of (rt_Query_ID_Hash s) k = Some (m, n, z)"
  shows "rt_inv (E @ [m]) (s\<lparr>rt_msg_size_total := rt_msg_size_total s - int z, rt_Query_ID_Hash := AList.delete k (rt_Query_ID_Hash s)\<rparr>)"
proof -
  have d: "distinct (map fst (rt_Query_ID_Hash s))" using assms(1) by (simp add: rt_inv_def)
  obtain xs ys where "rt_Query_ID_Hash s = xs @ (k, m, n, z) # ys" "AList.delete k (rt_Query_ID_Hash s) = xs @ ys"
    by (rule dict_split [OF d assms(2)])
  then show ?thesis using assms(1) by (auto simp: rt_inv_def blocks_def)
qed

lemma rt_inv_age:
  assumes "rt_inv E s" and "map_of (rt_Query_ID_Hash s) k = Some (m, n, z)"
  shows "rt_inv E (s\<lparr>rt_Query_ID_Hash := AList.update k (m, n - 1, z) (rt_Query_ID_Hash s)\<rparr>)"
proof -
  have d: "distinct (map fst (rt_Query_ID_Hash s))" using assms(1) by (simp add: rt_inv_def)
  obtain xs ys where "rt_Query_ID_Hash s = xs @ (k, m, n, z) # ys" "AList.update k (m, n - 1, z) (rt_Query_ID_Hash s) = xs @ (k, m, n - 1, z) # ys"
    by (rule dict_split [OF d assms(2)])
  then show ?thesis using assms(1) by (auto simp: rt_inv_def blocks_def ok_message_def)
qed

lemma rt_inv_release:
  assumes "rt_inv (xs @ m # ys) s"
  shows "\<exists>s'. release m s = Some s' \<and> rt_inv (xs @ ys) s' \<and> s' = s\<lparr>rt_heap := (rt_heap s)(m := None)\<rparr>"
proof -
  have m: "m \<notin> set (blocks s)" "m \<in> dom (rt_heap s)" using assms by (auto simp: rt_inv_def)
  have "rt_inv (xs @ ys) (s\<lparr>rt_heap := (rt_heap s)(m := None)\<rparr>)"
    using assms ok_message_other [of m "rt_Query_ID_Hash s" "rt_heap s" None] m(1) by (auto simp: rt_inv_def blocks_def)
  then show ?thesis using m(2) by (auto simp: release_def)
qed

section \<open>Starting and stopping\<close>

text \<open>A query as the server's transport starts it, with the address of its destination.\<close>

definition ok_query :: "dps_retransmit_context_t \<Rightarrow> bool" where
  "ok_query q \<longleftrightarrow> ld16 0 (rc_address q) = Some (rc_family q) \<and> length (rc_address q) = (if rc_family q = AF_INET then 16 else 28)"

definition start_message :: "'w rt_env \<Rightarrow> u32 \<Rightarrow> dps_retransmit_context_t \<Rightarrow> 'w rt_state \<Rightarrow> (int \<times> 'w rt_state) option" where
  "start_message env k q = retransmit_timer_start env (rc_data q) (length (rc_data q)) k (rc_sock_fd q) (rc_address q) (rc_context q)
     (rc_callback_function q) (rc_owner_type q)"

definition keeps_room :: "'w rt_env \<Rightarrow> u32 \<Rightarrow> dps_retransmit_context_t \<Rightarrow> 'w rt_state \<Rightarrow> bool" where
  "keeps_room env k q s \<longleftrightarrow> 0 \<le> rc_sock_fd q \<and> re_malloc env s \<noteq> None \<and> re_object_ok env (rt_world s) \<and> re_args_ok env (rt_world s) \<and>
     length (rt_Query_ID_Hash s) \<le> max_queue_len \<and> k \<notin> fst ` set (rt_Query_ID_Hash s)"

text \<open>The state with one more message.\<close>

definition added :: "u32 \<Rightarrow> nat \<Rightarrow> dps_retransmit_context_t \<Rightarrow> 'w rt_state \<Rightarrow> 'w rt_state" where
  "added k m c s = s\<lparr>rt_heap := (rt_heap s)(m \<mapsto> c), rt_Query_ID_Hash := rt_Query_ID_Hash s @ [(k, m, max_retransmit, length (rc_data c))],
     rt_msg_size_total := rt_msg_size_total s + int (length (rc_data c))\<rparr>"

lemma start_message:
  assumes q: "ok_query q" and f: "fresh_messages env"
  shows "start_message env k q s = (if keeps_room env k q s then Some (0, added k (the (re_malloc env s)) (q\<lparr>rc_query_id := k\<rparr>) s) else Some (-1, s))"
proof -
  have a: "ld16 0 (rc_address q) = Some (rc_family q)" "peek 0 (if rc_family q = AF_INET then 16 else 28) (rc_address q) = Some (rc_address q)"
    "slots (length (rc_data q)) (rc_data q) = Some (rc_data q)"
    using q by (simp_all add: ok_query_def peek_def slots_def)
  show ?thesis
  proof (cases "0 \<le> rc_sock_fd q \<and> re_malloc env s \<noteq> None \<and> re_object_ok env (rt_world s)")
    case False
    then show ?thesis by (auto simp: start_message_def retransmit_timer_start_def keeps_room_def a(1) split: option.split)
  next
    case True
    then obtain m where m: "re_malloc env s = Some m" by auto
    then have h: "rt_heap s m = None" using f by (simp add: fresh_messages_def)
    then have u: "(rt_heap s)(m := None) = rt_heap s" by (simp add: fun_upd_idem)
    let ?c = "q\<lparr>rc_query_id := k\<rparr>" and ?s = "s\<lparr>rt_heap := (rt_heap s)(m \<mapsto> q\<lparr>rc_query_id := k\<rparr>)\<rparr>"
    have r: "release m ?s = Some s" using u by (simp add: release_def)
    have c: "\<lparr>rc_family = rc_family q, rc_sock_fd = rc_sock_fd q, rc_address = rc_address q, rc_query_id = k, rc_context = rc_context q,
      rc_callback_function = rc_callback_function q, rc_owner_type = rc_owner_type q, rc_data = rc_data q\<rparr> = ?c" by (cases q) simp
    have "start_message env k q s = (let (status, s') = (if re_args_ok env (rt_world s) then Queue k m (length (rc_data q)) ?s else (-1, ?s))
        in if status \<noteq> 0 then do { s \<leftarrow> release m s'; Some (status, s) } else Some (status, s'))"
      using True m by (simp add: start_message_def retransmit_timer_start_def a c)
    moreover have "k \<in> fst ` set (rt_Query_ID_Hash s) \<longleftrightarrow> map_of (rt_Query_ID_Hash s) k \<noteq> None"
      by (simp add: map_of_None)
    ultimately show ?thesis
      using True m r by (cases "map_of (rt_Query_ID_Hash s) k") (simp_all add: Queue_def keeps_room_def added_def update_new)
  qed
qed

lemma rt_inv_added:
  "rt_inv E s \<Longrightarrow> fresh_messages env \<Longrightarrow> keeps_room env k q s \<Longrightarrow> rt_inv E (added k (the (re_malloc env s)) (q\<lparr>rc_query_id := k\<rparr>) s)"
  unfolding added_def by (rule rt_inv_add) (auto simp: keeps_room_def fresh_messages_def)

text \<open>The state without the message for an id.\<close>

definition removed :: "u32 \<Rightarrow> 'w rt_state \<Rightarrow> 'w rt_state" where
  "removed k s = (case map_of (rt_Query_ID_Hash s) k of None \<Rightarrow> s
   | Some (m, n, z) \<Rightarrow> s\<lparr>rt_msg_size_total := rt_msg_size_total s - int z, rt_Query_ID_Hash := AList.delete k (rt_Query_ID_Hash s),
       rt_heap := (rt_heap s)(m := None)\<rparr>)"

definition message_for :: "'w rt_state \<Rightarrow> u32 \<Rightarrow> dps_retransmit_context_t option" where
  "message_for s k = (case map_of (rt_Query_ID_Hash s) k of None \<Rightarrow> None | Some (m, _, _) \<Rightarrow> rt_heap s m)"

lemma stop_message:
  assumes i: "rt_inv E s" and a: "re_args_ok env (rt_world s)"
  shows "retransmit_timer_stop env k s = Some (if message_for s k = None then -1 else 0, map_option rc_context (message_for s k), removed k s) \<and>
    rt_inv E (removed k s)"
proof (cases "map_of (rt_Query_ID_Hash s) k")
  case None
  then show ?thesis using i a by (simp add: retransmit_timer_stop_def DeQueue_def message_for_def removed_def)
next
  case (Some v)
  then obtain m n z where v: "map_of (rt_Query_ID_Hash s) k = Some (m, n, z)" by (cases v) auto
  obtain c where c: "rt_heap s m = Some c" by (rule rt_inv_lookup [OF i v])
  let ?s = "s\<lparr>rt_msg_size_total := rt_msg_size_total s - int z, rt_Query_ID_Hash := AList.delete k (rt_Query_ID_Hash s)\<rparr>"
  obtain s' where s': "release m ?s = Some s'" "rt_inv E s'" "s' = removed k s"
    using rt_inv_release [of E m "[]" ?s] rt_inv_take_out [OF i v] v by (auto simp: removed_def)
  then show ?thesis using a v c by (simp add: retransmit_timer_stop_def DeQueue_def message_for_def)
qed

lemma message_for_added:
  assumes "rt_inv E s" and "rt_heap s m = None" and "k \<notin> fst ` set (rt_Query_ID_Hash s)"
  shows "message_for (added k m c s) = (message_for s)(k \<mapsto> c)"
proof
  fix k' show "message_for (added k m c s) k' = ((message_for s)(k \<mapsto> c)) k'"
  proof (cases "k' = k")
    case True
    then show ?thesis using assms(3) by (simp add: message_for_def added_def map_add_def map_of_None [THEN iffD2])
  next
    case False
    have "p \<noteq> m" if "map_of (rt_Query_ID_Hash s) k' = Some (p, n, z)" for p n z
      by (rule rt_inv_lookup [OF assms(1) that]) (use assms(2) in auto)
    then show ?thesis using False by (auto simp: message_for_def added_def map_add_def split: option.split)
  qed
qed

lemma message_for_removed:
  assumes "rt_inv E s"
  shows "message_for (removed k s) = (message_for s)(k := None)"
proof (cases "map_of (rt_Query_ID_Hash s) k")
  case None
  then show ?thesis by (simp add: removed_def message_for_def fun_eq_iff)
next
  case (Some v)
  then obtain m n z where v: "map_of (rt_Query_ID_Hash s) k = Some (m, n, z)" by (cases v) auto
  have d: "distinct (map fst (rt_Query_ID_Hash s))" "distinct (blocks s)" using assms by (simp_all add: rt_inv_def)
  obtain xs ys where xs: "rt_Query_ID_Hash s = xs @ (k, m, n, z) # ys" by (rule dict_split [OF d(1) v])
  have "p \<noteq> m" if "map_of (rt_Query_ID_Hash s) k' = Some (p, n', z')" "k' \<noteq> k" for k' p n' z'
    using map_of_SomeD [OF that(1)] that(2) d(2) unfolding xs blocks_def by (auto simp: image_iff)
  then show ?thesis
    using v by (auto simp: removed_def message_for_def fun_eq_iff AList.delete_conv' split: option.split)
qed

section \<open>The interface of a store of queries\<close>

text \<open>\<open>retransmit_timer_stop\<close> does not hand back the owner.\<close>

definition message_repr :: "'w rt_env \<Rightarrow> 'w rt_state \<Rightarrow> (u32 \<Rightarrow> owned_context list) \<Rightarrow> bool" where
  "message_repr env s P \<longleftrightarrow> fresh_messages env \<and> (\<forall>w. re_args_ok env w) \<and> (\<exists>E. rt_inv E s) \<and>
     P = (\<lambda>k. case message_for s k of None \<Rightarrow> [] | Some c \<Rightarrow> [(rc_context c, RPT_OWNER_FIRST)])"

definition message_context :: "dps_retransmit_context_t \<Rightarrow> owned_context" where
  "message_context q = (rc_context q, RPT_OWNER_FIRST)"

definition stop_for :: "'w rt_env \<Rightarrow> u32 \<Rightarrow> 'w rt_state \<Rightarrow> (owned_context \<times> 'w rt_state) option" where
  "stop_for env k s = do { (rc, c, s) \<leftarrow> retransmit_timer_stop env k s; Some ((case c of None \<Rightarrow> 0 | Some c \<Rightarrow> c, RPT_OWNER_FIRST), s) }"

lemma start_message_law:
  assumes "message_repr env s P" and q: "ok_query q"
  shows "\<exists>rc s'. start_message env k q s = Some (rc, s') \<and> message_repr env s' (if rc = 0 then P(k := P k @ [message_context q]) else P)"
proof (cases "keeps_room env k q s")
  case False
  have "fresh_messages env" using assms(1) by (simp add: message_repr_def)
  then show ?thesis using False assms(1) start_message [OF q, of env k s] by (intro exI [of _ "-1"] exI [of _ s]) simp
next
  case True
  obtain E where r: "fresh_messages env" "\<forall>w. re_args_ok env w" "rt_inv E s"
    "P = (\<lambda>k. case message_for s k of None \<Rightarrow> [] | Some c \<Rightarrow> [(rc_context c, RPT_OWNER_FIRST)])"
    using assms(1) by (auto simp: message_repr_def)
  let ?s = "added k (the (re_malloc env s)) (q\<lparr>rc_query_id := k\<rparr>) s"
  have k: "rt_heap s (the (re_malloc env s)) = None" "k \<notin> fst ` set (rt_Query_ID_Hash s)"
    using True r(1) by (auto simp: keeps_room_def fresh_messages_def)
  then have "message_for s k = None" using map_of_None [of "rt_Query_ID_Hash s" k] by (simp add: message_for_def)
  then have "P(k := P k @ [message_context q]) =
      (\<lambda>k. case message_for ?s k of None \<Rightarrow> [] | Some c \<Rightarrow> [(rc_context c, RPT_OWNER_FIRST)])"
    using message_for_added [OF r(3) k, of "q\<lparr>rc_query_id := k\<rparr>"] r(4) by (auto simp: fun_eq_iff message_context_def)
  then have "message_repr env ?s (P(k := P k @ [message_context q]))"
    using r rt_inv_added [OF r(3,1) True] by (auto simp: message_repr_def)
  then show ?thesis using start_message [OF q r(1), of k s] True by simp
qed

lemma stop_message_law:
  assumes "message_repr env s P"
  shows "\<exists>s'. stop_for env k s = Some (first_context (P k), s') \<and> message_repr env s' (P(k := tl (P k)))"
proof -
  obtain E where r: "fresh_messages env" "\<forall>w. re_args_ok env w" "rt_inv E s"
    "P = (\<lambda>k. case message_for s k of None \<Rightarrow> [] | Some c \<Rightarrow> [(rc_context c, RPT_OWNER_FIRST)])"
    using assms by (auto simp: message_repr_def)
  have s: "retransmit_timer_stop env k s = Some (if message_for s k = None then -1 else 0, map_option rc_context (message_for s k), removed k s)"
    "rt_inv E (removed k s)"
    using stop_message [OF r(3), of env k] r(2) by simp_all
  have "P(k := tl (P k)) = (\<lambda>k'. case message_for (removed k s) k' of None \<Rightarrow> [] | Some c \<Rightarrow> [(rc_context c, RPT_OWNER_FIRST)])"
    using message_for_removed [OF r(3), of k] r(4) by (auto simp: fun_eq_iff split: option.split)
  then have "message_repr env (removed k s) (P(k := tl (P k)))" using r s(2) by (auto simp: message_repr_def)
  moreover have "stop_for env k s = Some (first_context (P k), removed k s)"
    using s(1) r(4) by (auto simp: stop_for_def first_context_def split: option.split)
  ultimately show ?thesis by blast
qed

interpretation message_store: query_store "message_repr env" "start_message env" "stop_for env" "\<lambda>_. True" ok_query message_context
  for env
  by unfold_locales (erule (1) start_message_law, erule stop_message_law)

section \<open>The timer\<close>

text \<open>What one visit by the timer makes of the dictionary: the messages \<open>K\<close> age by one, or go when they have no attempt left.\<close>

definition spent :: "u32 set \<Rightarrow> u32 \<times> message \<Rightarrow> bool" where
  "spent K = (\<lambda>(k, m, n, z). k \<in> K \<and> n = 0)"

definition aged :: "u32 set \<Rightarrow> (u32 \<times> message) list \<Rightarrow> (u32 \<times> message) list" where
  "aged K d = map (\<lambda>(k, m, n, z). (k, m, if k \<in> K then n - 1 else n, z)) (filter (\<lambda>e. \<not> spent K e) d)"

lemma aged_none: "K \<inter> fst ` set d = {} \<Longrightarrow> aged K d = d"
  by (induction d) (auto simp: aged_def spent_def)

lemma aged_append: "aged K (d @ d') = aged K d @ aged K d'"
  by (simp add: aged_def)

lemma aged_one: "aged K [(k, m, n, z)] = (if k \<in> K \<and> n = 0 then [] else [(k, m, if k \<in> K then n - 1 else n, z)])"
  by (simp add: aged_def spent_def)

lemma aged_Cons: "aged K (e # d) = aged K [e] @ aged K d"
  by (simp add: aged_append [symmetric])

lemma aged_all: "fst ` set d \<subseteq> K \<Longrightarrow> aged K d = aged UNIV d"
  by (induction d) (auto simp: aged_def spent_def)

lemma aged_insert: "k \<notin> K \<Longrightarrow> aged (insert k K) d = aged K (aged {k} d)"
  by (induction d) (auto simp: aged_def spent_def split: if_splits)

lemma aged_keys: "fst ` set (aged K d) \<subseteq> fst ` set d"
  by (force simp: aged_def)

lemma aged_lookup:
  assumes "distinct (map fst d)"
  shows "map_of (aged K d) k = (case map_of d k of None \<Rightarrow> None
    | Some (m, n, z) \<Rightarrow> if k \<in> K then if n = 0 then None else Some (m, n - 1, z) else Some (m, n, z))"
proof (cases "map_of d k")
  case None
  then have "k \<notin> fst ` set (aged K d)" using aged_keys [of K d] unfolding map_of_None by blast
  then have "map_of (aged K d) k = None" by (simp add: map_of_None)
  then show ?thesis using None by simp
next
  case (Some v)
  then obtain m n z where v: "map_of d k = Some (m, n, z)" by (cases v) auto
  obtain xs ys where d: "d = xs @ (k, m, n, z) # ys" "k \<notin> fst ` set (xs @ ys)" by (rule dict_split [OF assms v])
  have k: "k \<notin> fst ` set (aged K xs)" "k \<notin> fst ` set (aged K ys)" using d(2) aged_keys [of K xs] aged_keys [of K ys] by auto
  have "aged K d = aged K xs @ aged K [(k, m, n, z)] @ aged K ys" unfolding d(1) aged_append by (simp add: aged_Cons [of K "(k, m, n, z)" ys])
  moreover have "map_of (aged K xs) k = None" "map_of (aged K ys) k = None" using k by (simp_all add: map_of_None)
  ultimately show ?thesis using v by (simp add: map_add_def aged_one)
qed

text \<open>What a visit does to the rest of the system, and which block it takes out.\<close>

definition sent_again :: "'w rt_env \<Rightarrow> dps_retransmit_context_t \<Rightarrow> 'w \<Rightarrow> 'w" where
  "sent_again env c w = (if rc_family c = AF_INET \<or> rc_family c = AF_INET6 then snd (re_sendto env (rc_sock_fd c) (rc_data c) (rc_address c) w) else w)"

definition visited :: "'w rt_env \<Rightarrow> 'w rt_state \<Rightarrow> u32 \<Rightarrow> 'w \<Rightarrow> 'w" where
  "visited env s k w = (case map_of (rt_Query_ID_Hash s) k of None \<Rightarrow> w
   | Some (m, n, z) \<Rightarrow> if n = 0 then w else sent_again env (the (rt_heap s m)) w)"

definition spent_blocks :: "'w rt_state \<Rightarrow> u32 \<Rightarrow> nat list" where
  "spent_blocks s k = (case map_of (rt_Query_ID_Hash s) k of None \<Rightarrow> [] | Some (m, n, z) \<Rightarrow> if n = 0 then [m] else [])"

lemma visit_law:
  assumes i: "rt_inv E s"
  shows "\<exists>s'. visit env k (ex, s) = Some (ex @ spent_blocks s k, s') \<and> rt_inv (E @ spent_blocks s k) s' \<and>
    rt_Query_ID_Hash s' = aged {k} (rt_Query_ID_Hash s) \<and> rt_heap s' = rt_heap s \<and> rt_world s' = visited env s k (rt_world s)"
proof (cases "map_of (rt_Query_ID_Hash s) k")
  case None
  then have "aged {k} (rt_Query_ID_Hash s) = rt_Query_ID_Hash s" by (intro aged_none) (simp add: map_of_None)
  then show ?thesis using None i by (simp add: visit_def spent_blocks_def visited_def)
next
  case (Some v)
  then obtain m n z where v: "map_of (rt_Query_ID_Hash s) k = Some (m, n, z)" by (cases v) auto
  obtain c where c: "rt_heap s m = Some c" by (rule rt_inv_lookup [OF i v])
  have d: "distinct (map fst (rt_Query_ID_Hash s))" using i by (simp add: rt_inv_def)
  obtain xs ys where xs: "rt_Query_ID_Hash s = xs @ (k, m, n, z) # ys" "k \<notin> fst ` set (xs @ ys)" "AList.delete k (rt_Query_ID_Hash s) = xs @ ys"
    "AList.update k (m, n - 1, z) (rt_Query_ID_Hash s) = xs @ (k, m, n - 1, z) # ys"
    by (rule dict_split [OF d v])
  have k: "k \<notin> fst ` set xs" "k \<notin> fst ` set ys" using xs(2) by auto
  have "aged {k} xs = xs" "aged {k} ys = ys" using k aged_none [of "{k}" xs] aged_none [of "{k}" ys] by simp_all
  then have a: "aged {k} (rt_Query_ID_Hash s) = xs @ (if n = 0 then [] else [(k, m, n - 1, z)]) @ ys"
    unfolding xs(1) by (simp add: aged_append aged_one aged_Cons [of "{k}" "(k, m, n, z)" ys])
  show ?thesis
  proof (cases "n = 0")
    case True
    then show ?thesis using v a xs(3) rt_inv_take_out [OF i v] by (simp add: visit_def spent_blocks_def visited_def)
  next
    case False
    let ?s = "s\<lparr>rt_world := sent_again env c (rt_world s), rt_retransmit_total := rt_retransmit_total s + 1,
      rt_Query_ID_Hash := AList.update k (m, n - 1, z) (rt_Query_ID_Hash s)\<rparr>"
    have "visit env k (ex, s) = Some (ex, ?s)"
      using False v c by (simp add: visit_def retransmit_data_def sent_again_def split_beta)
    moreover have "rt_inv E ?s"
      using rt_inv_age [of E "s\<lparr>rt_world := sent_again env c (rt_world s), rt_retransmit_total := rt_retransmit_total s + 1\<rparr>" k m n z] i v
      by (simp add: rt_inv_world)
    ultimately show ?thesis using False v a xs(4) c by (simp add: spent_blocks_def visited_def)
  qed
qed

lemma visit_all_law:
  assumes "rt_inv E s" and "distinct keys"
  shows "\<exists>s'. visit_all env keys (ex, s) = Some (ex @ concat (map (spent_blocks s) keys), s') \<and>
    rt_inv (E @ concat (map (spent_blocks s) keys)) s' \<and> rt_Query_ID_Hash s' = aged (set keys) (rt_Query_ID_Hash s) \<and>
    rt_heap s' = rt_heap s \<and> rt_world s' = fold (visited env s) keys (rt_world s)"
  using assms
proof (induction keys arbitrary: ex E s)
  case Nil
  then show ?case by (simp add: aged_none)
next
  case (Cons k keys)
  obtain s1 where s1: "visit env k (ex, s) = Some (ex @ spent_blocks s k, s1)" "rt_inv (E @ spent_blocks s k) s1"
    "rt_Query_ID_Hash s1 = aged {k} (rt_Query_ID_Hash s)" "rt_heap s1 = rt_heap s" "rt_world s1 = visited env s k (rt_world s)"
    using visit_law [OF Cons.prems(1)] by blast
  have d: "distinct (map fst (rt_Query_ID_Hash s))" using Cons.prems(1) by (simp add: rt_inv_def)
  have k: "k \<notin> set keys" "distinct keys" using Cons.prems(2) by simp_all
  have same: "map_of (rt_Query_ID_Hash s1) k' = map_of (rt_Query_ID_Hash s) k'" if "k' \<in> set keys" for k'
    using that k(1) aged_lookup [OF d, of "{k}" k'] s1(3) by (auto split: option.split)
  have b: "map (spent_blocks s1) keys = map (spent_blocks s) keys" by (simp add: spent_blocks_def same)
  have w: "fold (visited env s1) keys w = fold (visited env s) keys w" for w
    by (rule fold_cong) (auto simp: visited_def same s1(4) fun_eq_iff split: option.split)
  have a: "aged (set keys) (rt_Query_ID_Hash s1) = aged (set (k # keys)) (rt_Query_ID_Hash s)"
    using s1(3) aged_insert [OF k(1)] by simp
  show ?case using Cons.IH [OF s1(2) k(2), of "ex @ spent_blocks s k"] s1(1,4,5) unfolding b w a by auto
qed

text \<open>The order in which a dictionary lists its keys.\<close>

definition lists_keys :: "'w rt_env \<Rightarrow> bool" where
  "lists_keys env \<longleftrightarrow> (\<forall>ks. distinct ks \<longrightarrow> distinct (re_keys env ks) \<and> set (re_keys env ks) = set ks)"

lemma expire_law:
  assumes i: "rt_inv [] s" and l: "lists_keys env"
  shows "\<exists>keys E s'. expire env s = Some (E, s') \<and> distinct keys \<and> set keys = fst ` set (rt_Query_ID_Hash s) \<and>
    E = concat (map (spent_blocks s) keys) \<and> rt_inv E s' \<and> rt_Query_ID_Hash s' = aged UNIV (rt_Query_ID_Hash s) \<and>
    rt_heap s' = rt_heap s \<and> rt_world s' = fold (visited env s) keys (rt_world s)"
proof -
  let ?keys = "re_keys env (map fst (rt_Query_ID_Hash s))"
  have k: "distinct ?keys" "set ?keys = fst ` set (rt_Query_ID_Hash s)"
    using i l by (auto simp: rt_inv_def lists_keys_def)
  have "aged (set ?keys) (rt_Query_ID_Hash s) = aged UNIV (rt_Query_ID_Hash s)"
    unfolding k(2) by (rule aged_all) simp
  then show ?thesis using visit_all_law [OF i k(1), of env "[]"] k unfolding expire_def by auto
qed

end
