(* ===== verification/Dcs_Retransmit_Rounds.thy ===== *)
theory Dcs_Retransmit_Rounds
  imports Dcs_Retransmit_Laws
begin

text \<open>
  The timer of the server: what a whole round does, and how it interleaves
  with the threads that start and stop retransmissions while it reports the
  messages it has given up.
\<close>

section \<open>Reporting\<close>

text \<open>A callback may use the store, but leaves it well-formed.\<close>

definition calls_keep :: "'w rt_env \<Rightarrow> bool" where
  "calls_keep env \<longleftrightarrow> (\<forall>E f st d c ow s. rt_inv E s \<longrightarrow> (\<exists>s'. re_call env f st d c ow s = Some s' \<and> rt_inv E s'))"

lemma timeout_law:
  assumes "rt_inv (m # E) s" and "calls_keep env"
  shows "\<exists>s'. retransmit_timeout env m s = Some s' \<and> rt_inv E s'"
proof -
  obtain c where c: "rt_heap s m = Some c" using assms(1) by (auto simp: rt_inv_def)
  obtain s1 where s1: "re_call env (rc_callback_function c) RAW_PROTO_MAX_NUM_RETRANSMIT_EXCEEDED (rc_data c) (rc_context c) (rc_owner_type c) s = Some s1"
    "rt_inv (m # E) s1"
    using assms unfolding calls_keep_def by blast
  then show ?thesis using rt_inv_release [of "[]" m E s1] c by (auto simp: retransmit_timeout_def)
qed

section \<open>Interleaving\<close>

text \<open>
  The threads of the server: one of them runs the timer.  It takes the
  expired messages out under the lock and reports them one by one after it
  has released the lock; the others may start and stop retransmissions
  between any two of its steps.
\<close>

inductive rt_step :: "'w rt_env \<Rightarrow> nat list \<times> 'w rt_state \<Rightarrow> nat list \<times> 'w rt_state \<Rightarrow> bool" for env where
  start: "ok_query q \<Longrightarrow> start_message env k q s = Some (rc, s') \<Longrightarrow> rt_step env (E, s) (E, s')"
| stop: "retransmit_timer_stop env k s = Some (rc, c, s') \<Longrightarrow> rt_step env (E, s) (E, s')"
| next_id: "retransmit_timer_query_id_generate env s = (q, s') \<Longrightarrow> rt_step env (E, s) (E, s')"
| expire: "expire env s = Some (E, s') \<Longrightarrow> rt_step env ([], s) (E, s')"
| report: "retransmit_timeout env m s = Some s' \<Longrightarrow> rt_step env (m # E, s) (E, s')"
| elsewhere: "rt_step env (E, s) (E, s\<lparr>rt_world := w\<rparr>)"

definition rt_boot :: "'w \<Rightarrow> 'w rt_state" where
  "rt_boot w = \<lparr>rt_Query_ID_Hash = [], rt_msg_size_total = 0, rt_retransmit_total = 0, rt_QueryID = 1, rt_heap = Map.empty, rt_world = w\<rparr>"

definition rt_reaches :: "'w rt_env \<Rightarrow> nat list \<times> 'w rt_state \<Rightarrow> bool" where
  "rt_reaches env es \<longleftrightarrow> (\<exists>w. (rt_step env)\<^sup>*\<^sup>* ([], rt_boot w) es)"

definition rt_env_ok :: "'w rt_env \<Rightarrow> bool" where
  "rt_env_ok env \<longleftrightarrow> fresh_messages env \<and> lists_keys env \<and> calls_keep env"

lemma stop_any:
  assumes "rt_inv E s"
  shows "\<exists>rc c s'. retransmit_timer_stop env k s = Some (rc, c, s') \<and> rt_inv E s'"
proof (cases "re_args_ok env (rt_world s)")
  case True
  then show ?thesis using stop_message [OF assms] by blast
next
  case False
  then show ?thesis using assms by (simp add: retransmit_timer_stop_def)
qed

lemma start_any:
  assumes "rt_inv E s" and "fresh_messages env" and "ok_query q"
  shows "\<exists>rc s'. start_message env k q s = Some (rc, s') \<and> rt_inv E s'"
  using assms start_message [OF assms(3,2), of k s] rt_inv_added by (cases "keeps_room env k q s") auto

lemma rt_step_inv:
  assumes "rt_step env (E, s) (E', s')" and "rt_env_ok env" and "rt_inv E s"
  shows "rt_inv E' s'"
  using assms(1)
proof (cases rule: rt_step.cases)
  case (start q k rc)
  then show ?thesis using assms(2,3) start_any [of E s env q k] unfolding rt_env_ok_def by force
next
  case (stop k rc c)
  then show ?thesis using assms(3) stop_any [of E s env k] by force
next
  case (next_id q)
  then show ?thesis using assms(3)
    by (auto simp: retransmit_timer_query_id_generate_def generate_query_id_def Let_def rt_inv_world split: if_splits)
next
  case expire
  then show ?thesis using assms(2,3) expire_law [of s env] unfolding rt_env_ok_def by force
next
  case (report m)
  then show ?thesis using assms(2,3) timeout_law [of m E' s env] unfolding rt_env_ok_def by force
next
  case (elsewhere w)
  then show ?thesis using assms(3) by (simp add: rt_inv_world)
qed

lemma rt_reaches_inv:
  assumes "rt_reaches env (E, s)" and "rt_env_ok env"
  shows "rt_inv E s"
proof -
  have "rt_inv (fst es') (snd es')" if "(rt_step env)\<^sup>*\<^sup>* es es'" "rt_inv (fst es) (snd es)" for es es'
    using that by (induction) (metis rt_step_inv [OF _ assms(2)] prod.collapse)+
  then show ?thesis using assms(1) by (fastforce simp: rt_reaches_def rt_boot_def intro: rt_inv_empty)
qed

section \<open>Whole rounds\<close>

text \<open>A callback that does not use the store.\<close>

definition calls_outside :: "'w rt_env \<Rightarrow> (nat \<Rightarrow> raw_proto_retransmit_status_t \<Rightarrow> bytes \<Rightarrow> nat \<Rightarrow> int \<Rightarrow> 'w \<Rightarrow> 'w) \<Rightarrow> bool" where
  "calls_outside env g \<longleftrightarrow> (\<forall>f st d c ow s. re_call env f st d c ow s = Some (s\<lparr>rt_world := g f st d c ow (rt_world s)\<rparr>))"

definition reported :: "(nat \<Rightarrow> raw_proto_retransmit_status_t \<Rightarrow> bytes \<Rightarrow> nat \<Rightarrow> int \<Rightarrow> 'w \<Rightarrow> 'w) \<Rightarrow> dps_retransmit_context_t \<Rightarrow> 'w \<Rightarrow> 'w" where
  "reported g c = g (rc_callback_function c) RAW_PROTO_MAX_NUM_RETRANSMIT_EXCEEDED (rc_data c) (rc_context c) (rc_owner_type c)"

lemma timeout_outside:
  assumes "rt_inv (m # E) s" and "calls_outside env g" and "rt_heap s m = Some c"
  shows "\<exists>s'. retransmit_timeout env m s = Some s' \<and> rt_inv E s' \<and> rt_Query_ID_Hash s' = rt_Query_ID_Hash s \<and>
    rt_heap s' = (rt_heap s)(m := None) \<and> rt_world s' = reported g c (rt_world s)"
proof -
  have "rt_inv (m # E) (s\<lparr>rt_world := reported g c (rt_world s)\<rparr>)" using assms(1) by (simp add: rt_inv_world)
  from rt_inv_release [of "[]", simplified, OF this] show ?thesis
    using assms(2,3) by (auto simp: retransmit_timeout_def calls_outside_def reported_def)
qed

lemma timeout_all_outside:
  assumes "rt_inv E s" and "calls_outside env g"
  shows "\<exists>s'. timeout_all env E s = Some s' \<and> rt_inv [] s' \<and> rt_Query_ID_Hash s' = rt_Query_ID_Hash s \<and>
    (\<forall>m. m \<notin> set E \<longrightarrow> rt_heap s' m = rt_heap s m) \<and> rt_world s' = fold (\<lambda>m. reported g (the (rt_heap s m))) E (rt_world s)"
  using assms(1)
proof (induction E arbitrary: s)
  case (Cons m E)
  obtain c where c: "rt_heap s m = Some c" using Cons.prems by (auto simp: rt_inv_def)
  obtain s1 where s1: "retransmit_timeout env m s = Some s1" "rt_inv E s1" "rt_Query_ID_Hash s1 = rt_Query_ID_Hash s"
    "rt_heap s1 = (rt_heap s)(m := None)" "rt_world s1 = reported g c (rt_world s)"
    using timeout_outside [OF Cons.prems assms(2) c] by blast
  obtain s' where s': "timeout_all env E s1 = Some s'" "rt_inv [] s'" "rt_Query_ID_Hash s' = rt_Query_ID_Hash s1"
    "\<forall>m. m \<notin> set E \<longrightarrow> rt_heap s' m = rt_heap s1 m" "rt_world s' = fold (\<lambda>m. reported g (the (rt_heap s1 m))) E (rt_world s1)"
    using Cons.IH [OF s1(2)] by blast
  have "m \<notin> set E" using Cons.prems by (simp add: rt_inv_def)
  then have "fold (\<lambda>m. reported g (the (rt_heap s1 m))) E w = fold (\<lambda>m. reported g (the (rt_heap s m))) E w" for w
    using s1(4) by (intro fold_cong) auto
  then have "rt_world s' = fold (\<lambda>m. reported g (the (rt_heap s m))) (m # E) (rt_world s)" using s'(5) s1(5) c by simp
  moreover have "timeout_all env (m # E) s = Some s'" using s1(1) s'(1) by simp
  moreover have "\<forall>m'. m' \<notin> set (m # E) \<longrightarrow> rt_heap s' m' = rt_heap s m'" using s'(4) s1(4) by simp
  ultimately show ?case using s'(2,3) s1(3) by metis
qed simp

lemma round_law:
  assumes i: "rt_inv [] s" and l: "lists_keys env" and g: "calls_outside env g"
  shows "\<exists>keys s'. Timer_Routine env s = Some s' \<and> rt_inv [] s' \<and> distinct keys \<and> set keys = fst ` set (rt_Query_ID_Hash s) \<and>
    rt_Query_ID_Hash s' = aged UNIV (rt_Query_ID_Hash s) \<and> (\<forall>m \<in> set (blocks s'). rt_heap s' m = rt_heap s m) \<and>
    rt_world s' = fold (\<lambda>m. reported g (the (rt_heap s m))) (concat (map (spent_blocks s) keys)) (fold (visited env s) keys (rt_world s))"
proof -
  obtain keys E s1 where s1: "expire env s = Some (E, s1)" "distinct keys" "set keys = fst ` set (rt_Query_ID_Hash s)"
    "E = concat (map (spent_blocks s) keys)" "rt_inv E s1" "rt_Query_ID_Hash s1 = aged UNIV (rt_Query_ID_Hash s)" "rt_heap s1 = rt_heap s"
    "rt_world s1 = fold (visited env s) keys (rt_world s)"
    using expire_law [OF i l] by blast
  obtain s' where s': "timeout_all env E s1 = Some s'" "rt_inv [] s'" "rt_Query_ID_Hash s' = rt_Query_ID_Hash s1"
    "\<forall>m. m \<notin> set E \<longrightarrow> rt_heap s' m = rt_heap s1 m" "rt_world s' = fold (\<lambda>m. reported g (the (rt_heap s1 m))) E (rt_world s1)"
    using timeout_all_outside [OF s1(5) g] by blast
  have "blocks s' = blocks s1" using s'(3) by (simp add: blocks_def)
  then have "m \<notin> set E" if "m \<in> set (blocks s')" for m using that s1(5) by (auto simp: rt_inv_def)
  then have "\<forall>m \<in> set (blocks s'). rt_heap s' m = rt_heap s m" using s'(4) s1(7) by simp
  moreover have "Timer_Routine env s = Some s'" using s1(1) s'(1) by (simp add: Timer_Routine_def)
  ultimately show ?thesis using s' s1 by (intro exI [of _ keys] exI [of _ s']) simp
qed

section \<open>Following one message\<close>

text \<open>
  \<open>watches env g C view sent rep c\<close>: of all that happens outside,
  \<open>view\<close> shows what concerns the message \<open>c\<close>: \<open>sent\<close>
  when it is sent, \<open>rep\<close> when it is reported, and nothing when one
  of the messages \<open>C\<close> is.
\<close>

definition watches :: "'w rt_env \<Rightarrow> (nat \<Rightarrow> raw_proto_retransmit_status_t \<Rightarrow> bytes \<Rightarrow> nat \<Rightarrow> int \<Rightarrow> 'w \<Rightarrow> 'w) \<Rightarrow> dps_retransmit_context_t set \<Rightarrow>
    ('w \<Rightarrow> 'v) \<Rightarrow> ('v \<Rightarrow> 'v) \<Rightarrow> ('v \<Rightarrow> 'v) \<Rightarrow> dps_retransmit_context_t \<Rightarrow> bool" where
  "watches env g C view sent rep c \<longleftrightarrow> (\<forall>w. view (sent_again env c w) = sent (view w) \<and> view (reported g c w) = rep (view w)) \<and>
     (\<forall>c' \<in> C. \<forall>w. view (sent_again env c' w) = view w \<and> view (reported g c' w) = view w)"

definition others :: "'w rt_state \<Rightarrow> u32 \<Rightarrow> dps_retransmit_context_t set" where
  "others s k = {c. \<exists>k'. k' \<noteq> k \<and> message_for s k' = Some c}"

lemma watch_visits:
  assumes i: "rt_inv E s" and v: "map_of (rt_Query_ID_Hash s) k = Some (m, n, z)" "rt_heap s m = Some c"
    and w: "watches env g (others s k) view sent rep c" and d: "distinct keys"
  shows "view (fold (visited env s) keys x) = (if k \<in> set keys \<and> n \<noteq> 0 then sent (view x) else view x)"
  using d
proof (induction keys arbitrary: x)
  case (Cons k' keys)
  have "view (visited env s k' x) = view x" if "k' \<noteq> k"
  proof (cases "map_of (rt_Query_ID_Hash s) k'")
    case (Some e)
    then obtain m' n' z' where e: "map_of (rt_Query_ID_Hash s) k' = Some (m', n', z')" by (cases e) auto
    obtain c' where c': "rt_heap s m' = Some c'" by (rule rt_inv_lookup [OF i e])
    then have "c' \<in> others s k" using e that by (auto simp: others_def message_for_def)
    then show ?thesis using e c' w by (simp add: visited_def watches_def)
  qed (simp add: visited_def)
  moreover have "view (visited env s k x) = (if n = 0 then view x else sent (view x))" using v w by (simp add: visited_def watches_def)
  ultimately show ?case using Cons by (cases "k' = k") auto
qed simp

lemma watch_reports:
  assumes i: "rt_inv E s" and v: "map_of (rt_Query_ID_Hash s) k = Some (m, n, z)" "rt_heap s m = Some c"
    and w: "watches env g (others s k) view sent rep c" and d: "distinct keys"
  shows "view (fold (\<lambda>m. reported g (the (rt_heap s m))) (concat (map (spent_blocks s) keys)) x) =
    (if k \<in> set keys \<and> n = 0 then rep (view x) else view x)"
  using d
proof (induction keys arbitrary: x)
  case (Cons k' keys)
  let ?r = "\<lambda>m. reported g (the (rt_heap s m))"
  have "view (fold ?r (spent_blocks s k') x) = view x" if "k' \<noteq> k"
  proof (cases "map_of (rt_Query_ID_Hash s) k'")
    case (Some e)
    then obtain m' n' z' where e: "map_of (rt_Query_ID_Hash s) k' = Some (m', n', z')" by (cases e) auto
    obtain c' where c': "rt_heap s m' = Some c'" by (rule rt_inv_lookup [OF i e])
    then have "c' \<in> others s k" using e that by (auto simp: others_def message_for_def)
    then show ?thesis using e c' w by (simp add: spent_blocks_def watches_def)
  qed (simp add: spent_blocks_def)
  moreover have "view (fold ?r (spent_blocks s k) x) = (if n = 0 then rep (view x) else view x)"
    using v w by (simp add: spent_blocks_def watches_def)
  ultimately show ?case using Cons by (cases "k' = k") auto
qed simp

text \<open>The message of a query and the attempts it has left.\<close>

definition message_left :: "'w rt_state \<Rightarrow> u32 \<Rightarrow> (dps_retransmit_context_t \<times> nat) option" where
  "message_left s k = do { (m, n, z) \<leftarrow> map_of (rt_Query_ID_Hash s) k; c \<leftarrow> rt_heap s m; Some (c, n) }"

lemma round_watched:
  assumes i: "rt_inv [] s" and l: "lists_keys env" and g: "calls_outside env g"
    and k: "message_left s k = Some (c, n)" and w: "watches env g (others s k) view sent rep c"
  shows "\<exists>s'. Timer_Routine env s = Some s' \<and> rt_inv [] s' \<and> message_left s' k = (if n = 0 then None else Some (c, n - 1)) \<and>
    others s' k \<subseteq> others s k \<and> view (rt_world s') = (if n = 0 then rep (view (rt_world s)) else sent (view (rt_world s)))"
proof -
  obtain m z where v: "map_of (rt_Query_ID_Hash s) k = Some (m, n, z)" "rt_heap s m = Some c"
    using k by (auto simp: message_left_def bind_eq_Some_conv)
  obtain keys s' where s': "Timer_Routine env s = Some s'" "rt_inv [] s'" "distinct keys" "set keys = fst ` set (rt_Query_ID_Hash s)"
    "rt_Query_ID_Hash s' = aged UNIV (rt_Query_ID_Hash s)" "\<forall>m \<in> set (blocks s'). rt_heap s' m = rt_heap s m"
    "rt_world s' = fold (\<lambda>m. reported g (the (rt_heap s m))) (concat (map (spent_blocks s) keys)) (fold (visited env s) keys (rt_world s))"
    using round_law [OF i l g] by blast
  have "k \<in> set keys" using map_of_SomeD [OF v(1)] unfolding s'(4) by force
  then have "view (rt_world s') = (if n = 0 then rep (view (rt_world s)) else sent (view (rt_world s)))"
    unfolding s'(7) watch_reports [OF i v w s'(3)] watch_visits [OF i v w s'(3)] by auto
  moreover have d: "distinct (map fst (rt_Query_ID_Hash s))" using i by (simp add: rt_inv_def)
  have a: "map_of (rt_Query_ID_Hash s') k = (if n = 0 then None else Some (m, n - 1, z))"
    using aged_lookup [OF d, of UNIV k] v(1) unfolding s'(5) by simp
  have "message_left s' k = (if n = 0 then None else Some (c, n - 1))"
  proof (cases "n = 0")
    case False
    then have "m \<in> set (blocks s')" using dict_blocks [of s' k m "n - 1" z] a by simp
    then show ?thesis using False a v(2) s'(6) by (simp add: message_left_def)
  qed (use a in \<open>simp add: message_left_def\<close>)
  moreover have "others s' k \<subseteq> others s k"
  proof
    fix c' assume "c' \<in> others s' k"
    then obtain k' m' n' z' where e: "k' \<noteq> k" "map_of (rt_Query_ID_Hash s') k' = Some (m', n', z')" "rt_heap s' m' = Some c'"
      by (auto simp: others_def message_for_def split: option.splits)
    have "\<exists>n z. map_of (rt_Query_ID_Hash s) k' = Some (m', n, z)"
      using e(2) aged_lookup [OF d, of UNIV k'] unfolding s'(5) by (auto split: option.splits if_splits)
    moreover have "rt_heap s m' = Some c'" using e(3) s'(6) dict_blocks [OF e(2)] by simp
    ultimately show "c' \<in> others s k" using e(1) by (auto simp: others_def message_for_def)
  qed
  ultimately show ?thesis using s'(1,2) by blast
qed

lemma watches_mono: "watches env g C view sent rep c \<Longrightarrow> C' \<subseteq> C \<Longrightarrow> watches env g C' view sent rep c"
  unfolding watches_def by blast

fun rounds :: "'w rt_env \<Rightarrow> nat \<Rightarrow> 'w rt_state \<Rightarrow> 'w rt_state option" where
  "rounds env 0 s = Some s"
| "rounds env (Suc j) s = Timer_Routine env s \<bind> rounds env j"

lemma rounds_watched:
  assumes "rt_inv [] s" and "lists_keys env" and "calls_outside env g" and "message_left s k = Some (c, n)" and "watches env g (others s k) view sent rep c"
  shows "\<exists>s'. rounds env (Suc n) s = Some s' \<and> rt_inv [] s' \<and> message_left s' k = None \<and>
    view (rt_world s') = rep ((sent ^^ n) (view (rt_world s)))"
  using assms(1,4,5)
proof (induction n arbitrary: s)
  case 0
  then show ?case using round_watched [OF 0(1) assms(2,3) 0(2,3)] by auto
next
  case (Suc n)
  obtain s1 where s1: "Timer_Routine env s = Some s1" "rt_inv [] s1" "message_left s1 k = Some (c, n)" "others s1 k \<subseteq> others s k"
    "view (rt_world s1) = sent (view (rt_world s))"
    using round_watched [OF Suc.prems(1) assms(2,3) Suc.prems(2,3)] by auto
  show ?case using Suc.IH [OF s1(2,3) watches_mono [OF Suc.prems(3) s1(4)]] s1(1,5) by (simp add: funpow_swap1)
qed

end
