(* ===== verification/Dps_Tlv_Image.thy ===== *)
theory Dps_Tlv_Image
  imports Dps_Tlv_Set Dps_Tlv_Get
begin

text \<open>
  What each \<open>dps_set_*\<close> routine leaves in the buffer: a lemma
  \<open>writes f n P\<close> says that with \<open>n\<close> bytes of room
  the routine succeeds, changes only the first \<open>n\<close> bytes, returns
  \<open>n\<close>, and leaves an image that satisfies \<open>P\<close>.
\<close>

section \<open>The image of a TLV header\<close>

definition hdrb :: "u8 \<Rightarrow> u8 \<Rightarrow> u16 \<Rightarrow> bytes" where
  "hdrb v t l = [v, t] @ be16 l"

lemma length_hdrb [simp]: "length (hdrb v t l) = 4"
  by (simp add: hdrb_def)

lemma ld8_hdrb [simp]: "ld8 0 (hdrb v t l) = Some v" "ld8 0 (hdrb v t l @ r) = Some v"
  by (simp_all add: hdrb_def)

lemma get_hdrb [simp]:
  "dps_get_tlv_hdr (hdrb v t l @ r) = Some \<lparr>tlv_ver = v, tlv_type = t, tlv_len = l\<rparr>"
  "dps_get_tlv_hdr (hdrb v t l) = Some \<lparr>tlv_ver = v, tlv_type = t, tlv_len = l\<rparr>"
  by (simp_all add: dps_get_tlv_hdr_def hdrb_def)

lemma poke_append_right [simp]:
  "length xs \<le> n \<Longrightarrow> poke n v (xs @ ys) = map_option ((@) xs) (poke (n - length xs) v ys)"
  by (auto simp: poke_def)

lemma poke_here [simp]:
  "length xs = length v \<Longrightarrow> poke 0 v (xs @ ys) = Some (v @ ys)"
  "length xs = length v \<Longrightarrow> poke 0 v xs = Some v"
  by (auto simp: poke_def)

lemma st_append_right [simp]:
  "length xs \<le> n \<Longrightarrow> st16 n v (xs @ ys) = map_option ((@) xs) (st16 (n - length xs) v ys)"
  "length xs \<le> n \<Longrightarrow> st32 n w (xs @ ys) = map_option ((@) xs) (st32 (n - length xs) w ys)"
  by (simp_all add: st16_def st32_def)

lemma st_here [simp]:
  "length xs = 2 \<Longrightarrow> st16 0 v (xs @ ys) = Some (bytes16 v @ ys)"
  "length xs = 2 \<Longrightarrow> st16 0 v xs = Some (bytes16 v)"
  "length xs = 4 \<Longrightarrow> st32 0 w (xs @ ys) = Some (bytes32 w @ ys)"
  "length xs = 4 \<Longrightarrow> st32 0 w xs = Some (bytes32 w)"
  by (simp_all add: st16_def st32_def)

lemma segments:
  "length p = sum_list ns \<Longrightarrow> \<exists>ps. p = concat ps \<and> map length ps = ns"
proof (induction ns arbitrary: p)
  case (Cons n ns)
  obtain ps where "drop n p = concat ps" "map length ps = ns"
    using Cons.IH [of "drop n p"] Cons.prems by auto
  then show ?case using Cons.prems append_take_drop_id [of n p]
    by (intro exI [of _ "take n p # ps"]) simp
qed simp

lemma set_hdr_here [simp]:
  assumes "length h = 4"
  shows "dps_set_tlv_hdr v t l (h @ r) = Some (hdrb v t l @ r)"
proof -
  obtain a b c d where "h = [a, b, c, d]"
    using assms by (auto simp: length_Suc_conv numeral_eq_Suc)
  then show ?thesis
    by (simp add: dps_set_tlv_hdr_def hdrb_def st8_def st16_def poke_def be16_def)
qed

section \<open>Images of the fixed-size TLVs\<close>

lemma writes_ip4 [c_writes]:
  "writes (dps_set_ip4_tlv ip) 8 (\<lambda>p. p = hdrb 4 IP_ADDR_TLV 4 @ be32 ip)"
proof (rule writesI)
  fix p bs :: bytes assume "length p = 8"
  then obtain h s where "p = h @ s" "length h = 4" "length s = 4"
    using segments [of p "[4, 4]"] by (auto simp: map_eq_Cons_conv)
  then show "\<exists>p'. length p' = 8 \<and> p' = hdrb 4 IP_ADDR_TLV 4 @ be32 ip \<and>
      dps_set_ip4_tlv ip (p @ bs) = Some (p' @ bs, 8)"
    by (simp add: dps_set_ip4_tlv_def)
qed

lemma writes_ip6 [c_writes]:
  assumes "length ip = 16"
  shows "writes (dps_set_ip6_tlv ip) 20 (\<lambda>p. p = hdrb 6 IP_ADDR_TLV 16 @ ip)"
proof (rule writesI)
  fix p bs :: bytes assume "length p = 20"
  then obtain h s where "p = h @ s" "length h = 4" "length s = 16"
    using segments [of p "[4, 16]"] by (auto simp: map_eq_Cons_conv)
  then show "\<exists>p'. length p' = 20 \<and> p' = hdrb 6 IP_ADDR_TLV 16 @ ip \<and>
      dps_set_ip6_tlv ip (p @ bs) = Some (p' @ bs, 20)"
    by (simp add: dps_set_ip6_tlv_def assms)
qed

lemma writes_vmac [c_writes]:
  assumes "wf_mac mac"
  shows "writes (dps_set_vmac_tlv mac) 12 (\<lambda>p. \<exists>pad. length pad = 2 \<and> p = hdrb 1 VMAC_TLV 8 @ mac @ pad)"
proof (rule writesI)
  fix p bs :: bytes assume "length p = 12"
  then obtain h s pad where "p = h @ s @ pad" "length h = 4" "length s = 6" "length pad = 2"
    using segments [of p "[4, 6, 2]"] by (auto simp: map_eq_Cons_conv)
  then show "\<exists>p'. length p' = 12 \<and> (\<exists>pad. length pad = 2 \<and> p' = hdrb 1 VMAC_TLV 8 @ mac @ pad) \<and>
      dps_set_vmac_tlv mac (p @ bs) = Some (p' @ bs, 12)"
    using assms by (intro exI [of _ "hdrb 1 VMAC_TLV 8 @ mac @ pad"])
      (auto simp: dps_set_vmac_tlv_def wf_mac_def)
qed

lemma writes_euid [c_writes]:
  assumes "wf_mac mac"
  shows "writes (dps_set_euid_tlv vnid mac) 16
    (\<lambda>p. \<exists>pad. length pad = 2 \<and> p = hdrb 1 EUID_TLV 12 @ be32 vnid @ mac @ pad)"
proof (rule writesI)
  fix p bs :: bytes assume "length p = 16"
  then obtain h v m pad where "p = h @ v @ m @ pad" "length h = 4" "length v = 4" "length m = 6" "length pad = 2"
    using segments [of p "[4, 4, 6, 2]"] by (auto simp: map_eq_Cons_conv)
  then show "\<exists>p'. length p' = 16 \<and>
      (\<exists>pad. length pad = 2 \<and> p' = hdrb 1 EUID_TLV 12 @ be32 vnid @ mac @ pad) \<and>
      dps_set_euid_tlv vnid mac (p @ bs) = Some (p' @ bs, 16)"
    using assms by (intro exI [of _ "hdrb 1 EUID_TLV 12 @ be32 vnid @ mac @ pad"])
      (auto simp: dps_set_euid_tlv_def wf_mac_def)
qed

lemma writes_svcloc4 [c_writes]:
  assumes "ia_family a = AF_INET \<or> ia_family a = 0"
  shows "writes (dps_set_svcloc_tlv a) 12 (\<lambda>p. \<exists>xport. length xport = 2 \<and>
    p = hdrb 4 SERVICE_LOC_TLV 8 @ xport @ be16 (ia_port a) @ be32 (ia_ip4 a))"
proof (rule writesI)
  fix p bs :: bytes assume "length p = 12"
  then obtain h x q i where "p = h @ x @ q @ i" "length h = 4" "length x = 2" "length q = 2" "length i = 4"
    using segments [of p "[4, 2, 2, 4]"] by (auto simp: map_eq_Cons_conv)
  then show "\<exists>p'. length p' = 12 \<and> (\<exists>xport. length xport = 2 \<and>
      p' = hdrb 4 SERVICE_LOC_TLV 8 @ xport @ be16 (ia_port a) @ be32 (ia_ip4 a)) \<and>
      dps_set_svcloc_tlv a (p @ bs) = Some (p' @ bs, 12)"
    using assms by (intro exI [of _ "hdrb 4 SERVICE_LOC_TLV 8 @ x @ be16 (ia_port a) @ be32 (ia_ip4 a)"])
      (auto simp: dps_set_svcloc_tlv_def)
qed

lemma writes_svcloc6 [c_writes]:
  assumes "ia_family a = AF_INET6" and "wf_ip a"
  shows "writes (dps_set_svcloc_tlv a) 24 (\<lambda>p. \<exists>xport. length xport = 2 \<and>
    p = hdrb 6 SERVICE_LOC_TLV 20 @ xport @ be16 (ia_port a) @ ia_ip6 a)"
proof (rule writesI)
  fix p bs :: bytes assume "length p = 24"
  then obtain h x q i where "p = h @ x @ q @ i" "length h = 4" "length x = 2" "length q = 2" "length i = 16"
    using segments [of p "[4, 2, 2, 16]"] by (auto simp: map_eq_Cons_conv)
  then show "\<exists>p'. length p' = 24 \<and> (\<exists>xport. length xport = 2 \<and>
      p' = hdrb 6 SERVICE_LOC_TLV 20 @ xport @ be16 (ia_port a) @ ia_ip6 a) \<and>
      dps_set_svcloc_tlv a (p @ bs) = Some (p' @ bs, 24)"
    using assms by (intro exI [of _ "hdrb 6 SERVICE_LOC_TLV 20 @ x @ be16 (ia_port a) @ ia_ip6 a"])
      (auto simp: dps_set_svcloc_tlv_def wf_ip_def)
qed

lemma writes_policy_id [c_writes]:
  "writes (dps_set_policy_id_tlv pid ver ttl) 16
     (\<lambda>p. p = hdrb 1 POLICY_ID_TLV 12 @ be32 pid @ be32 ver @ be32 ttl)"
proof (rule writesI)
  fix p bs :: bytes assume "length p = 16"
  then obtain h x y z where "p = h @ x @ y @ z" "length h = 4" "length x = 4" "length y = 4" "length z = 4"
    using segments [of p "[4, 4, 4, 4]"] by (auto simp: map_eq_Cons_conv)
  then show "\<exists>p'. length p' = 16 \<and> p' = hdrb 1 POLICY_ID_TLV 12 @ be32 pid @ be32 ver @ be32 ttl \<and>
      dps_set_policy_id_tlv pid ver ttl (p @ bs) = Some (p' @ bs, 16)"
    by (simp add: dps_set_policy_id_tlv_def)
qed

lemma at_off_here:
  assumes "writes f n P" and "length xs = k" and "n \<le> length ys"
  shows "\<exists>p. length p = n \<and> P p \<and> at_off k f (xs @ ys) = Some (xs @ p @ drop n ys, k + n)"
  using writesD [OF assms(1,3)] assms(2) by (auto simp: at_off_def)

text \<open>The address inside an endpoint: IPv6 if the family says so, IPv4 otherwise.\<close>

definition ei_len :: "dps_endpoint_info_t \<Rightarrow> nat" where
  "ei_len e = (if ia_family (ei_vm_ip_addr e) = AF_INET6 then 36 else 24)"

definition ei_addr :: "dps_endpoint_info_t \<Rightarrow> bytes" where
  "ei_addr e = (if ia_family (ei_vm_ip_addr e) = AF_INET6
     then hdrb 6 IP_ADDR_TLV 16 @ ia_ip6 (ei_vm_ip_addr e)
     else hdrb 4 IP_ADDR_TLV 4 @ be32 (ia_ip4 (ei_vm_ip_addr e)))"

lemma writes_endpoint_info [c_writes]:
  assumes "wf_mac (ei_mac e)" and "wf_ip (ei_vm_ip_addr e)"
  shows "writes (dps_set_endpoint_info_tlv e) (ei_len e) (\<lambda>p. \<exists>pad. length pad = 2 \<and>
    p = hdrb 1 ENDPOINT_INFO_TLV (of_nat (ei_len e - 4)) @ be32 (ei_vnid e) @ ei_mac e @ pad @ ei_addr e)"
proof (rule writesI)
  fix p bs :: bytes assume "length p = ei_len e"
  moreover have "16 \<le> ei_len e" by (simp add: ei_len_def)
  then obtain k where "ei_len e = 16 + k"
    using le_Suc_ex by blast
  ultimately obtain h v m pad a where *: "p = h @ v @ m @ pad @ a" "length h = 4" "length v = 4" "length m = 6"
      "length pad = 2" "length a = ei_len e - 16"
    using segments [of p "[4, 4, 6, 2, k]"] by (auto simp: map_eq_Cons_conv)
  let ?g = "\<lambda>l. hdrb 1 ENDPOINT_INFO_TLV l @ be32 (ei_vnid e) @ ei_mac e @ pad"
  have 6: "at_off 16 (dps_set_ip6_tlv (ia_ip6 (ei_vm_ip_addr e))) (?g 32 @ a @ bs) = Some (?g 32 @ ei_addr e @ bs, 36)"
    if "ia_family (ei_vm_ip_addr e) = AF_INET6"
    using at_off_here [OF writes_ip6, of "ia_ip6 (ei_vm_ip_addr e)" "?g 32" 16 "a @ bs"] that * assms
    by (auto simp: ei_addr_def wf_ip_def wf_mac_def ei_len_def)
  have 4: "at_off 16 (dps_set_ip4_tlv (ia_ip4 (ei_vm_ip_addr e))) (?g 20 @ a @ bs) = Some (?g 20 @ ei_addr e @ bs, 24)"
    if "ia_family (ei_vm_ip_addr e) \<noteq> AF_INET6"
    using at_off_here [OF writes_ip4, of "?g 20" 16 "a @ bs" "ia_ip4 (ei_vm_ip_addr e)"] that * assms
    by (auto simp: ei_addr_def wf_mac_def ei_len_def)
  show "\<exists>p'. length p' = ei_len e \<and> (\<exists>pad. length pad = 2 \<and>
      p' = hdrb 1 ENDPOINT_INFO_TLV (of_nat (ei_len e - 4)) @ be32 (ei_vnid e) @ ei_mac e @ pad @ ei_addr e) \<and>
      dps_set_endpoint_info_tlv e (p @ bs) = Some (p' @ bs, ei_len e)"
    using 4 6 * assms
    by (intro exI [of _ "?g (of_nat (ei_len e - 4)) @ ei_addr e"])
       (auto simp: dps_set_endpoint_info_tlv_def wf_mac_def wf_ip_def ei_len_def ei_addr_def)
qed

section \<open>Images of the variable-size TLVs\<close>

lemma writes_store [c_writes]:
  "writes (store16 v) 2 (\<lambda>p. p = bytes16 v)"
  "writes (store32 w) 4 (\<lambda>p. p = bytes32 w)"
  by (auto intro!: writesI simp: store16_def store32_def)

lemma writes_store_bytes [c_writes]:
  "length mem = n \<Longrightarrow> writes (store_bytes n mem) n (\<lambda>p. p = mem)"
  by (auto intro!: writesI simp: store_bytes_def)

lemma writes_tlv_block:
  assumes "emits fill m Q"
  shows "writes (tlv_block v t fill) (4 + m) (\<lambda>p. \<exists>q. p = hdrb v t (of_nat m) @ q \<and> Q q)"
proof (rule writesI)
  fix p bs :: bytes assume "length p = 4 + m"
  then obtain h r where *: "p = h @ r" "length h = 4" "length r = m"
    using segments [of p "[4, m]"] by (auto simp: map_eq_Cons_conv)
  obtain q where "length q = m" "Q q" "fill (h @ r @ bs, 4) = Some (h @ q @ bs, 4 + m)"
    using emitsD [OF assms, of "r @ bs" h] * by auto
  then show "\<exists>p'. length p' = 4 + m \<and> (\<exists>q. p' = hdrb v t (of_nat m) @ q \<and> Q q) \<and>
      tlv_block v t fill (p @ bs) = Some (p' @ bs, 4 + m)"
    using * by (intro exI [of _ "hdrb v t (of_nat m) @ q"]) (auto simp: tlv_block_def)
qed

lemma writes_hdr_first:
  assumes "emits fill m Q"
  shows "writes (\<lambda>b. dps_set_tlv_hdr v t l b \<bind> (\<lambda>b. fill (b, 4))) (4 + m) (\<lambda>p. \<exists>q. p = hdrb v t l @ q \<and> Q q)"
proof (rule writesI)
  fix p bs :: bytes assume "length p = 4 + m"
  then obtain h r where *: "p = h @ r" "length h = 4" "length r = m"
    using segments [of p "[4, m]"] by (auto simp: map_eq_Cons_conv)
  obtain q where "length q = m" "Q q" "fill (hdrb v t l @ r @ bs, 4) = Some (hdrb v t l @ q @ bs, 4 + m)"
    using emitsD [OF assms, of "r @ bs" "hdrb v t l"] * by auto
  then show "\<exists>p'. length p' = 4 + m \<and> (\<exists>q. p' = hdrb v t l @ q \<and> Q q) \<and>
      dps_set_tlv_hdr v t l (p @ bs) \<bind> (\<lambda>b. fill (b, 4)) = Some (p' @ bs, 4 + m)"
    using * by (intro exI [of _ "hdrb v t l @ q"]) auto
qed

lemma writes_bind0:
  "writes f n P \<Longrightarrow> emits d m Q \<Longrightarrow> writes (\<lambda>b. put f (b, 0) \<bind> d) (n + m) (seqp P Q)"
  using writes_of_emits [OF emits_bind [OF emits_put]] by fastforce

lemma writes_cong:
  "writes f n P \<Longrightarrow> n = n' \<Longrightarrow> (\<And>p. length p = n \<Longrightarrow> P p \<Longrightarrow> Q p) \<Longrightarrow> writes f n' Q"
  using writes_mono by blast

lemma emits_cong:
  "emits f n P \<Longrightarrow> n = n' \<Longrightarrow> (\<And>p. length p = n \<Longrightarrow> P p \<Longrightarrow> Q p) \<Longrightarrow> emits f n' Q"
  using emits_mono by blast

lemmas emit_rules = emits_put emits_bind writes_bind0 c_writes

definition tunnel_len :: "dps_tunnel_endpoint_t \<Rightarrow> nat" where
  "tunnel_len t = (if te_family t = AF_INET then 16 else if te_family t = AF_INET6 then 28 else 0)"

definition tunnel_img :: "dps_tunnel_endpoint_t \<Rightarrow> bytes" where
  "tunnel_img t =
     (if te_family t = AF_INET then be16 4 @ be16 (te_port t) @ be16 (te_tunnel_type t) @ be16 (te_flags t) @
        be32 (te_vnid t) @ be32 (te_ip4 t)
      else if te_family t = AF_INET6 then be16 6 @ be16 (te_port t) @ be16 (te_tunnel_type t) @ be16 (te_flags t) @
        be32 (te_vnid t) @ te_ip6 t
      else [])"

lemma length_tunnel_img [simp]: "wf_tunnel t \<Longrightarrow> length (tunnel_img t) = tunnel_len t"
  by (simp add: tunnel_img_def tunnel_len_def wf_tunnel_def)

lemma writes_tunnel4:
  "te_family t = AF_INET \<Longrightarrow> writes (dps_set_ipv4_tunnel_info t) 16 (\<lambda>p. p = tunnel_img t)"
  unfolding dps_set_ipv4_tunnel_info_def [abs_def]
  by (rule writes_cong, (rule emit_rules)+) (auto simp: tunnel_img_def seqp_def)

lemma writes_tunnel6:
  "te_family t = AF_INET6 \<Longrightarrow> wf_tunnel t \<Longrightarrow> writes (dps_set_ipv6_tunnel_info t) 28 (\<lambda>p. p = tunnel_img t)"
  unfolding dps_set_ipv6_tunnel_info_def [abs_def]
  by (rule writes_cong, (rule emit_rules)+) (auto simp: tunnel_img_def seqp_def wf_tunnel_def)

lemma emits_tunnel_info:
  assumes "wf_tunnel t"
  shows "emits (set_tunnel_info t) (tunnel_len t) (\<lambda>p. p = tunnel_img t)"
proof -
  consider "te_family t = AF_INET" | "te_family t = AF_INET6" | "te_family t \<noteq> AF_INET" "te_family t \<noteq> AF_INET6"
    by blast
  then show ?thesis
  proof cases
    case 1
    then show ?thesis using emits_put [OF writes_tunnel4 [OF 1]]
      by (simp add: set_tunnel_info_def [abs_def] tunnel_len_def)
  next
    case 2
    then show ?thesis using emits_put [OF writes_tunnel6 [OF 2 assms]]
      by (simp add: set_tunnel_info_def [abs_def] tunnel_len_def)
  next
    case 3
    then show ?thesis using emits_Some
      by (simp add: set_tunnel_info_def [abs_def] tunnel_len_def tunnel_img_def)
  qed
qed

lemma list_all2_images:
  "list_all2 (\<lambda>x p. length p = sz x \<and> p = g x) xs ps \<Longrightarrow> ps = map g xs"
  by (induction rule: list_all2_induct) auto

lemma emits_for_each_images:
  assumes "\<And>x. x \<in> set xs \<Longrightarrow> emits (f x) (sz x) (\<lambda>p. p = g x)"
  shows "emits (for_each f xs) (sum_list (map sz xs)) (\<lambda>p. p = concat (map g xs))"
  by (rule emits_mono [OF emits_for_each [OF assms]]) (auto dest: list_all2_images)

definition tunnels_len :: "dps_tunnel_endpoint_t list \<Rightarrow> nat" where
  "tunnels_len ts = sum_list (map tunnel_len ts)"

definition tunnel_list_len :: "dps_tunnel_list_t \<Rightarrow> nat" where
  "tunnel_list_len l = (if tl_num_of_tunnels l = 0 then 0 else 4 + tunnels_len (tl_tunnel_list l))"

definition tunnel_list_img :: "dps_tunnel_list_t \<Rightarrow> bytes" where
  "tunnel_list_img l = (if tl_num_of_tunnels l = 0 then []
     else hdrb 1 TUNNEL_LIST_TLV (of_nat (tunnels_len (tl_tunnel_list l))) @ concat (map tunnel_img (tl_tunnel_list l)))"

lemma writes_nothing: "writes (\<lambda>b. Some (b, 0)) 0 (\<lambda>p. p = [])"
  by (simp add: writes_def)

lemma writes_tunnel_list [c_writes]:
  assumes "wf_tunnel_list l"
  shows "writes (dps_set_tunnel_list_tlv (tl_tunnel_list l) (tl_num_of_tunnels l)) (tunnel_list_len l)
    (\<lambda>p. p = tunnel_list_img l)"
proof (cases "tl_num_of_tunnels l = 0")
  case True
  then show ?thesis using writes_nothing
    by (simp add: dps_set_tunnel_list_tlv_def [abs_def] tunnel_list_len_def tunnel_list_img_def)
next
  case False
  let ?ts = "tl_tunnel_list l"
  have "slots (unat (tl_num_of_tunnels l)) ?ts = Some ?ts"
    using assms by (simp add: slots_def wf_tunnel_list_def)
  moreover have "writes (tlv_block 1 TUNNEL_LIST_TLV (for_each set_tunnel_info ?ts)) (4 + tunnels_len ?ts)
      (\<lambda>p. \<exists>q. p = hdrb 1 TUNNEL_LIST_TLV (of_nat (tunnels_len ?ts)) @ q \<and> q = concat (map tunnel_img ?ts))"
    unfolding tunnels_len_def
    using assms by (intro writes_tlv_block emits_for_each_images emits_tunnel_info)
      (auto simp: wf_tunnel_list_def list_all_iff)
  ultimately show ?thesis using False
    by (simp add: dps_set_tunnel_list_tlv_def [abs_def] tunnel_list_len_def tunnel_list_img_def)
qed

text \<open>The host-order words and the sixteen-byte groups of an address array.\<close>

definition word_at :: "bytes \<Rightarrow> nat \<Rightarrow> u32" where
  "word_at mem i = of_bytes32 (take 4 (drop (4 * i) mem))"

definition group_at :: "bytes \<Rightarrow> nat \<Rightarrow> bytes" where
  "group_at mem i = take 16 (drop (16 * i) mem)"

lemma ucast_mult_num: "(ucast (n * of_nat k :: u32) :: u16) = of_nat (k * unat n)"
proof -
  have "(ucast (of_nat m :: u32) :: u16) = of_nat m" for m
    by transfer simp
  from this [of "unat n * k"] show ?thesis by (simp add: mult.commute)
qed

definition ipv4_list_img :: "bytes \<Rightarrow> nat \<Rightarrow> bytes" where
  "ipv4_list_img mem n = hdrb 1 IPV4_ADDR_LIST_TLV (of_nat (4 * n)) @ concat (map (be32 \<circ> word_at mem) [0..<n])"

definition ipv6_list_img :: "bytes \<Rightarrow> nat \<Rightarrow> bytes" where
  "ipv6_list_img mem n = hdrb 1 IPV6_ADDR_LIST_TLV (of_nat (16 * n)) @ concat (map (group_at mem) [0..<n])"

lemma writes_ipv4_list [c_writes]:
  assumes "4 * unat n \<le> length mem"
  shows "writes (dps_set_ipv4_list_tlv mem n) (4 + 4 * unat n) (\<lambda>p. p = ipv4_list_img mem (unat n))"
proof -
  let ?f = "\<lambda>i s. ld32 (4 * i) mem \<bind> (\<lambda>v. put (store32 (htonl v)) s)"
  have "emits (?f i) 4 (\<lambda>p. p = be32 (word_at mem i))" if "i \<in> set [0..<unat n]" for i
  proof -
    have "ld32 (4 * i) mem = Some (word_at mem i)"
      using that assms by (simp add: ld32_def peek_def word_at_def)
    then show ?thesis using emits_put [OF writes_store(2), of "htonl (word_at mem i)"] by simp
  qed
  then have "emits (for_each ?f [0..<unat n]) (sum_list (map (\<lambda>_. 4) [0..<unat n]))
      (\<lambda>p. p = concat (map (\<lambda>i. be32 (word_at mem i)) [0..<unat n]))"
    by (rule emits_for_each_images)
  then show ?thesis
    unfolding dps_set_ipv4_list_tlv_def [abs_def]
    by (rule writes_cong [OF writes_hdr_first])
       (auto simp: ipv4_list_img_def sum_list_triv comp_def mult.commute
          ucast_mult_num [where k = 4, simplified])
qed

lemma writes_ipv6_list [c_writes]:
  assumes "16 * unat n \<le> length mem"
  shows "writes (dps_set_ipv6_list_tlv mem n) (4 + 16 * unat n) (\<lambda>p. p = ipv6_list_img mem (unat n))"
proof -
  let ?f = "\<lambda>i s. peek (16 * i) 16 mem \<bind> (\<lambda>v. put (store_bytes 16 v) s)"
  have "emits (?f i) 16 (\<lambda>p. p = group_at mem i)" if "i \<in> set [0..<unat n]" for i
  proof -
    have *: "peek (16 * i) 16 mem = Some (group_at mem i)" "length (group_at mem i) = 16"
      using that assms by (simp_all add: peek_def group_at_def)
    then show ?thesis using emits_put [OF writes_store_bytes [OF *(2)]] by simp
  qed
  then have "emits (for_each ?f [0..<unat n]) (sum_list (map (\<lambda>_. 16) [0..<unat n]))
      (\<lambda>p. p = concat (map (group_at mem) [0..<unat n]))"
    by (rule emits_for_each_images)
  then show ?thesis
    unfolding dps_set_ipv6_list_tlv_def [abs_def]
    by (rule writes_cong [OF writes_hdr_first])
       (auto simp: ipv6_list_img_def sum_list_triv mult.commute ucast_mult_num [where k = 16, simplified])
qed

definition ip4_info_img :: "dps_ip4_info_t \<Rightarrow> bytes" where
  "ip4_info_img i = be32 (i4_ip i) @ be16 (i4_flags i) @ be16 (i4_reserved i)"

definition ip6_info_img :: "dps_ip6_info_t \<Rightarrow> bytes" where
  "ip6_info_img i = i6_ip i @ be16 (i6_flags i) @ be16 (i6_reserved i)"

text \<open>An address information list in use: its count fits the array.\<close>

definition wf_ip4_infos :: "dps_ip4_info_list_t \<Rightarrow> bool" where
  "wf_ip4_infos l \<longleftrightarrow> length (i4l_ip_info l) = MAX_VIP_ADDR \<and> unat (i4l_num_of_ips l) \<le> MAX_VIP_ADDR"

definition wf_ip6_infos :: "dps_ip6_info_list_t \<Rightarrow> bool" where
  "wf_ip6_infos l \<longleftrightarrow> length (i6l_ip_info l) = MAX_VIP_ADDR \<and> unat (i6l_num_of_ips l) \<le> MAX_VIP_ADDR \<and>
     list_all (\<lambda>i. length (i6_ip i) = 16) (i6l_ip_info l)"

definition ip4_infos :: "dps_ip4_info_list_t \<Rightarrow> dps_ip4_info_t list" where
  "ip4_infos l = take (unat (i4l_num_of_ips l)) (i4l_ip_info l)"

definition ip6_infos :: "dps_ip6_info_list_t \<Rightarrow> dps_ip6_info_t list" where
  "ip6_infos l = take (unat (i6l_num_of_ips l)) (i6l_ip_info l)"

lemma writes_ip4_info [c_writes]:
  assumes "wf_ip4_infos l"
  shows "writes (dps_set_ip4_info_tlv l) (4 + 8 * unat (i4l_num_of_ips l))
    (\<lambda>p. p = hdrb 1 IP4_INFO_LIST_TLV (of_nat (8 * unat (i4l_num_of_ips l))) @ concat (map ip4_info_img (ip4_infos l)))"
proof -
  let ?f = "\<lambda>i s. put (store32 (htonl (i4_ip i))) s \<bind> (\<lambda>s. put (store16 (htons (i4_flags i))) s \<bind>
      put (store16 (htons (i4_reserved i))))"
  have "emits (?f i) 8 (\<lambda>p. p = ip4_info_img i)" for i
    by (rule emits_cong, (rule emit_rules)+) (auto simp: ip4_info_img_def seqp_def)
  then have "emits (for_each ?f (ip4_infos l)) (sum_list (map (\<lambda>_. 8) (ip4_infos l)))
      (\<lambda>p. p = concat (map ip4_info_img (ip4_infos l)))"
    by (rule emits_for_each_images)
  moreover have "slots (unat (i4l_num_of_ips l)) (i4l_ip_info l) = Some (ip4_infos l)"
      "length (ip4_infos l) = unat (i4l_num_of_ips l)"
    using assms by (auto simp: slots_def ip4_infos_def wf_ip4_infos_def)
  ultimately show ?thesis
    unfolding dps_set_ip4_info_tlv_def [abs_def]
    by (auto intro!: writes_cong [OF writes_hdr_first] simp: sum_list_triv mult.commute)
qed

lemma writes_ip6_info [c_writes]:
  assumes "wf_ip6_infos l"
  shows "writes (dps_set_ip6_info_tlv l) (4 + 20 * unat (i6l_num_of_ips l))
    (\<lambda>p. p = hdrb 1 IP6_INFO_LIST_TLV (of_nat (20 * unat (i6l_num_of_ips l))) @ concat (map ip6_info_img (ip6_infos l)))"
proof -
  let ?f = "\<lambda>i s. put (store_bytes 16 (i6_ip i)) s \<bind> (\<lambda>s. put (store16 (htons (i6_flags i))) s \<bind>
      put (store16 (htons (i6_reserved i))))"
  have "emits (?f i) 20 (\<lambda>p. p = ip6_info_img i)" if "i \<in> set (ip6_infos l)" for i
  proof -
    have "length (i6_ip i) = 16"
      using that assms by (auto simp: ip6_infos_def wf_ip6_infos_def list_all_iff dest: in_set_takeD)
    note w = writes_store_bytes [OF this]
    show ?thesis
      by (rule emits_cong, (rule emit_rules w)+) (auto simp: ip6_info_img_def seqp_def)
  qed
  then have "emits (for_each ?f (ip6_infos l)) (sum_list (map (\<lambda>_. 20) (ip6_infos l)))
      (\<lambda>p. p = concat (map ip6_info_img (ip6_infos l)))"
    by (rule emits_for_each_images)
  moreover have "slots (unat (i6l_num_of_ips l)) (i6l_ip_info l) = Some (ip6_infos l)"
      "length (ip6_infos l) = unat (i6l_num_of_ips l)"
    using assms by (auto simp: slots_def ip6_infos_def wf_ip6_infos_def)
  ultimately show ?thesis
    unfolding dps_set_ip6_info_tlv_def [abs_def]
    by (auto intro!: writes_cong [OF writes_hdr_first] simp: sum_list_triv mult.commute)
qed

section \<open>Images of policies\<close>

definition rule_img :: "src_dst_vnid_t \<Rightarrow> bytes" where
  "rule_img r = be32 (sd_svnid r) @ be32 (sd_dvnid r)"

definition rule_group_img :: "u16 \<Rightarrow> u16 \<Rightarrow> src_dst_vnid_t list \<Rightarrow> bytes" where
  "rule_group_img action num rs = (if num = 0 then [] else be16 action @ be16 num @ concat (map rule_img rs))"

definition rule_group_len :: "u16 \<Rightarrow> nat" where
  "rule_group_len num = (if num = 0 then 0 else 4 + 8 * unat num)"

lemma length_rule_img [simp]: "length (rule_img r) = 8"
  by (simp add: rule_img_def)

lemma length_concat_rules [simp]: "length (concat (map rule_img rs)) = 8 * length rs"
  by (induction rs) auto

lemma emits_rules: "emits (set_rules rs) (8 * length rs) (\<lambda>p. p = concat (map rule_img rs))"
proof -
  let ?f = "\<lambda>r s. put (store32 (htonl (sd_svnid r))) s \<bind> put (store32 (htonl (sd_dvnid r)))"
  have "emits (?f r) 8 (\<lambda>p. p = rule_img r)" for r
    by (rule emits_cong, (rule emit_rules)+) (auto simp: rule_img_def seqp_def)
  then have "emits (for_each ?f rs) (sum_list (map (\<lambda>_. 8) rs)) (\<lambda>p. p = concat (map rule_img rs))"
    by (rule emits_for_each_images)
  then show ?thesis by (simp add: set_rules_def sum_list_triv mult.commute)
qed

lemma emits_rule_group:
  assumes "unat num \<le> length rules"
  shows "emits (set_rule_group action num rules) (rule_group_len num)
    (\<lambda>p. p = rule_group_img action num (take (unat num) rules))"
proof (cases "num = 0")
  case True
  then show ?thesis using emits_Some
    by (simp add: set_rule_group_def [abs_def] rule_group_len_def rule_group_img_def)
next
  case False
  let ?rs = "take (unat num) rules"
  have "emits (\<lambda>s. put (store16 (htons action)) s \<bind> (\<lambda>s. put (store16 (htons num)) s \<bind> set_rules ?rs))
      (4 + 8 * unat num) (\<lambda>p. p = be16 action @ be16 num @ concat (map rule_img ?rs))"
    by (rule emits_cong, (rule emit_rules emits_rules)+) (use assms in \<open>auto simp: seqp_def\<close>)
  moreover have "slots (unat num) rules = Some ?rs"
    using assms by (simp add: slots_def)
  ultimately show ?thesis using False
    by (simp add: set_rule_group_def [abs_def] rule_group_len_def rule_group_img_def)
qed

text \<open>A connectivity policy whose rules are all present and whose encoding fits the 16-bit length.\<close>

definition wf_policy :: "dps_policy_t \<Rightarrow> bool" where
  "wf_policy p \<longleftrightarrow> po_policy_type p = DPS_POLICY_TYPE_CONNECTIVITY \<and>
     length (po_src_dst_vnid p) = unat (po_num_permit_rules p) + unat (po_num_deny_rules p) \<and>
     8 * length (po_src_dst_vnid p) + 36 < 65536"

definition policy_rules_img :: "dps_policy_t \<Rightarrow> bytes" where
  "policy_rules_img p =
     rule_group_img 1 (po_num_permit_rules p) (take (unat (po_num_permit_rules p)) (po_src_dst_vnid p)) @
     rule_group_img 0 (po_num_deny_rules p) (drop (unat (po_num_permit_rules p)) (po_src_dst_vnid p))"

definition policy_rules_len :: "dps_policy_t \<Rightarrow> nat" where
  "policy_rules_len p = rule_group_len (po_num_permit_rules p) + rule_group_len (po_num_deny_rules p)"

lemma unat_policy_type_len:
  assumes "wf_policy p"
  shows "unat (policy_type_len p) = 8 + policy_rules_len p" and "policy_rules_len p + 8 < 65536"
proof -
  have u: "unat (4 + 8 * n :: u16) = 4 + 8 * unat n" if "8 * unat n + 36 < 65536" for n
    using that by (simp add: unat_word_ariths)
  have b: "8 * unat (po_num_permit_rules p) + 8 * unat (po_num_deny_rules p) + 36 < 65536"
    using assms by (simp add: wf_policy_def)
  show "unat (policy_type_len p) = 8 + policy_rules_len p"
    using assms b u [of "po_num_permit_rules p"] u [of "po_num_deny_rules p"]
    by (auto simp: policy_type_len_def policy_rules_len_def rule_group_len_def wf_policy_def unat_word_ariths)
  show "policy_rules_len p + 8 < 65536"
    using b by (auto simp: policy_rules_len_def rule_group_len_def)
qed

lemma emits_policy_rules:
  assumes "wf_policy p"
  shows "emits (\<lambda>s. set_rule_group 1 (po_num_permit_rules p) (po_src_dst_vnid p) s \<bind>
      set_rule_group 0 (po_num_deny_rules p) (drop (unat (po_num_permit_rules p)) (po_src_dst_vnid p)))
    (policy_rules_len p) (\<lambda>q. q = policy_rules_img p)"
  unfolding policy_rules_len_def
  by (rule emits_mono [OF emits_bind [OF emits_rule_group emits_rule_group]])
     (use assms in \<open>auto simp: wf_policy_def policy_rules_img_def seqp_def\<close>)

lemma writes_policy_type [c_writes]:
  assumes "wf_policy p"
  shows "writes (dps_set_policy_type_tlv p) (8 + policy_rules_len p)
    (\<lambda>q. q = hdrb 1 POLICY_TYPE_TLV (of_nat (4 + policy_rules_len p)) @
       hdrb (po_version p) DPS_POLICY_TYPE_CONNECTIVITY (po_num_permit_rules p + po_num_deny_rules p) @ policy_rules_img p)"
proof (rule writesI)
  fix q bs :: bytes assume "length q = 8 + policy_rules_len p"
  then obtain h a b c r where *: "q = h @ [a, b] @ c @ r" "length h = 4" "length c = 2"
      "length r = policy_rules_len p"
    using segments [of q "[4, 1, 1, 2, policy_rules_len p]"]
    by (auto simp: map_eq_Cons_conv length_Suc_conv)
  let ?m = "hdrb (po_version p) DPS_POLICY_TYPE_CONNECTIVITY (po_num_permit_rules p + po_num_deny_rules p)"
  have "length (policy_rules_img p) = policy_rules_len p" and
    e: "set_rule_group 1 (po_num_permit_rules p) (po_src_dst_vnid p) (h @ ?m @ r @ bs, 8) \<bind>
      set_rule_group 0 (po_num_deny_rules p) (drop (unat (po_num_permit_rules p)) (po_src_dst_vnid p))
      = Some (h @ ?m @ policy_rules_img p @ bs, 8 + policy_rules_len p)"
    using emitsD [OF emits_policy_rules [OF assms], of "r @ bs" "h @ ?m"] * by auto
  then obtain s where s: "set_rule_group 1 (po_num_permit_rules p) (po_src_dst_vnid p) (h @ ?m @ r @ bs, 8) = Some s"
      "set_rule_group 0 (po_num_deny_rules p) (drop (unat (po_num_permit_rules p)) (po_src_dst_vnid p)) s
       = Some (h @ ?m @ policy_rules_img p @ bs, 8 + policy_rules_len p)"
    by (auto simp: bind_eq_Some_conv)
  have st: "st8 4 v (h @ [a, b] @ ys) = Some (h @ [v, b] @ ys)"
      "st8 5 v (h @ [a, b] @ ys) = Some (h @ [a, v] @ ys)"
      "st16 6 (htons w) (h @ [a, b] @ c @ ys) = Some (h @ hdrb a b w @ ys)" for v a b ys w
    using *(2,3) by (auto simp: st8_def st16_def poke_def hdrb_def)
  have "(policy_type_len p - 4 :: u16) = of_nat (4 + policy_rules_len p)"
    using unat_policy_type_len [OF assms] by (simp add: word_unat_eq_iff unat_word_ariths unat_of_nat unat_sub_if')
  then show "\<exists>q'. length q' = 8 + policy_rules_len p \<and>
      q' = hdrb 1 POLICY_TYPE_TLV (of_nat (4 + policy_rules_len p)) @ ?m @ policy_rules_img p \<and>
      dps_set_policy_type_tlv p (q @ bs) = Some (q' @ bs, 8 + policy_rules_len p)"
    using *(2) assms unat_policy_type_len [OF assms] emitsD [OF emits_policy_rules [OF assms], of "r @ bs" "h @ ?m"] *(4)
    unfolding dps_set_policy_type_tlv_def *(1) append_assoc st Option.bind.bind_lunit
    by (auto simp: st [simplified] s wf_policy_def)
qed

end
