(* ===== verification/Dps_Tlv_Codec.thy ===== *)
theory Dps_Tlv_Codec
  imports Dps_Tlv_Image
begin

text \<open>
  The contract between the \<open>dps_set_*\<close> and the \<open>dps_get_*\<close>
  routine of a TLV, as a locale, and its interpretation for every TLV of the
  protocol.  What the reader delivers is a relation between the value
  written, the old and the new contents of the destination, because some
  bytes of the image are not determined by the writer.
\<close>

definition tlv_image :: "(bytes \<Rightarrow> 'o \<Rightarrow> ('o \<times> nat) option) \<Rightarrow> u8 \<Rightarrow> nat \<Rightarrow> ('o \<Rightarrow> bool) \<Rightarrow>
    ('o \<Rightarrow> 'o \<Rightarrow> bool) \<Rightarrow> bytes \<Rightarrow> bool" where
  "tlv_image rd c n D R p \<longleftrightarrow> length p = n \<and> (\<exists>v q. p = hdrb v c (of_nat (n - 4)) @ q) \<and>
     (\<forall>r st. D st \<longrightarrow> (\<exists>st'. rd (p @ r) st = Some (st', n) \<and> R st st'))"

locale tlv_codec =
  fixes wr :: "'a \<Rightarrow> bytes \<Rightarrow> cursor option"
    and rd :: "'a \<Rightarrow> bytes \<Rightarrow> 'o \<Rightarrow> ('o \<times> nat) option"
    and sz :: "'a \<Rightarrow> nat"
    and code :: "'a \<Rightarrow> u8"
    and ok :: "'a \<Rightarrow> bool"
    and dst :: "'a \<Rightarrow> 'o \<Rightarrow> bool"
    and got :: "'a \<Rightarrow> 'o \<Rightarrow> 'o \<Rightarrow> bool"
  assumes image: "ok x \<Longrightarrow> writes (wr x) (sz x) (tlv_image (rd x) (code x) (sz x) (dst x) (got x))"
begin

lemma round_trip:
  assumes "ok x" and "sz x \<le> length buff" and "dst x st"
  shows "\<exists>buff' st'. wr x buff = Some (buff', sz x) \<and> length buff' = length buff \<and>
    drop (sz x) buff' = drop (sz x) buff \<and> rd x buff' st = Some (st', sz x) \<and> got x st st'"
proof -
  obtain p where p: "length p = sz x" "tlv_image (rd x) (code x) (sz x) (dst x) (got x) p"
      "wr x buff = Some (p @ drop (sz x) buff, sz x)"
    using writesD [OF image] assms by blast
  then obtain st' where "rd x (p @ drop (sz x) buff) st = Some (st', sz x)" "got x st st'"
    using assms(3) unfolding tlv_image_def by blast
  with p assms(2) show ?thesis by auto
qed

lemma header:
  assumes "ok x" and "sz x \<le> length buff"
  shows "\<exists>buff' h. wr x buff = Some (buff', sz x) \<and> dps_get_tlv_hdr buff' = Some h \<and>
    tlv_type h = code x \<and> tlv_len h = of_nat (sz x - 4)"
proof -
  obtain p where "length p = sz x" "tlv_image (rd x) (code x) (sz x) (dst x) (got x) p"
      "wr x buff = Some (p @ drop (sz x) buff, sz x)"
    using writesD [OF image] assms by blast
  then show ?thesis unfolding tlv_image_def by auto
qed

end

text \<open>One iteration of a scan over a TLV that a writer left in the buffer.\<close>

lemma tlv_scan_image:
  assumes "tlv_image rd c n D R p" and "drop pos buff = p @ r" and "pos < fin" and "D (g st)"
    and "\<And>v b. sw \<lparr>tlv_ver = v, tlv_type = c, tlv_len = of_nat (n - 4)\<rparr> b st = took f (rd b (g st))"
  shows "\<exists>x. R (g st) x \<and> tlv_scan fin sw buff st pos = tlv_scan fin sw buff (f x) (pos + n)"
proof -
  obtain v q where p: "p = hdrb v c (of_nat (n - 4)) @ q" using assms(1) by (auto simp: tlv_image_def)
  obtain x where x: "rd (p @ r) (g st) = Some (x, n)" "R (g st) x"
    using assms(1) [unfolded tlv_image_def, THEN conjunct2, THEN conjunct2, rule_format, OF assms(4)] by blast
  have "tlv_step sw buff ((st, False), pos) = Some ((f x, False), pos + n)"
    using x(1) by (simp add: tlv_step_def assms(2,5) p took_def)
  then have "tlv_scan fin sw buff st pos = tlv_scan fin sw buff (f x) (pos + n)"
    unfolding tlv_scan_def using assms(3) by (intro while_opt_step) auto
  with x(2) show ?thesis by blast
qed

lemma tlv_scan_done: "fin \<le> pos \<Longrightarrow> tlv_scan fin sw buff st pos = Some ((st, False), pos)"
  by (simp add: tlv_scan_def while_opt_done)

section \<open>Addresses\<close>

lemma ip4_of_set_ip4 [simp]: "of_bytes32 (take 4 (set_ip4 v u)) = v"
  by (simp add: set_ip4_def)

lemma length_set_ip4 [simp]: "length u = 16 \<Longrightarrow> length (set_ip4 v u) = 16"
  by (simp add: set_ip4_def)

definition ip_tlv_len :: "ip_addr_t \<Rightarrow> nat" where
  "ip_tlv_len a = (if ia_family a = AF_INET6 then DPS_IP6_TLV_LEN else DPS_IP4_TLV_LEN)"

definition ok_ip :: "ip_addr_t \<Rightarrow> bool" where
  "ok_ip a \<longleftrightarrow> wf_ip a \<and> (ia_family a = AF_INET \<or> ia_family a = 0 \<or> ia_family a = AF_INET6)"

text \<open>The address a reader holds afterwards: an unset family is sent as IPv4.\<close>

definition recv_ip :: "ip_addr_t \<Rightarrow> ip_addr_t \<Rightarrow> ip_addr_t" where
  "recv_ip a st = (if ia_family a = AF_INET6 then st\<lparr>ia_ip6 := ia_ip6 a, ia_family := AF_INET6\<rparr>
     else st\<lparr>ia_ip6 := set_ip4 (ia_ip4 a) (ia_ip6 st), ia_family := AF_INET\<rparr>)"

interpretation ip_tlv: tlv_codec dps_set_ip_tlv "\<lambda>_. dps_get_ip_tlv" ip_tlv_len "\<lambda>_. IP_ADDR_TLV" ok_ip
  "\<lambda>_ _. True" "\<lambda>a st st'. st' = recv_ip a st"
proof
  fix a assume ok: "ok_ip a"
  show "writes (dps_set_ip_tlv a) (ip_tlv_len a)
      (tlv_image dps_get_ip_tlv IP_ADDR_TLV (ip_tlv_len a) (\<lambda>_. True) (\<lambda>st st'. st' = recv_ip a st))"
  proof (cases "ia_family a = AF_INET6")
    case True
    have "writes (dps_set_ip6_tlv (ia_ip6 a)) 20 (tlv_image dps_get_ip_tlv IP_ADDR_TLV 20 (\<lambda>_. True) (\<lambda>st st'. st' = recv_ip a st))"
      using ok True by (intro writes_mono [OF writes_ip6])
        (auto simp: tlv_image_def ok_ip_def wf_ip_def dps_get_ip_tlv_def dps_get_ip6_tlv_def recv_ip_def)
    with True show ?thesis by (simp add: dps_set_ip_tlv_def [abs_def] ip_tlv_len_def)
  next
    case False
    have "writes (dps_set_ip4_tlv (ia_ip4 a)) 8 (tlv_image dps_get_ip_tlv IP_ADDR_TLV 8 (\<lambda>_. True) (\<lambda>st st'. st' = recv_ip a st))"
      using False by (intro writes_mono [OF writes_ip4])
        (auto simp: tlv_image_def dps_get_ip_tlv_def dps_get_ip4_tlv_def recv_ip_def)
    with False ok show ?thesis by (simp add: dps_set_ip_tlv_def [abs_def] ip_tlv_len_def ok_ip_def)
  qed
qed

interpretation euid_tlv: tlv_codec "\<lambda>(vnid, mac). dps_set_euid_tlv vnid mac" "\<lambda>_ b _. dps_get_euid_tlv b"
  "\<lambda>_. DPS_EUID_TLV_LEN" "\<lambda>_. EUID_TLV" "\<lambda>(vnid, mac). wf_mac mac" "\<lambda>_ _. True" "\<lambda>x _ st'. st' = x"
proof
  fix x :: "u32 \<times> bytes" assume "case x of (vnid, mac) \<Rightarrow> wf_mac mac"
  then show "writes (case x of (vnid, mac) \<Rightarrow> dps_set_euid_tlv vnid mac) DPS_EUID_TLV_LEN
      (tlv_image (\<lambda>b _. dps_get_euid_tlv b) EUID_TLV DPS_EUID_TLV_LEN (\<lambda>_. True) (\<lambda>_ st'. st' = x))"
    by (cases x) (auto intro!: writes_mono [OF writes_euid] simp: tlv_image_def dps_get_euid_tlv_def wf_mac_def)
qed

interpretation vmac_tlv: tlv_codec dps_set_vmac_tlv "\<lambda>_ b _. dps_get_vmac_tlv b"
  "\<lambda>_. DPS_VMAC_TLV_LEN" "\<lambda>_. VMAC_TLV" wf_mac "\<lambda>_ _. True" "\<lambda>x _ st'. st' = x"
  by unfold_locales
     (auto intro!: writes_mono [OF writes_vmac] simp: tlv_image_def dps_get_vmac_tlv_def wf_mac_def)

text \<open>
  The writer of a service location leaves \<open>xport_type\<close> as it finds it,
  so that field of the result is not determined.
\<close>

definition svcloc_len :: "ip_addr_t \<Rightarrow> nat" where
  "svcloc_len a = (if ia_family a = AF_INET6 then DPS_SVCLOC6_TLV_LEN else DPS_SVCLOC4_TLV_LEN)"

definition got_svcloc :: "ip_addr_t \<Rightarrow> ip_addr_t \<Rightarrow> ip_addr_t \<Rightarrow> bool" where
  "got_svcloc a st st' \<longleftrightarrow> st' = (recv_ip a st)\<lparr>ia_port := ia_port a, ia_xport_type := ia_xport_type st'\<rparr>"

interpretation svcloc_tlv: tlv_codec dps_set_svcloc_tlv "\<lambda>_. dps_get_svcloc_tlv" svcloc_len "\<lambda>_. SERVICE_LOC_TLV"
  ok_ip "\<lambda>_ _. True" got_svcloc
proof
  fix a assume ok: "ok_ip a"
  show "writes (dps_set_svcloc_tlv a) (svcloc_len a)
      (tlv_image dps_get_svcloc_tlv SERVICE_LOC_TLV (svcloc_len a) (\<lambda>_. True) (got_svcloc a))"
  proof (cases "ia_family a = AF_INET6")
    case True
    have "writes (dps_set_svcloc_tlv a) 24 (tlv_image dps_get_svcloc_tlv SERVICE_LOC_TLV 24 (\<lambda>_. True) (got_svcloc a))"
      using ok True by (intro writes_mono [OF writes_svcloc6])
        (auto simp: tlv_image_def ok_ip_def wf_ip_def dps_get_svcloc_tlv_def recv_ip_def got_svcloc_def ld16_def)
    with True show ?thesis by (simp add: svcloc_len_def)
  next
    case False
    have "writes (dps_set_svcloc_tlv a) 12 (tlv_image dps_get_svcloc_tlv SERVICE_LOC_TLV 12 (\<lambda>_. True) (got_svcloc a))"
      using ok False by (intro writes_mono [OF writes_svcloc4])
        (auto simp: tlv_image_def ok_ip_def dps_get_svcloc_tlv_def recv_ip_def got_svcloc_def ld16_def)
    with False show ?thesis by (simp add: svcloc_len_def)
  qed
qed

definition ok_endpoint_info :: "dps_endpoint_info_t \<Rightarrow> bool" where
  "ok_endpoint_info e \<longleftrightarrow> wf_mac (ei_mac e) \<and> wf_ip (ei_vm_ip_addr e)"

interpretation endpoint_info_tlv: tlv_codec dps_set_endpoint_info_tlv "\<lambda>_. dps_get_endpoint_info_tlv" ei_len
  "\<lambda>_. ENDPOINT_INFO_TLV" ok_endpoint_info "\<lambda>_ _. True"
  "\<lambda>e st st'. st' = st\<lparr>ei_vnid := ei_vnid e, ei_mac := ei_mac e, ei_vm_ip_addr := recv_ip (ei_vm_ip_addr e) (ei_vm_ip_addr st)\<rparr>"
proof
  fix e assume "ok_endpoint_info e"
  then show "writes (dps_set_endpoint_info_tlv e) (ei_len e) (tlv_image dps_get_endpoint_info_tlv ENDPOINT_INFO_TLV (ei_len e)
      (\<lambda>_. True) (\<lambda>st st'. st' = st\<lparr>ei_vnid := ei_vnid e, ei_mac := ei_mac e,
         ei_vm_ip_addr := recv_ip (ei_vm_ip_addr e) (ei_vm_ip_addr st)\<rparr>))"
    by (intro writes_mono [OF writes_endpoint_info])
       (auto simp: tlv_image_def ok_endpoint_info_def wf_mac_def wf_ip_def dps_get_endpoint_info_tlv_def from_off_def
          ei_addr_def ei_len_def recv_ip_def dps_get_ip_tlv_def dps_get_ip4_tlv_def dps_get_ip6_tlv_def)
qed

interpretation policy_id_tlv: tlv_codec "\<lambda>i. dps_set_policy_id_tlv (pi_policy_id i) (pi_version i) (pi_ttl i)"
  "\<lambda>_. dps_get_policy_id_tlv" "\<lambda>_. DPS_POLICY_ID_TLV_LEN" "\<lambda>_. POLICY_ID_TLV" "\<lambda>_. True" "\<lambda>_ _. True"
  "\<lambda>i st st'. st' = st\<lparr>pi_policy_id := pi_policy_id i, pi_version := pi_version i, pi_ttl := pi_ttl i\<rparr>"
  by unfold_locales
     (auto intro!: writes_mono [OF writes_policy_id] simp: tlv_image_def dps_get_policy_id_tlv_def)

section \<open>Tunnel lists\<close>

text \<open>Two tunnel endpoints that agree on every field the family makes meaningful.\<close>

definition same_tunnel :: "dps_tunnel_endpoint_t \<Rightarrow> dps_tunnel_endpoint_t \<Rightarrow> bool" where
  "same_tunnel t t' \<longleftrightarrow> te_family t' = te_family t \<and> te_port t' = te_port t \<and> te_vnid t' = te_vnid t \<and>
     te_tunnel_type t' = te_tunnel_type t \<and> te_flags t' = te_flags t \<and>
     (if te_family t = AF_INET then te_ip4 t' = te_ip4 t else te_ip6 t' = te_ip6 t)"

definition ok_tunnel :: "dps_tunnel_endpoint_t \<Rightarrow> bool" where
  "ok_tunnel t \<longleftrightarrow> wf_tunnel t \<and> (te_family t = AF_INET \<or> te_family t = AF_INET6)"

definition got_tunnels :: "dps_tunnel_list_t \<Rightarrow> dps_tunnel_list_t \<Rightarrow> bool" where
  "got_tunnels l l' \<longleftrightarrow> tl_num_of_tunnels l' = tl_num_of_tunnels l \<and>
     list_all2 same_tunnel (tl_tunnel_list l) (take (unat (tl_num_of_tunnels l)) (tl_tunnel_list l'))"

definition ok_tunnel_list :: "nat \<Rightarrow> dps_tunnel_list_t \<Rightarrow> bool" where
  "ok_tunnel_list cap l \<longleftrightarrow> unat (tl_num_of_tunnels l) = length (tl_tunnel_list l) \<and>
     list_all ok_tunnel (tl_tunnel_list l) \<and> length (tl_tunnel_list l) \<le> cap \<and>
     tunnels_len (tl_tunnel_list l) < 65536"

lemma from_off_append [simp]:
  "from_off (length xs) f (xs @ ys) = map_option (\<lambda>(x, m). (x, length xs + m)) (f ys)"
  by (simp add: from_off_def)

lemma ld_append_len [simp]:
  "ld16 (length xs) (xs @ ys) = ld16 0 ys" "ld32 (length xs) (xs @ ys) = ld32 0 ys"
  "peek (length xs) k (xs @ ys) = peek 0 k ys" "ld8 (length xs) (xs @ ys) = ld8 0 ys"
  by simp_all

lemma get_tunnel_img:
  assumes "wf_tunnel t"
  shows "te_family t = AF_INET \<Longrightarrow> \<exists>t'. dps_get_ipv4_tunnel_info (tunnel_img t @ r) old = Some (t', 16) \<and> same_tunnel t t'"
    and "te_family t = AF_INET6 \<Longrightarrow> \<exists>t'. dps_get_ipv6_tunnel_info (tunnel_img t @ r) old = Some (t', 28) \<and> same_tunnel t t'"
  using assms
  by (simp_all add: dps_get_ipv4_tunnel_info_def dps_get_ipv6_tunnel_info_def tunnel_img_def same_tunnel_def
      te_ip4_def wf_tunnel_def)

lemma ld16_tunnel_img:
  "te_family t = AF_INET \<Longrightarrow> ld16 0 (tunnel_img t @ r) = Some (of_bytes16 (be16 4))"
  "te_family t = AF_INET6 \<Longrightarrow> ld16 0 (tunnel_img t @ r) = Some (of_bytes16 (be16 6))"
  by (simp_all add: tunnel_img_def)

lemma list_all2_map_self: "list_all2 (\<lambda>x p. p = g x \<and> P x) xs (map g xs) \<longleftrightarrow> list_all P xs"
  by (induction xs) auto

lemma list_all2_map_eq: "list_all2 (\<lambda>x p. p = g x) xs (map g xs)"
  by (induction xs) auto

lemma unat_num_mult [simp]: "numeral k * n < 65536 \<Longrightarrow> unat (numeral k * word_of_nat n :: u16) = numeral k * n"
proof -
  assume "numeral k * n < 65536"
  then have "unat (word_of_nat (numeral k * n) :: u16) = numeral k * n"
    unfolding unat_of_nat by simp
  then show ?thesis by simp
qed

lemma length_concat_tunnels:
  "list_all ok_tunnel ts \<Longrightarrow> length (concat (map tunnel_img ts)) = tunnels_len ts"
  by (induction ts) (auto simp: tunnels_len_def ok_tunnel_def)

text \<open>The state of the loop after the tunnels \<open>xs\<close> have been read.\<close>

definition tunnels_read :: "dps_tunnel_endpoint_t list \<Rightarrow> tunnel_state \<Rightarrow> bool" where
  "tunnels_read xs st \<longleftrightarrow> (case st of (acc, i, bad) \<Rightarrow> \<not> bad \<and> unat i = length xs \<and> length xs \<le> length acc \<and>
     list_all2 same_tunnel xs (take (length xs) acc))"

lemma tunnels_read_snoc:
  assumes "tunnels_read xs (acc, i, bad)" and "same_tunnel t t'" and "length xs < 65535"
  shows "tunnels_read (xs @ [t]) (take (unat i) acc @ t' # drop (Suc (unat i)) acc, i + 1, False)"
proof -
  have "unat (i + 1) = Suc (length xs)"
    using assms(1,3) by (simp add: tunnels_read_def unat_word_ariths)
  then show ?thesis
    using assms(1,2) by (auto simp: tunnels_read_def list_all2_append list_all2_lengthD)
qed

lemma tunnel_list_step_img:
  assumes "tunnels_read xs st" and "ok_tunnel t" and "length xs < fst room" and "length xs < 65535"
  shows "\<exists>st'. tunnel_list_step room (pre @ tunnel_img t @ suf) len (st, length pre) =
      Some (st', length pre + length (tunnel_img t)) \<and> tunnels_read (xs @ [t]) st'"
proof -
  obtain acc i where st: "st = (acc, i, False)" "unat i = length xs" "length xs \<le> length acc"
    using assms(1) by (cases st) (auto simp: tunnels_read_def)
  have slot: "put_slot (fst room) (unat i) x acc = Some (take (unat i) acc @ x # drop (Suc (unat i)) acc)" for x
    using st assms(3) by (simp add: put_slot_def)
  have t: "wf_tunnel t" "length (tunnel_img t) = tunnel_len t"
    using assms(2) by (auto simp: ok_tunnel_def)
  consider "te_family t = AF_INET" | "te_family t = AF_INET6"
    using assms(2) by (auto simp: ok_tunnel_def)
  then show ?thesis
  proof cases
    case 1
    obtain t' where t': "dps_get_ipv4_tunnel_info (tunnel_img t @ suf) (old_slot (snd room) (unat i) acc) = Some (t', 16)"
        "same_tunnel t t'"
      using get_tunnel_img(1) [OF t(1) 1] by blast
    with tunnels_read_snoc [OF assms(1) [unfolded st(1)] t'(2) assms(4)] show ?thesis
      by (simp add: tunnel_list_step_def st(1) ld16_tunnel_img(1) [OF 1] slot t tunnel_len_def 1)
  next
    case 2
    obtain t' where t': "dps_get_ipv6_tunnel_info (tunnel_img t @ suf) (old_slot (snd room) (unat i) acc) = Some (t', 28)"
        "same_tunnel t t'"
      using get_tunnel_img(2) [OF t(1) 2] by blast
    with tunnels_read_snoc [OF assms(1) [unfolded st(1)] t'(2) assms(4)] show ?thesis
      by (simp add: tunnel_list_step_def st(1) ld16_tunnel_img(2) [OF 2] slot t tunnel_len_def 2)
  qed
qed

lemma get_tunnel_list:
  assumes ok: "ok_tunnel_list (fst room) l"
  shows "\<exists>l'. dps_get_tunnel_list_tlv room
      (hdrb v ty (of_nat (tunnels_len (tl_tunnel_list l))) @ concat (map tunnel_img (tl_tunnel_list l)) @ r) st
      = Some (l', 4 + tunnels_len (tl_tunnel_list l)) \<and> got_tunnels l l'"
proof -
  let ?ts = "tl_tunnel_list l" and ?h = "hdrb v ty (of_nat (tunnels_len (tl_tunnel_list l)))"
  let ?bs = "?h @ concat (map tunnel_img ?ts) @ r"
  let ?c = "\<lambda>((ts :: dps_tunnel_endpoint_t list, i :: u16, bad), pos). \<not> bad \<and> pos < 4 + tunnels_len ?ts"
  have n: "length ?ts \<le> fst room" "length ?ts < 65536" "tunnels_len ?ts < 65536" "list_all ok_tunnel ?ts"
    using ok unsigned_less [of "tl_num_of_tunnels l", where 'a = nat] by (auto simp: ok_tunnel_list_def)
  have "\<exists>st'. while_opt ?c (tunnel_list_step room ?bs (of_nat (tunnels_len ?ts))) ((tl_tunnel_list st, 0, False), length ?h) =
      Some (st', length ?h + length (concat (map tunnel_img ?ts))) \<and> tunnels_read ?ts st'"
  proof (rule while_opt_items [where E = "\<lambda>t p. p = tunnel_img t \<and> ok_tunnel t" and bs = ?bs])
    show "list_all2 (\<lambda>t p. p = tunnel_img t \<and> ok_tunnel t) ?ts (map tunnel_img ?ts)"
      using n by (simp add: list_all2_map_self)
    show "?c (st, pos) \<longleftrightarrow> pos < length ?h + length (concat (map tunnel_img ?ts))" if "tunnels_read xs1 st" for xs1 st pos
      using that n by (auto simp: length_concat_tunnels tunnels_read_def)
  next
    fix st pre t p suf xs1 xs2
    assume a: "?bs = pre @ p @ suf" "?ts = xs1 @ t # xs2" "p = tunnel_img t \<and> ok_tunnel t" "tunnels_read xs1 st"
    then show "p \<noteq> [] \<and> (\<exists>st'. tunnel_list_step room ?bs (of_nat (tunnels_len ?ts)) (st, length pre) =
        Some (st', length pre + length p) \<and> tunnels_read (xs1 @ [t]) st')"
      using tunnel_list_step_img [OF a(4), of t room pre suf "of_nat (tunnels_len ?ts)"] n
      by (auto simp: tunnel_img_def ok_tunnel_def)
  qed (auto simp: tunnels_read_def)
  then obtain acc i where w: "while_opt ?c (tunnel_list_step room ?bs (of_nat (tunnels_len ?ts)))
      ((tl_tunnel_list st, 0, False), 4) = Some ((acc, i, False), 4 + tunnels_len ?ts)" "tunnels_read ?ts (acc, i, False)"
    using n by (auto simp: tunnels_read_def length_concat_tunnels)
  have "i = tl_num_of_tunnels l"
    using w(2) ok by (simp add: tunnels_read_def ok_tunnel_list_def word_unat_eq_iff)
  then show ?thesis
    using w n ok
    by (auto simp: dps_get_tunnel_list_tlv_def got_tunnels_def tunnels_read_def unat_of_nat ok_tunnel_list_def
        intro!: exI [of _ "\<lparr>tl_num_of_tunnels = i, tl_tunnel_list = acc\<rparr>"])
qed

text \<open>An empty list is not sent at all; a list in use is one TLV.\<close>

lemma image_tunnel_list:
  assumes ok: "ok_tunnel_list (fst room) l" and nz: "tl_num_of_tunnels l \<noteq> 0"
  shows "writes (dps_set_tunnel_list_tlv (tl_tunnel_list l) (tl_num_of_tunnels l)) (4 + tunnels_len (tl_tunnel_list l))
    (tlv_image (dps_get_tunnel_list_tlv room) TUNNEL_LIST_TLV (4 + tunnels_len (tl_tunnel_list l)) (\<lambda>_. True)
      (\<lambda>_. got_tunnels l))"
proof (rule writes_cong)
  show "writes (dps_set_tunnel_list_tlv (tl_tunnel_list l) (tl_num_of_tunnels l)) (tunnel_list_len l) (\<lambda>p. p = tunnel_list_img l)"
    using ok by (intro writes_tunnel_list) (auto simp: ok_tunnel_list_def wf_tunnel_list_def list_all_iff ok_tunnel_def)
next
  fix p assume "p = tunnel_list_img l"
  then have p: "p = hdrb 1 TUNNEL_LIST_TLV (of_nat (tunnels_len (tl_tunnel_list l))) @ concat (map tunnel_img (tl_tunnel_list l))"
    using nz by (simp add: tunnel_list_img_def)
  show "tlv_image (dps_get_tunnel_list_tlv room) TUNNEL_LIST_TLV (4 + tunnels_len (tl_tunnel_list l)) (\<lambda>_. True)
      (\<lambda>_. got_tunnels l) p"
    using get_tunnel_list [OF ok, of 1 TUNNEL_LIST_TLV] ok
    by (auto simp: tlv_image_def p length_concat_tunnels ok_tunnel_list_def)
qed (use nz in \<open>simp add: tunnel_list_len_def\<close>)

interpretation tunnel_list_tlv: tlv_codec
  "\<lambda>(room, l). dps_set_tunnel_list_tlv (tl_tunnel_list l) (tl_num_of_tunnels l)"
  "\<lambda>(room, l). dps_get_tunnel_list_tlv room" "\<lambda>(room, l). 4 + tunnels_len (tl_tunnel_list l)" "\<lambda>_. TUNNEL_LIST_TLV"
  "\<lambda>(room, l). ok_tunnel_list (fst room) l \<and> tl_num_of_tunnels l \<noteq> 0" "\<lambda>_ _. True" "\<lambda>(room, l) _. got_tunnels l"
  by unfold_locales (clarsimp simp: image_tunnel_list)

section \<open>Address lists\<close>

lemma length_concat_const: "(\<And>x. x \<in> set xs \<Longrightarrow> length (f x) = k) \<Longrightarrow> length (concat (map f xs)) = k * length xs"
  by (induction xs) auto

text \<open>Copying the items \<open>ys\<close> of \<open>k\<close> bytes each into a destination from \<open>off\<close> on.\<close>

definition filled :: "nat \<Rightarrow> bytes \<Rightarrow> bytes list \<Rightarrow> bytes \<Rightarrow> bool" where
  "filled off mem0 ys mem \<longleftrightarrow> mem = take off mem0 @ concat ys @ drop (off + length (concat ys)) mem0"

lemma put_bytes_filled:
  assumes "filled off mem0 ys mem" and "off \<le> length mem0" and "off + length (concat ys) + length v \<le> cap"
  shows "\<exists>mem'. put_bytes cap (off + length (concat ys)) v mem = Some mem' \<and> filled off mem0 (ys @ [v]) mem'"
  using assms by (simp add: put_bytes_def filled_def add.assoc add.left_commute add.commute [of "length v"])

lemma read_ipv4_list:
  assumes "off + 4 * length ws \<le> cap" and "off \<le> length mem0" and "4 * length ws < 65536"
  shows "dps_get_ipv4_list_tlv cap off (hdrb v t (of_nat (4 * length ws)) @ concat (map be32 ws) @ r) mem0 =
    Some (take off mem0 @ concat (map bytes32 ws) @ drop (off + 4 * length ws) mem0, 4 + 4 * length ws)"
proof -
  let ?h = "hdrb v t (of_nat (4 * length ws))" and ?fin = "4 + 4 * length ws"
  let ?bs = "?h @ concat (map be32 ws) @ r"
  let ?Inv = "\<lambda>xs (mem, o'). filled off mem0 (map bytes32 xs) mem \<and> o' = off + length (concat (map bytes32 xs))"
  have "\<exists>st'. while_opt (\<lambda>(st, pos). pos < ?fin) (ipv4_list_step cap ?bs) ((mem0, off), length ?h) =
      Some (st', length ?h + length (concat (map be32 ws))) \<and> ?Inv ws st'"
  proof (rule while_opt_items [where E = "\<lambda>w p. p = be32 w \<and> True" and bs = ?bs])
    fix st pre w p suf xs1 xs2
    assume a: "?bs = pre @ p @ suf" "ws = xs1 @ w # xs2" "p = be32 w \<and> True" "?Inv xs1 st"
    obtain mem where st: "st = (mem, off + length (concat (map bytes32 xs1)))" "filled off mem0 (map bytes32 xs1) mem"
      using a(4) by (cases st) auto
    obtain mem' where "put_bytes cap (off + length (concat (map bytes32 xs1))) (bytes32 w) mem = Some mem'"
        "filled off mem0 (map bytes32 (xs1 @ [w])) mem'"
      using put_bytes_filled [OF st(2) assms(2), of "bytes32 w" cap] a(2) assms(1)
      by (auto simp: length_concat_const [where k = 4])
    then show "p \<noteq> [] \<and> (\<exists>st'. ipv4_list_step cap ?bs (st, length pre) = Some (st', length pre + length p) \<and> ?Inv (xs1 @ [w]) st')"
      unfolding a(1) using a(3) st(1) by (simp add: ipv4_list_step_def)
  qed (auto simp: list_all2_map_eq length_concat_const [where k = 4] filled_def)
  then show ?thesis
    using assms(3)
    by (auto simp: dps_get_ipv4_list_tlv_def unat_of_nat filled_def length_concat_const [where k = 4])
qed

lemma read_ipv6_list:
  assumes "off + 16 * length gs \<le> cap" and "off \<le> length mem0" and "16 * length gs < 65536"
    and gs: "\<And>g. g \<in> set gs \<Longrightarrow> length g = 16"
  shows "dps_get_ipv6_list_tlv cap off (hdrb v t (of_nat (16 * length gs)) @ concat gs @ r) mem0 =
    Some (take off mem0 @ concat gs @ drop (off + 16 * length gs) mem0, 4 + 16 * length gs)"
proof -
  let ?h = "hdrb v t (of_nat (16 * length gs))" and ?fin = "4 + 16 * length gs"
  let ?bs = "?h @ concat gs @ r"
  let ?Inv = "\<lambda>xs (mem, o'). filled off mem0 xs mem \<and> o' = off + length (concat xs)"
  have len: "length (concat xs) = 16 * length xs" if "set xs \<subseteq> set gs" for xs
    using length_concat_const [of xs "\<lambda>x. x" 16] gs that by auto
  have "\<exists>st'. while_opt (\<lambda>(st, pos). pos < ?fin) (ipv6_list_step cap ?bs) ((mem0, off), length ?h) =
      Some (st', length ?h + length (concat gs)) \<and> ?Inv gs st'"
  proof (rule while_opt_items [where E = "\<lambda>w p. p = w \<and> length w = 16" and bs = ?bs])
    fix st pre w p suf xs1 xs2
    assume a: "?bs = pre @ p @ suf" "gs = xs1 @ w # xs2" "p = w \<and> length w = 16" "?Inv xs1 st"
    obtain mem where st: "st = (mem, off + length (concat xs1))" "filled off mem0 xs1 mem"
      using a(4) by (cases st) auto
    obtain mem' where "put_bytes cap (off + length (concat xs1)) w mem = Some mem'" "filled off mem0 (xs1 @ [w]) mem'"
      using put_bytes_filled [OF st(2) assms(2), of w cap] a(2,3) assms(1) len [of xs1] by fastforce
    then show "p \<noteq> [] \<and> (\<exists>st'. ipv6_list_step cap ?bs (st, length pre) = Some (st', length pre + length p) \<and> ?Inv (xs1 @ [w]) st')"
      unfolding a(1) using a(3) st(1) by (auto simp: ipv6_list_step_def)
  qed (use gs len [of gs] list_all2_map_self [where g = "\<lambda>x. x" and P = "\<lambda>x. length x = 16" and xs = gs]
       in \<open>auto simp: filled_def list_all_iff\<close>)
  then show ?thesis
    using assms(3) len [of gs]
    by (auto simp: dps_get_ipv6_list_tlv_def unat_of_nat filled_def)
qed

lemma concat_words: "4 * n \<le> length mem \<Longrightarrow> concat (map (bytes32 \<circ> word_at mem) [0..<n]) = take (4 * n) mem"
  by (induction n) (auto simp: word_at_def take_add [symmetric] add.commute)

lemma concat_groups: "16 * n \<le> length mem \<Longrightarrow> concat (map (group_at mem) [0..<n]) = take (16 * n) mem"
  by (induction n) (auto simp: group_at_def take_add [symmetric] add.commute)

text \<open>A packed list of \<open>n\<close> addresses, with the offset of the destination it is read to.\<close>

lemma image_ipv4_list:
  assumes a: "4 * unat n \<le> length mem" "off + 4 * unat n \<le> cap" "4 * unat n < 65536"
  shows "writes (dps_set_ipv4_list_tlv mem n) (4 + 4 * unat n) (tlv_image (dps_get_ipv4_list_tlv cap off)
      IPV4_ADDR_LIST_TLV (4 + 4 * unat n) (\<lambda>st. off \<le> length st)
      (\<lambda>st st'. st' = take off st @ take (4 * unat n) mem @ drop (off + 4 * unat n) st))"
proof -
  let ?ws = "map (word_at mem) [0..<unat n]"
  show ?thesis
    using read_ipv4_list [of off ?ws cap] a
    by (intro writes_mono [OF writes_ipv4_list])
       (auto simp: tlv_image_def ipv4_list_img_def concat_words [symmetric] length_concat_const [where k = 4] comp_def)
qed

interpretation ipv4_list_tlv: tlv_codec
  "\<lambda>(cap, off, mem, n). dps_set_ipv4_list_tlv mem n" "\<lambda>(cap, off, mem, n). dps_get_ipv4_list_tlv cap off"
  "\<lambda>(cap, off, mem, n). 4 + 4 * unat n" "\<lambda>_. IPV4_ADDR_LIST_TLV"
  "\<lambda>(cap, off, mem, n). 4 * unat n \<le> length mem \<and> off + 4 * unat n \<le> cap \<and> 4 * unat n < 65536"
  "\<lambda>(cap, off, mem, n) st. off \<le> length st"
  "\<lambda>(cap, off, mem, n) st st'. st' = take off st @ take (4 * unat n) mem @ drop (off + 4 * unat n) st"
  by unfold_locales (clarsimp simp: image_ipv4_list)


lemma image_ipv6_list:
  assumes a: "16 * unat n \<le> length mem" "off + 16 * unat n \<le> cap" "16 * unat n < 65536"
  shows "writes (dps_set_ipv6_list_tlv mem n) (4 + 16 * unat n) (tlv_image (dps_get_ipv6_list_tlv cap off)
      IPV6_ADDR_LIST_TLV (4 + 16 * unat n) (\<lambda>st. off \<le> length st)
      (\<lambda>st st'. st' = take off st @ take (16 * unat n) mem @ drop (off + 16 * unat n) st))"
proof -
  let ?gs = "map (group_at mem) [0..<unat n]"
  have g: "length g = 16" if "g \<in> set ?gs" for g
    using that a(1) by (auto simp: group_at_def)
  then have "length (concat ?gs) = 16 * unat n"
    using length_concat_const [of "[0..<unat n]" "group_at mem" 16] by auto
  then show ?thesis
    using read_ipv6_list [of off ?gs cap, OF _ _ _ g] a
    by (intro writes_mono [OF writes_ipv6_list])
       (auto simp: tlv_image_def ipv6_list_img_def concat_groups [symmetric])
qed

interpretation ipv6_list_tlv: tlv_codec
  "\<lambda>(cap, off, mem, n). dps_set_ipv6_list_tlv mem n" "\<lambda>(cap, off, mem, n). dps_get_ipv6_list_tlv cap off"
  "\<lambda>(cap, off, mem, n). 4 + 16 * unat n" "\<lambda>_. IPV6_ADDR_LIST_TLV"
  "\<lambda>(cap, off, mem, n). 16 * unat n \<le> length mem \<and> off + 16 * unat n \<le> cap \<and> 16 * unat n < 65536"
  "\<lambda>(cap, off, mem, n) st. off \<le> length st"
  "\<lambda>(cap, off, mem, n) st st'. st' = take off st @ take (16 * unat n) mem @ drop (off + 16 * unat n) st"
  by unfold_locales (clarsimp simp: image_ipv6_list)


section \<open>Address information lists\<close>

definition got_ip4_infos :: "dps_ip4_info_list_t \<Rightarrow> dps_ip4_info_list_t \<Rightarrow> bool" where
  "got_ip4_infos l l' \<longleftrightarrow> i4l_num_of_ips l' = i4l_num_of_ips l \<and> ip4_infos l' = ip4_infos l \<and> length (i4l_ip_info l') = MAX_VIP_ADDR"

definition got_ip6_infos :: "dps_ip6_info_list_t \<Rightarrow> dps_ip6_info_list_t \<Rightarrow> bool" where
  "got_ip6_infos l l' \<longleftrightarrow> i6l_num_of_ips l' = i6l_num_of_ips l \<and> ip6_infos l' = ip6_infos l \<and> length (i6l_ip_info l') = MAX_VIP_ADDR"

lemma upd_at_take:
  "i < length xs \<Longrightarrow> take (Suc i) (xs[i := y]) = take i xs @ [y]"
  by (simp add: take_Suc_conv_app_nth take_update_cancel)

lemma unat_Suc32: "unat (n :: u32) = k \<Longrightarrow> k < 65536 \<Longrightarrow> unat (n + 1) = Suc k"
  by (simp add: unat_word_ariths)

lemma read_ip4_infos:
  assumes wf: "wf_ip4_infos l" and st: "length (i4l_ip_info st) = MAX_VIP_ADDR"
  shows "\<exists>l'. dps_get_ip4_info_list_tlv (hdrb v t (of_nat (8 * unat (i4l_num_of_ips l))) @
      concat (map ip4_info_img (ip4_infos l)) @ r) st = Some (l', 4 + 8 * unat (i4l_num_of_ips l)) \<and> got_ip4_infos l l'"
proof -
  let ?n = "unat (i4l_num_of_ips l)" and ?is = "ip4_infos l"
  let ?h = "hdrb v t (of_nat (8 * ?n))"
  let ?bs = "?h @ concat (map ip4_info_img ?is) @ r"
  let ?Inv = "\<lambda>xs (st :: dps_ip4_info_list_t). unat (i4l_num_of_ips st) = length xs \<and> length (i4l_ip_info st) = 16 \<and>
      take (length xs) (i4l_ip_info st) = xs"
  have n: "length ?is = ?n" "?n \<le> 16" "length (ip4_info_img i) = 8" for i
    using wf by (auto simp: wf_ip4_infos_def ip4_infos_def ip4_info_img_def)
  have "\<exists>st'. while_opt (\<lambda>(l, pos). pos < 4 + 8 * ?n) (ip4_info_step ?bs) (st\<lparr>i4l_num_of_ips := 0\<rparr>, length ?h) =
      Some (st', length ?h + length (concat (map ip4_info_img ?is))) \<and> ?Inv ?is st'"
  proof (rule while_opt_items [where E = "\<lambda>i p. p = ip4_info_img i" and bs = ?bs])
    fix st :: dps_ip4_info_list_t and pre i p suf xs1 xs2
    assume a: "?bs = pre @ p @ suf" "?is = xs1 @ i # xs2" "p = ip4_info_img i" "?Inv xs1 st"
    have k: "length xs1 < 16" using a(2) n by simp
    show "p \<noteq> [] \<and> (\<exists>st'. ip4_info_step ?bs (st, length pre) = Some (st', length pre + length p) \<and> ?Inv (xs1 @ [i]) st')"
      unfolding a(1) using a(3,4) k
      by (auto simp: ip4_info_step_def ip4_info_img_def upd_at_def upd_at_take unat_Suc32)
  qed (use n st in \<open>auto simp: list_all2_map_eq length_concat_const [where k = 8]\<close>)
  moreover have "unat (of_nat (8 * ?n) :: u16) = 8 * ?n"
    unfolding unat_of_nat using n by simp
  ultimately show ?thesis
    using n wf
    by (auto simp: dps_get_ip4_info_list_tlv_def length_concat_const [where k = 8] got_ip4_infos_def word_unat_eq_iff
        ip4_infos_def)
qed

lemma read_ip6_infos:
  assumes wf: "wf_ip6_infos l" and st: "length (i6l_ip_info st) = MAX_VIP_ADDR"
  shows "\<exists>l'. dps_get_ip6_info_list_tlv (hdrb v t (of_nat (20 * unat (i6l_num_of_ips l))) @
      concat (map ip6_info_img (ip6_infos l)) @ r) st = Some (l', 4 + 20 * unat (i6l_num_of_ips l)) \<and> got_ip6_infos l l'"
proof -
  let ?n = "unat (i6l_num_of_ips l)" and ?is = "ip6_infos l"
  let ?h = "hdrb v t (of_nat (20 * ?n))"
  let ?bs = "?h @ concat (map ip6_info_img ?is) @ r"
  let ?Inv = "\<lambda>xs (st :: dps_ip6_info_list_t). unat (i6l_num_of_ips st) = length xs \<and> length (i6l_ip_info st) = 16 \<and>
      take (length xs) (i6l_ip_info st) = xs"
  have n: "length ?is = ?n" "?n \<le> 16" "i \<in> set ?is \<Longrightarrow> length (i6_ip i) = 16" for i
    using wf by (auto simp: wf_ip6_infos_def ip6_infos_def list_all_iff dest: in_set_takeD)
  have c: "length (concat (map ip6_info_img ?is)) = 20 * ?n"
    using n by (subst length_concat_const [where k = 20]) (auto simp: ip6_info_img_def)
  have "\<exists>st'. while_opt (\<lambda>(l, pos). pos < 4 + 20 * ?n) (ip6_info_step ?bs) (st\<lparr>i6l_num_of_ips := 0\<rparr>, length ?h) =
      Some (st', length ?h + length (concat (map ip6_info_img ?is))) \<and> ?Inv ?is st'"
  proof (rule while_opt_items [where E = "\<lambda>i p. p = ip6_info_img i" and bs = ?bs])
    fix st :: dps_ip6_info_list_t and pre i p suf xs1 xs2
    assume a: "?bs = pre @ p @ suf" "?is = xs1 @ i # xs2" "p = ip6_info_img i" "?Inv xs1 st"
    have k: "length xs1 < 16" "length (i6_ip i) = 16" using a(2) n(1,2) n(3) [of i] by simp_all
    show "p \<noteq> [] \<and> (\<exists>st'. ip6_info_step ?bs (st, length pre) = Some (st', length pre + length p) \<and> ?Inv (xs1 @ [i]) st')"
      unfolding a(1) using a(3,4) k
      by (auto simp: ip6_info_step_def ip6_info_img_def upd_at_def upd_at_take unat_Suc32)
  qed (use n st in \<open>auto simp: list_all2_map_eq c\<close>)
  moreover have "unat (of_nat (20 * ?n) :: u16) = 20 * ?n"
    unfolding unat_of_nat using n by simp
  ultimately show ?thesis
    using n wf c
    by (auto simp: dps_get_ip6_info_list_tlv_def got_ip6_infos_def word_unat_eq_iff
        ip6_infos_def)
qed

interpretation ip4_info_tlv: tlv_codec dps_set_ip4_info_tlv "\<lambda>_. dps_get_ip4_info_list_tlv"
  "\<lambda>l. 4 + 8 * unat (i4l_num_of_ips l)" "\<lambda>_. IP4_INFO_LIST_TLV" wf_ip4_infos
  "\<lambda>_ st. length (i4l_ip_info st) = MAX_VIP_ADDR" "\<lambda>l _. got_ip4_infos l"
proof
  fix l assume wf: "wf_ip4_infos l"
  then have n: "length (ip4_infos l) = unat (i4l_num_of_ips l)"
    by (auto simp: wf_ip4_infos_def ip4_infos_def)
  show "writes (dps_set_ip4_info_tlv l) (4 + 8 * unat (i4l_num_of_ips l)) (tlv_image dps_get_ip4_info_list_tlv
      IP4_INFO_LIST_TLV (4 + 8 * unat (i4l_num_of_ips l)) (\<lambda>st. length (i4l_ip_info st) = MAX_VIP_ADDR) (\<lambda>_. got_ip4_infos l))"
    using read_ip4_infos [OF wf, of _ 1 IP4_INFO_LIST_TLV] n
    by (intro writes_mono [OF writes_ip4_info [OF wf]])
       (auto simp: tlv_image_def length_concat_const [where k = 8] ip4_info_img_def)
qed

interpretation ip6_info_tlv: tlv_codec dps_set_ip6_info_tlv "\<lambda>_. dps_get_ip6_info_list_tlv"
  "\<lambda>l. 4 + 20 * unat (i6l_num_of_ips l)" "\<lambda>_. IP6_INFO_LIST_TLV" wf_ip6_infos
  "\<lambda>_ st. length (i6l_ip_info st) = MAX_VIP_ADDR" "\<lambda>l _. got_ip6_infos l"
proof
  fix l assume wf: "wf_ip6_infos l"
  show "writes (dps_set_ip6_info_tlv l) (4 + 20 * unat (i6l_num_of_ips l)) (tlv_image dps_get_ip6_info_list_tlv
      IP6_INFO_LIST_TLV (4 + 20 * unat (i6l_num_of_ips l)) (\<lambda>st. length (i6l_ip_info st) = MAX_VIP_ADDR) (\<lambda>_. got_ip6_infos l))"
    using read_ip6_infos [OF wf, of _ 1 IP6_INFO_LIST_TLV]
    by (intro writes_mono [OF writes_ip6_info [OF wf]]) (auto simp: tlv_image_def)
qed

end
