(* ===== verification/Dps_Tlv_Nested.thy ===== *)
theory Dps_Tlv_Nested
  imports Dps_Tlv_Codec
begin

text \<open>
  The nested TLVs: policies, endpoint locations and updates, endpoint
  reachability information and multicast records.  Each reader scans the
  TLVs its writer nested.
\<close>

section \<open>Policies\<close>

lemma for_each_upt_items:
  assumes "\<And>st pre x p suf xs1 xs2. bs = pre @ p @ suf \<Longrightarrow> xs = xs1 @ x # xs2 \<Longrightarrow> E x p \<Longrightarrow> Inv xs1 st \<Longrightarrow>
      \<exists>st'. f (st, length pre) = Some (st', length pre + length p) \<and> Inv (xs1 @ [x]) st'"
    and "list_all2 E xs ps" and "bs = pre @ concat ps @ rest" and "Inv [] st"
  shows "\<exists>st'. for_each (\<lambda>_. f) [k..<k + length xs] (st, length pre) = Some (st', length pre + length (concat ps)) \<and> Inv xs st'"
proof -
  have "\<exists>st'. for_each (\<lambda>_. f) [k..<k + length ys] (st, length pre') = Some (st', length pre' + length (concat qs)) \<and> Inv xs st'"
    if "list_all2 E ys qs" "bs = pre' @ concat qs @ rest" "Inv xs1 st" "xs = xs1 @ ys" for ys qs pre' st xs1 k
    using that
  proof (induction arbitrary: pre' st xs1 k rule: list_all2_induct)
    case (Cons x ys p qs)
    obtain st' where *: "f (st, length pre') = Some (st', length pre' + length p)" "Inv (xs1 @ [x]) st'"
      using assms(1) [of pre' p "concat qs @ rest" xs1 x ys st] Cons.prems Cons.hyps by auto
    have "[k..<k + length (x # ys)] = k # [Suc k..<Suc k + length ys]"
      using upt_conv_Cons [of k "k + length (x # ys)"] by (simp del: upt_Suc)
    then show ?case
      using Cons.IH [of "pre' @ p" "xs1 @ [x]" st' "Suc k"] Cons.prems * by (simp add: add.assoc)
  qed simp
  from this [OF assms(2,3,4)] show ?thesis by simp
qed

text \<open>Rules read into consecutive elements from \<open>j0\<close> on.\<close>

definition rules_read :: "src_dst_vnid_t list \<Rightarrow> src_dst_vnid_t list \<Rightarrow> src_dst_vnid_t list \<times> u16 \<Rightarrow> bool" where
  "rules_read rs0 rs st \<longleftrightarrow> unat (snd st) = length rs0 + length rs \<and> take (unat (snd st)) (fst st) = rs0 @ rs \<and>
     unat (snd st) \<le> length (fst st)"

lemma get_rules_img:
  assumes "rules_read rs0 [] st" and "length rs0 + length rs \<le> cap" and "length rs0 + length rs < 65536"
    and "bs = pre @ concat (map rule_img rs) @ rest"
  shows "\<exists>st'. get_rules cap bs (length rs) (st, length pre) = Some (st', length pre + 8 * length rs) \<and> rules_read rs0 rs st'"
proof -
  let ?f = "\<lambda>((rs, j :: u16), pos). do {
     sv \<leftarrow> ld32 pos bs;
     dv \<leftarrow> ld32 (pos + 4) bs;
     rs \<leftarrow> put_slot cap (unat j) \<lparr>sd_svnid = ntohl sv, sd_dvnid = ntohl dv\<rparr> rs;
     Some ((rs, j + 1), pos + 8) }"
  have "\<exists>st'. for_each (\<lambda>_. ?f) [0..<0 + length rs] (st, length pre) =
      Some (st', length pre + length (concat (map rule_img rs))) \<and> rules_read rs0 rs st'"
  proof (rule for_each_upt_items [where E = "\<lambda>x p. p = rule_img x" and bs = bs])
    fix st pre x p suf xs1 xs2
    assume a: "bs = pre @ p @ suf" "rs = xs1 @ x # xs2" "p = rule_img x" "rules_read rs0 xs1 st"
    obtain acc j where st: "st = (acc, j)" by (cases st)
    have j: "unat j = length rs0 + length xs1" "unat j < cap" "unat (j + 1) = Suc (unat j)" "unat j \<le> length acc"
        "take (unat j) acc = rs0 @ xs1"
      using a(2,4) assms(2,3) st by (auto simp: rules_read_def unat_word_ariths)
    show "\<exists>st'. ?f (st, length pre) = Some (st', length pre + length p) \<and> rules_read rs0 (xs1 @ [x]) st'"
      unfolding a(1) st using a(3) j
      by (auto simp: rule_img_def put_slot_def rules_read_def)
  qed (use assms in \<open>auto simp: list_all2_map_eq\<close>)
  then show ?thesis by (simp add: get_rules_def case_prod_unfold)
qed

lemma rule_group_step_img:
  assumes r: "rules_read rs0 [] (po_src_dst_vnid p, j)" and "length rs0 + length rs \<le> cap" and "length rs0 + length rs < 65536"
    and num: "unat num = length rs" "num \<noteq> 0" and bs: "bs = pre @ rule_group_img action num rs @ rest"
  shows "\<exists>acc j'. rule_group_step cap bs ((p, j), length pre) =
      Some (((if action = 1 then p\<lparr>po_num_permit_rules := num\<rparr> else p\<lparr>po_num_deny_rules := num\<rparr>)\<lparr>po_src_dst_vnid := acc\<rparr>, j'),
        length pre + rule_group_len num) \<and> rules_read rs0 rs (acc, j')"
proof -
  have bs': "bs = (pre @ be16 action @ be16 num) @ concat (map rule_img rs) @ rest"
    using bs num by (simp add: rule_group_img_def)
  obtain acc j' where "get_rules cap bs (length rs) ((po_src_dst_vnid p, j), length (pre @ be16 action @ be16 num)) =
      Some ((acc, j'), length (pre @ be16 action @ be16 num) + 8 * length rs)" "rules_read rs0 rs (acc, j')"
    using get_rules_img [OF r assms(2,3) bs'] by auto
  then show ?thesis
    using num by (auto simp: rule_group_step_def bs' rule_group_len_def add.assoc)
qed

definition counted :: "u16 \<Rightarrow> u16 \<Rightarrow> dps_policy_t \<Rightarrow> dps_policy_t" where
  "counted action num p = (if action = 1 then p\<lparr>po_num_permit_rules := num\<rparr> else p\<lparr>po_num_deny_rules := num\<rparr>)"

lemma rule_group_loop:
  assumes r: "rules_read rs0 [] (po_src_dst_vnid p, j)" and "length rs0 + length rs \<le> cap" and b: "length rs0 + length rs \<le> unat tot"
    and num: "unat num = length rs" and bs: "bs = pre @ rule_group_img action num rs @ rest" and z: "counted action 0 p = p"
  shows "\<exists>acc j'. while_opt (\<lambda>((p, j), pos). j < tot) (rule_group_step cap bs) ((p, j), length pre) =
      while_opt (\<lambda>((p, j), pos). j < tot) (rule_group_step cap bs)
        (((counted action num p)\<lparr>po_src_dst_vnid := acc\<rparr>, j'), length pre + rule_group_len num) \<and> rules_read rs0 rs (acc, j')"
proof (cases "num = 0")
  case True
  then show ?thesis using assms
    by (intro exI [of _ "po_src_dst_vnid p"] exI [of _ j]) (simp add: rule_group_len_def)
next
  case False
  have "length rs0 + length rs < 65536"
    using b unsigned_less [of tot, where 'a = nat] by simp
  then obtain acc j' where s: "rule_group_step cap bs ((p, j), length pre) =
      Some (((counted action num p)\<lparr>po_src_dst_vnid := acc\<rparr>, j'), length pre + rule_group_len num)" "rules_read rs0 rs (acc, j')"
    using rule_group_step_img [OF r assms(2) _ num False bs] unfolding counted_def by blast
  have "0 < unat num" using False by (simp add: unat_gt_0)
  moreover have "unat j = length rs0" using r by (simp add: rules_read_def)
  ultimately have "unat j < unat tot" using b num by linarith
  then show ?thesis
    using s while_opt_step [of "\<lambda>((p, j), pos). j < tot" "((p, j), length pre)" "rule_group_step cap bs"]
    by (auto simp: word_less_nat_alt)
qed

text \<open>What a reader with a cleared destination holds after a policy.\<close>

definition got_policy :: "dps_policy_t \<Rightarrow> dps_policy_t \<Rightarrow> bool" where
  "got_policy p p' \<longleftrightarrow> po_version p' = po_version p \<and> po_policy_type p' = po_policy_type p \<and>
     po_num_permit_rules p' = po_num_permit_rules p \<and> po_num_deny_rules p' = po_num_deny_rules p \<and>
     take (length (po_src_dst_vnid p)) (po_src_dst_vnid p') = po_src_dst_vnid p"

definition cleared_policy :: "dps_policy_t \<Rightarrow> bool" where
  "cleared_policy p \<longleftrightarrow> po_num_permit_rules p = 0 \<and> po_num_deny_rules p = 0"

lemma get_policy_type_img:
  assumes wf: "wf_policy p" and cap: "length (po_src_dst_vnid p) \<le> cap" and z: "cleared_policy st"
  shows "\<exists>p'. dps_get_policy_type_tlv cap (hdrb 1 POLICY_TYPE_TLV l @
      hdrb (po_version p) DPS_POLICY_TYPE_CONNECTIVITY (po_num_permit_rules p + po_num_deny_rules p) @ policy_rules_img p @ r) st
      = Some (p', 8 + policy_rules_len p) \<and> got_policy p p'"
proof -
  define np nd where n: "np = po_num_permit_rules p" "nd = po_num_deny_rules p"
  define P D where R: "P = take (unat np) (po_src_dst_vnid p)" "D = drop (unat np) (po_src_dst_vnid p)"
  define hg bs where bs: "hg = hdrb 1 POLICY_TYPE_TLV l @ hdrb (po_version p) 1 (np + nd)" "bs = hg @ policy_rules_img p @ r"
  let ?W = "while_opt (\<lambda>((p, j), pos). j < np + nd) (rule_group_step cap bs)"
  let ?st = "st\<lparr>po_version := po_version p, po_policy_type := 1\<rparr>"
  have len: "unat np = length P" "unat nd = length D" "unat (np + nd) = length P + length D" "P @ D = po_src_dst_vnid p"
    and ty: "po_policy_type p = 1"
    using wf by (auto simp: wf_policy_def unat_word_ariths n R)
  have zero: "counted 1 0 ?st = ?st" "counted 0 0 (counted 1 np ?st\<lparr>po_src_dst_vnid := acc\<rparr>) = counted 1 np ?st\<lparr>po_src_dst_vnid := acc\<rparr>" for acc
    using z by (cases st; simp add: counted_def cleared_policy_def)+
  have img: "bs = hg @ rule_group_img 1 np P @ rule_group_img 0 nd D @ r" "length P + length D \<le> cap"
    using cap len(4) by (simp_all add: bs policy_rules_img_def n R flip: length_append)
  obtain acc j where 1: "?W ((?st, 0), length hg) =
      ?W (((counted 1 np ?st)\<lparr>po_src_dst_vnid := acc\<rparr>, j), length hg + rule_group_len np)" "rules_read [] P (acc, j)"
    using rule_group_loop [of "[]" ?st 0 P cap "np + nd" np bs hg 1 "rule_group_img 0 nd D @ r"] zero(1) len img
    by (simp add: rules_read_def) blast
  let ?p1 = "(counted 1 np ?st)\<lparr>po_src_dst_vnid := acc\<rparr>" and ?pre = "hg @ rule_group_img 1 np P"
  have pre: "length ?pre = length hg + rule_group_len np"
    using len by (auto simp: rule_group_img_def rule_group_len_def)
  have "rules_read P [] (po_src_dst_vnid ?p1, j)"
    using 1(2) by (auto simp: rules_read_def)
  then obtain acc' j' where 2: "?W ((?p1, j), length ?pre) =
      ?W (((counted 0 nd ?p1)\<lparr>po_src_dst_vnid := acc'\<rparr>, j'), length ?pre + rule_group_len nd)" "rules_read P D (acc', j')"
    using rule_group_loop [of P ?p1 j D cap "np + nd" nd bs ?pre 0 r] zero(2) len(1-3) img
    by auto
  have "\<not> j' < np + nd"
    using 2(2) len by (auto simp: rules_read_def word_less_nat_alt)
  then have "?W ((?st, 0), 8) = Some (((counted 0 nd ?p1)\<lparr>po_src_dst_vnid := acc'\<rparr>, j'), 8 + policy_rules_len p)"
    using 1(1) 2(1) pre by (simp add: while_opt_done policy_rules_len_def n bs)
  moreover have "take (length (po_src_dst_vnid p)) acc' = po_src_dst_vnid p"
    using 2(2) by (auto simp: rules_read_def simp flip: len(4))
  moreover have "dps_get_tlv_hdr bs = Some \<lparr>tlv_ver = 1, tlv_type = POLICY_TYPE_TLV, tlv_len = l\<rparr>"
      "dps_get_tlv_hdr (drop 4 bs) = Some \<lparr>tlv_ver = po_version p, tlv_type = 1, tlv_len = np + nd\<rparr>"
    by (simp_all add: bs)
  ultimately have "dps_get_policy_type_tlv cap bs st =
      Some ((counted 0 nd ?p1)\<lparr>po_src_dst_vnid := acc'\<rparr>, 8 + policy_rules_len p)" "got_policy p ((counted 0 nd ?p1)\<lparr>po_src_dst_vnid := acc'\<rparr>)"
    using ty by (simp_all add: dps_get_policy_type_tlv_def got_policy_def counted_def n)
  then show ?thesis by (auto simp: bs n)
qed

interpretation policy_type_tlv: tlv_codec "\<lambda>(cap, p). dps_set_policy_type_tlv p" "\<lambda>(cap, p). dps_get_policy_type_tlv cap"
  "\<lambda>(cap, p). 8 + policy_rules_len p" "\<lambda>_. POLICY_TYPE_TLV"
  "\<lambda>(cap, p). wf_policy p \<and> length (po_src_dst_vnid p) \<le> cap" "\<lambda>_. cleared_policy" "\<lambda>(cap, p) _. got_policy p"
proof (unfold_locales, clarify)
  fix cap p assume a: "wf_policy p" "length (po_src_dst_vnid p) \<le> cap"
  then show "writes (dps_set_policy_type_tlv p) (8 + policy_rules_len p) (tlv_image (dps_get_policy_type_tlv cap)
      POLICY_TYPE_TLV (8 + policy_rules_len p) cleared_policy (\<lambda>_. got_policy p))"
    using get_policy_type_img [OF a]
    by (intro writes_mono [OF writes_policy_type [OF a(1)]]) (auto simp: tlv_image_def)
qed

definition got_policy_info :: "dps_policy_info_t \<Rightarrow> dps_policy_info_t \<Rightarrow> bool" where
  "got_policy_info i i' \<longleftrightarrow> pi_policy_id i' = pi_policy_id i \<and> pi_version i' = pi_version i \<and> pi_ttl i' = pi_ttl i \<and>
     got_policy (pi_dps_policy i) (pi_dps_policy i')"

definition policy_tlv_len :: "dps_policy_info_t \<Rightarrow> nat" where
  "policy_tlv_len i = 28 + policy_rules_len (pi_dps_policy i)"

definition ok_policy_info :: "nat \<Rightarrow> dps_policy_info_t \<Rightarrow> bool" where
  "ok_policy_info cap i \<longleftrightarrow> wf_policy (pi_dps_policy i) \<and> length (po_src_dst_vnid (pi_dps_policy i)) \<le> cap"

lemma tlv_imageD:
  "tlv_image rd c n D R p \<Longrightarrow> D st \<Longrightarrow> \<exists>st'. rd (p @ r) st = Some (st', n) \<and> R st st'"
  by (auto simp: tlv_image_def)

lemma tlv_image_length: "tlv_image rd c n D R p \<Longrightarrow> length p = n"
  by (simp add: tlv_image_def)

interpretation policy_tlv: tlv_codec "\<lambda>(cap, i). dps_set_policy_tlv i" "\<lambda>(cap, i). dps_get_policy_tlv cap"
  "\<lambda>(cap, i). policy_tlv_len i" "\<lambda>_. POLICY_TLV"
  "\<lambda>(cap, i). ok_policy_info cap i" "\<lambda>_ st. cleared_policy (pi_dps_policy st)" "\<lambda>(cap, i) _. got_policy_info i"
proof (unfold_locales, clarify)
  fix cap i assume ok: "ok_policy_info cap i"
  let ?n = "policy_tlv_len i" and ?p = "pi_dps_policy i"
  have t: "writes (dps_set_policy_type_tlv ?p) (8 + policy_rules_len ?p) (tlv_image (dps_get_policy_type_tlv cap)
      POLICY_TYPE_TLV (8 + policy_rules_len ?p) cleared_policy (\<lambda>_. got_policy ?p))"
    using policy_type_tlv.image [of "(cap, ?p)"] ok by (simp add: ok_policy_info_def)
  have "writes (dps_set_policy_tlv i) ?n (\<lambda>p. \<exists>q. p = hdrb 1 POLICY_TLV (of_nat (?n - 4)) @ q \<and>
      seqp (tlv_image dps_get_policy_id_tlv POLICY_ID_TLV 16 (\<lambda>_. True)
         (\<lambda>st st'. st' = st\<lparr>pi_policy_id := pi_policy_id i, pi_version := pi_version i, pi_ttl := pi_ttl i\<rparr>))
        (tlv_image (dps_get_policy_type_tlv cap) POLICY_TYPE_TLV (8 + policy_rules_len ?p) cleared_policy (\<lambda>_. got_policy ?p)) q)"
    unfolding dps_set_policy_tlv_def [abs_def]
    by (rule writes_cong, (rule writes_tlv_block emits_bind emits_put policy_id_tlv.image [OF TrueI] t)+)
       (use ok in \<open>auto simp: ok_policy_info_def policy_tlv_len_def\<close>)
  then show "writes (dps_set_policy_tlv i) ?n (tlv_image (dps_get_policy_tlv cap) POLICY_TLV ?n
      (\<lambda>st. cleared_policy (pi_dps_policy st)) (\<lambda>_. got_policy_info i))"
  proof (rule writes_mono, elim exE conjE)
    fix p q
    assume p: "length p = ?n" "p = hdrb 1 POLICY_TLV (of_nat (?n - 4)) @ q" and
      "seqp (tlv_image dps_get_policy_id_tlv POLICY_ID_TLV 16 (\<lambda>_. True)
         (\<lambda>st st'. st' = st\<lparr>pi_policy_id := pi_policy_id i, pi_version := pi_version i, pi_ttl := pi_ttl i\<rparr>))
        (tlv_image (dps_get_policy_type_tlv cap) POLICY_TYPE_TLV (8 + policy_rules_len ?p) cleared_policy (\<lambda>_. got_policy ?p)) q"
    then obtain a b where q: "q = a @ b" and
      a: "tlv_image dps_get_policy_id_tlv POLICY_ID_TLV 16 (\<lambda>_. True)
         (\<lambda>st st'. st' = st\<lparr>pi_policy_id := pi_policy_id i, pi_version := pi_version i, pi_ttl := pi_ttl i\<rparr>) a" and
      b: "tlv_image (dps_get_policy_type_tlv cap) POLICY_TYPE_TLV (8 + policy_rules_len ?p) cleared_policy (\<lambda>_. got_policy ?p) b"
      by (auto simp: seqp_def)
    have len: "unat (of_nat (?n - 4) :: u16) = ?n - 4"
      using ok unat_policy_type_len(2) [of ?p] unfolding unat_of_nat by (simp add: ok_policy_info_def policy_tlv_len_def wf_policy_def policy_rules_len_def rule_group_len_def)
    show "tlv_image (dps_get_policy_tlv cap) POLICY_TLV ?n (\<lambda>st. cleared_policy (pi_dps_policy st)) (\<lambda>_. got_policy_info i) p"
      unfolding tlv_image_def
    proof (intro conjI allI impI)
      fix r and st :: dps_policy_info_t assume z: "cleared_policy (pi_dps_policy st)"
      let ?st = "st\<lparr>pi_policy_id := pi_policy_id i, pi_version := pi_version i, pi_ttl := pi_ttl i\<rparr>"
      obtain p' where p': "dps_get_policy_type_tlv cap (b @ r) (pi_dps_policy st) = Some (p', 8 + policy_rules_len ?p)" "got_policy ?p p'"
        using tlv_imageD [OF b z] by blast
      have "policy_step cap (p @ r) (st, 4) = Some (?st\<lparr>pi_dps_policy := p'\<rparr>, ?n)"
        using tlv_imageD [OF a TrueI, of "b @ r" st] p'(1) tlv_image_length [OF a]
        by (simp add: policy_step_def p(2) q from_off_def policy_tlv_len_def)
      then have "dps_get_policy_tlv cap (p @ r) st = Some (?st\<lparr>pi_dps_policy := p'\<rparr>, ?n)"
        using len p(2) by (simp add: dps_get_policy_tlv_def while_opt_step while_opt_done policy_tlv_len_def)
      then show "\<exists>st'. dps_get_policy_tlv cap (p @ r) st = Some (st', ?n) \<and> got_policy_info i st'"
        using p'(2) by (simp add: got_policy_info_def)
    qed (use p in auto)
  qed
qed

section \<open>Endpoint locations and updates\<close>

abbreviation euid_image :: "u32 \<Rightarrow> bytes \<Rightarrow> bytes \<Rightarrow> bool" where
  "euid_image vnid mac \<equiv> tlv_image (\<lambda>b (_ :: u32 \<times> bytes). dps_get_euid_tlv b) EUID_TLV DPS_EUID_TLV_LEN (\<lambda>_. True)
     (\<lambda>_ st'. st' = (vnid, mac))"

abbreviation ip_image :: "ip_addr_t \<Rightarrow> bytes \<Rightarrow> bool" where
  "ip_image a \<equiv> tlv_image dps_get_ip_tlv IP_ADDR_TLV (ip_tlv_len a) (\<lambda>_. True) (\<lambda>st st'. st' = recv_ip a st)"

abbreviation tunnels_image :: "tunnel_room \<Rightarrow> dps_tunnel_list_t \<Rightarrow> bytes \<Rightarrow> bool" where
  "tunnels_image room l \<equiv> tlv_image (dps_get_tunnel_list_tlv room) TUNNEL_LIST_TLV (tunnel_list_len l) (\<lambda>_. True)
     (\<lambda>_. got_tunnels l)"

lemma writes_euid_image: "wf_mac mac \<Longrightarrow> writes (dps_set_euid_tlv vnid mac) DPS_EUID_TLV_LEN (euid_image vnid mac)"
  using euid_tlv.image [of "(vnid, mac)"] by simp

lemma emits_vm_ip:
  assumes "ok_ip a"
  shows "emits (set_vm_ip a) (ip_tlv_len a) (ip_image a)"
proof -
  have "set_vm_ip a = put (dps_set_ip_tlv a)"
    using assms by (auto simp: ok_ip_def fun_eq_iff set_vm_ip_def put_def dps_set_ip_tlv_def [abs_def])
  with emits_put [OF ip_tlv.image [OF assms]] show ?thesis by simp
qed

text \<open>The tunnel list is the last, optional, part of every message that has one.\<close>

definition tunnels_part :: "tunnel_room \<Rightarrow> dps_tunnel_list_t \<Rightarrow> bytes \<Rightarrow> bool" where
  "tunnels_part room l p \<longleftrightarrow> (if tl_num_of_tunnels l = 0 then p = [] else tunnels_image room l p)"

lemma writes_tunnels_part:
  assumes ok: "ok_tunnel_list (fst room) l"
  shows "writes (dps_set_tunnel_list_tlv (tl_tunnel_list l) (tl_num_of_tunnels l)) (tunnel_list_len l) (tunnels_part room l)"
proof (cases "tl_num_of_tunnels l = 0")
  case True
  then show ?thesis using writes_nothing
    by (simp add: dps_set_tunnel_list_tlv_def [abs_def] tunnel_list_len_def tunnels_part_def [abs_def])
next
  case False
  then show ?thesis using image_tunnel_list [OF ok False]
    by (simp add: tunnel_list_len_def tunnels_part_def [abs_def])
qed

lemma tlv_scan_tunnels:
  assumes "tunnels_part room l p" and "drop pos buff = p @ r" and "fin = pos + tunnel_list_len l"
    and "tl_num_of_tunnels (g st) = 0" and "tl_num_of_tunnels l = 0 \<Longrightarrow> f (g st) = st" and "ok_tunnel_list (fst room) l"
    and "\<And>v b. sw \<lparr>tlv_ver = v, tlv_type = TUNNEL_LIST_TLV, tlv_len = of_nat (tunnel_list_len l - 4)\<rparr> b st
           = took f (dps_get_tunnel_list_tlv room b (g st))"
  shows "\<exists>x. got_tunnels l x \<and> tlv_scan fin sw buff st pos = Some ((f x, False), fin)"
proof (cases "tl_num_of_tunnels l = 0")
  case True
  then have "got_tunnels l (g st)" "fin = pos"
    using assms(3,4,6) by (auto simp: got_tunnels_def ok_tunnel_list_def tunnel_list_len_def)
  then show ?thesis using assms(5) [OF True] by (intro exI [of _ "g st"]) (simp add: tlv_scan_done)
next
  case False
  then have p: "tunnels_image room l p" and pos: "pos < fin"
    using assms(1,3) by (auto simp: tunnels_part_def tunnel_list_len_def)
  obtain x where "got_tunnels l x" "tlv_scan fin sw buff st pos = tlv_scan fin sw buff (f x) (pos + tunnel_list_len l)"
    using tlv_scan_image [where g = g and f = f and sw = sw and st = st, OF p assms(2) pos TrueI assms(7)] by blast
  then show ?thesis using assms(3) by (auto simp: tlv_scan_done)
qed

definition endpoint_body :: "u32 \<Rightarrow> u32 \<Rightarrow> bytes \<Rightarrow> ip_addr_t \<Rightarrow> dps_tunnel_list_t \<Rightarrow> cursor \<Rightarrow> cursor option" where
  "endpoint_body version vnid mac ip tinfo s = do {
     s \<leftarrow> put (store32 (htonl version)) s;
     s \<leftarrow> put (dps_set_euid_tlv vnid mac) s;
     s \<leftarrow> set_vm_ip ip s;
     put (dps_set_tunnel_list_tlv (tl_tunnel_list tinfo) (tl_num_of_tunnels tinfo)) s }"

definition endpoint_tlv_len :: "ip_addr_t \<Rightarrow> dps_tunnel_list_t \<Rightarrow> nat" where
  "endpoint_tlv_len ip tinfo = 24 + ip_tlv_len ip + tunnel_list_len tinfo"

definition endpoint_img :: "tunnel_room \<Rightarrow> u32 \<Rightarrow> u32 \<Rightarrow> bytes \<Rightarrow> ip_addr_t \<Rightarrow> dps_tunnel_list_t \<Rightarrow> bytes \<Rightarrow> bool" where
  "endpoint_img room version vnid mac ip tinfo p \<longleftrightarrow> (\<exists>e a t. p = be32 version @ e @ a @ t \<and>
     euid_image vnid mac e \<and> ip_image ip a \<and> tunnels_part room tinfo t)"

lemma emits_endpoint_body:
  assumes "wf_mac mac" and "ok_ip ip" and "ok_tunnel_list (fst room) tinfo"
  shows "emits (endpoint_body version vnid mac ip tinfo) (endpoint_tlv_len ip tinfo - 4)
    (endpoint_img room version vnid mac ip tinfo)"
  unfolding endpoint_body_def [abs_def]
  by (rule emits_cong, (rule emits_bind emits_put writes_store writes_euid_image [OF assms(1)] emits_vm_ip [OF assms(2)]
        writes_tunnels_part [OF assms(3)])+)
     (auto simp: endpoint_tlv_len_def endpoint_img_def seqp_def)

lemma scan_end:
  "8 \<le> n \<Longrightarrow> n < 65536 \<Longrightarrow> 8 + unat (ucast (of_nat (n - 4) :: u16) - 4 :: u32) = n"
proof -
  assume "8 \<le> n" "n < 65536"
  moreover have "(ucast (of_nat (n - 4) :: u16) :: u32) = of_nat (n - 4)"
    using \<open>n < 65536\<close> by (simp add: unsigned_of_nat take_bit_nat_eq_self del: of_nat_diff)
  ultimately show ?thesis by (simp add: unat_sub_if' unat_of_nat of_nat_diff)
qed

text \<open>
  What the reader of an endpoint location delivers when its destination holds
  no tunnels: every field of the sender's structure, the bytes of the address
  union beyond an IPv4 address excepted.
\<close>

definition ok_loc_reply :: "nat \<Rightarrow> dps_endpoint_loc_reply_t \<Rightarrow> bool" where
  "ok_loc_reply cap d \<longleftrightarrow> wf_mac (lr_mac d) \<and> ok_ip (lr_vm_ip_addr d) \<and> ok_tunnel_list cap (lr_tunnel_info d) \<and>
     endpoint_tlv_len (lr_vm_ip_addr d) (lr_tunnel_info d) < 65536"

definition got_loc_reply :: "dps_endpoint_loc_reply_t \<Rightarrow> dps_endpoint_loc_reply_t \<Rightarrow> dps_endpoint_loc_reply_t \<Rightarrow> bool" where
  "got_loc_reply d st st' \<longleftrightarrow> lr_vnid st' = lr_vnid d \<and> lr_mac st' = lr_mac d \<and> lr_version st' = lr_version d \<and>
     lr_vm_ip_addr st' = recv_ip (lr_vm_ip_addr d) (lr_vm_ip_addr st) \<and> got_tunnels (lr_tunnel_info d) (lr_tunnel_info st')"

lemma endpoint_scan_setup:
  assumes "p = hdrb 1 c (of_nat (n - 4)) @ q" and "endpoint_img room version vnid mac ip tinfo q" and "8 \<le> n" and "n < 65536"
  shows "\<exists>e a t. p = (hdrb 1 c (of_nat (n - 4)) @ be32 version) @ e @ a @ t \<and> euid_image vnid mac e \<and> ip_image ip a \<and>
    tunnels_part room tinfo t \<and> dps_get_tlv_hdr (p @ r) = Some \<lparr>tlv_ver = 1, tlv_type = c, tlv_len = of_nat (n - 4)\<rparr> \<and>
    ld32 4 (p @ r) = Some (of_bytes32 (be32 version)) \<and> 8 + unat (ucast (of_nat (n - 4) :: u16) - 4 :: u32) = n"
  using assms(1,2) scan_end [OF assms(3,4)] by (auto simp: endpoint_img_def simp del: of_nat_diff) blast

lemma get_loc_reply_img:
  fixes st :: dps_endpoint_loc_reply_t
  assumes ok: "ok_loc_reply (fst room) d" and n: "n = endpoint_tlv_len (lr_vm_ip_addr d) (lr_tunnel_info d)"
    and p: "p = hdrb 1 ENDPOINT_LOC_TLV (of_nat (n - 4)) @ q"
    and q: "endpoint_img room (lr_version d) (lr_vnid d) (lr_mac d) (lr_vm_ip_addr d) (lr_tunnel_info d) q"
    and z: "tl_num_of_tunnels (lr_tunnel_info st) = 0"
  shows "\<exists>st'. dps_get_endpoint_loc_reply_tlv room (p @ r) st = Some (st', n) \<and> got_loc_reply d st st'"
proof -
  have "8 \<le> n" "n < 65536" using ok n by (auto simp: endpoint_tlv_len_def ok_loc_reply_def)
  then obtain e a t where bs: "p = (hdrb 1 ENDPOINT_LOC_TLV (of_nat (n - 4)) @ be32 (lr_version d)) @ e @ a @ t"
      and i: "euid_image (lr_vnid d) (lr_mac d) e" "ip_image (lr_vm_ip_addr d) a" "tunnels_part room (lr_tunnel_info d) t"
      and h: "dps_get_tlv_hdr (p @ r) = Some \<lparr>tlv_ver = 1, tlv_type = ENDPOINT_LOC_TLV, tlv_len = of_nat (n - 4)\<rparr>"
        "ld32 4 (p @ r) = Some (of_bytes32 (be32 (lr_version d)))" "8 + unat (ucast (of_nat (n - 4) :: u16) - 4 :: u32) = n"
    using endpoint_scan_setup [OF p q, of r] by blast
  let ?S = "tlv_scan n (loc_reply_switch room) (p @ r)" and ?k = "24 + ip_tlv_len (lr_vm_ip_addr d)"
  have d: "drop 8 (p @ r) = e @ a @ t @ r" "drop 24 (p @ r) = a @ t @ r" "drop ?k (p @ r) = t @ r" "24 < n" "n = ?k + tunnel_list_len (lr_tunnel_info d)"
    using i(1,2) [THEN tlv_image_length] n unfolding bs by (auto simp: endpoint_tlv_len_def ip_tlv_len_def)
  define st0 where "st0 = st\<lparr>lr_version := lr_version d\<rparr>"
  define st1 where "st1 = st0\<lparr>lr_vnid := lr_vnid d, lr_mac := lr_mac d\<rparr>"
  define st2 where "st2 = st1\<lparr>lr_vm_ip_addr := recv_ip (lr_vm_ip_addr d) (lr_vm_ip_addr st)\<rparr>"
  have "?S st0 8 = ?S st1 24"
    using tlv_scan_image [where sw = "loc_reply_switch room" and st = st0 and g = "\<lambda>_. undefined" and
        f = "\<lambda>(vnid, mac). st0\<lparr>lr_vnid := vnid, lr_mac := mac\<rparr>", OF i(1) d(1), of n] d(4)
    by (simp add: loc_reply_switch_def st1_def)
  also have "\<dots> = ?S st2 ?k"
    using tlv_scan_image [where sw = "loc_reply_switch room" and st = st1 and g = lr_vm_ip_addr and
        f = "\<lambda>ip. st1\<lparr>lr_vm_ip_addr := ip\<rparr>", OF i(2) d(2,4)]
    by (auto simp: loc_reply_switch_def st2_def st1_def st0_def)
  finally have s: "?S st0 8 = ?S st2 ?k" .
  obtain l where "got_tunnels (lr_tunnel_info d) l" "?S st2 ?k = Some ((st2\<lparr>lr_tunnel_info := l\<rparr>, False), n)"
    using tlv_scan_tunnels [where sw = "loc_reply_switch room" and st = st2 and g = lr_tunnel_info and
        f = "\<lambda>tinfo. st2\<lparr>lr_tunnel_info := tinfo\<rparr>", OF i(3) d(3,5)] z ok
    by (auto simp: loc_reply_switch_def st2_def st1_def st0_def ok_loc_reply_def)
  with s show ?thesis
    using h by (auto simp: dps_get_endpoint_loc_reply_tlv_def got_loc_reply_def st2_def st1_def st0_def simp del: of_nat_diff)
qed

lemma writes_loc_reply:
  assumes "ok_loc_reply (fst room) d" and "n = endpoint_tlv_len (lr_vm_ip_addr d) (lr_tunnel_info d)"
  shows "writes (dps_set_endpoint_loc_reply_tlv d) n (tlv_image (dps_get_endpoint_loc_reply_tlv room) ENDPOINT_LOC_TLV n
    (\<lambda>st. tl_num_of_tunnels (lr_tunnel_info st) = 0) (got_loc_reply d))"
proof -
  have "emits (endpoint_body (lr_version d) (lr_vnid d) (lr_mac d) (lr_vm_ip_addr d) (lr_tunnel_info d)) (n - 4)
      (endpoint_img room (lr_version d) (lr_vnid d) (lr_mac d) (lr_vm_ip_addr d) (lr_tunnel_info d))"
    using assms by (auto simp: ok_loc_reply_def intro: emits_endpoint_body)
  note w = writes_tlv_block [OF this, of 1 ENDPOINT_LOC_TLV]
  show ?thesis
    unfolding dps_set_endpoint_loc_reply_tlv_def endpoint_body_def [symmetric, abs_def]
    by (rule writes_cong [OF w])
       (use assms get_loc_reply_img [OF assms(1)] in \<open>auto simp: tlv_image_def endpoint_tlv_len_def simp del: of_nat_diff\<close>)
qed

interpretation loc_reply_tlv: tlv_codec "\<lambda>(room, d). dps_set_endpoint_loc_reply_tlv d"
  "\<lambda>(room, d). dps_get_endpoint_loc_reply_tlv room" "\<lambda>(room, d). endpoint_tlv_len (lr_vm_ip_addr d) (lr_tunnel_info d)"
  "\<lambda>_. ENDPOINT_LOC_TLV" "\<lambda>(room, d). ok_loc_reply (fst room) d" "\<lambda>_ st. tl_num_of_tunnels (lr_tunnel_info st) = 0"
  "\<lambda>(room, d). got_loc_reply d"
  by unfold_locales (clarsimp simp: writes_loc_reply)

definition ok_update :: "nat \<Rightarrow> dps_endpoint_update_t \<Rightarrow> bool" where
  "ok_update cap d \<longleftrightarrow> wf_mac (eu_mac d) \<and> ok_ip (eu_vm_ip_addr d) \<and> ok_tunnel_list cap (eu_tunnel_info d) \<and>
     endpoint_tlv_len (eu_vm_ip_addr d) (eu_tunnel_info d) < 65536"

definition got_update :: "dps_endpoint_update_t \<Rightarrow> dps_endpoint_update_t \<Rightarrow> dps_endpoint_update_t \<Rightarrow> bool" where
  "got_update d st st' \<longleftrightarrow> eu_vnid st' = eu_vnid d \<and> eu_mac st' = eu_mac d \<and> eu_version st' = eu_version d \<and>
     eu_vm_ip_addr st' = recv_ip (eu_vm_ip_addr d) (eu_vm_ip_addr st) \<and> eu_dps_client_addr st' = eu_dps_client_addr st \<and>
     got_tunnels (eu_tunnel_info d) (eu_tunnel_info st')"

lemma get_update_img:
  fixes st :: dps_endpoint_update_t
  assumes ok: "ok_update (fst room) d" and n: "n = endpoint_tlv_len (eu_vm_ip_addr d) (eu_tunnel_info d)"
    and p: "p = hdrb 1 ENDPOINT_LOC_TLV (of_nat (n - 4)) @ q"
    and q: "endpoint_img room (eu_version d) (eu_vnid d) (eu_mac d) (eu_vm_ip_addr d) (eu_tunnel_info d) q"
    and z: "tl_num_of_tunnels (eu_tunnel_info st) = 0"
  shows "\<exists>st'. dps_get_endpoint_update_tlv room (p @ r) st = Some (st', n) \<and> got_update d st st'"
proof -
  have "8 \<le> n" "n < 65536" using ok n by (auto simp: endpoint_tlv_len_def ok_update_def)
  then obtain e a t where bs: "p = (hdrb 1 ENDPOINT_LOC_TLV (of_nat (n - 4)) @ be32 (eu_version d)) @ e @ a @ t"
      and i: "euid_image (eu_vnid d) (eu_mac d) e" "ip_image (eu_vm_ip_addr d) a" "tunnels_part room (eu_tunnel_info d) t"
      and h: "dps_get_tlv_hdr (p @ r) = Some \<lparr>tlv_ver = 1, tlv_type = ENDPOINT_LOC_TLV, tlv_len = of_nat (n - 4)\<rparr>"
        "ld32 4 (p @ r) = Some (of_bytes32 (be32 (eu_version d)))" "8 + unat (ucast (of_nat (n - 4) :: u16) - 4 :: u32) = n"
    using endpoint_scan_setup [OF p q, of r] by blast
  let ?S = "tlv_scan n (update_switch room) (p @ r)" and ?k = "24 + ip_tlv_len (eu_vm_ip_addr d)"
  have d: "drop 8 (p @ r) = e @ a @ t @ r" "drop 24 (p @ r) = a @ t @ r" "drop ?k (p @ r) = t @ r" "24 < n" "n = ?k + tunnel_list_len (eu_tunnel_info d)"
    using i(1,2) [THEN tlv_image_length] n unfolding bs by (auto simp: endpoint_tlv_len_def ip_tlv_len_def)
  define st0 where "st0 = st\<lparr>eu_version := eu_version d\<rparr>"
  define st1 where "st1 = st0\<lparr>eu_vnid := eu_vnid d, eu_mac := eu_mac d\<rparr>"
  define st2 where "st2 = st1\<lparr>eu_vm_ip_addr := recv_ip (eu_vm_ip_addr d) (eu_vm_ip_addr st)\<rparr>"
  have "?S st0 8 = ?S st1 24"
    using tlv_scan_image [where sw = "update_switch room" and st = st0 and g = "\<lambda>_. undefined" and
        f = "\<lambda>(vnid, mac). st0\<lparr>eu_vnid := vnid, eu_mac := mac\<rparr>", OF i(1) d(1), of n] d(4)
    by (simp add: update_switch_def st1_def)
  also have "\<dots> = ?S st2 ?k"
    using tlv_scan_image [where sw = "update_switch room" and st = st1 and g = eu_vm_ip_addr and
        f = "\<lambda>ip. st1\<lparr>eu_vm_ip_addr := ip\<rparr>", OF i(2) d(2,4)]
    by (auto simp: update_switch_def st2_def st1_def st0_def)
  finally have s: "?S st0 8 = ?S st2 ?k" .
  obtain l where "got_tunnels (eu_tunnel_info d) l" "?S st2 ?k = Some ((st2\<lparr>eu_tunnel_info := l\<rparr>, False), n)"
    using tlv_scan_tunnels [where sw = "update_switch room" and st = st2 and g = eu_tunnel_info and
        f = "\<lambda>tinfo. st2\<lparr>eu_tunnel_info := tinfo\<rparr>", OF i(3) d(3,5)] z ok
    by (auto simp: update_switch_def st2_def st1_def st0_def ok_update_def)
  with s show ?thesis
    using h by (auto simp: dps_get_endpoint_update_tlv_def got_update_def st2_def st1_def st0_def simp del: of_nat_diff)
qed

lemma writes_update:
  assumes "ok_update (fst room) d" and "n = endpoint_tlv_len (eu_vm_ip_addr d) (eu_tunnel_info d)"
  shows "writes (dps_set_endpoint_update_tlv d) n (tlv_image (dps_get_endpoint_update_tlv room) ENDPOINT_LOC_TLV n
    (\<lambda>st. tl_num_of_tunnels (eu_tunnel_info st) = 0) (got_update d))"
proof -
  have "emits (endpoint_body (eu_version d) (eu_vnid d) (eu_mac d) (eu_vm_ip_addr d) (eu_tunnel_info d)) (n - 4)
      (endpoint_img room (eu_version d) (eu_vnid d) (eu_mac d) (eu_vm_ip_addr d) (eu_tunnel_info d))"
    using assms by (auto simp: ok_update_def intro: emits_endpoint_body)
  note w = writes_tlv_block [OF this, of 1 ENDPOINT_LOC_TLV]
  show ?thesis
    unfolding dps_set_endpoint_update_tlv_def endpoint_body_def [symmetric, abs_def]
    by (rule writes_cong [OF w])
       (use assms get_update_img [OF assms(1)] in \<open>auto simp: tlv_image_def endpoint_tlv_len_def simp del: of_nat_diff\<close>)
qed

interpretation update_tlv: tlv_codec "\<lambda>(room, d). dps_set_endpoint_update_tlv d"
  "\<lambda>(room, d). dps_get_endpoint_update_tlv room" "\<lambda>(room, d). endpoint_tlv_len (eu_vm_ip_addr d) (eu_tunnel_info d)"
  "\<lambda>_. ENDPOINT_LOC_TLV" "\<lambda>(room, d). ok_update (fst room) d" "\<lambda>_ st. tl_num_of_tunnels (eu_tunnel_info st) = 0"
  "\<lambda>(room, d). got_update d"
  by unfold_locales (clarsimp simp: writes_update)

end
