(* ===== verification/Dps_Tlv_Group.thy ===== *)
theory Dps_Tlv_Group
  imports Dps_Tlv_Nested
begin

text \<open>
  The remaining nested TLVs: endpoint reachability information (the VM
  invalidate message), multicast addresses and group records, endpoint update
  replies, and the bulk policy list.
\<close>

section \<open>Endpoint reachability information\<close>

definition epri_tlv_len :: "dps_epri_t \<Rightarrow> nat" where
  "epri_tlv_len d = 28 + 8 * unat (i4l_num_of_ips (ep_vm_ip4_addr d)) + 20 * unat (i6l_num_of_ips (ep_vm_ip6_addr d)) +
     tunnel_list_len (ep_tunnel_info d)"

definition ok_epri :: "nat \<Rightarrow> dps_epri_t \<Rightarrow> bool" where
  "ok_epri cap d \<longleftrightarrow> wf_mac (ep_mac d) \<and> wf_ip4_infos (ep_vm_ip4_addr d) \<and> wf_ip6_infos (ep_vm_ip6_addr d) \<and>
     ok_tunnel_list cap (ep_tunnel_info d) \<and> epri_tlv_len d < 65536"

definition dst_epri :: "dps_epri_t \<Rightarrow> bool" where
  "dst_epri st \<longleftrightarrow> length (i4l_ip_info (ep_vm_ip4_addr st)) = MAX_VIP_ADDR \<and> length (i6l_ip_info (ep_vm_ip6_addr st)) = MAX_VIP_ADDR \<and>
     tl_num_of_tunnels (ep_tunnel_info st) = 0"

definition got_epri :: "dps_epri_t \<Rightarrow> dps_epri_t \<Rightarrow> bool" where
  "got_epri d st' \<longleftrightarrow> ep_vnid st' = ep_vnid d \<and> ep_mac st' = ep_mac d \<and> got_ip4_infos (ep_vm_ip4_addr d) (ep_vm_ip4_addr st') \<and>
     got_ip6_infos (ep_vm_ip6_addr d) (ep_vm_ip6_addr st') \<and> got_tunnels (ep_tunnel_info d) (ep_tunnel_info st')"

lemma tlv_imageI:
  assumes "length p = n" and "p = hdrb v c (of_nat (n - 4)) @ q"
    and "\<And>r st. D st \<Longrightarrow> \<exists>st'. rd (p @ r) st = Some (st', n) \<and> R st st'"
  shows "tlv_image rd c n D R p"
  using assms unfolding tlv_image_def by blast

lemma get_epri_img:
  fixes st :: dps_epri_t
  assumes ok: "ok_epri (fst room) d" and n: "n = epri_tlv_len d"
    and p: "p = hdrb 1 EPRI_TLV (of_nat (n - 4)) @ e @ a4 @ a6 @ t"
    and i: "euid_image (ep_vnid d) (ep_mac d) e"
      "tlv_image dps_get_ip4_info_list_tlv IP4_INFO_LIST_TLV (4 + 8 * unat (i4l_num_of_ips (ep_vm_ip4_addr d)))
         (\<lambda>st. length (i4l_ip_info st) = MAX_VIP_ADDR) (\<lambda>_. got_ip4_infos (ep_vm_ip4_addr d)) a4"
      "tlv_image dps_get_ip6_info_list_tlv IP6_INFO_LIST_TLV (4 + 20 * unat (i6l_num_of_ips (ep_vm_ip6_addr d)))
         (\<lambda>st. length (i6l_ip_info st) = MAX_VIP_ADDR) (\<lambda>_. got_ip6_infos (ep_vm_ip6_addr d)) a6"
      "tunnels_part room (ep_tunnel_info d) t"
    and z: "dst_epri st"
  shows "\<exists>st'. dps_get_epri_tlv room (p @ r) st = Some (st', n) \<and> got_epri d st'"
proof -
  let ?S = "tlv_scan n (epri_switch room) (p @ r)" and ?j = "24 + 8 * unat (i4l_num_of_ips (ep_vm_ip4_addr d))"
  let ?k = "?j + (4 + 20 * unat (i6l_num_of_ips (ep_vm_ip6_addr d)))"
  have d: "drop 4 (p @ r) = e @ a4 @ a6 @ t @ r" "drop 20 (p @ r) = a4 @ a6 @ t @ r" "drop ?j (p @ r) = a6 @ t @ r"
      "drop ?k (p @ r) = t @ r" "20 < n" "?j < n" "n = ?k + tunnel_list_len (ep_tunnel_info d)"
    using i(1-3) [THEN tlv_image_length] n unfolding p by (auto simp: epri_tlv_len_def)
  define st1 where "st1 = st\<lparr>ep_vnid := ep_vnid d, ep_mac := ep_mac d\<rparr>"
  have 1: "?S st 4 = ?S st1 20"
    using tlv_scan_image [where sw = "epri_switch room" and st = st and g = "\<lambda>_. undefined" and
        f = "\<lambda>(vnid, mac). st\<lparr>ep_vnid := vnid, ep_mac := mac\<rparr>", OF i(1) d(1), of n] d(5)
    by (simp add: epri_switch_def st1_def)
  obtain x4 where 2: "got_ip4_infos (ep_vm_ip4_addr d) x4" "?S st1 20 = ?S (st1\<lparr>ep_vm_ip4_addr := x4\<rparr>) ?j"
    using tlv_scan_image [where sw = "epri_switch room" and st = st1 and g = ep_vm_ip4_addr and
        f = "\<lambda>x. st1\<lparr>ep_vm_ip4_addr := x\<rparr>", OF i(2) d(2,5)] z
    by (auto simp: epri_switch_def st1_def dst_epri_def)
  define st2 where "st2 = st1\<lparr>ep_vm_ip4_addr := x4\<rparr>"
  obtain x6 where 3: "got_ip6_infos (ep_vm_ip6_addr d) x6" "?S st2 ?j = ?S (st2\<lparr>ep_vm_ip6_addr := x6\<rparr>) ?k"
    using tlv_scan_image [where sw = "epri_switch room" and st = st2 and g = ep_vm_ip6_addr and
        f = "\<lambda>x. st2\<lparr>ep_vm_ip6_addr := x\<rparr>", OF i(3) d(3,6)] z
    by (auto simp: epri_switch_def st1_def st2_def dst_epri_def)
  define st3 where "st3 = st2\<lparr>ep_vm_ip6_addr := x6\<rparr>"
  obtain l where 4: "got_tunnels (ep_tunnel_info d) l" "?S st3 ?k = Some ((st3\<lparr>ep_tunnel_info := l\<rparr>, False), n)"
    using tlv_scan_tunnels [where sw = "epri_switch room" and st = st3 and g = ep_tunnel_info and
        f = "\<lambda>tinfo. st3\<lparr>ep_tunnel_info := tinfo\<rparr>", OF i(4) d(4,7)] z ok
    by (auto simp: epri_switch_def st3_def st2_def st1_def dst_epri_def ok_epri_def)
  have "unat (of_nat (n - 4) :: u16) = n - 4" "4 \<le> n"
    using ok n unfolding unat_of_nat ok_epri_def by (auto simp: epri_tlv_len_def)
  then have "dps_get_epri_tlv room (p @ r) st = Some (st3\<lparr>ep_tunnel_info := l\<rparr>, n)"
    using 1 2(2) 3(2) 4(2) by (simp add: dps_get_epri_tlv_def p st2_def st3_def del: of_nat_diff)
  then show ?thesis
    using 2(1) 3(1) 4(1) by (auto simp: got_epri_def st3_def st2_def st1_def)
qed

lemma writes_epri:
  assumes ok: "ok_epri (fst room) d" and n: "n = epri_tlv_len d"
  shows "writes (dps_set_epri_tlv d) n (tlv_image (dps_get_epri_tlv room) EPRI_TLV n dst_epri (\<lambda>_. got_epri d))"
proof -
  have w: "wf_mac (ep_mac d)" "wf_ip4_infos (ep_vm_ip4_addr d)" "wf_ip6_infos (ep_vm_ip6_addr d)" "ok_tunnel_list (fst room) (ep_tunnel_info d)"
    using ok by (auto simp: ok_epri_def)
  let ?i = "\<lambda>e a4 a6 t. euid_image (ep_vnid d) (ep_mac d) e \<and>
      tlv_image dps_get_ip4_info_list_tlv IP4_INFO_LIST_TLV (4 + 8 * unat (i4l_num_of_ips (ep_vm_ip4_addr d)))
         (\<lambda>st. length (i4l_ip_info st) = MAX_VIP_ADDR) (\<lambda>_. got_ip4_infos (ep_vm_ip4_addr d)) a4 \<and>
      tlv_image dps_get_ip6_info_list_tlv IP6_INFO_LIST_TLV (4 + 20 * unat (i6l_num_of_ips (ep_vm_ip6_addr d)))
         (\<lambda>st. length (i6l_ip_info st) = MAX_VIP_ADDR) (\<lambda>_. got_ip6_infos (ep_vm_ip6_addr d)) a6 \<and>
      tunnels_part room (ep_tunnel_info d) t"
  have "writes (dps_set_epri_tlv d) n (\<lambda>p. \<exists>e a4 a6 t. p = hdrb 1 EPRI_TLV (of_nat (n - 4)) @ e @ a4 @ a6 @ t \<and> ?i e a4 a6 t)"
    unfolding dps_set_epri_tlv_def
    by (rule writes_cong, (rule writes_tlv_block emits_bind emits_put writes_euid_image [OF w(1)] ip4_info_tlv.image [OF w(2)]
          ip6_info_tlv.image [OF w(3)] writes_tunnels_part [OF w(4)])+)
       (use n in \<open>auto simp: seqp_def epri_tlv_len_def ac_simps\<close>)
  then show ?thesis
    by (rule writes_mono, elim exE conjE) (rule tlv_imageI, assumption, assumption, rule get_epri_img [OF ok n], assumption+)
qed

interpretation epri_tlv: tlv_codec "\<lambda>(room, d). dps_set_epri_tlv d" "\<lambda>(room, d). dps_get_epri_tlv room"
  "\<lambda>(room, d). epri_tlv_len d" "\<lambda>_. EPRI_TLV" "\<lambda>(room, d). ok_epri (fst room) d" "\<lambda>_. dst_epri" "\<lambda>(room, d) _. got_epri d"
  by unfold_locales (clarsimp simp: writes_epri)

section \<open>Multicast addresses and group records\<close>

definition mcast_addr_len :: "dps_mcast_addr_t \<Rightarrow> nat" where
  "mcast_addr_len a = (if ma_mcast_addr_type a = MCAST_ADDR_V6 then 36 else 24)"

definition ok_mcast_addr :: "dps_mcast_addr_t \<Rightarrow> bool" where
  "ok_mcast_addr a \<longleftrightarrow> wf_mac (ma_mcast_mac a) \<and> length (ma_mcast_ip6 a) = 16 \<and> ma_mcast_addr_type a \<le> MCAST_ADDR_V4_ICB_RANGE"

definition recv_mcast_addr :: "dps_mcast_addr_t \<Rightarrow> dps_mcast_addr_t \<Rightarrow> dps_mcast_addr_t" where
  "recv_mcast_addr a st = st\<lparr>ma_mcast_addr_type := ma_mcast_addr_type a, ma_mcast_mac := ma_mcast_mac a,
     ma_mcast_ip6 := (if ma_mcast_addr_type a = MCAST_ADDR_V6 then ma_mcast_ip6 a
       else set_ip4 (ma_mcast_ip4 a) (ma_mcast_ip6 st))\<rparr>"

lemma mcast_addr_type_cases:
  assumes "(t :: u16) \<le> 3"
  obtains "t = 0" | "t = 1" | "t = 2" | "t = 3"
proof -
  have "unat t \<le> 3" using assms by (simp add: word_le_nat_alt)
  then have "unat t = 0 \<or> unat t = 1 \<or> unat t = 2 \<or> unat t = 3" by linarith
  then show thesis using that by (auto simp: word_unat_eq_iff)
qed

lemma writes_mcast_addr:
  assumes ok: "ok_mcast_addr a"
  shows "writes (dps_set_mcast_addr_tlv a) (mcast_addr_len a) (tlv_image dps_get_mcast_addr_tlv (mcast_tlv_type a)
    (mcast_addr_len a) (\<lambda>_. True) (\<lambda>st st'. st' = recv_mcast_addr a st))"
proof -
  have w: "wf_mac (ma_mcast_mac a)" "length (ma_mcast_ip6 a) = 16" using ok by (auto simp: ok_mcast_addr_def)
  let ?body = "\<lambda>s. put (dps_set_vmac_tlv (ma_mcast_mac a)) s \<bind> (\<lambda>s.
      if ma_mcast_addr_type a = MCAST_ADDR_V6 then put (dps_set_ip6_tlv (ma_mcast_ip6 a)) s else put (dps_set_ip4_tlv (ma_mcast_ip4 a)) s)"
  have "emits ?body (mcast_addr_len a - 4) (\<lambda>p. \<exists>pad. length pad = 2 \<and> p = hdrb 1 VMAC_TLV 8 @ ma_mcast_mac a @ pad @
      (if ma_mcast_addr_type a = MCAST_ADDR_V6 then hdrb 6 IP_ADDR_TLV 16 @ ma_mcast_ip6 a else hdrb 4 IP_ADDR_TLV 4 @ be32 (ma_mcast_ip4 a)))"
    by (rule emits_cong, (rule emits_bind emits_if emits_put writes_vmac [OF w(1)] writes_ip6 [OF w(2)] writes_ip4)+)
       (auto simp: seqp_def mcast_addr_len_def)
  from writes_tlv_block [OF this, of 1 "mcast_tlv_type a"] show ?thesis
    unfolding dps_set_mcast_addr_tlv_def
  proof (rule writes_cong)
    show "4 + (mcast_addr_len a - 4) = mcast_addr_len a" by (simp add: mcast_addr_len_def)
  next
    fix p assume len: "length p = 4 + (mcast_addr_len a - 4)" and "\<exists>q. p = hdrb 1 (mcast_tlv_type a) (word_of_nat (mcast_addr_len a - 4)) @ q \<and>
        (\<exists>pad. length pad = 2 \<and> q = hdrb 1 VMAC_TLV 8 @ ma_mcast_mac a @ pad @ (if ma_mcast_addr_type a = MCAST_ADDR_V6
          then hdrb 6 IP_ADDR_TLV 16 @ ma_mcast_ip6 a else hdrb 4 IP_ADDR_TLV 4 @ be32 (ma_mcast_ip4 a)))"
    then obtain pad where pad: "length pad = 2" and p: "p = hdrb 1 (mcast_tlv_type a) (of_nat (mcast_addr_len a - 4)) @ hdrb 1 VMAC_TLV 8 @
        ma_mcast_mac a @ pad @ (if ma_mcast_addr_type a = MCAST_ADDR_V6 then hdrb 6 IP_ADDR_TLV 16 @ ma_mcast_ip6 a
          else hdrb 4 IP_ADDR_TLV 4 @ be32 (ma_mcast_ip4 a))"
      by blast
    have "ma_mcast_addr_type a \<le> 3" using ok by (simp add: ok_mcast_addr_def)
    then show "tlv_image dps_get_mcast_addr_tlv (mcast_tlv_type a) (mcast_addr_len a) (\<lambda>_. True) (\<lambda>st st'. st' = recv_mcast_addr a st) p"
      by (rule mcast_addr_type_cases)
         (use w pad in \<open>auto simp: tlv_image_def p mcast_addr_len_def mcast_tlv_type_def wf_mac_def dps_get_mcast_addr_tlv_def
           dps_get_vmac_tlv_def dps_get_ip4_tlv_def dps_get_ip6_tlv_def from_off_def recv_mcast_addr_def\<close>)
  qed
qed

interpretation mcast_addr_tlv: tlv_codec dps_set_mcast_addr_tlv "\<lambda>_. dps_get_mcast_addr_tlv" mcast_addr_len mcast_tlv_type
  ok_mcast_addr "\<lambda>_ _. True" "\<lambda>a st st'. st' = recv_mcast_addr a st"
  by unfold_locales (rule writes_mcast_addr)

text \<open>The sources of a group record, when it lists any.\<close>

definition srcs_len :: "dps_mcast_group_record_t \<Rightarrow> nat" where
  "srcs_len g = (if mg_family g = AF_INET then 4 else 16) * unat (mg_num_of_srcs g)"

definition grp_rec_len :: "dps_mcast_group_record_t \<Rightarrow> nat" where
  "grp_rec_len g = 4 + mcast_addr_len (mg_mcast_addr g) + (if mg_num_of_srcs g = 0 then 0 else 4 + srcs_len g)"

definition ok_grp_rec :: "nat \<Rightarrow> dps_mcast_group_record_t \<Rightarrow> bool" where
  "ok_grp_rec cap g \<longleftrightarrow> ok_mcast_addr (mg_mcast_addr g) \<and> grp_rec_len g < 65536 \<and> (mg_num_of_srcs g \<noteq> 0 \<longrightarrow>
     (mg_family g = AF_INET \<or> mg_family g = AF_INET6) \<and> srcs_len g \<le> length (mg_src_addr g) \<and> srcs_len g \<le> cap)"

definition got_grp_rec :: "dps_mcast_group_record_t \<Rightarrow> dps_mcast_group_record_t \<Rightarrow> dps_mcast_group_record_t \<Rightarrow> bool" where
  "got_grp_rec g st st' \<longleftrightarrow> mg_mcast_addr st' = recv_mcast_addr (mg_mcast_addr g) (mg_mcast_addr st) \<and>
     mg_num_of_srcs st' = mg_num_of_srcs g \<and> (mg_num_of_srcs g \<noteq> 0 \<longrightarrow>
       mg_family st' = mg_family g \<and> take (srcs_len g) (mg_src_addr st') = take (srcs_len g) (mg_src_addr g))"

lemma div_num_mult:
  "4 * unat (n :: u16) < 65536 \<Longrightarrow> word_of_nat (4 * unat n) div 4 = n"
  "16 * unat (n :: u16) < 65536 \<Longrightarrow> word_of_nat (16 * unat n) div 16 = n"
  by (simp_all add: word_unat_eq_iff unat_div unat_of_nat del: of_nat_mult)

definition sources_part :: "nat \<Rightarrow> dps_mcast_group_record_t \<Rightarrow> bytes \<Rightarrow> bool" where
  "sources_part cap g t \<longleftrightarrow> (if mg_num_of_srcs g = 0 then t = [] else if mg_family g = AF_INET
      then tlv_image (dps_get_ipv4_list_tlv cap 0) IPV4_ADDR_LIST_TLV (4 + srcs_len g) (\<lambda>st. 0 \<le> length st)
        (\<lambda>st st'. st' = take 0 st @ take (srcs_len g) (mg_src_addr g) @ drop (0 + srcs_len g) st) t
      else tlv_image (dps_get_ipv6_list_tlv cap 0) IPV6_ADDR_LIST_TLV (4 + srcs_len g) (\<lambda>st. 0 \<le> length st)
        (\<lambda>st st'. st' = take 0 st @ take (srcs_len g) (mg_src_addr g) @ drop (0 + srcs_len g) st) t)"

lemma scan_sources:
  fixes st :: dps_mcast_group_record_t
  assumes ok: "ok_grp_rec cap g" and z: "mg_num_of_srcs st = 0" and d: "drop pos buff = t @ r"
    and fin: "fin = pos + length t" and st: "mg_mcast_addr st = recv_mcast_addr (mg_mcast_addr g) a0"
    and t: "sources_part cap g t"
  shows "\<exists>st'. tlv_scan fin (grp_rec_switch cap) buff st pos = Some ((st', False), fin) \<and> got_grp_rec g (st\<lparr>mg_mcast_addr := a0\<rparr>) st'"
proof -
  let ?m = "take (srcs_len g) (mg_src_addr g) @ drop (srcs_len g) (mg_src_addr st)"
  consider "mg_num_of_srcs g = 0" | "mg_num_of_srcs g \<noteq> 0" "mg_family g = AF_INET" | "mg_num_of_srcs g \<noteq> 0" "mg_family g = AF_INET6" "mg_family g \<noteq> AF_INET"
    using ok by (auto simp: ok_grp_rec_def)
  then show ?thesis
  proof cases
    case 1
    then show ?thesis using assms by (auto simp: tlv_scan_done got_grp_rec_def sources_part_def)
  next
    case 2
    then have i: "tlv_image (dps_get_ipv4_list_tlv cap 0) IPV4_ADDR_LIST_TLV (4 + srcs_len g) (\<lambda>st. 0 \<le> length st)
        (\<lambda>st st'. st' = take 0 st @ take (srcs_len g) (mg_src_addr g) @ drop (0 + srcs_len g) st) t"
      using t by (simp add: sources_part_def)
    have len: "srcs_len g = 4 * unat (mg_num_of_srcs g)" "srcs_len g < 65536" "length t = 4 + srcs_len g"
      using ok 2 tlv_image_length [OF i] by (auto simp: srcs_len_def ok_grp_rec_def grp_rec_len_def)
    have "tlv_scan fin (grp_rec_switch cap) buff st pos = tlv_scan fin (grp_rec_switch cap) buff
        (st\<lparr>mg_src_addr := ?m, mg_num_of_srcs := mg_num_of_srcs g, mg_family := AF_INET\<rparr>) fin"
      using tlv_scan_image [where sw = "grp_rec_switch cap" and st = st and g = mg_src_addr and fin = fin and
          f = "\<lambda>m. st\<lparr>mg_src_addr := m, mg_num_of_srcs := mg_num_of_srcs g, mg_family := AF_INET\<rparr>", OF i d] fin len
        div_num_mult(1) [of "mg_num_of_srcs g"]
      by (simp add: grp_rec_switch_def)
    then show ?thesis using st 2 ok by (auto simp: tlv_scan_done got_grp_rec_def ok_grp_rec_def)
  next
    case 3
    then have i: "tlv_image (dps_get_ipv6_list_tlv cap 0) IPV6_ADDR_LIST_TLV (4 + srcs_len g) (\<lambda>st. 0 \<le> length st)
        (\<lambda>st st'. st' = take 0 st @ take (srcs_len g) (mg_src_addr g) @ drop (0 + srcs_len g) st) t"
      using t by (simp add: sources_part_def)
    have len: "srcs_len g = 16 * unat (mg_num_of_srcs g)" "srcs_len g < 65536" "length t = 4 + srcs_len g"
      using ok 3 tlv_image_length [OF i] by (auto simp: srcs_len_def ok_grp_rec_def grp_rec_len_def)
    have "tlv_scan fin (grp_rec_switch cap) buff st pos = tlv_scan fin (grp_rec_switch cap) buff
        (st\<lparr>mg_src_addr := ?m, mg_num_of_srcs := mg_num_of_srcs g, mg_family := AF_INET6\<rparr>) fin"
      using tlv_scan_image [where sw = "grp_rec_switch cap" and st = st and g = mg_src_addr and fin = fin and
          f = "\<lambda>m. st\<lparr>mg_src_addr := m, mg_num_of_srcs := mg_num_of_srcs g, mg_family := AF_INET6\<rparr>", OF i d] fin len
        div_num_mult(2) [of "mg_num_of_srcs g"]
      by (simp add: grp_rec_switch_def)
    then show ?thesis using st 3 ok by (auto simp: tlv_scan_done got_grp_rec_def ok_grp_rec_def)
  qed
qed

lemma emits_sources:
  assumes ok: "ok_grp_rec cap g"
  shows "emits (\<lambda>s. if mg_num_of_srcs g \<noteq> 0 then
        (if mg_family g = AF_INET then put (dps_set_ipv4_list_tlv (mg_src_addr g) (ucast (mg_num_of_srcs g))) s
         else if mg_family g = AF_INET6 then put (dps_set_ipv6_list_tlv (mg_src_addr g) (ucast (mg_num_of_srcs g))) s
         else Some s)
      else Some s) (if mg_num_of_srcs g = 0 then 0 else 4 + srcs_len g) (sources_part cap g)"
proof -
  have u: "unat (ucast (mg_num_of_srcs g) :: u32) = unat (mg_num_of_srcs g)"
    using unsigned_less [of "mg_num_of_srcs g", where 'a = nat] by (simp add: unsigned_ucast_eq take_bit_nat_eq_self)
  consider "mg_num_of_srcs g = 0" | "mg_num_of_srcs g \<noteq> 0" "mg_family g = AF_INET" | "mg_num_of_srcs g \<noteq> 0" "mg_family g = AF_INET6" "mg_family g \<noteq> AF_INET"
    using ok by (auto simp: ok_grp_rec_def)
  then show ?thesis
  proof cases
    case 1
    then show ?thesis using emits_Some by (simp add: sources_part_def [abs_def])
  next
    case 2
    then show ?thesis
      using emits_put [OF image_ipv4_list [of "ucast (mg_num_of_srcs g)" "mg_src_addr g" 0 cap]] ok u
      by (simp add: sources_part_def [abs_def] ok_grp_rec_def grp_rec_len_def srcs_len_def)
  next
    case 3
    then show ?thesis
      using emits_put [OF image_ipv6_list [of "ucast (mg_num_of_srcs g)" "mg_src_addr g" 0 cap]] ok u
      by (simp add: sources_part_def [abs_def] ok_grp_rec_def grp_rec_len_def srcs_len_def)
  qed
qed

lemma sources_part_length: "sources_part cap g t \<Longrightarrow> length t = (if mg_num_of_srcs g = 0 then 0 else 4 + srcs_len g)"
  by (auto simp: sources_part_def tlv_image_def split: if_splits)

lemma writes_grp_rec:
  assumes ok: "ok_grp_rec cap g" and n: "n = grp_rec_len g"
  shows "writes (dps_set_mcast_grp_rec_tlv g) n (tlv_image (dps_get_mcast_grp_rec_tlv cap) MCAST_GRP_REC_TLV n
    (\<lambda>st. mg_num_of_srcs st = 0) (got_grp_rec g))"
proof -
  let ?a = "mg_mcast_addr g"
  have "ok_mcast_addr ?a" using ok by (simp add: ok_grp_rec_def)
  note w = writes_mcast_addr [OF this]
  let ?i = "tlv_image dps_get_mcast_addr_tlv (mcast_tlv_type ?a) (mcast_addr_len ?a) (\<lambda>_. True) (\<lambda>st st'. st' = recv_mcast_addr ?a st)"
  have "writes (dps_set_mcast_grp_rec_tlv g) n
      (\<lambda>p. \<exists>a t. p = hdrb 1 MCAST_GRP_REC_TLV (of_nat (n - 4)) @ a @ t \<and> ?i a \<and> sources_part cap g t)"
    unfolding dps_set_mcast_grp_rec_tlv_def
    by (rule writes_cong, (rule writes_tlv_block emits_bind emits_put [OF w] emits_sources [OF ok])+)
       (auto simp: n seqp_def grp_rec_len_def, blast+)
  then show ?thesis
  proof (rule writes_mono, elim exE conjE)
    fix p a t
    assume p: "length p = n" "p = hdrb 1 MCAST_GRP_REC_TLV (of_nat (n - 4)) @ a @ t" and i: "?i a" "sources_part cap g t"
    show "tlv_image (dps_get_mcast_grp_rec_tlv cap) MCAST_GRP_REC_TLV n (\<lambda>st. mg_num_of_srcs st = 0) (got_grp_rec g) p"
    proof (rule tlv_imageI [OF p])
      fix r and st :: dps_mcast_group_record_t assume z: "mg_num_of_srcs st = 0"
      let ?st = "st\<lparr>mg_mcast_addr := recv_mcast_addr ?a (mg_mcast_addr st)\<rparr>" and ?k = "4 + mcast_addr_len ?a"
      have d: "drop 4 (p @ r) = a @ t @ r" "drop ?k (p @ r) = t @ r" "4 < n" "n = ?k + length t"
        using tlv_image_length [OF i(1)] sources_part_length [OF i(2)] n unfolding p(2)
        by (auto simp: grp_rec_len_def mcast_addr_len_def)
      have 1: "tlv_scan n (grp_rec_switch cap) (p @ r) st 4 = tlv_scan n (grp_rec_switch cap) (p @ r) ?st ?k"
        using tlv_scan_image [where sw = "grp_rec_switch cap" and st = st and g = mg_mcast_addr and
            f = "\<lambda>a. st\<lparr>mg_mcast_addr := a\<rparr>", OF i(1) d(1,3)]
        by (simp add: grp_rec_switch_def mcast_tlv_type_def)
      obtain st' where 2: "tlv_scan n (grp_rec_switch cap) (p @ r) ?st ?k = Some ((st', False), n)" "got_grp_rec g st st'"
        using scan_sources [OF ok _ d(2,4), of ?st "mg_mcast_addr st"] z i(2) by auto
      have "unat (of_nat (n - 4) :: u16) = n - 4"
        using ok n unfolding unat_of_nat ok_grp_rec_def by auto
      then show "\<exists>st'. dps_get_mcast_grp_rec_tlv cap (p @ r) st = Some (st', n) \<and> got_grp_rec g st st'"
        using 1 2 d(3) p(2) by (simp add: dps_get_mcast_grp_rec_tlv_def del: of_nat_diff)
    qed
  qed
qed

interpretation grp_rec_tlv: tlv_codec "\<lambda>(cap, g). dps_set_mcast_grp_rec_tlv g" "\<lambda>(cap, g). dps_get_mcast_grp_rec_tlv cap"
  "\<lambda>(cap, g). grp_rec_len g" "\<lambda>_. MCAST_GRP_REC_TLV" "\<lambda>(cap, g). ok_grp_rec cap g" "\<lambda>_ st. mg_num_of_srcs st = 0"
  "\<lambda>(cap, g). got_grp_rec g"
  by unfold_locales (clarsimp simp: writes_grp_rec)

end
