(* ===== verification/Dps_Tlv_Lists.thy ===== *)
theory Dps_Tlv_Lists
  imports Dps_Tlv_Group
begin

text \<open>
  The TLVs built from address lists: endpoint update replies, packed tunnel
  lists of a VNID and the bulk policy list.
\<close>

section \<open>Endpoint update replies\<close>

definition recv_vip4 :: "u32 \<Rightarrow> ip_addr_t \<Rightarrow> ip_addr_t" where
  "recv_vip4 w a = a\<lparr>ia_ip6 := set_ip4 w (ia_ip6 a), ia_family := AF_INET\<rparr>"

lemma read_vip4:
  assumes "length ws \<le> MAX_VIP_ADDR" and "length arr = MAX_VIP_ADDR"
  shows "dps_get_ipv4_list_to_ipaddr (hdrb v t (of_nat (4 * length ws)) @ concat (map be32 ws) @ r) (of_nat MAX_VIP_ADDR) (arr, 0, 0) =
    Some ((map2 recv_vip4 ws (take (length ws) arr) @ drop (length ws) arr, length ws, of_nat (length ws)), 4 + 4 * length ws)"
proof -
  let ?h = "hdrb v t (of_nat (4 * length ws))" and ?fin = "4 + 4 * length ws"
  let ?bs = "?h @ concat (map be32 ws) @ r"
  let ?Inv = "\<lambda>xs st. st = (map2 recv_vip4 xs (take (length xs) arr) @ drop (length xs) arr, length xs, of_nat (length xs) :: u32)"
  have "\<exists>st'. while_opt (\<lambda>(st, pos). pos < ?fin) (vip4_step ?bs 16 ?fin) ((arr, 0, 0), length ?h) =
      Some (st', length ?h + length (concat (map be32 ws))) \<and> ?Inv ws st'"
  proof (rule while_opt_items [where E = "\<lambda>w p. p = be32 w" and bs = ?bs])
    fix st pre w p suf xs1 xs2
    assume a: "?bs = pre @ p @ suf" "ws = xs1 @ w # xs2" "p = be32 w" "?Inv xs1 st"
    have k: "length xs1 < 16" "length xs1 < length arr" using a(2) assms by auto
    have "unat (of_nat (length xs1) :: u32) = length xs1"
      unfolding unat_of_nat using k by simp
    then have le: "(of_nat (length xs1) :: u32) \<le> 16"
      using k by (simp add: word_le_nat_alt)
    have d: "drop (length xs1) arr = arr ! length xs1 # drop (Suc (length xs1)) arr"
      using k by (simp add: Cons_nth_drop_Suc)
    have z: "take (Suc (length xs1)) arr = take (length xs1) arr @ [arr ! length xs1]"
      using k by (simp add: take_Suc_conv_app_nth)
    show "p \<noteq> [] \<and> (\<exists>st'. vip4_step ?bs 16 ?fin (st, length pre) = Some (st', length pre + length p) \<and> ?Inv (xs1 @ [w]) st')"
      unfolding a(1) using a(3,4) k le d
      by (simp add: vip4_step_def upd_at_def z recv_vip4_def list_update_append nth_append)
  qed (auto simp: list_all2_map_eq length_concat_const [where k = 4])
  then show ?thesis
    using assms by (auto simp: dps_get_ipv4_list_to_ipaddr_def length_concat_const [where k = 4])
qed

definition vips :: "dps_endpoint_update_reply_t \<Rightarrow> ip_addr_t list" where
  "vips d = take (unat (ur_num_of_vip d)) (ur_vm_ip_addr d)"

definition update_reply_len :: "dps_endpoint_update_reply_t \<Rightarrow> nat" where
  "update_reply_len d = 24 + (if ur_num_of_vip d = 0 then 0 else 4 + 4 * unat (ur_num_of_vip d)) + tunnel_list_len (ur_tunnel_info d)"

text \<open>A reply whose virtual addresses are IPv4 (the IPv6 ones are not read back correctly, see below).\<close>

definition ok_update_reply :: "nat \<Rightarrow> dps_endpoint_update_reply_t \<Rightarrow> bool" where
  "ok_update_reply cap d \<longleftrightarrow> wf_mac (ur_mac d) \<and> unat (ur_num_of_vip d) \<le> MAX_VIP_ADDR \<and>
     length (ur_vm_ip_addr d) = MAX_VIP_ADDR \<and> list_all (\<lambda>a. ia_family a = AF_INET) (vips d) \<and>
     ok_tunnel_list cap (ur_tunnel_info d) \<and> update_reply_len d < 65536"

definition dst_update_reply :: "dps_endpoint_update_reply_t \<Rightarrow> bool" where
  "dst_update_reply st \<longleftrightarrow> ur_num_of_vip st = 0 \<and> length (ur_vm_ip_addr st) = MAX_VIP_ADDR \<and>
     tl_num_of_tunnels (ur_tunnel_info st) = 0"

definition got_update_reply :: "dps_endpoint_update_reply_t \<Rightarrow> dps_endpoint_update_reply_t \<Rightarrow> bool" where
  "got_update_reply d st' \<longleftrightarrow> ur_vnid st' = ur_vnid d \<and> ur_mac st' = ur_mac d \<and> ur_version st' = ur_version d \<and>
     ur_num_of_vip st' = ur_num_of_vip d \<and>
     map (\<lambda>a. (ia_family a, ia_ip4 a)) (vips st') = map (\<lambda>a. (AF_INET, ia_ip4 a)) (vips d) \<and>
     got_tunnels (ur_tunnel_info d) (ur_tunnel_info st')"

abbreviation vip4_image :: "u32 list \<Rightarrow> bytes \<Rightarrow> bool" where
  "vip4_image ws p \<equiv> p = hdrb 1 IPV4_ADDR_LIST_TLV (of_nat (4 * length ws)) @ concat (map be32 ws)"

lemma word_at_words: "i < length ws \<Longrightarrow> word_at (concat (map bytes32 ws)) i = ws ! i"
proof (induction ws arbitrary: i)
  case (Cons w ws)
  then show ?case by (cases i) (simp_all add: word_at_def)
qed simp

lemma writes_vip4:
  assumes "length ws < 65536"
  shows "writes (dps_set_ipv4_list_tlv (concat (map bytes32 ws)) (of_nat (length ws))) (4 + 4 * length ws) (vip4_image ws)"
proof -
  have u: "unat (of_nat (length ws) :: u32) = length ws" unfolding unat_of_nat using assms by simp
  have "map (be32 \<circ> word_at (concat (map bytes32 ws))) [0..<length ws] = map be32 ws"
    by (rule nth_equalityI) (auto simp: word_at_words)
  then show ?thesis
    using writes_ipv4_list [of "of_nat (length ws)" "concat (map bytes32 ws)"] u
    by (simp add: ipv4_list_img_def length_concat_const [where k = 4])
qed

definition recv_vips :: "u32 list \<Rightarrow> vip_state \<Rightarrow> vip_state" where
  "recv_vips ws st = (map2 recv_vip4 ws (take (length ws) (fst st)) @ drop (length ws) (fst st), length ws, of_nat (length ws))"

definition vip_part :: "u32 list \<Rightarrow> bytes \<Rightarrow> bool" where
  "vip_part ws p \<longleftrightarrow> (if ws = [] then p = []
     else tlv_image (\<lambda>b. dps_get_ipv4_list_to_ipaddr b (of_nat MAX_VIP_ADDR)) IPV4_ADDR_LIST_TLV (4 + 4 * length ws)
       (\<lambda>st. length (fst st) = MAX_VIP_ADDR \<and> snd st = (0, 0)) (\<lambda>st st'. st' = recv_vips ws st) p)"

definition vip_part_len :: "u32 list \<Rightarrow> nat" where
  "vip_part_len ws = (if ws = [] then 0 else 4 + 4 * length ws)"

lemma vip_part_length: "vip_part ws p \<Longrightarrow> length p = vip_part_len ws"
  by (auto simp: vip_part_def vip_part_len_def tlv_image_def split: if_splits)

lemma emits_vips:
  assumes "length ws \<le> MAX_VIP_ADDR"
  shows "emits (\<lambda>s. if ws = [] then Some s else put (dps_set_ipv4_list_tlv (concat (map bytes32 ws)) (of_nat (length ws))) s)
    (vip_part_len ws) (vip_part ws)"
proof (cases "ws = []")
  case True
  then show ?thesis using emits_Some by (simp add: vip_part_def [abs_def] vip_part_len_def)
next
  case False
  have "vip_part ws p" if "vip4_image ws p" for p
    unfolding vip_part_def using False assms that read_vip4 [OF assms]
    by (auto simp: length_concat_const [where k = 4] recv_vips_def intro!: tlv_imageI [where v = 1 and q = "concat (map be32 ws)"])
  then have "emits (put (dps_set_ipv4_list_tlv (concat (map bytes32 ws)) (of_nat (length ws)))) (4 + 4 * length ws) (vip_part ws)"
    using emits_put [OF writes_vip4, of ws] assms by (auto elim: emits_mono)
  then show ?thesis using False by (simp add: vip_part_len_def)
qed

definition vip_words :: "dps_endpoint_update_reply_t \<Rightarrow> u32 list" where
  "vip_words d = map ia_ip4 (vips d)"

lemma set_update_reply_v4:
  assumes ok: "ok_update_reply cap d"
  shows "dps_set_endpoint_update_reply_tlv d = tlv_block 1 ENDPOINT_UPDATE_REPLY_TLV (\<lambda>s. do {
     s \<leftarrow> put (store32 (htonl (ur_version d))) s;
     s \<leftarrow> put (dps_set_euid_tlv (ur_vnid d) (ur_mac d)) s;
     s \<leftarrow> (if vip_words d = [] then Some s
           else put (dps_set_ipv4_list_tlv (concat (map bytes32 (vip_words d))) (of_nat (length (vip_words d)))) s);
     put (dps_set_tunnel_list_tlv (tl_tunnel_list (ur_tunnel_info d)) (tl_num_of_tunnels (ur_tunnel_info d))) s })"
proof -
  have v: "vip4s (vips d) = vips d" "vip6s (vips d) = []" "length (vips d) \<le> 16" "slots (unat (ur_num_of_vip d)) (ur_vm_ip_addr d) = Some (vips d)"
    using ok by (auto simp: ok_update_reply_def vip4s_def vip6s_def list_all_iff vips_def slots_def)
  then show ?thesis
    by (simp add: dps_set_endpoint_update_reply_tlv_def vip_words_def slots_def cong: if_cong)
qed

lemma vip_words_recv:
  assumes "length ws \<le> length arr"
  shows "map (\<lambda>a. (ia_family a, ia_ip4 a)) (take (length ws) (fst (recv_vips ws (arr, x)))) = map (Pair AF_INET) ws"
  using assms by (auto simp: recv_vips_def recv_vip4_def ia_ip4_def intro: nth_equalityI)

lemma get_update_reply_img:
  fixes st :: dps_endpoint_update_reply_t
  assumes ok: "ok_update_reply (fst room) d" and n: "n = update_reply_len d"
    and p: "p = hdrb 1 ENDPOINT_UPDATE_REPLY_TLV (of_nat (n - 4)) @ be32 (ur_version d) @ e @ a @ t"
    and i: "euid_image (ur_vnid d) (ur_mac d) e" "vip_part (vip_words d) a" "tunnels_part room (ur_tunnel_info d) t"
    and z: "dst_update_reply st"
  shows "\<exists>st'. dps_get_endpoint_update_reply_tlv room (p @ r) st = Some (st', n) \<and> got_update_reply d st'"
proof -
  let ?S = "tlv_scan n (update_reply_switch room) (p @ r)" and ?ws = "vip_words d"
  let ?k = "24 + vip_part_len ?ws"
  have ws: "length ?ws = unat (ur_num_of_vip d)" "length ?ws \<le> 16" "of_nat (length ?ws) = ur_num_of_vip d"
    using ok by (auto simp: vip_words_def vips_def ok_update_reply_def)
  have n': "n = ?k + tunnel_list_len (ur_tunnel_info d)" "n < 65536"
    using n ws ok by (auto simp: update_reply_len_def vip_part_len_def ok_update_reply_def unat_gt_0 simp flip: length_0_conv)
  have d: "drop 8 (p @ r) = e @ a @ t @ r" "drop 24 (p @ r) = a @ t @ r" "drop ?k (p @ r) = t @ r"
    using tlv_image_length [OF i(1)] vip_part_length [OF i(2)] unfolding p by auto
  define s1 where "s1 = (st\<lparr>ur_version := ur_version d, ur_vnid := ur_vnid d, ur_mac := ur_mac d\<rparr>, 0 :: nat)"
  have 1: "?S (st\<lparr>ur_version := ur_version d\<rparr>, 0) 8 = ?S s1 24"
    using tlv_scan_image [where sw = "update_reply_switch room" and st = "(st\<lparr>ur_version := ur_version d\<rparr>, 0)" and g = "\<lambda>_. undefined" and
        f = "\<lambda>(vnid, mac). (st\<lparr>ur_version := ur_version d, ur_vnid := vnid, ur_mac := mac\<rparr>, 0)", OF i(1) d(1), of n] n'
    by (simp add: update_reply_switch_def s1_def)
  define rv where "rv = recv_vips ?ws (ur_vm_ip_addr st, 0, 0)"
  define s2 where "s2 = ((fst s1)\<lparr>ur_vm_ip_addr := fst rv, ur_num_of_vip := snd (snd rv)\<rparr>, fst (snd rv))"
  have 2: "?S s1 24 = ?S s2 ?k"
  proof (cases "?ws = []")
    case True
    then show ?thesis using z
      by (cases st) (simp add: s2_def s1_def rv_def recv_vips_def dst_update_reply_def vip_part_len_def)
  next
    case False
    with i(2) have im: "tlv_image (\<lambda>b. dps_get_ipv4_list_to_ipaddr b (of_nat MAX_VIP_ADDR)) IPV4_ADDR_LIST_TLV (4 + 4 * length ?ws)
       (\<lambda>st. length (fst st) = MAX_VIP_ADDR \<and> snd st = (0, 0)) (\<lambda>st st'. st' = recv_vips ?ws st) a"
      by (simp add: vip_part_def)
    have "24 < n" using False n' by (simp add: vip_part_len_def)
    then show ?thesis
      using tlv_scan_image [where sw = "update_reply_switch room" and st = s1 and
          g = "\<lambda>(ur, vip). (ur_vm_ip_addr ur, vip, ur_num_of_vip ur)" and
          f = "\<lambda>(arr, vip, num). ((fst s1)\<lparr>ur_vm_ip_addr := arr, ur_num_of_vip := num\<rparr>, vip)", OF im d(2), of n] z False
      by (auto simp: update_reply_switch_def s1_def s2_def rv_def dst_update_reply_def vip_part_len_def split_def)
  qed
  obtain l where 3: "got_tunnels (ur_tunnel_info d) l" "?S s2 ?k = Some ((((fst s2)\<lparr>ur_tunnel_info := l\<rparr>, snd s2), False), n)"
    using tlv_scan_tunnels [where sw = "update_reply_switch room" and st = s2 and g = "\<lambda>s. ur_tunnel_info (fst s)" and
        f = "\<lambda>tinfo. ((fst s2)\<lparr>ur_tunnel_info := tinfo\<rparr>, snd s2)", OF i(3) d(3) n'(1)] z ok
    by (auto simp: update_reply_switch_def s2_def s1_def dst_update_reply_def ok_update_reply_def split_def)
  have "dps_get_tlv_hdr (p @ r) = Some \<lparr>tlv_ver = 1, tlv_type = ENDPOINT_UPDATE_REPLY_TLV, tlv_len = of_nat (n - 4)\<rparr>"
      "ld32 4 (p @ r) = Some (of_bytes32 (be32 (ur_version d)))" "8 + unat (ucast (of_nat (n - 4) :: u16) - 4 :: u32) = n"
    using scan_end [of n] n' by (auto simp: p)
  then have "dps_get_endpoint_update_reply_tlv room (p @ r) st = Some ((fst s2)\<lparr>ur_tunnel_info := l\<rparr>, n)"
    using 1 2 3(2) by (simp add: dps_get_endpoint_update_reply_tlv_def del: of_nat_diff)
  moreover have "got_update_reply d ((fst s2)\<lparr>ur_tunnel_info := l\<rparr>)"
    using 3(1) vip_words_recv [of ?ws "ur_vm_ip_addr st" "(0, 0)"] ws z
    by (auto simp: got_update_reply_def s2_def s1_def rv_def vips_def dst_update_reply_def recv_vips_def vip_words_def)
  ultimately show ?thesis by blast
qed

lemma writes_update_reply:
  assumes ok: "ok_update_reply (fst room) d" and n: "n = update_reply_len d"
  shows "writes (dps_set_endpoint_update_reply_tlv d) n (tlv_image (dps_get_endpoint_update_reply_tlv room)
    ENDPOINT_UPDATE_REPLY_TLV n dst_update_reply (\<lambda>_. got_update_reply d))"
proof -
  have w: "wf_mac (ur_mac d)" "ok_tunnel_list (fst room) (ur_tunnel_info d)" "length (vip_words d) \<le> 16"
      "length (vip_words d) = unat (ur_num_of_vip d)"
    using ok by (auto simp: ok_update_reply_def vip_words_def vips_def)
  have l: "vip_part_len (vip_words d) = (if ur_num_of_vip d = 0 then 0 else 4 + 4 * unat (ur_num_of_vip d))"
    using w(4) length_greater_0_conv [of "vip_words d"] unat_gt_0 [of "ur_num_of_vip d"] by (auto simp: vip_part_len_def)
  have "writes (dps_set_endpoint_update_reply_tlv d) n (\<lambda>p. \<exists>e a t.
      p = hdrb 1 ENDPOINT_UPDATE_REPLY_TLV (of_nat (n - 4)) @ be32 (ur_version d) @ e @ a @ t \<and>
      euid_image (ur_vnid d) (ur_mac d) e \<and> vip_part (vip_words d) a \<and> tunnels_part room (ur_tunnel_info d) t)"
    unfolding set_update_reply_v4 [OF ok]
    by (rule writes_cong, (rule writes_tlv_block emits_bind emits_put writes_store writes_euid_image [OF w(1)] emits_vips [OF w(3)]
          writes_tunnels_part [OF w(2)])+)
       (use l in \<open>auto simp: n seqp_def update_reply_len_def add.assoc, blast+\<close>)
  then show ?thesis
    by (rule writes_mono, elim exE conjE)
       (rule tlv_imageI, assumption, assumption, rule get_update_reply_img [OF ok n], assumption+)
qed

interpretation update_reply_tlv: tlv_codec "\<lambda>(room, d). dps_set_endpoint_update_reply_tlv d"
  "\<lambda>(room, d). dps_get_endpoint_update_reply_tlv room" "\<lambda>(room, d). update_reply_len d" "\<lambda>_. ENDPOINT_UPDATE_REPLY_TLV"
  "\<lambda>(room, d). ok_update_reply (fst room) d" "\<lambda>_. dst_update_reply" "\<lambda>(room, d) _. got_update_reply d"
  by unfold_locales (clarsimp simp: writes_update_reply)

section \<open>Packed tunnel lists\<close>

definition pkd_len :: "dps_pkd_tunnel_list_t \<Rightarrow> nat" where
  "pkd_len d = (if pk_num_v4_tunnels d \<noteq> 0 then 4 * unat (pk_num_v4_tunnels d) else 16 * unat (pk_num_v6_tunnels d))"

definition vnid_tunnel_len :: "dps_pkd_tunnel_list_t \<Rightarrow> nat" where
  "vnid_tunnel_len d = 8 + (if pk_num_v4_tunnels d = 0 \<and> pk_num_v6_tunnels d = 0 then 0 else 4 + pkd_len d)"

text \<open>A list of tunnels of one family: the reader overwrites the IPv4 addresses with the IPv6 ones.\<close>

definition ok_vnid_tunnel :: "nat \<Rightarrow> dps_pkd_tunnel_list_t \<Rightarrow> bool" where
  "ok_vnid_tunnel cap d \<longleftrightarrow> (pk_num_v4_tunnels d = 0 \<or> pk_num_v6_tunnels d = 0) \<and> pkd_len d \<le> length (pk_tunnel_list d) \<and>
     pkd_len d \<le> cap \<and> vnid_tunnel_len d < 65536"

definition got_vnid_tunnel :: "dps_pkd_tunnel_list_t \<Rightarrow> dps_pkd_tunnel_list_t \<Rightarrow> bool" where
  "got_vnid_tunnel d st' \<longleftrightarrow> pk_vnid st' = pk_vnid d \<and> pk_num_v4_tunnels st' = pk_num_v4_tunnels d \<and>
     pk_num_v6_tunnels st' = pk_num_v6_tunnels d \<and> take (pkd_len d) (pk_tunnel_list st') = take (pkd_len d) (pk_tunnel_list d)"

definition pkd_part :: "nat \<Rightarrow> dps_pkd_tunnel_list_t \<Rightarrow> bytes \<Rightarrow> bool" where
  "pkd_part cap d t \<longleftrightarrow> (if pk_num_v4_tunnels d = 0 \<and> pk_num_v6_tunnels d = 0 then t = [] else
     tlv_image (if pk_num_v4_tunnels d \<noteq> 0 then dps_get_ipv4_list_tlv cap 0 else dps_get_ipv6_list_tlv cap 0)
       (if pk_num_v4_tunnels d \<noteq> 0 then IPV4_ADDR_LIST_TLV else IPV6_ADDR_LIST_TLV) (4 + pkd_len d) (\<lambda>st. 0 \<le> length st)
       (\<lambda>st st'. st' = take 0 st @ take (pkd_len d) (pk_tunnel_list d) @ drop (0 + pkd_len d) st) t)"

lemma unat_ucast16 [simp]: "unat (ucast (n :: u16) :: u32) = unat n"
  using unsigned_less [of n, where 'a = nat] by (simp add: unsigned_ucast_eq take_bit_nat_eq_self)

lemma writes_vnid_tunnel_part:
  assumes ok: "ok_vnid_tunnel cap d" and n: "n = vnid_tunnel_len d"
  shows "writes (dps_set_vnid_tunnel_list_tlv d) n (\<lambda>p. \<exists>t. p = hdrb 1 VNID_TUNNEL_LIST_TLV (of_nat (n - 4)) @ be32 (pk_vnid d) @ t \<and> pkd_part cap d t)"
proof -
  let ?four = "\<lambda>s. if pk_num_v4_tunnels d \<noteq> 0 then put (dps_set_ipv4_list_tlv (pk_tunnel_list d) (ucast (pk_num_v4_tunnels d))) s else Some s"
  let ?six = "\<lambda>s. if pk_num_v6_tunnels d \<noteq> 0 then put (dps_set_ipv6_list_tlv (drop (4 * unat (pk_num_v4_tunnels d)) (pk_tunnel_list d))
      (ucast (pk_num_v6_tunnels d))) s else Some s"
  have "emits (\<lambda>s. ?four s \<bind> ?six) (n - 8) (pkd_part cap d)"
  proof (cases "pk_num_v4_tunnels d = 0")
    case True
    then show ?thesis
      using emits_put [OF image_ipv6_list [of "ucast (pk_num_v6_tunnels d)" "pk_tunnel_list d" 0 cap]] emits_Some ok n
      by (auto simp: pkd_part_def [abs_def] ok_vnid_tunnel_def pkd_len_def vnid_tunnel_len_def cong: if_cong)
  next
    case False
    then show ?thesis
      using emits_put [OF image_ipv4_list [of "ucast (pk_num_v4_tunnels d)" "pk_tunnel_list d" 0 cap]] ok n
      by (auto simp: pkd_part_def [abs_def] ok_vnid_tunnel_def pkd_len_def vnid_tunnel_len_def cong: if_cong)
  qed
  note w = this
  show ?thesis
    unfolding dps_set_vnid_tunnel_list_tlv_def
    by (rule writes_cong, rule writes_tlv_block, rule emits_bind, (rule emits_put writes_store w)+)
       (use n in \<open>auto simp: seqp_def vnid_tunnel_len_def split: if_splits\<close>)
qed

lemma scan_pkd:
  fixes st :: dps_pkd_tunnel_list_t
  assumes ok: "ok_vnid_tunnel cap d" and t: "pkd_part cap d t" and d: "drop 8 buff = t @ r" and n: "n = vnid_tunnel_len d"
    and z: "pk_num_v4_tunnels st = 0" "pk_num_v6_tunnels st = 0" "pk_vnid st = pk_vnid d"
  shows "\<exists>st'. tlv_scan (n - 4) (vnid_tunnel_switch cap) buff st 8 = Some ((st', False), n) \<and> got_vnid_tunnel d st'"
proof (cases "pk_num_v4_tunnels d = 0 \<and> pk_num_v6_tunnels d = 0")
  case True
  then show ?thesis using z n by (auto simp: tlv_scan_done got_vnid_tunnel_def vnid_tunnel_len_def pkd_len_def)
next
  case False
  let ?m = "take (pkd_len d) (pk_tunnel_list d) @ drop (pkd_len d) (pk_tunnel_list st)"
  let ?st = "if pk_num_v4_tunnels d \<noteq> 0 then st\<lparr>pk_tunnel_list := ?m, pk_num_v4_tunnels := pk_num_v4_tunnels d\<rparr>
    else st\<lparr>pk_tunnel_list := ?m, pk_num_v6_tunnels := pk_num_v6_tunnels d\<rparr>"
  have i: "tlv_image (if pk_num_v4_tunnels d \<noteq> 0 then dps_get_ipv4_list_tlv cap 0 else dps_get_ipv6_list_tlv cap 0)
       (if pk_num_v4_tunnels d \<noteq> 0 then IPV4_ADDR_LIST_TLV else IPV6_ADDR_LIST_TLV) (4 + pkd_len d) (\<lambda>st. 0 \<le> length st)
       (\<lambda>st st'. st' = take 0 st @ take (pkd_len d) (pk_tunnel_list d) @ drop (0 + pkd_len d) st) t"
    using t False by (simp add: pkd_part_def)
  have pos: "8 < n - 4" "n = 12 + pkd_len d" "pkd_len d < 65536"
    using n False ok unat_gt_0 [of "pk_num_v4_tunnels d"] unat_gt_0 [of "pk_num_v6_tunnels d"]
    by (auto simp: vnid_tunnel_len_def pkd_len_def ok_vnid_tunnel_def)
  have "tlv_scan (n - 4) (vnid_tunnel_switch cap) buff st 8 = tlv_scan (n - 4) (vnid_tunnel_switch cap) buff ?st n"
    using tlv_scan_image [where sw = "vnid_tunnel_switch cap" and st = st and g = pk_tunnel_list and
        f = "\<lambda>m. if pk_num_v4_tunnels d \<noteq> 0 then st\<lparr>pk_tunnel_list := m, pk_num_v4_tunnels := pk_num_v4_tunnels d\<rparr>
          else st\<lparr>pk_tunnel_list := m, pk_num_v6_tunnels := pk_num_v6_tunnels d\<rparr>", OF i d pos(1)] pos
      div_num_mult(1) [of "pk_num_v4_tunnels d"] div_num_mult(2) [of "pk_num_v6_tunnels d"]
    by (cases "pk_num_v4_tunnels d = 0") (auto simp: vnid_tunnel_switch_def pkd_len_def)
  moreover have "got_vnid_tunnel d ?st"
    using False z ok by (auto simp: got_vnid_tunnel_def pkd_len_def ok_vnid_tunnel_def)
  ultimately show ?thesis by (simp add: tlv_scan_done)
qed

definition dst_vnid_tunnel :: "dps_pkd_tunnel_list_t \<Rightarrow> bool" where
  "dst_vnid_tunnel st \<longleftrightarrow> pk_num_v4_tunnels st = 0 \<and> pk_num_v6_tunnels st = 0"

lemma writes_vnid_tunnel:
  assumes ok: "ok_vnid_tunnel cap d" and n: "n = vnid_tunnel_len d"
  shows "writes (dps_set_vnid_tunnel_list_tlv d) n (tlv_image (dps_get_vnid_tunnel_list_tlv cap) VNID_TUNNEL_LIST_TLV n
    dst_vnid_tunnel (\<lambda>_. got_vnid_tunnel d))"
proof (rule writes_mono [OF writes_vnid_tunnel_part [OF ok n]], elim exE conjE)
  fix p t
  assume p: "length p = n" "p = hdrb 1 VNID_TUNNEL_LIST_TLV (of_nat (n - 4)) @ be32 (pk_vnid d) @ t" and t: "pkd_part cap d t"
  show "tlv_image (dps_get_vnid_tunnel_list_tlv cap) VNID_TUNNEL_LIST_TLV n dst_vnid_tunnel (\<lambda>_. got_vnid_tunnel d) p"
  proof (rule tlv_imageI [OF p])
    fix r and st :: dps_pkd_tunnel_list_t assume z: "dst_vnid_tunnel st"
    have n': "8 \<le> n" "n < 65536" using n ok by (auto simp: vnid_tunnel_len_def ok_vnid_tunnel_def)
    have fin: "4 + unat (ucast (of_nat (n - 4) :: u16) - 4 :: u32) = n - 4"
      using scan_end [OF n'] by linarith
    obtain st' where "tlv_scan (n - 4) (vnid_tunnel_switch cap) (p @ r) (st\<lparr>pk_vnid := pk_vnid d\<rparr>) 8 = Some ((st', False), n)"
        "got_vnid_tunnel d st'"
      using scan_pkd [OF ok t, of "p @ r" r n "st\<lparr>pk_vnid := pk_vnid d\<rparr>"] z n by (auto simp: p(2) dst_vnid_tunnel_def)
    then show "\<exists>st'. dps_get_vnid_tunnel_list_tlv cap (p @ r) st = Some (st', n) \<and> got_vnid_tunnel d st'"
      using fin p(2) by (simp add: dps_get_vnid_tunnel_list_tlv_def del: of_nat_diff)
  qed
qed

interpretation vnid_tunnel_tlv: tlv_codec "\<lambda>(cap, d). dps_set_vnid_tunnel_list_tlv d" "\<lambda>(cap, d). dps_get_vnid_tunnel_list_tlv cap"
  "\<lambda>(cap, d). vnid_tunnel_len d" "\<lambda>_. VNID_TUNNEL_LIST_TLV" "\<lambda>(cap, d). ok_vnid_tunnel cap d" "\<lambda>_. dst_vnid_tunnel"
  "\<lambda>(cap, d) _. got_vnid_tunnel d"
  by unfold_locales (clarsimp simp: writes_vnid_tunnel)

section \<open>The bulk policy list\<close>

text \<open>
  The list is not a TLV of its own: it fills the rest of the packet.  Permit
  rules come back as sent; of a deny rule only the place is kept.
\<close>

definition bulk_len :: "dps_bulk_vnid_policy_t \<Rightarrow> nat" where
  "bulk_len d = 4 + 8 * unat (bp_num_permit_rules d) + 8 * unat (bp_num_deny_rules d)"

definition wf_bulk :: "dps_bulk_vnid_policy_t \<Rightarrow> bool" where
  "wf_bulk d \<longleftrightarrow> length (bp_src_dst_vnid d) = unat (bp_num_permit_rules d) + unat (bp_num_deny_rules d)"

definition bulk_img :: "dps_bulk_vnid_policy_t \<Rightarrow> bytes" where
  "bulk_img d = be16 (bp_num_permit_rules d) @ be16 (bp_num_deny_rules d) @ concat (map rule_img (bp_src_dst_vnid d))"

lemma writes_bulk:
  assumes "wf_bulk d"
  shows "writes (dps_set_bulk_policy_xfer d) (bulk_len d) (\<lambda>p. p = bulk_img d)"
proof -
  let ?P = "take (unat (bp_num_permit_rules d)) (bp_src_dst_vnid d)" and ?D = "drop (unat (bp_num_permit_rules d)) (bp_src_dst_vnid d)"
  have s: "slots (unat (bp_num_permit_rules d)) (bp_src_dst_vnid d) = Some ?P" "slots (unat (bp_num_deny_rules d)) ?D = Some ?D"
      "length ?P = unat (bp_num_permit_rules d)" "length ?D = unat (bp_num_deny_rules d)"
    using assms by (auto simp: slots_def wf_bulk_def)
  have "concat (map rule_img ?P) @ concat (map rule_img ?D) = concat (map rule_img (bp_src_dst_vnid d))"
    by (simp flip: concat_append map_append)
  moreover have "writes (\<lambda>b. put (store16 (htons (bp_num_permit_rules d))) (b, 0) \<bind> (\<lambda>s. put (store16 (htons (bp_num_deny_rules d))) s
      \<bind> (\<lambda>s. set_rules ?P s \<bind> set_rules ?D))) (bulk_len d) (\<lambda>p. p = be16 (bp_num_permit_rules d) @ be16 (bp_num_deny_rules d) @
        concat (map rule_img ?P) @ concat (map rule_img ?D))"
    by (rule writes_cong, (rule emit_rules emits_rules)+) (use s in \<open>auto simp: seqp_def bulk_len_def\<close>)
  ultimately show ?thesis
    unfolding dps_set_bulk_policy_xfer_def [abs_def] by (simp add: s bulk_img_def)
qed

definition bulk_read :: "src_dst_vnid_t list \<Rightarrow> src_dst_vnid_t list \<times> nat \<Rightarrow> bool" where
  "bulk_read rs st \<longleftrightarrow> snd st = length rs \<and> length rs \<le> length (fst st) \<and> take (length rs) (fst st) = rs"

lemma bulk_read_put:
  assumes "bulk_read rs (acc, j)" and "length rs < cap"
  shows "\<exists>acc'. put_slot cap j x acc = Some acc' \<and> bulk_read (rs @ [x]) (acc', j + 1)"
  using assms by (auto simp: bulk_read_def put_slot_def)

text \<open>What is left of a deny rule: the upper half of its \<open>dvnid\<close> as \<open>svnid\<close>, the old \<open>dvnid\<close>.\<close>

definition garbled :: "u32 \<Rightarrow> src_dst_vnid_t \<Rightarrow> src_dst_vnid_t" where
  "garbled old r = \<lparr>sd_svnid = ntohl (ucast (of_bytes16 (take 2 (be32 (sd_dvnid r))))), sd_dvnid = old\<rparr>"

lemma rule_eta [simp]: "\<lparr>sd_svnid = sd_svnid r, sd_dvnid = sd_dvnid r\<rparr> = (r :: src_dst_vnid_t)"
  by simp

lemma get_bulk_permits:
  assumes "length rs \<le> fst room" and "bs = pre @ concat (map rule_img rs) @ rest"
  shows "\<exists>st'. for_each (\<lambda>_ ((rs, j), pos). do {
          sv \<leftarrow> ld32 pos bs;
          dv \<leftarrow> ld32 (pos + 4) bs;
          rs \<leftarrow> put_slot (fst room) j \<lparr>sd_svnid = ntohl sv, sd_dvnid = ntohl dv\<rparr> rs;
          Some ((rs, j + 1), pos + 8) }) [0..<length rs] ((acc, 0), length pre) = Some (st', length pre + 8 * length rs) \<and> bulk_read rs st'"
proof -
  let ?f = "\<lambda>((rs, j), pos). do {
          sv \<leftarrow> ld32 pos bs;
          dv \<leftarrow> ld32 (pos + 4) bs;
          rs \<leftarrow> put_slot (fst room) j \<lparr>sd_svnid = ntohl sv, sd_dvnid = ntohl dv\<rparr> rs;
          Some ((rs, j + 1), pos + 8) }"
  have "\<exists>st'. for_each (\<lambda>_. ?f) [0..<0 + length rs] ((acc, 0), length pre) =
      Some (st', length pre + length (concat (map rule_img rs))) \<and> bulk_read rs st'"
  proof (rule for_each_upt_items [where E = "\<lambda>x p. p = rule_img x" and bs = bs])
    fix st pre x p suf xs1 xs2
    assume a: "bs = pre @ p @ suf" "rs = xs1 @ x # xs2" "p = rule_img x" "bulk_read xs1 st"
    obtain acc j where st: "st = (acc, j)" by (cases st)
    show "\<exists>st'. ?f (st, length pre) = Some (st', length pre + length p) \<and> bulk_read (xs1 @ [x]) st'"
      unfolding a(1) st using a(2,3) assms(1) bulk_read_put [OF a(4) [unfolded st], of "fst room" x]
      by (auto simp: rule_img_def)
  qed (use assms in \<open>auto simp: list_all2_map_eq bulk_read_def\<close>)
  then show ?thesis by (simp add: case_prod_unfold)
qed

definition denies_read :: "src_dst_vnid_t list \<Rightarrow> src_dst_vnid_t list \<Rightarrow> src_dst_vnid_t list \<times> nat \<Rightarrow> bool" where
  "denies_read ps ds st \<longleftrightarrow> (\<exists>gs. list_all2 (\<lambda>r g. \<exists>old. g = garbled old r) ds gs \<and> bulk_read (ps @ gs) st)"

lemma get_bulk_denies:
  assumes "length ps + length rs \<le> fst room" and "bs = pre @ concat (map rule_img rs) @ rest" and "bulk_read ps st"
  shows "\<exists>st'. for_each (\<lambda>_ ((rs, j), pos). do {
          _ \<leftarrow> ld32 pos bs;
          sv \<leftarrow> ld16 (pos + 4) bs;
          rs \<leftarrow> put_slot (fst room) j ((old_slot (snd room) j rs)\<lparr>sd_svnid := ntohl (ucast sv)\<rparr>) rs;
          Some ((rs, j + 1), pos + 8) }) [0..<length rs] (st, length pre) = Some (st', length pre + 8 * length rs) \<and> denies_read ps rs st'"
proof -
  let ?f = "\<lambda>((rs, j), pos). do {
          _ \<leftarrow> ld32 pos bs;
          sv \<leftarrow> ld16 (pos + 4) bs;
          rs \<leftarrow> put_slot (fst room) j ((old_slot (snd room) j rs)\<lparr>sd_svnid := ntohl (ucast sv)\<rparr>) rs;
          Some ((rs, j + 1), pos + 8) }"
  have "\<exists>st'. for_each (\<lambda>_. ?f) [0..<0 + length rs] (st, length pre) =
      Some (st', length pre + length (concat (map rule_img rs))) \<and> denies_read ps rs st'"
  proof (rule for_each_upt_items [where E = "\<lambda>x p. p = rule_img x" and bs = bs])
    fix st pre x p suf xs1 xs2
    assume a: "bs = pre @ p @ suf" "rs = xs1 @ x # xs2" "p = rule_img x" "denies_read ps xs1 st"
    obtain acc j where st: "st = (acc, j)" by (cases st)
    obtain gs where gs: "list_all2 (\<lambda>r g. \<exists>old. g = garbled old r) xs1 gs" "bulk_read (ps @ gs) (acc, j)"
      using a(4) st by (auto simp: denies_read_def)
    let ?old = "old_slot (snd room) j acc"
    let ?x = "?old\<lparr>sd_svnid := ntohl (ucast (of_bytes16 (take 2 (be32 (sd_dvnid x)))))\<rparr>"
    have x: "?x = garbled (sd_dvnid ?old) x" by (simp add: garbled_def)
    have ld: "ld16 0 (be32 (sd_dvnid x) @ suf) = Some (of_bytes16 (take 2 (be32 (sd_dvnid x))))" "ld32 0 p = Some (of_bytes32 (be32 (sd_svnid x)))"
      using a(3) by (simp_all add: ld16_def peek_def rule_img_def)
    obtain acc' where "put_slot (fst room) j ?x acc = Some acc'" "bulk_read ((ps @ gs) @ [?x]) (acc', j + 1)"
      using bulk_read_put [OF gs(2), of "fst room" ?x] list_all2_lengthD [OF gs(1)] assms(1) a(2) by auto
    moreover from this(2) have "denies_read ps (xs1 @ [x]) (acc', j + 1)"
      unfolding denies_read_def x using gs(1) by (intro exI [of _ "gs @ [garbled (sd_dvnid ?old) x]"]) (auto intro: list_all2_appendI)
    ultimately show "\<exists>st'. ?f (st, length pre) = Some (st', length pre + length p) \<and> denies_read ps (xs1 @ [x]) st'"
      unfolding a(1) st using a(3) ld by (simp add: rule_img_def)
  qed (use assms in \<open>auto simp: list_all2_map_eq denies_read_def\<close>)
  then show ?thesis by (simp add: case_prod_unfold)
qed

lemma get_bulk_img:
  assumes wf: "wf_bulk d" and cap: "length (bp_src_dst_vnid d) \<le> fst room"
  shows "\<exists>st'. dps_get_bulk_policy_xfer room (bulk_img d @ r) st = Some (st', bulk_len d) \<and>
    bp_num_permit_rules st' = bp_num_permit_rules d \<and> bp_num_deny_rules st' = bp_num_deny_rules d \<and>
    denies_read (take (unat (bp_num_permit_rules d)) (bp_src_dst_vnid d)) (drop (unat (bp_num_permit_rules d)) (bp_src_dst_vnid d))
      (bp_src_dst_vnid st', length (bp_src_dst_vnid d))"
proof -
  define P D where R: "P = take (unat (bp_num_permit_rules d)) (bp_src_dst_vnid d)" "D = drop (unat (bp_num_permit_rules d)) (bp_src_dst_vnid d)"
  define h where "h = be16 (bp_num_permit_rules d) @ be16 (bp_num_deny_rules d)"
  let ?p = "concat (map rule_img P)" and ?d = "concat (map rule_img D)"
  have h: "length h = 4" by (simp add: h_def)
  have PD: "P @ D = bp_src_dst_vnid d" by (simp add: R)
  have len: "unat (bp_num_permit_rules d) = length P" "unat (bp_num_deny_rules d) = length D" "length P + length D \<le> fst room"
    using wf cap by (auto simp: wf_bulk_def R)
  have bs: "bulk_img d @ r = h @ ?p @ ?d @ r" "bulk_img d @ r = (h @ ?p) @ ?d @ r"
    by (simp_all add: bulk_img_def h_def flip: PD)
  obtain st1 where 1: "for_each (\<lambda>_ ((rs, j), pos). do {
          sv \<leftarrow> ld32 pos (bulk_img d @ r);
          dv \<leftarrow> ld32 (pos + 4) (bulk_img d @ r);
          rs \<leftarrow> put_slot (fst room) j \<lparr>sd_svnid = ntohl sv, sd_dvnid = ntohl dv\<rparr> rs;
          Some ((rs, j + 1), pos + 8) }) [0..<length P] ((bp_src_dst_vnid st, 0), 4) = Some (st1, 4 + 8 * length P)" "bulk_read P st1"
    using get_bulk_permits [OF _ bs(1), of room "bp_src_dst_vnid st"] len h by auto
  obtain st2 where 2: "for_each (\<lambda>_ ((rs, j), pos). do {
          _ \<leftarrow> ld32 pos (bulk_img d @ r);
          sv \<leftarrow> ld16 (pos + 4) (bulk_img d @ r);
          rs \<leftarrow> put_slot (fst room) j ((old_slot (snd room) j rs)\<lparr>sd_svnid := ntohl (ucast sv)\<rparr>) rs;
          Some ((rs, j + 1), pos + 8) }) [0..<length D] (st1, 4 + 8 * length P) = Some (st2, bulk_len d)" "denies_read P D st2"
    using get_bulk_denies [OF len(3) bs(2) 1(2)] len h by (auto simp: bulk_len_def)
  have "ld16 0 (bulk_img d @ r) = Some (of_bytes16 (be16 (bp_num_permit_rules d)))"
      "ld16 2 (bulk_img d @ r) = Some (of_bytes16 (be16 (bp_num_deny_rules d)))"
    by (simp_all add: bulk_img_def)
  moreover have "snd st2 = length (bp_src_dst_vnid d)"
    using 2(2) by (auto simp: denies_read_def bulk_read_def list_all2_lengthD simp flip: PD)
  ultimately show ?thesis
    using 1(1) 2 len unfolding R [symmetric]
    by (cases st1; cases st2) (simp add: dps_get_bulk_policy_xfer_def)
qed

end
