(* ===== verification/Dps_Packet.thy ===== *)
theory Dps_Packet
  imports Dps_Receive Dps_Tlv_Lists
begin

text \<open>
  Packets between two parties: the image of the packet header, what a send
  routine puts on the wire, and how a receive routine reads it back.  The
  predicate \<open>carries\<close> relates a part of a packet body to the switch
  that reads it; it composes the way the code composes the parts.
\<close>

section \<open>The packet header on the wire\<close>

definition pkt_hdrb :: "u8 \<Rightarrow> dps_client_hdr_t \<Rightarrow> nat \<Rightarrow> bytes" where
  "pkt_hdrb t h len = [DPS_PROTOCOL_VER, t] @ be16 (hdr_words (of_nat len)) @ be32 (ch_query_id h) @ be32 (ch_vnid h) @
     be16 (ucast (ch_sub_type h)) @ be16 (ucast (ch_resp_status h)) @ [ch_client_id h, ch_transaction_type h, 0, 0]"

lemma length_pkt_hdrb [simp]: "length (pkt_hdrb t h len) = 20"
  by (simp add: pkt_hdrb_def)

text \<open>The header a client or the server ends up sending.\<close>

definition sent_hdr :: "'w dps_link \<Rightarrow> dps_client_hdr_t \<Rightarrow> 'w \<Rightarrow> dps_client_hdr_t \<times> 'w" where
  "sent_hdr lk h w = (if lk_server lk then (h, w)
     else let (qid, w) = (if ch_query_id h = 0 then lk_query_id lk w else (ch_query_id h, w))
          in (h\<lparr>ch_query_id := qid, ch_transaction_type := DPS_TRANSACTION_NORMAL\<rparr>, w))"

lemma st8_here [simp]:
  "length xs = 1 \<Longrightarrow> st8 0 v (xs @ ys) = Some ([v] @ ys)"
  "st8 0 v (x # ys) = Some (v # ys)"
  "length xs \<le> n \<Longrightarrow> st8 n v (xs @ ys) = map_option ((@) xs) (st8 (n - length xs) v ys)"
  by (auto simp: st8_def poke_def Suc_diff_le)

lemma set_pkt_hdr_segments:
  assumes "map length [a, b, c, d, e, f, g, i, j] = [1, 1, 2, 4, 4, 2, 2, 1, 1]"
  shows "dps_set_pkt_hdr lk t h len (a @ b @ c @ d @ e @ f @ g @ i @ j @ bs) w =
    (case sent_hdr lk h w of (h', w') \<Rightarrow> Some (([1] @ [t] @ be16 (hdr_words (of_nat len)) @ be32 (ch_query_id h') @ be32 (ch_vnid h') @
       be16 (ucast (ch_sub_type h')) @ be16 (ucast (ch_resp_status h')) @ [ch_client_id h'] @ [ch_transaction_type h'] @ bs, 20), h', w'))"
  using assms unfolding dps_set_pkt_hdr_def sent_hdr_def
  by (cases "lk_query_id lk w") (simp del: append_Cons)

lemma set_pkt_hdr_image:
  "dps_set_pkt_hdr lk t h len (replicate 20 0 @ bs) w =
     Some ((pkt_hdrb t (fst (sent_hdr lk h w)) len @ bs, 20), sent_hdr lk h w)"
proof -
  have "replicate 20 0 @ bs = [0] @ [0] @ [0, 0] @ [0, 0, 0, 0] @ [0, 0, 0, 0] @ [0, 0] @ [0, 0] @ [0] @ [0] @ [0, 0 :: u8] @ bs"
    by (simp add: numeral_eq_Suc)
  then show ?thesis
    by (simp add: set_pkt_hdr_segments pkt_hdrb_def split_beta del: append_Cons)
qed

text \<open>The header the receiver reads: the status is cut to the 16 bits that are sent.\<close>

definition recv_hdr :: "u8 \<Rightarrow> dps_client_hdr_t \<Rightarrow> dps_client_hdr_t \<Rightarrow> dps_client_hdr_t" where
  "recv_hdr t h st = st\<lparr>ch_type := t, ch_vnid := ch_vnid h, ch_query_id := ch_query_id h,
     ch_resp_status := ucast (ucast (ch_resp_status h) :: u16), ch_sub_type := ch_sub_type h,
     ch_client_id := ch_client_id h, ch_transaction_type := ch_transaction_type h\<rparr>"

lemma hdr_words_len:
  assumes "20 \<le> len" and "len < 65536" and "4 dvd len"
  shows "push_bit 2 (ucast (hdr_words (of_nat len)) :: u32) - 20 + 4 = of_nat (len - 20)"
proof -
  have w: "unat (hdr_words (of_nat len)) = (len - 4) div 4"
    using assms by (auto simp: hdr_words_def word_le_nat_alt unat_of_nat unat_div unat_sub_if' take_bit_nat_eq_self unsigned_of_nat)
  moreover obtain k where "len = 4 * k" using assms(3) by auto
  ultimately show ?thesis using assms
    by (simp add: push_bit_eq_mult word_unat_eq_iff)
       (simp add: unat_word_ariths unsigned_of_nat unat_sub_if' take_bit_nat_eq_self)
qed

lemma ucast_u8_u16 [simp]: "ucast (ucast (x :: u8) :: u16) = x"
  by (rule bit_word_eqI) (auto simp: bit_simps)

lemma get_pkt_hdr_image:
  assumes "20 \<le> len" and "len < 65536" and "4 dvd len"
  shows "dps_get_pkt_hdr (pkt_hdrb t h len @ r) st = Some (recv_hdr t h st, of_nat (len - 20))"
  using hdr_words_len [OF assms] unfolding dps_get_pkt_hdr_def pkt_hdrb_def
  by (simp add: recv_hdr_def del: of_nat_diff)

lemma get_pkt_hdr_any: "\<exists>n. dps_get_pkt_hdr (pkt_hdrb t h len @ r) st = Some (recv_hdr t h st, n)"
  unfolding dps_get_pkt_hdr_def pkt_hdrb_def by (simp add: recv_hdr_def)

section \<open>Reading back what was sent\<close>

text \<open>
  \<open>reads sw D p R\<close>: a scan that stands at the bytes \<open>p\<close> in a
  state that satisfies \<open>D\<close> goes on behind them in one that
  satisfies \<open>R\<close>.
\<close>

definition reads :: "(dps_tlv_hdr_t \<Rightarrow> bytes \<Rightarrow> 'st \<Rightarrow> 'st branch option) \<Rightarrow> ('st \<Rightarrow> bool) \<Rightarrow> bytes \<Rightarrow> ('st \<Rightarrow> bool) \<Rightarrow> bool" where
  "reads sw D p R \<longleftrightarrow> (\<forall>pre r fin st. D st \<longrightarrow> length pre + length p \<le> fin \<longrightarrow> (\<exists>st'. R st' \<and>
     tlv_scan fin sw (pre @ p @ r) st (length pre) = tlv_scan fin sw (pre @ p @ r) st' (length pre + length p)))"

lemma readsD:
  assumes "reads sw D p R" and "D st" and "length pre + length p \<le> fin"
  obtains st' where "R st'"
    "tlv_scan fin sw (pre @ p @ r) st (length pre) = tlv_scan fin sw (pre @ p @ r) st' (length pre + length p)"
  using assms unfolding reads_def by blast

lemma reads_Nil: "reads sw D [] D"
  unfolding reads_def by auto

lemma reads_append:
  assumes "reads sw D p M" and "reads sw M q R"
  shows "reads sw D (p @ q) R"
  unfolding reads_def
proof (intro allI impI)
  fix pre r :: bytes and fin st assume D: "D st" and len: "length pre + length (p @ q) \<le> fin"
  obtain st1 where 1: "M st1" "tlv_scan fin sw (pre @ p @ q @ r) st (length pre) =
      tlv_scan fin sw (pre @ p @ q @ r) st1 (length pre + length p)"
    using len by (auto intro: readsD [OF assms(1) D, of pre fin "q @ r"])
  obtain st2 where 2: "R st2" "tlv_scan fin sw ((pre @ p) @ q @ r) st1 (length (pre @ p)) =
      tlv_scan fin sw ((pre @ p) @ q @ r) st2 (length (pre @ p) + length q)"
    using len by (auto intro: readsD [OF assms(2) 1(1), of "pre @ p" fin r])
  from 1 2 show "\<exists>st'. R st' \<and> tlv_scan fin sw (pre @ (p @ q) @ r) st (length pre) =
      tlv_scan fin sw (pre @ (p @ q) @ r) st' (length pre + length (p @ q))"
    by (auto simp: add.assoc)
qed

lemma scan_pkt_reads:
  assumes "reads sw D p R" and "D st" and "unat pkt_len = length p" and "length h = 20"
  shows "\<exists>st'. scan_pkt sw (h @ p @ r) pkt_len st = Some (st', False) \<and> R st'"
  by (rule readsD [OF assms(1,2), of h "20 + length p" r])
     (use assms(3,4) in \<open>auto simp: scan_pkt_def tlv_scan_done\<close>)

lemma reads_image:
  assumes im: "tlv_image rd c n dst got p" and "\<And>st. D st \<Longrightarrow> dst (g st)"
    and "\<And>st v b. D st \<Longrightarrow> sw \<lparr>tlv_ver = v, tlv_type = c, tlv_len = of_nat (n - 4)\<rparr> b st = took (f st) (rd b (g st))"
    and "\<And>st y. D st \<Longrightarrow> got (g st) y \<Longrightarrow> R (f st y)"
  shows "reads sw D p R"
  unfolding reads_def
proof (intro allI impI)
  fix pre r :: bytes and fin st assume D: "D st" and len: "length pre + length p \<le> fin"
  have n: "length p = n" using im by (simp add: tlv_image_def)
  obtain v q where "p = hdrb v c (of_nat (n - 4)) @ q" using im by (auto simp: tlv_image_def)
  then have "length p = 4 + length q" by simp
  then have pos: "length pre < fin" using len by linarith
  have d: "drop (length pre) (pre @ p @ r) = p @ r" by simp
  obtain y where "got (g st) y" "tlv_scan fin sw (pre @ p @ r) st (length pre) = tlv_scan fin sw (pre @ p @ r) (f st y) (length pre + n)"
    using tlv_scan_image [where sw = sw and st = st and g = g and f = "f st", OF im d pos assms(2) [OF D] assms(3) [OF D]]
    by auto
  with n show "\<exists>st'. R st' \<and> tlv_scan fin sw (pre @ p @ r) st (length pre) = tlv_scan fin sw (pre @ p @ r) st' (length pre + length p)"
    using assms(4) [OF D] by auto
qed

text \<open>
  \<open>carries c n sw D R\<close>: the routine \<open>c\<close> adds \<open>n\<close> bytes to
  the packet, and the switch \<open>sw\<close> reads them from any state that
  satisfies \<open>D\<close> into one that satisfies \<open>R\<close>.
\<close>

definition carries :: "(cursor \<Rightarrow> cursor option) \<Rightarrow> nat \<Rightarrow> (dps_tlv_hdr_t \<Rightarrow> bytes \<Rightarrow> 'st \<Rightarrow> 'st branch option) \<Rightarrow>
    ('st \<Rightarrow> bool) \<Rightarrow> ('st \<Rightarrow> bool) \<Rightarrow> bool" where
  "carries c n sw D R \<longleftrightarrow> emits c n (\<lambda>p. reads sw D p R)"

lemma carries_skip: "carries Some 0 sw D D"
  unfolding carries_def by (rule emits_mono [OF emits_Some]) (simp add: reads_Nil)

lemma carries_bind:
  assumes "carries c n sw D M" and "carries d m sw M R"
  shows "carries (\<lambda>s. c s \<bind> d) (n + m) sw D R"
  unfolding carries_def
  by (rule emits_mono [OF emits_bind [OF assms [unfolded carries_def]]]) (auto simp: seqp_def reads_append)

lemma carries_if:
  assumes "b \<Longrightarrow> carries c n sw D R" and "\<not> b \<Longrightarrow> carries d m sw D R"
  shows "carries (\<lambda>s. if b then c s else d s) (if b then n else m) sw D R"
  using assms by (cases b) auto

lemma carries_cong:
  assumes "carries c n sw D R" and "n = n'" and "\<And>st. D' st \<Longrightarrow> D st" and "\<And>st. R st \<Longrightarrow> R' st"
  shows "carries c n' sw D' R'"
  using assms(1) unfolding carries_def assms(2) [symmetric]
  by (rule emits_mono) (unfold reads_def, meson assms(3,4))

context tlv_codec
begin

lemma written:
  assumes "ok x" and "\<And>st. D st \<Longrightarrow> dst x (g st)"
    and "\<And>st v b. D st \<Longrightarrow> sw \<lparr>tlv_ver = v, tlv_type = code x, tlv_len = of_nat (sz x - 4)\<rparr> b st = took (f st) (rd x b (g st))"
    and "\<And>st y. D st \<Longrightarrow> got x (g st) y \<Longrightarrow> R (f st y)"
  shows "writes (wr x) (sz x) (\<lambda>p. reads sw D p R)"
proof (rule writes_mono [OF image [OF assms(1)]])
  fix p assume "tlv_image (rd x) (code x) (sz x) (dst x) (got x) p"
  from reads_image [where g = g and f = f, OF this] assms(2,3,4) show "reads sw D p R" by simp
qed

lemma carried:
  assumes "ok x" and "\<And>st. D st \<Longrightarrow> dst x (g st)"
    and "\<And>st v b. D st \<Longrightarrow> sw \<lparr>tlv_ver = v, tlv_type = code x, tlv_len = of_nat (sz x - 4)\<rparr> b st = took (f st) (rd x b (g st))"
    and "\<And>st y. D st \<Longrightarrow> got x (g st) y \<Longrightarrow> R (f st y)"
  shows "carries (put (wr x)) (sz x) sw D R"
  unfolding carries_def by (rule emits_put [OF written [where g = g and f = f]]) (use assms in auto)

end

lemma carries_put_bind:
  assumes "writes f n (\<lambda>p. reads sw D p M)" and "carries d m sw M R"
  shows "carries (put (\<lambda>b. put f (b, 0) \<bind> d)) (n + m) sw D R"
  unfolding carries_def
  by (rule emits_mono [OF emits_put [OF writes_bind0 [OF assms(1) assms(2) [unfolded carries_def]]]])
     (auto simp: seqp_def reads_append)

section \<open>What a send routine puts on the wire\<close>

text \<open>
  \<open>transmits rep lk f t req w n P\<close>: given a buffer, the send routine
  \<open>f\<close> transmits one packet, the header of type \<open>t\<close> with the
  right length followed by \<open>n\<close> bytes that satisfy \<open>P\<close>, to the
  address in the header of the message, frees the buffer and returns the
  status of the transmission as \<open>rep\<close> reports it: two routines
  report success whatever the transmission returned.
\<close>

definition transmits :: "(u32 \<Rightarrow> u32) \<Rightarrow> 'w dps_link \<Rightarrow> 'w sender \<Rightarrow> u8 \<Rightarrow> dps_client_data_t \<Rightarrow> 'w \<Rightarrow> nat \<Rightarrow> (bytes \<Rightarrow> bool) \<Rightarrow> bool" where
  "transmits rep lk f t req w n P \<longleftrightarrow> (\<exists>p. length p = n \<and> P p \<and>
     (let (h, w1) = sent_hdr lk (cd_hdr req) (snd (lk_malloc lk w));
          (status, w2) = lk_xmit lk (pkt_hdrb t h (20 + n) @ p) (ch_reply_addr h) (cd_context req) w1
      in f req w = Some (rep status, h, lk_free lk w2)))"

definition has_buffer :: "'w dps_link \<Rightarrow> 'w \<Rightarrow> bool" where
  "has_buffer lk w \<longleftrightarrow> (\<exists>mem. fst (lk_malloc lk w) = Some mem \<and> length mem = DPS_MAX_BUFF_SZ)"

lemma alloc_buffer:
  assumes "has_buffer lk w"
  shows "\<exists>rest. dps_alloc_buff lk w = (Some (replicate 20 0 @ rest), snd (lk_malloc lk w)) \<and> length rest = DPS_MAX_BUFF_SZ - 20"
proof -
  obtain mem where "fst (lk_malloc lk w) = Some mem" "length mem = DPS_MAX_BUFF_SZ"
    using assms by (auto simp: has_buffer_def)
  moreover have "replicate 552 (0 :: u8) = replicate 20 0 @ replicate 532 0"
    by (simp flip: replicate_add)
  ultimately show ?thesis
    by (cases "lk_malloc lk w") (simp add: dps_alloc_buff_def)
qed

lemma transmits_header_first:
  assumes "has_buffer lk w" and "emits body n P" and "20 + n \<le> DPS_MAX_BUFF_SZ" and "len = 20 + n"
  shows "transmits (\<lambda>s. s) lk (send_header_first lk e t len body) t req w n P"
proof -
  obtain rest where a: "dps_alloc_buff lk w = (Some (replicate 20 0 @ rest), snd (lk_malloc lk w))" "length rest = DPS_MAX_BUFF_SZ - 20"
    using alloc_buffer [OF assms(1)] by blast
  obtain h w1 where h: "sent_hdr lk (cd_hdr req) (snd (lk_malloc lk w)) = (h, w1)" by fastforce
  obtain p where p: "length p = n" "P p" "body (pkt_hdrb t h len @ rest, 20) = Some (pkt_hdrb t h len @ p @ drop n rest, 20 + n)"
    using emitsD [OF assms(2), of rest "pkt_hdrb t h len"] a(2) assms(3) by auto
  then have "slots (20 + n) (pkt_hdrb t h len @ p @ drop n rest) = Some (pkt_hdrb t h len @ p)"
    using a(2) assms(3) by (simp add: slots_def)
  then show ?thesis
    unfolding transmits_def using p assms(4)
    by (intro exI [of _ p]) (simp add: send_header_first_def a set_pkt_hdr_image h dps_protocol_xmit_def split_beta)
qed

lemma transmits_header_last:
  assumes "has_buffer lk w" and "emits body n P" and "20 + n \<le> DPS_MAX_BUFF_SZ"
  shows "transmits (\<lambda>s. s) lk (send_header_last lk t body) t req w n P"
proof -
  obtain rest where a: "dps_alloc_buff lk w = (Some (replicate 20 0 @ rest), snd (lk_malloc lk w))" "length rest = DPS_MAX_BUFF_SZ - 20"
    using alloc_buffer [OF assms(1)] by blast
  obtain h w1 where h: "sent_hdr lk (cd_hdr req) (snd (lk_malloc lk w)) = (h, w1)" by fastforce
  obtain p where p: "length p = n" "P p" "body (replicate 20 0 @ rest, 20) = Some (replicate 20 0 @ p @ drop n rest, 20 + n)"
    using emitsD [OF assms(2), of rest "replicate 20 0"] a(2) assms(3) by auto
  then have "slots (20 + n) (pkt_hdrb t h (20 + n) @ p @ drop n rest) = Some (pkt_hdrb t h (20 + n) @ p)"
    using a(2) assms(3) by (simp add: slots_def)
  then show ?thesis
    unfolding transmits_def using p
    by (intro exI [of _ p]) (simp add: send_header_last_def a set_pkt_hdr_image h dps_protocol_xmit_def split_beta)
qed

text \<open>A routine leaves one image, so the properties of the image can be collected.\<close>

lemma emits_all:
  assumes "\<And>x. emits c n (P x)"
  shows "emits c n (\<lambda>p. \<forall>x. P x p)"
  unfolding emits_def
proof (intro allI impI)
  fix q bs :: bytes assume len: "n \<le> length bs"
  obtain p where p: "length p = n" "c (q @ bs, length q) = Some (q @ p @ drop n bs, length q + n)"
    using emitsD [OF assms len] by blast
  have "P x p" for x
    using emitsD [OF assms [of x] len, of q] p by auto
  with p show "\<exists>p. length p = n \<and> (\<forall>x. P x p) \<and> c (q @ bs, length q) = Some (q @ p @ drop n bs, length q + n)"
    by blast
qed

lemma transmits_mono:
  "transmits rep lk f t req w n P \<Longrightarrow> (\<And>p. length p = n \<Longrightarrow> P p \<Longrightarrow> Q p) \<Longrightarrow> transmits rep lk f t req w n Q"
  unfolding transmits_def by blast

section \<open>From the sender to the receiver\<close>

text \<open>
  \<open>sends rep lk req tbl w pkt\<close>: \<open>dps_protocol_client_send\<close> transmits
  \<open>pkt\<close> for the message, counts it, and gives its buffer back.
\<close>

definition may_send :: "'w dps_link \<Rightarrow> 'w \<Rightarrow> bool" where
  "may_send lk w \<longleftrightarrow> \<not> lk_server lk \<or> lk_active lk w"

definition sends :: "(u32 \<Rightarrow> u32) \<Rightarrow> 'w dps_link \<Rightarrow> dps_client_data_t \<Rightarrow> dps_stats \<Rightarrow> 'w \<Rightarrow> bytes \<Rightarrow> bool" where
  "sends rep lk req tbl w pkt \<longleftrightarrow>
     (let (h, w1) = sent_hdr lk (cd_hdr req) (snd (lk_malloc lk w));
          (status, w2) = lk_xmit lk pkt (ch_reply_addr h) (cd_context req) w1;
          i = unat (ch_type (cd_hdr req))
      in dps_protocol_client_send lk req (tbl, w) =
        Some (rep status, h, (tbl[i := count_sent (rep status) (tbl ! i)], lk_free lk w2)))"

text \<open>The header with which the receiver hands the message on.\<close>

definition delivered_hdr :: "'w dps_link \<Rightarrow> dps_client_data_t \<Rightarrow> 'w \<Rightarrow> ip_addr_t \<Rightarrow> dps_client_hdr_t" where
  "delivered_hdr lk req w addr =
     (recv_hdr (ch_type (cd_hdr req)) (fst (sent_hdr lk (cd_hdr req) (snd (lk_malloc lk w)))) zero_hdr)\<lparr>ch_reply_addr := addr\<rparr>"

text \<open>
  What a receive routine does with a message it has parsed: hand it on
  (\<open>deliver\<close>), after stopping the retransmission of the request it
  answers (\<open>deliver_answer\<close>), or hand it on and acknowledge it
  (\<open>deliver_acked\<close>).
\<close>

definition deliver :: "'w dps_link \<Rightarrow> dps_client_hdr_t \<Rightarrow> dps_client_body \<Rightarrow> 'w dps_state \<Rightarrow> (u32 \<times> 'w dps_state) option" where
  "deliver lk h b st = Some (DPS_SUCCESS, (fst st, lk_free lk (lk_deliver lk \<lparr>cd_context = 0, cd_hdr = h, cd_body = b\<rparr> (snd st))))"

definition deliver_answer :: "bool \<Rightarrow> 'w dps_link \<Rightarrow> dps_client_hdr_t \<Rightarrow> dps_client_body \<Rightarrow> 'w dps_state \<Rightarrow> (u32 \<times> 'w dps_state) option" where
  "deliver_answer keep lk h b st = (case dps_stop_retransmit_timer lk (ch_query_id h) (snd st) of ((ret, context), w) \<Rightarrow>
     Some (if keep then ret else DPS_SUCCESS, (fst st, lk_free lk (lk_deliver lk \<lparr>cd_context = context, cd_hdr = h, cd_body = b\<rparr> w))))"

definition deliver_acked :: "'w dps_link \<Rightarrow> dps_client_hdr_t \<Rightarrow> dps_client_body \<Rightarrow> 'w dps_state \<Rightarrow> (u32 \<times> 'w dps_state) option" where
  "deliver_acked lk h b st = do {
     (tbl, w) \<leftarrow> dps_client_create_general_ack lk h (fst st, lk_deliver lk \<lparr>cd_context = 0, cd_hdr = h, cd_body = b\<rparr> (snd st));
     Some (DPS_SUCCESS, (tbl, lk_free lk w)) }"

definition count_rcvd :: "u8 \<Rightarrow> (u32 \<times> 'w dps_state) option \<Rightarrow> (u32 \<times> 'w dps_state) option" where
  "count_rcvd t r = do {
     (ret, (tbl, w)) \<leftarrow> r;
     tbl \<leftarrow> bump (unat t) (count_recv ret) tbl;
     Some (ret, (tbl, w)) }"

text \<open>The contract between the send and the receive routine of a message type.\<close>

locale dps_message =
  fixes t :: u8
    and snd_fn :: "'w dps_link \<Rightarrow> 'w sender"
    and rcv_fn :: "'v dps_link \<Rightarrow> 'v receiver"
    and body :: "'d \<Rightarrow> dps_client_body"
    and ok :: "dps_client_hdr_t \<Rightarrow> 'd \<Rightarrow> bool"
    and len :: "'d \<Rightarrow> nat"
    and image :: "'d \<Rightarrow> bytes \<Rightarrow> bool"
    and got :: "'d \<Rightarrow> ip_addr_t \<Rightarrow> 'd \<Rightarrow> bool"
    and rep :: "u32 \<Rightarrow> u32"
    and done_with :: "'v dps_link \<Rightarrow> dps_client_hdr_t \<Rightarrow> dps_client_body \<Rightarrow> 'v dps_state \<Rightarrow> (u32 \<times> 'v dps_state) option"
  assumes valid: "valid_type t"
    and in_send_table: "snd (dps_send_func_tbl lk ! unat t) = Some (snd_fn lk)"
    and in_recv_table: "snd (dps_recv_func_tbl lk' ! unat t) = Some (rcv_fn lk')"
    and wire: "ok (cd_hdr req) d \<Longrightarrow> cd_body req = body d \<Longrightarrow> ch_type (cd_hdr req) = t \<Longrightarrow> has_buffer lk w \<Longrightarrow>
      transmits rep lk (snd_fn lk) t req w (len d) (image d)"
    and parse: "ok h0 d \<Longrightarrow> image d p \<Longrightarrow> length p = len d \<Longrightarrow> has_buffer lk' w' \<Longrightarrow>
      \<exists>d'. got d addr d' \<and> rcv_fn lk' (pkt_hdrb t h (20 + len d) @ p @ junk) addr (tbl', w') =
        done_with lk' ((recv_hdr t h zero_hdr)\<lparr>ch_reply_addr := addr\<rparr>) (body d') (tbl', snd (lk_malloc lk' w'))"
begin

text \<open>The packet that is sent, and what any node does with it.\<close>

lemma message_sent:
  fixes lk :: "'w dps_link" and w :: 'w
  assumes ok: "ok (cd_hdr req) d" and req: "cd_body req = body d" "ch_type (cd_hdr req) = t"
    and lk: "has_buffer lk w" "may_send lk w" and tbl: "length tbl = unat DPS_MAX_MSG_TYPE"
  shows "\<exists>p. length p = len d \<and> image d p \<and>
    sends rep lk req tbl w (pkt_hdrb t (fst (sent_hdr lk (cd_hdr req) (snd (lk_malloc lk w)))) (20 + len d) @ p)"
proof -
  obtain h w1 where h: "sent_hdr lk (cd_hdr req) (snd (lk_malloc lk w)) = (h, w1)" by fastforce
  obtain p where p: "length p = len d" "image d p" and f: "snd_fn lk req w = (case lk_xmit lk (pkt_hdrb t h (20 + len d) @ p)
      (ch_reply_addr h) (cd_context req) w1 of (status, w2) \<Rightarrow> Some (rep status, h, lk_free lk w2))"
    using wire [OF ok req lk(1)] by (auto simp: transmits_def h split_beta)
  have "unat t < length tbl"
    using valid tbl by (auto simp: valid_type_def word_le_nat_alt word_less_nat_alt)
  then have "sends rep lk req tbl w (pkt_hdrb t h (20 + len d) @ p)"
    using f valid lk(2) req in_send_table
    by (auto simp: sends_def h dps_protocol_client_send_def may_send_def bump_def split_beta)
  then show ?thesis using p h by auto
qed

lemma message_received:
  fixes lk' :: "'v dps_link" and w' :: 'v
  assumes "ok h0 d" and "image d p" and "length p = len d" and "has_buffer lk' w'"
  shows "\<exists>d'. got d addr d' \<and> dps_process_rcvd_pkt lk' ((pkt_hdrb t h (20 + len d) @ p) @ junk) addr (tbl', w') =
    count_rcvd t (done_with lk' ((recv_hdr t h zero_hdr)\<lparr>ch_reply_addr := addr\<rparr>) (body d') (tbl', snd (lk_malloc lk' w')))"
proof -
  have ty: "ld8 1 (pkt_hdrb t h (20 + len d) @ r) = Some t" for r
    by (simp add: pkt_hdrb_def ld8_def)
  show ?thesis
    using parse [OF assms, of addr h junk tbl'] valid in_recv_table ty
    by (auto simp: dps_process_rcvd_pkt_def count_rcvd_def)
qed

lemma end_to_end:
  fixes lk :: "'w dps_link" and w :: 'w
  assumes ok: "ok (cd_hdr req) d" and req: "cd_body req = body d" "ch_type (cd_hdr req) = t"
    and lk: "has_buffer lk w" "may_send lk w" and tbl: "length tbl = unat DPS_MAX_MSG_TYPE"
  shows "\<exists>pkt. sends rep lk req tbl w pkt \<and> (\<forall>(lk' :: 'v dps_link) w' tbl' addr junk. has_buffer lk' w' \<longrightarrow>
    (\<exists>d'. got d addr d' \<and> dps_process_rcvd_pkt lk' (pkt @ junk) addr (tbl', w') =
       count_rcvd t (done_with lk' (delivered_hdr lk req w addr) (body d') (tbl', snd (lk_malloc lk' w')))))"
proof -
  obtain p where p: "length p = len d" "image d p"
    "sends rep lk req tbl w (pkt_hdrb t (fst (sent_hdr lk (cd_hdr req) (snd (lk_malloc lk w)))) (20 + len d) @ p)"
    using message_sent [OF assms] by blast
  then show ?thesis
    using message_received [OF ok p(2,1)] unfolding delivered_hdr_def req(2) by blast
qed

end

end
