(* ===== verification/Dps_Messages.thy ===== *)
theory Dps_Messages
  imports Dps_Packet
begin

text \<open>
  The messages about endpoints and policies: for each, the image its send
  routine puts on the wire and what its receive routine makes of it, as
  interpretations of the contract \<open>dps_message\<close>.
\<close>

section \<open>Common parts\<close>

lemma packet_hdr:
  assumes "4 dvd n" and "20 + n \<le> DPS_MAX_BUFF_SZ"
  shows "dps_get_pkt_hdr (pkt_hdrb t h (20 + n) @ r) st = Some (recv_hdr t h st, of_nat n)" "unat (of_nat n :: u32) = n"
  using get_pkt_hdr_image [of "20 + n"] assms by (simp_all add: unat_of_nat unsigned_of_nat take_bit_nat_eq_self)

text \<open>A receive routine that is given a buffer.\<close>

lemma with_buffer:
  assumes "has_buffer lk w"
  shows "\<exists>mem. length mem = DPS_MAX_BUFF_SZ \<and> (\<forall>f. with_client_buff lk f (tbl, w) = do {
    (ret, (tbl, w)) \<leftarrow> f mem (tbl, snd (lk_malloc lk w));
    Some (ret, (tbl, lk_free lk w)) })"
proof -
  obtain mem w1 where "lk_malloc lk w = (Some mem, w1)" "length mem = DPS_MAX_BUFF_SZ"
    using assms by (cases "lk_malloc lk w") (auto simp: has_buffer_def)
  then show ?thesis
    by (intro exI [of _ "replicate SIZEOF_CLIENT_DATA 0 @ drop SIZEOF_CLIENT_DATA mem"])
       (simp add: with_client_buff_def dps_alloc_buff_def)
qed

lemma scan_with_buffer:
  assumes "has_buffer lk w"
    and "\<And>mem st. (\<And>f. with_client_buff lk f (tbl, w) = do {
        (ret, (tbl, w)) \<leftarrow> f mem (tbl, snd (lk_malloc lk w));
        Some (ret, (tbl, lk_free lk w)) }) \<Longrightarrow> scan_pkt (sw mem) buf n s0 = Some (st, False) \<Longrightarrow> P st"
  shows "\<exists>mem. \<forall>st. scan_pkt (sw mem) buf n s0 = Some (st, False) \<longrightarrow> P st"
  using with_buffer [OF assms(1), of tbl] assms(2) by metis

text \<open>The service location of the client is sent when its address has a known family.\<close>

definition got_client :: "ip_addr_t \<Rightarrow> ip_addr_t \<Rightarrow> ip_addr_t \<Rightarrow> bool" where
  "got_client a st st' \<longleftrightarrow> (if ia_family a = AF_INET \<or> ia_family a = AF_INET6 then got_svcloc a st st' else st' = st)"

lemma carries_client_addr:
  assumes wf: "wf_ip a"
    and sw: "\<And>st v n b. D st \<Longrightarrow> sw \<lparr>tlv_ver = v, tlv_type = SERVICE_LOC_TLV, tlv_len = n\<rparr> b st = took (f st) (dps_get_svcloc_tlv b (g st))"
    and same: "\<And>st. f st (g st) = st" and R: "\<And>st y. D st \<Longrightarrow> got_client a (g st) y \<Longrightarrow> R (f st y)"
  shows "carries (put_client_addr a) (client_addr_len a) sw D R"
proof (cases "ia_family a = AF_INET \<or> ia_family a = AF_INET6")
  case True
  then have "carries (put (dps_set_svcloc_tlv a)) (svcloc_len a) sw D R"
    using assms by (intro svcloc_tlv.carried [where g = g and f = f]) (auto simp: ok_ip_def got_client_def)
  moreover have "put_client_addr a = put (dps_set_svcloc_tlv a)" "client_addr_len a = svcloc_len a"
    using True by (auto simp: fun_eq_iff put_client_addr_def client_addr_len_def svcloc_len_def)
  ultimately show ?thesis by simp
next
  case False
  then have "put_client_addr a = Some" "client_addr_len a = 0"
    by (auto simp: fun_eq_iff put_client_addr_def client_addr_len_def)
  moreover have "R st" if "D st" for st
    using R [OF that, of "g st"] False same [of st] by (simp add: got_client_def)
  ultimately show ?thesis using carries_cong [OF carries_skip, of 0 D D R] by simp
qed

text \<open>From the parts of a body to the whole packet.\<close>

lemma transmits_first_carried:
  assumes "\<And>mem addr. carries body n (sw mem) (D addr) (R addr)" and "has_buffer lk w" and "20 + n \<le> DPS_MAX_BUFF_SZ"
    and "f req w = send_header_first lk e t (20 + n) body req w"
  shows "transmits (\<lambda>s. s) lk f t req w n (\<lambda>p. \<forall>mem addr. reads (sw mem) (D addr) p (R addr))"
  using transmits_header_first [OF assms(2) emits_all [OF emits_all [OF assms(1) [unfolded carries_def]]] assms(3) refl, of e t req]
    assms(4) by (simp add: transmits_def)

lemma transmits_last_carried:
  assumes "\<And>mem addr. carries body n (sw mem) (D addr) (R addr)" and "has_buffer lk w" and "20 + n \<le> DPS_MAX_BUFF_SZ"
    and "f req w = send_header_last lk t body req w"
  shows "transmits (\<lambda>s. s) lk f t req w n (\<lambda>p. \<forall>mem addr. reads (sw mem) (D addr) p (R addr))"
  using transmits_header_last [OF assms(2) emits_all [OF emits_all [OF assms(1) [unfolded carries_def]]] assms(3), of t req]
    assms(4) by (simp add: transmits_def)

lemma valid_type_iff: "valid_type t \<longleftrightarrow> 1 \<le> unat t \<and> unat t < 42"
  by (auto simp: valid_type_def word_le_nat_alt word_less_nat_alt)

lemmas table_rows = valid_type_iff dps_send_func_tbl_def dps_recv_func_tbl_def

lemmas deliveries = deliver_def deliver_answer_def deliver_acked_def dps_send_to_protocol_client_def stop_timer_def
  Let_def case_prod_unfold Option.bind_assoc

text \<open>
  A message whose body is a sequence of TLVs read by one scan.  The switch
  may depend on the buffer the message is read into, the initial state on the
  address of the sender.
\<close>

locale scanned_message =
  fixes t :: u8
    and snd_fn :: "'w dps_link \<Rightarrow> 'w sender"
    and rcv_fn :: "'v dps_link \<Rightarrow> 'v receiver"
    and body :: "'d \<Rightarrow> dps_client_body"
    and ok :: "dps_client_hdr_t \<Rightarrow> 'd \<Rightarrow> bool"
    and len :: "'d \<Rightarrow> nat"
    and sw :: "bytes \<Rightarrow> dps_tlv_hdr_t \<Rightarrow> bytes \<Rightarrow> 's \<Rightarrow> 's branch option"
    and init :: "ip_addr_t \<Rightarrow> 's"
    and result :: "'s \<Rightarrow> 'd"
    and got :: "'d \<Rightarrow> ip_addr_t \<Rightarrow> 'd \<Rightarrow> bool"
    and rep :: "u32 \<Rightarrow> u32"
    and done_with :: "'v dps_link \<Rightarrow> dps_client_hdr_t \<Rightarrow> dps_client_body \<Rightarrow> 'v dps_state \<Rightarrow> (u32 \<times> 'v dps_state) option"
  assumes valid_code: "valid_type t"
    and send_row: "snd (dps_send_func_tbl lk ! unat t) = Some (snd_fn lk)"
    and recv_row: "snd (dps_recv_func_tbl lk' ! unat t) = Some (rcv_fn lk')"
    and size_ok: "ok h d \<Longrightarrow> 4 dvd len d \<and> 20 + len d \<le> DPS_MAX_BUFF_SZ"
    and wire_image: "ok (cd_hdr req) d \<Longrightarrow> cd_body req = body d \<Longrightarrow> ch_type (cd_hdr req) = t \<Longrightarrow> has_buffer lk w \<Longrightarrow>
      transmits rep lk (snd_fn lk) t req w (len d) (\<lambda>p. \<forall>mem addr. reads (sw mem) (\<lambda>st. st = init addr) p (\<lambda>st. got d addr (result st)))"
    and scan: "has_buffer lk' w' \<Longrightarrow> dps_get_pkt_hdr buf zero_hdr = Some (h, n) \<Longrightarrow> ch_type h = t \<Longrightarrow>
      \<exists>mem. \<forall>st. scan_pkt (sw mem) buf n (init addr) = Some (st, False) \<longrightarrow> rcv_fn lk' buf addr (tbl', w') =
        done_with lk' (h\<lparr>ch_reply_addr := addr\<rparr>) (body (result st)) (tbl', snd (lk_malloc lk' w'))"

sublocale scanned_message \<subseteq> dps_message t snd_fn rcv_fn body ok len
  "\<lambda>d p. \<forall>mem addr. reads (sw mem) (\<lambda>st. st = init addr) p (\<lambda>st. got d addr (result st))" got rep done_with
proof (unfold_locales, goal_cases)
  case (5 h0 d p lk w addr h junk tbl)
  let ?pkt = "pkt_hdrb t h (20 + len d) @ p @ junk"
  note hdr = packet_hdr [OF size_ok [OF 5(1), THEN conjunct1] size_ok [OF 5(1), THEN conjunct2]]
  obtain mem where mem: "\<forall>st. scan_pkt (sw mem) ?pkt (of_nat (len d)) (init addr) = Some (st, False) \<longrightarrow> rcv_fn lk ?pkt addr (tbl, w) =
      done_with lk ((recv_hdr t h zero_hdr)\<lparr>ch_reply_addr := addr\<rparr>) (body (result st)) (tbl, snd (lk_malloc lk w))"
    using scan [OF 5(4) hdr(1)] by (fastforce simp: recv_hdr_def)
  obtain st where "scan_pkt (sw mem) ?pkt (of_nat (len d)) (init addr) = Some (st, False)" "got d addr (result st)"
    using scan_pkt_reads [OF 5(2) [rule_format, of mem addr] refl, of "of_nat (len d)" "pkt_hdrb t h (20 + len d)" junk] 5(3) hdr(2)
    by auto
  with mem show ?case by blast
qed (use valid_code send_row recv_row wire_image in auto)

context scanned_message
begin

lemmas exchange = end_to_end

end

section \<open>Endpoint location requests\<close>

definition loc_req_size :: "dps_endpoint_loc_req_t \<Rightarrow> nat" where
  "loc_req_size d = 16 + (if ia_family (lq_vm_ip_addr d) = AF_INET then 8 else if ia_family (lq_vm_ip_addr d) = AF_INET6 then 20 else 0) +
     client_addr_len (lq_dps_client_addr d)"

definition ok_loc_req :: "dps_endpoint_loc_req_t \<Rightarrow> bool" where
  "ok_loc_req d \<longleftrightarrow> wf_mac (lq_mac d) \<and> wf_ip (lq_vm_ip_addr d) \<and> wf_ip (lq_dps_client_addr d)"

definition got_loc_req :: "dps_endpoint_loc_req_t \<Rightarrow> ip_addr_t \<Rightarrow> dps_endpoint_loc_req_t \<Rightarrow> bool" where
  "got_loc_req d addr d' \<longleftrightarrow> lq_vnid d' = lq_vnid d \<and> lq_mac d' = lq_mac d \<and>
     lq_vm_ip_addr d' = (if ia_family (lq_vm_ip_addr d) = AF_INET \<or> ia_family (lq_vm_ip_addr d) = AF_INET6
       then recv_ip (lq_vm_ip_addr d) zero_ip_addr else zero_ip_addr) \<and>
     got_client (lq_dps_client_addr d) addr (lq_dps_client_addr d')"

lemma carries_loc_req:
  assumes ok: "ok_loc_req d"
  shows "carries (loc_req_body d) (loc_req_size d) loc_req_switch (\<lambda>st. st = zero_loc_req\<lparr>lq_dps_client_addr := addr\<rparr>) (got_loc_req d addr)"
proof -
  let ?a = "lq_vm_ip_addr d"
  let ?ip = "\<lambda>s. if ia_family ?a = AF_INET then put (dps_set_ip4_tlv (ia_ip4 ?a)) s
     else if ia_family ?a = AF_INET6 then put (dps_set_ip6_tlv (ia_ip6 ?a)) s else Some s"
  let ?s1 = "zero_loc_req\<lparr>lq_vnid := lq_vnid d, lq_mac := lq_mac d, lq_dps_client_addr := addr\<rparr>"
  let ?s2 = "?s1\<lparr>lq_vm_ip_addr := if ia_family ?a = AF_INET \<or> ia_family ?a = AF_INET6 then recv_ip ?a zero_ip_addr else zero_ip_addr\<rparr>"
  have 1: "carries (put (dps_set_euid_tlv (lq_vnid d) (lq_mac d))) 16 loc_req_switch
      (\<lambda>st. st = zero_loc_req\<lparr>lq_dps_client_addr := addr\<rparr>) (\<lambda>st. st = ?s1)"
    using euid_tlv.carried [where x = "(lq_vnid d, lq_mac d)" and f = "\<lambda>st (vnid, mac). st\<lparr>lq_vnid := vnid, lq_mac := mac\<rparr>"
        and sw = loc_req_switch and R = "\<lambda>st. st = ?s1" and D = "\<lambda>st. st = zero_loc_req\<lparr>lq_dps_client_addr := addr\<rparr>"] ok
    by (simp add: loc_req_switch_def ok_loc_req_def)
  have 2: "carries ?ip (loc_req_size d - 16 - client_addr_len (lq_dps_client_addr d)) loc_req_switch (\<lambda>st. st = ?s1) (\<lambda>st. st = ?s2)"
  proof (cases "ia_family ?a = AF_INET \<or> ia_family ?a = AF_INET6")
    case True
    then have "?ip = put (dps_set_ip_tlv ?a)" "loc_req_size d - 16 - client_addr_len (lq_dps_client_addr d) = ip_tlv_len ?a" "ok_ip ?a"
      using ok by (auto simp: fun_eq_iff put_def dps_set_ip_tlv_def [abs_def] loc_req_size_def ip_tlv_len_def ok_ip_def ok_loc_req_def)
    then show ?thesis
      using ip_tlv.carried [where x = ?a and f = "\<lambda>st ip. st\<lparr>lq_vm_ip_addr := ip\<rparr>" and g = lq_vm_ip_addr
          and sw = loc_req_switch and R = "\<lambda>st. st = ?s2" and D = "\<lambda>st. st = ?s1"] True
      by (simp add: loc_req_switch_def zero_loc_req_def)
  next
    case False
    then have "?ip = Some" "loc_req_size d - 16 - client_addr_len (lq_dps_client_addr d) = 0" "?s2 = ?s1"
      by (auto simp: fun_eq_iff loc_req_size_def zero_loc_req_def)
    then show ?thesis using carries_skip by metis
  qed
  have 3: "carries (put_client_addr (lq_dps_client_addr d)) (client_addr_len (lq_dps_client_addr d)) loc_req_switch
      (\<lambda>st. st = ?s2) (got_loc_req d addr)"
    using ok by (intro carries_client_addr [where f = "\<lambda>st a. st\<lparr>lq_dps_client_addr := a\<rparr>" and g = lq_dps_client_addr])
      (auto simp: ok_loc_req_def loc_req_switch_def got_loc_req_def)
  show ?thesis
    unfolding loc_req_body_def [abs_def]
    by (rule carries_cong [OF carries_bind [OF 1 carries_bind [OF 2 3]]]) (auto simp: loc_req_size_def)
qed

lemma loc_req_size: "4 dvd loc_req_size d" "loc_req_size d \<le> DPS_MAX_BUFF_SZ - 20"
  by (auto simp: loc_req_size_def client_addr_len_def)

lemma calc_loc_req:
  "cd_body req = Endpoint_loc_req d \<Longrightarrow> t \<in> {DPS_ENDPOINT_LOC_REQ, DPS_ADDR_RESOLVE} \<Longrightarrow> calc_pkt_len t req = Some (20 + loc_req_size d)"
  by (auto simp: calc_pkt_len_def loc_req_size_def)

interpretation loc_req_msg: scanned_message DPS_ENDPOINT_LOC_REQ dps_send_endpoint_loc_req dps_process_endpoint_loc_req
  Endpoint_loc_req "\<lambda>_. ok_loc_req" loc_req_size "\<lambda>_. loc_req_switch" "\<lambda>addr. zero_loc_req\<lparr>lq_dps_client_addr := addr\<rparr>"
  "\<lambda>d. d" got_loc_req "\<lambda>s. s" deliver
proof (unfold_locales, goal_cases)
  case (5 req d lk w)
  then show ?case
    using loc_req_size [of d]
    by (intro transmits_first_carried) (auto simp: dps_send_endpoint_loc_req_def calc_loc_req carries_loc_req)
next
  case (6 lk w buf h n addr tbl)
  then show ?case
    by (intro scan_with_buffer [of _ _ tbl]) (auto simp: dps_process_endpoint_loc_req_def deliveries)
qed (use loc_req_size in \<open>auto simp: table_rows\<close>)

interpretation addr_resolve_msg: scanned_message DPS_ADDR_RESOLVE dps_send_addr_resolve dps_process_addr_resolve
  Endpoint_loc_req "\<lambda>_. ok_loc_req" loc_req_size "\<lambda>_. loc_req_switch" "\<lambda>addr. zero_loc_req\<lparr>lq_dps_client_addr := addr\<rparr>"
  "\<lambda>d. d" got_loc_req "\<lambda>s. s" deliver_acked
proof (unfold_locales, goal_cases)
  case (5 req d lk w)
  then show ?case
    using loc_req_size [of d]
    by (intro transmits_first_carried) (auto simp: dps_send_addr_resolve_def calc_loc_req carries_loc_req)
next
  case (6 lk w buf h n addr tbl)
  then show ?case
    by (intro scan_with_buffer [of _ _ tbl]) (auto simp: dps_process_addr_resolve_def deliveries)
qed (use loc_req_size in \<open>auto simp: table_rows\<close>)

section \<open>Endpoint location replies\<close>

lemma tunnels_len_dvd: "list_all ok_tunnel ts \<Longrightarrow> 4 dvd tunnels_len ts"
  by (induction ts) (auto simp: tunnels_len_def tunnel_len_def ok_tunnel_def)

lemma tunnel_list_len_dvd: "ok_tunnel_list cap l \<Longrightarrow> 4 dvd tunnel_list_len l"
  using tunnels_len_dvd [of "tl_tunnel_list l"] by (auto simp: tunnel_list_len_def ok_tunnel_list_def)

lemma calc_tunnel_list:
  assumes "ok_tunnel_list cap l"
  shows "dps_calc_tunnel_tlv_len l = Some (tunnel_list_len l)"
proof -
  have "map tunnel_info_len (tl_tunnel_list l) = map tunnel_len (tl_tunnel_list l)"
    using assms by (auto simp: ok_tunnel_list_def ok_tunnel_def list_all_iff tunnel_info_len_def tunnel_len_def)
  then have "sum_list (map tunnel_info_len (tl_tunnel_list l)) = tunnels_len (tl_tunnel_list l)"
    by (simp only: tunnels_len_def)
  then show ?thesis
    using assms by (auto simp: dps_calc_tunnel_tlv_len_def slots_def ok_tunnel_list_def tunnel_list_len_def)
qed

lemma calc_loc_reply_tlv:
  "ok_loc_reply cap d \<Longrightarrow> dps_calc_endpoint_loc_reply_tlv_len d = Some (endpoint_tlv_len (lr_vm_ip_addr d) (lr_tunnel_info d))"
  by (auto simp: dps_calc_endpoint_loc_reply_tlv_len_def calc_tunnel_list ok_loc_reply_def ok_ip_def endpoint_tlv_len_def ip_tlv_len_def)

abbreviation loc_size :: "dps_endpoint_loc_reply_t \<Rightarrow> nat" where
  "loc_size d \<equiv> endpoint_tlv_len (lr_vm_ip_addr d) (lr_tunnel_info d)"

lemma loc_size_dvd: "ok_loc_reply cap d \<Longrightarrow> 4 dvd loc_size d"
  using tunnel_list_len_dvd [of cap "lr_tunnel_info d"]
  by (auto simp: ok_loc_reply_def endpoint_tlv_len_def ip_tlv_len_def)

lemma tunnel_space_cap: "fst (tunnel_space mem off) = (DPS_MAX_BUFF_SZ - off) div 28"
  by (simp add: tunnel_space_def)

text \<open>The client's buffer has room for 1167 tunnels behind the fixed part of a location reply.\<close>

definition ok_loc_reply_msg :: "dps_client_hdr_t \<Rightarrow> dps_endpoint_loc_reply_t \<Rightarrow> bool" where
  "ok_loc_reply_msg h d \<longleftrightarrow> ch_resp_status h = DPS_NO_ERR \<and> ok_loc_reply 1167 d \<and> 20 + loc_size d \<le> DPS_MAX_BUFF_SZ"

definition loc_reply_image :: "dps_endpoint_loc_reply_t \<Rightarrow> bytes \<Rightarrow> bool" where
  "loc_reply_image d p \<longleftrightarrow> (\<forall>mem. tlv_image (dps_get_endpoint_loc_reply_tlv (tunnel_space mem 92)) ENDPOINT_LOC_TLV (loc_size d)
     (\<lambda>st. tl_num_of_tunnels (lr_tunnel_info st) = 0) (got_loc_reply d) p)"

lemma transmits_loc_reply:
  assumes "ok_loc_reply_msg (cd_hdr req) d" and "cd_body req = Endpoint_loc_reply d" and "ch_type (cd_hdr req) = t" and "has_buffer lk w"
    and t: "t \<in> {DPS_ENDPOINT_LOC_REPLY, DPS_UNSOLICITED_ENDPOINT_LOC_REPLY}"
  shows "transmits (\<lambda>s. s) lk (dps_send_endpoint_loc_reply lk) t req w (loc_size d) (loc_reply_image d)"
proof -
  have "emits (put (dps_set_endpoint_loc_reply_tlv d)) (loc_size d) (loc_reply_image d)"
    unfolding loc_reply_image_def using assms(1)
    by (intro emits_all emits_put writes_loc_reply) (auto simp: tunnel_space_cap ok_loc_reply_msg_def)
  note tr = transmits_header_first [OF assms(4) this, of "20 + loc_size d" DPS_ERROR t req]
  have len: "calc_pkt_len t req = Some (20 + loc_size d)"
    using assms(1,2) t by (auto simp: calc_pkt_len_def ok_loc_reply_msg_def calc_loc_reply_tlv)
  have "dps_send_endpoint_loc_reply lk req w = send_header_first lk DPS_ERROR t (20 + loc_size d) (put (dps_set_endpoint_loc_reply_tlv d)) req w"
    using assms len by (simp add: dps_send_endpoint_loc_reply_def ok_loc_reply_msg_def endpoint_tlv_len_def)
  with tr assms(1) show ?thesis by (simp add: transmits_def ok_loc_reply_msg_def)
qed

lemma loc_reply_loop:
  assumes "loc_reply_image d p" and "0 < n" and "n = loc_size d" and "length h = 20"
  shows "\<exists>d'. got_loc_reply d zero_loc_reply d' \<and> while_opt (\<lambda>(d, pos). pos < 20 + n)
    (\<lambda>(d, pos). from_off pos (\<lambda>b. dps_get_endpoint_loc_reply_tlv (tunnel_space mem 92) b d) (h @ p @ junk))
    (zero_loc_reply, 20) = Some (d', 20 + n)"
proof -
  obtain d' where "dps_get_endpoint_loc_reply_tlv (tunnel_space mem 92) (p @ junk) zero_loc_reply = Some (d', n)" "got_loc_reply d zero_loc_reply d'"
    using tlv_imageD [OF assms(1) [unfolded loc_reply_image_def, rule_format], of zero_loc_reply mem junk] assms(3)
    by (auto simp: zero_loc_reply_def zero_tunnel_list_def)
  then show ?thesis
    using assms(2,4) by (intro exI [of _ d'])
      (simp add: while_opt_step [where s' = "(d', 20 + n)"] while_opt_done from_off_def)
qed

lemma loc_reply_parse:
  fixes lk :: "'w dps_link"
  assumes "ok_loc_reply_msg h0 d" and "loc_reply_image d p" and "has_buffer lk w"
  shows "\<exists>d'. got_loc_reply d zero_loc_reply d' \<and>
    dps_process_endpoint_loc_reply lk (pkt_hdrb DPS_ENDPOINT_LOC_REPLY h (20 + loc_size d) @ p @ junk) addr (tbl, w) =
      deliver_answer True lk ((recv_hdr DPS_ENDPOINT_LOC_REPLY h zero_hdr)\<lparr>ch_reply_addr := addr\<rparr>)
        (Endpoint_loc_reply d') (tbl, snd (lk_malloc lk w))"
    "\<exists>d'. got_loc_reply d zero_loc_reply d' \<and>
    dps_process_endpoint_loc_reply lk (pkt_hdrb DPS_UNSOLICITED_ENDPOINT_LOC_REPLY h (20 + loc_size d) @ p @ junk) addr (tbl, w) =
      deliver_acked lk ((recv_hdr DPS_ENDPOINT_LOC_REPLY h zero_hdr)\<lparr>ch_reply_addr := addr\<rparr>)
        (Endpoint_loc_reply d') (tbl, snd (lk_malloc lk w))"
proof -
  obtain mem where mem: "\<And>f. with_client_buff lk f (tbl, w) = do {
      (ret, (tbl, w)) \<leftarrow> f mem (tbl, snd (lk_malloc lk w)); Some (ret, (tbl, lk_free lk w)) }"
    using with_buffer [OF assms(3), of tbl] by blast
  have n: "0 < loc_size d" "4 dvd loc_size d" "20 + loc_size d \<le> DPS_MAX_BUFF_SZ"
    using assms(1) loc_size_dvd by (auto simp: ok_loc_reply_msg_def endpoint_tlv_len_def)
  note hdr = packet_hdr [OF n(2,3)]
  note loop = loc_reply_loop [OF assms(2) n(1) refl, of "pkt_hdrb t h (20 + loc_size d)" for t, OF length_pkt_hdrb, of mem _ junk]
  show "\<exists>d'. got_loc_reply d zero_loc_reply d' \<and>
    dps_process_endpoint_loc_reply lk (pkt_hdrb DPS_ENDPOINT_LOC_REPLY h (20 + loc_size d) @ p @ junk) addr (tbl, w) =
      deliver_answer True lk ((recv_hdr DPS_ENDPOINT_LOC_REPLY h zero_hdr)\<lparr>ch_reply_addr := addr\<rparr>)
        (Endpoint_loc_reply d') (tbl, snd (lk_malloc lk w))"
    using loop [of DPS_ENDPOINT_LOC_REPLY]
    by (auto simp: dps_process_endpoint_loc_reply_def hdr mem deliveries recv_hdr_def zero_hdr_def)
  show "\<exists>d'. got_loc_reply d zero_loc_reply d' \<and>
    dps_process_endpoint_loc_reply lk (pkt_hdrb DPS_UNSOLICITED_ENDPOINT_LOC_REPLY h (20 + loc_size d) @ p @ junk) addr (tbl, w) =
      deliver_acked lk ((recv_hdr DPS_ENDPOINT_LOC_REPLY h zero_hdr)\<lparr>ch_reply_addr := addr\<rparr>)
        (Endpoint_loc_reply d') (tbl, snd (lk_malloc lk w))"
    using loop [of DPS_UNSOLICITED_ENDPOINT_LOC_REPLY]
    by (auto simp: dps_process_endpoint_loc_reply_def hdr mem deliveries recv_hdr_def zero_hdr_def)
qed

interpretation loc_reply_msg: dps_message DPS_ENDPOINT_LOC_REPLY dps_send_endpoint_loc_reply dps_process_endpoint_loc_reply
  Endpoint_loc_reply ok_loc_reply_msg loc_size loc_reply_image "\<lambda>d _. got_loc_reply d zero_loc_reply" "\<lambda>s. s" "deliver_answer True"
  by (unfold_locales, goal_cases)
     (simp_all add: table_rows transmits_loc_reply loc_reply_parse)

interpretation unsolicited_loc_reply_msg: dps_message DPS_UNSOLICITED_ENDPOINT_LOC_REPLY dps_send_endpoint_loc_reply
  dps_process_endpoint_loc_reply Endpoint_loc_reply ok_loc_reply_msg loc_size loc_reply_image "\<lambda>d _. got_loc_reply d zero_loc_reply"
  "\<lambda>s. s" "\<lambda>lk h. deliver_acked lk (h\<lparr>ch_type := DPS_ENDPOINT_LOC_REPLY\<rparr>)"
proof (unfold_locales, goal_cases)
  case (5 h0 d p lk w addr h junk tbl)
  have "(recv_hdr DPS_UNSOLICITED_ENDPOINT_LOC_REPLY h zero_hdr)\<lparr>ch_reply_addr := addr, ch_type := DPS_ENDPOINT_LOC_REPLY\<rparr> =
      (recv_hdr DPS_ENDPOINT_LOC_REPLY h zero_hdr)\<lparr>ch_reply_addr := addr\<rparr>"
    by (simp add: recv_hdr_def zero_hdr_def)
  with loc_reply_parse(2) [OF 5(1,2,4)] show ?case by simp
qed (simp_all add: table_rows transmits_loc_reply)

section \<open>Endpoint updates\<close>

abbreviation update_size :: "dps_endpoint_update_t \<Rightarrow> nat" where
  "update_size d \<equiv> endpoint_tlv_len (eu_vm_ip_addr d) (eu_tunnel_info d) + client_addr_len (eu_dps_client_addr d)"

definition ok_update_msg :: "dps_endpoint_update_t \<Rightarrow> bool" where
  "ok_update_msg d \<longleftrightarrow> ok_update 1166 d \<and> wf_ip (eu_dps_client_addr d) \<and> 20 + update_size d \<le> DPS_MAX_BUFF_SZ"

definition got_update_msg :: "dps_endpoint_update_t \<Rightarrow> ip_addr_t \<Rightarrow> dps_endpoint_update_t \<Rightarrow> bool" where
  "got_update_msg d addr d' \<longleftrightarrow> got_client (eu_dps_client_addr d) addr (eu_dps_client_addr d') \<and>
     got_update d zero_update (d'\<lparr>eu_dps_client_addr := zero_ip_addr\<rparr>)"

lemma client_addr_len_dvd: "4 dvd client_addr_len a"
  by (simp add: client_addr_len_def)

lemma update_size_dvd: "ok_update_msg d \<Longrightarrow> 4 dvd update_size d"
  using tunnel_list_len_dvd [of 1166 "eu_tunnel_info d"] client_addr_len_dvd [of "eu_dps_client_addr d"]
  by (auto simp: ok_update_msg_def ok_update_def endpoint_tlv_len_def ip_tlv_len_def)

lemma carries_update:
  assumes ok: "ok_update_msg d"
  shows "carries (\<lambda>s. do { s \<leftarrow> put (dps_set_endpoint_update_tlv d) s; put_client_addr (eu_dps_client_addr d) s }) (update_size d)
    (update_pkt_switch (tunnel_space mem 116)) (\<lambda>st. st = zero_update\<lparr>eu_dps_client_addr := addr\<rparr>) (got_update_msg d addr)"
proof (rule carries_bind)
  let ?M = "\<lambda>st. eu_dps_client_addr st = addr \<and> got_update d zero_update (st\<lparr>eu_dps_client_addr := zero_ip_addr\<rparr>)"
  show "carries (put (dps_set_endpoint_update_tlv d)) (endpoint_tlv_len (eu_vm_ip_addr d) (eu_tunnel_info d))
      (update_pkt_switch (tunnel_space mem 116)) (\<lambda>st. st = zero_update\<lparr>eu_dps_client_addr := addr\<rparr>) ?M"
    using update_tlv.carried [where x = "(tunnel_space mem 116, d)" and g = "\<lambda>st. st" and f = "\<lambda>st y. y" and R = ?M
        and D = "\<lambda>st. st = zero_update\<lparr>eu_dps_client_addr := addr\<rparr>" and sw = "update_pkt_switch (tunnel_space mem 116)"] ok
    by (simp add: tunnel_space_cap ok_update_msg_def update_pkt_switch_def got_update_def zero_update_def zero_tunnel_list_def)
  show "carries (put_client_addr (eu_dps_client_addr d)) (client_addr_len (eu_dps_client_addr d))
      (update_pkt_switch (tunnel_space mem 116)) ?M (got_update_msg d addr)"
    using ok by (intro carries_client_addr [where f = "\<lambda>st a. st\<lparr>eu_dps_client_addr := a\<rparr>" and g = eu_dps_client_addr])
      (auto simp: ok_update_msg_def update_pkt_switch_def got_update_msg_def)
qed

interpretation update_msg: scanned_message DPS_ENDPOINT_UPDATE dps_send_endpoint_update dps_process_endpoint_update
  Endpoint_update "\<lambda>_. ok_update_msg" update_size "\<lambda>mem. update_pkt_switch (tunnel_space mem 116)"
  "\<lambda>addr. zero_update\<lparr>eu_dps_client_addr := addr\<rparr>" "\<lambda>d. d" got_update_msg "\<lambda>s. s" deliver
proof (unfold_locales, goal_cases)
  case (5 req d lk w)
  have "calc_pkt_len DPS_ENDPOINT_UPDATE req = Some (20 + update_size d)"
    using 5 calc_tunnel_list [of 1166 "eu_tunnel_info d"]
    by (auto simp: calc_pkt_len_def ok_update_msg_def ok_update_def ok_ip_def endpoint_tlv_len_def ip_tlv_len_def)
  moreover have "update_size d \<noteq> 0" by (simp add: endpoint_tlv_len_def)
  ultimately show ?case
    using 5 by (intro transmits_last_carried) (auto simp: dps_send_endpoint_update_def carries_update ok_update_msg_def)
next
  case (6 lk w buf h n addr tbl)
  then show ?case
    by (intro scan_with_buffer [of _ _ tbl]) (auto simp: dps_process_endpoint_update_def deliveries)
next
  case (4 h d)
  then show ?case using update_size_dvd [of d] by (auto simp: ok_update_msg_def)
qed (auto simp: table_rows)

section \<open>Endpoint update replies\<close>

definition ok_update_reply_msg :: "dps_endpoint_update_reply_t \<Rightarrow> bool" where
  "ok_update_reply_msg d \<longleftrightarrow> ok_update_reply 1154 d \<and> 20 + update_reply_len d \<le> DPS_MAX_BUFF_SZ"

lemma update_reply_len_dvd: "ok_update_reply cap d \<Longrightarrow> 4 dvd update_reply_len d"
  using tunnel_list_len_dvd [of cap "ur_tunnel_info d"] by (auto simp: ok_update_reply_def update_reply_len_def)

lemma calc_vips:
  assumes "ok_update_reply cap d"
  shows "dps_calc_vip_tlv_len (ur_num_of_vip d) (ur_vm_ip_addr d) = Some (if ur_num_of_vip d = 0 then 0 else 4 + 4 * unat (ur_num_of_vip d))"
proof -
  have "vip4s (vips d) = vips d" "vip6s (vips d) = []" "length (vips d) = unat (ur_num_of_vip d)"
    using assms by (auto simp: ok_update_reply_def vip4s_def vip6s_def vips_def filter_id_conv filter_empty_conv list_all_iff)
  then show ?thesis
    using assms by (auto simp: dps_calc_vip_tlv_len_def slots_def vips_def ok_update_reply_def unat_eq_zero)
qed

interpretation update_reply_msg: scanned_message DPS_ENDPOINT_UPDATE_REPLY dps_send_endpoint_update_reply
  dps_process_endpoint_update_reply Endpoint_update_reply "\<lambda>_. ok_update_reply_msg" update_reply_len
  "\<lambda>mem. update_reply_pkt_switch (tunnel_space mem 456)" "\<lambda>_. zero_update_reply" "\<lambda>d. d" "\<lambda>d _. got_update_reply d"
  "\<lambda>s. s" "deliver_answer True"
proof (unfold_locales, goal_cases)
  case (5 req d lk w)
  have "calc_pkt_len (ch_type (cd_hdr req)) req = Some (20 + update_reply_len d)"
    using 5 calc_tunnel_list [of 1154 "ur_tunnel_info d"] calc_vips [of 1154 d]
    by (auto simp: calc_pkt_len_def ok_update_reply_msg_def ok_update_reply_def update_reply_len_def)
  moreover have "carries (put (dps_set_endpoint_update_reply_tlv d)) (update_reply_len d)
      (update_reply_pkt_switch (tunnel_space mem 456)) (\<lambda>st. st = zero_update_reply) (got_update_reply d)" for mem
    using update_reply_tlv.carried [where x = "(tunnel_space mem 456, d)" and g = "\<lambda>st. st" and f = "\<lambda>st y. y" and R = "got_update_reply d"
        and D = "\<lambda>st. st = zero_update_reply" and sw = "update_reply_pkt_switch (tunnel_space mem 456)"] 5(1)
    by (simp add: tunnel_space_cap ok_update_reply_msg_def update_reply_pkt_switch_def dst_update_reply_def zero_update_reply_def
        zero_tunnel_list_def)
  ultimately show ?case
    using 5 by (intro transmits_first_carried) (auto simp: dps_send_endpoint_update_reply_def ok_update_reply_msg_def update_reply_len_def)
next
  case (6 lk w buf h n addr tbl)
  then show ?case
    by (intro scan_with_buffer [of _ _ tbl]) (auto simp: dps_process_endpoint_update_reply_def deliveries)
next
  case (4 h d)
  then show ?case using update_reply_len_dvd [of 1154 d] by (auto simp: ok_update_reply_msg_def)
qed (auto simp: table_rows)

end
