(* ===== verification/Dps_Policy_Messages.thy ===== *)
theory Dps_Policy_Messages
  imports Dps_Messages
begin

text \<open>The messages about policies and VM migration as instances of the message contract.\<close>

section \<open>Policy requests\<close>

definition policy_req_size :: "dps_policy_req_t \<Rightarrow> nat" where
  "policy_req_size d = ei_len (pq_dst_endpoint d) + ei_len (pq_src_endpoint d) + client_addr_len (pq_dps_client_addr d)"

definition ok_policy_req :: "dps_policy_req_t \<Rightarrow> bool" where
  "ok_policy_req d \<longleftrightarrow> ok_endpoint_info (pq_dst_endpoint d) \<and> ok_endpoint_info (pq_src_endpoint d) \<and> wf_ip (pq_dps_client_addr d)"

text \<open>An endpoint as it arrives: the address without a family is read as an IPv4 one.\<close>

definition recv_endpoint :: "dps_endpoint_info_t \<Rightarrow> dps_endpoint_info_t" where
  "recv_endpoint e = e\<lparr>ei_vm_ip_addr := recv_ip (ei_vm_ip_addr e) zero_ip_addr\<rparr>"

definition got_policy_req :: "dps_policy_req_t \<Rightarrow> ip_addr_t \<Rightarrow> dps_policy_req_t \<Rightarrow> bool" where
  "got_policy_req d addr d' \<longleftrightarrow> pq_dst_endpoint d' = recv_endpoint (pq_dst_endpoint d) \<and>
     pq_src_endpoint d' = recv_endpoint (pq_src_endpoint d) \<and> got_client (pq_dps_client_addr d) addr (pq_dps_client_addr d')"

lemma policy_req_size: "4 dvd policy_req_size d" "policy_req_size d \<le> DPS_MAX_BUFF_SZ - 20"
  by (auto simp: policy_req_size_def ei_len_def client_addr_len_def)

lemma calc_endpoint_info: "dps_calc_endpoint_info_tlv_len e = ei_len e"
  by (simp add: dps_calc_endpoint_info_tlv_len_def ei_len_def DPS_GET_IP_ADDR_TLV_LEN_def)

lemma carries_policy_req:
  assumes ok: "ok_policy_req d"
  shows "carries (\<lambda>s. do {
      s \<leftarrow> put (dps_set_endpoint_info_tlv (pq_dst_endpoint d)) s;
      s \<leftarrow> put (dps_set_endpoint_info_tlv (pq_src_endpoint d)) s;
      put_client_addr (pq_dps_client_addr d) s }) (policy_req_size d) policy_req_switch
    (\<lambda>st. st = (zero_policy_req\<lparr>pq_dps_client_addr := addr\<rparr>, 0)) (\<lambda>st. got_policy_req d addr (fst st))"
proof -
  let ?s0 = "zero_policy_req\<lparr>pq_dps_client_addr := addr\<rparr>"
  let ?s1 = "?s0\<lparr>pq_dst_endpoint := recv_endpoint (pq_dst_endpoint d)\<rparr>"
  let ?s2 = "?s1\<lparr>pq_src_endpoint := recv_endpoint (pq_src_endpoint d)\<rparr>"
  have 1: "carries (put (dps_set_endpoint_info_tlv (pq_dst_endpoint d))) (ei_len (pq_dst_endpoint d)) policy_req_switch
      (\<lambda>st. st = (?s0, 0)) (\<lambda>st. st = (?s1, 1))"
    using ok by (intro endpoint_info_tlv.carried [where g = "\<lambda>(r, k). pq_dst_endpoint r" and f = "\<lambda>(r, k) e. (r\<lparr>pq_dst_endpoint := e\<rparr>, 1)"])
      (auto simp: policy_req_switch_def ok_policy_req_def zero_policy_req_def recv_endpoint_def zero_endpoint_info_def)
  have 2: "carries (put (dps_set_endpoint_info_tlv (pq_src_endpoint d))) (ei_len (pq_src_endpoint d)) policy_req_switch
      (\<lambda>st. st = (?s1, 1)) (\<lambda>st. st = (?s2, 2))"
    using ok by (intro endpoint_info_tlv.carried [where g = "\<lambda>(r, k). pq_src_endpoint r" and f = "\<lambda>(r, k) e. (r\<lparr>pq_src_endpoint := e\<rparr>, 2)"])
      (auto simp: policy_req_switch_def ok_policy_req_def zero_policy_req_def recv_endpoint_def zero_endpoint_info_def)
  have 3: "carries (put_client_addr (pq_dps_client_addr d)) (client_addr_len (pq_dps_client_addr d)) policy_req_switch
      (\<lambda>st. st = (?s2, 2)) (\<lambda>st. got_policy_req d addr (fst st))"
    using ok by (intro carries_client_addr [where g = "\<lambda>(r, k). pq_dps_client_addr r" and f = "\<lambda>(r, k) a. (r\<lparr>pq_dps_client_addr := a\<rparr>, k)"])
      (auto simp: policy_req_switch_def ok_policy_req_def got_policy_req_def)
  show ?thesis
    by (rule carries_cong [OF carries_bind [OF 1 carries_bind [OF 2 3]]]) (auto simp: policy_req_size_def)
qed

interpretation policy_req_msg: scanned_message DPS_POLICY_REQ dps_send_policy_req dps_process_policy_req
  Policy_req "\<lambda>_. ok_policy_req" policy_req_size "\<lambda>_. policy_req_switch"
  "\<lambda>addr. (zero_policy_req\<lparr>pq_dps_client_addr := addr\<rparr>, 0)" fst got_policy_req "\<lambda>s. s" deliver
proof (unfold_locales, goal_cases)
  case (5 req d lk w)
  then have "calc_pkt_len DPS_POLICY_REQ req = Some (20 + policy_req_size d)"
    by (simp add: calc_pkt_len_def calc_endpoint_info policy_req_size_def)
  with 5 show ?case
    using policy_req_size [of d] by (intro transmits_first_carried) (auto simp: dps_send_policy_req_def carries_policy_req)
next
  case (6 lk w buf h n addr tbl)
  then show ?case
    by (intro scan_with_buffer [of _ _ tbl]) (auto simp: dps_process_policy_req_def deliveries)
qed (use policy_req_size in \<open>auto simp: table_rows\<close>)

section \<open>Policy replies\<close>

text \<open>A successful reply; its buffer has room for one rule and 1166 tunnels.\<close>

definition policy_reply_size :: "dps_policy_reply_t \<Rightarrow> nat" where
  "policy_reply_size d = loc_size (pr_dst_endpoint_loc_reply d) + policy_tlv_len (pr_dps_policy_info d)"

definition ok_policy_reply :: "dps_client_hdr_t \<Rightarrow> dps_policy_reply_t \<Rightarrow> bool" where
  "ok_policy_reply h d \<longleftrightarrow> ch_resp_status h = DPS_NO_ERR \<and> ok_loc_reply 1166 (pr_dst_endpoint_loc_reply d) \<and>
     ok_policy_info 1 (pr_dps_policy_info d) \<and> 20 + policy_reply_size d \<le> DPS_MAX_BUFF_SZ"

definition got_policy_reply :: "dps_policy_reply_t \<Rightarrow> dps_policy_reply_t \<Rightarrow> bool" where
  "got_policy_reply d d' \<longleftrightarrow> got_loc_reply (pr_dst_endpoint_loc_reply d) zero_loc_reply (pr_dst_endpoint_loc_reply d') \<and>
     got_policy_info (pr_dps_policy_info d) (pr_dps_policy_info d')"

lemma policy_reply_size_dvd: "ok_policy_reply h d \<Longrightarrow> 4 dvd policy_reply_size d"
  using loc_size_dvd [of 1166 "pr_dst_endpoint_loc_reply d"]
  by (auto simp: ok_policy_reply_def policy_reply_size_def policy_tlv_len_def policy_rules_len_def rule_group_len_def)

lemma policy_len_eq: "wf_policy (pi_dps_policy i) \<Longrightarrow> policy_len (pi_dps_policy i) = policy_tlv_len i"
  by (simp add: policy_len_def wf_policy_def policy_tlv_len_def policy_rules_len_def rule_group_len_def unat_eq_zero algebra_simps)

lemma carries_policy_reply:
  assumes ok: "ok_policy_reply hdr d"
  shows "carries (put (dps_set_policy_reply_tlv d hdr)) (policy_reply_size d) (policy_reply_switch (tunnel_space mem 120))
    (\<lambda>st. st = zero_policy_reply) (got_policy_reply d)"
proof -
  let ?sw = "policy_reply_switch (tunnel_space mem 120)"
  let ?M = "\<lambda>st. got_loc_reply (pr_dst_endpoint_loc_reply d) zero_loc_reply (pr_dst_endpoint_loc_reply st) \<and> pr_dps_policy_info st = zero_policy_info"
  have 1: "writes (dps_set_endpoint_loc_reply_tlv (pr_dst_endpoint_loc_reply d)) (loc_size (pr_dst_endpoint_loc_reply d))
      (\<lambda>p. reads ?sw (\<lambda>st. st = zero_policy_reply) p ?M)"
    using loc_reply_tlv.written [where x = "(tunnel_space mem 120, pr_dst_endpoint_loc_reply d)" and g = pr_dst_endpoint_loc_reply and
        f = "\<lambda>st e. st\<lparr>pr_dst_endpoint_loc_reply := e\<rparr>" and R = ?M and D = "\<lambda>st. st = zero_policy_reply" and sw = ?sw] ok
    by (simp add: ok_policy_reply_def tunnel_space_cap policy_reply_switch_def zero_policy_reply_def zero_loc_reply_def zero_tunnel_list_def)
  have 2: "carries (put (dps_set_policy_tlv (pr_dps_policy_info d))) (policy_tlv_len (pr_dps_policy_info d)) ?sw ?M (got_policy_reply d)"
    using policy_tlv.carried [where x = "(1, pr_dps_policy_info d)" and g = pr_dps_policy_info and
        f = "\<lambda>st i. st\<lparr>pr_dps_policy_info := i\<rparr>" and R = "got_policy_reply d" and D = ?M and sw = ?sw] ok
    by (simp add: ok_policy_reply_def policy_reply_switch_def got_policy_reply_def cleared_policy_def zero_policy_info_def)
  show ?thesis
    using carries_put_bind [OF 1 2] ok
    by (simp add: dps_set_policy_reply_tlv_def [abs_def] ok_policy_reply_def policy_reply_size_def)
qed

interpretation policy_reply_msg: scanned_message DPS_POLICY_REPLY dps_send_policy_reply dps_process_policy_reply
  Policy_reply ok_policy_reply policy_reply_size "\<lambda>mem. policy_reply_switch (tunnel_space mem 120)" "\<lambda>_. zero_policy_reply"
  "\<lambda>d. d" "\<lambda>d _. got_policy_reply d" "\<lambda>_. DPS_SUCCESS" "deliver_answer False"
proof (unfold_locales, goal_cases)
  case (5 req d lk w)
  then have "calc_pkt_len DPS_POLICY_REPLY req = Some (20 + policy_reply_size d)"
    using calc_loc_reply_tlv [of 1166 "pr_dst_endpoint_loc_reply d"] policy_len_eq [of "pr_dps_policy_info d"]
    by (simp add: calc_pkt_len_def ok_policy_reply_def ok_policy_info_def policy_reply_size_def)
  moreover have "transmits (\<lambda>s. s) lk (send_header_first lk DPS_ERROR DPS_POLICY_REPLY (20 + policy_reply_size d)
      (put (dps_set_policy_reply_tlv d (cd_hdr req)))) DPS_POLICY_REPLY req w (policy_reply_size d)
      (\<lambda>p. \<forall>mem addr. reads (policy_reply_switch (tunnel_space mem 120)) (\<lambda>st. st = zero_policy_reply) p (got_policy_reply d))"
    using 5 by (intro transmits_first_carried) (auto simp: carries_policy_reply ok_policy_reply_def)
  ultimately show ?case
    using 5 alloc_buffer [OF 5(4)] by (auto simp: transmits_def dps_send_policy_reply_def case_prod_unfold Let_def)
next
  case (6 lk w buf h n addr tbl)
  then show ?case
    by (intro scan_with_buffer [of _ _ tbl]) (auto simp: dps_process_policy_reply_def deliveries)
next
  case (4 h d)
  then show ?case using policy_reply_size_dvd [of h d] by (auto simp: ok_policy_reply_def)
qed (auto simp: table_rows)

end
