(* ===== verification/Dps_List_Messages.thy ===== *)
theory Dps_List_Messages
  imports Dps_Messages
begin

text \<open>
  The messages that carry lists of gateways, switches and tunnels, and the
  requests that carry nothing but the address of the client, as instances of
  the message contract.
\<close>

section \<open>Packed address lists\<close>

text \<open>
  IPv4 addresses and then IPv6 addresses, packed into one array; the reader
  keeps the offset at which the IPv6 addresses begin.
\<close>

lemma carries_addr_lists:
  fixes sw :: "dps_tlv_hdr_t \<Rightarrow> bytes \<Rightarrow> 'd \<times> nat \<Rightarrow> ('d \<times> nat) branch option"
  assumes len: "4 * unat v4 + 16 * unat v6 \<le> length addrs" "4 * unat v4 + 16 * unat v6 \<le> cap"
      "4 * unat v4 < 65536" "16 * unat v6 < 65536"
    and sw4: "\<And>v n b d off. sw \<lparr>tlv_ver = v, tlv_type = IPV4_ADDR_LIST_TLV, tlv_len = n\<rparr> b (d, off) =
      took (\<lambda>m. (upv d m (n div 4), off + 4 * unat (n div 4))) (dps_get_ipv4_list_tlv cap off b (lst d))"
    and sw6: "\<And>v n b d off. sw \<lparr>tlv_ver = v, tlv_type = IPV6_ADDR_LIST_TLV, tlv_len = n\<rparr> b (d, off) =
      took (\<lambda>m. (upw d m (n div 16), off)) (dps_get_ipv6_list_tlv cap off b (lst d))"
    and lst: "lst d0 = []" "\<And>d m n. lst (upv d m n) = m"
  shows "carries (put_addr_lists v4 v6 addrs) (addr_lists_len v4 v6) sw (\<lambda>st. st = (d0, 0))
    (\<lambda>st. fst st = (let d1 = (if v4 = 0 then d0 else upv d0 (take (4 * unat v4) addrs) v4)
       in if v6 = 0 then d1 else upw d1 (take (4 * unat v4 + 16 * unat v6) addrs) v6))"
proof -
  let ?d1 = "if v4 = 0 then d0 else upv d0 (take (4 * unat v4) addrs) v4"
  let ?n4 = "4 * unat v4" and ?n6 = "16 * unat v6"
  have 1: "carries (\<lambda>s. if v4 \<noteq> 0 then put (dps_set_ipv4_list_tlv addrs (ucast v4)) s else Some s) (if v4 \<noteq> 0 then 4 + ?n4 else 0) sw
      (\<lambda>st. st = (d0, 0)) (\<lambda>st. st = (?d1, ?n4))"
  proof (rule carries_if)
    assume "v4 \<noteq> 0"
    then show "carries (put (dps_set_ipv4_list_tlv addrs (ucast v4))) (4 + ?n4) sw (\<lambda>st. st = (d0, 0)) (\<lambda>st. st = (?d1, ?n4))"
      using ipv4_list_tlv.carried [where x = "(cap, 0, addrs, ucast v4)" and D = "\<lambda>st. st = (d0, 0)" and sw = sw
          and g = "\<lambda>(d, off). lst d" and f = "\<lambda>(d, off) m. (upv d m v4, off + ?n4)" and R = "\<lambda>st. st = (?d1, ?n4)"]
        len div_num_mult(1) [of v4] lst(1)
      by (simp add: sw4)
  qed (rule carries_cong [OF carries_skip], auto)
  have 2: "carries (\<lambda>s. if v6 \<noteq> 0 then put (dps_set_ipv6_list_tlv (drop ?n4 addrs) (ucast v6)) s else Some s)
      (if v6 \<noteq> 0 then 4 + ?n6 else 0) sw (\<lambda>st. st = (?d1, ?n4))
      (\<lambda>st. fst st = (if v6 = 0 then ?d1 else upw ?d1 (take (?n4 + ?n6) addrs) v6))"
  proof (rule carries_if)
    assume "v6 \<noteq> 0"
    moreover have "lst ?d1 = take ?n4 addrs" "length (take ?n4 addrs) = ?n4" using len(1) lst by auto
    ultimately show "carries (put (dps_set_ipv6_list_tlv (drop ?n4 addrs) (ucast v6))) (4 + ?n6) sw (\<lambda>st. st = (?d1, ?n4))
        (\<lambda>st. fst st = (if v6 = 0 then ?d1 else upw ?d1 (take (?n4 + ?n6) addrs) v6))"
      using ipv6_list_tlv.carried [where x = "(cap, ?n4, drop ?n4 addrs, ucast v6)" and D = "\<lambda>st. st = (?d1, ?n4)" and sw = sw
          and g = "\<lambda>(d, off). lst d" and f = "\<lambda>(d, off) m. (upw d m v6, off)"
          and R = "\<lambda>st. fst st = upw ?d1 (take (?n4 + ?n6) addrs) v6"]
        len div_num_mult(2) [of v6]
      by (simp add: sw6 take_add del: if_split)
  qed (rule carries_cong [OF carries_skip], auto)
  show ?thesis
    unfolding put_addr_lists_def [abs_def]
    by (rule carries_cong [OF carries_bind [OF 1 2]]) (auto simp: addr_lists_len_def Let_def)
qed

definition ok_lists :: "nat \<Rightarrow> dps_client_hdr_t \<Rightarrow> u16 \<Rightarrow> u16 \<Rightarrow> bytes \<Rightarrow> bool" where
  "ok_lists off h v4 v6 addrs \<longleftrightarrow> ch_resp_status h = DPS_NO_ERR \<and> 4 * unat v4 + 16 * unat v6 \<le> length addrs \<and>
     4 * unat v4 + 16 * unat v6 \<le> DPS_MAX_BUFF_SZ - off"

lemma addr_lists_len_dvd: "4 dvd addr_lists_len v4 v6"
  by (simp add: addr_lists_len_def)

lemma addr_lists_len_le:
  assumes "ok_lists off h v4 v6 addrs" and "28 \<le> off"
  shows "20 + addr_lists_len v4 v6 \<le> DPS_MAX_BUFF_SZ" "4 * unat v4 < 65536" "16 * unat v6 < 65536"
  using assms by (auto simp: ok_lists_def addr_lists_len_def)

lemma put_addr_lists_len:
  "(\<lambda>s. if 20 + addr_lists_len v4 v6 \<noteq> 20 then put_addr_lists v4 v6 addrs s else Some s) = put_addr_lists v4 v6 addrs"
  by (auto simp: addr_lists_len_def put_addr_lists_def fun_eq_iff)

text \<open>The array holds what the two counts say.\<close>

definition got_gw :: "dps_internal_gw_t \<Rightarrow> dps_internal_gw_t \<Rightarrow> bool" where
  "got_gw d d' \<longleftrightarrow> d' = d\<lparr>gw_gw_list := take (4 * unat (gw_num_v4_gw d) + 16 * unat (gw_num_v6_gw d)) (gw_gw_list d)\<rparr>"

abbreviation gw_size :: "dps_internal_gw_t \<Rightarrow> nat" where
  "gw_size d \<equiv> addr_lists_len (gw_num_v4_gw d) (gw_num_v6_gw d)"

abbreviation ok_gw :: "dps_client_hdr_t \<Rightarrow> dps_internal_gw_t \<Rightarrow> bool" where
  "ok_gw h d \<equiv> ok_lists 52 h (gw_num_v4_gw d) (gw_num_v6_gw d) (gw_gw_list d)"

lemma carries_gw:
  assumes ok: "ok_gw h d"
  shows "carries (put_addr_lists (gw_num_v4_gw d) (gw_num_v6_gw d) (gw_gw_list d)) (gw_size d) (gw_switch (DPS_MAX_BUFF_SZ - 52))
    (\<lambda>st. st = (\<lparr>gw_num_v4_gw = 0, gw_num_v6_gw = 0, gw_gw_list = []\<rparr>, 0)) (\<lambda>st. got_gw d (fst st))"
  by (rule carries_cong [OF carries_addr_lists
        [where upv = "\<lambda>d m n. d\<lparr>gw_gw_list := m, gw_num_v4_gw := n\<rparr>" and upw = "\<lambda>d m n. d\<lparr>gw_gw_list := m, gw_num_v6_gw := n\<rparr>"
          and lst = gw_gw_list and cap = "DPS_MAX_BUFF_SZ - 52"]])
     (use ok addr_lists_len_le [OF ok] in \<open>auto simp: ok_lists_def gw_switch_def got_gw_def Let_def\<close>)

lemma gw_scanned:
  assumes "(t, done_with) \<in> {(DPS_INTERNAL_GW_REPLY, deliver_answer False), (DPS_UNSOLICITED_INTERNAL_GW_REPLY, deliver_acked)}"
  shows "scanned_message t dps_send_internal_gw_reply dps_process_internal_gw_reply Internal_gw_list ok_gw gw_size
    (\<lambda>_. gw_switch (DPS_MAX_BUFF_SZ - 52)) (\<lambda>_. (\<lparr>gw_num_v4_gw = 0, gw_num_v6_gw = 0, gw_gw_list = []\<rparr>, 0)) fst (\<lambda>d _. got_gw d)
    (\<lambda>s. s) done_with"
proof (unfold_locales, goal_cases)
  case (5 req d lk w)
  then have "calc_pkt_len t req = Some (20 + gw_size d)"
    using assms by (auto simp: calc_pkt_len_def)
  with 5 show ?case
    using addr_lists_len_le [OF 5(1)] put_addr_lists_len carries_gw [OF 5(1)]
    by (intro transmits_first_carried) (auto simp: dps_send_internal_gw_reply_def ok_lists_def)
next
  case (6 lk w buf h n addr tbl)
  then show ?case
    using assms by (intro scan_with_buffer [of _ _ tbl]) (auto simp: dps_process_internal_gw_reply_def deliveries)
qed (use assms addr_lists_len_le addr_lists_len_dvd in \<open>auto simp: table_rows\<close>)

interpretation gw_reply_msg: scanned_message DPS_INTERNAL_GW_REPLY dps_send_internal_gw_reply dps_process_internal_gw_reply
  Internal_gw_list ok_gw gw_size "\<lambda>_. gw_switch (DPS_MAX_BUFF_SZ - 52)"
  "\<lambda>_. (\<lparr>gw_num_v4_gw = 0, gw_num_v6_gw = 0, gw_gw_list = []\<rparr>, 0)" fst "\<lambda>d _. got_gw d" "\<lambda>s. s" "deliver_answer False"
  by (rule gw_scanned) simp

interpretation unsolicited_gw_msg: scanned_message DPS_UNSOLICITED_INTERNAL_GW_REPLY dps_send_internal_gw_reply dps_process_internal_gw_reply
  Internal_gw_list ok_gw gw_size "\<lambda>_. gw_switch (DPS_MAX_BUFF_SZ - 52)"
  "\<lambda>_. (\<lparr>gw_num_v4_gw = 0, gw_num_v6_gw = 0, gw_gw_list = []\<rparr>, 0)" fst "\<lambda>d _. got_gw d" "\<lambda>s. s" deliver_acked
  by (rule gw_scanned) simp

section \<open>Switch lists\<close>

text \<open>The VNID of the list is not sent; it is that of the header.\<close>

abbreviation zero_pkd :: dps_pkd_tunnel_list_t where
  "zero_pkd \<equiv> \<lparr>pk_vnid = 0, pk_num_v4_tunnels = 0, pk_num_v6_tunnels = 0, pk_tunnel_list = []\<rparr>"

definition got_switches :: "dps_pkd_tunnel_list_t \<Rightarrow> dps_pkd_tunnel_list_t \<Rightarrow> bool" where
  "got_switches d d' \<longleftrightarrow> d' = d\<lparr>pk_vnid := 0,
     pk_tunnel_list := take (4 * unat (pk_num_v4_tunnels d) + 16 * unat (pk_num_v6_tunnels d)) (pk_tunnel_list d)\<rparr>"

abbreviation switches_size :: "dps_pkd_tunnel_list_t \<Rightarrow> nat" where
  "switches_size d \<equiv> addr_lists_len (pk_num_v4_tunnels d) (pk_num_v6_tunnels d)"

abbreviation ok_switches :: "dps_client_hdr_t \<Rightarrow> dps_pkd_tunnel_list_t \<Rightarrow> bool" where
  "ok_switches h d \<equiv> ok_lists 56 h (pk_num_v4_tunnels d) (pk_num_v6_tunnels d) (pk_tunnel_list d)"

lemma carries_switches:
  assumes ok: "ok_switches h d"
  shows "carries (put_addr_lists (pk_num_v4_tunnels d) (pk_num_v6_tunnels d) (pk_tunnel_list d)) (switches_size d)
    (bcast_switch (DPS_MAX_BUFF_SZ - 56)) (\<lambda>st. st = (zero_pkd, 0)) (\<lambda>st. got_switches d (fst st))"
  by (rule carries_cong [OF carries_addr_lists
        [where upv = "\<lambda>d m n. d\<lparr>pk_tunnel_list := m, pk_num_v4_tunnels := n\<rparr>" and upw = "\<lambda>d m n. d\<lparr>pk_tunnel_list := m, pk_num_v6_tunnels := n\<rparr>"
          and lst = pk_tunnel_list and cap = "DPS_MAX_BUFF_SZ - 56"]])
     (use ok addr_lists_len_le [OF ok] in \<open>auto simp: ok_lists_def bcast_switch_def got_switches_def Let_def\<close>)

lemma switches_scanned:
  assumes "(t, done_with) \<in> {(DPS_BCAST_LIST_REPLY, deliver_answer False), (DPS_UNSOLICITED_BCAST_LIST_REPLY, deliver_acked)}"
  shows "scanned_message t dps_send_bcast_list_reply dps_process_bcast_list_reply Dove_switch_list ok_switches switches_size
    (\<lambda>_. bcast_switch (DPS_MAX_BUFF_SZ - 56)) (\<lambda>_. (zero_pkd, 0)) fst (\<lambda>d _. got_switches d) (\<lambda>s. s) done_with"
proof (unfold_locales, goal_cases)
  case (5 req d lk w)
  then have "calc_pkt_len t req = Some (20 + switches_size d)"
    using assms by (auto simp: calc_pkt_len_def)
  with 5 show ?case
    using addr_lists_len_le [OF 5(1)] put_addr_lists_len carries_switches [OF 5(1)]
    by (intro transmits_first_carried) (auto simp: dps_send_bcast_list_reply_def ok_lists_def)
next
  case (6 lk w buf h n addr tbl)
  then show ?case
    using assms by (intro scan_with_buffer [of _ _ tbl]) (auto simp: dps_process_bcast_list_reply_def deliveries)
qed (use assms addr_lists_len_le addr_lists_len_dvd in \<open>auto simp: table_rows\<close>)

interpretation switches_msg: scanned_message DPS_BCAST_LIST_REPLY dps_send_bcast_list_reply dps_process_bcast_list_reply
  Dove_switch_list ok_switches switches_size "\<lambda>_. bcast_switch (DPS_MAX_BUFF_SZ - 56)" "\<lambda>_. (zero_pkd, 0)" fst "\<lambda>d _. got_switches d"
  "\<lambda>s. s" "deliver_answer False"
  by (rule switches_scanned) simp

interpretation unsolicited_switches_msg: scanned_message DPS_UNSOLICITED_BCAST_LIST_REPLY dps_send_bcast_list_reply
  dps_process_bcast_list_reply Dove_switch_list ok_switches switches_size "\<lambda>_. bcast_switch (DPS_MAX_BUFF_SZ - 56)"
  "\<lambda>_. (zero_pkd, 0)" fst "\<lambda>d _. got_switches d" "\<lambda>s. s" deliver_acked
  by (rule switches_scanned) simp

section \<open>Tunnel lists\<close>

lemma carries_tunnels:
  assumes ok: "ok_tunnel_list (fst room) l"
    and sw: "\<And>st v n b. D st \<Longrightarrow> sw \<lparr>tlv_ver = v, tlv_type = TUNNEL_LIST_TLV, tlv_len = n\<rparr> b st =
      took (f st) (dps_get_tunnel_list_tlv room b (g st))"
    and D: "\<And>st. D st \<Longrightarrow> tl_num_of_tunnels (g st) = 0" "\<And>st. D st \<Longrightarrow> f st (g st) = st"
    and R: "\<And>st y. D st \<Longrightarrow> got_tunnels l y \<Longrightarrow> R (f st y)"
  shows "carries (put_tunnels l) (tunnel_list_len l) sw D R"
proof (cases "tl_num_of_tunnels l = 0")
  case True
  then have n: "put_tunnels l = put (\<lambda>b. Some (b, 0))" "tunnel_list_len l = 0"
    by (simp_all add: put_tunnels_def dps_set_tunnel_list_tlv_def [abs_def] tunnel_list_len_def)
  have "R st" if "D st" for st
    using R [OF that, of "g st"] D [OF that] True ok by (simp add: got_tunnels_def ok_tunnel_list_def)
  then have "reads sw D [] R" by (auto simp: reads_def)
  then show ?thesis
    unfolding carries_def n by (rule_tac emits_mono [OF emits_put [OF writes_nothing]]) simp
next
  case False
  then show ?thesis
    using tunnel_list_tlv.carried [where x = "(room, l)" and sw = sw and D = D and g = g and f = f and R = R] ok sw R
    by (simp add: put_tunnels_def tunnel_list_len_def)
qed

definition ok_gateways :: "dps_client_hdr_t \<Rightarrow> dps_tunnel_list_t \<Rightarrow> bool" where
  "ok_gateways h d \<longleftrightarrow> ch_resp_status h = DPS_NO_ERR \<and> ok_tunnel_list 1168 d \<and> 20 + tunnel_list_len d \<le> DPS_MAX_BUFF_SZ"

lemma carries_gateways:
  assumes "ok_gateways h d"
  shows "carries (put_tunnels d) (tunnel_list_len d) (gw_list_switch (tunnel_space mem 52)) (\<lambda>st. st = zero_tunnel_list) (got_tunnels d)"
  using assms by (intro carries_tunnels [where room = "tunnel_space mem 52" and f = "\<lambda>_ y. y" and g = "\<lambda>st. st"])
    (auto simp: ok_gateways_def tunnel_space_cap gw_list_switch_def zero_tunnel_list_def)

lemma gateways_scanned:
  assumes "(t, done_with) \<in> {DPS_EXTERNAL_GW_LIST_REPLY, DPS_VLAN_GW_LIST_REPLY, DPS_MCAST_CTRL_GW_REPLY} \<times> {deliver_answer False} \<union>
    {DPS_UNSOLICITED_EXTERNAL_GW_LIST, DPS_UNSOLICITED_VLAN_GW_LIST} \<times> {deliver_acked}"
  shows "scanned_message t dps_send_gw_list dps_process_gw_list Tunnel_info ok_gateways tunnel_list_len
    (\<lambda>mem. gw_list_switch (tunnel_space mem 52)) (\<lambda>_. zero_tunnel_list) (\<lambda>d. d) (\<lambda>d _. got_tunnels d) (\<lambda>s. s) done_with"
proof (unfold_locales, goal_cases)
  case (5 req d lk w)
  let ?len = "if tl_num_of_tunnels d \<noteq> 0 then 4 + unat (tl_num_of_tunnels d) * 28 else 0"
  have len: "calc_pkt_len t req = Some (20 + ?len)"
    using 5 assms by (auto simp: calc_pkt_len_def)
  have c: "carries (\<lambda>s. if 20 + ?len \<noteq> 20 then put_tunnels d s else Some s) (tunnel_list_len d) (gw_list_switch (tunnel_space mem 52))
      (\<lambda>st. st = zero_tunnel_list) (got_tunnels d)" for mem
    using carries_gateways [OF 5(1)] 5(1) carries_cong [OF carries_skip refl, of "\<lambda>st. st = zero_tunnel_list" "\<lambda>st. st = zero_tunnel_list" "got_tunnels d"]
    by (auto simp: tunnel_list_len_def got_tunnels_def zero_tunnel_list_def ok_gateways_def ok_tunnel_list_def)
  show ?case
    using 5 len c alloc_buffer [OF 5(4)]
    by (intro transmits_last_carried [where body = "\<lambda>s. if 20 + ?len \<noteq> 20 then put_tunnels d s else Some s"])
       (auto simp: dps_send_gw_list_def ok_gateways_def)
next
  case (6 lk w buf h n addr tbl)
  then show ?case
    using assms by (intro scan_with_buffer [of _ _ tbl]) (auto simp: dps_process_gw_list_def deliveries)
next
  case (4 h d)
  then show ?case using tunnel_list_len_dvd [of 1168 d] by (auto simp: ok_gateways_def)
qed (use assms in \<open>auto simp: table_rows\<close>)

interpretation external_gw_msg: scanned_message DPS_EXTERNAL_GW_LIST_REPLY dps_send_gw_list dps_process_gw_list Tunnel_info ok_gateways
  tunnel_list_len "\<lambda>mem. gw_list_switch (tunnel_space mem 52)" "\<lambda>_. zero_tunnel_list" "\<lambda>d. d" "\<lambda>d _. got_tunnels d" "\<lambda>s. s" "deliver_answer False"
  by (rule gateways_scanned) simp

interpretation vlan_gw_msg: scanned_message DPS_VLAN_GW_LIST_REPLY dps_send_gw_list dps_process_gw_list Tunnel_info ok_gateways
  tunnel_list_len "\<lambda>mem. gw_list_switch (tunnel_space mem 52)" "\<lambda>_. zero_tunnel_list" "\<lambda>d. d" "\<lambda>d _. got_tunnels d" "\<lambda>s. s" "deliver_answer False"
  by (rule gateways_scanned) simp

interpretation mcast_ctrl_gw_msg: scanned_message DPS_MCAST_CTRL_GW_REPLY dps_send_gw_list dps_process_gw_list Tunnel_info ok_gateways
  tunnel_list_len "\<lambda>mem. gw_list_switch (tunnel_space mem 52)" "\<lambda>_. zero_tunnel_list" "\<lambda>d. d" "\<lambda>d _. got_tunnels d" "\<lambda>s. s" "deliver_answer False"
  by (rule gateways_scanned) simp

interpretation unsolicited_external_gw_msg: scanned_message DPS_UNSOLICITED_EXTERNAL_GW_LIST dps_send_gw_list dps_process_gw_list Tunnel_info
  ok_gateways tunnel_list_len "\<lambda>mem. gw_list_switch (tunnel_space mem 52)" "\<lambda>_. zero_tunnel_list" "\<lambda>d. d" "\<lambda>d _. got_tunnels d" "\<lambda>s. s" deliver_acked
  by (rule gateways_scanned) simp

interpretation unsolicited_vlan_gw_msg: scanned_message DPS_UNSOLICITED_VLAN_GW_LIST dps_send_gw_list dps_process_gw_list Tunnel_info
  ok_gateways tunnel_list_len "\<lambda>mem. gw_list_switch (tunnel_space mem 52)" "\<lambda>_. zero_tunnel_list" "\<lambda>d. d" "\<lambda>d _. got_tunnels d" "\<lambda>s. s" deliver_acked
  by (rule gateways_scanned) simp

section \<open>Tunnel registration\<close>

definition tunnel_reg_size :: "dps_tunnel_reg_dereg_t \<Rightarrow> nat" where
  "tunnel_reg_size d = tunnel_list_len (td_tunnel_info d) + client_addr_len (td_dps_client_addr d)"

definition ok_tunnel_reg :: "dps_client_hdr_t \<Rightarrow> dps_tunnel_reg_dereg_t \<Rightarrow> bool" where
  "ok_tunnel_reg h d \<longleftrightarrow> ch_resp_status h = DPS_NO_ERR \<and> ok_tunnel_list 1167 (td_tunnel_info d) \<and> wf_ip (td_dps_client_addr d) \<and>
     20 + tunnel_reg_size d \<le> DPS_MAX_BUFF_SZ"

definition got_tunnel_reg :: "dps_tunnel_reg_dereg_t \<Rightarrow> ip_addr_t \<Rightarrow> dps_tunnel_reg_dereg_t \<Rightarrow> bool" where
  "got_tunnel_reg d addr d' \<longleftrightarrow> got_tunnels (td_tunnel_info d) (td_tunnel_info d') \<and>
     got_client (td_dps_client_addr d) addr (td_dps_client_addr d')"

lemma carries_tunnel_reg:
  assumes ok: "ok_tunnel_reg h d"
  shows "carries (\<lambda>s. put_tunnels (td_tunnel_info d) s \<bind> put_client_addr (td_dps_client_addr d)) (tunnel_reg_size d)
    (tunnel_reg_switch (tunnel_space mem 76)) (\<lambda>st. st = \<lparr>td_dps_client_addr = addr, td_tunnel_info = zero_tunnel_list\<rparr>) (got_tunnel_reg d addr)"
  unfolding tunnel_reg_size_def
proof (rule carries_bind)
  let ?M = "\<lambda>st. td_dps_client_addr st = addr \<and> got_tunnels (td_tunnel_info d) (td_tunnel_info st)"
  show "carries (put_tunnels (td_tunnel_info d)) (tunnel_list_len (td_tunnel_info d)) (tunnel_reg_switch (tunnel_space mem 76))
      (\<lambda>st. st = \<lparr>td_dps_client_addr = addr, td_tunnel_info = zero_tunnel_list\<rparr>) ?M"
    using ok by (intro carries_tunnels [where room = "tunnel_space mem 76" and f = "\<lambda>st l. st\<lparr>td_tunnel_info := l\<rparr>" and g = td_tunnel_info])
      (auto simp: ok_tunnel_reg_def tunnel_space_cap tunnel_reg_switch_def zero_tunnel_list_def)
  show "carries (put_client_addr (td_dps_client_addr d)) (client_addr_len (td_dps_client_addr d)) (tunnel_reg_switch (tunnel_space mem 76)) ?M
      (got_tunnel_reg d addr)"
    using ok by (intro carries_client_addr [where f = "\<lambda>st a. st\<lparr>td_dps_client_addr := a\<rparr>" and g = td_dps_client_addr])
      (auto simp: ok_tunnel_reg_def tunnel_reg_switch_def got_tunnel_reg_def)
qed

lemma tunnel_reg_scanned:
  assumes "t \<in> {DPS_TUNNEL_REGISTER, DPS_TUNNEL_DEREGISTER}"
  shows "scanned_message t dps_send_tunnel_reg_dereg dps_process_tunnel_reg_dereg Tunnel_reg_dereg ok_tunnel_reg tunnel_reg_size
    (\<lambda>mem. tunnel_reg_switch (tunnel_space mem 76)) (\<lambda>addr. \<lparr>td_dps_client_addr = addr, td_tunnel_info = zero_tunnel_list\<rparr>)
    (\<lambda>d. d) got_tunnel_reg (\<lambda>s. s) deliver"
proof (unfold_locales, goal_cases)
  case (5 req d lk w)
  then obtain n where "calc_pkt_len t req = Some n" "20 < n"
    using assms by (auto simp: calc_pkt_len_def)
  with 5 show ?case
    by (intro transmits_last_carried [where body = "\<lambda>s. put_tunnels (td_tunnel_info d) s \<bind> put_client_addr (td_dps_client_addr d)"])
       (auto simp: dps_send_tunnel_reg_dereg_def carries_tunnel_reg ok_tunnel_reg_def)
next
  case (6 lk w buf h n addr tbl)
  then show ?case
    by (intro scan_with_buffer [of _ _ tbl]) (auto simp: dps_process_tunnel_reg_dereg_def deliveries)
next
  case (4 h d)
  then show ?case
    using tunnel_list_len_dvd [of 1167 "td_tunnel_info d"] client_addr_len_dvd by (auto simp: ok_tunnel_reg_def tunnel_reg_size_def)
qed (use assms in \<open>auto simp: table_rows\<close>)

interpretation tunnel_register_msg: scanned_message DPS_TUNNEL_REGISTER dps_send_tunnel_reg_dereg dps_process_tunnel_reg_dereg Tunnel_reg_dereg
  ok_tunnel_reg tunnel_reg_size "\<lambda>mem. tunnel_reg_switch (tunnel_space mem 76)"
  "\<lambda>addr. \<lparr>td_dps_client_addr = addr, td_tunnel_info = zero_tunnel_list\<rparr>" "\<lambda>d. d" got_tunnel_reg "\<lambda>s. s" deliver
  by (rule tunnel_reg_scanned) simp

interpretation tunnel_deregister_msg: scanned_message DPS_TUNNEL_DEREGISTER dps_send_tunnel_reg_dereg dps_process_tunnel_reg_dereg
  Tunnel_reg_dereg ok_tunnel_reg tunnel_reg_size "\<lambda>mem. tunnel_reg_switch (tunnel_space mem 76)"
  "\<lambda>addr. \<lparr>td_dps_client_addr = addr, td_tunnel_info = zero_tunnel_list\<rparr>" "\<lambda>d. d" got_tunnel_reg "\<lambda>s. s" deliver
  by (rule tunnel_reg_scanned) simp

end
