(* ===== verification/Dps_Group_Messages.thy ===== *)
theory Dps_Group_Messages
  imports Dps_Policy_Messages Dps_List_Messages
begin

text \<open>
  The requests that carry only the address of the client, VM migration and
  invalidation, multicast registration and the bulk policy list, as instances
  of the message contract.
\<close>

section \<open>General requests\<close>

text \<open>A heartbeat is acknowledged instead of being handed on.\<close>

definition acknowledge :: "'w dps_link \<Rightarrow> dps_client_hdr_t \<Rightarrow> dps_client_body \<Rightarrow> 'w dps_state \<Rightarrow> (u32 \<times> 'w dps_state) option" where
  "acknowledge lk h b st = do {
     (tbl, w) \<leftarrow> dps_client_create_general_ack lk h st;
     Some (DPS_SUCCESS, (tbl, lk_free lk w)) }"

definition request_types :: "u8 set" where
  "request_types = {DPS_BCAST_LIST_REQ, DPS_EXTERNAL_GW_LIST_REQ, DPS_VLAN_GW_LIST_REQ, DPS_INTERNAL_GW_REQ,
     DPS_VNID_POLICY_LIST_REQ, DPS_UNSOLICITED_VNID_DEL_REQ, DPS_MCAST_CTRL_GW_REQ}"

lemma client_addr_len_le: "client_addr_len a \<le> 24"
  by (simp add: client_addr_len_def)

lemma carries_gen_msg: "wf_ip a \<Longrightarrow> carries (put_client_addr a) (client_addr_len a) gen_msg_switch (\<lambda>st. st = addr) (got_client a addr)"
  by (rule carries_client_addr [where f = "\<lambda>_ a. a" and g = "\<lambda>a. a"]) (auto simp: gen_msg_switch_def)

lemma gen_msg_scanned:
  assumes "(t, done_with) \<in> request_types \<times> {deliver} \<union> {(DPS_CTRL_PLANE_HB, acknowledge)}"
  shows "scanned_message t dps_send_gen_msg_req dps_process_gen_msg_req Gen_msg_req (\<lambda>_. wf_ip) client_addr_len
    (\<lambda>_. gen_msg_switch) (\<lambda>addr. addr) (\<lambda>a. a) got_client (\<lambda>s. s) done_with"
proof (unfold_locales, goal_cases)
  case (5 req d lk w)
  then have "calc_pkt_len t req = Some (20 + client_addr_len d)"
    using assms by (auto simp: calc_pkt_len_def request_types_def)
  with 5 show ?case
    using client_addr_len_le [of d] by (intro transmits_first_carried) (auto simp: dps_send_gen_msg_req_def carries_gen_msg)
next
  case (6 lk w buf h n addr tbl)
  then show ?case
    using assms by (intro scan_with_buffer [of _ _ tbl])
      (auto simp: dps_process_gen_msg_req_def deliveries acknowledge_def request_types_def)
qed (use assms in \<open>auto simp: table_rows request_types_def client_addr_len_def\<close>)

interpretation policy_list_req_msg: scanned_message DPS_VNID_POLICY_LIST_REQ dps_send_gen_msg_req dps_process_gen_msg_req Gen_msg_req
  "\<lambda>_. wf_ip" client_addr_len "\<lambda>_. gen_msg_switch" "\<lambda>addr. addr" "\<lambda>a. a" got_client "\<lambda>s. s" deliver
  by (rule gen_msg_scanned) (simp add: request_types_def)

interpretation heartbeat_msg: scanned_message DPS_CTRL_PLANE_HB dps_send_gen_msg_req dps_process_gen_msg_req Gen_msg_req
  "\<lambda>_. wf_ip" client_addr_len "\<lambda>_. gen_msg_switch" "\<lambda>addr. addr" "\<lambda>a. a" got_client "\<lambda>s. s" acknowledge
  by (rule gen_msg_scanned) simp

section \<open>VM migration and invalidation\<close>

definition ok_migration :: "dps_vm_migration_event_t \<Rightarrow> bool" where
  "ok_migration d \<longleftrightarrow> ok_endpoint_info (vm_migrated_vm_info d) \<and> ok_loc_reply 1165 (vm_src_vm_loc d) \<and>
     20 + (ei_len (vm_migrated_vm_info d) + loc_size (vm_src_vm_loc d)) \<le> DPS_MAX_BUFF_SZ"

abbreviation migration_size :: "dps_vm_migration_event_t \<Rightarrow> nat" where
  "migration_size d \<equiv> ei_len (vm_migrated_vm_info d) + loc_size (vm_src_vm_loc d)"

abbreviation zero_migration :: dps_vm_migration_event_t where
  "zero_migration \<equiv> \<lparr>vm_migrated_vm_info = zero_endpoint_info, vm_src_vm_loc = zero_loc_reply\<rparr>"

definition got_migration :: "dps_vm_migration_event_t \<Rightarrow> dps_vm_migration_event_t \<Rightarrow> bool" where
  "got_migration d d' \<longleftrightarrow> vm_migrated_vm_info d' = recv_endpoint (vm_migrated_vm_info d) \<and>
     got_loc_reply (vm_src_vm_loc d) zero_loc_reply (vm_src_vm_loc d')"

lemma carries_migration:
  assumes ok: "ok_migration d"
  shows "carries (\<lambda>s. do {
      s \<leftarrow> put (dps_set_endpoint_info_tlv (vm_migrated_vm_info d)) s;
      put (dps_set_endpoint_loc_reply_tlv (vm_src_vm_loc d)) s }) (migration_size d)
    (vm_migration_switch (tunnel_space mem 128)) (\<lambda>st. st = zero_migration) (got_migration d)"
proof (rule carries_bind)
  let ?M = "\<lambda>st. st = zero_migration\<lparr>vm_migrated_vm_info := recv_endpoint (vm_migrated_vm_info d)\<rparr>"
  let ?sw = "vm_migration_switch (tunnel_space mem 128)"
  show "carries (put (dps_set_endpoint_info_tlv (vm_migrated_vm_info d))) (ei_len (vm_migrated_vm_info d)) ?sw (\<lambda>st. st = zero_migration) ?M"
    using ok by (intro endpoint_info_tlv.carried [where g = vm_migrated_vm_info and f = "\<lambda>st e. st\<lparr>vm_migrated_vm_info := e\<rparr>"])
      (auto simp: vm_migration_switch_def ok_migration_def recv_endpoint_def zero_endpoint_info_def)
  show "carries (put (dps_set_endpoint_loc_reply_tlv (vm_src_vm_loc d))) (loc_size (vm_src_vm_loc d)) ?sw ?M (got_migration d)"
    using loc_reply_tlv.carried [where x = "(tunnel_space mem 128, vm_src_vm_loc d)" and g = vm_src_vm_loc and sw = ?sw and D = ?M
        and f = "\<lambda>st e. st\<lparr>vm_src_vm_loc := e\<rparr>" and R = "got_migration d"] ok
    by (simp add: ok_migration_def tunnel_space_cap vm_migration_switch_def got_migration_def zero_loc_reply_def zero_tunnel_list_def)
qed

interpretation migration_msg: scanned_message DPS_VM_MIGRATION_EVENT dps_send_vm_migration_event dps_process_vm_migration_event
  Vm_migration_event "\<lambda>_. ok_migration" migration_size "\<lambda>mem. vm_migration_switch (tunnel_space mem 128)" "\<lambda>_. zero_migration"
  "\<lambda>d. d" "\<lambda>d _. got_migration d" "\<lambda>s. s" deliver
proof (unfold_locales, goal_cases)
  case (5 req d lk w)
  then have "calc_pkt_len DPS_VM_MIGRATION_EVENT req = Some (20 + migration_size d)"
    using calc_loc_reply_tlv [of 1165 "vm_src_vm_loc d"] by (auto simp: calc_pkt_len_def calc_endpoint_info ok_migration_def)
  with 5 show ?case
    by (intro transmits_first_carried) (auto simp: dps_send_vm_migration_event_def carries_migration ok_migration_def)
next
  case (6 lk w buf h n addr tbl)
  then show ?case
    by (intro scan_with_buffer [of _ _ tbl]) (auto simp: dps_process_vm_migration_event_def deliveries)
next
  case (4 h d)
  then show ?case using loc_size_dvd [of 1165 "vm_src_vm_loc d"] by (auto simp: ok_migration_def ei_len_def)
qed (auto simp: table_rows)

definition ok_invalidate :: "dps_epri_t \<Rightarrow> bool" where
  "ok_invalidate d \<longleftrightarrow> ok_epri 1151 d \<and> 20 + epri_tlv_len d \<le> DPS_MAX_BUFF_SZ"

lemma epri_tlv_len_dvd: "ok_epri cap d \<Longrightarrow> 4 dvd epri_tlv_len d"
  using tunnel_list_len_dvd [of cap "ep_tunnel_info d"] by (auto simp: ok_epri_def epri_tlv_len_def)

lemma carries_invalidate:
  assumes ok: "ok_invalidate d"
  shows "carries (put (dps_set_epri_tlv d)) (epri_tlv_len d) (vm_loc_switch (tunnel_space mem 520)) (\<lambda>st. st = zero_epri) (got_epri d)"
  using epri_tlv.carried [where x = "(tunnel_space mem 520, d)" and g = "\<lambda>st. st" and f = "\<lambda>_ y. y" and D = "\<lambda>st. st = zero_epri"
      and sw = "vm_loc_switch (tunnel_space mem 520)" and R = "got_epri d"] ok
  by (simp add: ok_invalidate_def tunnel_space_cap vm_loc_switch_def dst_epri_def zero_epri_def zero_tunnel_list_def)

interpretation invalidate_msg: scanned_message DPS_UNSOLICITED_VM_LOC_INFO dps_send_vm_loc_info dps_process_vm_loc_info
  Vm_invalidate_msg "\<lambda>_. ok_invalidate" epri_tlv_len "\<lambda>mem. vm_loc_switch (tunnel_space mem 520)" "\<lambda>_. zero_epri"
  "\<lambda>d. d" "\<lambda>d _. got_epri d" "\<lambda>_. DPS_SUCCESS" deliver_acked
proof (unfold_locales, goal_cases)
  case (5 req d lk w)
  then have "transmits (\<lambda>s. s) lk (send_header_last lk DPS_UNSOLICITED_VM_LOC_INFO (put (dps_set_epri_tlv d))) DPS_UNSOLICITED_VM_LOC_INFO
      req w (epri_tlv_len d) (\<lambda>p. \<forall>mem addr. reads (vm_loc_switch (tunnel_space mem 520)) (\<lambda>st. st = zero_epri) p (got_epri d))"
    by (intro transmits_last_carried) (auto simp: carries_invalidate ok_invalidate_def)
  with 5 show ?case
    using alloc_buffer [OF 5(4)] by (auto simp: transmits_def dps_send_vm_loc_info_def case_prod_unfold Let_def)
next
  case (6 lk w buf h n addr tbl)
  then show ?case
    by (intro scan_with_buffer [of _ _ tbl]) (auto simp: dps_process_vm_loc_info_def deliveries)
next
  case (4 h d)
  then show ?case using epri_tlv_len_dvd [of 1151 d] by (auto simp: ok_invalidate_def)
qed (auto simp: table_rows)

section \<open>Multicast registration\<close>

text \<open>The body loops of the two registration routines run once: the computed length is the length of one body.\<close>

lemma send_body_once:
  assumes "has_buffer lk w" and "emits body n P" and "0 < n" and "20 + n \<le> DPS_MAX_BUFF_SZ"
  shows "send_header_first lk e t (20 + n) (while_opt (\<lambda>(b, k). k < 20 + n) body) req w = send_header_first lk e t (20 + n) body req w"
proof -
  obtain rest where a: "dps_alloc_buff lk w = (Some (replicate 20 0 @ rest), snd (lk_malloc lk w))" "length rest = DPS_MAX_BUFF_SZ - 20"
    using alloc_buffer [OF assms(1)] by blast
  have "while_opt (\<lambda>(b, k). k < 20 + n) body (pkt_hdrb t h (20 + n) @ rest, 20) = body (pkt_hdrb t h (20 + n) @ rest, 20)" for h
    using emitsD [OF assms(2), of rest "pkt_hdrb t h (20 + n)"] a(2) assms(3,4)
    by (auto simp: while_opt_step while_opt_done)
  then show ?thesis
    by (simp add: send_header_first_def a set_pkt_hdr_image case_prod_unfold)
qed

definition mcast_sender_size :: "dps_mcast_sender_t \<Rightarrow> nat" where
  "mcast_sender_size d = ip_tlv_len (ms_tunnel_endpoint d) + ei_len (ms_mcast_src_vm d) + mcast_addr_len (ms_mcast_addr d) +
     client_addr_len (ms_dps_client_addr d)"

definition ok_mcast_sender :: "dps_mcast_sender_t \<Rightarrow> bool" where
  "ok_mcast_sender d \<longleftrightarrow> ok_ip (ms_tunnel_endpoint d) \<and> ok_endpoint_info (ms_mcast_src_vm d) \<and> ok_mcast_addr (ms_mcast_addr d) \<and>
     ma_mcast_addr_type (ms_mcast_addr d) \<noteq> MCAST_ADDR_V4_ICB_RANGE \<and> wf_ip (ms_dps_client_addr d)"

abbreviation zero_mcast_sender :: "ip_addr_t \<Rightarrow> dps_mcast_sender_t" where
  "zero_mcast_sender addr \<equiv> \<lparr>ms_tunnel_endpoint = zero_ip_addr, ms_mcast_src_vm = zero_endpoint_info,
     ms_mcast_addr = zero_mcast_addr, ms_dps_client_addr = addr\<rparr>"

definition got_mcast_sender :: "dps_mcast_sender_t \<Rightarrow> ip_addr_t \<Rightarrow> dps_mcast_sender_t \<Rightarrow> bool" where
  "got_mcast_sender d addr d' \<longleftrightarrow> ms_tunnel_endpoint d' = recv_ip (ms_tunnel_endpoint d) zero_ip_addr \<and>
     ms_mcast_src_vm d' = recv_endpoint (ms_mcast_src_vm d) \<and> ms_mcast_addr d' = recv_mcast_addr (ms_mcast_addr d) zero_mcast_addr \<and>
     got_client (ms_dps_client_addr d) addr (ms_dps_client_addr d')"

lemma mcast_sender_size: "4 dvd mcast_sender_size d" "mcast_sender_size d \<le> DPS_MAX_BUFF_SZ - 20" "0 < mcast_sender_size d"
  by (auto simp: mcast_sender_size_def ip_tlv_len_def ei_len_def mcast_addr_len_def client_addr_len_def)

definition mcast_sender_body :: "dps_mcast_sender_t \<Rightarrow> cursor \<Rightarrow> cursor option" where
  "mcast_sender_body d s = do {
     s \<leftarrow> put (dps_set_ip_tlv (ms_tunnel_endpoint d)) s;
     s \<leftarrow> put (dps_set_endpoint_info_tlv (ms_mcast_src_vm d)) s;
     s \<leftarrow> put (dps_set_mcast_addr_tlv (ms_mcast_addr d)) s;
     put_client_addr (ms_dps_client_addr d) s }"

lemma carries_mcast_sender:
  assumes ok: "ok_mcast_sender d"
  shows "carries (mcast_sender_body d) (mcast_sender_size d) mcast_sender_switch (\<lambda>st. st = zero_mcast_sender addr) (got_mcast_sender d addr)"
proof -
  let ?s1 = "(zero_mcast_sender addr)\<lparr>ms_tunnel_endpoint := recv_ip (ms_tunnel_endpoint d) zero_ip_addr\<rparr>"
  let ?s2 = "?s1\<lparr>ms_mcast_src_vm := recv_endpoint (ms_mcast_src_vm d)\<rparr>"
  let ?s3 = "?s2\<lparr>ms_mcast_addr := recv_mcast_addr (ms_mcast_addr d) zero_mcast_addr\<rparr>"
  have 1: "carries (put (dps_set_ip_tlv (ms_tunnel_endpoint d))) (ip_tlv_len (ms_tunnel_endpoint d)) mcast_sender_switch
      (\<lambda>st. st = zero_mcast_sender addr) (\<lambda>st. st = ?s1)"
    using ok by (intro ip_tlv.carried [where g = ms_tunnel_endpoint and f = "\<lambda>st a. st\<lparr>ms_tunnel_endpoint := a\<rparr>"])
      (auto simp: mcast_sender_switch_def ok_mcast_sender_def)
  have 2: "carries (put (dps_set_endpoint_info_tlv (ms_mcast_src_vm d))) (ei_len (ms_mcast_src_vm d)) mcast_sender_switch
      (\<lambda>st. st = ?s1) (\<lambda>st. st = ?s2)"
    using ok by (intro endpoint_info_tlv.carried [where g = ms_mcast_src_vm and f = "\<lambda>st e. st\<lparr>ms_mcast_src_vm := e\<rparr>"])
      (auto simp: mcast_sender_switch_def ok_mcast_sender_def recv_endpoint_def zero_endpoint_info_def)
  have "mcast_tlv_type (ms_mcast_addr d) \<in> {MCAST_ADDR_MAC_TLV, MCAST_ADDR_V4_TLV, MCAST_ADDR_V6_TLV}"
    using ok mcast_addr_type_cases [of "ma_mcast_addr_type (ms_mcast_addr d)"]
    by (auto simp: ok_mcast_sender_def ok_mcast_addr_def mcast_tlv_type_def)
  then have 3: "carries (put (dps_set_mcast_addr_tlv (ms_mcast_addr d))) (mcast_addr_len (ms_mcast_addr d)) mcast_sender_switch
      (\<lambda>st. st = ?s2) (\<lambda>st. st = ?s3)"
    using ok by (intro mcast_addr_tlv.carried [where g = ms_mcast_addr and f = "\<lambda>st a. st\<lparr>ms_mcast_addr := a\<rparr>"])
      (auto simp: mcast_sender_switch_def ok_mcast_sender_def)
  have 4: "carries (put_client_addr (ms_dps_client_addr d)) (client_addr_len (ms_dps_client_addr d)) mcast_sender_switch
      (\<lambda>st. st = ?s3) (got_mcast_sender d addr)"
    using ok by (intro carries_client_addr [where f = "\<lambda>st a. st\<lparr>ms_dps_client_addr := a\<rparr>" and g = ms_dps_client_addr])
      (auto simp: ok_mcast_sender_def mcast_sender_switch_def got_mcast_sender_def)
  show ?thesis
    unfolding mcast_sender_body_def [abs_def]
    by (rule carries_cong [OF carries_bind [OF 1 carries_bind [OF 2 carries_bind [OF 3 4]]]]) (auto simp: mcast_sender_size_def)
qed

lemma mcast_sender_scanned:
  assumes "t \<in> {DPS_MCAST_SENDER_REGISTRATION, DPS_MCAST_SENDER_DEREGISTRATION}"
  shows "scanned_message t dps_send_mcast_sender_reg_dereg dps_process_mcast_sender_reg_dereg Mcast_sender (\<lambda>_. ok_mcast_sender)
    mcast_sender_size (\<lambda>_. mcast_sender_switch) zero_mcast_sender (\<lambda>d. d) got_mcast_sender (\<lambda>s. s) deliver"
proof (unfold_locales, goal_cases)
  case (5 req d lk w)
  then have len: "calc_pkt_len t req = Some (20 + mcast_sender_size d)"
    using assms by (auto simp: calc_pkt_len_def mcast_sender_size_def calc_endpoint_info DPS_GET_IP_ADDR_TLV_LEN_def mcast_len_def
        ip_tlv_len_def mcast_addr_len_def ok_mcast_sender_def ok_ip_def)
  have "dps_send_mcast_sender_reg_dereg lk req w = send_header_first lk DPS_ERROR t (20 + mcast_sender_size d) (mcast_sender_body d) req w"
    using 5 len mcast_sender_size [of d] send_body_once [OF 5(4) carries_mcast_sender [OF 5(1), unfolded carries_def]]
    by (simp add: dps_send_mcast_sender_reg_dereg_def mcast_sender_body_def [abs_def])
  with 5 show ?case
    using mcast_sender_size [of d] by (intro transmits_first_carried [where body = "mcast_sender_body d"]) (auto simp: carries_mcast_sender)
next
  case (6 lk w buf h n addr tbl)
  then show ?case
    by (intro scan_with_buffer [of _ _ tbl]) (auto simp: dps_process_mcast_sender_reg_dereg_def deliveries)
qed (use assms mcast_sender_size in \<open>auto simp: table_rows\<close>)

interpretation mcast_register_msg: scanned_message DPS_MCAST_SENDER_REGISTRATION dps_send_mcast_sender_reg_dereg
  dps_process_mcast_sender_reg_dereg Mcast_sender "\<lambda>_. ok_mcast_sender" mcast_sender_size "\<lambda>_. mcast_sender_switch" zero_mcast_sender
  "\<lambda>d. d" got_mcast_sender "\<lambda>s. s" deliver
  by (rule mcast_sender_scanned) simp

interpretation mcast_deregister_msg: scanned_message DPS_MCAST_SENDER_DEREGISTRATION dps_send_mcast_sender_reg_dereg
  dps_process_mcast_sender_reg_dereg Mcast_sender "\<lambda>_. ok_mcast_sender" mcast_sender_size "\<lambda>_. mcast_sender_switch" zero_mcast_sender
  "\<lambda>d. d" got_mcast_sender "\<lambda>s. s" deliver
  by (rule mcast_sender_scanned) simp

definition mcast_receiver_size :: "dps_mcast_receiver_t \<Rightarrow> nat" where
  "mcast_receiver_size d = ip_tlv_len (mr_tunnel_endpoint d) + grp_rec_len (mr_mcast_group_rec d) + client_addr_len (mr_dps_client_addr d)"

definition ok_mcast_receiver :: "dps_mcast_receiver_t \<Rightarrow> bool" where
  "ok_mcast_receiver d \<longleftrightarrow> ok_ip (mr_tunnel_endpoint d) \<and> ok_grp_rec (DPS_MAX_BUFF_SZ - 124) (mr_mcast_group_rec d) \<and>
     wf_ip (mr_dps_client_addr d) \<and> 20 + mcast_receiver_size d \<le> DPS_MAX_BUFF_SZ"

abbreviation zero_mcast_receiver :: "ip_addr_t \<Rightarrow> dps_mcast_receiver_t" where
  "zero_mcast_receiver addr \<equiv> \<lparr>mr_tunnel_endpoint = zero_ip_addr, mr_dps_client_addr = addr, mr_mcast_group_rec =
     \<lparr>mg_mcast_addr = zero_mcast_addr, mg_num_of_srcs = 0, mg_family = 0, mg_src_addr = []\<rparr>\<rparr>"

definition got_mcast_receiver :: "dps_mcast_receiver_t \<Rightarrow> ip_addr_t \<Rightarrow> dps_mcast_receiver_t \<Rightarrow> bool" where
  "got_mcast_receiver d addr d' \<longleftrightarrow> mr_tunnel_endpoint d' = recv_ip (mr_tunnel_endpoint d) zero_ip_addr \<and>
     got_grp_rec (mr_mcast_group_rec d) (mr_mcast_group_rec (zero_mcast_receiver addr)) (mr_mcast_group_rec d') \<and>
     got_client (mr_dps_client_addr d) addr (mr_dps_client_addr d')"

definition mcast_receiver_body :: "dps_mcast_receiver_t \<Rightarrow> cursor \<Rightarrow> cursor option" where
  "mcast_receiver_body d s = do {
     s \<leftarrow> put (dps_set_ip_tlv (mr_tunnel_endpoint d)) s;
     s \<leftarrow> put (dps_set_mcast_grp_rec_tlv (mr_mcast_group_rec d)) s;
     put_client_addr (mr_dps_client_addr d) s }"

lemma mcast_receiver_size: "4 dvd mcast_receiver_size d" "0 < mcast_receiver_size d"
  by (auto simp: mcast_receiver_size_def ip_tlv_len_def grp_rec_len_def srcs_len_def mcast_addr_len_def client_addr_len_def)

lemma carries_mcast_receiver:
  assumes ok: "ok_mcast_receiver d"
  shows "carries (mcast_receiver_body d) (mcast_receiver_size d) (mcast_receiver_switch (DPS_MAX_BUFF_SZ - 124))
    (\<lambda>st. st = zero_mcast_receiver addr) (got_mcast_receiver d addr)"
proof -
  let ?sw = "mcast_receiver_switch (DPS_MAX_BUFF_SZ - 124)" and ?g = "mr_mcast_group_rec (zero_mcast_receiver addr)"
  let ?s1 = "(zero_mcast_receiver addr)\<lparr>mr_tunnel_endpoint := recv_ip (mr_tunnel_endpoint d) zero_ip_addr\<rparr>"
  let ?M = "\<lambda>st. \<exists>g. st = ?s1\<lparr>mr_mcast_group_rec := g\<rparr> \<and> got_grp_rec (mr_mcast_group_rec d) ?g g"
  have 1: "carries (put (dps_set_ip_tlv (mr_tunnel_endpoint d))) (ip_tlv_len (mr_tunnel_endpoint d)) ?sw
      (\<lambda>st. st = zero_mcast_receiver addr) (\<lambda>st. st = ?s1)"
    using ok by (intro ip_tlv.carried [where g = mr_tunnel_endpoint and f = "\<lambda>st a. st\<lparr>mr_tunnel_endpoint := a\<rparr>"])
      (auto simp: mcast_receiver_switch_def ok_mcast_receiver_def)
  have 2: "carries (put (dps_set_mcast_grp_rec_tlv (mr_mcast_group_rec d))) (grp_rec_len (mr_mcast_group_rec d)) ?sw (\<lambda>st. st = ?s1) ?M"
    using grp_rec_tlv.carried [where x = "(DPS_MAX_BUFF_SZ - 124, mr_mcast_group_rec d)" and g = mr_mcast_group_rec and sw = ?sw
        and f = "\<lambda>st g. st\<lparr>mr_mcast_group_rec := g\<rparr>" and D = "\<lambda>st. st = ?s1" and R = ?M] ok
    by (simp add: mcast_receiver_switch_def ok_mcast_receiver_def)
  have 3: "carries (put_client_addr (mr_dps_client_addr d)) (client_addr_len (mr_dps_client_addr d)) ?sw ?M (got_mcast_receiver d addr)"
    using ok by (intro carries_client_addr [where f = "\<lambda>st a. st\<lparr>mr_dps_client_addr := a\<rparr>" and g = mr_dps_client_addr])
      (auto simp: ok_mcast_receiver_def mcast_receiver_switch_def got_mcast_receiver_def)
  show ?thesis
    unfolding mcast_receiver_body_def [abs_def]
    by (rule carries_cong [OF carries_bind [OF 1 carries_bind [OF 2 3]]]) (auto simp: mcast_receiver_size_def)
qed

lemma calc_grp_rec:
  assumes "ok_grp_rec cap g"
  shows "4 + mcast_len (mg_mcast_addr g) + (if mg_num_of_srcs g \<noteq> 0 then
      (if mg_family g = AF_INET then 4 + unat (mg_num_of_srcs g) * 4 else 0) +
      (if mg_family g = AF_INET6 then 4 + unat (mg_num_of_srcs g) * 16 else 0) else 0) = grp_rec_len g"
  using assms by (auto simp: ok_grp_rec_def grp_rec_len_def srcs_len_def mcast_len_def mcast_addr_len_def)

lemma mcast_receiver_scanned:
  assumes "t \<in> {DPS_MCAST_RECEIVER_JOIN, DPS_MCAST_RECEIVER_LEAVE}"
  shows "scanned_message t dps_send_mcast_receiver_join_leave dps_process_mcast_receiver_join_leave Mcast_receiver (\<lambda>_. ok_mcast_receiver)
    mcast_receiver_size (\<lambda>_. mcast_receiver_switch (DPS_MAX_BUFF_SZ - 124)) zero_mcast_receiver (\<lambda>d. d) got_mcast_receiver (\<lambda>s. s) deliver"
proof (unfold_locales, goal_cases)
  case (5 req d lk w)
  then have len: "calc_pkt_len t req = Some (20 + mcast_receiver_size d)"
    using assms calc_grp_rec [of "DPS_MAX_BUFF_SZ - 124" "mr_mcast_group_rec d"]
    by (auto simp: calc_pkt_len_def mcast_receiver_size_def DPS_GET_IP_ADDR_TLV_LEN_def ip_tlv_len_def ok_mcast_receiver_def ok_ip_def Let_def)
  have "dps_send_mcast_receiver_join_leave lk req w =
      send_header_first lk DPS_ERROR t (20 + mcast_receiver_size d) (mcast_receiver_body d) req w"
    using 5 len mcast_receiver_size [of d] send_body_once [OF 5(4) carries_mcast_receiver [OF 5(1), unfolded carries_def]]
    by (simp add: dps_send_mcast_receiver_join_leave_def mcast_receiver_body_def [abs_def] ok_mcast_receiver_def)
  with 5 show ?case
    using carries_mcast_receiver [OF 5(1)] by (intro transmits_first_carried [where body = "mcast_receiver_body d"])
      (auto simp: ok_mcast_receiver_def)
next
  case (6 lk w buf h n addr tbl)
  then show ?case
    by (intro scan_with_buffer [of _ _ tbl]) (auto simp: dps_process_mcast_receiver_join_leave_def deliveries)
qed (use assms mcast_receiver_size in \<open>auto simp: table_rows ok_mcast_receiver_def\<close>)

interpretation mcast_join_msg: scanned_message DPS_MCAST_RECEIVER_JOIN dps_send_mcast_receiver_join_leave
  dps_process_mcast_receiver_join_leave Mcast_receiver "\<lambda>_. ok_mcast_receiver" mcast_receiver_size
  "\<lambda>_. mcast_receiver_switch (DPS_MAX_BUFF_SZ - 124)" zero_mcast_receiver "\<lambda>d. d" got_mcast_receiver "\<lambda>s. s" deliver
  by (rule mcast_receiver_scanned) simp

interpretation mcast_leave_msg: scanned_message DPS_MCAST_RECEIVER_LEAVE dps_send_mcast_receiver_join_leave
  dps_process_mcast_receiver_join_leave Mcast_receiver "\<lambda>_. ok_mcast_receiver" mcast_receiver_size
  "\<lambda>_. mcast_receiver_switch (DPS_MAX_BUFF_SZ - 124)" zero_mcast_receiver "\<lambda>d. d" got_mcast_receiver "\<lambda>s. s" deliver
  by (rule mcast_receiver_scanned) simp

section \<open>The bulk policy list\<close>

text \<open>The receiver's buffer has room for 4089 rules.\<close>

definition ok_bulk :: "dps_bulk_vnid_policy_t \<Rightarrow> bool" where
  "ok_bulk d \<longleftrightarrow> wf_bulk d \<and> length (bp_src_dst_vnid d) \<le> 4089"

text \<open>The permit rules arrive; of the deny rules only the number does.\<close>

definition got_bulk :: "dps_bulk_vnid_policy_t \<Rightarrow> dps_bulk_vnid_policy_t \<Rightarrow> bool" where
  "got_bulk d d' \<longleftrightarrow> bp_num_permit_rules d' = bp_num_permit_rules d \<and> bp_num_deny_rules d' = bp_num_deny_rules d \<and>
     take (unat (bp_num_permit_rules d)) (bp_src_dst_vnid d') = take (unat (bp_num_permit_rules d)) (bp_src_dst_vnid d)"

lemma take_of_take_append: "take k xs = as @ bs \<Longrightarrow> length as \<le> k \<Longrightarrow> take (length as) xs = as"
  by (metis append_eq_conv_conj min.absorb1 take_take)

lemma permits_read:
  assumes "denies_read (take n rs) ds (rs', k)" and "n \<le> length rs"
  shows "take n rs' = take n rs"
proof -
  obtain gs where "take (length (take n rs @ gs)) rs' = take n rs @ gs"
    using assms(1) by (auto simp: denies_read_def bulk_read_def)
  from take_of_take_append [OF this] assms(2) show ?thesis by simp
qed

lemma bulk_message:
  assumes t: "(t, done_with) \<in> {(DPS_VNID_POLICY_LIST_REPLY, deliver_answer False), (DPS_UNSOLICITED_VNID_POLICY_LIST, deliver_acked)}"
  shows "dps_message t dps_send_bulk_policy_xfer dps_process_bulk_policy_xfer Bulk_vnid_policy (\<lambda>_. ok_bulk) bulk_len (\<lambda>d p. p = bulk_img d)
    (\<lambda>d _. got_bulk d) (\<lambda>s. s) done_with"
proof (unfold_locales, goal_cases)
  case (4 req d lk w)
  then have "calc_pkt_len t req = Some (20 + bulk_len d)"
    using t by (auto simp: calc_pkt_len_def bulk_len_def)
  with 4 show ?case
    using transmits_header_first [OF 4(4) emits_put [OF writes_bulk], of d "20 + bulk_len d" DPS_ERROR_NO_RESOURCES t req]
    by (simp add: transmits_def dps_send_bulk_policy_xfer_def ok_bulk_def wf_bulk_def bulk_len_def)
next
  case (5 h0 d p lk w addr h junk tbl)
  obtain mem where mem: "\<And>f. with_client_buff lk f (tbl, w) = do {
      (ret, (tbl, w)) \<leftarrow> f mem (tbl, snd (lk_malloc lk w)); Some (ret, (tbl, lk_free lk w)) }"
    using with_buffer [OF 5(4), of tbl] by blast
  have ok: "wf_bulk d" "length (bp_src_dst_vnid d) \<le> fst (rules_space mem 52)"
    using 5(1) by (auto simp: ok_bulk_def rules_space_def)
  obtain d' where g: "dps_get_bulk_policy_xfer (rules_space mem 52) (p @ junk) \<lparr>bp_num_permit_rules = 0, bp_num_deny_rules = 0,
      bp_src_dst_vnid = []\<rparr> = Some (d', bulk_len d)" "got_bulk d d'"
    using get_bulk_img [OF ok, of junk "\<lparr>bp_num_permit_rules = 0, bp_num_deny_rules = 0, bp_src_dst_vnid = []\<rparr>"] 5(2) ok(1)
    by (auto simp: got_bulk_def wf_bulk_def dest: permits_read)
  have n: "4 dvd bulk_len d" "20 + bulk_len d \<le> DPS_MAX_BUFF_SZ"
    using 5(1) by (auto simp: bulk_len_def ok_bulk_def wf_bulk_def)
  show ?case
    using g t by (intro exI [of _ d'])
      (auto simp: dps_process_bulk_policy_xfer_def packet_hdr [OF n] mem from_off_def deliveries recv_hdr_def)
qed (use t in \<open>auto simp: table_rows\<close>)

interpretation bulk_reply_msg: dps_message DPS_VNID_POLICY_LIST_REPLY dps_send_bulk_policy_xfer dps_process_bulk_policy_xfer Bulk_vnid_policy
  "\<lambda>_. ok_bulk" bulk_len "\<lambda>d p. p = bulk_img d" "\<lambda>d _. got_bulk d" "\<lambda>s. s" "deliver_answer False"
  by (rule bulk_message) simp

interpretation unsolicited_bulk_msg: dps_message DPS_UNSOLICITED_VNID_POLICY_LIST dps_send_bulk_policy_xfer dps_process_bulk_policy_xfer
  Bulk_vnid_policy "\<lambda>_. ok_bulk" bulk_len "\<lambda>d p. p = bulk_img d" "\<lambda>d _. got_bulk d" "\<lambda>s. s" deliver_acked
  by (rule bulk_message) simp

end
