(* ===== verification/Dps_Control.thy ===== *)
theory Dps_Control
  imports Dps_Group_Messages
begin

text \<open>
  What the dispatchers do around the messages: acknowledgements and the
  retransmissions they stop, the statistics, and the buffers.
\<close>

section \<open>Acknowledgements\<close>

lemma sent_hdr_query_id: "ch_query_id h \<noteq> 0 \<Longrightarrow> sent_hdr lk h w = ((if lk_server lk then h else h\<lparr>ch_transaction_type := DPS_TRANSACTION_NORMAL\<rparr>), w)"
  by (simp add: sent_hdr_def)

definition ack_packet :: "'w dps_link \<Rightarrow> dps_client_hdr_t \<Rightarrow> bytes" where
  "ack_packet lk h = pkt_hdrb (ch_type (ack_hdr h)) (if lk_server lk then ack_hdr h
     else (ack_hdr h)\<lparr>ch_transaction_type := DPS_TRANSACTION_NORMAL\<rparr>) 20"

lemma ack_type: "ch_type (ack_hdr h) = DPS_GENERAL_ACK \<or> ch_type (ack_hdr h) = DPS_REG_DEREGISTER_ACK"
  by (simp add: ack_hdr_def)

lemma ack_sent:
  assumes "ch_query_id h \<noteq> 0" and "may_send lk w" and "length tbl = unat DPS_MAX_MSG_TYPE"
  shows "dps_client_create_general_ack lk h (tbl, w) =
    (let (status, w2) = lk_xmit lk (ack_packet lk h) (ch_reply_addr h) 0 w; i = unat (ch_type (ack_hdr h))
     in Some (tbl[i := count_sent status (tbl ! i)], w2))"
proof -
  have q: "ch_query_id (ack_hdr h) = ch_query_id h" "ch_reply_addr (ack_hdr h) = ch_reply_addr h" by (simp_all add: ack_hdr_def)
  have s: "dps_send_general_ack lk \<lparr>cd_context = 0, cd_hdr = ack_hdr h, cd_body = No_body\<rparr> w =
      (case lk_xmit lk (ack_packet lk h) (ch_reply_addr h) 0 w of (status, w2) \<Rightarrow>
        Some (status, if lk_server lk then ack_hdr h else (ack_hdr h)\<lparr>ch_transaction_type := DPS_TRANSACTION_NORMAL\<rparr>, w2))"
    using set_pkt_hdr_image [of lk "ch_type (ack_hdr h)" "ack_hdr h" 20 "[]" w] assms(1)
    by (auto simp: dps_send_general_ack_def sent_hdr_query_id q ack_packet_def dps_protocol_xmit_def slots_def case_prod_unfold)
  show ?thesis
    using assms ack_type [of h] s
    by (auto simp: dps_client_create_general_ack_def dps_protocol_client_send_def may_send_def valid_type_iff bump_def
        dps_send_func_tbl_def case_prod_unfold Let_def)
qed

lemma ack_received:
  fixes lk' :: "'v dps_link"
  assumes "has_buffer lk' w'"
  shows "dps_process_rcvd_pkt lk' (ack_packet lk h @ junk) addr (tbl', w') = count_rcvd (ch_type (ack_hdr h)) (deliver_answer True lk'
    (zero_hdr\<lparr>ch_type := ch_type (ack_hdr h), ch_sub_type := ch_type h, ch_vnid := ch_vnid h, ch_query_id := ch_query_id h,
       ch_client_id := ch_client_id h, ch_transaction_type := (if lk_server lk then ch_transaction_type h else DPS_TRANSACTION_NORMAL),
       ch_resp_status := DPS_NO_ERR, ch_reply_addr := addr\<rparr>) No_body (tbl', snd (lk_malloc lk' w')))"
proof -
  obtain mem where mem: "\<And>f. with_client_buff lk' f (tbl', w') = do {
      (ret, (tbl, w)) \<leftarrow> f mem (tbl', snd (lk_malloc lk' w')); Some (ret, (tbl, lk_free lk' w)) }"
    using with_buffer [OF assms, of tbl'] by blast
  have ty: "ld8 1 (ack_packet lk h @ junk) = Some (ch_type (ack_hdr h))"
    by (simp add: ack_packet_def pkt_hdrb_def ld8_def)
  have row: "valid_type (ch_type (ack_hdr h))" "snd (dps_recv_func_tbl lk' ! unat (ch_type (ack_hdr h))) = Some (dps_process_general_ack lk')"
    using ack_type [of h] by (auto simp: table_rows)
  have "dps_get_pkt_hdr (ack_packet lk h @ junk) zero_hdr = Some (zero_hdr\<lparr>ch_type := ch_type (ack_hdr h), ch_sub_type := ch_type h,
      ch_vnid := ch_vnid h, ch_query_id := ch_query_id h, ch_client_id := ch_client_id h, ch_transaction_type :=
        (if lk_server lk then ch_transaction_type h else DPS_TRANSACTION_NORMAL), ch_resp_status := DPS_NO_ERR\<rparr>, 0)"
    using packet_hdr(1) [of 0 "ch_type (ack_hdr h)"] by (auto simp: ack_packet_def recv_hdr_def ack_hdr_def zero_hdr_def)
  with ty show ?thesis
    by (simp add: dps_process_rcvd_pkt_def row dps_process_general_ack_def mem deliveries count_rcvd_def zero_hdr_def)
qed

section \<open>Buffers\<close>

text \<open>
  \<open>accounts lk used\<close>: \<open>used\<close> counts the buffers in use: an
  allocation that succeeds adds one, freeing takes one away, and nothing else
  the packet code calls changes the number.
\<close>

definition accounts :: "'w dps_link \<Rightarrow> ('w \<Rightarrow> int) \<Rightarrow> bool" where
  "accounts lk used \<longleftrightarrow>
     (\<forall>w. used (snd (lk_malloc lk w)) = used w + (if fst (lk_malloc lk w) = None then 0 else 1)) \<and>
     (\<forall>w. used (lk_free lk w) = used w - 1) \<and>
     (\<forall>w. used (snd (lk_query_id lk w)) = used w) \<and>
     (\<forall>pkt addr context w. used (snd (lk_xmit lk pkt addr context w)) = used w) \<and>
     (\<forall>qid w. used (snd (lk_timer_stop lk qid w)) = used w) \<and>
     (\<forall>msg w. used (lk_deliver lk msg w) = used w)"

definition send_keeps :: "('w \<Rightarrow> int) \<Rightarrow> 'w sender \<Rightarrow> bool" where
  "send_keeps used f \<longleftrightarrow> (\<forall>req w st h w'. f req w = Some (st, h, w') \<longrightarrow> used w' = used w)"

definition keeps :: "('w \<Rightarrow> int) \<Rightarrow> ('w dps_state \<Rightarrow> (u32 \<times> 'w dps_state) option) \<Rightarrow> bool" where
  "keeps used f \<longleftrightarrow> (\<forall>s ret s'. f s = Some (ret, s') \<longrightarrow> used (snd s') = used (snd s))"

named_theorems balance \<open>routines that give back the buffers they take\<close>

lemma alloc_used:
  assumes "accounts lk used" and "dps_alloc_buff lk w = (b, w')"
  shows "used w' = used w + (if b = None then 0 else 1)"
proof -
  obtain m w1 where "lk_malloc lk w = (m, w1)" by fastforce
  moreover have "used (snd (lk_malloc lk w)) = used w + (if fst (lk_malloc lk w) = None then 0 else 1)"
    using assms(1) by (simp only: accounts_def)
  ultimately show ?thesis using assms(2) by (auto simp: dps_alloc_buff_def split: option.splits)
qed

lemma set_pkt_hdr_used:
  assumes "accounts lk used" and "dps_set_pkt_hdr lk t h len b w = Some (s, h', w')"
  shows "used w' = used w"
proof -
  have q: "used (snd (lk_query_id lk w)) = used w" using assms(1) by (simp add: accounts_def)
  then show ?thesis
    using assms(2) by (cases "lk_query_id lk w") (auto simp: dps_set_pkt_hdr_def bind_eq_Some_conv Let_def split: if_splits)
qed

lemma xmit_used:
  assumes "accounts lk used" and "dps_protocol_xmit lk b n a c w = Some (st, w')"
  shows "used w' = used w"
proof -
  have "used (snd (lk_xmit lk pkt a c w)) = used w" for pkt using assms(1) by (simp add: accounts_def)
  then show ?thesis using assms(2) by (auto simp: dps_protocol_xmit_def bind_eq_Some_conv dest: sym [of _ "(st, w')"]) (metis snd_conv)
qed

lemma send_header_first_used [balance]:
  assumes a: "accounts lk used"
  shows "send_keeps used (send_header_first lk e t len body)"
  unfolding send_keeps_def
proof (intro allI impI)
  fix req w st h w' assume s: "send_header_first lk e t len body req w = Some (st, h, w')"
  have f: "used (lk_free lk x) = used x - 1" for x using a by (simp add: accounts_def)
  obtain b w1 where al: "dps_alloc_buff lk w = (b, w1)" by fastforce
  show "used w' = used w"
    using s alloc_used [OF a al] by (auto simp: send_header_first_def al f bind_eq_Some_conv split: option.splits
        dest!: set_pkt_hdr_used [OF a] xmit_used [OF a])
qed

lemma send_header_last_used [balance]:
  assumes a: "accounts lk used"
  shows "send_keeps used (send_header_last lk t body)"
  unfolding send_keeps_def
proof (intro allI impI)
  fix req w st h w' assume s: "send_header_last lk t body req w = Some (st, h, w')"
  have f: "used (lk_free lk x) = used x - 1" for x using a by (simp add: accounts_def)
  obtain b w1 where al: "dps_alloc_buff lk w = (b, w1)" by fastforce
  show "used w' = used w"
    using s alloc_used [OF a al] by (auto simp: send_header_last_def al f bind_eq_Some_conv split: option.splits
        dest!: set_pkt_hdr_used [OF a] xmit_used [OF a])
qed

lemma send_keepsD: "send_keeps used f \<Longrightarrow> f req w = Some (st, h, w') \<Longrightarrow> used w' = used w"
  by (simp add: send_keeps_def)

lemma send_routines_keep:
  assumes a: "accounts lk used"
  shows
    "send_keeps used (dps_send_endpoint_loc_req lk)"
    "send_keeps used (dps_send_endpoint_loc_reply lk)"
    "send_keeps used (dps_send_endpoint_update lk)"
    "send_keeps used (dps_send_endpoint_update_reply lk)"
    "send_keeps used (dps_send_policy_req lk)"
    "send_keeps used (dps_send_addr_resolve lk)"
    "send_keeps used (dps_send_internal_gw_reply lk)"
    "send_keeps used (dps_send_gen_msg_req lk)"
    "send_keeps used (dps_send_bcast_list_reply lk)"
    "send_keeps used (dps_send_bulk_policy_xfer lk)"
    "send_keeps used (dps_send_gw_list lk)"
    "send_keeps used (dps_send_tunnel_reg_dereg lk)"
    "send_keeps used (dps_send_vm_migration_event lk)"
    "send_keeps used (dps_send_mcast_sender_reg_dereg lk)"
    "send_keeps used (dps_send_mcast_receiver_join_leave lk)"
    "send_keeps used (dps_send_mcast_receiver_ds_list lk)"
  unfolding send_keeps_def dps_send_endpoint_loc_req_def dps_send_endpoint_loc_reply_def dps_send_endpoint_update_def dps_send_endpoint_update_reply_def dps_send_policy_req_def dps_send_addr_resolve_def dps_send_internal_gw_reply_def dps_send_gen_msg_req_def dps_send_bcast_list_reply_def dps_send_bulk_policy_xfer_def dps_send_gw_list_def dps_send_tunnel_reg_dereg_def dps_send_vm_migration_event_def dps_send_mcast_sender_reg_dereg_def dps_send_mcast_receiver_join_leave_def dps_send_mcast_receiver_ds_list_def
  by (auto simp: bind_eq_Some_conv split: dps_client_body.splits if_splits option.splits
      dest: send_keepsD [OF send_header_first_used [OF a]] send_keepsD [OF send_header_last_used [OF a]])

lemma send_others_keep:
  assumes a: "accounts lk used"
  shows "send_keeps used (dps_send_policy_reply lk)" "send_keeps used (dps_send_vm_loc_info lk)" "send_keeps used (dps_send_general_ack lk)"
    "send_keeps used (dps_send_policy_invalidate lk)" "send_keeps used (dps_send_addr_reply lk)" "send_keeps used (dps_noop_func lk)"
proof -
  have n: "fst (dps_alloc_buff lk w) = None \<Longrightarrow> used (snd (dps_alloc_buff lk w)) = used w" for w
    using alloc_used [OF a, of w] by (cases "dps_alloc_buff lk w") auto
  show "send_keeps used (dps_send_policy_reply lk)" "send_keeps used (dps_send_vm_loc_info lk)" "send_keeps used (dps_send_general_ack lk)"
      "send_keeps used (dps_send_policy_invalidate lk)" "send_keeps used (dps_send_addr_reply lk)" "send_keeps used (dps_noop_func lk)"
    unfolding send_keeps_def dps_send_policy_reply_def dps_send_vm_loc_info_def dps_send_general_ack_def dps_send_policy_invalidate_def
      dps_send_addr_reply_def dps_noop_func_def
    by (auto simp: bind_eq_Some_conv n split: dps_client_body.splits option.splits dest: send_keepsD [OF send_header_first_used [OF a]]
        send_keepsD [OF send_header_last_used [OF a]] dest!: set_pkt_hdr_used [OF a] xmit_used [OF a])
qed

lemma send_functions_keep:
  assumes a: "accounts lk used" and i: "i < length (dps_send_func_tbl lk)" and row: "snd (dps_send_func_tbl lk ! i) = Some f"
  shows "send_keeps used f"
proof -
  have "\<forall>x \<in> set (dps_send_func_tbl lk). \<forall>f. snd x = Some f \<longrightarrow> send_keeps used f"
    unfolding dps_send_func_tbl_def using send_routines_keep [OF a] send_others_keep [OF a] by simp
  then show ?thesis using nth_mem [OF i] row by blast
qed

lemma client_send_keeps:
  assumes a: "accounts lk used" and s: "dps_protocol_client_send lk msg (tbl, w) = Some (ret, h, (tbl', w'))"
  shows "used w' = used w"
proof -
  have "unat t < length (dps_send_func_tbl lk)" if "valid_type t" for t
    using that by (simp add: valid_type_iff dps_send_func_tbl_def)
  then show ?thesis
    using s by (auto simp: dps_protocol_client_send_def bind_eq_Some_conv split: if_splits
        dest!: send_keepsD [OF send_functions_keep [OF a]])
qed

lemma general_ack_keeps:
  assumes "accounts lk used" and "dps_client_create_general_ack lk h st = Some st'"
  shows "used (snd st') = used (snd st)"
  using assms(2) client_send_keeps [OF assms(1)]
  by (cases st; cases st') (auto simp: dps_client_create_general_ack_def bind_eq_Some_conv split: if_splits)

text \<open>The receive routines: what happens between allocating and freeing the client buffer keeps the number.\<close>

lemma keepsD: "keeps used f \<Longrightarrow> f st = Some (ret, st') \<Longrightarrow> used (snd st') = used (snd st)"
  unfolding keeps_def by blast

lemma with_client_buffE:
  assumes a: "accounts lk used" and s: "with_client_buff lk f st = Some (ret, st')"
  obtains "used (snd st') = used (snd st)"
  | mem st1 st2 where "used (snd st1) = used (snd st) + 1" "f mem st1 = Some (ret, st2)" "used (snd st') = used (snd st2) - 1"
proof -
  have fr: "used (lk_free lk x) = used x - 1" for x using a by (simp add: accounts_def)
  obtain b w1 where al: "dps_alloc_buff lk (snd st) = (b, w1)" by fastforce
  then show thesis
  proof (cases b)
    case None
    then show thesis using s alloc_used [OF a al] al by (auto simp: with_client_buff_def split: prod.splits intro: that(1))
  next
    case (Some mem)
    then obtain st2 where "f mem (fst st, w1) = Some (ret, st2)" "st' = (fst st2, lk_free lk (snd st2))"
      using s al by (cases st) (auto simp: with_client_buff_def bind_eq_Some_conv)
    then show thesis using that(2) [of "(fst st, w1)" mem st2] alloc_used [OF a al] Some by (simp add: fr)
  qed
qed

lemma deliver_used: "accounts lk used \<Longrightarrow> used (snd (dps_send_to_protocol_client lk msg st)) = used (snd st)"
  by (cases st) (simp add: dps_send_to_protocol_client_def accounts_def)

lemma stop_timer_used:
  assumes "accounts lk used"
  shows "used (snd (snd (stop_timer lk qid st))) = used (snd st)"
proof -
  have "used (snd (lk_timer_stop lk qid w)) = used w" for w using assms by (simp add: accounts_def)
  then show ?thesis by (auto simp: stop_timer_def dps_stop_retransmit_timer_def case_prod_unfold)
qed

lemma stop_timer_keeps: "stop_timer lk qid st = ((a, b), st') \<Longrightarrow> accounts lk used \<Longrightarrow> used (snd st') = used (snd st)"
  using stop_timer_used [of lk used qid st] by simp

lemma deliver_keeps: "dps_send_to_protocol_client lk msg st = st' \<Longrightarrow> accounts lk used \<Longrightarrow> used (snd st') = used (snd st)"
  using deliver_used by blast

lemma general_ack_routine_keeps:
  assumes a: "accounts lk used"
  shows "keeps used (dps_process_general_ack lk buf addr)"
  unfolding keeps_def dps_process_general_ack_def
  by (auto simp: bind_eq_Some_conv case_prod_unfold deliver_used [OF a] stop_timer_used [OF a] prod_eq_iff elim!: with_client_buffE [OF a])

lemma receive_routines_keep:
  assumes a: "accounts lk used"
  shows
    "keeps used (dps_process_endpoint_loc_req lk buf addr)"
    "keeps used (dps_process_endpoint_loc_reply lk buf addr)"
    "keeps used (dps_process_endpoint_update lk buf addr)"
    "keeps used (dps_process_endpoint_update_reply lk buf addr)"
    "keeps used (dps_process_policy_req lk buf addr)"
    "keeps used (dps_process_policy_reply lk buf addr)"
    "keeps used (dps_process_bulk_policy_xfer lk buf addr)"
    "keeps used (dps_process_internal_gw_reply lk buf addr)"
    "keeps used (dps_process_bcast_list_reply lk buf addr)"
    "keeps used (dps_process_gen_msg_req lk buf addr)"
    "keeps used (dps_process_gw_list lk buf addr)"
    "keeps used (dps_process_tunnel_reg_dereg lk buf addr)"
    "keeps used (dps_process_vm_migration_event lk buf addr)"
    "keeps used (dps_process_mcast_sender_reg_dereg lk buf addr)"
    "keeps used (dps_process_mcast_receiver_join_leave lk buf addr)"
    "keeps used (dps_process_mcast_receiver_ds_list lk buf addr)"
    "keeps used (dps_process_addr_resolve lk buf addr)"
    "keeps used (dps_process_vm_loc_info lk buf addr)"
  unfolding keeps_def dps_process_endpoint_loc_req_def dps_process_endpoint_loc_reply_def dps_process_endpoint_update_def
    dps_process_endpoint_update_reply_def dps_process_policy_req_def dps_process_policy_reply_def
    dps_process_bulk_policy_xfer_def dps_process_internal_gw_reply_def dps_process_bcast_list_reply_def
    dps_process_gen_msg_req_def dps_process_gw_list_def dps_process_tunnel_reg_dereg_def
    dps_process_vm_migration_event_def dps_process_mcast_sender_reg_dereg_def dps_process_mcast_receiver_join_leave_def
    dps_process_mcast_receiver_ds_list_def  dps_process_addr_resolve_def
    dps_process_vm_loc_info_def
  by (auto simp: bind_eq_Some_conv Let_def deliver_used [OF a] split: if_splits prod.splits elim!: with_client_buffE [OF a]
      dest!: general_ack_keeps [OF a] stop_timer_keeps [OF _ a] deliver_keeps [OF _ a])

lemma receive_stubs_keep:
  "keeps used (dps_process_policy_invalidate lk buf addr)" "keeps used (dps_process_addr_reply lk buf addr)"
  "keeps used (dps_noop_recv lk buf addr)"
  by (simp_all add: keeps_def dps_process_policy_invalidate_def dps_process_addr_reply_def dps_noop_recv_def)

lemma rcvd_pkt_keeps:
  assumes a: "accounts lk used" and s: "dps_process_rcvd_pkt lk buf addr (tbl, w) = Some (ret, (tbl', w'))"
  shows "used w' = used w"
proof -
  have "\<forall>x \<in> set (dps_recv_func_tbl lk). \<forall>f. snd x = Some f \<longrightarrow> (\<forall>buf addr. keeps used (f buf addr))"
    unfolding dps_recv_func_tbl_def using receive_routines_keep [OF a] general_ack_routine_keeps [OF a]
    by (simp add: receive_stubs_keep)
  moreover have "valid_type t \<Longrightarrow> dps_recv_func_tbl lk ! unat t \<in> set (dps_recv_func_tbl lk)" for t
    by (rule nth_mem) (simp add: valid_type_iff dps_recv_func_tbl_def)
  ultimately have k: "keeps used (f buf addr)" if "valid_type t" "snd (dps_recv_func_tbl lk ! unat t) = Some f" for t f
    using that by blast
  have "used (snd s1) = used w" if "valid_type t" "snd (dps_recv_func_tbl lk ! unat t) = Some f" "f buf addr (tbl, w) = Some (r, s1)" for t f r s1
    using keepsD [OF k [OF that(1,2)] that(3)] by simp
  with s show ?thesis by (fastforce simp: dps_process_rcvd_pkt_def bind_eq_Some_conv split: if_splits)
qed

end
