(* ===== verification/Dps_Tlv_Laws.thy ===== *)
theory Dps_Tlv_Laws
  imports Dps_Tlv_Lists
begin

text \<open>
  The properties of the TLV routines as a whole: what is written is read
  back, and the places where the code falls short of that.
\<close>

section \<open>Sample values\<close>

definition sample_ip :: ip_addr_t where
  "sample_ip = zero_ip_addr\<lparr>ia_family := AF_INET, ia_ip6 := [1, 2, 3, 4] @ replicate 12 0\<rparr>"

definition sample_ip6 :: ip_addr_t where
  "sample_ip6 = zero_ip_addr\<lparr>ia_family := AF_INET6, ia_ip6 := map word_of_nat [1..<17]\<rparr>"

definition sample_mac :: bytes where "sample_mac = [0, 27, 33, 1, 2, 3]"

definition zero_tunnel :: dps_tunnel_endpoint_t where
  "zero_tunnel = \<lparr>te_family = 0, te_port = 0, te_vnid = 0, te_tunnel_type = 0, te_flags = 0, te_ip6 = replicate 16 0\<rparr>"

definition sample_tunnels :: dps_tunnel_list_t where
  "sample_tunnels = \<lparr>tl_num_of_tunnels = 2, tl_tunnel_list =
     [zero_tunnel\<lparr>te_family := AF_INET, te_vnid := 7, te_ip6 := [9, 9, 9, 9] @ replicate 12 0\<rparr>, zero_tunnel\<lparr>te_family := AF_INET6\<rparr>]\<rparr>"

definition sample_loc_reply :: dps_endpoint_loc_reply_t where
  "sample_loc_reply = \<lparr>lr_vnid = 7, lr_mac = sample_mac, lr_vm_ip_addr = sample_ip, lr_version = 3, lr_tunnel_info = sample_tunnels\<rparr>"

lemmas samples = sample_ip_def sample_ip6_def sample_mac_def zero_tunnel_def sample_tunnels_def sample_loc_reply_def
  zero_ip_addr_def

lemma ok_sample_tunnels: "2 \<le> cap \<Longrightarrow> ok_tunnel_list cap sample_tunnels"
  by (simp add: samples ok_tunnel_list_def ok_tunnel_def wf_tunnel_def tunnels_len_def tunnel_len_def)

section \<open>Round trips\<close>

text \<open>
  An endpoint location written by \<open>dps_set_endpoint_loc_reply_tlv\<close> into a large
  enough buffer changes only the bytes of the TLV, and
  \<open>dps_get_endpoint_loc_reply_tlv\<close> reads back the VNID, MAC, version, address and
  every tunnel.
\<close>

theorem loc_reply_round_trip:
  assumes "ok_loc_reply cap d" and "endpoint_tlv_len (lr_vm_ip_addr d) (lr_tunnel_info d) \<le> length buff"
    and "tl_num_of_tunnels (lr_tunnel_info st) = 0"
  shows "\<exists>buff' st'. dps_set_endpoint_loc_reply_tlv d buff = Some (buff', endpoint_tlv_len (lr_vm_ip_addr d) (lr_tunnel_info d)) \<and>
    drop (endpoint_tlv_len (lr_vm_ip_addr d) (lr_tunnel_info d)) buff' = drop (endpoint_tlv_len (lr_vm_ip_addr d) (lr_tunnel_info d)) buff \<and>
    length buff' = length buff \<and>
    dps_get_endpoint_loc_reply_tlv (cap, fresh) buff' st = Some (st', endpoint_tlv_len (lr_vm_ip_addr d) (lr_tunnel_info d)) \<and>
    got_loc_reply d st st'"
  using loc_reply_tlv.round_trip [of "((cap, fresh), d)" buff st] assms by auto

theorem loc_reply_round_trip_witness:
  "\<exists>buff' st'. dps_set_endpoint_loc_reply_tlv sample_loc_reply (replicate 200 0) = Some (buff', 80) \<and>
    dps_get_endpoint_loc_reply_tlv (1167, \<lambda>_. zero_tunnel) buff' zero_loc_reply = Some (st', 80) \<and>
    got_loc_reply sample_loc_reply zero_loc_reply st'"
proof -
  have "ok_loc_reply 1167 sample_loc_reply" "endpoint_tlv_len (lr_vm_ip_addr sample_loc_reply) (lr_tunnel_info sample_loc_reply) = 80"
    "tl_num_of_tunnels (lr_tunnel_info zero_loc_reply) = 0"
    using ok_sample_tunnels [of 1167]
    by (simp_all add: sample_loc_reply_def ok_loc_reply_def wf_mac_def sample_mac_def ok_ip_def wf_ip_def sample_ip_def zero_ip_addr_def
        endpoint_tlv_len_def ip_tlv_len_def tunnel_list_len_def zero_loc_reply_def zero_tunnel_list_def tunnels_len_def tunnel_len_def
        sample_tunnels_def zero_tunnel_def)
  then show ?thesis using loc_reply_round_trip [of 1167 sample_loc_reply "replicate 200 0" zero_loc_reply "\<lambda>_. zero_tunnel"] by auto
qed

definition sample_update :: dps_endpoint_update_t where
  "sample_update = \<lparr>eu_vnid = 7, eu_mac = sample_mac, eu_version = 3, eu_vm_ip_addr = sample_ip6,
     eu_dps_client_addr = sample_ip, eu_tunnel_info = sample_tunnels\<rparr>"

text \<open>
  An endpoint update written by \<open>dps_set_endpoint_update_tlv\<close> is read back by
  \<open>dps_get_endpoint_update_tlv\<close>: VNID, MAC, version, address and every tunnel, with
  exactly the bytes written consumed.
\<close>

theorem update_round_trip:
  assumes "ok_update cap d" and "endpoint_tlv_len (eu_vm_ip_addr d) (eu_tunnel_info d) \<le> length buff"
    and "tl_num_of_tunnels (eu_tunnel_info st) = 0"
  shows "\<exists>buff' st'. dps_set_endpoint_update_tlv d buff = Some (buff', endpoint_tlv_len (eu_vm_ip_addr d) (eu_tunnel_info d)) \<and>
    drop (endpoint_tlv_len (eu_vm_ip_addr d) (eu_tunnel_info d)) buff' = drop (endpoint_tlv_len (eu_vm_ip_addr d) (eu_tunnel_info d)) buff \<and>
    dps_get_endpoint_update_tlv (cap, fresh) buff' st = Some (st', endpoint_tlv_len (eu_vm_ip_addr d) (eu_tunnel_info d)) \<and>
    got_update d st st'"
  using update_tlv.round_trip [of "((cap, fresh), d)" buff st] assms by auto

theorem update_round_trip_witness:
  "\<exists>buff' st'. dps_set_endpoint_update_tlv sample_update (replicate 200 0) = Some (buff', 92) \<and>
    dps_get_endpoint_update_tlv (1167, \<lambda>_. zero_tunnel) buff' zero_update = Some (st', 92) \<and>
    got_update sample_update zero_update st'"
proof -
  have "ok_update 1167 sample_update" "endpoint_tlv_len (eu_vm_ip_addr sample_update) (eu_tunnel_info sample_update) = 92"
    "tl_num_of_tunnels (eu_tunnel_info zero_update) = 0"
    using ok_sample_tunnels [of 1167]
    by (simp_all add: sample_update_def ok_update_def wf_mac_def sample_mac_def ok_ip_def wf_ip_def sample_ip6_def zero_ip_addr_def
        endpoint_tlv_len_def ip_tlv_len_def tunnel_list_len_def zero_update_def zero_tunnel_list_def tunnels_len_def tunnel_len_def
        sample_tunnels_def zero_tunnel_def)
  then show ?thesis using update_round_trip [of 1167 sample_update "replicate 200 0" zero_update "\<lambda>_. zero_tunnel"] by auto
qed

definition sample_policy :: dps_policy_info_t where
  "sample_policy = \<lparr>pi_policy_id = 5, pi_version = 1, pi_ttl = 60, pi_dps_policy = \<lparr>po_version = 1,
     po_policy_type = DPS_POLICY_TYPE_CONNECTIVITY, po_num_permit_rules = 1, po_num_deny_rules = 1,
     po_src_dst_vnid = [\<lparr>sd_svnid = 1, sd_dvnid = 2\<rparr>, \<lparr>sd_svnid = 3, sd_dvnid = 4\<rparr>]\<rparr>\<rparr>"

text \<open>
  A connectivity policy written by \<open>dps_set_policy_tlv\<close> (the policy id TLV and the
  two groups of permit and deny rules) is read back by \<open>dps_get_policy_tlv\<close> rule by
  rule, provided the destination has room for the rules.
\<close>

theorem policy_round_trip:
  assumes "ok_policy_info cap i" and "policy_tlv_len i \<le> length buff" and "cleared_policy (pi_dps_policy st)"
  shows "\<exists>buff' st'. dps_set_policy_tlv i buff = Some (buff', policy_tlv_len i) \<and>
    drop (policy_tlv_len i) buff' = drop (policy_tlv_len i) buff \<and>
    dps_get_policy_tlv cap buff' st = Some (st', policy_tlv_len i) \<and> got_policy_info i st'"
  using policy_tlv.round_trip [of "(cap, i)" buff st] assms by auto

theorem policy_round_trip_witness:
  "\<exists>buff' st'. dps_set_policy_tlv sample_policy (replicate 100 0) = Some (buff', 52) \<and>
    dps_get_policy_tlv 2 buff' zero_policy_info = Some (st', 52) \<and> got_policy_info sample_policy st'"
proof -
  have "ok_policy_info 2 sample_policy" "policy_tlv_len sample_policy = 52" "cleared_policy (pi_dps_policy zero_policy_info)"
    by (simp_all add: sample_policy_def ok_policy_info_def wf_policy_def policy_tlv_len_def policy_rules_len_def rule_group_len_def
        cleared_policy_def zero_policy_info_def)
  then show ?thesis using policy_round_trip [of 2 sample_policy "replicate 100 0" zero_policy_info] by auto
qed

definition sample_epri :: dps_epri_t where
  "sample_epri = zero_epri\<lparr>ep_vnid := 9, ep_mac := sample_mac, ep_vm_ip4_addr := \<lparr>i4l_num_of_ips = 2,
     i4l_ip_info = replicate 16 \<lparr>i4_ip = 77, i4_flags = 1, i4_reserved = 0\<rparr>\<rparr>, ep_tunnel_info := sample_tunnels\<rparr>"

text \<open>
  Endpoint reachability information written by \<open>dps_set_epri_tlv\<close> is read back by
  \<open>dps_get_epri_tlv\<close>: the endpoint, both lists of address information and the tunnels.
\<close>

theorem epri_round_trip:
  assumes "ok_epri cap d" and "epri_tlv_len d \<le> length buff" and "dst_epri st"
  shows "\<exists>buff' st'. dps_set_epri_tlv d buff = Some (buff', epri_tlv_len d) \<and>
    drop (epri_tlv_len d) buff' = drop (epri_tlv_len d) buff \<and>
    dps_get_epri_tlv (cap, fresh) buff' st = Some (st', epri_tlv_len d) \<and> got_epri d st'"
  using epri_tlv.round_trip [of "((cap, fresh), d)" buff st] assms by auto

theorem epri_round_trip_witness:
  "\<exists>buff' st'. dps_set_epri_tlv sample_epri (replicate 200 0) = Some (buff', 92) \<and>
    dps_get_epri_tlv (1000, \<lambda>_. zero_tunnel) buff' zero_epri = Some (st', 92) \<and> got_epri sample_epri st'"
proof -
  have "ok_epri 1000 sample_epri" "epri_tlv_len sample_epri = 92" "dst_epri zero_epri"
    using ok_sample_tunnels [of 1000]
    by (simp_all add: sample_epri_def ok_epri_def wf_mac_def sample_mac_def wf_ip4_infos_def wf_ip6_infos_def zero_epri_def list_all_iff
        epri_tlv_len_def dst_epri_def tunnel_list_len_def zero_tunnel_list_def tunnels_len_def tunnel_len_def sample_tunnels_def zero_tunnel_def)
  then show ?thesis using epri_round_trip [of 1000 sample_epri "replicate 200 0" zero_epri "\<lambda>_. zero_tunnel"] by auto
qed

definition sample_grp_rec :: dps_mcast_group_record_t where
  "sample_grp_rec = \<lparr>mg_mcast_addr = zero_mcast_addr\<lparr>ma_mcast_addr_type := MCAST_ADDR_V4\<rparr>, mg_num_of_srcs = 2,
     mg_family = AF_INET, mg_src_addr = [1, 2, 3, 4, 5, 6, 7, 8]\<rparr>"

definition zero_grp_rec :: dps_mcast_group_record_t where
  "zero_grp_rec = \<lparr>mg_mcast_addr = zero_mcast_addr, mg_num_of_srcs = 0, mg_family = 0, mg_src_addr = []\<rparr>"

text \<open>
  A multicast group record written by \<open>dps_set_mcast_grp_rec_tlv\<close> is read back by
  \<open>dps_get_mcast_grp_rec_tlv\<close>: the group address with its type, the number and family
  of the sources, and their addresses.
\<close>

theorem grp_rec_round_trip:
  assumes "ok_grp_rec cap g" and "grp_rec_len g \<le> length buff" and "mg_num_of_srcs st = 0"
  shows "\<exists>buff' st'. dps_set_mcast_grp_rec_tlv g buff = Some (buff', grp_rec_len g) \<and>
    drop (grp_rec_len g) buff' = drop (grp_rec_len g) buff \<and>
    dps_get_mcast_grp_rec_tlv cap buff' st = Some (st', grp_rec_len g) \<and> got_grp_rec g st st'"
  using grp_rec_tlv.round_trip [of "(cap, g)" buff st] assms by auto

theorem grp_rec_round_trip_witness:
  "\<exists>buff' st'. dps_set_mcast_grp_rec_tlv sample_grp_rec (replicate 64 0) = Some (buff', 40) \<and>
    dps_get_mcast_grp_rec_tlv 1000 buff' zero_grp_rec = Some (st', 40) \<and> got_grp_rec sample_grp_rec zero_grp_rec st'"
proof -
  have "ok_grp_rec 1000 sample_grp_rec" "grp_rec_len sample_grp_rec = 40" "mg_num_of_srcs zero_grp_rec = 0"
    by (simp_all add: sample_grp_rec_def zero_grp_rec_def ok_grp_rec_def ok_mcast_addr_def zero_mcast_addr_def wf_mac_def zero_mac_def
        grp_rec_len_def mcast_addr_len_def srcs_len_def)
  then show ?thesis using grp_rec_round_trip [of 1000 sample_grp_rec "replicate 64 0" zero_grp_rec] by auto
qed

definition sample_pkd :: dps_pkd_tunnel_list_t where
  "sample_pkd = \<lparr>pk_vnid = 7, pk_num_v4_tunnels = 2, pk_num_v6_tunnels = 0, pk_tunnel_list = [1, 2, 3, 4, 5, 6, 7, 8]\<rparr>"

definition empty_pkd :: dps_pkd_tunnel_list_t where
  "empty_pkd = \<lparr>pk_vnid = 0, pk_num_v4_tunnels = 0, pk_num_v6_tunnels = 0, pk_tunnel_list = []\<rparr>"

text \<open>
  The packed tunnel list of a VNID written by \<open>dps_set_vnid_tunnel_list_tlv\<close> is
  read back by \<open>dps_get_vnid_tunnel_list_tlv\<close> when all its tunnels are of one family.
\<close>

theorem vnid_tunnel_round_trip:
  assumes "ok_vnid_tunnel cap d" and "vnid_tunnel_len d \<le> length buff" and "dst_vnid_tunnel st"
  shows "\<exists>buff' st'. dps_set_vnid_tunnel_list_tlv d buff = Some (buff', vnid_tunnel_len d) \<and>
    drop (vnid_tunnel_len d) buff' = drop (vnid_tunnel_len d) buff \<and>
    dps_get_vnid_tunnel_list_tlv cap buff' st = Some (st', vnid_tunnel_len d) \<and> got_vnid_tunnel d st'"
  using vnid_tunnel_tlv.round_trip [of "(cap, d)" buff st] assms by auto

theorem vnid_tunnel_round_trip_witness:
  "\<exists>buff' st'. dps_set_vnid_tunnel_list_tlv sample_pkd (replicate 64 0) = Some (buff', 20) \<and>
    dps_get_vnid_tunnel_list_tlv 1000 buff' empty_pkd = Some (st', 20) \<and> got_vnid_tunnel sample_pkd st'"
proof -
  have "ok_vnid_tunnel 1000 sample_pkd" "vnid_tunnel_len sample_pkd = 20" "dst_vnid_tunnel empty_pkd"
    by (simp_all add: sample_pkd_def empty_pkd_def ok_vnid_tunnel_def pkd_len_def vnid_tunnel_len_def dst_vnid_tunnel_def)
  then show ?thesis using vnid_tunnel_round_trip [of 1000 sample_pkd "replicate 64 0" empty_pkd] by auto
qed

definition sample_update_reply :: dps_endpoint_update_reply_t where
  "sample_update_reply = zero_update_reply\<lparr>ur_vnid := 7, ur_mac := sample_mac, ur_version := 2, ur_num_of_vip := 2,
     ur_vm_ip_addr := replicate 16 sample_ip, ur_tunnel_info := sample_tunnels\<rparr>"

text \<open>
  An endpoint update reply with IPv4 virtual addresses written by
  \<open>dps_set_endpoint_update_reply_tlv\<close> is read back by
  \<open>dps_get_endpoint_update_reply_tlv\<close>: endpoint, version, up to sixteen addresses and
  the tunnels.
\<close>

theorem update_reply_round_trip:
  assumes "ok_update_reply cap d" and "update_reply_len d \<le> length buff" and "dst_update_reply st"
  shows "\<exists>buff' st'. dps_set_endpoint_update_reply_tlv d buff = Some (buff', update_reply_len d) \<and>
    drop (update_reply_len d) buff' = drop (update_reply_len d) buff \<and>
    dps_get_endpoint_update_reply_tlv (cap, fresh) buff' st = Some (st', update_reply_len d) \<and> got_update_reply d st'"
  using update_reply_tlv.round_trip [of "((cap, fresh), d)" buff st] assms by auto

theorem update_reply_round_trip_witness:
  "\<exists>buff' st'. dps_set_endpoint_update_reply_tlv sample_update_reply (replicate 200 0) = Some (buff', 84) \<and>
    dps_get_endpoint_update_reply_tlv (1000, \<lambda>_. zero_tunnel) buff' zero_update_reply = Some (st', 84) \<and>
    got_update_reply sample_update_reply st'"
proof -
  have "ok_update_reply 1000 sample_update_reply" "update_reply_len sample_update_reply = 84" "dst_update_reply zero_update_reply"
    using ok_sample_tunnels [of 1000]
    by (simp_all add: sample_update_reply_def zero_update_reply_def ok_update_reply_def vips_def wf_mac_def sample_mac_def sample_ip_def
        list_all_iff update_reply_len_def dst_update_reply_def tunnel_list_len_def zero_tunnel_list_def tunnels_len_def tunnel_len_def
        sample_tunnels_def zero_tunnel_def)
  then show ?thesis
    using update_reply_round_trip [of 1000 sample_update_reply "replicate 200 0" zero_update_reply "\<lambda>_. zero_tunnel"] by auto
qed

definition sample_bulk :: dps_bulk_vnid_policy_t where
  "sample_bulk = \<lparr>bp_num_permit_rules = 1, bp_num_deny_rules = 1,
     bp_src_dst_vnid = [\<lparr>sd_svnid = 1, sd_dvnid = 2\<rparr>, \<lparr>sd_svnid = 3, sd_dvnid = 4\<rparr>]\<rparr>"

text \<open>
  C31. A bulk policy list written by \<open>dps_set_bulk_policy_xfer\<close> and read by
  \<open>dps_get_bulk_policy_xfer\<close>: both counts and every permit rule come back as sent, but
  of a deny rule the reader keeps neither VNID: \<open>svnid\<close> becomes the upper half of the
  sent \<open>dvnid\<close> moved to the wrong place, and \<open>dvnid\<close> is not written.
\<close>

theorem bulk_round_trip:
  assumes "wf_bulk d" and "length (bp_src_dst_vnid d) \<le> cap" and "bulk_len d \<le> length buff"
  shows "\<exists>buff' st'. dps_set_bulk_policy_xfer d buff = Some (buff', bulk_len d) \<and>
    dps_get_bulk_policy_xfer (cap, fresh) buff' st = Some (st', bulk_len d) \<and>
    bp_num_permit_rules st' = bp_num_permit_rules d \<and> bp_num_deny_rules st' = bp_num_deny_rules d \<and>
    take (unat (bp_num_permit_rules d)) (bp_src_dst_vnid st') = take (unat (bp_num_permit_rules d)) (bp_src_dst_vnid d) \<and>
    list_all2 (\<lambda>r g. \<exists>old. g = garbled old r) (drop (unat (bp_num_permit_rules d)) (bp_src_dst_vnid d))
      (drop (unat (bp_num_permit_rules d)) (take (length (bp_src_dst_vnid d)) (bp_src_dst_vnid st')))"
proof -
  let ?k = "unat (bp_num_permit_rules d)"
  obtain p where p: "p = bulk_img d" "dps_set_bulk_policy_xfer d buff = Some (p @ drop (bulk_len d) buff, bulk_len d)"
    using writesD [OF writes_bulk [OF assms(1)] assms(3)] by blast
  obtain st' where st': "dps_get_bulk_policy_xfer (cap, fresh) (p @ drop (bulk_len d) buff) st = Some (st', bulk_len d)"
      "bp_num_permit_rules st' = bp_num_permit_rules d" "bp_num_deny_rules st' = bp_num_deny_rules d"
      "denies_read (take ?k (bp_src_dst_vnid d)) (drop ?k (bp_src_dst_vnid d)) (bp_src_dst_vnid st', length (bp_src_dst_vnid d))"
    using get_bulk_img [OF assms(1), of "(cap, fresh)"] assms(2) p(1) by auto
  then obtain gs where gs: "list_all2 (\<lambda>r g. \<exists>old. g = garbled old r) (drop ?k (bp_src_dst_vnid d)) gs"
      "take (length (bp_src_dst_vnid d)) (bp_src_dst_vnid st') = take ?k (bp_src_dst_vnid d) @ gs"
    by (auto simp: denies_read_def bulk_read_def)
  have k: "length (take ?k (bp_src_dst_vnid d)) = ?k" "?k \<le> length (bp_src_dst_vnid d)" using assms(1) by (auto simp: wf_bulk_def)
  have "take ?k (take (length (bp_src_dst_vnid d)) (bp_src_dst_vnid st')) = take ?k (bp_src_dst_vnid d)"
    using gs(2) k by simp
  then have "take ?k (bp_src_dst_vnid st') = take ?k (bp_src_dst_vnid d)" using k by (simp add: min_absorb1)
  then show ?thesis using p(2) st' gs k by auto
qed

theorem bulk_round_trip_witness:
  "\<exists>buff' st'. dps_set_bulk_policy_xfer sample_bulk (replicate 40 0) = Some (buff', 20) \<and>
    dps_get_bulk_policy_xfer (8, \<lambda>_. \<lparr>sd_svnid = 0, sd_dvnid = 0\<rparr>) buff'
      \<lparr>bp_num_permit_rules = 0, bp_num_deny_rules = 0, bp_src_dst_vnid = []\<rparr> = Some (st', 20) \<and>
    bp_num_deny_rules st' = 1"
proof -
  have "wf_bulk sample_bulk" "length (bp_src_dst_vnid sample_bulk) \<le> 8" "bulk_len sample_bulk = 20" "bp_num_deny_rules sample_bulk = 1"
    by (simp_all add: sample_bulk_def wf_bulk_def bulk_len_def)
  then show ?thesis
    using bulk_round_trip [of sample_bulk 8 "replicate 40 0" "\<lambda>_. \<lparr>sd_svnid = 0, sd_dvnid = 0\<rparr>"
      "\<lparr>bp_num_permit_rules = 0, bp_num_deny_rules = 0, bp_src_dst_vnid = []\<rparr>"] by auto
qed

section \<open>Where readers fall short\<close>

text \<open>
  A nested TLV of an unknown type stops \<open>dps_get_mcast_grp_rec_tlv\<close> from ever
  returning: the default branch consumes nothing, so one pass of the loop is defined and
  leaves the state as it was.
\<close>

theorem grp_rec_unknown_tlv_loops:
  assumes h: "dps_get_tlv_hdr buff = Some h" "0 < tlv_len h" and k: "dps_get_tlv_hdr (drop 4 buff) = Some k"
    and ty: "tlv_type k \<notin> {MCAST_ADDR_MAC_TLV, MCAST_ADDR_V4_TLV, MCAST_ADDR_V6_TLV, MCAST_ADDR_V4_ICB_RANGE_TLV,
      IPV4_ADDR_LIST_TLV, IPV6_ADDR_LIST_TLV}"
  shows "tlv_step (grp_rec_switch cap) buff ((g, False), 4) = Some ((g, False), 4) \<and>
    dps_get_mcast_grp_rec_tlv cap buff g = None"
proof -
  have step: "tlv_step (grp_rec_switch cap) buff ((g, False), 4) = Some ((g, False), 4)"
    using k ty by (simp add: tlv_step_def grp_rec_switch_def)
  moreover have "0 < unat (tlv_len h)" using h(2) by (simp add: word_less_nat_alt)
  ultimately show ?thesis
    using h(1) by (simp add: dps_get_mcast_grp_rec_tlv_def tlv_scan_def while_opt_stuck)
qed

theorem grp_rec_unknown_tlv_loops_witness:
  "dps_get_mcast_grp_rec_tlv 100 ([1, 18, 0, 4] @ [1, 99, 0, 0]) zero_grp_rec = None"
  using grp_rec_unknown_tlv_loops [of "[1, 18, 0, 4] @ [1, 99, 0, 0]" "\<lparr>tlv_ver = 1, tlv_type = 18, tlv_len = 4\<rparr>"
      "\<lparr>tlv_ver = 1, tlv_type = 99, tlv_len = 0\<rparr>"]
  by (simp add: dps_get_tlv_hdr_def ld16_def peek_def of_bytes16_def htons_def ld8_def)

text \<open>
  \<open>dps_get_ipv4_list_to_ipaddr\<close> writes past the array of sixteen addresses of an
  endpoint update reply: a TLV of 68 or more bytes of addresses (seventeen of them) makes
  an undefined access, because the count is compared with \<open><=\<close>.
\<close>

theorem vip_list_overflow:
  assumes "dps_get_tlv_hdr buff = Some h" and "68 \<le> tlv_len h" and "length arr = MAX_VIP_ADDR"
  shows "dps_get_ipv4_list_to_ipaddr buff (of_nat MAX_VIP_ADDR) (arr, 0, 0) = None"
proof (rule ccontr)
  let ?fin = "4 + unat (tlv_len h)"
  define I where "I = (\<lambda>s :: vip_state \<times> nat. case s of ((arr, i, num), pos) \<Rightarrow>
    length arr = 16 \<and> i \<le> 16 \<and> unat num = i \<and> pos = 4 + 4 * i)"
  have fin: "72 \<le> ?fin" using assms(2) by (simp add: word_le_nat_alt)
  assume "dps_get_ipv4_list_to_ipaddr buff (of_nat MAX_VIP_ADDR) (arr, 0, 0) \<noteq> None"
  then obtain y where "while_opt (\<lambda>(st, pos). pos < ?fin) (vip4_step buff 16 ?fin) ((arr, 0, 0), 4) = Some y"
    using assms(1) by (auto simp: dps_get_ipv4_list_to_ipaddr_def)
  then have "I ((arr, 0, 0), 4) \<longrightarrow> False"
  proof (rule while_opt_Some_induct [where P = "\<lambda>s y. I s \<longrightarrow> False"])
    show "I s \<longrightarrow> False" if "\<not> (case s of (st, pos) \<Rightarrow> pos < ?fin)" for s
      using that fin by (auto simp: I_def)
  next
    fix s s' :: "vip_state \<times> nat" assume b: "vip4_step buff 16 ?fin s = Some s'" and ih: "I s' \<longrightarrow> False"
    have "I s'" if "I s"
    proof -
      obtain a i num where s: "s = ((a, i, num), 4 + 4 * i)" "length a = 16" "i \<le> 16" "unat num = i"
        using \<open>I s\<close> by (auto simp: I_def)
      have "num \<le> 16" using s by (simp add: word_le_nat_alt)
      then obtain a' where s': "s' = ((a', i + 1, num + 1), 4 + 4 * i + 4)" "length a' = 16" "i < 16"
        using b s by (auto simp: vip4_step_def bind_eq_Some_conv upd_at_def split: if_splits)
      then show "I s'" using s(4) by (simp add: I_def unat_word_ariths)
    qed
    with ih show "I s \<longrightarrow> False" by blast
  qed
  moreover have "I ((arr, 0, 0), 4)" using assms(3) by (simp add: I_def)
  ultimately show False by blast
qed

theorem vip_list_overflow_witness:
  "dps_get_ipv4_list_to_ipaddr ([1, 12, 0, 68] @ replicate 200 7) 16 (replicate 16 zero_ip_addr, 0, 0) = None"
  using vip_list_overflow [of "[1, 12, 0, 68] @ replicate 200 7" "\<lparr>tlv_ver = 1, tlv_type = 12, tlv_len = 68\<rparr>" "replicate 16 zero_ip_addr"]
  by (simp add: dps_get_tlv_hdr_def ld16_def peek_def of_bytes16_def htons_def ld8_def)

text \<open>
  IPv6 virtual addresses do not survive \<open>dps_get_ipv6_list_to_ipaddr\<close>: the sixteen
  bytes are copied over the beginning of the structure, so the address field holds only
  their second half and the port fields hold address bytes.
\<close>

theorem vip6_misplaced:
  assumes "length g = DPS_IP6_ADDR_LEN"
  shows "\<exists>a. dps_get_ipv6_list_to_ipaddr (hdrb v t 16 @ g @ r) (of_nat MAX_VIP_ADDR) (replicate MAX_VIP_ADDR zero_ip_addr, 0, 0) =
      Some (((replicate MAX_VIP_ADDR zero_ip_addr)[0 := a], 1, 1), 20) \<and>
    ia_family a = AF_INET6 \<and> ia_ip6 a = drop 8 g @ replicate 8 0 \<and> ia_port a = of_bytes16 (take 2 (drop 2 g))"
proof -
  let ?a = "(overlay_ip_addr g zero_ip_addr)\<lparr>ia_family := AF_INET6\<rparr>" and ?arr = "replicate 16 zero_ip_addr"
  have "vip6_step (hdrb v t 16 @ g @ r) 16 20 ((?arr, 0, 0), 4) = Some ((?arr[0 := ?a], 1, 1), 20)"
    using assms by (simp add: vip6_step_def upd_at_def)
  then have "dps_get_ipv6_list_to_ipaddr (hdrb v t 16 @ g @ r) (of_nat MAX_VIP_ADDR) (?arr, 0, 0) = Some ((?arr[0 := ?a], 1, 1), 20)"
    by (simp add: dps_get_ipv6_list_to_ipaddr_def while_opt_step while_opt_done)
  moreover have "ia_family ?a = AF_INET6 \<and> ia_ip6 ?a = drop 8 g @ replicate 8 0 \<and> ia_port ?a = of_bytes16 (take 2 (drop 2 g))"
    by (simp add: overlay_ip_addr_def zero_ip_addr_def)
  ultimately show ?thesis by blast
qed

theorem vip6_misplaced_witness:
  "\<exists>a. dps_get_ipv6_list_to_ipaddr (hdrb 1 13 16 @ map word_of_nat [1..<17] @ []) 16 (replicate 16 zero_ip_addr, 0, 0) =
      Some (((replicate 16 zero_ip_addr)[0 := a], 1, 1), 20) \<and> ia_ip6 a \<noteq> map word_of_nat [1..<17]"
  using vip6_misplaced [of "map word_of_nat [1..<17]" 1 13 "[]"] by (fastforce simp: upt_rec)

text \<open>
  When a VNID has tunnels of both families, \<open>dps_get_vnid_tunnel_list_tlv\<close> places
  both lists at the beginning of the destination: the counts are right, but the IPv6
  addresses have overwritten the IPv4 ones.
\<close>

theorem vnid_tunnel_mixed_families:
  fixes d st :: dps_pkd_tunnel_list_t
  assumes n4_def: "n4 = unat (pk_num_v4_tunnels d)" and n6_def: "n6 = unat (pk_num_v6_tunnels d)" and nz: "pk_num_v4_tunnels d \<noteq> 0" "pk_num_v6_tunnels d \<noteq> 0" and len: "4 * n4 + 16 * n6 \<le> length (pk_tunnel_list d)"
    and b: "16 + 4 * n4 + 16 * n6 < 65536" "16 + 4 * n4 + 16 * n6 \<le> length buff" and cap: "4 * n4 \<le> cap" "16 * n6 \<le> cap"
  shows "\<exists>buff' st'. dps_set_vnid_tunnel_list_tlv d buff = Some (buff', 16 + 4 * n4 + 16 * n6) \<and>
    dps_get_vnid_tunnel_list_tlv cap buff' st = Some (st', 16 + 4 * n4 + 16 * n6) \<and>
    pk_num_v4_tunnels st' = pk_num_v4_tunnels d \<and> pk_num_v6_tunnels st' = pk_num_v6_tunnels d \<and>
    take (16 * n6) (pk_tunnel_list st') = take (16 * n6) (drop (4 * n4) (pk_tunnel_list d))"
proof -
  define n m4 m6 where n: "n = 16 + 4 * n4 + 16 * n6" "m4 = take (4 * n4) (pk_tunnel_list d)" "m6 = take (16 * n6) (drop (4 * n4) (pk_tunnel_list d))"
  have w4: "writes (dps_set_ipv4_list_tlv (pk_tunnel_list d) (ucast (pk_num_v4_tunnels d))) (4 + 4 * n4) (tlv_image (dps_get_ipv4_list_tlv cap 0)
      IPV4_ADDR_LIST_TLV (4 + 4 * n4) (\<lambda>_. True) (\<lambda>st st'. st' = m4 @ drop (4 * n4) st))"
    using image_ipv4_list [of "ucast (pk_num_v4_tunnels d)" "pk_tunnel_list d" 0 cap] len b cap by (simp add: n4_def n)
  have w6: "writes (dps_set_ipv6_list_tlv (drop (4 * n4) (pk_tunnel_list d)) (ucast (pk_num_v6_tunnels d))) (4 + 16 * n6)
      (tlv_image (dps_get_ipv6_list_tlv cap 0) IPV6_ADDR_LIST_TLV (4 + 16 * n6) (\<lambda>_. True) (\<lambda>st st'. st' = m6 @ drop (16 * n6) st))"
    using image_ipv6_list [of "ucast (pk_num_v6_tunnels d)" "drop (4 * n4) (pk_tunnel_list d)" 0 cap] len b cap by (simp add: n6_def n)
  have "writes (dps_set_vnid_tunnel_list_tlv d) n (\<lambda>p. \<exists>t4 t6. p = hdrb 1 VNID_TUNNEL_LIST_TLV (of_nat (n - 4)) @ be32 (pk_vnid d) @ t4 @ t6 \<and>
      tlv_image (dps_get_ipv4_list_tlv cap 0) IPV4_ADDR_LIST_TLV (4 + 4 * n4) (\<lambda>_. True) (\<lambda>st st'. st' = m4 @ drop (4 * n4) st) t4 \<and>
      tlv_image (dps_get_ipv6_list_tlv cap 0) IPV6_ADDR_LIST_TLV (4 + 16 * n6) (\<lambda>_. True) (\<lambda>st st'. st' = m6 @ drop (16 * n6) st) t6)"
    unfolding dps_set_vnid_tunnel_list_tlv_def if_P [OF nz(1)] if_P [OF nz(2)] n4_def [symmetric]
    by (rule writes_cong, rule writes_tlv_block, (rule emits_bind emits_put writes_store w4 w6)+) (auto simp: n(1) seqp_def)
  then obtain p t4 t6 where p: "p = hdrb 1 VNID_TUNNEL_LIST_TLV (of_nat (n - 4)) @ be32 (pk_vnid d) @ t4 @ t6"
      and t4: "tlv_image (dps_get_ipv4_list_tlv cap 0) IPV4_ADDR_LIST_TLV (4 + 4 * n4) (\<lambda>_. True) (\<lambda>st st'. st' = m4 @ drop (4 * n4) st) t4"
      and t6: "tlv_image (dps_get_ipv6_list_tlv cap 0) IPV6_ADDR_LIST_TLV (4 + 16 * n6) (\<lambda>_. True) (\<lambda>st st'. st' = m6 @ drop (16 * n6) st) t6"
      and wr: "dps_set_vnid_tunnel_list_tlv d buff = Some (p @ drop n buff, n)"
    using writesD [of _ n _ buff] b(2) n(1) by blast
  let ?bs = "p @ drop n buff" and ?S = "tlv_scan (n - 4) (vnid_tunnel_switch cap) (p @ drop n buff)" and ?k = "12 + 4 * n4"
  have d: "drop 8 ?bs = t4 @ t6 @ drop n buff" "drop ?k ?bs = t6 @ drop n buff" "8 < n - 4" "?k < n - 4" "n - 4 \<le> ?k + (4 + 16 * n6)"
      "?k + (4 + 16 * n6) = n"
    using tlv_image_length [OF t4] nz unat_gt_0 [of "pk_num_v6_tunnels d"] by (auto simp: p n(1) n6_def)
  define s1 where "s1 = st\<lparr>pk_vnid := pk_vnid d\<rparr>"
  define s2 where "s2 = s1\<lparr>pk_tunnel_list := m4 @ drop (4 * n4) (pk_tunnel_list s1), pk_num_v4_tunnels := pk_num_v4_tunnels d\<rparr>"
  define s3 where "s3 = s2\<lparr>pk_tunnel_list := m6 @ drop (16 * n6) (pk_tunnel_list s2), pk_num_v6_tunnels := pk_num_v6_tunnels d\<rparr>"
  have "?S s1 8 = ?S s2 ?k"
    using tlv_scan_image [where sw = "vnid_tunnel_switch cap" and st = s1 and g = pk_tunnel_list and
        f = "\<lambda>m. s1\<lparr>pk_tunnel_list := m, pk_num_v4_tunnels := pk_num_v4_tunnels d\<rparr>", OF t4 d(1,3)]
      div_num_mult(1) [of "pk_num_v4_tunnels d"] b by (simp add: vnid_tunnel_switch_def s2_def n4_def)
  moreover have "?S s2 ?k = Some ((s3, False), n)"
    using tlv_scan_image [where sw = "vnid_tunnel_switch cap" and st = s2 and g = pk_tunnel_list and
        f = "\<lambda>m. s2\<lparr>pk_tunnel_list := m, pk_num_v6_tunnels := pk_num_v6_tunnels d\<rparr>", OF t6 d(2,4)]
      div_num_mult(2) [of "pk_num_v6_tunnels d"] b d(5,6) by (simp add: vnid_tunnel_switch_def s3_def n6_def tlv_scan_done)
  moreover have "4 + unat (ucast (of_nat (n - 4) :: u16) - 4 :: u32) = n - 4"
    using scan_end [of n] n(1) b(1) by linarith
  ultimately have "dps_get_vnid_tunnel_list_tlv cap ?bs st = Some (s3, n)"
    by (simp add: dps_get_vnid_tunnel_list_tlv_def p s1_def del: of_nat_diff)
  then show ?thesis
    using wr len by (auto simp: s3_def s2_def s1_def n min_absorb2 intro!: exI [of _ ?bs])
qed

definition mixed_pkd :: dps_pkd_tunnel_list_t where
  "mixed_pkd = \<lparr>pk_vnid = 7, pk_num_v4_tunnels = 1, pk_num_v6_tunnels = 1, pk_tunnel_list = [1, 2, 3, 4] @ replicate 16 9\<rparr>"

theorem vnid_tunnel_mixed_families_witness:
  "\<exists>buff' st'. dps_set_vnid_tunnel_list_tlv mixed_pkd (replicate 64 0) = Some (buff', 36) \<and>
    dps_get_vnid_tunnel_list_tlv 1000 buff' empty_pkd = Some (st', 36) \<and> pk_num_v4_tunnels st' = 1 \<and>
    take 16 (pk_tunnel_list st') = replicate 16 9"
  using vnid_tunnel_mixed_families [of 1 mixed_pkd 1 "replicate 64 0" 1000 empty_pkd] by (auto simp: mixed_pkd_def)

end
