(* ===== verification/Dps_Exchange.thy ===== *)
theory Dps_Exchange
  imports Dps_Control Dps_Tlv_Laws
begin

text \<open>
  The exchange of a message as a whole: what one node passes to
  \<open>dps_protocol_client_send\<close> is what the layer above the other node
  is given by \<open>dps_process_rcvd_pkt\<close>.  Each property says which packet
  is transmitted (one, from a buffer that is freed again, and counted in the
  statistics), and that any node receiving it, whatever follows the packet in
  its receive buffer, hands on the message with the header the sender wrote.
\<close>

section \<open>A sample node\<close>

text \<open>The state of the node is the number of buffers in use.\<close>

definition sample_node :: "int dps_link" where
  "sample_node = \<lparr>lk_server = False, lk_malloc = (\<lambda>w. (Some (replicate DPS_MAX_BUFF_SZ 0), w + 1)), lk_free = (\<lambda>w. w - 1),
     lk_active = (\<lambda>_. True), lk_query_id = (\<lambda>w. (5, w)), lk_xmit = (\<lambda>_ _ _ w. (DPS_SUCCESS, w)),
     lk_timer_stop = (\<lambda>_ w. ((True, 3), w)), lk_deliver = (\<lambda>_ w. w), lk_new_node = (\<lambda>_ w. w), lk_uninit = (\<lambda>_. zero_ip_addr)\<rparr>"

definition sample_msg :: "u8 \<Rightarrow> dps_client_body \<Rightarrow> dps_client_data_t" where
  "sample_msg t b = \<lparr>cd_context = 0, cd_hdr = zero_hdr\<lparr>ch_type := t, ch_query_id := 9, ch_vnid := 7\<rparr>, cd_body = b\<rparr>"

lemma sample_node_ready: "has_buffer sample_node w" "may_send sample_node w"
  by (simp_all add: sample_node_def has_buffer_def may_send_def)

lemma sample_msg_fields: "cd_body (sample_msg t b) = b" "ch_type (cd_hdr (sample_msg t b)) = t" "ch_resp_status (cd_hdr (sample_msg t b)) = 0"
  by (simp_all add: sample_msg_def zero_hdr_def)

lemma stats_length: "length dps_pkt_stats_tbl = unat DPS_MAX_MSG_TYPE"
  by (simp add: dps_pkt_stats_tbl_def)

lemmas sample_ready = sample_node_ready sample_msg_fields stats_length

definition sample_endpoint :: dps_endpoint_info_t where
  "sample_endpoint = zero_endpoint_info\<lparr>ei_vm_ip_addr := sample_ip\<rparr>"

lemma sample_addr_ok: "wf_ip sample_ip" "wf_ip sample_ip6" "ok_ip sample_ip" "wf_mac sample_mac" "ok_endpoint_info sample_endpoint"
  by (simp_all add: samples wf_ip_def ok_ip_def wf_mac_def sample_endpoint_def ok_endpoint_info_def zero_endpoint_info_def zero_mac_def)

lemma sample_loc_ok: "2 \<le> cap \<Longrightarrow> ok_loc_reply cap sample_loc_reply" "loc_size sample_loc_reply = 80"
  using ok_sample_tunnels [of cap] sample_addr_ok
  by (simp_all add: sample_loc_reply_def ok_loc_reply_def endpoint_tlv_len_def ip_tlv_len_def tunnel_list_len_def tunnels_len_def
      tunnel_len_def samples)

section \<open>Messages from end to end\<close>

definition sample_loc_req :: dps_endpoint_loc_req_t where
  "sample_loc_req = \<lparr>lq_vnid = 7, lq_mac = sample_mac, lq_vm_ip_addr = sample_ip6, lq_dps_client_addr = sample_ip\<rparr>"



text \<open>
  C24. An endpoint location reply arrives with the endpoint and every tunnel, and the receiver stops the
  retransmission of the request it answers.
\<close>

theorem endpoint_loc_reply_delivered:
  fixes lk :: "'w dps_link" and d :: dps_endpoint_loc_reply_t
  assumes "ok_loc_reply_msg (cd_hdr req) d" and "cd_body req = Endpoint_loc_reply d" and "ch_type (cd_hdr req) = DPS_ENDPOINT_LOC_REPLY" and "has_buffer lk w" and "may_send lk w"
    and "length tbl = unat DPS_MAX_MSG_TYPE"
  shows "\<exists>pkt. sends (\<lambda>s. s) lk req tbl w pkt \<and> (\<forall>(lk' :: 'v dps_link) w' tbl' addr junk. has_buffer lk' w' \<longrightarrow>
    (\<exists>d'. got_loc_reply d zero_loc_reply d' \<and> dps_process_rcvd_pkt lk' (pkt @ junk) addr (tbl', w') =
       count_rcvd DPS_ENDPOINT_LOC_REPLY (deliver_answer True lk' (delivered_hdr lk req w addr) (Endpoint_loc_reply d') (tbl', snd (lk_malloc lk' w')))))"
  using loc_reply_msg.end_to_end [where req = req and d = d and lk = lk and w = w and tbl = tbl] assms by simp

theorem endpoint_loc_reply_delivered_witness:
  "\<exists>pkt d'. sends (\<lambda>s. s) sample_node (sample_msg DPS_ENDPOINT_LOC_REPLY (Endpoint_loc_reply sample_loc_reply)) dps_pkt_stats_tbl 0 pkt \<and> got_loc_reply sample_loc_reply zero_loc_reply d' \<and>
     dps_process_rcvd_pkt sample_node (pkt @ [0, 1]) sample_ip6 (dps_pkt_stats_tbl, 4) = count_rcvd DPS_ENDPOINT_LOC_REPLY (deliver_answer True sample_node
       (delivered_hdr sample_node (sample_msg DPS_ENDPOINT_LOC_REPLY (Endpoint_loc_reply sample_loc_reply)) 0 sample_ip6) (Endpoint_loc_reply d') (dps_pkt_stats_tbl, snd (lk_malloc sample_node 4)))"
proof -
  have "ok_loc_reply_msg (cd_hdr (sample_msg DPS_ENDPOINT_LOC_REPLY (Endpoint_loc_reply sample_loc_reply))) sample_loc_reply"
    by (simp add: ok_loc_reply_msg_def sample_loc_ok sample_ready)
  then show ?thesis
    using endpoint_loc_reply_delivered [where d = sample_loc_reply and req = "sample_msg DPS_ENDPOINT_LOC_REPLY (Endpoint_loc_reply sample_loc_reply)" and lk = sample_node and w = 0 and tbl = dps_pkt_stats_tbl and 'v = int] sample_ready
    by simp blast
qed

lemma sample_update_ok: "ok_update_msg sample_update"
  using ok_sample_tunnels [of 1166] sample_addr_ok
  by (simp add: ok_update_msg_def ok_update_def sample_update_def client_addr_len_def endpoint_tlv_len_def ip_tlv_len_def ok_ip_def
      tunnel_list_len_def tunnels_len_def tunnel_len_def samples)

text \<open>
  An endpoint update arrives with the endpoint, its version, its address, every tunnel and the
  address of the client.
\<close>

theorem endpoint_update_delivered:
  fixes lk :: "'w dps_link" and d :: dps_endpoint_update_t
  assumes "ok_update_msg d" and "cd_body req = Endpoint_update d" and "ch_type (cd_hdr req) = DPS_ENDPOINT_UPDATE" and "has_buffer lk w" and "may_send lk w"
    and "length tbl = unat DPS_MAX_MSG_TYPE"
  shows "\<exists>pkt. sends (\<lambda>s. s) lk req tbl w pkt \<and> (\<forall>(lk' :: 'v dps_link) w' tbl' addr junk. has_buffer lk' w' \<longrightarrow>
    (\<exists>d'. got_update_msg d addr d' \<and> dps_process_rcvd_pkt lk' (pkt @ junk) addr (tbl', w') =
       count_rcvd DPS_ENDPOINT_UPDATE (deliver lk' (delivered_hdr lk req w addr) (Endpoint_update d') (tbl', snd (lk_malloc lk' w')))))"
  using update_msg.end_to_end [where req = req and d = d and lk = lk and w = w and tbl = tbl] assms by simp

theorem endpoint_update_delivered_witness:
  "\<exists>pkt d'. sends (\<lambda>s. s) sample_node (sample_msg DPS_ENDPOINT_UPDATE (Endpoint_update sample_update)) dps_pkt_stats_tbl 0 pkt \<and> got_update_msg sample_update sample_ip6 d' \<and>
     dps_process_rcvd_pkt sample_node (pkt @ [0, 1]) sample_ip6 (dps_pkt_stats_tbl, 4) = count_rcvd DPS_ENDPOINT_UPDATE (deliver sample_node
       (delivered_hdr sample_node (sample_msg DPS_ENDPOINT_UPDATE (Endpoint_update sample_update)) 0 sample_ip6) (Endpoint_update d') (dps_pkt_stats_tbl, snd (lk_malloc sample_node 4)))"
proof -
  have "ok_update_msg sample_update"
    by (simp add: sample_update_ok)
  then show ?thesis
    using endpoint_update_delivered [where d = sample_update and req = "sample_msg DPS_ENDPOINT_UPDATE (Endpoint_update sample_update)" and lk = sample_node and w = 0 and tbl = dps_pkt_stats_tbl and 'v = int] sample_ready
    by simp blast
qed

lemma sample_update_reply_ok: "ok_update_reply_msg sample_update_reply"
  using ok_sample_tunnels [of 1154]
  by (simp add: ok_update_reply_msg_def sample_update_reply_def zero_update_reply_def ok_update_reply_def vips_def wf_mac_def
      list_all_iff update_reply_len_def tunnel_list_len_def tunnels_len_def tunnel_len_def samples)

text \<open>
  C26. An endpoint update reply with IPv4 virtual addresses arrives with all of them and every tunnel, and
  the receiver stops the retransmission of the update.
\<close>

theorem endpoint_update_reply_delivered:
  fixes lk :: "'w dps_link" and d :: dps_endpoint_update_reply_t
  assumes "ok_update_reply_msg d" and "cd_body req = Endpoint_update_reply d" and "ch_type (cd_hdr req) = DPS_ENDPOINT_UPDATE_REPLY" and "has_buffer lk w" and "may_send lk w"
    and "length tbl = unat DPS_MAX_MSG_TYPE"
  shows "\<exists>pkt. sends (\<lambda>s. s) lk req tbl w pkt \<and> (\<forall>(lk' :: 'v dps_link) w' tbl' addr junk. has_buffer lk' w' \<longrightarrow>
    (\<exists>d'. got_update_reply d d' \<and> dps_process_rcvd_pkt lk' (pkt @ junk) addr (tbl', w') =
       count_rcvd DPS_ENDPOINT_UPDATE_REPLY (deliver_answer True lk' (delivered_hdr lk req w addr) (Endpoint_update_reply d') (tbl', snd (lk_malloc lk' w')))))"
  using update_reply_msg.end_to_end [where req = req and d = d and lk = lk and w = w and tbl = tbl] assms by simp

theorem endpoint_update_reply_delivered_witness:
  "\<exists>pkt d'. sends (\<lambda>s. s) sample_node (sample_msg DPS_ENDPOINT_UPDATE_REPLY (Endpoint_update_reply sample_update_reply)) dps_pkt_stats_tbl 0 pkt \<and> got_update_reply sample_update_reply d' \<and>
     dps_process_rcvd_pkt sample_node (pkt @ [0, 1]) sample_ip6 (dps_pkt_stats_tbl, 4) = count_rcvd DPS_ENDPOINT_UPDATE_REPLY (deliver_answer True sample_node
       (delivered_hdr sample_node (sample_msg DPS_ENDPOINT_UPDATE_REPLY (Endpoint_update_reply sample_update_reply)) 0 sample_ip6) (Endpoint_update_reply d') (dps_pkt_stats_tbl, snd (lk_malloc sample_node 4)))"
proof -
  have "ok_update_reply_msg sample_update_reply"
    by (simp add: sample_update_reply_ok)
  then show ?thesis
    using endpoint_update_reply_delivered [where d = sample_update_reply and req = "sample_msg DPS_ENDPOINT_UPDATE_REPLY (Endpoint_update_reply sample_update_reply)" and lk = sample_node and w = 0 and tbl = dps_pkt_stats_tbl and 'v = int] sample_ready
    by simp blast
qed

definition sample_policy_req :: dps_policy_req_t where
  "sample_policy_req = \<lparr>pq_dst_endpoint = sample_endpoint, pq_src_endpoint = sample_endpoint, pq_dps_client_addr = sample_ip\<rparr>"

text \<open>
  A policy request arrives with both endpoints and the address of the client.
\<close>

theorem policy_req_delivered:
  fixes lk :: "'w dps_link" and d :: dps_policy_req_t
  assumes "ok_policy_req d" and "cd_body req = Policy_req d" and "ch_type (cd_hdr req) = DPS_POLICY_REQ" and "has_buffer lk w" and "may_send lk w"
    and "length tbl = unat DPS_MAX_MSG_TYPE"
  shows "\<exists>pkt. sends (\<lambda>s. s) lk req tbl w pkt \<and> (\<forall>(lk' :: 'v dps_link) w' tbl' addr junk. has_buffer lk' w' \<longrightarrow>
    (\<exists>d'. got_policy_req d addr d' \<and> dps_process_rcvd_pkt lk' (pkt @ junk) addr (tbl', w') =
       count_rcvd DPS_POLICY_REQ (deliver lk' (delivered_hdr lk req w addr) (Policy_req d') (tbl', snd (lk_malloc lk' w')))))"
  using policy_req_msg.end_to_end [where req = req and d = d and lk = lk and w = w and tbl = tbl] assms by simp

theorem policy_req_delivered_witness:
  "\<exists>pkt d'. sends (\<lambda>s. s) sample_node (sample_msg DPS_POLICY_REQ (Policy_req sample_policy_req)) dps_pkt_stats_tbl 0 pkt \<and> got_policy_req sample_policy_req sample_ip6 d' \<and>
     dps_process_rcvd_pkt sample_node (pkt @ [0, 1]) sample_ip6 (dps_pkt_stats_tbl, 4) = count_rcvd DPS_POLICY_REQ (deliver sample_node
       (delivered_hdr sample_node (sample_msg DPS_POLICY_REQ (Policy_req sample_policy_req)) 0 sample_ip6) (Policy_req d') (dps_pkt_stats_tbl, snd (lk_malloc sample_node 4)))"
proof -
  have "ok_policy_req sample_policy_req"
    by (simp add: sample_policy_req_def ok_policy_req_def sample_addr_ok)
  then show ?thesis
    using policy_req_delivered [where d = sample_policy_req and req = "sample_msg DPS_POLICY_REQ (Policy_req sample_policy_req)" and lk = sample_node and w = 0 and tbl = dps_pkt_stats_tbl and 'v = int] sample_ready
    by simp blast
qed

definition sample_policy_reply :: dps_policy_reply_t where
  "sample_policy_reply = \<lparr>pr_dps_policy_info = sample_policy\<lparr>pi_dps_policy := (pi_dps_policy sample_policy)\<lparr>po_num_deny_rules := 0,
     po_src_dst_vnid := [\<lparr>sd_svnid = 1, sd_dvnid = 2\<rparr>]\<rparr>\<rparr>, pr_dst_endpoint_loc_reply = sample_loc_reply\<rparr>"

lemma sample_policy_reply_ok: "ch_resp_status h = 0 \<Longrightarrow> ok_policy_reply h sample_policy_reply"
  using sample_loc_ok(1) [of 1166] sample_loc_ok(2)
  by (simp add: sample_policy_reply_def sample_policy_def ok_policy_reply_def ok_policy_info_def wf_policy_def policy_reply_size_def
      policy_tlv_len_def policy_rules_len_def rule_group_len_def)

text \<open>
  C10. A policy reply with at most one connectivity rule arrives with the location of the destination and
  the policy, and the receiver stops the retransmission of the request.  The sender reports success
  whatever the transmission returns.
\<close>

theorem policy_reply_delivered:
  fixes lk :: "'w dps_link" and d :: dps_policy_reply_t
  assumes "ok_policy_reply (cd_hdr req) d" and "cd_body req = Policy_reply d" and "ch_type (cd_hdr req) = DPS_POLICY_REPLY" and "has_buffer lk w" and "may_send lk w"
    and "length tbl = unat DPS_MAX_MSG_TYPE"
  shows "\<exists>pkt. sends (\<lambda>_. DPS_SUCCESS) lk req tbl w pkt \<and> (\<forall>(lk' :: 'v dps_link) w' tbl' addr junk. has_buffer lk' w' \<longrightarrow>
    (\<exists>d'. got_policy_reply d d' \<and> dps_process_rcvd_pkt lk' (pkt @ junk) addr (tbl', w') =
       count_rcvd DPS_POLICY_REPLY (deliver_answer False lk' (delivered_hdr lk req w addr) (Policy_reply d') (tbl', snd (lk_malloc lk' w')))))"
  using policy_reply_msg.end_to_end [where req = req and d = d and lk = lk and w = w and tbl = tbl] assms by simp

theorem policy_reply_delivered_witness:
  "\<exists>pkt d'. sends (\<lambda>_. DPS_SUCCESS) sample_node (sample_msg DPS_POLICY_REPLY (Policy_reply sample_policy_reply)) dps_pkt_stats_tbl 0 pkt \<and> got_policy_reply sample_policy_reply d' \<and>
     dps_process_rcvd_pkt sample_node (pkt @ [0, 1]) sample_ip6 (dps_pkt_stats_tbl, 4) = count_rcvd DPS_POLICY_REPLY (deliver_answer False sample_node
       (delivered_hdr sample_node (sample_msg DPS_POLICY_REPLY (Policy_reply sample_policy_reply)) 0 sample_ip6) (Policy_reply d') (dps_pkt_stats_tbl, snd (lk_malloc sample_node 4)))"
proof -
  have "ok_policy_reply (cd_hdr (sample_msg DPS_POLICY_REPLY (Policy_reply sample_policy_reply))) sample_policy_reply"
    by (simp add: sample_policy_reply_ok sample_ready)
  then show ?thesis
    using policy_reply_delivered [where d = sample_policy_reply and req = "sample_msg DPS_POLICY_REPLY (Policy_reply sample_policy_reply)" and lk = sample_node and w = 0 and tbl = dps_pkt_stats_tbl and 'v = int] sample_ready
    by simp blast
qed

definition sample_gw :: dps_internal_gw_t where
  "sample_gw = \<lparr>gw_num_v4_gw = 1, gw_num_v6_gw = 1, gw_gw_list = map word_of_nat [1..<21]\<rparr>"

text \<open>
  A list of internal gateways arrives address by address.  An answer stops the retransmission of
  the request; an unsolicited list is acknowledged.
\<close>

theorem internal_gw_list_delivered:
  fixes lk :: "'w dps_link" and d :: dps_internal_gw_t
  assumes "ok_gw (cd_hdr req) d" and "cd_body req = Internal_gw_list d" and "ch_type (cd_hdr req) = t" and "t \<in> {DPS_INTERNAL_GW_REPLY, DPS_UNSOLICITED_INTERNAL_GW_REPLY}" and "has_buffer lk w" and "may_send lk w"
    and "length tbl = unat DPS_MAX_MSG_TYPE"
  shows "\<exists>pkt. sends (\<lambda>s. s) lk req tbl w pkt \<and> (\<forall>(lk' :: 'v dps_link) w' tbl' addr junk. has_buffer lk' w' \<longrightarrow>
    (\<exists>d'. got_gw d d' \<and> dps_process_rcvd_pkt lk' (pkt @ junk) addr (tbl', w') =
       count_rcvd t ((if t = DPS_UNSOLICITED_INTERNAL_GW_REPLY then deliver_acked else deliver_answer False) lk' (delivered_hdr lk req w addr) (Internal_gw_list d') (tbl', snd (lk_malloc lk' w')))))"
  using assms gw_reply_msg.end_to_end [where req = req and d = d and lk = lk and w = w and tbl = tbl]
    unsolicited_gw_msg.end_to_end [where req = req and d = d and lk = lk and w = w and tbl = tbl]
  by auto

theorem internal_gw_list_delivered_witness:
  "\<exists>pkt d'. sends (\<lambda>s. s) sample_node (sample_msg DPS_UNSOLICITED_INTERNAL_GW_REPLY (Internal_gw_list sample_gw)) dps_pkt_stats_tbl 0 pkt \<and> got_gw sample_gw d' \<and>
     dps_process_rcvd_pkt sample_node (pkt @ [0, 1]) sample_ip6 (dps_pkt_stats_tbl, 4) = count_rcvd DPS_UNSOLICITED_INTERNAL_GW_REPLY (deliver_acked sample_node
       (delivered_hdr sample_node (sample_msg DPS_UNSOLICITED_INTERNAL_GW_REPLY (Internal_gw_list sample_gw)) 0 sample_ip6) (Internal_gw_list d') (dps_pkt_stats_tbl, snd (lk_malloc sample_node 4)))"
proof -
  have "ok_gw (cd_hdr (sample_msg DPS_UNSOLICITED_INTERNAL_GW_REPLY (Internal_gw_list sample_gw))) sample_gw"
    by (simp add: sample_gw_def ok_lists_def sample_ready)
  then show ?thesis
    using internal_gw_list_delivered [where d = sample_gw and req = "sample_msg DPS_UNSOLICITED_INTERNAL_GW_REPLY (Internal_gw_list sample_gw)" and t = DPS_UNSOLICITED_INTERNAL_GW_REPLY and lk = sample_node and w = 0 and tbl = dps_pkt_stats_tbl and 'v = int] sample_ready
    by simp blast
qed

text \<open>
  A list of the switches of a VNID arrives address by address.  An answer stops the
  retransmission of the request; an unsolicited list is acknowledged.
\<close>

theorem switch_list_delivered:
  fixes lk :: "'w dps_link" and d :: dps_pkd_tunnel_list_t
  assumes "ok_switches (cd_hdr req) d" and "cd_body req = Dove_switch_list d" and "ch_type (cd_hdr req) = t" and "t \<in> {DPS_BCAST_LIST_REPLY, DPS_UNSOLICITED_BCAST_LIST_REPLY}" and "has_buffer lk w" and "may_send lk w"
    and "length tbl = unat DPS_MAX_MSG_TYPE"
  shows "\<exists>pkt. sends (\<lambda>s. s) lk req tbl w pkt \<and> (\<forall>(lk' :: 'v dps_link) w' tbl' addr junk. has_buffer lk' w' \<longrightarrow>
    (\<exists>d'. got_switches d d' \<and> dps_process_rcvd_pkt lk' (pkt @ junk) addr (tbl', w') =
       count_rcvd t ((if t = DPS_UNSOLICITED_BCAST_LIST_REPLY then deliver_acked else deliver_answer False) lk' (delivered_hdr lk req w addr) (Dove_switch_list d') (tbl', snd (lk_malloc lk' w')))))"
  using assms switches_msg.end_to_end [where req = req and d = d and lk = lk and w = w and tbl = tbl]
    unsolicited_switches_msg.end_to_end [where req = req and d = d and lk = lk and w = w and tbl = tbl]
  by auto

theorem switch_list_delivered_witness:
  "\<exists>pkt d'. sends (\<lambda>s. s) sample_node (sample_msg DPS_UNSOLICITED_BCAST_LIST_REPLY (Dove_switch_list sample_pkd)) dps_pkt_stats_tbl 0 pkt \<and> got_switches sample_pkd d' \<and>
     dps_process_rcvd_pkt sample_node (pkt @ [0, 1]) sample_ip6 (dps_pkt_stats_tbl, 4) = count_rcvd DPS_UNSOLICITED_BCAST_LIST_REPLY (deliver_acked sample_node
       (delivered_hdr sample_node (sample_msg DPS_UNSOLICITED_BCAST_LIST_REPLY (Dove_switch_list sample_pkd)) 0 sample_ip6) (Dove_switch_list d') (dps_pkt_stats_tbl, snd (lk_malloc sample_node 4)))"
proof -
  have "ok_switches (cd_hdr (sample_msg DPS_UNSOLICITED_BCAST_LIST_REPLY (Dove_switch_list sample_pkd))) sample_pkd"
    by (simp add: sample_pkd_def ok_lists_def sample_ready)
  then show ?thesis
    using switch_list_delivered [where d = sample_pkd and req = "sample_msg DPS_UNSOLICITED_BCAST_LIST_REPLY (Dove_switch_list sample_pkd)" and t = DPS_UNSOLICITED_BCAST_LIST_REPLY and lk = sample_node and w = 0 and tbl = dps_pkt_stats_tbl and 'v = int] sample_ready
    by simp blast
qed

lemma sample_gateways_ok: "ch_resp_status h = 0 \<Longrightarrow> ok_gateways h sample_tunnels"
  using ok_sample_tunnels [of 1168] by (simp add: ok_gateways_def tunnel_list_len_def tunnels_len_def tunnel_len_def samples)

text \<open>
  C27. A list of external, VLAN or multicast gateways arrives tunnel by tunnel, for all five message types
  that carry one.
\<close>

theorem gw_list_delivered:
  fixes lk :: "'w dps_link" and d :: dps_tunnel_list_t
  assumes "ok_gateways (cd_hdr req) d" and "cd_body req = Tunnel_info d" and "ch_type (cd_hdr req) = t" and "t \<in> {DPS_EXTERNAL_GW_LIST_REPLY, DPS_VLAN_GW_LIST_REPLY, DPS_MCAST_CTRL_GW_REPLY, DPS_UNSOLICITED_EXTERNAL_GW_LIST, DPS_UNSOLICITED_VLAN_GW_LIST}" and "has_buffer lk w" and "may_send lk w"
    and "length tbl = unat DPS_MAX_MSG_TYPE"
  shows "\<exists>pkt. sends (\<lambda>s. s) lk req tbl w pkt \<and> (\<forall>(lk' :: 'v dps_link) w' tbl' addr junk. has_buffer lk' w' \<longrightarrow>
    (\<exists>d'. got_tunnels d d' \<and> dps_process_rcvd_pkt lk' (pkt @ junk) addr (tbl', w') =
       count_rcvd t ((if t \<in> {DPS_UNSOLICITED_EXTERNAL_GW_LIST, DPS_UNSOLICITED_VLAN_GW_LIST} then deliver_acked else deliver_answer False) lk' (delivered_hdr lk req w addr) (Tunnel_info d') (tbl', snd (lk_malloc lk' w')))))"
  using assms external_gw_msg.end_to_end [where req = req and d = d and lk = lk and w = w and tbl = tbl]
    vlan_gw_msg.end_to_end [where req = req and d = d and lk = lk and w = w and tbl = tbl]
    mcast_ctrl_gw_msg.end_to_end [where req = req and d = d and lk = lk and w = w and tbl = tbl]
    unsolicited_external_gw_msg.end_to_end [where req = req and d = d and lk = lk and w = w and tbl = tbl]
    unsolicited_vlan_gw_msg.end_to_end [where req = req and d = d and lk = lk and w = w and tbl = tbl]
  by auto

theorem gw_list_delivered_witness:
  "\<exists>pkt d'. sends (\<lambda>s. s) sample_node (sample_msg DPS_UNSOLICITED_VLAN_GW_LIST (Tunnel_info sample_tunnels)) dps_pkt_stats_tbl 0 pkt \<and> got_tunnels sample_tunnels d' \<and>
     dps_process_rcvd_pkt sample_node (pkt @ [0, 1]) sample_ip6 (dps_pkt_stats_tbl, 4) = count_rcvd DPS_UNSOLICITED_VLAN_GW_LIST (deliver_acked sample_node
       (delivered_hdr sample_node (sample_msg DPS_UNSOLICITED_VLAN_GW_LIST (Tunnel_info sample_tunnels)) 0 sample_ip6) (Tunnel_info d') (dps_pkt_stats_tbl, snd (lk_malloc sample_node 4)))"
proof -
  have "ok_gateways (cd_hdr (sample_msg DPS_UNSOLICITED_VLAN_GW_LIST (Tunnel_info sample_tunnels))) sample_tunnels"
    by (simp add: sample_gateways_ok sample_ready)
  then show ?thesis
    using gw_list_delivered [where d = sample_tunnels and req = "sample_msg DPS_UNSOLICITED_VLAN_GW_LIST (Tunnel_info sample_tunnels)" and t = DPS_UNSOLICITED_VLAN_GW_LIST and lk = sample_node and w = 0 and tbl = dps_pkt_stats_tbl and 'v = int] sample_ready
    by simp blast
qed

definition sample_tunnel_reg :: dps_tunnel_reg_dereg_t where
  "sample_tunnel_reg = \<lparr>td_dps_client_addr = sample_ip, td_tunnel_info = sample_tunnels\<rparr>"

lemma sample_tunnel_reg_ok: "ch_resp_status h = 0 \<Longrightarrow> ok_tunnel_reg h sample_tunnel_reg"
  using ok_sample_tunnels [of 1167] sample_addr_ok
  by (simp add: sample_tunnel_reg_def ok_tunnel_reg_def tunnel_reg_size_def client_addr_len_def tunnel_list_len_def tunnels_len_def
      tunnel_len_def samples)

text \<open>
  The registration and the deregistration of tunnels arrive with every tunnel and the address of the
  client.
\<close>

theorem tunnel_registration_delivered:
  fixes lk :: "'w dps_link" and d :: dps_tunnel_reg_dereg_t
  assumes "ok_tunnel_reg (cd_hdr req) d" and "cd_body req = Tunnel_reg_dereg d" and "ch_type (cd_hdr req) = t" and "t \<in> {DPS_TUNNEL_REGISTER, DPS_TUNNEL_DEREGISTER}" and "has_buffer lk w" and "may_send lk w"
    and "length tbl = unat DPS_MAX_MSG_TYPE"
  shows "\<exists>pkt. sends (\<lambda>s. s) lk req tbl w pkt \<and> (\<forall>(lk' :: 'v dps_link) w' tbl' addr junk. has_buffer lk' w' \<longrightarrow>
    (\<exists>d'. got_tunnel_reg d addr d' \<and> dps_process_rcvd_pkt lk' (pkt @ junk) addr (tbl', w') =
       count_rcvd t (deliver lk' (delivered_hdr lk req w addr) (Tunnel_reg_dereg d') (tbl', snd (lk_malloc lk' w')))))"
  using assms tunnel_register_msg.end_to_end [where req = req and d = d and lk = lk and w = w and tbl = tbl]
    tunnel_deregister_msg.end_to_end [where req = req and d = d and lk = lk and w = w and tbl = tbl]
  by auto

theorem tunnel_registration_delivered_witness:
  "\<exists>pkt d'. sends (\<lambda>s. s) sample_node (sample_msg DPS_TUNNEL_DEREGISTER (Tunnel_reg_dereg sample_tunnel_reg)) dps_pkt_stats_tbl 0 pkt \<and> got_tunnel_reg sample_tunnel_reg sample_ip6 d' \<and>
     dps_process_rcvd_pkt sample_node (pkt @ [0, 1]) sample_ip6 (dps_pkt_stats_tbl, 4) = count_rcvd DPS_TUNNEL_DEREGISTER (deliver sample_node
       (delivered_hdr sample_node (sample_msg DPS_TUNNEL_DEREGISTER (Tunnel_reg_dereg sample_tunnel_reg)) 0 sample_ip6) (Tunnel_reg_dereg d') (dps_pkt_stats_tbl, snd (lk_malloc sample_node 4)))"
proof -
  have "ok_tunnel_reg (cd_hdr (sample_msg DPS_TUNNEL_DEREGISTER (Tunnel_reg_dereg sample_tunnel_reg))) sample_tunnel_reg"
    by (simp add: sample_tunnel_reg_ok sample_ready)
  then show ?thesis
    using tunnel_registration_delivered [where d = sample_tunnel_reg and req = "sample_msg DPS_TUNNEL_DEREGISTER (Tunnel_reg_dereg sample_tunnel_reg)" and t = DPS_TUNNEL_DEREGISTER and lk = sample_node and w = 0 and tbl = dps_pkt_stats_tbl and 'v = int] sample_ready
    by simp blast
qed

definition sample_migration :: dps_vm_migration_event_t where
  "sample_migration = \<lparr>vm_migrated_vm_info = sample_endpoint, vm_src_vm_loc = sample_loc_reply\<rparr>"

lemma sample_migration_ok: "ok_migration sample_migration"
  using sample_loc_ok(1) [of 1165] sample_loc_ok(2) sample_addr_ok by (simp add: sample_migration_def ok_migration_def ei_len_def)

text \<open>
  A VM migration event arrives with the endpoint that moved and its former location.
\<close>

theorem migration_delivered:
  fixes lk :: "'w dps_link" and d :: dps_vm_migration_event_t
  assumes "ok_migration d" and "cd_body req = Vm_migration_event d" and "ch_type (cd_hdr req) = DPS_VM_MIGRATION_EVENT" and "has_buffer lk w" and "may_send lk w"
    and "length tbl = unat DPS_MAX_MSG_TYPE"
  shows "\<exists>pkt. sends (\<lambda>s. s) lk req tbl w pkt \<and> (\<forall>(lk' :: 'v dps_link) w' tbl' addr junk. has_buffer lk' w' \<longrightarrow>
    (\<exists>d'. got_migration d d' \<and> dps_process_rcvd_pkt lk' (pkt @ junk) addr (tbl', w') =
       count_rcvd DPS_VM_MIGRATION_EVENT (deliver lk' (delivered_hdr lk req w addr) (Vm_migration_event d') (tbl', snd (lk_malloc lk' w')))))"
  using migration_msg.end_to_end [where req = req and d = d and lk = lk and w = w and tbl = tbl] assms by simp

theorem migration_delivered_witness:
  "\<exists>pkt d'. sends (\<lambda>s. s) sample_node (sample_msg DPS_VM_MIGRATION_EVENT (Vm_migration_event sample_migration)) dps_pkt_stats_tbl 0 pkt \<and> got_migration sample_migration d' \<and>
     dps_process_rcvd_pkt sample_node (pkt @ [0, 1]) sample_ip6 (dps_pkt_stats_tbl, 4) = count_rcvd DPS_VM_MIGRATION_EVENT (deliver sample_node
       (delivered_hdr sample_node (sample_msg DPS_VM_MIGRATION_EVENT (Vm_migration_event sample_migration)) 0 sample_ip6) (Vm_migration_event d') (dps_pkt_stats_tbl, snd (lk_malloc sample_node 4)))"
proof -
  have "ok_migration sample_migration"
    by (simp add: sample_migration_ok)
  then show ?thesis
    using migration_delivered [where d = sample_migration and req = "sample_msg DPS_VM_MIGRATION_EVENT (Vm_migration_event sample_migration)" and lk = sample_node and w = 0 and tbl = dps_pkt_stats_tbl and 'v = int] sample_ready
    by simp blast
qed

lemma sample_invalidate_ok: "ok_invalidate sample_epri"
  using ok_sample_tunnels [of 1151]
  by (simp add: ok_invalidate_def sample_epri_def ok_epri_def wf_mac_def wf_ip4_infos_def wf_ip6_infos_def zero_epri_def list_all_iff
      epri_tlv_len_def tunnel_list_len_def tunnels_len_def tunnel_len_def samples)

text \<open>
  The location information of a VM arrives with the endpoint, both address lists and the tunnels, and
  is acknowledged.
\<close>

theorem vm_loc_info_delivered:
  fixes lk :: "'w dps_link" and d :: dps_epri_t
  assumes "ok_invalidate d" and "cd_body req = Vm_invalidate_msg d" and "ch_type (cd_hdr req) = DPS_UNSOLICITED_VM_LOC_INFO" and "has_buffer lk w" and "may_send lk w"
    and "length tbl = unat DPS_MAX_MSG_TYPE"
  shows "\<exists>pkt. sends (\<lambda>_. DPS_SUCCESS) lk req tbl w pkt \<and> (\<forall>(lk' :: 'v dps_link) w' tbl' addr junk. has_buffer lk' w' \<longrightarrow>
    (\<exists>d'. got_epri d d' \<and> dps_process_rcvd_pkt lk' (pkt @ junk) addr (tbl', w') =
       count_rcvd DPS_UNSOLICITED_VM_LOC_INFO (deliver_acked lk' (delivered_hdr lk req w addr) (Vm_invalidate_msg d') (tbl', snd (lk_malloc lk' w')))))"
  using invalidate_msg.end_to_end [where req = req and d = d and lk = lk and w = w and tbl = tbl] assms by simp

theorem vm_loc_info_delivered_witness:
  "\<exists>pkt d'. sends (\<lambda>_. DPS_SUCCESS) sample_node (sample_msg DPS_UNSOLICITED_VM_LOC_INFO (Vm_invalidate_msg sample_epri)) dps_pkt_stats_tbl 0 pkt \<and> got_epri sample_epri d' \<and>
     dps_process_rcvd_pkt sample_node (pkt @ [0, 1]) sample_ip6 (dps_pkt_stats_tbl, 4) = count_rcvd DPS_UNSOLICITED_VM_LOC_INFO (deliver_acked sample_node
       (delivered_hdr sample_node (sample_msg DPS_UNSOLICITED_VM_LOC_INFO (Vm_invalidate_msg sample_epri)) 0 sample_ip6) (Vm_invalidate_msg d') (dps_pkt_stats_tbl, snd (lk_malloc sample_node 4)))"
proof -
  have "ok_invalidate sample_epri"
    by (simp add: sample_invalidate_ok)
  then show ?thesis
    using vm_loc_info_delivered [where d = sample_epri and req = "sample_msg DPS_UNSOLICITED_VM_LOC_INFO (Vm_invalidate_msg sample_epri)" and lk = sample_node and w = 0 and tbl = dps_pkt_stats_tbl and 'v = int] sample_ready
    by simp blast
qed

definition sample_mcast_sender :: dps_mcast_sender_t where
  "sample_mcast_sender = \<lparr>ms_tunnel_endpoint = sample_ip, ms_mcast_src_vm = sample_endpoint,
     ms_mcast_addr = mg_mcast_addr sample_grp_rec, ms_dps_client_addr = sample_ip\<rparr>"

lemma sample_mcast_sender_ok: "ok_mcast_sender sample_mcast_sender"
  using sample_addr_ok
  by (simp add: sample_mcast_sender_def ok_mcast_sender_def sample_grp_rec_def ok_mcast_addr_def zero_mcast_addr_def wf_mac_def zero_mac_def)

text \<open>
  The registration and the deregistration of a multicast sender arrive with the tunnel, the VM, the group
  and the address of the client.
\<close>

theorem mcast_sender_delivered:
  fixes lk :: "'w dps_link" and d :: dps_mcast_sender_t
  assumes "ok_mcast_sender d" and "cd_body req = Mcast_sender d" and "ch_type (cd_hdr req) = t" and "t \<in> {DPS_MCAST_SENDER_REGISTRATION, DPS_MCAST_SENDER_DEREGISTRATION}" and "has_buffer lk w" and "may_send lk w"
    and "length tbl = unat DPS_MAX_MSG_TYPE"
  shows "\<exists>pkt. sends (\<lambda>s. s) lk req tbl w pkt \<and> (\<forall>(lk' :: 'v dps_link) w' tbl' addr junk. has_buffer lk' w' \<longrightarrow>
    (\<exists>d'. got_mcast_sender d addr d' \<and> dps_process_rcvd_pkt lk' (pkt @ junk) addr (tbl', w') =
       count_rcvd t (deliver lk' (delivered_hdr lk req w addr) (Mcast_sender d') (tbl', snd (lk_malloc lk' w')))))"
  using assms mcast_register_msg.end_to_end [where req = req and d = d and lk = lk and w = w and tbl = tbl]
    mcast_deregister_msg.end_to_end [where req = req and d = d and lk = lk and w = w and tbl = tbl]
  by auto

theorem mcast_sender_delivered_witness:
  "\<exists>pkt d'. sends (\<lambda>s. s) sample_node (sample_msg DPS_MCAST_SENDER_DEREGISTRATION (Mcast_sender sample_mcast_sender)) dps_pkt_stats_tbl 0 pkt \<and> got_mcast_sender sample_mcast_sender sample_ip6 d' \<and>
     dps_process_rcvd_pkt sample_node (pkt @ [0, 1]) sample_ip6 (dps_pkt_stats_tbl, 4) = count_rcvd DPS_MCAST_SENDER_DEREGISTRATION (deliver sample_node
       (delivered_hdr sample_node (sample_msg DPS_MCAST_SENDER_DEREGISTRATION (Mcast_sender sample_mcast_sender)) 0 sample_ip6) (Mcast_sender d') (dps_pkt_stats_tbl, snd (lk_malloc sample_node 4)))"
proof -
  have "ok_mcast_sender sample_mcast_sender"
    by (simp add: sample_mcast_sender_ok)
  then show ?thesis
    using mcast_sender_delivered [where d = sample_mcast_sender and req = "sample_msg DPS_MCAST_SENDER_DEREGISTRATION (Mcast_sender sample_mcast_sender)" and t = DPS_MCAST_SENDER_DEREGISTRATION and lk = sample_node and w = 0 and tbl = dps_pkt_stats_tbl and 'v = int] sample_ready
    by simp blast
qed

definition sample_mcast_receiver :: dps_mcast_receiver_t where
  "sample_mcast_receiver = \<lparr>mr_tunnel_endpoint = sample_ip, mr_dps_client_addr = sample_ip, mr_mcast_group_rec = sample_grp_rec\<rparr>"

lemma sample_mcast_receiver_ok: "ok_mcast_receiver sample_mcast_receiver"
  using sample_addr_ok
  by (simp add: sample_mcast_receiver_def ok_mcast_receiver_def sample_grp_rec_def ok_grp_rec_def ok_mcast_addr_def zero_mcast_addr_def
      wf_mac_def zero_mac_def mcast_receiver_size_def ip_tlv_len_def grp_rec_len_def mcast_addr_len_def srcs_len_def client_addr_len_def)

text \<open>
  A multicast join and a multicast leave arrive with the tunnel, the group record and its
  sources and the address of the client.
\<close>

theorem mcast_receiver_delivered:
  fixes lk :: "'w dps_link" and d :: dps_mcast_receiver_t
  assumes "ok_mcast_receiver d" and "cd_body req = Mcast_receiver d" and "ch_type (cd_hdr req) = t" and "t \<in> {DPS_MCAST_RECEIVER_JOIN, DPS_MCAST_RECEIVER_LEAVE}" and "has_buffer lk w" and "may_send lk w"
    and "length tbl = unat DPS_MAX_MSG_TYPE"
  shows "\<exists>pkt. sends (\<lambda>s. s) lk req tbl w pkt \<and> (\<forall>(lk' :: 'v dps_link) w' tbl' addr junk. has_buffer lk' w' \<longrightarrow>
    (\<exists>d'. got_mcast_receiver d addr d' \<and> dps_process_rcvd_pkt lk' (pkt @ junk) addr (tbl', w') =
       count_rcvd t (deliver lk' (delivered_hdr lk req w addr) (Mcast_receiver d') (tbl', snd (lk_malloc lk' w')))))"
  using assms mcast_join_msg.end_to_end [where req = req and d = d and lk = lk and w = w and tbl = tbl]
    mcast_leave_msg.end_to_end [where req = req and d = d and lk = lk and w = w and tbl = tbl]
  by auto

theorem mcast_receiver_delivered_witness:
  "\<exists>pkt d'. sends (\<lambda>s. s) sample_node (sample_msg DPS_MCAST_RECEIVER_LEAVE (Mcast_receiver sample_mcast_receiver)) dps_pkt_stats_tbl 0 pkt \<and> got_mcast_receiver sample_mcast_receiver sample_ip6 d' \<and>
     dps_process_rcvd_pkt sample_node (pkt @ [0, 1]) sample_ip6 (dps_pkt_stats_tbl, 4) = count_rcvd DPS_MCAST_RECEIVER_LEAVE (deliver sample_node
       (delivered_hdr sample_node (sample_msg DPS_MCAST_RECEIVER_LEAVE (Mcast_receiver sample_mcast_receiver)) 0 sample_ip6) (Mcast_receiver d') (dps_pkt_stats_tbl, snd (lk_malloc sample_node 4)))"
proof -
  have "ok_mcast_receiver sample_mcast_receiver"
    by (simp add: sample_mcast_receiver_ok)
  then show ?thesis
    using mcast_receiver_delivered [where d = sample_mcast_receiver and req = "sample_msg DPS_MCAST_RECEIVER_LEAVE (Mcast_receiver sample_mcast_receiver)" and t = DPS_MCAST_RECEIVER_LEAVE and lk = sample_node and w = 0 and tbl = dps_pkt_stats_tbl and 'v = int] sample_ready
    by simp blast
qed

text \<open>
  C29. A bulk policy list arrives with both counts and every permit rule.  An answer stops the
  retransmission of the request; an unsolicited list is acknowledged.
\<close>

theorem bulk_policy_delivered:
  fixes lk :: "'w dps_link" and d :: dps_bulk_vnid_policy_t
  assumes "ok_bulk d" and "cd_body req = Bulk_vnid_policy d" and "ch_type (cd_hdr req) = t" and "t \<in> {DPS_VNID_POLICY_LIST_REPLY, DPS_UNSOLICITED_VNID_POLICY_LIST}" and "has_buffer lk w" and "may_send lk w"
    and "length tbl = unat DPS_MAX_MSG_TYPE"
  shows "\<exists>pkt. sends (\<lambda>s. s) lk req tbl w pkt \<and> (\<forall>(lk' :: 'v dps_link) w' tbl' addr junk. has_buffer lk' w' \<longrightarrow>
    (\<exists>d'. got_bulk d d' \<and> dps_process_rcvd_pkt lk' (pkt @ junk) addr (tbl', w') =
       count_rcvd t ((if t = DPS_UNSOLICITED_VNID_POLICY_LIST then deliver_acked else deliver_answer False) lk' (delivered_hdr lk req w addr) (Bulk_vnid_policy d') (tbl', snd (lk_malloc lk' w')))))"
  using assms bulk_reply_msg.end_to_end [where req = req and d = d and lk = lk and w = w and tbl = tbl]
    unsolicited_bulk_msg.end_to_end [where req = req and d = d and lk = lk and w = w and tbl = tbl]
  by auto

theorem bulk_policy_delivered_witness:
  "\<exists>pkt d'. sends (\<lambda>s. s) sample_node (sample_msg DPS_UNSOLICITED_VNID_POLICY_LIST (Bulk_vnid_policy sample_bulk)) dps_pkt_stats_tbl 0 pkt \<and> got_bulk sample_bulk d' \<and>
     dps_process_rcvd_pkt sample_node (pkt @ [0, 1]) sample_ip6 (dps_pkt_stats_tbl, 4) = count_rcvd DPS_UNSOLICITED_VNID_POLICY_LIST (deliver_acked sample_node
       (delivered_hdr sample_node (sample_msg DPS_UNSOLICITED_VNID_POLICY_LIST (Bulk_vnid_policy sample_bulk)) 0 sample_ip6) (Bulk_vnid_policy d') (dps_pkt_stats_tbl, snd (lk_malloc sample_node 4)))"
proof -
  have "ok_bulk sample_bulk"
    by (simp add: sample_bulk_def ok_bulk_def wf_bulk_def)
  then show ?thesis
    using bulk_policy_delivered [where d = sample_bulk and req = "sample_msg DPS_UNSOLICITED_VNID_POLICY_LIST (Bulk_vnid_policy sample_bulk)" and t = DPS_UNSOLICITED_VNID_POLICY_LIST and lk = sample_node and w = 0 and tbl = dps_pkt_stats_tbl and 'v = int] sample_ready
    by simp blast
qed

text \<open>
  A heartbeat is not handed on; the receiver acknowledges it.
\<close>

theorem heartbeat_acknowledged:
  fixes lk :: "'w dps_link" and d :: ip_addr_t
  assumes "wf_ip d" and "cd_body req = Gen_msg_req d" and "ch_type (cd_hdr req) = DPS_CTRL_PLANE_HB" and "has_buffer lk w" and "may_send lk w"
    and "length tbl = unat DPS_MAX_MSG_TYPE"
  shows "\<exists>pkt. sends (\<lambda>s. s) lk req tbl w pkt \<and> (\<forall>(lk' :: 'v dps_link) w' tbl' addr junk. has_buffer lk' w' \<longrightarrow>
    (\<exists>d'. got_client d addr d' \<and> dps_process_rcvd_pkt lk' (pkt @ junk) addr (tbl', w') =
       count_rcvd DPS_CTRL_PLANE_HB (acknowledge lk' (delivered_hdr lk req w addr) (Gen_msg_req d') (tbl', snd (lk_malloc lk' w')))))"
  using heartbeat_msg.end_to_end [where req = req and d = d and lk = lk and w = w and tbl = tbl] assms by simp

theorem heartbeat_acknowledged_witness:
  "\<exists>pkt d'. sends (\<lambda>s. s) sample_node (sample_msg DPS_CTRL_PLANE_HB (Gen_msg_req sample_ip)) dps_pkt_stats_tbl 0 pkt \<and> got_client sample_ip sample_ip6 d' \<and>
     dps_process_rcvd_pkt sample_node (pkt @ [0, 1]) sample_ip6 (dps_pkt_stats_tbl, 4) = count_rcvd DPS_CTRL_PLANE_HB (acknowledge sample_node
       (delivered_hdr sample_node (sample_msg DPS_CTRL_PLANE_HB (Gen_msg_req sample_ip)) 0 sample_ip6) (Gen_msg_req d') (dps_pkt_stats_tbl, snd (lk_malloc sample_node 4)))"
proof -
  have "wf_ip sample_ip"
    by (simp add: sample_addr_ok)
  then show ?thesis
    using heartbeat_acknowledged [where d = sample_ip and req = "sample_msg DPS_CTRL_PLANE_HB (Gen_msg_req sample_ip)" and lk = sample_node and w = 0 and tbl = dps_pkt_stats_tbl and 'v = int] sample_ready
    by simp blast
qed

text \<open>
  The requests that carry only the address of the client (for switch lists, gateways, policies and
  the deletion of a VNID) arrive with that address, or with the sender's where none was given.
\<close>

theorem requests_delivered:
  fixes lk :: "'w dps_link" and d :: ip_addr_t
  assumes "wf_ip d" and "cd_body req = Gen_msg_req d" and "ch_type (cd_hdr req) \<in> request_types" and "has_buffer lk w" and "may_send lk w"
    and "length tbl = unat DPS_MAX_MSG_TYPE"
  shows "\<exists>pkt. sends (\<lambda>s. s) lk req tbl w pkt \<and> (\<forall>(lk' :: 'v dps_link) w' tbl' addr junk. has_buffer lk' w' \<longrightarrow>
    (\<exists>d'. got_client d addr d' \<and> dps_process_rcvd_pkt lk' (pkt @ junk) addr (tbl', w') =
       count_rcvd (ch_type (cd_hdr req)) (deliver lk' (delivered_hdr lk req w addr) (Gen_msg_req d') (tbl', snd (lk_malloc lk' w')))))"
  using scanned_message.exchange [OF gen_msg_scanned [of "ch_type (cd_hdr req)" deliver], where req = req and d = d and lk = lk and w = w and tbl = tbl] assms by simp

theorem requests_delivered_witness:
  "\<exists>pkt d'. sends (\<lambda>s. s) sample_node (sample_msg DPS_BCAST_LIST_REQ (Gen_msg_req sample_ip)) dps_pkt_stats_tbl 0 pkt \<and> got_client sample_ip sample_ip6 d' \<and>
     dps_process_rcvd_pkt sample_node (pkt @ [0, 1]) sample_ip6 (dps_pkt_stats_tbl, 4) = count_rcvd DPS_BCAST_LIST_REQ (deliver sample_node
       (delivered_hdr sample_node (sample_msg DPS_BCAST_LIST_REQ (Gen_msg_req sample_ip)) 0 sample_ip6) (Gen_msg_req d')
       (dps_pkt_stats_tbl, snd (lk_malloc sample_node 4)))"
  using requests_delivered [where d = sample_ip and req = "sample_msg DPS_BCAST_LIST_REQ (Gen_msg_req sample_ip)" and lk = sample_node and w = 0
      and tbl = dps_pkt_stats_tbl and 'v = int] sample_ready sample_addr_ok
  by (simp add: request_types_def) blast

end
