(* ===== verification/Dps_Conduct.thy ===== *)
theory Dps_Conduct
  imports Dps_Exchange
begin

text \<open>
  How the dispatchers behave around the messages: acknowledgements, buffers,
  statistics, the reply made up after the last retransmission, and the inputs
  the packet code does not survive.
\<close>

section \<open>Acknowledgements\<close>

text \<open>
  C19. The acknowledgement a node sends for a message with a query id is one packet of the header only,
  counted as sent; the node that receives it stops the retransmission of exactly that query and
  hands on an acknowledgement whose subtype is the type of the acknowledged message.
\<close>

theorem ack_stops_retransmission:
  fixes lk :: "'w dps_link" and lk' :: "'v dps_link"
  assumes "ch_query_id h \<noteq> 0" and "may_send lk w" and "length tbl = unat DPS_MAX_MSG_TYPE" and "has_buffer lk' w'"
    and "ty = (if ch_type h \<in> set registration_types then DPS_REG_DEREGISTER_ACK else DPS_GENERAL_ACK)"
  shows "\<exists>pkt. length pkt = DPS_PKT_HDR_LEN \<and>
    dps_client_create_general_ack lk h (tbl, w) = (let (status, w2) = lk_xmit lk pkt (ch_reply_addr h) 0 w
      in Some (tbl[unat ty := count_sent status (tbl ! unat ty)], w2)) \<and>
    dps_process_rcvd_pkt lk' (pkt @ junk) addr (tbl', w') = count_rcvd ty (
      case dps_stop_retransmit_timer lk' (ch_query_id h) (snd (lk_malloc lk' w')) of ((ret, context), v) \<Rightarrow>
        Some (ret, (tbl', lk_free lk' (lk_deliver lk' \<lparr>cd_context = context, cd_hdr = zero_hdr\<lparr>ch_type := ty, ch_sub_type := ch_type h,
          ch_vnid := ch_vnid h, ch_query_id := ch_query_id h, ch_client_id := ch_client_id h,
          ch_transaction_type := (if lk_server lk then ch_transaction_type h else DPS_TRANSACTION_NORMAL),
          ch_resp_status := DPS_NO_ERR, ch_reply_addr := addr\<rparr>, cd_body = No_body\<rparr> v))))"
proof (intro exI conjI)
  have ty: "ch_type (ack_hdr h) = ty" using assms(5) by (simp add: ack_hdr_def)
  show "length (ack_packet lk h) = DPS_PKT_HDR_LEN" by (simp add: ack_packet_def)
  show "dps_client_create_general_ack lk h (tbl, w) = (let (status, w2) = lk_xmit lk (ack_packet lk h) (ch_reply_addr h) 0 w
      in Some (tbl[unat ty := count_sent status (tbl ! unat ty)], w2))"
    using ack_sent [OF assms(1-3)] by (simp add: ty Let_def)
  show "dps_process_rcvd_pkt lk' (ack_packet lk h @ junk) addr (tbl', w') = count_rcvd ty (
      case dps_stop_retransmit_timer lk' (ch_query_id h) (snd (lk_malloc lk' w')) of ((ret, context), v) \<Rightarrow>
        Some (ret, (tbl', lk_free lk' (lk_deliver lk' \<lparr>cd_context = context, cd_hdr = zero_hdr\<lparr>ch_type := ty, ch_sub_type := ch_type h,
          ch_vnid := ch_vnid h, ch_query_id := ch_query_id h, ch_client_id := ch_client_id h,
          ch_transaction_type := (if lk_server lk then ch_transaction_type h else DPS_TRANSACTION_NORMAL),
          ch_resp_status := DPS_NO_ERR, ch_reply_addr := addr\<rparr>, cd_body = No_body\<rparr> v))))"
    using ack_received [OF assms(4), of lk h junk addr tbl'] by (simp add: ty deliver_answer_def)
qed

theorem ack_stops_retransmission_witness:
  "\<exists>pkt. dps_client_create_general_ack sample_node (cd_hdr (sample_msg DPS_TUNNEL_REGISTER No_body)) (dps_pkt_stats_tbl, 0) =
      Some (dps_pkt_stats_tbl[28 := count_sent 0 (dps_pkt_stats_tbl ! 28)], 0) \<and>
    (\<exists>tbl. dps_process_rcvd_pkt sample_node (pkt @ []) sample_ip (dps_pkt_stats_tbl, 0) = Some (DPS_SUCCESS, (tbl, 0)))"
  using ack_stops_retransmission [where h = "cd_hdr (sample_msg DPS_TUNNEL_REGISTER No_body)" and lk = sample_node and w = 0
      and tbl = dps_pkt_stats_tbl and lk' = sample_node and w' = 0 and ty = DPS_REG_DEREGISTER_ACK and junk = "[]" and tbl' = dps_pkt_stats_tbl
      and addr = sample_ip] sample_ready
  by (fastforce simp: sample_msg_def zero_hdr_def registration_types_def sample_node_def dps_stop_retransmit_timer_def count_rcvd_def bump_def)

text \<open>
  An unsolicited endpoint location reply with a query id is handed on as an ordinary reply, and
  the acknowledgement for it carries the subtype of the ordinary reply (2) instead of the
  type that was sent (33).
\<close>

theorem unsolicited_loc_reply_ack:
  fixes lk :: "'w dps_link" and lk' :: "'v dps_link" and d :: dps_endpoint_loc_reply_t
  assumes "ok_loc_reply_msg (cd_hdr req) d" and "cd_body req = Endpoint_loc_reply d"
    and "ch_type (cd_hdr req) = DPS_UNSOLICITED_ENDPOINT_LOC_REPLY" and "ch_query_id (cd_hdr req) \<noteq> 0"
    and "has_buffer lk w" and "may_send lk w" and "length tbl = unat DPS_MAX_MSG_TYPE"
    and "has_buffer lk' w'" and "\<And>v. may_send lk' v" and "length tbl' = unat DPS_MAX_MSG_TYPE"
  shows "\<exists>pkt d' ack. sends (\<lambda>s. s) lk req tbl w pkt \<and> got_loc_reply d zero_loc_reply d' \<and>
    dps_process_rcvd_pkt lk' (pkt @ junk) addr (tbl', w') = count_rcvd DPS_UNSOLICITED_ENDPOINT_LOC_REPLY
      (case lk_xmit lk' ack addr 0 (lk_deliver lk' \<lparr>cd_context = 0, cd_hdr = (delivered_hdr lk req w addr)\<lparr>ch_type := DPS_ENDPOINT_LOC_REPLY\<rparr>,
          cd_body = Endpoint_loc_reply d'\<rparr> (snd (lk_malloc lk' w'))) of
        (status, v) \<Rightarrow> Some (DPS_SUCCESS, (tbl'[23 := count_sent status (tbl' ! 23)], lk_free lk' v))) \<and>
    ld8 1 ack = Some DPS_GENERAL_ACK \<and> ld16 12 ack = Some (htons (ucast DPS_ENDPOINT_LOC_REPLY))"
proof -
  let ?h = "(delivered_hdr lk req w addr)\<lparr>ch_type := DPS_ENDPOINT_LOC_REPLY\<rparr>"
  obtain pkt d' where pkt: "sends (\<lambda>s. s) lk req tbl w pkt" "got_loc_reply d zero_loc_reply d'"
    "dps_process_rcvd_pkt lk' (pkt @ junk) addr (tbl', w') = count_rcvd DPS_UNSOLICITED_ENDPOINT_LOC_REPLY
      (deliver_acked lk' ?h (Endpoint_loc_reply d') (tbl', snd (lk_malloc lk' w')))"
    using unsolicited_loc_reply_msg.end_to_end [where req = req and d = d and lk = lk and w = w and tbl = tbl and 'b = 'v] assms(1-8) by blast
  have h: "ch_query_id ?h \<noteq> 0" "ch_reply_addr ?h = addr" "ch_type (ack_hdr ?h) = DPS_GENERAL_ACK" "ch_sub_type (ack_hdr ?h) = DPS_ENDPOINT_LOC_REPLY"
    using assms(4) by (auto simp: delivered_hdr_def recv_hdr_def sent_hdr_def ack_hdr_def registration_types_def Let_def split: prod.splits if_splits)
  show ?thesis
  proof (intro exI conjI)
    show "ld8 1 (ack_packet lk' ?h) = Some DPS_GENERAL_ACK" "ld16 12 (ack_packet lk' ?h) = Some (htons (ucast DPS_ENDPOINT_LOC_REPLY))"
      using h by (simp_all add: ack_packet_def pkt_hdrb_def ld8_def ld16_def peek_def be16_def of_bytes16_def htons_def)
  qed (use pkt ack_sent [OF h(1) assms(9,10)] h in \<open>simp_all add: deliver_acked_def Let_def case_prod_unfold\<close>)
qed

theorem unsolicited_loc_reply_ack_witness:
  "\<exists>pkt d' tbl. sends (\<lambda>s. s) sample_node (sample_msg DPS_UNSOLICITED_ENDPOINT_LOC_REPLY (Endpoint_loc_reply sample_loc_reply)) dps_pkt_stats_tbl 0 pkt \<and>
    got_loc_reply sample_loc_reply zero_loc_reply d' \<and>
    dps_process_rcvd_pkt sample_node (pkt @ []) sample_ip6 (dps_pkt_stats_tbl, 0) = Some (DPS_SUCCESS, (tbl, 0))"
proof -
  have "ok_loc_reply_msg (cd_hdr (sample_msg DPS_UNSOLICITED_ENDPOINT_LOC_REPLY (Endpoint_loc_reply sample_loc_reply))) sample_loc_reply"
    "ch_query_id (cd_hdr (sample_msg DPS_UNSOLICITED_ENDPOINT_LOC_REPLY (Endpoint_loc_reply sample_loc_reply))) \<noteq> 0"
    by (simp_all add: ok_loc_reply_msg_def sample_loc_ok sample_ready) (simp add: sample_msg_def zero_hdr_def)
  then obtain pkt d' ack where *: "sends (\<lambda>s. s) sample_node (sample_msg DPS_UNSOLICITED_ENDPOINT_LOC_REPLY (Endpoint_loc_reply sample_loc_reply)) dps_pkt_stats_tbl 0 pkt"
    "got_loc_reply sample_loc_reply zero_loc_reply d'"
    "dps_process_rcvd_pkt sample_node (pkt @ []) sample_ip6 (dps_pkt_stats_tbl, 0) = count_rcvd DPS_UNSOLICITED_ENDPOINT_LOC_REPLY
      (case lk_xmit sample_node ack sample_ip6 0 (lk_deliver sample_node \<lparr>cd_context = 0, cd_hdr = (delivered_hdr sample_node
            (sample_msg DPS_UNSOLICITED_ENDPOINT_LOC_REPLY (Endpoint_loc_reply sample_loc_reply)) 0 sample_ip6)\<lparr>ch_type := DPS_ENDPOINT_LOC_REPLY\<rparr>,
          cd_body = Endpoint_loc_reply d'\<rparr> (snd (lk_malloc sample_node 0))) of
        (status, v) \<Rightarrow> Some (DPS_SUCCESS, (dps_pkt_stats_tbl[23 := count_sent status (dps_pkt_stats_tbl ! 23)], lk_free sample_node v)))"
    using unsolicited_loc_reply_ack [where lk = sample_node and lk' = sample_node and tbl = dps_pkt_stats_tbl and tbl' = dps_pkt_stats_tbl and junk = "[]"
        and addr = sample_ip6 and w = 0 and w' = 0, OF _ sample_msg_fields(1,2)] sample_ready by blast
  have "\<exists>tbl. dps_process_rcvd_pkt sample_node (pkt @ []) sample_ip6 (dps_pkt_stats_tbl, 0) = Some (DPS_SUCCESS, (tbl, 0))"
    unfolding *(3) using stats_length by (simp add: sample_node_def count_rcvd_def bump_def)
  with * show ?thesis by blast
qed

section \<open>Buffers\<close>

text \<open>
  C22. Whatever message is sent and whatever packet is received, a call that returns has freed every
  buffer it allocated: the number of buffers in use is what it was before.
\<close>

theorem buffers_balanced:
  assumes "accounts lk used"
  shows "(dps_protocol_client_send lk msg (tbl, w) = Some (ret, h, (tbl', w')) \<longrightarrow> used w' = used w) \<and>
    (dps_process_rcvd_pkt lk buf addr (tbl, w) = Some (ret, (tbl', w')) \<longrightarrow> used w' = used w)"
  using client_send_keeps [OF assms] rcvd_pkt_keeps [OF assms] by blast

theorem buffers_balanced_witness:
  "accounts sample_node (\<lambda>w. w) \<and>
    (\<exists>h tbl' w'. dps_protocol_client_send sample_node (sample_msg 99 No_body) (dps_pkt_stats_tbl, 3) = Some (DPS_ERROR, h, (tbl', w')) \<and> w' = 3)"
proof -
  have a: "accounts sample_node (\<lambda>w. w)" by (simp add: accounts_def sample_node_def)
  moreover obtain h tbl' w' where s: "dps_protocol_client_send sample_node (sample_msg 99 No_body) (dps_pkt_stats_tbl, 3) = Some (DPS_ERROR, h, (tbl', w'))"
    by (simp add: dps_protocol_client_send_def sample_node_def sample_msg_def zero_hdr_def valid_type_def bump_def dps_pkt_stats_tbl_def)
  ultimately show ?thesis using buffers_balanced [OF a] by blast
qed

section \<open>Refusals and statistics\<close>



text \<open>
  A server that is not active in its cluster sends nothing, whatever the message: the call reports
  success and neither the statistics nor the surroundings change.  In particular it sends no
  acknowledgements.
\<close>

theorem inactive_server_silent:
  assumes "lk_server lk" and "\<not> lk_active lk w"
  shows "dps_protocol_client_send lk msg (tbl, w) = Some (DPS_SUCCESS, cd_hdr msg, (tbl, w)) \<and>
    dps_client_create_general_ack lk h (tbl, w) = Some (tbl, w)"
  using assms by (simp add: dps_protocol_client_send_def dps_client_create_general_ack_def)

theorem inactive_server_silent_witness:
  "dps_client_create_general_ack (sample_node\<lparr>lk_server := True, lk_active := \<lambda>_. False\<rparr>) zero_hdr (dps_pkt_stats_tbl, 0) = Some (dps_pkt_stats_tbl, 0)"
  using inactive_server_silent [of "sample_node\<lparr>lk_server := True, lk_active := \<lambda>_. False\<rparr>" 0] by simp

lemma for_each_bump:
  "(\<forall>i \<in> set xs. i < length tbl) \<Longrightarrow> distinct xs \<Longrightarrow>
    for_each (\<lambda>i. bump i f) xs tbl = Some (map (\<lambda>i. if i \<in> set xs then f (tbl ! i) else tbl ! i) [0..<length tbl])"
proof (induction xs arbitrary: tbl)
  case (Cons a xs)
  then show ?case by (auto simp: bump_def nth_list_update)
qed (simp add: map_nth)

text \<open>
  \<open>dps_packet_stats_clear\<close> with no type given clears rows 1 to 9 only; the counters of
  the message types 10 to 41 keep their values.
\<close>

theorem stats_clear_partial:
  assumes "length tbl = unat DPS_MAX_MSG_TYPE" and "\<not> (1 \<le> t \<and> t \<le> 9)"
  shows "\<exists>tbl'. dps_packet_stats_clear t tbl = Some tbl' \<and> length tbl' = length tbl \<and>
    (\<forall>i < length tbl. tbl' ! i = (if 1 \<le> i \<and> i \<le> 9 then clear_stats (tbl ! i) else tbl ! i))"
  using assms for_each_bump [of "[1..<Suc 9]" tbl clear_stats]
  by (auto simp: dps_packet_stats_clear_def not_le simp del: upt_Suc)

theorem stats_clear_partial_witness:
  "\<exists>tbl'. dps_packet_stats_clear 0 dps_pkt_stats_tbl = Some tbl'"
  using stats_clear_partial [of dps_pkt_stats_tbl 0] stats_length by auto

section \<open>After the last retransmission\<close>

text \<open>The type of the answer to a message: a reply, an acknowledgement, or the message itself where none is expected.\<close>

definition reply_type :: "u8 \<Rightarrow> u8" where
  "reply_type t = (case map_of [(DPS_ENDPOINT_LOC_REQ, DPS_ENDPOINT_LOC_REPLY), (DPS_POLICY_REQ, DPS_POLICY_REPLY),
       (DPS_ENDPOINT_UPDATE, DPS_ENDPOINT_UPDATE_REPLY), (DPS_INTERNAL_GW_REQ, DPS_INTERNAL_GW_REPLY),
       (DPS_BCAST_LIST_REQ, DPS_BCAST_LIST_REPLY), (DPS_EXTERNAL_GW_LIST_REQ, DPS_EXTERNAL_GW_LIST_REPLY),
       (DPS_VLAN_GW_LIST_REQ, DPS_VLAN_GW_LIST_REPLY), (DPS_VNID_POLICY_LIST_REQ, DPS_VNID_POLICY_LIST_REPLY),
       (DPS_MCAST_CTRL_GW_REQ, DPS_MCAST_CTRL_GW_REPLY)] t of
     Some r \<Rightarrow> r
   | None \<Rightarrow> if t \<in> set registration_types then DPS_REG_DEREGISTER_ACK
       else if t \<in> set [DPS_ADDR_RESOLVE, DPS_UNSOLICITED_VNID_POLICY_LIST, DPS_MCAST_RECEIVER_DS_LIST, DPS_UNSOLICITED_BCAST_LIST_REPLY,
         DPS_UNSOLICITED_INTERNAL_GW_REPLY, DPS_UNSOLICITED_EXTERNAL_GW_LIST, DPS_UNSOLICITED_VLAN_GW_LIST, DPS_REG_DEREGISTER_ACK,
         DPS_UNSOLICITED_ENDPOINT_LOC_REPLY, DPS_UNSOLICITED_VNID_DEL_REQ, DPS_CTRL_PLANE_HB, DPS_UNSOLICITED_VM_LOC_INFO]
       then DPS_GENERAL_ACK else t)"

lemmas construct_defs = dps_construct_reply_endpoint_loc_req_def dps_construct_reply_policy_req_def dps_construct_reply_endpoint_update_def
  dps_construct_reply_internal_gw_req_def dps_construct_reply_bcast_list_req_def dps_construct_reply_external_gw_req_def
  dps_construct_reply_vlan_gw_req_def dps_construct_reply_policy_list_req_def dps_construct_reply_generic_ack_def
  dps_construct_reply_mcast_ctrl_gw_req_def dps_construct_noop_func_def Let_def

definition reply_row :: "u8 \<Rightarrow> (dps_client_data_t \<Rightarrow> dps_client_data_t) option \<Rightarrow> bool" where
  "reply_row t r \<longleftrightarrow> (case r of None \<Rightarrow> reply_type t = t
     | Some f \<Rightarrow> \<forall>d. ch_type (cd_hdr d) = t \<longrightarrow> cd_hdr (f d) = (cd_hdr d)\<lparr>ch_type := reply_type t\<rparr>)"

lemma reply_rows: "\<forall>(t, row) \<in> set (zip (map of_nat [0..<42]) dps_construct_msg_reply_table). reply_row t (snd row)"
  by (simp add: dps_construct_msg_reply_table_def upt_rec reply_row_def construct_defs reply_type_def registration_types_def)

lemma reply_row:
  assumes "valid_type t"
  shows "reply_row t (snd (dps_construct_msg_reply_table ! unat t))"
proof -
  have "unat t < 42" using assms by (simp add: valid_type_iff)
  moreover have "length dps_construct_msg_reply_table = 42" by (simp add: dps_construct_msg_reply_table_def)
  ultimately have "(t, dps_construct_msg_reply_table ! unat t) \<in> set (zip (map of_nat [0..<42]) dps_construct_msg_reply_table)"
    by (auto simp: in_set_zip intro!: exI [of _ "unat t"])
  then show ?thesis using reply_rows by fastforce
qed

lemma callback_delivers:
  assumes "dps_get_pkt_hdr pkt zero_hdr = Some (h, n)" and "valid_type (ch_type h)"
  shows "\<exists>b. dps_retransmit_callback lk RAW_PROTO_MAX_NUM_RETRANSMIT_EXCEEDED pkt context (tbl, w) =
    Some (tbl, lk_deliver lk \<lparr>cd_context = context, cd_hdr = h\<lparr>ch_type := reply_type (ch_type h), ch_resp_status := DPS_NO_RESPONSE,
      ch_sub_type := ch_type h\<rparr>, cd_body = b\<rparr> (if lk_server lk then w else lk_new_node lk (ch_vnid h) w))"
proof (cases "snd (dps_construct_msg_reply_table ! unat (ch_type h))")
  case None
  then show ?thesis
    using assms reply_row [OF assms(2)]
    by (auto simp: dps_retransmit_callback_def Let_def dps_send_to_protocol_client_def reply_row_def)
next
  case (Some f)
  let ?d = "f \<lparr>cd_context = 0, cd_hdr = h, cd_body = No_body\<rparr>"
  obtain c h' b where "?d = \<lparr>cd_context = c, cd_hdr = h', cd_body = b\<rparr>" by (cases ?d)
  moreover have "cd_hdr ?d = h\<lparr>ch_type := reply_type (ch_type h)\<rparr>" using reply_row [OF assms(2)] Some by (simp add: reply_row_def)
  ultimately show ?thesis
    using assms Some by (auto simp: dps_retransmit_callback_def Let_def dps_send_to_protocol_client_def)
qed

text \<open>
  C21. When a query has been retransmitted as often as allowed, the client is handed a reply made up from
  the packet that was not answered: it has the type of the answer, the status
  \<open>DPS_NO_RESPONSE\<close>, the original type as subtype, the query id and VNID of the packet
  and the context of the query; a client also asks for a new server for the VNID.
\<close>

theorem no_response_reported:
  assumes "dps_get_pkt_hdr pkt zero_hdr = Some (h, n)" and "valid_type (ch_type h)"
  shows "\<exists>b. dps_retransmit_callback lk RAW_PROTO_MAX_NUM_RETRANSMIT_EXCEEDED pkt context (tbl, w) =
    Some (tbl, lk_deliver lk \<lparr>cd_context = context, cd_hdr = h\<lparr>ch_type := reply_type (ch_type h), ch_resp_status := DPS_NO_RESPONSE,
      ch_sub_type := ch_type h\<rparr>, cd_body = b\<rparr> (if lk_server lk then w else lk_new_node lk (ch_vnid h) w))"
  using assms by (rule callback_delivers)

theorem no_response_reported_witness:
  "\<exists>b. dps_retransmit_callback sample_node RAW_PROTO_MAX_NUM_RETRANSMIT_EXCEEDED (pkt_hdrb DPS_POLICY_REQ zero_hdr 20 @ []) 3 (dps_pkt_stats_tbl, 0) =
    Some (dps_pkt_stats_tbl, lk_deliver sample_node \<lparr>cd_context = 3, cd_hdr = (recv_hdr DPS_POLICY_REQ zero_hdr zero_hdr)\<lparr>ch_type := DPS_POLICY_REPLY,
      ch_resp_status := DPS_NO_RESPONSE, ch_sub_type := DPS_POLICY_REQ\<rparr>, cd_body = b\<rparr> (lk_new_node sample_node 0 0))"
proof -
  have "dps_get_pkt_hdr (pkt_hdrb DPS_POLICY_REQ zero_hdr 20 @ []) zero_hdr = Some (recv_hdr DPS_POLICY_REQ zero_hdr zero_hdr, 0)"
    using packet_hdr(1) [of 0 DPS_POLICY_REQ zero_hdr "[]"] by simp
  moreover have "ch_type (recv_hdr DPS_POLICY_REQ zero_hdr zero_hdr) = DPS_POLICY_REQ" "ch_vnid (recv_hdr DPS_POLICY_REQ zero_hdr zero_hdr) = 0"
    by (simp_all add: recv_hdr_def zero_hdr_def)
  ultimately show ?thesis
    using no_response_reported [of "pkt_hdrb DPS_POLICY_REQ zero_hdr 20 @ []" _ 0 sample_node 3 dps_pkt_stats_tbl 0]
    by (simp add: valid_type_def reply_type_def sample_node_def)
qed

section \<open>Packets the receiver does not survive\<close>

text \<open>
  C32. A policy request with a TLV of a type the receiver does not know sends
  \<open>dps_process_policy_req\<close> into an endless loop: the switch has no default branch, so a pass
  over the TLV is defined and leaves the position as it was.
\<close>

theorem policy_req_unknown_tlv_loops:
  assumes "has_buffer lk w" and "dps_get_pkt_hdr buf zero_hdr = Some (h, n)" and "0 < n" and "dps_get_tlv_hdr (drop DPS_PKT_HDR_LEN buf) = Some k"
    and "tlv_type k \<notin> {ENDPOINT_INFO_TLV, SERVICE_LOC_TLV, REPLY_SERVICE_LOC_TLV}"
  shows "tlv_step policy_req_switch buf (((r, i), False), DPS_PKT_HDR_LEN) = Some (((r, i), False), DPS_PKT_HDR_LEN) \<and>
    dps_process_policy_req lk buf addr (tbl, w) = None"
proof -
  have step: "tlv_step policy_req_switch buf (((r, i), False), DPS_PKT_HDR_LEN) = Some (((r, i), False), DPS_PKT_HDR_LEN)" for r i
    using assms(4,5) by (simp add: tlv_step_def policy_req_switch_def)
  moreover have "scan_pkt policy_req_switch buf n s = None" for s
    using step [of "fst s" "snd s"] assms(3) unat_gt_0 [of n] word_neq_0_conv [of n]
    by (simp add: scan_pkt_def tlv_scan_def while_opt_stuck)
  moreover obtain mem where "\<And>f. with_client_buff lk f (tbl, w) = do {
      (ret, (tbl, w)) \<leftarrow> f mem (tbl, snd (lk_malloc lk w)); Some (ret, (tbl, lk_free lk w)) }"
    using with_buffer [OF assms(1), of tbl] by blast
  ultimately show ?thesis using assms(2) by (simp add: dps_process_policy_req_def)
qed

theorem policy_req_unknown_tlv_loops_witness:
  "dps_process_policy_req sample_node (pkt_hdrb DPS_POLICY_REQ zero_hdr 24 @ [1, 99, 0, 0]) sample_ip (dps_pkt_stats_tbl, 0) = None"
proof -
  have "dps_get_pkt_hdr (pkt_hdrb DPS_POLICY_REQ zero_hdr 24 @ [1, 99, 0, 0]) zero_hdr = Some (recv_hdr DPS_POLICY_REQ zero_hdr zero_hdr, 4)"
    using packet_hdr(1) [of 4 DPS_POLICY_REQ zero_hdr "[1, 99, 0, 0]"] by simp
  then show ?thesis
    using policy_req_unknown_tlv_loops [of sample_node 0 "pkt_hdrb DPS_POLICY_REQ zero_hdr 24 @ [1, 99, 0, 0]" _ 4
        "\<lparr>tlv_ver = 1, tlv_type = 99, tlv_len = 0\<rparr>" _ _ sample_ip dps_pkt_stats_tbl] sample_node_ready(1)
    by (simp add: dps_get_tlv_hdr_def ld16_def peek_def of_bytes16_def htons_def ld8_def)
qed

text \<open>
  The length of a received packet is not checked: a header whose length field counts fewer than the
  four words after the first stands for a packet of almost 2^32 bytes.
\<close>

theorem short_length_wraps:
  assumes "dps_get_pkt_hdr buf st = Some (h, n)" and "ld16 2 buf = Some len" and "ntohs len < 4"
  shows "unat n = 2 ^ 32 - 16 + 4 * unat (ntohs len)"
proof -
  have "ntohs len \<in> {0, 1, 2, 3}" using assms(3) by (auto simp: word_less_nat_alt word_unat_eq_iff)
  moreover have "n = push_bit 2 (ucast (ntohs len)) - 20 + 4"
    using assms(1,2) by (auto simp: dps_get_pkt_hdr_def bind_eq_Some_conv)
  ultimately show ?thesis by auto
qed

theorem short_length_wraps_witness:
  "\<exists>h n. dps_get_pkt_hdr ([1, 1, 0, 0] @ replicate 16 0) zero_hdr = Some (h, n) \<and> unat n = 2 ^ 32 - 16"
proof -
  obtain h n where "dps_get_pkt_hdr ([1, 1, 0, 0] @ replicate 16 0) zero_hdr = Some (h, n)"
    by (simp add: dps_get_pkt_hdr_def ld8_def ld16_def ld32_def peek_def)
  then show ?thesis
    using short_length_wraps [of "[1, 1, 0, 0] @ replicate 16 0" zero_hdr h n 0] by (simp add: ld16_def peek_def of_bytes16_def htons_def)
qed

end
