(* ===== verification/Dps_Server_Laws.thy ===== *)
theory Dps_Server_Laws
  imports Dps_Server_Ctrl Dcs_Retransmit_Rounds Dps_Conduct
begin

text \<open>
  The transport of the server with the packet code and the retransmission
  handler: what happens to a message on its way out, to a packet that comes
  in and to a message nobody acknowledges.
\<close>

section \<open>States of the server\<close>

definition server_env_ok :: "'w server_env \<Rightarrow> bool" where
  "server_env_ok env \<longleftrightarrow> (\<forall>s m. se_alloc_message env s = Some m \<longrightarrow> rt_heap s m = None) \<and>
     (\<forall>ks. distinct ks \<longrightarrow> distinct (se_keys env ks) \<and> set (se_keys env ks) = set ks) \<and> length (se_uninit_zero env) = 8"

definition server_ok :: "'w server_env \<Rightarrow> nat list \<Rightarrow> 'w server_state \<Rightarrow> 'w server_world \<Rightarrow> bool" where
  "server_ok env E s c \<longleftrightarrow> server_env_ok env \<and> rt_world s = Some c \<and> rt_inv E s \<and>
     length (sw_stats c) = unat DPS_MAX_MSG_TYPE \<and> length (sw_buffer c) = DPS_MAX_BUFF_SZ"

lemma sio_simps [simp]:
  "sw_outer (snd (sio f c)) = snd (f (sw_outer c))" "fst (sio f c) = fst (f (sw_outer c))" "sw_outer (sio_do g c) = g (sw_outer c)"
  "sw_stats (snd (sio f c)) = sw_stats c" "sw_buffer (snd (sio f c)) = sw_buffer c" "sw_server_sock (snd (sio f c)) = sw_server_sock c"
  "sw_stats (sio_do g c) = sw_stats c" "sw_buffer (sio_do g c) = sw_buffer c" "sw_server_sock (sio_do g c) = sw_server_sock c"
  by (simp_all add: sio_def sio_do_def split_beta)

lemma retransmit_calls_simps [simp]:
  "re_malloc (retransmit_calls env call) = se_alloc_message env" "re_keys (retransmit_calls env call) = se_keys env"
  "re_call (retransmit_calls env call) = call"
  "re_object_ok (retransmit_calls env call) (Some c) = se_object_ok env (sw_outer c)"
  "re_args_ok (retransmit_calls env call) (Some c) = se_args_ok env (sw_outer c)"
  "re_sendto (retransmit_calls env call) fd pkt addr (Some c) = map_prod id Some (sio (se_sendto env fd pkt addr) c)"
  by (simp_all add: retransmit_calls_def)

lemma server_fresh: "server_env_ok env \<Longrightarrow> fresh_messages (retransmit_calls env call)"
  "server_env_ok env \<Longrightarrow> lists_keys (retransmit_calls env call)"
  by (simp_all add: server_env_ok_def fresh_messages_def lists_keys_def)

lemma server_ok_world:
  "server_ok env E s c \<Longrightarrow> sw_stats c' = sw_stats c \<Longrightarrow> sw_buffer c' = sw_buffer c \<Longrightarrow> server_ok env E (s\<lparr>rt_world := Some c'\<rparr>) c'"
  by (simp add: server_ok_def rt_inv_world)

lemma server_ok_stats:
  "server_ok env E s c \<Longrightarrow> length tbl = unat DPS_MAX_MSG_TYPE \<Longrightarrow> server_ok env E (put_server_stats tbl s) (c\<lparr>sw_stats := tbl\<rparr>)"
  by (simp add: server_ok_def put_server_stats_def on_server_def rt_inv_world)

lemma server_link_simps [simp]:
  "lk_server (server_link env)" "may_send (server_link env) s = (case rt_world s of None \<Rightarrow> False | Some c \<Rightarrow> se_active env (sw_outer c))"
  by (simp_all add: server_link_def may_send_def)

lemma server_link_world:
  assumes "rt_world s = Some c"
  shows "lk_malloc (server_link env) s = (fst (sio (se_malloc env) c), s\<lparr>rt_world := Some (snd (sio (se_malloc env) c))\<rparr>)"
    "lk_free (server_link env) s = s\<lparr>rt_world := Some (sio_do (se_free env) c)\<rparr>"
    "lk_deliver (server_link env) d s = s\<lparr>rt_world := Some (sio_do (se_deliver env d) c)\<rparr>"
  using assms by (simp_all add: server_link_def on_server_def split_beta)

definition has_server_buffer :: "'w server_env \<Rightarrow> 'w \<Rightarrow> bool" where
  "has_server_buffer env w \<longleftrightarrow> (\<exists>mem. fst (se_malloc env w) = Some mem \<and> length mem = DPS_MAX_BUFF_SZ)"

lemma server_has_buffer: "rt_world s = Some c \<Longrightarrow> has_buffer (server_link env) s = has_server_buffer env (sw_outer c)"
  by (simp add: has_buffer_def has_server_buffer_def server_link_world)

lemma message_for_world [simp]: "message_for (s\<lparr>rt_world := w\<rparr>) = message_for s"
  by (auto simp: message_for_def fun_eq_iff split: option.split)

section \<open>Transmission\<close>

lemma dst_addr_ok:
  assumes "server_env_ok env"
  shows "length (dst_addr env addr) = 16" "ld16 0 (dst_addr env addr) = Some AF_INET"
  using assms by (simp_all add: dst_addr_def server_env_ok_def ld16_def peek_def)

text \<open>The message that is kept for a packet with a context.\<close>

definition server_message :: "'w server_env \<Rightarrow> bytes \<Rightarrow> int \<Rightarrow> ip_addr_t \<Rightarrow> nat \<Rightarrow> dps_retransmit_context_t" where
  "server_message env pkt fd addr context = \<lparr>rc_family = AF_INET, rc_sock_fd = fd, rc_address = dst_addr env addr, rc_query_id = 0,
     rc_context = context, rc_callback_function = SERVER_CALLBACK, rc_owner_type = RPT_OWNER_DPS, rc_data = pkt\<rparr>"

lemma server_message_simps [simp]:
  "rc_data (server_message env pkt fd addr context) = pkt" "rc_context (server_message env pkt fd addr context) = context"
  "rc_sock_fd (server_message env pkt fd addr context) = fd" "rc_address (server_message env pkt fd addr context) = dst_addr env addr"
  by (simp_all add: server_message_def)

definition server_sends_to :: "'w server_env \<Rightarrow> 'w server_world \<Rightarrow> bytes \<Rightarrow> ip_addr_t \<Rightarrow> int \<times> 'w server_world" where
  "server_sends_to env c pkt addr = sio (se_sendto env (sw_server_sock c) pkt (dst_addr env addr)) c"

definition server_status :: "int \<Rightarrow> u32" where
  "server_status n = (if n \<le> 0 then DPS_ERROR else DPS_SUCCESS)"

lemma server_send_eq: "rt_world s = Some c \<Longrightarrow> server_send env pkt addr s =
    Some (server_status (fst (server_sends_to env c pkt addr)), s\<lparr>rt_world := Some (snd (server_sends_to env c pkt addr))\<rparr>)"
  by (simp add: server_send_def server_sends_to_def server_status_def split_beta)

lemma server_start_eq:
  assumes "server_env_ok env" and "rt_world s = Some c"
  shows "retransmit_timer_start (no_calls env) pkt (length pkt) q fd (dst_addr env addr) context SERVER_CALLBACK RPT_OWNER_DPS s =
    (if keeps_room (no_calls env) q (server_message env pkt fd addr context) s
     then Some (0, added q (the (se_alloc_message env s)) ((server_message env pkt fd addr context)\<lparr>rc_query_id := q\<rparr>) s) else Some (-1, s))"
proof -
  have "ok_query (server_message env pkt fd addr context)" using dst_addr_ok [OF assms(1)] by (simp add: ok_query_def server_message_def)
  from start_message [OF this, of "no_calls env" q s] show ?thesis
    using server_fresh(1) [OF assms(1)] by (simp add: start_message_def no_calls_def server_message_def)
qed

lemma server_xmit_refused:
  assumes "server_env_ok env" and "rt_world s = Some c" and "dps_get_pkt_hdr pkt (se_uninit_hdr env) = Some (h, n)" and "context \<noteq> 0"
    and "\<not> keeps_room (no_calls env) (ch_query_id h) (server_message env pkt (sw_server_sock c) addr context) s"
  shows "Dps_Server_Ctrl.dps_protocol_xmit env pkt addr context s = Some (DPS_ERROR_NO_RESOURCES, s)"
  using assms server_start_eq [OF assms(1,2)] by (simp add: Dps_Server_Ctrl.dps_protocol_xmit_def)

lemma message_left_added: "k \<notin> fst ` set (rt_Query_ID_Hash s) \<Longrightarrow> message_left (added k m c s) k = Some (c, max_retransmit)"
  by (simp add: message_left_def added_def map_add_def map_of_None [symmetric])

lemma message_left_world [simp]: "message_left (s\<lparr>rt_world := w\<rparr>) = message_left s"
  by (simp add: message_left_def fun_eq_iff)

lemma message_for_left: "message_for s k = map_option fst (message_left s k)"
  by (auto simp: message_left_def message_for_def split: option.split Option.bind_splits)

lemma server_xmit_kept:
  assumes ok: "server_ok env E s c" and h: "dps_get_pkt_hdr pkt (se_uninit_hdr env) = Some (h, n)" and ctx: "context \<noteq> 0"
    and room: "keeps_room (no_calls env) (ch_query_id h) (server_message env pkt (sw_server_sock c) addr context) s"
  shows "\<exists>s'. Dps_Server_Ctrl.dps_protocol_xmit env pkt addr context s = Some (server_status (fst (server_sends_to env c pkt addr)), s') \<and>
    server_ok env E s' (snd (server_sends_to env c pkt addr)) \<and>
    message_for s' = (message_for s)(ch_query_id h \<mapsto> (server_message env pkt (sw_server_sock c) addr context)\<lparr>rc_query_id := ch_query_id h\<rparr>) \<and>
    message_left s' (ch_query_id h) = Some ((server_message env pkt (sw_server_sock c) addr context)\<lparr>rc_query_id := ch_query_id h\<rparr>, max_retransmit)"
proof -
  let ?q = "ch_query_id h" and ?m = "the (se_alloc_message env s)"
  let ?c = "(server_message env pkt (sw_server_sock c) addr context)\<lparr>rc_query_id := ch_query_id h\<rparr>" and ?w = "snd (server_sends_to env c pkt addr)"
  have e: "server_env_ok env" "rt_world s = Some c" "rt_inv E s" using ok by (simp_all add: server_ok_def)
  have i: "rt_inv E (added ?q ?m ?c s)"
    using rt_inv_added [OF e(3) _ room] server_fresh(1) [OF e(1)] by (simp add: no_calls_def)
  have w: "rt_world (added ?q ?m ?c s) = Some c" using e(2) by (simp add: added_def)
  have "rt_heap s ?m = None" "?q \<notin> fst ` set (rt_Query_ID_Hash s)"
    using room e(1) by (auto simp: keeps_room_def no_calls_def server_env_ok_def)
  then have "message_for (added ?q ?m ?c s) = (message_for s)(?q \<mapsto> ?c)" "message_left (added ?q ?m ?c s) ?q = Some (?c, max_retransmit)"
    using message_for_added [OF e(3)] message_left_added by blast+
  moreover have "server_ok env E ((added ?q ?m ?c s)\<lparr>rt_world := Some ?w\<rparr>) ?w"
    using ok i by (simp add: server_ok_def rt_inv_world server_sends_to_def)
  moreover have "Dps_Server_Ctrl.dps_protocol_xmit env pkt addr context s =
      Some (server_status (fst (server_sends_to env c pkt addr)), (added ?q ?m ?c s)\<lparr>rt_world := Some ?w\<rparr>)"
    using e(2) h ctx room server_start_eq [OF e(1,2)] server_send_eq [OF w, of env pkt addr] by (simp add: Dps_Server_Ctrl.dps_protocol_xmit_def)
  ultimately show ?thesis by simp
qed

lemma server_xmit_plain:
  "rt_world s = Some c \<Longrightarrow> Dps_Server_Ctrl.dps_protocol_xmit env pkt addr 0 s =
    Some (server_status (fst (server_sends_to env c pkt addr)), s\<lparr>rt_world := Some (snd (server_sends_to env c pkt addr))\<rparr>)"
  by (simp add: Dps_Server_Ctrl.dps_protocol_xmit_def server_send_eq)

section \<open>The callback\<close>

text \<open>The callback changes the rest of the server, but not the store of messages.\<close>

definition server_effect :: "'w server_env \<Rightarrow> nat \<Rightarrow> raw_proto_retransmit_status_t \<Rightarrow> bytes \<Rightarrow> nat \<Rightarrow> int \<Rightarrow>
    'w server_world option \<Rightarrow> 'w server_world option" where
  "server_effect env f status pkt context owner w = (case server_callback env f status pkt context owner (rt_boot w) of
     None \<Rightarrow> None | Some s \<Rightarrow> rt_world s)"

lemma server_calls_outside: "calls_outside (server_retransmit env) (server_effect env)"
proof -
  have cb: "map_option (\<lambda>(tbl, s). (tbl, rt_world s)) (dps_retransmit_callback (server_link env) st d x (tbl, s)) =
        map_option (\<lambda>(tbl, s). (tbl, rt_world s)) (dps_retransmit_callback (server_link env) st d x (tbl, rt_boot (rt_world s)))"
      "dps_retransmit_callback (server_link env) st d x (tbl, s) = Some (tbl', s') \<Longrightarrow> s' = s\<lparr>rt_world := rt_world s'\<rparr>" for st d x tbl tbl' s s'
    by (auto simp: dps_retransmit_callback_def dps_send_to_protocol_client_def server_link_def on_server_def rt_boot_def Let_def bind_eq_Some_conv
        split: raw_proto_retransmit_status_t.splits bind_splits if_splits)
  have "server_callback env f st d x ow s = Some (s\<lparr>rt_world := server_effect env f st d x ow (rt_world s)\<rparr>)" for f st d x ow s
  proof (cases "rt_world s")
    case None
    then show ?thesis by (simp add: server_callback_def server_effect_def rt_boot_def)
  next
    case (Some c)
    show ?thesis
    proof (cases "dps_retransmit_callback (server_link env) st d x (sw_stats c, s)")
      case None
      then show ?thesis using Some cb(1) [of st d x "sw_stats c" s]
        by (auto simp: server_callback_def server_effect_def server_crashed_def rt_boot_def)
    next
      fix r assume r: "dps_retransmit_callback (server_link env) st d x (sw_stats c, s) = Some r"
      obtain tbl s1 where s1: "r = (tbl, s1)" by fastforce
      obtain w1 where w1: "s1 = s\<lparr>rt_world := w1\<rparr>" using cb(2) r s1 by blast
      have "map_option (\<lambda>(tbl, s). (tbl, rt_world s)) (dps_retransmit_callback (server_link env) st d x (sw_stats c, rt_boot (rt_world s))) =
          Some (tbl, rt_world s1)"
        using cb(1) [of st d x "sw_stats c" s] r s1 by simp
      then have "\<exists>s2. dps_retransmit_callback (server_link env) st d x (sw_stats c, rt_boot (rt_world s)) = Some (tbl, s2) \<and> rt_world s2 = rt_world s1"
        by (auto simp: map_option_eq_Some)
      then show ?thesis using Some r s1 w1
        by (auto simp: server_callback_def server_effect_def server_crashed_def put_server_stats_def on_server_def rt_boot_def)
    qed
  qed
  then show ?thesis by (simp add: calls_outside_def server_retransmit_def)
qed

lemma server_calls_keep: "calls_keep (server_retransmit env)"
  using server_calls_outside [of env] by (simp add: calls_keep_def calls_outside_def rt_inv_world)

lemma server_rt_env_ok: "server_env_ok env \<Longrightarrow> rt_env_ok (server_retransmit env)"
  using server_calls_keep [of env] server_fresh [of env] by (simp add: rt_env_ok_def server_retransmit_def)

end
