(* ===== verification/Dps_Server_Exchange.thy ===== *)
theory Dps_Server_Exchange
  imports Dps_Server_Laws
begin

text \<open>
  Whole messages at the server: one that is sent, one that is received, and
  an acknowledgement that is received.
\<close>

section \<open>A message on its way out\<close>

definition server_sock_ok :: "'w server_env \<Rightarrow> nat list \<Rightarrow> 'w server_state \<Rightarrow> 'w server_world \<Rightarrow> bool" where
  "server_sock_ok env E s c \<longleftrightarrow> server_ok env E s c \<and> has_server_buffer env (sw_outer c) \<and> se_active env (sw_outer c)"

lemma server_sent_hdr: "sent_hdr (server_link env) h w = (h, w)"
  by (simp add: sent_hdr_def)

lemma server_ready:
  assumes "server_sock_ok env E s c"
  shows "has_buffer (server_link env) s" "may_send (server_link env) s" "rt_world s = Some c" "server_ok env E s c"
  using assms server_has_buffer [of s c env] by (simp_all add: server_sock_ok_def server_ok_def)

text \<open>What the rest of the system sees of a message that is sent: memory and one packet.\<close>

definition server_send_effect :: "'w server_env \<Rightarrow> 'w server_world \<Rightarrow> bytes \<Rightarrow> ip_addr_t \<Rightarrow> u32 \<times> 'w" where
  "server_send_effect env c pkt addr = (case se_sendto env (sw_server_sock c) pkt (dst_addr env addr) (snd (se_malloc env (sw_outer c))) of
     (n, w) \<Rightarrow> (server_status n, se_free env w))"

text \<open>The server when a packet has been built and is handed to the transport.\<close>

definition at_server_xmit :: "'w server_env \<Rightarrow> 'w server_world \<Rightarrow> 'w server_state \<Rightarrow> 'w server_state" where
  "at_server_xmit env c s = s\<lparr>rt_world := Some (snd (sio (se_malloc env) c))\<rparr>"

lemma server_sends_any:
  assumes ok: "server_sock_ok env E s c" and s: "sends rep (server_link env) msg tbl s pkt"
    and x: "Dps_Server_Ctrl.dps_protocol_xmit env pkt (ch_reply_addr (cd_hdr msg)) (cd_context msg) (at_server_xmit env c s) = Some (st, s2)"
    and s2: "server_ok env E s2 c2"
  shows "\<exists>tbl'. dps_protocol_client_send (server_link env) msg (tbl, s) =
      Some (rep st, cd_hdr msg, (tbl', s2\<lparr>rt_world := Some (sio_do (se_free env) c2)\<rparr>)) \<and> length tbl' = length tbl"
proof -
  have w: "rt_world s = Some c" "rt_world s2 = Some c2" using server_ready(3) [OF ok] s2 by (simp_all add: server_ok_def)
  have "lk_xmit (server_link env) pkt (ch_reply_addr (cd_hdr msg)) (cd_context msg) (snd (lk_malloc (server_link env) s)) = (st, s2)"
    using x w(1) by (simp add: server_link_world at_server_xmit_def) (simp add: server_link_def)
  then show ?thesis using s w(2) by (simp add: sends_def server_sent_hdr server_link_world Let_def)
qed

lemma server_answers:
  assumes ok: "server_sock_ok env E s c" and s: "sends rep (server_link env) msg tbl s pkt" and ctx: "cd_context msg = 0"
  shows "\<exists>tbl' s' c'. dps_protocol_client_send (server_link env) msg (tbl, s) =
      Some (rep (fst (server_send_effect env c pkt (ch_reply_addr (cd_hdr msg)))), cd_hdr msg, (tbl', s')) \<and>
    server_ok env E s' c' \<and> sw_outer c' = snd (server_send_effect env c pkt (ch_reply_addr (cd_hdr msg))) \<and> message_for s' = message_for s"
proof -
  let ?c = "snd (sio (se_malloc env) c)" and ?addr = "ch_reply_addr (cd_hdr msg)"
  let ?c2 = "snd (server_sends_to env ?c pkt ?addr)" and ?s = "at_server_xmit env c s"
  have w: "rt_world ?s = Some ?c" by (simp add: at_server_xmit_def)
  have ok2: "server_ok env E (?s\<lparr>rt_world := Some ?c2\<rparr>) ?c2"
    using server_ok_world [OF server_ready(4) [OF ok], of ?c2] by (simp add: at_server_xmit_def server_sends_to_def)
  have "Dps_Server_Ctrl.dps_protocol_xmit env pkt ?addr (cd_context msg) ?s =
      Some (server_status (fst (server_sends_to env ?c pkt ?addr)), ?s\<lparr>rt_world := Some ?c2\<rparr>)"
    using server_xmit_plain [OF w] ctx by simp
  from server_sends_any [OF ok s this ok2] obtain tbl' where
    "dps_protocol_client_send (server_link env) msg (tbl, s) = Some (rep (server_status (fst (server_sends_to env ?c pkt ?addr))), cd_hdr msg,
      (tbl', ?s\<lparr>rt_world := Some (sio_do (se_free env) ?c2)\<rparr>))"
    by auto
  moreover have "server_status (fst (server_sends_to env ?c pkt ?addr)) = fst (server_send_effect env c pkt ?addr)"
    "sw_outer (sio_do (se_free env) ?c2) = snd (server_send_effect env c pkt ?addr)"
    by (simp_all add: server_send_effect_def server_sends_to_def split_beta)
  moreover have "server_ok env E (?s\<lparr>rt_world := Some (sio_do (se_free env) ?c2)\<rparr>) (sio_do (se_free env) ?c2)"
    using server_ok_world [OF ok2, of "sio_do (se_free env) ?c2"] by simp
  ultimately show ?thesis by (auto simp: at_server_xmit_def)
qed

text \<open>The message that is kept for a message with a context.\<close>

definition kept_message :: "'w server_env \<Rightarrow> 'w server_world \<Rightarrow> dps_client_data_t \<Rightarrow> bytes \<Rightarrow> dps_retransmit_context_t" where
  "kept_message env c msg pkt = (server_message env pkt (sw_server_sock c) (ch_reply_addr (cd_hdr msg)) (cd_context msg))
     \<lparr>rc_query_id := ch_query_id (cd_hdr msg)\<rparr>"

lemma server_notifies:
  assumes ok: "server_sock_ok env E s c" and s: "sends rep (server_link env) msg tbl s pkt" and ctx: "cd_context msg \<noteq> 0"
    and pkt: "pkt = pkt_hdrb t (cd_hdr msg) len @ p"
    and room: "keeps_room (no_calls env) (ch_query_id (cd_hdr msg)) (kept_message env c msg pkt) (at_server_xmit env c s)"
  shows "\<exists>tbl' s' c'. dps_protocol_client_send (server_link env) msg (tbl, s) =
      Some (rep (fst (server_send_effect env c pkt (ch_reply_addr (cd_hdr msg)))), cd_hdr msg, (tbl', s')) \<and>
    server_ok env E s' c' \<and> sw_outer c' = snd (server_send_effect env c pkt (ch_reply_addr (cd_hdr msg))) \<and>
    message_for s' = (message_for s)(ch_query_id (cd_hdr msg) \<mapsto> kept_message env c msg pkt) \<and>
    message_left s' (ch_query_id (cd_hdr msg)) = Some (kept_message env c msg pkt, max_retransmit)"
proof -
  let ?c = "snd (sio (se_malloc env) c)" and ?addr = "ch_reply_addr (cd_hdr msg)" and ?s = "at_server_xmit env c s"
  let ?c2 = "snd (server_sends_to env ?c pkt ?addr)"
  have ok1: "server_ok env E ?s ?c"
    using server_ok_world [OF server_ready(4) [OF ok], of ?c] by (simp add: at_server_xmit_def)
  obtain n where "dps_get_pkt_hdr pkt (se_uninit_hdr env) = Some (recv_hdr t (cd_hdr msg) (se_uninit_hdr env), n)"
    using get_pkt_hdr_any pkt by blast
  then obtain h where h: "dps_get_pkt_hdr pkt (se_uninit_hdr env) = Some (h, n)" "ch_query_id h = ch_query_id (cd_hdr msg)"
    by (auto simp: recv_hdr_def)
  have m: "(server_message env pkt (sw_server_sock ?c) ?addr (cd_context msg))\<lparr>rc_query_id := ch_query_id h\<rparr> = kept_message env c msg pkt"
    by (simp add: kept_message_def h(2))
  have room1: "keeps_room (no_calls env) (ch_query_id h) (server_message env pkt (sw_server_sock ?c) ?addr (cd_context msg)) ?s"
    using room by (simp add: h(2) keeps_room_def kept_message_def)
  obtain s2 where
    s2: "Dps_Server_Ctrl.dps_protocol_xmit env pkt ?addr (cd_context msg) ?s = Some (server_status (fst (server_sends_to env ?c pkt ?addr)), s2)"
      "server_ok env E s2 ?c2" "message_for s2 = (message_for ?s)(ch_query_id (cd_hdr msg) \<mapsto> kept_message env c msg pkt)"
      "message_left s2 (ch_query_id (cd_hdr msg)) = Some (kept_message env c msg pkt, max_retransmit)"
    using server_xmit_kept [OF ok1 h(1) ctx room1] unfolding m unfolding h(2) by (elim exE conjE)
  from server_sends_any [OF ok s s2(1,2)] obtain tbl' where
    "dps_protocol_client_send (server_link env) msg (tbl, s) = Some (rep (server_status (fst (server_sends_to env ?c pkt ?addr))), cd_hdr msg,
      (tbl', s2\<lparr>rt_world := Some (sio_do (se_free env) ?c2)\<rparr>))"
    by auto
  moreover have "server_status (fst (server_sends_to env ?c pkt ?addr)) = fst (server_send_effect env c pkt ?addr)"
    "sw_outer (sio_do (se_free env) ?c2) = snd (server_send_effect env c pkt ?addr)"
    by (simp_all add: server_send_effect_def server_sends_to_def split_beta)
  moreover have "server_ok env E (s2\<lparr>rt_world := Some (sio_do (se_free env) ?c2)\<rparr>) (sio_do (se_free env) ?c2)"
    using server_ok_world [OF s2(2), of "sio_do (se_free env) ?c2"] by simp
  ultimately show ?thesis using s2(3,4) by (auto simp: at_server_xmit_def)
qed

section \<open>A packet that comes in\<close>

text \<open>The socket address a packet comes from, and the node as the server notes it down.\<close>

definition from_addr :: "ip_addr_t \<Rightarrow> bytes \<Rightarrow> bytes" where
  "from_addr ip zs = bytes16 AF_INET @ be16 (ia_port ip) @ be32 (ia_ip4 ip) @ zs"

definition server_heard :: "ip_addr_t \<Rightarrow> ip_addr_t \<Rightarrow> ip_addr_t" where
  "server_heard ip d = d\<lparr>ia_ip6 := set_ip4 (ia_ip4 ip) (ia_ip6 d), ia_port := ia_port ip\<rparr>"

definition server_arrives :: "'w server_env \<Rightarrow> 'w server_world \<Rightarrow> int \<Rightarrow> nat \<Rightarrow> bytes \<Rightarrow> ip_addr_t \<Rightarrow> bytes \<Rightarrow> nat \<Rightarrow> 'w \<Rightarrow> bool" where
  "server_arrives env c socket alen pkt ip zs alen' w \<longleftrightarrow> length zs = 8 \<and> pkt \<noteq> [] \<and> length pkt \<le> DPS_MAX_BUFF_SZ \<and> has_server_buffer env w \<and>
     se_recvfrom env socket alen (sw_outer c) = ((int (length pkt), pkt, from_addr ip zs, alen'), w)"

lemma server_receives:
  assumes ok: "server_ok env E s c" and a: "server_arrives env c socket alen pkt ip zs alen' w" and d: "ia_family d = AF_INET"
  shows "\<exists>c1 junk. server_receive_loop env socket (Suc k) (d, alen) s = do {
      (_, (tbl, s')) \<leftarrow> dps_process_rcvd_pkt (server_link env) (pkt @ junk) (server_heard ip d) (sw_stats c, s\<lparr>rt_world := Some c1\<rparr>);
      server_receive_loop env socket k (server_heard ip d, alen') (put_server_stats tbl s') } \<and>
    server_ok env E (s\<lparr>rt_world := Some c1\<rparr>) c1 \<and> sw_outer c1 = w \<and> sw_stats c1 = sw_stats c \<and> sw_server_sock c1 = sw_server_sock c"
proof -
  define junk where "junk = drop (length pkt) (sw_buffer c)"
  define c1 where "c1 = c\<lparr>sw_outer := w, sw_buffer := pkt @ junk\<rparr>"
  have a': "length zs = 8" "0 < int (length pkt)" "length pkt \<le> DPS_MAX_BUFF_SZ" using a by (simp_all add: server_arrives_def)
  have io: "sio (se_recvfrom env socket alen) c = ((int (length pkt), pkt, from_addr ip zs, alen'), c\<lparr>sw_outer := w\<rparr>)"
    using a by (simp add: server_arrives_def sio_def)
  have ws: "rt_world s = Some c" using ok by (simp add: server_ok_def)
  have "length (sw_buffer c) = DPS_MAX_BUFF_SZ" using ok by (simp add: server_ok_def)
  then have ok1: "server_ok env E (s\<lparr>rt_world := Some c1\<rparr>) c1" using ok a'(3) by (simp add: server_ok_def rt_inv_world c1_def junk_def)
  have len: "length (from_addr ip zs) = 16" using a'(1) by (simp add: from_addr_def)
  have ld: "ld32 4 (from_addr ip zs) = Some (of_bytes32 (be32 (ia_ip4 ip)))" "ld16 2 (from_addr ip zs) = Some (of_bytes16 (be16 (ia_port ip)))"
    using a'(1) by (simp_all add: from_addr_def ld32_def ld16_def peek_def)
  have "server_receive_loop env socket (Suc k) (d, alen) s = do {
      (_, (tbl, s')) \<leftarrow> dps_process_rcvd_pkt (server_link env) (pkt @ junk) (server_heard ip d) (sw_stats c, s\<lparr>rt_world := Some c1\<rparr>);
      server_receive_loop env socket k (server_heard ip d, alen') (put_server_stats tbl s') }"
    using ws io a'(2) len ld d by (simp add: c1_def junk_def server_heard_def Let_def)
  then show ?thesis using ok1 by (intro exI [of _ c1] exI [of _ junk]) (simp add: c1_def)
qed

text \<open>A request is handed to the data handler.\<close>

lemma server_delivers:
  assumes "server_ok env E s c"
  shows "\<exists>s' c'. deliver (server_link env) h b (tbl, snd (lk_malloc (server_link env) s)) = Some (DPS_SUCCESS, (tbl, s')) \<and>
    server_ok env E s' c' \<and> message_for s' = message_for s \<and> sw_stats c' = sw_stats c \<and> sw_server_sock c' = sw_server_sock c \<and>
    sw_outer c' = se_free env (se_deliver env \<lparr>cd_context = 0, cd_hdr = h, cd_body = b\<rparr> (snd (se_malloc env (sw_outer c))))"
proof -
  let ?c' = "sio_do (se_free env) (sio_do (se_deliver env \<lparr>cd_context = 0, cd_hdr = h, cd_body = b\<rparr>) (snd (sio (se_malloc env) c)))"
  have w: "rt_world s = Some c" using assms by (simp add: server_ok_def)
  then have "deliver (server_link env) h b (tbl, snd (lk_malloc (server_link env) s)) = Some (DPS_SUCCESS, (tbl, s\<lparr>rt_world := Some ?c'\<rparr>))"
    by (simp add: deliver_def server_link_world)
  moreover have "server_ok env E (s\<lparr>rt_world := Some ?c'\<rparr>) ?c'" by (rule server_ok_world [OF assms]) simp_all
  ultimately show ?thesis by (intro exI [of _ "s\<lparr>rt_world := Some ?c'\<rparr>"] exI [of _ ?c']) simp
qed

text \<open>An answer is handed on with the context of the message it answers, which is not sent any more.\<close>

lemma server_delivers_answer:
  assumes ok: "server_ok env E s c" and q: "ch_query_id h \<noteq> 0" "message_for s (ch_query_id h) = Some m" and a: "\<forall>w. se_args_ok env w"
  shows "\<exists>s' c'. deliver_answer keep (server_link env) h b (tbl, snd (lk_malloc (server_link env) s)) = Some (DPS_SUCCESS, (tbl, s')) \<and>
    server_ok env E s' c' \<and> message_for s' = (message_for s)(ch_query_id h := None) \<and> sw_stats c' = sw_stats c \<and>
    sw_outer c' = se_free env (se_deliver env \<lparr>cd_context = rc_context m, cd_hdr = h, cd_body = b\<rparr> (snd (se_malloc env (sw_outer c))))"
proof -
  let ?c = "snd (sio (se_malloc env) c)" and ?s = "s\<lparr>rt_world := Some (snd (sio (se_malloc env) c))\<rparr>"
  let ?c' = "sio_do (se_free env) (sio_do (se_deliver env \<lparr>cd_context = rc_context m, cd_hdr = h, cd_body = b\<rparr>) ?c)"
  have w: "rt_world s = Some c" "rt_inv E s" using ok by (simp_all add: server_ok_def)
  have ok1: "server_ok env E ?s ?c" by (rule server_ok_world [OF ok]) simp_all
  have i1: "rt_inv E ?s" "re_args_ok (no_calls env) (rt_world ?s)" using w a by (simp_all add: rt_inv_world no_calls_def)
  have st: "retransmit_timer_stop (no_calls env) (ch_query_id h) ?s = Some (0, Some (rc_context m), removed (ch_query_id h) ?s)"
    "rt_inv E (removed (ch_query_id h) ?s)"
    using stop_message [OF i1] q(2) by simp_all
  have rw: "rt_world (removed (ch_query_id h) ?s) = Some ?c" by (simp add: removed_def split: option.split)
  have ok2: "server_ok env E (removed (ch_query_id h) ?s) ?c" using ok1 st(2) rw by (simp add: server_ok_def)
  have "dps_stop_retransmit_timer (server_link env) (ch_query_id h) ?s = ((DPS_SUCCESS, rc_context m), removed (ch_query_id h) ?s)"
    using q(1) st(1) by (simp add: dps_stop_retransmit_timer_def server_link_def)
  then have "deliver_answer keep (server_link env) h b (tbl, snd (lk_malloc (server_link env) s)) =
      Some (DPS_SUCCESS, (tbl, (removed (ch_query_id h) ?s)\<lparr>rt_world := Some ?c'\<rparr>))"
    using w(1) rw by (simp add: deliver_answer_def server_link_world)
  moreover have "server_ok env E ((removed (ch_query_id h) ?s)\<lparr>rt_world := Some ?c'\<rparr>) ?c'" by (rule server_ok_world [OF ok2]) simp_all
  moreover have "message_for (removed (ch_query_id h) ?s) = (message_for s)(ch_query_id h := None)" using message_for_removed [OF i1(1)] by simp
  ultimately show ?thesis by (intro exI [of _ "(removed (ch_query_id h) ?s)\<lparr>rt_world := Some ?c'\<rparr>"] exI [of _ ?c']) simp
qed

end
