(* ===== verification/Dps_Vnid_Map.thy ===== *)
theory Dps_Vnid_Map
  imports Dove_Chain Dps_Types
begin

text \<open>
  The table of \<open>dps_client_ctrl.c\<close> that says which server answers for
  a virtual network, with the hash lists of \<open>dps_list.h\<close>.  A node of
  a hash list points to the place that points to it: the head of its list or
  the next field of the node before it.  The semaphore of the table makes each
  operation one step.
\<close>

section \<open>Hash lists\<close>

datatype hlist_slot =
    Head nat
  | Next nat

text \<open>The block \<open>svr_node\<close> points to belongs to the entry alone, so it is a value.\<close>

record dps_vnid_node_mapping_entry_t =
  ve_next :: ptr
  ve_pprevious :: "hlist_slot option"
  ve_vn_id :: u32
  ve_svr_node :: ip_addr_t

record dps_vnid_node_mapping_table_t =
  vt_hash_size :: u16
  vt_hash :: "ptr list"
  vt_heap :: "nat \<rightharpoonup> dps_vnid_node_mapping_entry_t"

abbreviation (input) VNID_NODE_MAPPING_HASH_BITS :: nat where "VNID_NODE_MAPPING_HASH_BITS \<equiv> 6"
abbreviation (input) VNID_HASH_SIZE :: nat where "VNID_HASH_SIZE \<equiv> 64"
abbreviation (input) LIST_POISON1 :: ptr where "LIST_POISON1 \<equiv> Some 0xbad11111"
abbreviation (input) LIST_POISON2 :: "hlist_slot option" where "LIST_POISON2 \<equiv> Some (Next 0xbad22222)"

definition store_entry :: "nat \<Rightarrow> dps_vnid_node_mapping_entry_t \<Rightarrow> dps_vnid_node_mapping_table_t \<Rightarrow> dps_vnid_node_mapping_table_t" where
  "store_entry a e t = t\<lparr>vt_heap := (vt_heap t)(a \<mapsto> e)\<rparr>"

definition write_slot :: "hlist_slot \<Rightarrow> ptr \<Rightarrow> dps_vnid_node_mapping_table_t \<Rightarrow> dps_vnid_node_mapping_table_t option" where
  "write_slot sl p t = (case sl of
     Head i \<Rightarrow> if i < length (vt_hash t) then Some (t\<lparr>vt_hash := (vt_hash t)[i := p]\<rparr>) else None
   | Next a \<Rightarrow> map_option (\<lambda>e. store_entry a (e\<lparr>ve_next := p\<rparr>) t) (vt_heap t a))"

definition set_pprevious :: "ptr \<Rightarrow> hlist_slot \<Rightarrow> dps_vnid_node_mapping_table_t \<Rightarrow> dps_vnid_node_mapping_table_t option" where
  "set_pprevious p sl t = (case p of
     None \<Rightarrow> Some t
   | Some a \<Rightarrow> map_option (\<lambda>e. store_entry a (e\<lparr>ve_pprevious := Some sl\<rparr>) t) (vt_heap t a))"

definition dps_hlist_head_add :: "nat \<Rightarrow> nat \<Rightarrow> dps_vnid_node_mapping_table_t \<Rightarrow> dps_vnid_node_mapping_table_t option" where
  "dps_hlist_head_add i node t = do {
     first \<leftarrow> (if i < length (vt_hash t) then Some (vt_hash t ! i) else None);
     t \<leftarrow> write_slot (Next node) first t;
     t \<leftarrow> set_pprevious first (Next node) t;
     t \<leftarrow> write_slot (Head i) (Some node) t;
     set_pprevious (Some node) (Head i) t }"

definition dps_hlist_node_remove :: "nat \<Rightarrow> dps_vnid_node_mapping_table_t \<Rightarrow> dps_vnid_node_mapping_table_t option" where
  "dps_hlist_node_remove node t = do {
     n \<leftarrow> vt_heap t node;
     pprev \<leftarrow> ve_pprevious n;
     t \<leftarrow> write_slot pprev (ve_next n) t;
     t \<leftarrow> set_pprevious (ve_next n) pprev t;
     n \<leftarrow> vt_heap t node;
     Some (store_entry node (n\<lparr>ve_next := LIST_POISON1, ve_pprevious := LIST_POISON2\<rparr>) t) }"

definition free_entry :: "nat \<Rightarrow> dps_vnid_node_mapping_table_t \<Rightarrow> dps_vnid_node_mapping_table_t option" where
  "free_entry a t = (if vt_heap t a = None then None else Some (t\<lparr>vt_heap := (vt_heap t)(a := None)\<rparr>))"

section \<open>The table\<close>

definition dps_vnid_node_mapping_hash :: "bytes \<Rightarrow> u32" where
  "dps_vnid_node_mapping_hash data = foldl (\<lambda>hash d. (push_bit 5 hash + hash) + ucast d) 5381 data"

definition get_hlist_head :: "dps_vnid_node_mapping_table_t \<Rightarrow> u32 \<Rightarrow> nat" where
  "get_hlist_head t vn_id = unat (dps_vnid_node_mapping_hash (bytes32 vn_id) AND (ucast (vt_hash_size t) - 1))"

definition dps_vnid_node_mapping_table_init :: "bool \<Rightarrow> dps_vnid_node_mapping_table_t \<Rightarrow> u32 \<times> dps_vnid_node_mapping_table_t" where
  "dps_vnid_node_mapping_table_init sem_ok t =
     (if sem_ok then DPS_SUCCESS else DPS_ERROR_NO_RESOURCES,
      t\<lparr>vt_hash_size := push_bit VNID_NODE_MAPPING_HASH_BITS 1, vt_hash := replicate VNID_HASH_SIZE None\<rparr>)"

definition remove_entry :: "nat \<Rightarrow> dps_vnid_node_mapping_table_t \<Rightarrow> dps_vnid_node_mapping_table_t option" where
  "remove_entry a t = do { t \<leftarrow> dps_hlist_node_remove a t; free_entry a t }"

definition clean_bucket :: "nat \<Rightarrow> dps_vnid_node_mapping_table_t \<Rightarrow> dps_vnid_node_mapping_table_t option" where
  "clean_bucket i t = do {
     t \<leftarrow> while_opt (\<lambda>t. vt_hash t ! i \<noteq> None) (\<lambda>t. vt_hash t ! i \<bind> (\<lambda>a. remove_entry a t)) t;
     write_slot (Head i) None t }"

definition dps_vnid_node_mapping_table_clean :: "dps_vnid_node_mapping_table_t \<Rightarrow> dps_vnid_node_mapping_table_t option" where
  "dps_vnid_node_mapping_table_clean t = for_each clean_bucket [0..<unat (vt_hash_size t)] t"

text \<open>
  A search leaves the caller's \<open>addr\<close> alone when it finds nothing.
\<close>

definition dps_vnid_node_mapping_table_get_available_entry :: "dps_vnid_node_mapping_table_t \<Rightarrow> ip_addr_t \<Rightarrow> (u32 \<times> ip_addr_t) option" where
  "dps_vnid_node_mapping_table_get_available_entry t addr =
     (case List.find (\<lambda>i. vt_hash t ! i \<noteq> None) [0..<unat (vt_hash_size t)] of
        None \<Rightarrow> Some (DPS_ERROR, addr)
      | Some i \<Rightarrow> do { a \<leftarrow> vt_hash t ! i; e \<leftarrow> vt_heap t a; Some (DPS_SUCCESS, ve_svr_node e) })"

definition vnid_node_search_in_bkt :: "dps_vnid_node_mapping_table_t \<Rightarrow> u32 \<Rightarrow> nat \<Rightarrow> ptr option" where
  "vnid_node_search_in_bkt t vn_id i = (if i < length (vt_hash t) then while_opt
     (\<lambda>p. case p of None \<Rightarrow> False | Some a \<Rightarrow> (case vt_heap t a of None \<Rightarrow> True | Some e \<Rightarrow> ve_vn_id e \<noteq> vn_id))
     (\<lambda>p. do { a \<leftarrow> p; e \<leftarrow> vt_heap t a; Some (ve_next e) }) (vt_hash t ! i) else None)"

definition dps_vnid_node_mapping_entry_search :: "dps_vnid_node_mapping_table_t \<Rightarrow> u32 \<Rightarrow> ip_addr_t \<Rightarrow> (u32 \<times> ip_addr_t) option" where
  "dps_vnid_node_mapping_entry_search t vn_id addr = do {
     entry \<leftarrow> vnid_node_search_in_bkt t vn_id (get_hlist_head t vn_id);
     (case entry of
        None \<Rightarrow> Some (DPS_ERROR, addr)
      | Some a \<Rightarrow> do { e \<leftarrow> vt_heap t a; Some (DPS_SUCCESS, ve_svr_node e) }) }"

text \<open>
  \<open>malloc\<close> yields the address of a new entry, or none; the flag says
  whether the block for its address is allocated too.
\<close>

definition dps_vnid_node_mapping_entry_add :: "ptr \<times> bool \<Rightarrow> u32 \<Rightarrow> ip_addr_t \<Rightarrow> dps_vnid_node_mapping_table_t \<Rightarrow>
    (u32 \<times> dps_vnid_node_mapping_table_t) option" where
  "dps_vnid_node_mapping_entry_add malloc vn_id svr_node t = do {
     entry \<leftarrow> vnid_node_search_in_bkt t vn_id (get_hlist_head t vn_id);
     (case entry of
        Some a \<Rightarrow> do { e \<leftarrow> vt_heap t a; Some (DPS_SUCCESS, store_entry a (e\<lparr>ve_svr_node := svr_node\<rparr>) t) }
      | None \<Rightarrow> (case malloc of
          (None, _) \<Rightarrow> Some (DPS_ERROR_NO_RESOURCES, t)
        | (Some a, False) \<Rightarrow> Some (DPS_ERROR_NO_RESOURCES, t)
        | (Some a, True) \<Rightarrow> do {
            t \<leftarrow> dps_hlist_head_add (get_hlist_head t vn_id) a
              (store_entry a \<lparr>ve_next = None, ve_pprevious = None, ve_vn_id = vn_id, ve_svr_node = svr_node\<rparr> t);
            Some (DPS_SUCCESS, t) })) }"

definition dps_vnid_entries_eq :: "ip_addr_t \<Rightarrow> ip_addr_t \<Rightarrow> u32" where
  "dps_vnid_entries_eq node1 node2 =
     (if ia_family node1 = ia_family node2 \<and> ia_port node1 = ia_port node2 \<and> ia_xport_type node1 = ia_xport_type node2 then
        (if ia_family node1 = AF_INET then (if ia_ip4 node1 = ia_ip4 node2 then DPS_SUCCESS else DPS_ERROR)
         else (if ia_ip6 node1 \<noteq> ia_ip6 node2 then DPS_ERROR else DPS_SUCCESS))
      else DPS_ERROR)"

definition dps_vnid_node_mapping_entry_del :: "u32 \<Rightarrow> ip_addr_t \<Rightarrow> dps_vnid_node_mapping_table_t \<Rightarrow>
    (u32 \<times> dps_vnid_node_mapping_table_t) option" where
  "dps_vnid_node_mapping_entry_del vn_id svr_node t = do {
     entry \<leftarrow> vnid_node_search_in_bkt t vn_id (get_hlist_head t vn_id);
     (case entry of
        None \<Rightarrow> Some (DPS_ERROR, t)
      | Some a \<Rightarrow> do {
          e \<leftarrow> vt_heap t a;
          (if dps_vnid_entries_eq (ve_svr_node e) svr_node = DPS_SUCCESS
           then do { t \<leftarrow> remove_entry a t; Some (DPS_SUCCESS, t) }
           else Some (DPS_ERROR, t)) }) }"

definition dps_vnid_node_mapping_del_dup_node :: "ip_addr_t \<Rightarrow> dps_vnid_node_mapping_table_t \<Rightarrow> dps_vnid_node_mapping_table_t option" where
  "dps_vnid_node_mapping_del_dup_node svr_node t =
     for_each (\<lambda>i t. map_option snd (dps_vnid_node_mapping_entry_del (of_nat i) svr_node t)) [0..<unat (vt_hash_size t)] t"

definition dps_vnid_node_mapping_entry_del2 :: "u32 \<Rightarrow> dps_vnid_node_mapping_table_t \<Rightarrow> (u32 \<times> dps_vnid_node_mapping_table_t) option" where
  "dps_vnid_node_mapping_entry_del2 vn_id t = do {
     entry \<leftarrow> vnid_node_search_in_bkt t vn_id (get_hlist_head t vn_id);
     (case entry of
        None \<Rightarrow> Some (DPS_ERROR, t)
      | Some a \<Rightarrow> do { t \<leftarrow> remove_entry a t; Some (DPS_SUCCESS, t) }) }"

definition dps_vnid_node_mapping_entry_find :: "dps_vnid_node_mapping_table_t \<Rightarrow> u32 \<Rightarrow> ip_addr_t \<Rightarrow> (u32 \<times> ip_addr_t) option" where
  "dps_vnid_node_mapping_entry_find t vn_id addr = do {
     (status, addr) \<leftarrow> dps_vnid_node_mapping_entry_search t vn_id addr;
     if status = DPS_SUCCESS then Some (DPS_SUCCESS, addr)
     else dps_vnid_node_mapping_table_get_available_entry t addr }"

end
