(* ===== verification/Dps_Client_Ctrl.thy ===== *)
theory Dps_Client_Ctrl
  imports Dps_Receive Dps_Vnid_Map Raw_Proto_Timer
begin

text \<open>
  The client side of the transport, \<open>dps_client_ctrl.c\<close>: the server it
  was given, the table of servers per virtual network, sending with
  retransmission, and receiving.  Socket addresses are the bytes of a
  \<open>sockaddr_storage\<close>.
\<close>

section \<open>Socket addresses\<close>

abbreviation (input) SOCK_DGRAM :: u16 where "SOCK_DGRAM \<equiv> 2"
abbreviation (input) SIZEOF_STORAGE :: nat where "SIZEOF_STORAGE \<equiv> 128"

definition dps_copy_laddr_saddr :: "ip_addr_t \<Rightarrow> bytes \<Rightarrow> (u32 \<times> bytes) option" where
  "dps_copy_laddr_saddr src dst =
     (if ia_family src = AF_INET then do {
        b \<leftarrow> st16 0 AF_INET dst;
        b \<leftarrow> st32 4 (htonl (ia_ip4 src)) b;
        b \<leftarrow> st16 2 (htons (ia_port src)) b;
        Some (DPS_SUCCESS, b) }
      else if ia_family src = AF_INET6 then do {
        b \<leftarrow> st16 0 AF_INET6 dst;
        b \<leftarrow> poke 8 (ia_ip6 src) b;
        b \<leftarrow> st16 2 (htons (ia_port src)) b;
        Some (DPS_SUCCESS, b) }
      else Some (DPS_ERROR, dst))"

definition dps_copy_saddr_laddr :: "bytes \<Rightarrow> ip_addr_t \<Rightarrow> ip_addr_t option" where
  "dps_copy_saddr_laddr src dst = do {
     family \<leftarrow> ld16 0 src;
     port \<leftarrow> ld16 2 src;
     dst \<leftarrow> (if family = AF_INET then do {
          ip \<leftarrow> ld32 4 src;
          Some (dst\<lparr>ia_family := AF_INET, ia_ip6 := set_ip4 (ntohl ip) (ia_ip6 dst), ia_port := ntohs port\<rparr>) }
        else do {
          ip6 \<leftarrow> peek 8 16 src;
          Some (dst\<lparr>ia_family := AF_INET6, ia_ip6 := ip6, ia_port := ntohs port\<rparr>) });
     Some (dst\<lparr>ia_xport_type := SOCK_DGRAM, ia_port_http := 0\<rparr>) }"

section \<open>State\<close>

text \<open>The socket of the client and the server address it was created for.\<close>

record dps_svr_addr_info_t =
  si_family :: u16
  si_ip4_family :: u16
  si_ip4_addr :: u32
  si_ip4_port :: u16
  si_ip6_family :: u16
  si_ip6_addr :: bytes
  si_sock_fd :: int
  si_xport_type :: u8
  si_inuse :: bool
  si_buff :: bytes

record 'w client_world =
  cw_svr :: dps_svr_addr_info_t
  cw_table :: dps_vnid_node_mapping_table_t
  cw_last_sent_time :: u32
  cw_stats :: dps_stats
  cw_outer :: 'w

text \<open>
  The timer runs in the same process and its callback reaches the table of
  servers, so the state of the client is the state of the timer with the rest
  of the client as its surroundings; \<open>None\<close> there means that something
  undefined has happened.
\<close>

type_synonym 'w client_state = "'w client_world option timer_state"

text \<open>
  What the client calls: allocation of table entries, timer nodes and
  buffers, the clock, sockets, the dispatcher of file descriptors and the
  program above; and what uninitialised variables happen to hold.
\<close>

record 'w client_env =
  ce_alloc_entry :: "dps_vnid_node_mapping_table_t \<Rightarrow> ptr \<times> bool"
  ce_alloc_node :: "'w client_state \<Rightarrow> ptr"
  ce_alloc_pkt :: "'w client_state \<Rightarrow> bool"
  ce_malloc :: "'w \<Rightarrow> bytes option \<times> 'w"
  ce_free :: "'w \<Rightarrow> 'w"
  ce_time :: "'w \<Rightarrow> int \<times> 'w"
  ce_wait :: "'w \<Rightarrow> bool \<times> 'w"
  ce_mutex_ok :: bool
  ce_unlock_ok :: bool
  ce_thread_ok :: bool
  ce_socket :: "u16 \<Rightarrow> 'w \<Rightarrow> int \<times> 'w"
  ce_fcntl :: "int \<Rightarrow> 'w \<Rightarrow> int \<times> 'w"
  ce_add_fd :: "int \<Rightarrow> 'w \<Rightarrow> int \<times> 'w"
  ce_close :: "int \<Rightarrow> 'w \<Rightarrow> 'w"
  ce_sendto :: "int \<Rightarrow> bytes \<Rightarrow> bytes \<Rightarrow> 'w \<Rightarrow> int \<times> 'w"
  ce_recvfrom :: "int \<Rightarrow> nat \<Rightarrow> 'w \<Rightarrow> (int \<times> bytes \<times> bytes \<times> nat) \<times> 'w"
  ce_deliver :: "dps_client_data_t \<Rightarrow> 'w \<Rightarrow> 'w"
  ce_interval :: u32
  ce_uninit_addr :: ip_addr_t
  ce_uninit_tail :: bytes
  ce_uninit_storage :: bytes
  ce_uninit_hdr :: dps_client_hdr_t

definition io :: "('w \<Rightarrow> 'a \<times> 'w) \<Rightarrow> 'w client_world \<Rightarrow> 'a \<times> 'w client_world" where
  "io f c = (case f (cw_outer c) of (r, w) \<Rightarrow> (r, c\<lparr>cw_outer := w\<rparr>))"

definition io_do :: "('w \<Rightarrow> 'w) \<Rightarrow> 'w client_world \<Rightarrow> 'w client_world" where
  "io_do f c = c\<lparr>cw_outer := f (cw_outer c)\<rparr>"

section \<open>Servers\<close>

definition dps_update_svr_addr_list :: "ip_addr_t \<Rightarrow> dps_svr_addr_info_t \<Rightarrow> dps_svr_addr_info_t" where
  "dps_update_svr_addr_list node si =
     (let si = (if ia_family node = AF_INET
        then si\<lparr>si_family := AF_INET, si_ip4_family := AF_INET, si_ip4_addr := ia_ip4 node\<rparr>
        else si\<lparr>si_family := AF_INET6, si_ip6_family := AF_INET6, si_ip6_addr := ia_ip6 node\<rparr>)
      in si\<lparr>si_ip4_port := ia_port node, si_xport_type := ucast (ia_xport_type node)\<rparr>)"

definition add_server :: "'w client_env \<Rightarrow> u32 \<Rightarrow> ip_addr_t \<Rightarrow> 'w client_world \<Rightarrow> 'w client_world option" where
  "add_server env vnid node c = do {
     (_, t) \<leftarrow> dps_vnid_node_mapping_entry_add (ce_alloc_entry env (cw_table c)) vnid node (cw_table c);
     Some (c\<lparr>cw_table := t\<rparr>) }"

definition set_inuse :: "bool \<Rightarrow> 'w client_world \<Rightarrow> 'w client_world" where
  "set_inuse b c = c\<lparr>cw_svr := (cw_svr c)\<lparr>si_inuse := b\<rparr>\<rparr>"

definition open_socket :: "'w client_env \<Rightarrow> ip_addr_t \<Rightarrow> 'w client_world \<Rightarrow> (u32 \<times> 'w client_world) option" where
  "open_socket env node c = (case io (ce_socket env (si_ip4_family (cw_svr c))) c of (fd, c) \<Rightarrow>
     let c = c\<lparr>cw_svr := (cw_svr c)\<lparr>si_sock_fd := fd\<rparr>\<rparr> in
     if fd < 0 then Some (DPS_ERROR_NO_RESOURCES, set_inuse False c)
     else (case io (ce_fcntl env fd) c of (rc, c) \<Rightarrow>
       if rc = -1 then Some (DPS_SUCCESS, c)
       else (case io (ce_add_fd env fd) c of (comm_status, c) \<Rightarrow>
         if comm_status = 0 then do { c \<leftarrow> add_server env 0 node c; Some (DPS_SUCCESS, c) }
         else Some (DPS_ERROR, io_do (ce_close env fd) (set_inuse False c)))))"

definition dps_server_add :: "'w client_env \<Rightarrow> ip_addr_t \<Rightarrow> 'w client_world \<Rightarrow> (u32 \<times> 'w client_world) option" where
  "dps_server_add env node c =
     (if si_inuse (cw_svr c) then do {
        (status, old) \<leftarrow> dps_vnid_node_mapping_entry_search (cw_table c) 0 zero_ip_addr;
        c \<leftarrow> (if status = DPS_SUCCESS then
            (if ia_family node = ia_family old \<and> ia_ip4 node = ia_ip4 old \<and> ia_port node = ia_port old then Some c
             else do {
               t \<leftarrow> dps_vnid_node_mapping_del_dup_node old (cw_table c);
               add_server env 0 node (c\<lparr>cw_table := t, cw_svr := dps_update_svr_addr_list node (cw_svr c)\<rparr>) })
          else add_server env 0 node c);
        Some (DPS_SUCCESS, c) }
      else
        let c = set_inuse True (c\<lparr>cw_svr := dps_update_svr_addr_list node (cw_svr c)\<rparr>) in
        if si_xport_type (cw_svr c) = ucast SOCK_DGRAM then open_socket env node c else Some (DPS_SUCCESS, c))"

definition dps_server_del :: "ip_addr_t \<Rightarrow> 'w client_world \<Rightarrow> 'w client_world option" where
  "dps_server_del node c = do {
     t \<leftarrow> dps_vnid_node_mapping_del_dup_node node (cw_table c);
     Some (c\<lparr>cw_svr := (cw_svr c)\<lparr>si_ip4_addr := 0, si_ip4_port := 0\<rparr>, cw_table := t\<rparr>) }"

definition dps_find_server :: "'w client_env \<Rightarrow> u32 \<Rightarrow> bytes \<Rightarrow> 'w client_world \<Rightarrow> (u32 \<times> bytes) option" where
  "dps_find_server env vnid svr_addr c = do {
     (status, addr) \<leftarrow> dps_vnid_node_mapping_entry_find (cw_table c) vnid (ce_uninit_addr env);
     (if status = DPS_SUCCESS then dps_copy_laddr_saddr addr svr_addr else Some (status, svr_addr)) }"

text \<open>
  \<open>memset\<close> is given the size of the header, but starts at the context
  before it: the last eight bytes of the header, which lie within its last
  member, keep what they held.
\<close>

definition new_node_request :: "'w client_env \<Rightarrow> dps_client_data_t" where
  "new_node_request env = \<lparr>cd_context = 0, cd_hdr = zero_hdr\<lparr>ch_type := DPS_GET_DCS_NODE,
     ch_reply_addr := zero_ip_addr\<lparr>ia_ip6 := replicate 8 0 @ ce_uninit_tail env\<rparr>\<rparr>, cd_body = No_body\<rparr>"

definition dps_req_new_dps_node :: "'w client_env \<Rightarrow> u32 \<Rightarrow> 'w client_world \<Rightarrow> 'w client_world option" where
  "dps_req_new_dps_node env vnid c = do {
     (_, t) \<leftarrow> dps_vnid_node_mapping_entry_del2 vnid (cw_table c);
     (case io (ce_time env) (c\<lparr>cw_table := t\<rparr>) of (now, c) \<Rightarrow>
        if now - uint (cw_last_sent_time c) \<ge> uint (ce_interval env) then
          (case io (ce_time env) c of (now, c) \<Rightarrow>
             Some (io_do (ce_deliver env (new_node_request env)) (c\<lparr>cw_last_sent_time := word_of_int now\<rparr>)))
        else Some c) }"

section \<open>The timer of the client\<close>

text \<open>The surroundings of the timer, for a way to call its owner back.\<close>

definition timer_calls :: "'w client_env \<Rightarrow>
    (nat \<Rightarrow> raw_proto_retransmit_status_t \<Rightarrow> bytes \<Rightarrow> nat \<Rightarrow> int \<Rightarrow> 'w client_state \<Rightarrow> 'w client_state option) \<Rightarrow>
    'w client_world option timer_env" where
  "timer_calls env call = \<lparr>
     tm_malloc = ce_alloc_node env, tm_malloc_pkt = ce_alloc_pkt env,
     tm_time = (\<lambda>w. case w of None \<Rightarrow> (0, None) | Some c \<Rightarrow> map_prod id Some (io (ce_time env) c)),
     tm_sendto = (\<lambda>fd pkt addr. map_option (\<lambda>c. snd (io (ce_sendto env fd pkt addr) c))),
     tm_call = call, tm_mutex_ok = ce_mutex_ok env, tm_unlock_ok = ce_unlock_ok env, tm_thread_ok = ce_thread_ok env,
     tm_wait = (\<lambda>w. case w of None \<Rightarrow> (False, None) | Some c \<Rightarrow> map_prod id Some (io (ce_wait env) c))\<rparr>"

text \<open>Starting a timer calls nobody back.\<close>

definition client_start :: "'w client_env \<Rightarrow> bytes \<Rightarrow> u32 \<Rightarrow> int \<Rightarrow> bytes \<Rightarrow> nat \<Rightarrow> 'w client_state \<Rightarrow> (int \<times> 'w client_state) option" where
  "client_start env buff query_id fd dst context =
     raw_proto_timer_start (timer_calls env (\<lambda>_ _ _ _ _. Some)) (Some buff) (length buff) query_id RAW_PKT_DEF_RETRANSMIT_INTERVAL
       MAX_NUM_DEF_RETRANSMIT fd (Some dst) context RPT_OWNER_DPSA"

section \<open>Sending\<close>

definition dps_get_sockaddr_len :: "bytes \<Rightarrow> nat option" where
  "dps_get_sockaddr_len svr_addr = map_option (\<lambda>f. if f = AF_INET then 16 else 28) (ld16 0 svr_addr)"

definition xmit_addr :: "'w client_env \<Rightarrow> ip_addr_t \<Rightarrow> u32 \<Rightarrow> 'w client_world \<Rightarrow> (u32 \<times> bytes) option" where
  "xmit_addr env addr vnid c = (if ia_family addr = AF_INET \<or> ia_family addr = AF_INET6
     then dps_copy_laddr_saddr addr (ce_uninit_storage env)
     else dps_find_server env vnid (ce_uninit_storage env) c)"

definition dps_protocol_xmit :: "'w client_env \<Rightarrow> bytes \<Rightarrow> ip_addr_t \<Rightarrow> nat \<Rightarrow> 'w client_state \<Rightarrow> (u32 \<times> 'w client_state) option" where
  "dps_protocol_xmit env buff addr context s = do {
     c \<leftarrow> ts_world s;
     (if \<not> si_inuse (cw_svr c) then Some (DPS_XMIT_ERROR, s) else do {
        (hdr, _) \<leftarrow> dps_get_pkt_hdr buff (ce_uninit_hdr env);
        (status, dst) \<leftarrow> xmit_addr env addr (ch_vnid hdr) c;
        (if status \<noteq> DPS_SUCCESS then Some (DPS_XMIT_ERROR, s)
         else do {
           (status, s) \<leftarrow> (if context \<noteq> 0 then do {
               (rc, s) \<leftarrow> client_start env buff (ch_query_id hdr) (si_sock_fd (cw_svr c)) dst context s;
               Some (if rc \<noteq> 0 then DPS_ERROR_NO_RESOURCES else DPS_SUCCESS, s) }
             else Some (DPS_SUCCESS, s));
           c \<leftarrow> ts_world s;
           len \<leftarrow> dps_get_sockaddr_len dst;
           (case io (ce_sendto env (si_sock_fd (cw_svr c)) buff (take len dst)) c of (bytes_sent, c) \<Rightarrow>
              Some (if bytes_sent \<le> 0 then DPS_XMIT_ERROR else status, s\<lparr>ts_world := Some c\<rparr>)) }) }) }"

section \<open>The surroundings of the packet code\<close>

definition on_client :: "('w client_world \<Rightarrow> 'w client_world option) \<Rightarrow> 'w client_state \<Rightarrow> 'w client_state" where
  "on_client f s = s\<lparr>ts_world := ts_world s \<bind> f\<rparr>"

definition crashed :: "'w client_state \<Rightarrow> 'w client_state" where
  "crashed s = s\<lparr>ts_world := None\<rparr>"

definition client_link :: "'w client_env \<Rightarrow> 'w client_state dps_link" where
  "client_link env = \<lparr>
     lk_server = False,
     lk_malloc = (\<lambda>s. case ts_world s of None \<Rightarrow> (None, s)
       | Some c \<Rightarrow> (case io (ce_malloc env) c of (mem, c) \<Rightarrow> (mem, s\<lparr>ts_world := Some c\<rparr>))),
     lk_free = on_client (\<lambda>c. Some (io_do (ce_free env) c)),
     lk_active = (\<lambda>_. True),
     lk_query_id = raw_proto_query_id_generate,
     lk_xmit = (\<lambda>pkt addr context s. case dps_protocol_xmit env pkt addr context s of
         None \<Rightarrow> (DPS_ERROR, crashed s) | Some r \<Rightarrow> r),
     lk_timer_stop = (\<lambda>q s. case raw_proto_timer_stop q True True s of
         None \<Rightarrow> ((False, 0), crashed s)
       | Some (rc, context, s) \<Rightarrow> ((rc = RAW_PROTO_TIMER_RETURN_OK, case context of None \<Rightarrow> 0 | Some (context, _) \<Rightarrow> context), s)),
     lk_deliver = (\<lambda>d. on_client (\<lambda>c. Some (io_do (ce_deliver env d) c))),
     lk_new_node = (\<lambda>vnid. on_client (dps_req_new_dps_node env vnid)),
     lk_uninit = (\<lambda>_. ce_uninit_addr env)\<rparr>"

text \<open>The statistics are a global variable, too.\<close>

definition put_stats :: "dps_stats \<Rightarrow> 'w client_state \<Rightarrow> 'w client_state" where
  "put_stats tbl = on_client (\<lambda>c. Some (c\<lparr>cw_stats := tbl\<rparr>))"

abbreviation (input) CALLBACK :: nat where "CALLBACK \<equiv> 1"

definition client_callback :: "'w client_env \<Rightarrow> nat \<Rightarrow> raw_proto_retransmit_status_t \<Rightarrow> bytes \<Rightarrow> nat \<Rightarrow> int \<Rightarrow>
    'w client_state \<Rightarrow> 'w client_state option" where
  "client_callback env f status pkt context owner s = Some (case ts_world s of
     None \<Rightarrow> s
   | Some c \<Rightarrow> if f \<noteq> CALLBACK then crashed s
       else (case dps_retransmit_callback (client_link env) status pkt context (cw_stats c, s) of
           None \<Rightarrow> crashed s
         | Some (tbl, s) \<Rightarrow> put_stats tbl s))"

definition client_timer :: "'w client_env \<Rightarrow> 'w client_world option timer_env" where
  "client_timer env = timer_calls env (client_callback env)"

section \<open>Receiving\<close>

text \<open>
  The loop over the packets that wait on the socket, at most \<open>loops\<close>
  of them.  A packet overwrites the beginning of the receive buffer, a sender
  the beginning of the variable for its address.
\<close>

definition over :: "bytes \<Rightarrow> bytes \<Rightarrow> bytes" where
  "over new old = new @ drop (length new) old"

fun receive_loop :: "'w client_env \<Rightarrow> int \<Rightarrow> nat \<Rightarrow> ip_addr_t \<times> bytes \<times> nat \<Rightarrow> 'w client_state \<Rightarrow> 'w client_state option" where
  "receive_loop env socket 0 (sender, client_addr, addr_len) s = Some s"
| "receive_loop env socket (Suc loops) (sender, client_addr, addr_len) s = do {
     c \<leftarrow> ts_world s;
     (case io (ce_recvfrom env socket addr_len) c of ((bytes_read, data, from, addr_len), c) \<Rightarrow>
        if bytes_read \<le> 0 then Some (s\<lparr>ts_world := Some c\<rparr>)
        else
          let client_addr = over from client_addr;
              buff = over data (si_buff (cw_svr c));
              c = c\<lparr>cw_svr := (cw_svr c)\<lparr>si_buff := buff\<rparr>\<rparr>
          in do {
            sender \<leftarrow> dps_copy_saddr_laddr client_addr sender;
            (hdr, _) \<leftarrow> dps_get_pkt_hdr buff (ce_uninit_hdr env);
            c \<leftarrow> add_server env (ch_vnid hdr) sender c;
            (_, (tbl, s)) \<leftarrow> dps_process_rcvd_pkt (client_link env) buff sender (cw_stats c, s\<lparr>ts_world := Some c\<rparr>);
            receive_loop env socket loops (sender, client_addr, addr_len) (put_stats tbl s) }) }"

definition dps_process_data_rcvd :: "'w client_env \<Rightarrow> int \<Rightarrow> 'w client_state \<Rightarrow> 'w client_state option" where
  "dps_process_data_rcvd env socket =
     receive_loop env socket 10000 (zero_ip_addr\<lparr>ia_family := AF_INET\<rparr>, ce_uninit_storage env, SIZEOF_STORAGE)"

definition dps_client_init :: "'w client_env \<Rightarrow> bool \<Rightarrow> 'w client_state \<Rightarrow> (u32 \<times> 'w client_state) option" where
  "dps_client_init env sem_ok s = do {
     (rc, s) \<leftarrow> raw_proto_timer_init (client_timer env) (Some CALLBACK) RPT_OWNER_DPSA
       (on_client (\<lambda>c. Some (c\<lparr>cw_table := snd (dps_vnid_node_mapping_table_init sem_ok (cw_table c))\<rparr>)) s);
     Some (if rc \<noteq> RAW_PROTO_TIMER_RETURN_OK then DPS_ERROR_NO_RESOURCES else DPS_SUCCESS, s) }"

end
