(* ===== verification/Dps_Vnid_Table.thy ===== *)
theory Dps_Vnid_Table
  imports Dps_Vnid_Map
begin

text \<open>
  The hash lists as lists and the table as a map from virtual networks to
  servers: every operation keeps the links in both directions and acts on the
  map as described.
\<close>

section \<open>Hash lists\<close>

text \<open>\<open>backs h sl as\<close>: the nodes of \<open>as\<close> point back, the first to \<open>sl\<close>.\<close>

primrec backs :: "(nat \<rightharpoonup> dps_vnid_node_mapping_entry_t) \<Rightarrow> hlist_slot \<Rightarrow> nat list \<Rightarrow> bool" where
  "backs h sl [] \<longleftrightarrow> True"
| "backs h sl (a # as) \<longleftrightarrow> (\<exists>n. h a = Some n \<and> ve_pprevious n = Some sl) \<and> backs h (Next a) as"

definition end_slot :: "hlist_slot \<Rightarrow> nat list \<Rightarrow> hlist_slot" where
  "end_slot sl as = (if as = [] then sl else Next (last as))"

lemma backs_append: "backs h sl (as @ bs) \<longleftrightarrow> backs h sl as \<and> backs h (end_slot sl as) bs"
  by (induction as arbitrary: sl) (auto simp: end_slot_def)

lemma backs_cong:
  assumes "\<And>a. a \<in> set as \<Longrightarrow> map_option ve_pprevious (h' a) = map_option ve_pprevious (h a)"
  shows "backs h' sl as = backs h sl as"
  using assms
proof (induction as arbitrary: sl)
  case (Cons a as)
  have "map_option ve_pprevious (h' a) = map_option ve_pprevious (h a)" using Cons.prems by simp
  moreover have "backs h' (Next a) as = backs h (Next a) as" using Cons by simp
  ultimately show ?case by (cases "h a"; cases "h' a") auto
qed simp

lemma backs_frame: "b \<notin> set as \<Longrightarrow> backs (h(b := v)) sl as = backs h sl as"
  by (rule backs_cong) auto

text \<open>What a list, its head and the entries are.\<close>

definition hlist :: "(nat \<rightharpoonup> dps_vnid_node_mapping_entry_t) \<Rightarrow> nat \<Rightarrow> ptr \<Rightarrow> nat list \<Rightarrow> bool" where
  "hlist h i p as \<longleftrightarrow> chain ve_next h p as None \<and> backs h (Head i) as"

lemma hlist_cong:
  assumes "hlist h i p as" and "\<And>a. a \<in> set as \<Longrightarrow> h' a = h a"
  shows "hlist h' i p as"
  using assms chain_cong [of as ve_next h' h p None] backs_cong [of as h' h "Head i"] by (simp add: hlist_def)

type_synonym info = "u32 \<times> ip_addr_t"

definition info :: "dps_vnid_node_mapping_entry_t \<Rightarrow> info" where
  "info e = (ve_vn_id e, ve_svr_node e)"

lemma info_links [simp]: "info (e\<lparr>ve_next := p\<rparr>) = info e" "info (e\<lparr>ve_pprevious := q\<rparr>) = info e"
  by (simp_all add: info_def)

text \<open>\<open>same_info\<close>: the entries apart from the given addresses differ at most in their links.\<close>

definition same_info :: "nat set \<Rightarrow> (nat \<rightharpoonup> dps_vnid_node_mapping_entry_t) \<Rightarrow> (nat \<rightharpoonup> dps_vnid_node_mapping_entry_t) \<Rightarrow> bool" where
  "same_info A h h' \<longleftrightarrow> (\<forall>a. a \<notin> A \<longrightarrow> map_option info (h' a) = map_option info (h a))"

lemma head_add_hlist:
  assumes l: "hlist (vt_heap t) i (vt_hash t ! i) as" and i: "i < length (vt_hash t)" and a: "vt_heap t a = Some n" "a \<notin> set as"
  shows "\<exists>t'. dps_hlist_head_add i a t = Some t' \<and> hlist (vt_heap t') i (Some a) (a # as) \<and> vt_hash t' = (vt_hash t)[i := Some a] \<and>
    vt_hash_size t' = vt_hash_size t \<and> same_info {} (vt_heap t) (vt_heap t') \<and> (\<forall>b. b \<noteq> a \<and> b \<notin> set as \<longrightarrow> vt_heap t' b = vt_heap t b)"
proof (cases as)
  case Nil
  then have "vt_hash t ! i = None" using l by (simp add: hlist_def)
  then show ?thesis using i a Nil
    by (auto simp: dps_hlist_head_add_def write_slot_def set_pprevious_def store_entry_def hlist_def same_info_def)
next
  case (Cons f fs)
  then obtain m where m: "vt_heap t f = Some m" "vt_hash t ! i = Some f" "chain ve_next (vt_heap t) (ve_next m) fs None" "backs (vt_heap t) (Next f) fs"
    using l by (auto simp: hlist_def)
  let ?h = "(vt_heap t)(a \<mapsto> n\<lparr>ve_next := Some f, ve_pprevious := Some (Head i)\<rparr>, f \<mapsto> m\<lparr>ve_pprevious := Some (Next a)\<rparr>)"
  have nf: "f \<noteq> a" "f \<notin> set fs" "a \<notin> set fs" using a(2) Cons chain_distinct [of ve_next "vt_heap t" "vt_hash t ! i" as] l by (auto simp: hlist_def)
  then have "chain ve_next ?h (ve_next m) fs None" "backs ?h (Next f) fs"
    using m by (simp_all add: chain_frame backs_frame)
  then have "hlist ?h i (Some a) (a # as)" using nf Cons by (simp add: hlist_def)
  moreover have "dps_hlist_head_add i a t = Some (t\<lparr>vt_heap := ?h, vt_hash := (vt_hash t)[i := Some a]\<rparr>)"
    using i a(1) m nf by (simp add: dps_hlist_head_add_def write_slot_def set_pprevious_def store_entry_def fun_upd_twist)
  ultimately show ?thesis using a m Cons by (simp add: same_info_def)
qed

lemma hlist_unlink:
  assumes l: "hlist h i p (xs @ a # ys)" and n: "h a = Some n"
    and nx: "\<And>x. x \<in> set (butlast xs) \<union> set ys \<Longrightarrow> map_option ve_next (h' x) = map_option ve_next (h x)"
    and nl: "xs \<noteq> [] \<Longrightarrow> map_option ve_next (h' (last xs)) = Some (ve_next n)"
    and pv: "\<And>x. x \<in> set xs \<union> set (tl ys) \<Longrightarrow> map_option ve_pprevious (h' x) = map_option ve_pprevious (h x)"
    and pl: "ys \<noteq> [] \<Longrightarrow> map_option ve_pprevious (h' (hd ys)) = Some (Some (end_slot (Head i) xs))"
  shows "hlist h' i (if xs = [] then ve_next n else p) (xs @ ys)"
proof -
  have c: "chain ve_next h p (xs @ a # ys) None" and b: "backs h (Head i) xs" "backs h (end_slot (Head i) xs) (a # ys)"
    using l by (simp_all add: hlist_def backs_append)
  have ys: "chain ve_next h' (ve_next n) ys None" using c n nx chain_cong [of ys ve_next h' h] by (auto simp: chain_append)
  have "chain ve_next h' (if xs = [] then ve_next n else p) (xs @ ys) None"
  proof (cases xs rule: rev_cases)
    case Nil
    then show ?thesis using ys by simp
  next
    case (snoc zs e)
    then have "chain ve_next h' p zs (Some e)" using c nx chain_cong [of zs ve_next h' h] by (auto simp: chain_append)
    then show ?thesis using ys nl snoc by (auto simp: chain_append)
  qed
  moreover have "backs h' (Head i) xs" using b(1) pv backs_cong [of xs h' h] by auto
  moreover have "backs h' (end_slot (Head i) xs) ys"
    using b(2) pv pl backs_cong [of "tl ys" h' h] by (cases ys) auto
  ultimately show ?thesis by (simp add: hlist_def backs_append)
qed

lemma hlist_pprevious: "hlist h i p (xs @ a # ys) \<Longrightarrow> h a = Some n \<Longrightarrow> ve_pprevious n = Some (end_slot (Head i) xs)"
  by (simp add: hlist_def backs_append)

lemma hlist_next: "hlist h i p (xs @ a # ys) \<Longrightarrow> h a = Some n \<Longrightarrow> ve_next n = (case ys of [] \<Rightarrow> None | b # _ \<Rightarrow> Some b)"
  by (cases ys) (auto simp: hlist_def chain_append)

lemma hlist_nodes: "hlist h i p as \<Longrightarrow> set as \<subseteq> dom h" "hlist h i p as \<Longrightarrow> distinct as"
  by (auto simp: hlist_def dest: chain_allocated chain_distinct)

text \<open>The store after an entry has been unlinked and freed.\<close>

definition unlinked :: "(nat \<rightharpoonup> dps_vnid_node_mapping_entry_t) \<Rightarrow> hlist_slot \<Rightarrow> nat \<Rightarrow> ptr \<Rightarrow> (nat \<rightharpoonup> dps_vnid_node_mapping_entry_t)" where
  "unlinked h sl a q = (\<lambda>x. if x = a then None else if Some x = q then map_option (ve_pprevious_update (\<lambda>_. Some sl)) (h x)
     else if sl = Next x then map_option (ve_next_update (\<lambda>_. q)) (h x) else h x)"

definition head_ptr :: "nat list \<Rightarrow> ptr" where
  "head_ptr ys = (case ys of [] \<Rightarrow> None | b # _ \<Rightarrow> Some b)"

lemma map_option_pprevious [simp]:
  "map_option ve_next (map_option (ve_pprevious_update f) x) = map_option ve_next x"
  "map_option ve_pprevious (map_option (ve_next_update g) x) = map_option ve_pprevious x"
  "map_option info (map_option (ve_pprevious_update f) x) = map_option info x"
  "map_option info (map_option (ve_next_update g) x) = map_option info x"
  by (cases x; simp add: info_def)+

lemma hlist_unlinked:
  assumes l: "hlist h i p (xs @ a # ys)" and n: "h a = Some n"
  shows "hlist (unlinked h (end_slot (Head i) xs) a (head_ptr ys)) i (if xs = [] then head_ptr ys else p) (xs @ ys)"
proof -
  have q: "ve_next n = head_ptr ys" using hlist_next [OF l n] by (simp add: head_ptr_def)
  have d: "distinct (xs @ a # ys)" and alloc: "set (xs @ a # ys) \<subseteq> dom h" using hlist_nodes [OF l] by auto
  have last: "x \<in> set (butlast xs) \<Longrightarrow> x \<noteq> last xs" for x
    using d by (cases xs rule: rev_cases) auto
  have lst: "xs \<noteq> [] \<Longrightarrow> last xs \<notin> set ys" using d by (cases xs rule: rev_cases) auto
  show ?thesis unfolding q [symmetric]
  proof (rule hlist_unlink [OF l n], unfold q)
    show "map_option ve_next (unlinked h (end_slot (Head i) xs) a (head_ptr ys) x) = map_option ve_next (h x)"
      if "x \<in> set (butlast xs) \<union> set ys" for x
      using that d last [of x] lst by (auto simp: unlinked_def end_slot_def dest: in_set_butlastD)
    show "map_option ve_next (unlinked h (end_slot (Head i) xs) a (head_ptr ys) (last xs)) = Some (head_ptr ys)" if ne: "xs \<noteq> []"
    proof -
      obtain m where "h (last xs) = Some m" using alloc last_in_set [OF ne] by auto
      moreover have "last xs \<noteq> a" "Some (last xs) \<noteq> head_ptr ys" using d lst last_in_set [OF ne] ne by (auto simp: head_ptr_def split: list.splits)
      ultimately show ?thesis using ne by (simp add: unlinked_def end_slot_def)
    qed
    show "map_option ve_pprevious (unlinked h (end_slot (Head i) xs) a (head_ptr ys) x) = map_option ve_pprevious (h x)"
      if "x \<in> set xs \<union> set (tl ys)" for x
      using that d by (cases ys) (auto simp: unlinked_def head_ptr_def)
    show "map_option ve_pprevious (unlinked h (end_slot (Head i) xs) a (head_ptr ys) (hd ys)) = Some (Some (end_slot (Head i) xs))" if "ys \<noteq> []"
      using that d alloc by (cases ys) (auto simp: unlinked_def head_ptr_def)
  qed
qed

lemma remove_unlinked:
  assumes l: "hlist (vt_heap t) i (vt_hash t ! i) (xs @ a # ys)" and i: "i < length (vt_hash t)"
  shows "remove_entry a t = Some (t\<lparr>vt_hash := (if xs = [] then (vt_hash t)[i := head_ptr ys] else vt_hash t),
    vt_heap := unlinked (vt_heap t) (end_slot (Head i) xs) a (head_ptr ys)\<rparr>)"
proof -
  have d: "distinct (xs @ a # ys)" and alloc: "set (xs @ a # ys) \<subseteq> dom (vt_heap t)" using hlist_nodes [OF l] by auto
  obtain n where n: "vt_heap t a = Some n" using alloc by auto
  have nx: "ve_next n = head_ptr ys" "ve_pprevious n = Some (end_slot (Head i) xs)"
    using hlist_next [OF l n] hlist_pprevious [OF l n] by (simp_all add: head_ptr_def)
  show ?thesis
  proof (cases xs rule: rev_cases)
    case Nil
    then show ?thesis using n nx i d alloc
      by (cases ys) (auto simp: remove_entry_def dps_hlist_node_remove_def write_slot_def set_pprevious_def store_entry_def free_entry_def
          end_slot_def head_ptr_def unlinked_def fun_eq_iff)
  next
    case (snoc zs c)
    then obtain m where "vt_heap t c = Some m" using alloc by auto
    then show ?thesis using n nx d alloc snoc
      by (cases ys) (auto simp: remove_entry_def dps_hlist_node_remove_def write_slot_def set_pprevious_def store_entry_def free_entry_def
          end_slot_def head_ptr_def unlinked_def fun_eq_iff)
  qed
qed

section \<open>The table\<close>

definition vnid_bucket :: "u32 \<Rightarrow> nat" where
  "vnid_bucket v = unat (dps_vnid_node_mapping_hash (bytes32 v) AND 63)"

lemma vnid_bucket_less: "vnid_bucket v < VNID_HASH_SIZE"
proof -
  have "(x :: u32) AND 63 = take_bit 6 x" for x by (simp add: take_bit_eq_mask mask_eq_exp_minus_1)
  then show ?thesis using take_bit_nat_less_exp [of 6 "unat (dps_vnid_node_mapping_hash (bytes32 v))"] by (simp add: vnid_bucket_def unsigned_take_bit_eq)
qed

text \<open>
  \<open>vnid_table t B\<close>: bucket \<open>i\<close> is the hash list of the entries at
  \<open>B i\<close>, all entries are in the bucket of their network, and no two
  entries are for the same network.
\<close>

definition vnid_table :: "dps_vnid_node_mapping_table_t \<Rightarrow> (nat \<Rightarrow> nat list) \<Rightarrow> bool" where
  "vnid_table t B \<longleftrightarrow> vt_hash_size t = 64 \<and> length (vt_hash t) = VNID_HASH_SIZE \<and>
     (\<forall>i < VNID_HASH_SIZE. hlist (vt_heap t) i (vt_hash t ! i) (B i)) \<and> (\<forall>i \<ge> VNID_HASH_SIZE. B i = []) \<and>
     (\<forall>a n. vt_heap t a = Some n \<longrightarrow> a \<in> set (B (vnid_bucket (ve_vn_id n)))) \<and>
     (\<forall>i a n. a \<in> set (B i) \<longrightarrow> vt_heap t a = Some n \<longrightarrow> vnid_bucket (ve_vn_id n) = i) \<and>
     (\<forall>a b n m. vt_heap t a = Some n \<longrightarrow> vt_heap t b = Some m \<longrightarrow> ve_vn_id n = ve_vn_id m \<longrightarrow> a = b)"

definition vnid_map :: "dps_vnid_node_mapping_table_t \<Rightarrow> (u32 \<rightharpoonup> ip_addr_t) \<Rightarrow> bool" where
  "vnid_map t m \<longleftrightarrow> (\<exists>B. vnid_table t B) \<and> (\<forall>v ip. m v = Some ip \<longleftrightarrow> (\<exists>a n. vt_heap t a = Some n \<and> info n = (v, ip)))"

lemma get_hlist_head_eq: "vnid_table t B \<Longrightarrow> get_hlist_head t v = vnid_bucket v"
  by (simp add: vnid_table_def get_hlist_head_def vnid_bucket_def)

lemma vnid_tableD:
  assumes "vnid_table t B"
  shows "i < VNID_HASH_SIZE \<Longrightarrow> hlist (vt_heap t) i (vt_hash t ! i) (B i)"
    and "vt_heap t a = Some n \<Longrightarrow> a \<in> set (B (vnid_bucket (ve_vn_id n)))"
    and "a \<in> set (B i) \<Longrightarrow> vt_heap t a = Some n \<Longrightarrow> vnid_bucket (ve_vn_id n) = i"
    and "vt_heap t a = Some n \<Longrightarrow> vt_heap t b = Some m \<Longrightarrow> ve_vn_id n = ve_vn_id m \<Longrightarrow> a = b"
    and "length (vt_hash t) = VNID_HASH_SIZE"
    and "a \<in> set (B i) \<Longrightarrow> i < VNID_HASH_SIZE \<and> (\<exists>n. vt_heap t a = Some n)"
proof -
  show "a \<in> set (B i) \<Longrightarrow> i < VNID_HASH_SIZE \<and> (\<exists>n. vt_heap t a = Some n)"
    using assms hlist_nodes(1) [of "vt_heap t" i "vt_hash t ! i" "B i"] by (cases "i < 64") (auto simp: vnid_table_def)
qed (use assms in \<open>auto simp: vnid_table_def\<close>)

text \<open>The entry for a network, or none.\<close>

definition entry_for :: "dps_vnid_node_mapping_table_t \<Rightarrow> u32 \<Rightarrow> ptr \<Rightarrow> bool" where
  "entry_for t v r \<longleftrightarrow> (case r of None \<Rightarrow> \<forall>a n. vt_heap t a = Some n \<longrightarrow> ve_vn_id n \<noteq> v | Some a \<Rightarrow> \<exists>n. vt_heap t a = Some n \<and> ve_vn_id n = v)"

lemma search_bucket:
  assumes t: "vnid_table t B"
  shows "\<exists>r. vnid_node_search_in_bkt t v (get_hlist_head t v) = Some r \<and> entry_for t v r"
proof -
  let ?i = "vnid_bucket v"
  have l: "hlist (vt_heap t) ?i (vt_hash t ! ?i) (B ?i)" by (rule vnid_tableD(1) [OF t vnid_bucket_less])
  then have c: "chain ve_next (vt_heap t) (vt_hash t ! ?i) (B ?i) None" by (simp add: hlist_def)
  have "vnid_node_search_in_bkt t v (get_hlist_head t v) = Some (List.find (\<lambda>a. ve_vn_id (the (vt_heap t a)) = v) (B ?i))"
    using chain_search [OF c, of "\<lambda>e. ve_vn_id e = v"] vnid_bucket_less [of v] vnid_tableD(5) [OF t]
    unfolding vnid_node_search_in_bkt_def get_hlist_head_eq [OF t] by simp
  moreover have "entry_for t v (List.find (\<lambda>a. ve_vn_id (the (vt_heap t a)) = v) (B ?i))"
  proof (cases "List.find (\<lambda>a. ve_vn_id (the (vt_heap t a)) = v) (B ?i)")
    case None
    then have "ve_vn_id (the (vt_heap t a)) \<noteq> v" if "a \<in> set (B ?i)" for a using that by (auto simp: find_None_iff)
    then have "ve_vn_id n \<noteq> v" if "vt_heap t a = Some n" for a n using vnid_tableD(2) [OF t that] that by fastforce
    then show ?thesis unfolding None by (auto simp: entry_for_def)
  next
    case (Some a)
    then have "a \<in> set (B ?i)" "ve_vn_id (the (vt_heap t a)) = v" by (auto simp: find_Some_iff)
    then show ?thesis using Some hlist_nodes(1) [OF l] by (auto simp: entry_for_def)
  qed
  ultimately show ?thesis by blast
qed

lemma map_entry_for:
  assumes "vnid_map t m" and "entry_for t v r"
  shows "m v = (case r of None \<Rightarrow> None | Some a \<Rightarrow> map_option ve_svr_node (vt_heap t a))"
proof -
  obtain B where B: "vnid_table t B" and m: "\<And>v ip. m v = Some ip \<longleftrightarrow> (\<exists>a n. vt_heap t a = Some n \<and> info n = (v, ip))"
    using assms(1) by (auto simp: vnid_map_def)
  show ?thesis
  proof (cases r)
    case None
    then have "m v \<noteq> Some ip" for ip unfolding m using assms(2) by (auto simp: entry_for_def info_def)
    then show ?thesis using None by (cases "m v") auto
  next
    case (Some a)
    then obtain n where n: "vt_heap t a = Some n" "ve_vn_id n = v" using assms(2) by (auto simp: entry_for_def)
    then have "m v = Some (ve_svr_node n)" unfolding m by (auto simp: info_def)
    then show ?thesis using Some n by simp
  qed
qed

text \<open>Replacing one bucket.\<close>

lemma vnid_table_replace:
  assumes t: "vnid_table t B" and i: "i < VNID_HASH_SIZE"
    and t': "vt_hash_size t' = vt_hash_size t" "length (vt_hash t') = length (vt_hash t)" "\<And>j. j \<noteq> i \<Longrightarrow> vt_hash t' ! j = vt_hash t ! j"
    and l: "hlist (vt_heap t') i (vt_hash t' ! i) as"
    and out: "\<And>b. b \<notin> set (B i) \<union> set as \<Longrightarrow> vt_heap t' b = vt_heap t b"
    and ins: "\<And>b n. b \<in> set (B i) \<union> set as \<Longrightarrow> vt_heap t' b = Some n \<Longrightarrow> b \<in> set as \<and> vnid_bucket (ve_vn_id n) = i"
    and new: "set as \<inter> dom (vt_heap t) \<subseteq> set (B i)"
    and uniq: "\<And>a b n m. a \<in> set as \<Longrightarrow> b \<in> set as \<Longrightarrow> vt_heap t' a = Some n \<Longrightarrow> vt_heap t' b = Some m \<Longrightarrow> ve_vn_id n = ve_vn_id m \<Longrightarrow> a = b"
  shows "vnid_table t' (B(i := as))"
proof -
  have other: "b \<notin> set (B i) \<union> set as" if b: "b \<in> set (B j)" "j \<noteq> i" for b j
    using vnid_tableD(3) [OF t b(1)] vnid_tableD(3) [OF t, of b i] vnid_tableD(6) [OF t b(1)] b(2) new by auto
  have lists: "hlist (vt_heap t') j (vt_hash t' ! j) ((B(i := as)) j)" if j: "j < VNID_HASH_SIZE" for j
    using hlist_cong [OF vnid_tableD(1) [OF t j]] l out other [of _ j] t'(3) j by (cases "j = i") auto
  have old: "vt_heap t b = Some n \<and> b \<notin> set (B i)" if "vt_heap t' b = Some n" "b \<notin> set as" for b n
    using that out [of b] ins [of b n] by (cases "b \<in> set (B i)") auto
  have mem: "b \<in> set ((B(i := as)) (vnid_bucket (ve_vn_id n)))" if b: "vt_heap t' b = Some n" for b n
    using ins [of b n] old [OF b] vnid_tableD(2) [OF t, of b n] b by (cases "b \<in> set as") auto
  have bucket: "vnid_bucket (ve_vn_id n) = j" if b: "b \<in> set ((B(i := as)) j)" "vt_heap t' b = Some n" for b j n
    using b ins [of b n] other [of b j] out [of b] vnid_tableD(3) [OF t, of b j n] by (cases "j = i") auto
  have uniq': "a = b" if ab: "vt_heap t' a = Some n" "vt_heap t' b = Some m" "ve_vn_id n = ve_vn_id m" for a b n m
  proof (cases "vnid_bucket (ve_vn_id n) = i")
    case True
    then show ?thesis using uniq [of a b n m] mem [OF ab(1)] mem [OF ab(2)] ab by simp
  next
    case False
    then have "a \<notin> set as" "b \<notin> set as" using ins [of a n] ins [of b m] ab by auto
    then show ?thesis using old ab vnid_tableD(4) [OF t] by blast
  qed
  show ?thesis unfolding vnid_table_def
  proof (intro conjI allI impI)
    show "vt_hash_size t' = 64" "length (vt_hash t') = VNID_HASH_SIZE" using t t'(1,2) by (simp_all add: vnid_table_def)
    show "(B(i := as)) j = []" if "VNID_HASH_SIZE \<le> j" for j using t i that by (auto simp: vnid_table_def)
  qed (use lists mem bucket uniq' in blast)+
qed

text \<open>Changing the entry for one network changes the map at that network.\<close>

lemma vnid_map_update:
  assumes m: "vnid_map t m" and t': "vnid_table t' B'"
    and at: "\<And>x n. vt_heap t x = Some n \<Longrightarrow> (x = a \<longleftrightarrow> ve_vn_id n = v)"
    and info: "\<And>x. map_option info (vt_heap t' x) = (if x = a then map_option (Pair v) r else map_option info (vt_heap t x))"
  shows "vnid_map t' (m(v := r))"
proof -
  have iff: "(\<exists>x n. vt_heap t'' x = Some n \<and> info n = c) \<longleftrightarrow> (\<exists>x. map_option info (vt_heap t'' x) = Some c)" for t'' c by auto
  have "(m(v := r)) w = Some ip \<longleftrightarrow> (\<exists>x. map_option info (vt_heap t' x) = Some (w, ip))" for w ip
  proof (cases "w = v")
    case True
    have "map_option info (vt_heap t x) \<noteq> Some (v, ip)" if "x \<noteq> a" for x
      using at [of x] that by (cases "vt_heap t x") (auto simp: info_def)
    then show ?thesis unfolding info using True by auto
  next
    case False
    have "map_option info (vt_heap t a) \<noteq> Some (w, ip)" using at [of a] False by (cases "vt_heap t a") (auto simp: info_def)
    moreover have "map_option (Pair v) r \<noteq> Some (w, ip)" using False by auto
    moreover have "m w = Some ip \<longleftrightarrow> (\<exists>x. map_option info (vt_heap t x) = Some (w, ip))" using m unfolding vnid_map_def iff by blast
    ultimately show ?thesis unfolding info using False by (auto split: if_splits)
  qed
  then show ?thesis using t' unfolding vnid_map_def iff by blast
qed

lemma remove_map:
  assumes t: "vnid_table t B" and m: "vnid_map t m" and n: "vt_heap t a = Some n"
  shows "\<exists>t'. remove_entry a t = Some t' \<and> vnid_map t' (m(ve_vn_id n := None))"
proof -
  let ?i = "vnid_bucket (ve_vn_id n)"
  obtain xs ys where e: "B ?i = xs @ a # ys" using vnid_tableD(2) [OF t n] by (auto simp: in_set_conv_decomp)
  have i: "?i < length (vt_hash t)" using vnid_bucket_less vnid_tableD(5) [OF t] by simp
  have l: "hlist (vt_heap t) ?i (vt_hash t ! ?i) (xs @ a # ys)" using vnid_tableD(1) [OF t vnid_bucket_less [of "ve_vn_id n"]] unfolding e .
  define t' where "t' = t\<lparr>vt_hash := (if xs = [] then (vt_hash t)[?i := head_ptr ys] else vt_hash t),
    vt_heap := unlinked (vt_heap t) (end_slot (Head ?i) xs) a (head_ptr ys)\<rparr>"
  have d: "distinct (xs @ a # ys)" by (rule hlist_nodes(2) [OF l])
  have info: "map_option info (vt_heap t' x) = (if x = a then None else map_option info (vt_heap t x))" for x
    by (simp add: t'_def unlinked_def)
  then have vn: "map_option ve_vn_id (vt_heap t' x) = (if x = a then None else map_option ve_vn_id (vt_heap t x))" for x
    using info [of x] by (cases "vt_heap t' x"; cases "vt_heap t x") (auto simp: info_def split: if_splits)
  have old: "x \<noteq> a \<and> (\<exists>k'. vt_heap t x = Some k' \<and> ve_vn_id k' = ve_vn_id k)" if "vt_heap t' x = Some k" for x k
    using vn [of x] that by (cases "vt_heap t x") (auto split: if_splits)
  have "vnid_table t' (B(?i := xs @ ys))"
  proof (rule vnid_table_replace [OF t vnid_bucket_less])
    show "hlist (vt_heap t') ?i (vt_hash t' ! ?i) (xs @ ys)" using hlist_unlinked [OF l n] i by (cases "xs = []") (simp_all add: t'_def)
    show "vt_heap t' b = vt_heap t b" if "b \<notin> set (B ?i) \<union> set (xs @ ys)" for b
      using that e by (cases xs rule: rev_cases; cases ys) (auto simp: t'_def unlinked_def end_slot_def head_ptr_def)
    show "b \<in> set (xs @ ys) \<and> vnid_bucket (ve_vn_id n') = ?i" if "b \<in> set (B ?i) \<union> set (xs @ ys)" "vt_heap t' b = Some n'" for b n'
      using old [OF that(2)] that(1) e vnid_tableD(3) [OF t, of b ?i] by auto
    show "x = y" if "x \<in> set (xs @ ys)" "y \<in> set (xs @ ys)" "vt_heap t' x = Some k" "vt_heap t' y = Some k'" "ve_vn_id k = ve_vn_id k'" for x y k k'
      using old [OF that(3)] old [OF that(4)] that(5) vnid_tableD(4) [OF t, of x _ y] by auto
  qed (use e in \<open>auto simp: t'_def\<close>)
  then have "vnid_map t' (m(ve_vn_id n := None))"
  proof (rule vnid_map_update [OF m, where a = a])
    show "x = a \<longleftrightarrow> ve_vn_id k = ve_vn_id n" if "vt_heap t x = Some k" for x k using vnid_tableD(4) [OF t that n] that n by auto
  qed (simp add: info)
  then show ?thesis using remove_unlinked [OF l i] by (auto simp: t'_def)
qed

lemma vnid_table_links:
  assumes t: "vnid_table t B" and n: "vt_heap t a = Some n" and s: "ve_next n' = ve_next n" "ve_pprevious n' = ve_pprevious n" "ve_vn_id n' = ve_vn_id n"
  shows "vnid_table (store_entry a n' t) B"
proof -
  let ?h = "(vt_heap t)(a \<mapsto> n')"
  have "hlist ?h i p as = hlist (vt_heap t) i p as" for i p as
    using chain_cong [of as ve_next ?h "vt_heap t"] backs_cong [of as ?h "vt_heap t"] n s by (simp add: hlist_def)
  then show ?thesis using t n s by (auto simp: vnid_table_def store_entry_def split: if_splits)
qed

lemma replace_map:
  assumes t: "vnid_table t B" and m: "vnid_map t m" and n: "vt_heap t a = Some n"
  shows "vnid_map (store_entry a (n\<lparr>ve_svr_node := ip\<rparr>) t) (m(ve_vn_id n \<mapsto> ip))"
proof (rule vnid_map_update [OF m vnid_table_links [OF t n], where a = a])
  show "x = a \<longleftrightarrow> ve_vn_id k = ve_vn_id n" if "vt_heap t x = Some k" for x k using vnid_tableD(4) [OF t that n] that n by auto
qed (simp_all add: store_entry_def info_def)

lemma insert_map:
  assumes t: "vnid_table t B" and m: "vnid_map t m" and a: "vt_heap t a = None" and v: "m v = None"
  shows "\<exists>t'. dps_hlist_head_add (vnid_bucket v) a (store_entry a \<lparr>ve_next = None, ve_pprevious = None, ve_vn_id = v, ve_svr_node = ip\<rparr> t) = Some t' \<and>
    vnid_map t' (m(v \<mapsto> ip))"
proof -
  let ?i = "vnid_bucket v" and ?n = "\<lparr>ve_next = None, ve_pprevious = None, ve_vn_id = v, ve_svr_node = ip\<rparr>"
  let ?t = "store_entry a ?n t"
  have l: "hlist (vt_heap t) ?i (vt_hash t ! ?i) (B ?i)" by (rule vnid_tableD(1) [OF t vnid_bucket_less])
  have na: "a \<notin> set (B j)" for j using vnid_tableD(6) [OF t, of a j] a by auto
  have nv: "ve_vn_id k \<noteq> v" if "vt_heap t x = Some k" for x k 
  proof
    assume "ve_vn_id k = v"
    then have "m v = Some (ve_svr_node k)" using m that unfolding vnid_map_def info_def by blast
    then show False using v by simp
  qed
  have "hlist (vt_heap ?t) ?i (vt_hash ?t ! ?i) (B ?i)" using na by (simp add: store_entry_def) (rule hlist_cong [OF l], auto)
  from head_add_hlist [OF this, of a ?n] obtain t' where t': "dps_hlist_head_add ?i a ?t = Some t'" "hlist (vt_heap t') ?i (Some a) (a # B ?i)"
    "vt_hash t' = (vt_hash ?t)[?i := Some a]" "vt_hash_size t' = vt_hash_size ?t" "same_info {} (vt_heap ?t) (vt_heap t')"
    "\<forall>b. b \<noteq> a \<and> b \<notin> set (B ?i) \<longrightarrow> vt_heap t' b = vt_heap ?t b"
    using na [of ?i] vnid_bucket_less [of v] vnid_tableD(5) [OF t] by (auto simp: store_entry_def)
  have info: "map_option info (vt_heap t' x) = (if x = a then Some (v, ip) else map_option info (vt_heap t x))" for x
    using t'(5) by (simp add: same_info_def store_entry_def info_def)
  then have vn: "map_option ve_vn_id (vt_heap t' x) = (if x = a then Some v else map_option ve_vn_id (vt_heap t x))" for x
    using info [of x] by (cases "vt_heap t' x"; cases "vt_heap t x") (auto simp: info_def split: if_splits)
  have old: "if x = a then ve_vn_id k = v else (\<exists>k'. vt_heap t x = Some k' \<and> ve_vn_id k' = ve_vn_id k)" if "vt_heap t' x = Some k" for x k
    using vn [of x] that by (cases "vt_heap t x") (auto split: if_splits)
  have "vnid_table t' (B(?i := a # B ?i))"
  proof (rule vnid_table_replace [OF t vnid_bucket_less])
    show "hlist (vt_heap t') ?i (vt_hash t' ! ?i) (a # B ?i)" using t'(2,3) vnid_bucket_less [of v] vnid_tableD(5) [OF t] by (simp add: store_entry_def)
    show "b \<in> set (a # B ?i) \<and> vnid_bucket (ve_vn_id n') = ?i" if "b \<in> set (B ?i) \<union> set (a # B ?i)" "vt_heap t' b = Some n'" for b n'
      using old [OF that(2)] that(1) vnid_tableD(3) [OF t, of b ?i] by (auto split: if_splits)
    show "x = y" if "x \<in> set (a # B ?i)" "y \<in> set (a # B ?i)" "vt_heap t' x = Some k" "vt_heap t' y = Some k'" "ve_vn_id k = ve_vn_id k'" for x y k k'
      using old [OF that(3)] old [OF that(4)] that(5) vnid_tableD(4) [OF t, of x _ y] nv [of x] nv [of y] by (auto split: if_splits)
  qed (use t' a na in \<open>auto simp: store_entry_def\<close>)
  then have "vnid_map t' (m(v \<mapsto> ip))"
  proof (rule vnid_map_update [OF m, where a = a])
    show "x = a \<longleftrightarrow> ve_vn_id k = v" if "vt_heap t x = Some k" for x k using nv [OF that] a that by auto
  qed (simp add: info)
  then show ?thesis using t'(1) by blast
qed

end
