(* ===== verification/Dps_Vnid_Laws.thy ===== *)
theory Dps_Vnid_Laws
  imports Dps_Vnid_Table
begin

text \<open>
  The operations of the table of servers on the map it stands for, and the
  contract its users rely on.
\<close>

section \<open>The operations on the map\<close>

lemma vnid_mapE:
  assumes "vnid_map t m"
  obtains B where "vnid_table t B"
  using assms by (auto simp: vnid_map_def)

lemma found_entry:
  assumes m: "vnid_map t m"
  obtains r where "vnid_node_search_in_bkt t v (get_hlist_head t v) = Some r"
    and "case r of None \<Rightarrow> m v = None | Some a \<Rightarrow> (\<exists>n. vt_heap t a = Some n \<and> ve_vn_id n = v \<and> m v = Some (ve_svr_node n))"
proof -
  obtain B where "vnid_table t B" using m by (rule vnid_mapE)
  then obtain r where r: "vnid_node_search_in_bkt t v (get_hlist_head t v) = Some r" "entry_for t v r" using search_bucket by blast
  show ?thesis using r map_entry_for [OF m r(2)] by (intro that [OF r(1)]) (auto simp: entry_for_def split: option.splits)
qed

lemma search_map:
  assumes m: "vnid_map t m"
  shows "dps_vnid_node_mapping_entry_search t v addr = Some (case m v of None \<Rightarrow> (DPS_ERROR, addr) | Some ip \<Rightarrow> (DPS_SUCCESS, ip))"
  by (rule found_entry [OF m, of v]) (auto simp: dps_vnid_node_mapping_entry_search_def split: option.splits)

lemma add_map:
  assumes m: "vnid_map t m" and fresh: "\<And>a. malloc = (Some a, True) \<Longrightarrow> vt_heap t a = None"
  shows "\<exists>ret t'. dps_vnid_node_mapping_entry_add malloc v ip t = Some (ret, t') \<and>
    (if m v \<noteq> None \<or> (fst malloc \<noteq> None \<and> snd malloc) then ret = DPS_SUCCESS \<and> vnid_map t' (m(v \<mapsto> ip))
     else ret = DPS_ERROR_NO_RESOURCES \<and> t' = t)"
proof -
  obtain B where t: "vnid_table t B" using m by (rule vnid_mapE)
  obtain r where r: "vnid_node_search_in_bkt t v (get_hlist_head t v) = Some r"
    "case r of None \<Rightarrow> m v = None | Some a \<Rightarrow> (\<exists>n. vt_heap t a = Some n \<and> ve_vn_id n = v \<and> m v = Some (ve_svr_node n))"
    by (rule found_entry [OF m])
  show ?thesis
  proof (cases r)
    case (Some a)
    then obtain n where n: "vt_heap t a = Some n" "ve_vn_id n = v" "m v = Some (ve_svr_node n)" using r(2) by auto
    then show ?thesis using r(1) Some replace_map [OF t m n(1)] by (auto simp: dps_vnid_node_mapping_entry_add_def)
  next
    case None
    then have v: "m v = None" using r(2) by simp
    show ?thesis
    proof (cases "fst malloc \<noteq> None \<and> snd malloc")
      case True
      then obtain a where a: "malloc = (Some a, True)" by (cases malloc) auto
      obtain t' where "dps_hlist_head_add (vnid_bucket v) a (store_entry a \<lparr>ve_next = None, ve_pprevious = None, ve_vn_id = v, ve_svr_node = ip\<rparr> t) = Some t'"
        "vnid_map t' (m(v \<mapsto> ip))"
        using insert_map [OF t m fresh [OF a] v] by blast
      then show ?thesis using r(1) None a by (auto simp: dps_vnid_node_mapping_entry_add_def get_hlist_head_eq [OF t])
    next
      case False
      then show ?thesis using r(1) None v by (cases malloc) (auto simp: dps_vnid_node_mapping_entry_add_def split: option.splits bool.splits)
    qed
  qed
qed

definition same_node :: "ip_addr_t \<Rightarrow> ip_addr_t \<Rightarrow> bool" where
  "same_node a b \<longleftrightarrow> dps_vnid_entries_eq a b = DPS_SUCCESS"

lemma del_map:
  assumes m: "vnid_map t m"
  shows "\<exists>t'. dps_vnid_node_mapping_entry_del v ip t =
      Some (if \<exists>old. m v = Some old \<and> same_node old ip then DPS_SUCCESS else DPS_ERROR, t') \<and>
    vnid_map t' (if \<exists>old. m v = Some old \<and> same_node old ip then m(v := None) else m)"
proof -
  obtain B where t: "vnid_table t B" using m by (rule vnid_mapE)
  obtain r where r: "vnid_node_search_in_bkt t v (get_hlist_head t v) = Some r"
    "case r of None \<Rightarrow> m v = None | Some a \<Rightarrow> (\<exists>n. vt_heap t a = Some n \<and> ve_vn_id n = v \<and> m v = Some (ve_svr_node n))"
    by (rule found_entry [OF m])
  show ?thesis
  proof (cases r)
    case None
    then show ?thesis using r m by (auto simp: dps_vnid_node_mapping_entry_del_def)
  next
    case (Some a)
    then obtain n where n: "vt_heap t a = Some n" "ve_vn_id n = v" "m v = Some (ve_svr_node n)" using r(2) by auto
    then show ?thesis using r(1) Some m remove_map [OF t m n(1)] by (auto simp: dps_vnid_node_mapping_entry_del_def same_node_def)
  qed
qed

lemma del2_map:
  assumes m: "vnid_map t m"
  shows "\<exists>t'. dps_vnid_node_mapping_entry_del2 v t = Some (if m v = None then DPS_ERROR else DPS_SUCCESS, t') \<and> vnid_map t' (m(v := None))"
proof -
  obtain B where t: "vnid_table t B" using m by (rule vnid_mapE)
  obtain r where r: "vnid_node_search_in_bkt t v (get_hlist_head t v) = Some r"
    "case r of None \<Rightarrow> m v = None | Some a \<Rightarrow> (\<exists>n. vt_heap t a = Some n \<and> ve_vn_id n = v \<and> m v = Some (ve_svr_node n))"
    by (rule found_entry [OF m])
  show ?thesis
  proof (cases r)
    case None
    then have "m(v := None) = m" using r(2) by auto
    then show ?thesis using None r m by (simp add: dps_vnid_node_mapping_entry_del2_def)
  next
    case (Some a)
    then obtain n where n: "vt_heap t a = Some n" "ve_vn_id n = v" "m v = Some (ve_svr_node n)" using r(2) by auto
    then show ?thesis using r(1) Some remove_map [OF t m n(1)] by (auto simp: dps_vnid_node_mapping_entry_del2_def)
  qed
qed

lemma init_map:
  assumes "vt_heap t = Map.empty"
  shows "vnid_map (snd (dps_vnid_node_mapping_table_init ok t)) Map.empty"
proof -
  have "(push_bit 6 1 :: u16) = 64" by (simp add: push_bit_eq_mult)
  then have "vnid_table (snd (dps_vnid_node_mapping_table_init ok t)) (\<lambda>_. [])"
    using assms by (simp add: vnid_table_def dps_vnid_node_mapping_table_init_def hlist_def)
  then show ?thesis using assms by (auto simp: vnid_map_def dps_vnid_node_mapping_table_init_def)
qed

lemma available_map:
  assumes m: "vnid_map t m"
  shows "if m = Map.empty then dps_vnid_node_mapping_table_get_available_entry t addr = Some (DPS_ERROR, addr)
    else \<exists>ip. dps_vnid_node_mapping_table_get_available_entry t addr = Some (DPS_SUCCESS, ip) \<and> ip \<in> ran m"
proof -
  obtain B where t: "vnid_table t B" using m by (rule vnid_mapE)
  have sz: "unat (vt_hash_size t) = VNID_HASH_SIZE" using t by (simp add: vnid_table_def)
  have hd: "vt_hash t ! i \<noteq> None \<longleftrightarrow> B i \<noteq> []" if "i < VNID_HASH_SIZE" for i
    using vnid_tableD(1) [OF t that] by (cases "B i") (auto simp: hlist_def)
  show ?thesis
  proof (cases "List.find (\<lambda>i. vt_hash t ! i \<noteq> None) [0..<unat (vt_hash_size t)]")
    case None
    then have none: "B i = []" for i using hd [of i] vnid_tableD(6) [OF t, of _ i] sz by (cases "B i") (auto simp: find_None_iff)
    have "vt_heap t a = None" for a using vnid_tableD(2) [OF t, of a] none by (cases "vt_heap t a") auto
    then have "m = Map.empty" using m by (auto simp: vnid_map_def fun_eq_iff)
    then show ?thesis using None by (simp add: dps_vnid_node_mapping_table_get_available_entry_def)
  next
    case (Some i)
    then have i: "i < VNID_HASH_SIZE" "vt_hash t ! i \<noteq> None" using sz by (auto simp: find_Some_iff)
    then obtain a n where a: "vt_hash t ! i = Some a" "vt_heap t a = Some n"
      using vnid_tableD(1) [OF t i(1)] by (cases "B i") (auto simp: hlist_def)
    then have "m (ve_vn_id n) = Some (ve_svr_node n)" using m unfolding vnid_map_def info_def by blast
    then show ?thesis using Some a by (auto simp: dps_vnid_node_mapping_table_get_available_entry_def intro: ranI)
  qed
qed

lemma find_map:
  assumes m: "vnid_map t m"
  shows "\<exists>st ip. dps_vnid_node_mapping_entry_find t v addr = Some (st, ip) \<and>
    (if m = Map.empty then st = DPS_ERROR else st = DPS_SUCCESS \<and> ip \<in> ran m \<and> (\<forall>ip'. m v = Some ip' \<longrightarrow> ip = ip'))"
  using search_map [OF m, of v addr] available_map [OF m, of addr]
  by (cases "m v") (auto simp: dps_vnid_node_mapping_entry_find_def intro: ranI split: if_splits)

text \<open>Deleting one server for the networks of a list.\<close>

lemma del_dup_list:
  "vnid_map t m \<Longrightarrow> \<exists>t'. for_each (\<lambda>i t. map_option snd (dps_vnid_node_mapping_entry_del (of_nat i) ip t)) is t = Some t' \<and>
     vnid_map t' (\<lambda>v. if v \<in> of_nat ` set is \<and> (\<exists>old. m v = Some old \<and> same_node old ip) then None else m v) \<and>
     vt_hash_size t' = vt_hash_size t"
proof (induction "is" arbitrary: t m)
  case Nil
  then show ?case by simp
next
  case (Cons i "is")
  let ?m = "if \<exists>old. m (of_nat i) = Some old \<and> same_node old ip then m(of_nat i := None) else m"
  obtain st t1 where t1: "dps_vnid_node_mapping_entry_del (of_nat i) ip t = Some (st, t1)" "vnid_map t1 ?m"
    using del_map [OF Cons.prems, of "of_nat i" ip] by blast
  have "vt_hash_size t1 = vt_hash_size t"
    using t1(2) Cons.prems by (auto elim!: vnid_mapE simp: vnid_table_def)
  moreover have "(\<lambda>v. if v \<in> of_nat ` set is \<and> (\<exists>old. ?m v = Some old \<and> same_node old ip) then None else ?m v) =
      (\<lambda>v. if v \<in> of_nat ` set (i # is) \<and> (\<exists>old. m v = Some old \<and> same_node old ip) then None else m v)"
    by (auto simp: fun_eq_iff)
  ultimately show ?case using t1(1) Cons.IH [OF t1(2)] by auto
qed

lemma del_dup_map:
  assumes m: "vnid_map t m"
  shows "\<exists>t'. dps_vnid_node_mapping_del_dup_node ip t = Some t' \<and>
    vnid_map t' (\<lambda>v. if v < 64 \<and> (\<exists>old. m v = Some old \<and> same_node old ip) then None else m v)"
proof -
  obtain B where t: "vnid_table t B" using m by (rule vnid_mapE)
  have "v \<in> of_nat ` set [0..<64] \<longleftrightarrow> v < 64" for v :: u32
  proof
    assume "v < 64"
    then have "unat v \<in> set [0..<64]" "v = of_nat (unat v)" by (auto simp: word_less_nat_alt)
    then show "v \<in> of_nat ` set [0..<64]" by blast
  next
    assume "v \<in> of_nat ` set [0..<64]"
    then show "v < 64" by (auto simp: word_less_nat_alt unat_of_nat)
  qed
  then show ?thesis
    using del_dup_list [OF m, of ip "[0..<64]"] t by (auto simp: dps_vnid_node_mapping_del_dup_node_def vnid_table_def)
qed

lemma clean_bucket_map:
  assumes m: "vnid_map t m" and i: "i < VNID_HASH_SIZE"
  shows "\<exists>t'. clean_bucket i t = Some t' \<and> vnid_map t' (\<lambda>v. if vnid_bucket v = i then None else m v)"
proof -
  define I where "I t' \<longleftrightarrow> (\<exists>m'. vnid_map t' m' \<and> (\<forall>v. m' v = m v \<or> (vnid_bucket v = i \<and> m' v = None)))" for t'
  define f where "f t' = card {v. \<exists>a n. vt_heap t' a = Some n \<and> ve_vn_id n = v}" for t' :: dps_vnid_node_mapping_table_t
  have f: "f t' = card (dom m')" if "vnid_map t' m'" for t' m'
  proof -
    have "{v. \<exists>a n. vt_heap t' a = Some n \<and> ve_vn_id n = v} = dom m'"
      using that unfolding vnid_map_def info_def dom_def prod.inject by blast
    then show ?thesis by (simp add: f_def)
  qed
  have "\<exists>t'. while_opt (\<lambda>t. vt_hash t ! i \<noteq> None) (\<lambda>t. vt_hash t ! i \<bind> (\<lambda>a. remove_entry a t)) t = Some t' \<and> I t' \<and> \<not> vt_hash t' ! i \<noteq> None"
  proof (rule while_opt_total [where I = I and m = f])
    show "I t" using m by (auto simp: I_def)
    fix s assume "I s" "vt_hash s ! i \<noteq> None"
    then obtain m' a where s12: "vnid_map s m'" "\<forall>v. m' v = m v \<or> (vnid_bucket v = i \<and> m' v = None)" and s4: "vt_hash s ! i = Some a"
      by (auto simp: I_def)
    obtain B where "vnid_table s B" using s12(1) by (rule vnid_mapE)
    note s = s12 this s4
    obtain n where n: "vt_heap s a = Some n" "a \<in> set (B i)" using vnid_tableD(1) [OF s(3) i] s(4) by (cases "B i") (auto simp: hlist_def)
    have b: "vnid_bucket (ve_vn_id n) = i" by (rule vnid_tableD(3) [OF s(3) n(2,1)])
    obtain s' where s': "remove_entry a s = Some s'" "vnid_map s' (m'(ve_vn_id n := None))" using remove_map [OF s(3,1) n(1)] by blast
    have "m' (ve_vn_id n) \<noteq> None" using s(1) n(1) unfolding vnid_map_def info_def by blast
    then have "f s' < f s" unfolding f [OF s'(2)] f [OF s(1)] by (intro psubset_card_mono) auto
    moreover have "I s'" using s'(2) s(2) b unfolding I_def by (intro exI [of _ "m'(ve_vn_id n := None)"]) auto
    ultimately show "\<exists>s'. vt_hash s ! i \<bind> (\<lambda>a. remove_entry a s) = Some s' \<and> I s' \<and> f s' < f s" using s'(1) s(4) by auto
  qed
  then obtain t' where t': "while_opt (\<lambda>t. vt_hash t ! i \<noteq> None) (\<lambda>t. vt_hash t ! i \<bind> (\<lambda>a. remove_entry a t)) t = Some t'"
    "I t'" "vt_hash t' ! i = None" by auto
  then obtain m' where m12: "vnid_map t' m'" "\<forall>v. m' v = m v \<or> (vnid_bucket v = i \<and> m' v = None)" by (auto simp: I_def)
  obtain B where "vnid_table t' B" using m12(1) by (rule vnid_mapE)
  note m' = m12 this
  have "B i = []" using vnid_tableD(1) [OF m'(3) i] t'(3) by (simp add: hlist_def)
  then have none: "vt_heap t' a = Some n \<Longrightarrow> vnid_bucket (ve_vn_id n) \<noteq> i" for a n using vnid_tableD(2) [OF m'(3), of a n] by auto
  have "m' v = None" if "vnid_bucket v = i" for v
  proof (rule ccontr)
    assume "m' v \<noteq> None"
    then obtain a n where "vt_heap t' a = Some n" "ve_vn_id n = v" using m'(1) unfolding vnid_map_def info_def by blast
    then show False using none that by blast
  qed
  then have eq: "m' = (\<lambda>v. if vnid_bucket v = i then None else m v)" using m'(2) by (metis (no_types, lifting))
  have "(vt_hash t')[i := None] = vt_hash t'" using t'(3) by (metis list_update_id)
  then have "clean_bucket i t = Some t'" using t'(1) i vnid_tableD(5) [OF m'(3)] by (simp add: clean_bucket_def write_slot_def)
  then show ?thesis using m'(1) eq by auto
qed

lemma clean_map:
  assumes m: "vnid_map t m"
  shows "\<exists>t'. dps_vnid_node_mapping_table_clean t = Some t' \<and> vnid_map t' Map.empty"
proof -
  have *: "vnid_map t m \<Longrightarrow> \<forall>i \<in> set is. i < VNID_HASH_SIZE \<Longrightarrow>
      \<exists>t'. for_each clean_bucket is t = Some t' \<and> vnid_map t' (\<lambda>v. if vnid_bucket v \<in> set is then None else m v)" for "is" t m
  proof (induction "is" arbitrary: t m)
    case (Cons i "is")
    obtain t1 where t1: "clean_bucket i t = Some t1" "vnid_map t1 (\<lambda>v. if vnid_bucket v = i then None else m v)"
      using clean_bucket_map [OF Cons.prems(1)] Cons.prems(2) by auto
    have "(\<lambda>v. if vnid_bucket v \<in> set is then None else if vnid_bucket v = i then None else m v) =
        (\<lambda>v. if vnid_bucket v \<in> set (i # is) then None else m v)" by auto
    then show ?case using t1(1) Cons.IH [OF t1(2)] Cons.prems(2) by auto
  qed simp
  obtain B where t: "vnid_table t B" using m by (rule vnid_mapE)
  have "(\<lambda>v. if vnid_bucket v \<in> set [0..<64] then None else m v) = Map.empty" using vnid_bucket_less by auto
  then show ?thesis using * [OF m, of "[0..<64]"] t by (auto simp: dps_vnid_node_mapping_table_clean_def vnid_table_def)
qed

end
