(* ===== verification/Dps_Directory.thy ===== *)
theory Dps_Directory
  imports Dps_Vnid_Laws
begin

text \<open>
  What the table of servers promises its users, as an interface: it is a
  partial map from virtual networks to servers.  The interface is interpreted
  on the hash table.
\<close>

section \<open>The interface\<close>

datatype directory_op =
    Learn u32 ip_addr_t
  | Forget u32
  | Forget_node u32 ip_addr_t
  | Look_up u32

datatype directory_out =
    Status u32
  | Found u32 ip_addr_t

type_synonym directory_map = "u32 \<rightharpoonup> ip_addr_t"

text \<open>
  The specification.  Given the results of a run it says whether they are
  right and what the map is then: an insertion may run out of memory only
  when the network is new, and a look-up falls back on any server there is.
\<close>

definition good_answer :: "directory_map \<Rightarrow> u32 \<Rightarrow> u32 \<Rightarrow> ip_addr_t \<Rightarrow> bool" where
  "good_answer m v st ip \<longleftrightarrow> (if m = Map.empty then st = DPS_ERROR
     else st = DPS_SUCCESS \<and> ip \<in> ran m \<and> (\<forall>ip'. m v = Some ip' \<longrightarrow> ip = ip'))"

inductive directory_step :: "directory_map \<Rightarrow> directory_op \<Rightarrow> directory_out \<Rightarrow> directory_map \<Rightarrow> bool" where
  learnt: "directory_step m (Learn v ip) (Status DPS_SUCCESS) (m(v \<mapsto> ip))"
| no_room: "m v = None \<Longrightarrow> directory_step m (Learn v ip) (Status DPS_ERROR_NO_RESOURCES) m"
| forgotten: "m v \<noteq> None \<Longrightarrow> directory_step m (Forget v) (Status DPS_SUCCESS) (m(v := None))"
| not_there: "m v = None \<Longrightarrow> directory_step m (Forget v) (Status DPS_ERROR) m"
| node_forgotten: "m v = Some old \<Longrightarrow> same_node old ip \<Longrightarrow> directory_step m (Forget_node v ip) (Status DPS_SUCCESS) (m(v := None))"
| other_node: "\<nexists>old. m v = Some old \<and> same_node old ip \<Longrightarrow> directory_step m (Forget_node v ip) (Status DPS_ERROR) m"
| answered: "good_answer m v st ip \<Longrightarrow> directory_step m (Look_up v) (Found st ip) m"

inductive_cases learn_cases: "directory_step m (Learn v ip) r m'"
inductive_cases forget_cases: "directory_step m (Forget v) r m'"
inductive_cases forget_node_cases: "directory_step m (Forget_node v ip) r m'"
inductive_cases look_up_cases: "directory_step m (Look_up v) r m'"

inductive directory_run :: "directory_map \<Rightarrow> directory_op list \<Rightarrow> directory_out list \<Rightarrow> directory_map \<Rightarrow> bool" where
  finished: "directory_run m [] [] m"
| another: "directory_step m x r m1 \<Longrightarrow> directory_run m1 ops rs m' \<Longrightarrow> directory_run m (x # ops) (r # rs) m'"

inductive_simps directory_run_simps: "directory_run m [] rs m'" "directory_run m (x # ops) rs m'"

fun run_ops :: "(directory_op \<Rightarrow> 's \<Rightarrow> (directory_out \<times> 's) option) \<Rightarrow> directory_op list \<Rightarrow> 's \<Rightarrow> (directory_out list \<times> 's) option" where
  "run_ops act [] s = Some ([], s)"
| "run_ops act (x # ops) s = do { (r, s) \<leftarrow> act x s; (rs, s) \<leftarrow> run_ops act ops s; Some (r # rs, s) }"

fun network_of :: "directory_op \<Rightarrow> u32 option" where
  "network_of (Learn v ip) = Some v"
| "network_of (Forget v) = Some v"
| "network_of (Forget_node v ip) = Some v"
| "network_of (Look_up v) = None"

locale node_directory =
  fixes repr :: "'s \<Rightarrow> directory_map \<Rightarrow> bool"
    and act :: "directory_op \<Rightarrow> 's \<Rightarrow> (directory_out \<times> 's) option"
  assumes act_law: "repr s m \<Longrightarrow> \<exists>r s' m'. act x s = Some (r, s') \<and> directory_step m x r m' \<and> repr s' m'"
begin

lemma ops_run: "repr s m \<Longrightarrow> \<exists>rs s' m'. run_ops act ops s = Some (rs, s') \<and> directory_run m ops rs m' \<and> repr s' m'"
proof (induction ops arbitrary: s m)
  case Nil
  then show ?case by (auto intro: finished)
next
  case (Cons x ops)
  obtain r s1 m1 where s1: "act x s = Some (r, s1)" "directory_step m x r m1" "repr s1 m1" using act_law [OF Cons.prems] by blast
  obtain rs s' m' where "run_ops act ops s1 = Some (rs, s')" "directory_run m1 ops rs m'" "repr s' m'" using Cons.IH [OF s1(3)] by blast
  then show ?case using s1 by (auto intro: another)
qed

text \<open>A server that was learnt answers for its network until the network is learnt again or forgotten.\<close>

lemma step_other: "directory_step m x r m' \<Longrightarrow> network_of x \<noteq> Some v \<Longrightarrow> m' v = m v"
  by (induction rule: directory_step.induct) auto

lemma run_other: "directory_run m ops rs m' \<Longrightarrow> \<forall>x \<in> set ops. network_of x \<noteq> Some v \<Longrightarrow> m' v = m v"
  by (induction rule: directory_run.induct) (auto dest: step_other)

lemma learnt_answers:
  assumes r: "repr s m" and l: "act (Learn v ip) s = Some (Status DPS_SUCCESS, s1)" and ops: "\<forall>x \<in> set ops. network_of x \<noteq> Some v"
  shows "\<exists>rs s2 s3. run_ops act ops s1 = Some (rs, s2) \<and> act (Look_up v) s2 = Some (Found DPS_SUCCESS ip, s3)"
proof -
  obtain m1 where m1: "directory_step m (Learn v ip) (Status DPS_SUCCESS) m1" "repr s1 m1" using act_law [OF r, of "Learn v ip"] l by auto
  have v1: "m1 v = Some ip" using m1(1) by (auto elim: learn_cases)
  obtain rs s2 m2 where s2: "run_ops act ops s1 = Some (rs, s2)" "directory_run m1 ops rs m2" "repr s2 m2" using ops_run [OF m1(2)] by blast
  have v2: "m2 v = Some ip" using run_other [OF s2(2) ops] v1 by simp
  obtain a s3 m3 where s3: "act (Look_up v) s2 = Some (a, s3)" "directory_step m2 (Look_up v) a m3" using act_law [OF s2(3)] by blast
  have "m2 \<noteq> Map.empty" using v2 by auto
  then have "a = Found DPS_SUCCESS ip" using s3(2) v2 by (auto elim!: look_up_cases simp: good_answer_def)
  then show ?thesis using s2(1) s3(1) by blast
qed

end

section \<open>The hash table provides it\<close>

type_synonym entry_alloc = "dps_vnid_node_mapping_table_t \<Rightarrow> ptr \<times> bool"

definition fresh_entries :: "entry_alloc \<Rightarrow> bool" where
  "fresh_entries alloc \<longleftrightarrow> (\<forall>t a. fst (alloc t) = Some a \<longrightarrow> vt_heap t a = None)"

definition table_repr :: "entry_alloc \<Rightarrow> dps_vnid_node_mapping_table_t \<Rightarrow> directory_map \<Rightarrow> bool" where
  "table_repr alloc t m \<longleftrightarrow> fresh_entries alloc \<and> vnid_map t m"

fun table_act :: "entry_alloc \<Rightarrow> ip_addr_t \<Rightarrow> directory_op \<Rightarrow> dps_vnid_node_mapping_table_t \<Rightarrow>
    (directory_out \<times> dps_vnid_node_mapping_table_t) option" where
  "table_act alloc addr (Learn v ip) t = map_option (map_prod Status id) (dps_vnid_node_mapping_entry_add (alloc t) v ip t)"
| "table_act alloc addr (Forget v) t = map_option (map_prod Status id) (dps_vnid_node_mapping_entry_del2 v t)"
| "table_act alloc addr (Forget_node v ip) t = map_option (map_prod Status id) (dps_vnid_node_mapping_entry_del v ip t)"
| "table_act alloc addr (Look_up v) t = map_option (\<lambda>(st, ip). (Found st ip, t)) (dps_vnid_node_mapping_entry_find t v addr)"

lemma table_act_law:
  assumes "table_repr alloc t m"
  shows "\<exists>r t' m'. table_act alloc addr x t = Some (r, t') \<and> directory_step m x r m' \<and> table_repr alloc t' m'"
proof -
  have f: "fresh_entries alloc" and m: "vnid_map t m" using assms by (simp_all add: table_repr_def)
  show ?thesis
  proof (cases x)
    case (Learn v ip)
    have "vt_heap t a = None" if "alloc t = (Some a, True)" for a using f that by (auto simp: fresh_entries_def)
    then obtain ret t' where t': "dps_vnid_node_mapping_entry_add (alloc t) v ip t = Some (ret, t')"
      "if m v \<noteq> None \<or> (fst (alloc t) \<noteq> None \<and> snd (alloc t)) then ret = DPS_SUCCESS \<and> vnid_map t' (m(v \<mapsto> ip))
       else ret = DPS_ERROR_NO_RESOURCES \<and> t' = t"
      using add_map [OF m, of "alloc t" v ip] by blast
    show ?thesis
    proof (cases "m v \<noteq> None \<or> (fst (alloc t) \<noteq> None \<and> snd (alloc t))")
      case True
      then have "ret = DPS_SUCCESS" "vnid_map t' (m(v \<mapsto> ip))" using t'(2) by simp_all
      then show ?thesis using t'(1) Learn f
        by (intro exI [of _ "Status DPS_SUCCESS"] exI [of _ t'] exI [of _ "m(v \<mapsto> ip)"]) (simp add: table_repr_def learnt)
    next
      case False
      then have "ret = DPS_ERROR_NO_RESOURCES" "t' = t" using t'(2) by simp_all
      then show ?thesis using t'(1) Learn f m False
        by (intro exI [of _ "Status DPS_ERROR_NO_RESOURCES"] exI [of _ t'] exI [of _ m]) (simp add: table_repr_def no_room)
    qed
  next
    case (Forget v)
    obtain t' where t': "dps_vnid_node_mapping_entry_del2 v t = Some (if m v = None then DPS_ERROR else DPS_SUCCESS, t')" "vnid_map t' (m(v := None))"
      using del2_map [OF m] by blast
    have "directory_step m (Forget v) (Status (if m v = None then DPS_ERROR else DPS_SUCCESS)) (m(v := None))"
      using forgotten [of m v] not_there [of m v] by (simp add: fun_upd_idem)
    then show ?thesis using t' Forget f by (auto simp: table_repr_def)
  next
    case (Forget_node v ip)
    let ?c = "\<exists>old. m v = Some old \<and> same_node old ip"
    obtain t' where t': "dps_vnid_node_mapping_entry_del v ip t = Some (if ?c then DPS_SUCCESS else DPS_ERROR, t')"
      "vnid_map t' (if ?c then m(v := None) else m)"
      using del_map [OF m, of v ip] by blast
    have "directory_step m (Forget_node v ip) (Status (if ?c then DPS_SUCCESS else DPS_ERROR)) (if ?c then m(v := None) else m)"
      using node_forgotten [of m v _ ip] other_node [of m v ip] by auto
    moreover have "table_act alloc addr x t = Some (Status (if ?c then DPS_SUCCESS else DPS_ERROR), t')" unfolding Forget_node using t'(1) by simp
    moreover have "table_repr alloc t' (if ?c then m(v := None) else m)" using t'(2) f unfolding table_repr_def by blast
    ultimately show ?thesis using Forget_node by blast
  next
    case (Look_up v)
    obtain st ip where "dps_vnid_node_mapping_entry_find t v addr = Some (st, ip)" "good_answer m v st ip"
      using find_map [OF m, of v addr] by (auto simp: good_answer_def)
    then show ?thesis using Look_up assms by (auto intro: answered)
  qed
qed

interpretation table_dir: node_directory "table_repr alloc" "table_act alloc addr" for alloc addr
  by unfold_locales (rule table_act_law)

end
