(* ===== verification/Dps_Client_Laws.thy ===== *)
theory Dps_Client_Laws
  imports Dps_Client_Ctrl Dps_Directory Raw_Proto_Queries Dps_Packet
begin

text \<open>
  The client's transport on what its tables stand for: the servers as a
  partial map, the waiting queries as queues of contexts.
\<close>

section \<open>Socket addresses\<close>

definition known_family :: "ip_addr_t \<Rightarrow> bool" where
  "known_family a \<longleftrightarrow> ia_family a = AF_INET \<or> ia_family a = AF_INET6"

text \<open>The bytes of the socket address of a node, in storage that held \<open>st\<close>.\<close>

definition sockaddr_of :: "ip_addr_t \<Rightarrow> bytes \<Rightarrow> bytes" where
  "sockaddr_of a st = (if ia_family a = AF_INET
     then bytes16 AF_INET @ be16 (ia_port a) @ be32 (ia_ip4 a) @ drop 8 st
     else bytes16 AF_INET6 @ be16 (ia_port a) @ take 4 (drop 4 st) @ ia_ip6 a @ drop 24 st)"

lemma take_drop_next: "take k (drop n xs) @ drop (n + k) xs = drop n xs"
  by (metis append_take_drop_id drop_drop add.commute)

lemma copy_laddr_saddr:
  assumes "wf_ip a" and "known_family a" and "24 \<le> length st"
  shows "dps_copy_laddr_saddr a st = Some (DPS_SUCCESS, sockaddr_of a st)"
proof -
  obtain s0 s1 s2 s3 s4 where st: "st = s0 @ s1 @ s2 @ s3 @ s4" "length s0 = 2" "length s1 = 2" "length s2 = 4" "length s3 = 16"
  proof
    show "st = take 2 st @ take 2 (drop 2 st) @ take 4 (drop 4 st) @ take 16 (drop 8 st) @ drop 24 st"
      using take_drop_next [of 16 8 st] take_drop_next [of 4 4 st] take_drop_next [of 2 2 st] take_drop_next [of 2 0 st] by simp
  qed (use assms(3) in auto)
  have 6: "length (ia_ip6 a) = 16" using assms(1) by (simp add: wf_ip_def)
  show ?thesis
    using assms(2) st 6
    by (auto simp: dps_copy_laddr_saddr_def known_family_def sockaddr_of_def st16_def st32_def poke_def)
qed

lemma copy_saddr_laddr:
  assumes "wf_ip a" and "known_family a" and "24 \<le> length st"
  shows "dps_copy_saddr_laddr (sockaddr_of a st @ junk) d = Some (d\<lparr>ia_family := ia_family a, ia_port := ia_port a,
    ia_ip6 := (if ia_family a = AF_INET then set_ip4 (ia_ip4 a) (ia_ip6 d) else ia_ip6 a), ia_xport_type := SOCK_DGRAM, ia_port_http := 0\<rparr>)"
proof -
  have 6: "length (ia_ip6 a) = 16" using assms(1) by (simp add: wf_ip_def)
  show ?thesis
    using assms(2,3) 6
    by (auto simp: dps_copy_saddr_laddr_def known_family_def sockaddr_of_def ld16_def ld32_def peek_def)
qed

lemma sockaddr_len:
  "known_family a \<Longrightarrow> dps_get_sockaddr_len (sockaddr_of a st) = Some (if ia_family a = AF_INET then 16 else 28)"
  by (auto simp: dps_get_sockaddr_len_def sockaddr_of_def known_family_def ld16_def peek_def)

section \<open>The state of the client\<close>

definition usable :: "ip_addr_t \<Rightarrow> bool" where
  "usable ip \<longleftrightarrow> wf_ip ip \<and> known_family ip"

text \<open>The part of a client that its callback may change.\<close>

definition world_ok :: "'w client_env \<Rightarrow> 'w client_world \<Rightarrow> directory_map \<Rightarrow> bool" where
  "world_ok env c m \<longleftrightarrow> table_repr (ce_alloc_entry env) (cw_table c) m \<and> (\<forall>ip \<in> ran m. usable ip) \<and> length (cw_stats c) = unat DPS_MAX_MSG_TYPE"

lemma world_ok_cong: "world_ok env c m \<Longrightarrow> cw_table c' = cw_table c \<Longrightarrow> cw_stats c' = cw_stats c \<Longrightarrow> world_ok env c' m"
  by (simp add: world_ok_def)

lemma world_ok_table:
  "world_ok env c m \<Longrightarrow> vnid_map (cw_table c') m' \<Longrightarrow> ran m' \<subseteq> ran m \<Longrightarrow> cw_stats c' = cw_stats c \<Longrightarrow> world_ok env c' m'"
  by (auto simp: world_ok_def table_repr_def)

definition client_ok :: "'w client_env \<Rightarrow> 'w client_state \<Rightarrow> 'w client_world \<Rightarrow> directory_map \<Rightarrow> queries \<Rightarrow> bool" where
  "client_ok env s c m Q \<longleftrightarrow> ts_world s = Some c \<and> world_ok env c m \<and>
     fresh_alloc (client_timer env) \<and> timer_queries s Q \<and> length (ce_uninit_storage env) = SIZEOF_STORAGE"

text \<open>What the client gives the timer with a packet.\<close>

definition client_query :: "bytes \<Rightarrow> int \<Rightarrow> bytes \<Rightarrow> nat \<Rightarrow> raw_packet_t" where
  "client_query buff fd dst context = \<lparr>rp_data = buff, rp_pktId = 0, rp_len = length buff,
     rp_retransmitInterval = RAW_PKT_DEF_RETRANSMIT_INTERVAL, rp_maxNumRetransmit = MAX_NUM_DEF_RETRANSMIT,
     rp_context = context, rp_owner = RPT_OWNER_DPSA, rp_sockFd = fd, rp_addr = dst\<rparr>"

lemma client_query_simps [simp]:
  "rp_data (client_query buff fd dst context) = buff" "rp_len (client_query buff fd dst context) = length buff"
  "rp_maxNumRetransmit (client_query buff fd dst context) = 3" "rp_context (client_query buff fd dst context) = context"
  "rp_owner (client_query buff fd dst context) = RPT_OWNER_DPSA" "rp_sockFd (client_query buff fd dst context) = fd"
  "rp_addr (client_query buff fd dst context) = dst" "valid_query (client_query buff fd dst context)"
  by (simp_all add: client_query_def valid_query_def IS_VALID_RPT_OWNER_def)

lemma client_start_query:
  "client_start env buff q fd dst context s = start_query (client_timer env) q (client_query buff fd dst context) s"
  by (simp add: client_start_def start_query_def client_query_def raw_proto_timer_start_def insert_raw_pkt_def time_now_def
      timer_calls_def client_timer_def cong: option.case_cong)

lemma client_timer_time:
  "tm_time (client_timer env) (Some c) = (fst (io (ce_time env) c), Some (snd (io (ce_time env) c)))"
  by (cases "io (ce_time env) c") (simp add: client_timer_def timer_calls_def)

lemma io_simps [simp]:
  "cw_outer (io_do f c) = f (cw_outer c)" "cw_table (io_do f c) = cw_table c" "cw_svr (io_do f c) = cw_svr c" "cw_stats (io_do f c) = cw_stats c"
  "cw_outer (snd (io g c)) = snd (g (cw_outer c))" "fst (io g c) = fst (g (cw_outer c))"
  "cw_svr (snd (io g c)) = cw_svr c" "cw_table (snd (io g c)) = cw_table c" "cw_stats (snd (io g c)) = cw_stats c"
  by (simp_all add: io_def io_do_def split_beta)

section \<open>Servers\<close>

text \<open>The server is learnt for the network of the packet, unless there is no memory for a new entry.\<close>

definition learnt_from :: "directory_map \<Rightarrow> u32 \<Rightarrow> ip_addr_t \<Rightarrow> directory_map \<Rightarrow> bool" where
  "learnt_from m v node m' \<longleftrightarrow> m' = m(v \<mapsto> node) \<or> (m' = m \<and> m v = None)"

lemma new_node_stats: "dps_req_new_dps_node env v c = Some c' \<Longrightarrow> cw_stats c' = cw_stats c \<and> cw_svr c' = cw_svr c"
  by (auto simp: dps_req_new_dps_node_def io_def io_do_def split: bind_splits prod.splits if_splits)

definition node_asked :: "'w client_env \<Rightarrow> u32 \<Rightarrow> 'w \<Rightarrow> 'w" where
  "node_asked env sent w = (case ce_time env w of (now, w) \<Rightarrow>
     if now - uint sent \<ge> uint (ce_interval env) then ce_deliver env (new_node_request env) (snd (ce_time env w)) else w)"

lemma new_node_forgets:
  assumes "world_ok env c m"
  shows "\<exists>c'. dps_req_new_dps_node env v c = Some c' \<and> world_ok env c' (m(v := None)) \<and> cw_svr c' = cw_svr c \<and>
    cw_outer c' = node_asked env (cw_last_sent_time c) (cw_outer c)"
proof -
  have "vnid_map (cw_table c) m" using assms by (simp add: world_ok_def table_repr_def)
  then obtain r t where t: "dps_vnid_node_mapping_entry_del2 v (cw_table c) = Some (r, t)" "vnid_map t (m(v := None))"
    using del2_map by blast
  have "\<exists>c'. dps_req_new_dps_node env v c = Some c' \<and> cw_table c' = t \<and> cw_outer c' = node_asked env (cw_last_sent_time c) (cw_outer c)"
    using t(1) by (cases "uint (ce_interval env) \<le> fst (ce_time env (cw_outer c)) - uint (cw_last_sent_time c)")
      (simp_all add: dps_req_new_dps_node_def io_def io_do_def node_asked_def split_beta)
  then obtain c' where c': "dps_req_new_dps_node env v c = Some c'" "cw_table c' = t" "cw_outer c' = node_asked env (cw_last_sent_time c) (cw_outer c)"
    by blast
  have "world_ok env c' (m(v := None))"
    using assms by (rule world_ok_table) (use t(2) c'(2) new_node_stats [OF c'(1)] in \<open>auto simp: ran_def\<close>)
  then show ?thesis using c' new_node_stats [OF c'(1)] by blast
qed

lemma server_del_purges:
  assumes "world_ok env c m"
  shows "\<exists>c'. dps_server_del node c = Some c' \<and>
    world_ok env c' (\<lambda>v. if v < 64 \<and> (\<exists>old. m v = Some old \<and> same_node old node) then None else m v)"
proof -
  have "vnid_map (cw_table c) m" using assms by (simp add: world_ok_def table_repr_def)
  then obtain t where t: "dps_vnid_node_mapping_del_dup_node node (cw_table c) = Some t"
    "vnid_map t (\<lambda>v. if v < 64 \<and> (\<exists>old. m v = Some old \<and> same_node old node) then None else m v)"
    using del_dup_map by blast
  have "world_ok env (c\<lparr>cw_svr := (cw_svr c)\<lparr>si_ip4_addr := 0, si_ip4_port := 0\<rparr>, cw_table := t\<rparr>)
      (\<lambda>v. if v < 64 \<and> (\<exists>old. m v = Some old \<and> same_node old node) then None else m v)"
    using assms by (rule world_ok_table) (use t(2) in \<open>auto simp: ran_def split: if_splits\<close>)
  then show ?thesis using t(1) by (simp add: dps_server_del_def)
qed

lemma add_server_ok:
  assumes ok: "world_ok env c m" and u: "usable node"
  shows "\<exists>c' m'. add_server env v node c = Some c' \<and> world_ok env c' m' \<and> learnt_from m v node m' \<and>
    cw_outer c' = cw_outer c \<and> cw_stats c' = cw_stats c \<and> cw_svr c' = cw_svr c"
proof -
  have r: "table_repr (ce_alloc_entry env) (cw_table c) m" using ok by (simp add: world_ok_def)
  obtain r t m' where t: "table_act (ce_alloc_entry env) zero_ip_addr (Learn v node) (cw_table c) = Some (r, t)"
    "directory_step m (Learn v node) r m'" "table_repr (ce_alloc_entry env) t m'"
    using table_act_law [OF r] by blast
  have l: "learnt_from m v node m'" using t(2) by (auto elim!: learn_cases simp: learnt_from_def)
  have "\<forall>ip \<in> ran m'. usable ip"
    using l u ok by (fastforce simp: learnt_from_def world_ok_def ran_def split: if_splits)
  then have "world_ok env (c\<lparr>cw_table := t\<rparr>) m'" using ok t(3) by (simp add: world_ok_def)
  moreover have "add_server env v node c = Some (c\<lparr>cw_table := t\<rparr>)" using t(1) by (auto simp: add_server_def)
  ultimately show ?thesis using l by (intro exI [of _ "c\<lparr>cw_table := t\<rparr>"] exI [of _ m']) simp
qed

lemma find_server:
  assumes "client_ok env s c m Q" and "m \<noteq> Map.empty"
  shows "\<exists>ip. good_answer m v DPS_SUCCESS ip \<and> usable ip \<and>
    dps_find_server env v (ce_uninit_storage env) c = Some (DPS_SUCCESS, sockaddr_of ip (ce_uninit_storage env))"
proof -
  have m: "vnid_map (cw_table c) m" and l: "24 \<le> length (ce_uninit_storage env)" and u: "\<forall>ip \<in> ran m. usable ip"
    using assms(1) by (simp_all add: client_ok_def world_ok_def table_repr_def)
  obtain ip where ip: "dps_vnid_node_mapping_entry_find (cw_table c) v (ce_uninit_addr env) = Some (DPS_SUCCESS, ip)" "ip \<in> ran m"
    "\<forall>ip'. m v = Some ip' \<longrightarrow> ip = ip'"
    using find_map [OF m, of v "ce_uninit_addr env"] assms(2) by auto
  have "usable ip" using u ip(2) by blast
  then have "dps_copy_laddr_saddr ip (ce_uninit_storage env) = Some (DPS_SUCCESS, sockaddr_of ip (ce_uninit_storage env))"
    using l by (intro copy_laddr_saddr) (simp_all add: usable_def)
  then show ?thesis using ip assms(2) \<open>usable ip\<close> by (auto simp: dps_find_server_def good_answer_def)
qed

lemma find_no_server:
  assumes "client_ok env s c m Q" and "m = Map.empty"
  shows "dps_find_server env v st c = Some (DPS_ERROR, st)"
proof -
  have m: "vnid_map (cw_table c) m" using assms(1) by (simp add: client_ok_def world_ok_def table_repr_def)
  show ?thesis using find_map [OF m, of v "ce_uninit_addr env"] assms(2) by (auto simp: dps_find_server_def)
qed

section \<open>Sending\<close>

text \<open>The server a packet goes to: the one named in the header, or the one the table has for its network.\<close>

definition destination :: "directory_map \<Rightarrow> u32 \<Rightarrow> ip_addr_t \<Rightarrow> ip_addr_t \<Rightarrow> bool" where
  "destination m v addr ip \<longleftrightarrow> usable ip \<and> (if known_family addr then ip = addr else good_answer m v DPS_SUCCESS ip)"

definition sends_to :: "'w client_env \<Rightarrow> 'w client_world \<Rightarrow> bytes \<Rightarrow> ip_addr_t \<Rightarrow> int \<times> 'w client_world" where
  "sends_to env c buff ip = io (ce_sendto env (si_sock_fd (cw_svr c)) buff
     (take (if ia_family ip = AF_INET then 16 else 28) (sockaddr_of ip (ce_uninit_storage env)))) c"

definition sent_status :: "int \<Rightarrow> u32" where
  "sent_status n = (if n \<le> 0 then DPS_XMIT_ERROR else DPS_SUCCESS)"

lemma xmit_destination:
  assumes ok: "client_ok env s c m Q" and addr: "if known_family addr then wf_ip addr else m \<noteq> Map.empty"
  obtains ip where "destination m v addr ip"
    and "xmit_addr env addr v c = Some (DPS_SUCCESS, sockaddr_of ip (ce_uninit_storage env))"
proof (cases "known_family addr")
  case True
  have "24 \<le> length (ce_uninit_storage env)" using ok by (simp add: client_ok_def)
  then show ?thesis
    using that [of addr] True addr copy_laddr_saddr [of addr] by (simp add: destination_def usable_def xmit_addr_def known_family_def [of addr])
next
  case False
  then obtain ip where "good_answer m v DPS_SUCCESS ip" "usable ip"
    "dps_find_server env v (ce_uninit_storage env) c = Some (DPS_SUCCESS, sockaddr_of ip (ce_uninit_storage env))"
    using find_server [OF ok] addr by auto
  then show ?thesis using that [of ip] False by (simp add: destination_def xmit_addr_def known_family_def [of addr])
qed

text \<open>A packet nobody waits for.\<close>

lemma xmit_plain:
  assumes ok: "client_ok env s c m Q" and use: "si_inuse (cw_svr c)" and hdr: "dps_get_pkt_hdr buff (ce_uninit_hdr env) = Some (h, n)"
    and addr: "if known_family addr then wf_ip addr else m \<noteq> Map.empty"
  shows "\<exists>ip. destination m (ch_vnid h) addr ip \<and> dps_protocol_xmit env buff addr 0 s =
    Some (sent_status (fst (sends_to env c buff ip)), s\<lparr>ts_world := Some (snd (sends_to env c buff ip))\<rparr>)"
proof -
  obtain ip where ip: "destination m (ch_vnid h) addr ip"
    "xmit_addr env addr (ch_vnid h) c = Some (DPS_SUCCESS, sockaddr_of ip (ce_uninit_storage env))"
    by (rule xmit_destination [OF ok addr])
  have w: "ts_world s = Some c" using ok by (simp add: client_ok_def)
  have "known_family ip" using ip(1) by (simp add: destination_def usable_def)
  then show ?thesis
    using ip use hdr w by (intro exI [of _ ip])
      (simp add: dps_protocol_xmit_def sockaddr_len sends_to_def sent_status_def split_beta)
qed

text \<open>A request: the timer gets the packet with its context, then it is sent.\<close>

lemma xmit_request:
  assumes ok: "client_ok env s c m Q" and use: "si_inuse (cw_svr c)" and hdr: "dps_get_pkt_hdr buff (ce_uninit_hdr env) = Some (h, n)"
    and addr: "if known_family addr then wf_ip addr else m \<noteq> Map.empty" and ctx: "context \<noteq> 0"
    and id: "bucket_of (ch_query_id h) = Some i" and room: "has_room (client_timer env) s"
  shows "\<exists>ip s'. destination m (ch_vnid h) addr ip \<and>
    dps_protocol_xmit env buff addr context s = Some (sent_status (fst (sends_to env (snd (io (ce_time env) c)) buff ip)), s') \<and>
    same_globals s s' \<and> client_ok env s' (snd (sends_to env (snd (io (ce_time env) c)) buff ip)) m (Q(i := Q i @
      [query_entry (ch_query_id h) (client_query buff (si_sock_fd (cw_svr c)) (sockaddr_of ip (ce_uninit_storage env)) context)
         (fst (io (ce_time env) c))]))"
proof -
  obtain ip where ip: "destination m (ch_vnid h) addr ip"
    "xmit_addr env addr (ch_vnid h) c = Some (DPS_SUCCESS, sockaddr_of ip (ce_uninit_storage env))"
    by (rule xmit_destination [OF ok addr])
  have w: "ts_world s = Some c" "timer_queries s Q" "fresh_alloc (client_timer env)" using ok by (simp_all add: client_ok_def)
  let ?q = "client_query buff (si_sock_fd (cw_svr c)) (sockaddr_of ip (ce_uninit_storage env)) context"
  let ?Q = "Q(i := Q i @ [query_entry (ch_query_id h) ?q (fst (io (ce_time env) c))])"
  obtain s1 where s1: "start_query (client_timer env) (ch_query_id h) ?q s = Some (0, s1)" "same_globals s s1"
    "ts_world s1 = Some (snd (io (ce_time env) c))" "timer_queries s1 ?Q"
    using start_queries [OF w(2,3) id, of ?q] room w(1) by (auto simp: client_timer_time)
  have "known_family ip" using ip(1) by (simp add: destination_def usable_def)
  then have "dps_protocol_xmit env buff addr context s = Some (sent_status (fst (sends_to env (snd (io (ce_time env) c)) buff ip)),
      s1\<lparr>ts_world := Some (snd (sends_to env (snd (io (ce_time env) c)) buff ip))\<rparr>)"
    using ip(2) use hdr w(1) ctx s1(1,3)
    by (simp add: dps_protocol_xmit_def client_start_query sockaddr_len sends_to_def sent_status_def split_beta)
  moreover have "client_ok env (s1\<lparr>ts_world := Some (snd (sends_to env (snd (io (ce_time env) c)) buff ip))\<rparr>)
      (snd (sends_to env (snd (io (ce_time env) c)) buff ip)) m ?Q"
    using ok s1(4) by (simp add: client_ok_def world_ok_def sends_to_def timer_queries_def represents_world)
  ultimately show ?thesis using ip(1) s1(2) by (intro exI [of _ ip] exI conjI) (auto simp: same_globals_def)
qed

text \<open>Without a server the packet is neither kept nor sent.\<close>

lemma xmit_no_server:
  assumes ok: "client_ok env s c Map.empty Q" and use: "si_inuse (cw_svr c)" and hdr: "dps_get_pkt_hdr buff (ce_uninit_hdr env) = Some (h, n)"
    and addr: "\<not> known_family addr"
  shows "dps_protocol_xmit env buff addr context s = Some (DPS_XMIT_ERROR, s)"
proof -
  have w: "ts_world s = Some c" using ok by (simp add: client_ok_def)
  show ?thesis using find_no_server [OF ok refl] use hdr addr w by (simp add: dps_protocol_xmit_def xmit_addr_def known_family_def)
qed

text \<open>Without memory for the timer it is sent all the same, but the caller is told that it failed.\<close>

lemma xmit_no_room:
  assumes ok: "client_ok env s c m Q" and use: "si_inuse (cw_svr c)" and hdr: "dps_get_pkt_hdr buff (ce_uninit_hdr env) = Some (h, n)"
    and addr: "if known_family addr then wf_ip addr else m \<noteq> Map.empty" and ctx: "context \<noteq> 0"
    and id: "bucket_of (ch_query_id h) = Some i" and room: "\<not> has_room (client_timer env) s"
  shows "\<exists>ip. destination m (ch_vnid h) addr ip \<and> dps_protocol_xmit env buff addr context s =
    Some (if fst (sends_to env c buff ip) \<le> 0 then DPS_XMIT_ERROR else DPS_ERROR_NO_RESOURCES, s\<lparr>ts_world := Some (snd (sends_to env c buff ip))\<rparr>)"
proof -
  obtain ip where ip: "destination m (ch_vnid h) addr ip" "xmit_addr env addr (ch_vnid h) c = Some (DPS_SUCCESS, sockaddr_of ip (ce_uninit_storage env))"
    by (rule xmit_destination [OF ok addr])
  have w: "ts_world s = Some c" "timer_queries s Q" "fresh_alloc (client_timer env)" using ok by (simp_all add: client_ok_def)
  obtain rc where rc: "client_start env buff (ch_query_id h) (si_sock_fd (cw_svr c)) (sockaddr_of ip (ce_uninit_storage env)) context s = Some (rc, s)" "rc < 0"
    using start_queries [OF w(2,3) id, of "client_query buff (si_sock_fd (cw_svr c)) (sockaddr_of ip (ce_uninit_storage env)) context"] room
    by (auto simp: client_start_query)
  have "known_family ip" using ip(1) by (simp add: destination_def usable_def)
  then show ?thesis
    using ip use hdr w(1) ctx rc by (intro exI [of _ ip]) (simp add: dps_protocol_xmit_def sockaddr_len sends_to_def split_beta)
qed

end
