(* ===== verification/Dps_Client_Exchange.thy ===== *)
theory Dps_Client_Exchange
  imports Dps_Client_Laws Dps_Conduct
begin

text \<open>
  The packet code, the timer and the table of servers put together: what
  happens to a request of the client on its way out, to a packet that comes
  in, and to a request nobody answers.
\<close>

section \<open>The surroundings of the packet code\<close>

lemma client_ok_world:
  "client_ok env s c m Q \<Longrightarrow> cw_table c' = cw_table c \<Longrightarrow> cw_stats c' = cw_stats c \<Longrightarrow> client_ok env (s\<lparr>ts_world := Some c'\<rparr>) c' m Q"
  by (simp add: client_ok_def world_ok_def timer_queries_def represents_world)

lemma client_ok_query_id: "client_ok env s c m Q \<Longrightarrow> client_ok env (s\<lparr>ts_queryId := q\<rparr>) c m Q"
  using timer_queries_cong [of s Q "s\<lparr>ts_queryId := q\<rparr>"] by (simp add: client_ok_def)

lemma client_link_simps [simp]:
  "lk_server (client_link env) = False" "lk_query_id (client_link env) = raw_proto_query_id_generate"
  "may_send (client_link env) s"
  by (simp_all add: client_link_def may_send_def)

lemma client_link_world:
  assumes "ts_world s = Some c"
  shows "lk_malloc (client_link env) s = (fst (io (ce_malloc env) c), s\<lparr>ts_world := Some (snd (io (ce_malloc env) c))\<rparr>)"
    "lk_free (client_link env) s = s\<lparr>ts_world := Some (io_do (ce_free env) c)\<rparr>"
    "lk_deliver (client_link env) d s = s\<lparr>ts_world := Some (io_do (ce_deliver env d) c)\<rparr>"
    "lk_new_node (client_link env) v s = s\<lparr>ts_world := dps_req_new_dps_node env v c\<rparr>"
  using assms by (simp_all add: client_link_def on_client_def split_beta)

definition has_client_buffer :: "'w client_env \<Rightarrow> 'w \<Rightarrow> bool" where
  "has_client_buffer env w \<longleftrightarrow> (\<exists>mem. fst (ce_malloc env w) = Some mem \<and> length mem = DPS_MAX_BUFF_SZ)"

lemma client_has_buffer: "ts_world s = Some c \<Longrightarrow> has_buffer (client_link env) s \<longleftrightarrow> has_client_buffer env (cw_outer c)"
  by (simp add: has_buffer_def has_client_buffer_def client_link_world)

text \<open>Stopping the timer of a query hands back the context at the head of its queue.\<close>

lemma client_stop:
  assumes ok: "client_ok env s c m Q" and q: "valid_id q"
  shows "\<exists>s' Q'. dps_stop_retransmit_timer (client_link env) q s = ((DPS_SUCCESS, fst (first_context (contexts Q q))), s') \<and>
    client_ok env s' c m Q' \<and> contexts Q' = (contexts Q)(q := tl (contexts Q q)) \<and> same_globals s s'"
proof -
  obtain i where i: "q \<noteq> 0" "bucket_of q = Some i" using q by (auto simp: valid_id_def)
  have t: "timer_queries s Q" using ok by (simp add: client_ok_def)
  let ?Q = "Q(i := drop_first (\<lambda>e. pt_pktId e = q) (Q i))"
  obtain s' where s': "stop_query q s = Some (context_of (pending Q q), s')" "same_globals s s'" "ts_world s' = ts_world s" "timer_queries s' ?Q"
    using stop_queries [OF t i] by blast
  have "\<exists>rc. raw_proto_timer_stop q True True s = Some (rc, Some (context_of (pending Q q)), s')"
    using s'(1) by (auto simp: stop_query_def split: bind_splits)
  then have "raw_proto_timer_stop q True True s = Some (RAW_PROTO_TIMER_RETURN_OK, Some (context_of (pending Q q)), s')"
    using i by (auto simp: raw_proto_timer_stop_def split: bind_splits)
  then have "dps_stop_retransmit_timer (client_link env) q s = ((DPS_SUCCESS, fst (first_context (contexts Q q))), s')"
    using i(1) by (simp add: dps_stop_retransmit_timer_def client_link_def context_of_first contexts_def split_beta)
  moreover have "client_ok env s' c m ?Q" using ok s' by (simp add: client_ok_def)
  ultimately show ?thesis using contexts_drop [OF i(2)] s'(2) by blast
qed

section \<open>A request on its way out\<close>

text \<open>The header of a request that was given no query id, and the state when its packet is handed over.\<close>

definition request_id :: "'w client_state \<Rightarrow> u32" where
  "request_id s = fst (raw_proto_query_id_generate s)"

definition request_hdr :: "'w client_state \<Rightarrow> dps_client_hdr_t \<Rightarrow> dps_client_hdr_t" where
  "request_hdr s h = h\<lparr>ch_query_id := request_id s, ch_transaction_type := DPS_TRANSACTION_NORMAL\<rparr>"

definition at_xmit :: "'w client_env \<Rightarrow> 'w client_world \<Rightarrow> 'w client_state \<Rightarrow> 'w client_state" where
  "at_xmit env c s = (snd (raw_proto_query_id_generate s))\<lparr>ts_world := Some (snd (io (ce_malloc env) c))\<rparr>"

lemma client_sent_hdr:
  assumes "ts_world s = Some c" and "ch_query_id h = 0"
  shows "sent_hdr (client_link env) h (snd (lk_malloc (client_link env) s)) = (request_hdr s h, at_xmit env c s)"
  using assms by (simp add: sent_hdr_def client_link_world request_hdr_def request_id_def at_xmit_def raw_proto_query_id_generate_def Let_def)

text \<open>What the rest of the system sees of a request: memory, the clock, and one packet to a server.\<close>

definition request_effect :: "'w client_env \<Rightarrow> 'w client_world \<Rightarrow> bytes \<Rightarrow> ip_addr_t \<Rightarrow> u32 \<times> 'w" where
  "request_effect env c pkt ip = (case ce_sendto env (si_sock_fd (cw_svr c)) pkt
       (take (if ia_family ip = AF_INET then 16 else 28) (sockaddr_of ip (ce_uninit_storage env)))
       (snd (ce_time env (snd (ce_malloc env (cw_outer c))))) of
     (n, w) \<Rightarrow> (sent_status n, ce_free env w))"

lemma client_sends:
  assumes ok: "client_ok env s c m Q" and use: "si_inuse (cw_svr c)" and req: "ch_query_id (cd_hdr req) = 0" "cd_context req \<noteq> 0"
    and s: "sends rep (client_link env) req tbl s pkt" and pkt: "pkt = pkt_hdrb t (request_hdr s (cd_hdr req)) len @ p"
    and addr: "if known_family (ch_reply_addr (cd_hdr req)) then wf_ip (ch_reply_addr (cd_hdr req)) else m \<noteq> Map.empty"
    and q: "valid_id (request_id s)" and room: "has_room (client_timer env) (at_xmit env c s)"
  shows "\<exists>ip tbl' s' c' Q'. destination m (ch_vnid (cd_hdr req)) (ch_reply_addr (cd_hdr req)) ip \<and>
    dps_protocol_client_send (client_link env) req (tbl, s) =
      Some (rep (fst (request_effect env c pkt ip)), request_hdr s (cd_hdr req), (tbl', s')) \<and>
    client_ok env s' c' m Q' \<and> cw_outer c' = snd (request_effect env c pkt ip) \<and>
    contexts Q' = (contexts Q)(request_id s := contexts Q (request_id s) @ [(cd_context req, RPT_OWNER_DPSA)])"
proof -
  have w: "ts_world s = Some c" using ok by (simp add: client_ok_def)
  let ?h = "request_hdr s (cd_hdr req)" and ?s = "at_xmit env c s" and ?c = "snd (io (ce_malloc env) c)"
  obtain i where i: "bucket_of (request_id s) = Some i" using q by (auto simp: valid_id_def)
  have ok1: "client_ok env ?s ?c m Q"
    using client_ok_world [OF client_ok_query_id [OF ok]] by (simp add: at_xmit_def raw_proto_query_id_generate_def Let_def)
  obtain n where "dps_get_pkt_hdr pkt (ce_uninit_hdr env) = Some (recv_hdr t ?h (ce_uninit_hdr env), n)"
    using get_pkt_hdr_any [of t ?h len p] pkt by blast
  then obtain h where h: "dps_get_pkt_hdr pkt (ce_uninit_hdr env) = Some (h, n)" "ch_query_id h = request_id s" "ch_vnid h = ch_vnid (cd_hdr req)"
    by (auto simp: recv_hdr_def request_hdr_def)
  have use1: "si_inuse (cw_svr ?c)" and i1: "bucket_of (ch_query_id h) = Some i" using use i h(2) by simp_all
  obtain ip s2 where s2: "destination m (ch_vnid h) (ch_reply_addr (cd_hdr req)) ip"
    "dps_protocol_xmit env pkt (ch_reply_addr (cd_hdr req)) (cd_context req) ?s =
       Some (sent_status (fst (sends_to env (snd (io (ce_time env) ?c)) pkt ip)), s2)"
    "client_ok env s2 (snd (sends_to env (snd (io (ce_time env) ?c)) pkt ip)) m (Q(i := Q i @
      [query_entry (ch_query_id h) (client_query pkt (si_sock_fd (cw_svr ?c)) (sockaddr_of ip (ce_uninit_storage env)) (cd_context req))
         (fst (io (ce_time env) ?c))]))"
    using xmit_request [OF ok1 use1 h(1) addr req(2) i1 room] by blast
  let ?c2 = "snd (sends_to env (snd (io (ce_time env) ?c)) pkt ip)"
  have x: "lk_xmit (client_link env) pkt (ch_reply_addr (cd_hdr req)) (cd_context req) ?s =
      (sent_status (fst (sends_to env (snd (io (ce_time env) ?c)) pkt ip)), s2)"
    using s2(2) by (simp add: client_link_def)
  have w2: "ts_world s2 = Some ?c2" using s2(3) by (simp add: client_ok_def)
  have eff: "sent_status (fst (sends_to env (snd (io (ce_time env) ?c)) pkt ip)) = fst (request_effect env c pkt ip)"
    "ce_free env (cw_outer ?c2) = snd (request_effect env c pkt ip)"
    by (simp_all add: request_effect_def sends_to_def split_beta)
  let ?Q = "Q(i := Q i @ [query_entry (ch_query_id h) (client_query pkt (si_sock_fd (cw_svr ?c)) (sockaddr_of ip (ce_uninit_storage env))
      (cd_context req)) (fst (io (ce_time env) ?c))])"
  let ?s2 = "s2\<lparr>ts_world := Some (io_do (ce_free env) ?c2)\<rparr>"
  have "client_ok env ?s2 (io_do (ce_free env) ?c2) m ?Q" by (rule client_ok_world [OF s2(3)]) simp_all
  moreover have "\<exists>tbl'. dps_protocol_client_send (client_link env) req (tbl, s) = Some (rep (fst (request_effect env c pkt ip)), ?h, (tbl', ?s2))"
  proof -
    have "ch_reply_addr ?h = ch_reply_addr (cd_hdr req)" by (simp add: request_hdr_def)
    then show ?thesis using s x w2 eff(1) client_sent_hdr [OF w req(1), of env] by (simp add: sends_def client_link_world Let_def)
  qed
  moreover have "cw_outer (io_do (ce_free env) ?c2) = snd (request_effect env c pkt ip)" using eff(2) by simp
  moreover have "contexts ?Q = (contexts Q)(request_id s := contexts Q (request_id s) @ [(cd_context req, RPT_OWNER_DPSA)])"
    using contexts_add [OF i] by (simp add: h(2) query_context_def)
  moreover have "destination m (ch_vnid (cd_hdr req)) (ch_reply_addr (cd_hdr req)) ip" using s2(1) h(3) by simp
  ultimately show ?thesis by blast
qed

section \<open>A packet that comes in\<close>

text \<open>The node a packet came from, as the client notes it down.\<close>

definition heard_from :: "ip_addr_t \<Rightarrow> ip_addr_t \<Rightarrow> ip_addr_t" where
  "heard_from ip d = d\<lparr>ia_family := ia_family ip, ia_port := ia_port ip,
     ia_ip6 := (if ia_family ip = AF_INET then set_ip4 (ia_ip4 ip) (ia_ip6 d) else ia_ip6 ip),
     ia_xport_type := SOCK_DGRAM, ia_port_http := 0\<rparr>"

lemma usable_heard: "usable ip \<Longrightarrow> wf_ip d \<Longrightarrow> usable (heard_from ip d)"
  by (auto simp: usable_def wf_ip_def known_family_def heard_from_def set_ip4_def)

lemma add_server_learns:
  assumes ok: "client_ok env s c m Q" and u: "usable node"
  shows "\<exists>c' m'. add_server env v node c = Some c' \<and> client_ok env (s\<lparr>ts_world := Some c'\<rparr>) c' m' Q \<and> learnt_from m v node m' \<and>
    cw_outer c' = cw_outer c \<and> cw_stats c' = cw_stats c \<and> cw_svr c' = cw_svr c"
proof -
  have "world_ok env c m" using ok by (simp add: client_ok_def)
  from add_server_ok [OF this u, of v] show ?thesis using ok by (auto simp: client_ok_def timer_queries_def represents_world)
qed

lemma receive_learns:
  assumes ok: "client_ok env s c m Q" and recv: "ce_recvfrom env socket alen (cw_outer c) = ((n, pkt, sockaddr_of ip st, alen'), w)" "0 < n"
    and ip: "usable ip" "24 \<le> length st" and d: "wf_ip d" and pkt: "pkt = pkt_hdrb t h len @ p"
  shows "\<exists>c' m' junk. receive_loop env socket (Suc k) (d, ca, alen) s = do {
      (_, (tbl, s')) \<leftarrow> dps_process_rcvd_pkt (client_link env) (pkt @ junk) (heard_from ip d) (cw_stats c', s\<lparr>ts_world := Some c'\<rparr>);
      receive_loop env socket k (heard_from ip d, over (sockaddr_of ip st) ca, alen') (put_stats tbl s') } \<and>
    client_ok env (s\<lparr>ts_world := Some c'\<rparr>) c' m' Q \<and> learnt_from m (ch_vnid h) (heard_from ip d) m' \<and>
    cw_outer c' = w \<and> cw_stats c' = cw_stats c \<and> si_inuse (cw_svr c') = si_inuse (cw_svr c) \<and> si_sock_fd (cw_svr c') = si_sock_fd (cw_svr c)"
proof -
  have ws: "ts_world s = Some c" using ok by (simp add: client_ok_def)
  define junk where "junk = drop (length pkt) (si_buff (cw_svr c))"
  define c1 where "c1 = c\<lparr>cw_outer := w, cw_svr := (cw_svr c)\<lparr>si_buff := pkt @ junk\<rparr>\<rparr>"
  have io: "io (ce_recvfrom env socket alen) c = ((n, pkt, sockaddr_of ip st, alen'), c\<lparr>cw_outer := w\<rparr>)" using recv(1) by (simp add: io_def)
  have src: "dps_copy_saddr_laddr (over (sockaddr_of ip st) ca) d = Some (heard_from ip d)"
    using copy_saddr_laddr [of ip st _ d] ip by (simp add: over_def heard_from_def usable_def)
  obtain n' where "dps_get_pkt_hdr (pkt @ junk) (ce_uninit_hdr env) = Some (recv_hdr t h (ce_uninit_hdr env), n')"
    using get_pkt_hdr_any [of t h len "p @ junk"] pkt by auto
  then obtain h' where h': "dps_get_pkt_hdr (pkt @ junk) (ce_uninit_hdr env) = Some (h', n')" "ch_vnid h' = ch_vnid h" by (auto simp: recv_hdr_def)
  have ok1: "client_ok env (s\<lparr>ts_world := Some c1\<rparr>) c1 m Q" by (rule client_ok_world [OF ok]) (simp_all add: c1_def)
  obtain c' m' where c': "add_server env (ch_vnid h) (heard_from ip d) c1 = Some c'" "client_ok env (s\<lparr>ts_world := Some c'\<rparr>) c' m' Q"
    "learnt_from m (ch_vnid h) (heard_from ip d) m'" "cw_outer c' = w" "cw_stats c' = cw_stats c" "si_inuse (cw_svr c') = si_inuse (cw_svr c)"
    "si_sock_fd (cw_svr c') = si_sock_fd (cw_svr c)"
    using add_server_learns [OF ok1 usable_heard [OF ip(1) d], of "ch_vnid h"] by (auto simp: c1_def)
  have "over pkt (si_buff (cw_svr c)) = pkt @ junk" by (simp add: over_def junk_def)
  then have "receive_loop env socket (Suc k) (d, ca, alen) s = do {
      (_, (tbl, s')) \<leftarrow> dps_process_rcvd_pkt (client_link env) (pkt @ junk) (heard_from ip d) (cw_stats c', s\<lparr>ts_world := Some c'\<rparr>);
      receive_loop env socket k (heard_from ip d, over (sockaddr_of ip st) ca, alen') (put_stats tbl s') }"
    using ws io recv(2) src h' c'(1) by (simp add: c1_def)
  then show ?thesis using c' by blast
qed

lemma client_delivers_answer:
  assumes ok: "client_ok env s c m Q" and q: "valid_id (ch_query_id h)"
  shows "\<exists>s' c' Q'. deliver_answer keep (client_link env) h b (tbl, snd (lk_malloc (client_link env) s)) = Some (DPS_SUCCESS, (tbl, s')) \<and>
    client_ok env s' c' m Q' \<and> contexts Q' = (contexts Q)(ch_query_id h := tl (contexts Q (ch_query_id h))) \<and>
    cw_stats c' = cw_stats c \<and> cw_outer c' = ce_free env (ce_deliver env
      \<lparr>cd_context = fst (first_context (contexts Q (ch_query_id h))), cd_hdr = h, cd_body = b\<rparr> (snd (ce_malloc env (cw_outer c))))"
proof -
  let ?c = "snd (io (ce_malloc env) c)" and ?d = "\<lparr>cd_context = fst (first_context (contexts Q (ch_query_id h))), cd_hdr = h, cd_body = b\<rparr>"
  let ?c' = "io_do (ce_free env) (io_do (ce_deliver env ?d) ?c)"
  have w: "ts_world s = Some c" using ok by (simp add: client_ok_def)
  have ok1: "client_ok env (s\<lparr>ts_world := Some ?c\<rparr>) ?c m Q" by (rule client_ok_world [OF ok]) simp_all
  obtain s1 Q' where s1: "dps_stop_retransmit_timer (client_link env) (ch_query_id h) (s\<lparr>ts_world := Some ?c\<rparr>) =
      ((DPS_SUCCESS, fst (first_context (contexts Q (ch_query_id h)))), s1)"
    "client_ok env s1 ?c m Q'" "contexts Q' = (contexts Q)(ch_query_id h := tl (contexts Q (ch_query_id h)))"
    using client_stop [OF ok1 q] by blast
  have w1: "ts_world s1 = Some ?c" using s1(2) by (simp add: client_ok_def)
  have "deliver_answer keep (client_link env) h b (tbl, snd (lk_malloc (client_link env) s)) = Some (DPS_SUCCESS, (tbl, s1\<lparr>ts_world := Some ?c'\<rparr>))"
    using s1(1) w w1 by (simp add: deliver_answer_def client_link_world)
  moreover have "client_ok env (s1\<lparr>ts_world := Some ?c'\<rparr>) ?c' m Q'" by (rule client_ok_world [OF s1(2)]) simp_all
  ultimately show ?thesis using s1(3) by (intro exI conjI) (assumption | simp)+
qed

lemma client_ok_stats:
  "client_ok env s c m Q \<Longrightarrow> length tbl = unat DPS_MAX_MSG_TYPE \<Longrightarrow> client_ok env (put_stats tbl s) (c\<lparr>cw_stats := tbl\<rparr>) m Q"
  by (simp add: client_ok_def world_ok_def put_stats_def on_client_def timer_queries_def represents_world)

end
