(* ===== verification/Raw_Proto_Time.thy ===== *)
theory Raw_Proto_Time
  imports Raw_Proto_Queries
begin

text \<open>
  The timer against the clock: what the thread sends and reports, and when,
  as long as its timed wait takes a second and nothing else happens.
\<close>

section \<open>A recorded system\<close>

datatype timer_event =
    Sent (event_time: int) int (event_packet: bytes) bytes
  | Reported (event_time: int) nat raw_proto_retransmit_status_t (event_packet: bytes) nat int

record recorder =
  rc_clock :: int
  rc_log :: "timer_event list"

definition record_event :: "timer_event \<Rightarrow> recorder \<Rightarrow> recorder" where
  "record_event e w = w\<lparr>rc_log := rc_log w @ [e]\<rparr>"

definition record_call :: "recorder callback_effect" where
  "record_call f status pkt context owner w = record_event (Reported (rc_clock w) f status pkt context owner) w"

text \<open>Memory for a number of nodes, a clock that advances by a second in a wait, and a log of packets and callbacks.\<close>

definition recording :: "nat \<Rightarrow> recorder timer_env" where
  "recording nodes = \<lparr>
     tm_malloc = (\<lambda>s. List.find (\<lambda>a. ts_heap s a = None) [0..<nodes]),
     tm_malloc_pkt = (\<lambda>_. True),
     tm_time = (\<lambda>w. (rc_clock w, w)),
     tm_sendto = (\<lambda>fd pkt addr w. record_event (Sent (rc_clock w) fd pkt addr) w),
     tm_call = (\<lambda>f status pkt context owner s. Some (s\<lparr>ts_world := record_call f status pkt context owner (ts_world s)\<rparr>)),
     tm_mutex_ok = True, tm_unlock_ok = True, tm_thread_ok = True,
     tm_wait = (\<lambda>w. (True, w\<lparr>rc_clock := rc_clock w + 1\<rparr>))\<rparr>"

lemma recording_fresh [simp]: "fresh_alloc (recording nodes)"
  by (auto simp: fresh_alloc_def recording_def find_Some_iff)

lemma recording_calls [simp]: "calls_only (recording nodes) record_call"
  by (simp add: calls_only_def recording_def)

section \<open>One entry in one pass\<close>

definition expired :: "int \<Rightarrow> raw_proto_pkt_timer_t \<Rightarrow> bool" where
  "expired now e \<longleftrightarrow> retry_gap (pt_transmitCount e) \<le> now - pt_lastSentTime e"

definition pass_entry :: "int \<Rightarrow> raw_proto_pkt_timer_t \<Rightarrow> raw_proto_pkt_timer_t list" where
  "pass_entry now e = (if \<not> expired now e then [e]
     else if pt_transmitCount e \<le> pt_maxNumRetransmit e then [stamped e now] else [])"

definition report_events :: "nat option list \<Rightarrow> int \<Rightarrow> raw_proto_pkt_timer_t \<Rightarrow> timer_event list" where
  "report_events cbs now e = (if IS_VALID_RPT_OWNER (pt_owner e) then (case cbs ! nat (pt_owner e) of
       None \<Rightarrow> []
     | Some f \<Rightarrow> [Reported now f RAW_PROTO_MAX_NUM_RETRANSMIT_EXCEEDED (pt_rawPkt e) (pt_context e) (pt_owner e)]) else [])"

definition entry_events :: "nat option list \<Rightarrow> int \<Rightarrow> raw_proto_pkt_timer_t \<Rightarrow> timer_event list" where
  "entry_events cbs now e = (if \<not> expired now e then []
     else if pt_transmitCount e \<le> pt_maxNumRetransmit e then [Sent now (pt_sockFd e) (pt_rawPkt e) (pt_addr e)]
     else report_events cbs now e)"

lemma report_recorded: "report record_call cbs e w = w\<lparr>rc_log := rc_log w @ report_events cbs (rc_clock w) e\<rparr>"
  by (simp add: report_def report_events_def record_call_def record_event_def split: option.split)

lemma pass_recorded:
  "pass_entries (recording nodes) record_call cbs es w =
     (concat (map (pass_entry (rc_clock w)) es), w\<lparr>rc_log := rc_log w @ concat (map (entry_events cbs (rc_clock w)) es)\<rparr>)"
proof (induction es arbitrary: w)
  case (Cons e es)
  have t: "tm_time (recording nodes) w = (rc_clock w, w)" for w by (simp add: recording_def)
  have "tm_sendto (recording nodes) fd pkt addr w = w\<lparr>rc_log := rc_log w @ [Sent (rc_clock w) fd pkt addr]\<rparr>" for fd pkt addr w
    by (simp add: recording_def record_event_def)
  then show ?case
    using Cons.IH t by (cases "expired (rc_clock w) e")
      (simp_all add: pass_entry_def [of _ e] entry_events_def [of _ _ e] expired_def stamped_def report_recorded)
qed simp

definition of_packet :: "bytes \<Rightarrow> timer_event list \<Rightarrow> timer_event list" where
  "of_packet pkt = filter (\<lambda>v. event_packet v = pkt)"

definition holding :: "bytes \<Rightarrow> raw_proto_pkt_timer_t list \<Rightarrow> raw_proto_pkt_timer_t list" where
  "holding pkt = filter (\<lambda>e. pt_rawPkt e = pkt)"

lemma report_events_cases:
  "report_events cbs now e = [] \<or> (\<exists>f. report_events cbs now e =
     [Reported now f RAW_PROTO_MAX_NUM_RETRANSMIT_EXCEEDED (pt_rawPkt e) (pt_context e) (pt_owner e)])"
  by (cases "cbs ! nat (pt_owner e)") (simp_all add: report_events_def)

lemma entry_events_packet: "of_packet pkt (entry_events cbs now e) = (if pt_rawPkt e = pkt then entry_events cbs now e else [])"
  using report_events_cases [of cbs now e] by (auto simp: entry_events_def of_packet_def)

lemma of_packet_events:
  "of_packet pkt (concat (map (entry_events cbs now) es)) = concat (map (entry_events cbs now) (holding pkt es))"
proof (induction es)
  case Nil
  show ?case by (simp add: of_packet_def holding_def)
next
  case (Cons e es)
  then show ?case using entry_events_packet [of pkt cbs now e] by (simp add: of_packet_def holding_def)
qed

lemma holding_pass: "holding pkt (concat (map (pass_entry now) es)) = concat (map (pass_entry now) (holding pkt es))"
  by (induction es) (auto simp: holding_def pass_entry_def stamped_def)

section \<open>The entries of a packet over time\<close>

fun timeline :: "nat option list \<Rightarrow> int \<Rightarrow> nat \<Rightarrow> raw_proto_pkt_timer_t list \<Rightarrow> timer_event list \<times> raw_proto_pkt_timer_t list" where
  "timeline cbs now 0 es = ([], es)"
| "timeline cbs now (Suc n) es = (case timeline cbs (now + 1) n (concat (map (pass_entry (now + 1)) es)) of
     (vs, es') \<Rightarrow> (concat (map (entry_events cbs (now + 1)) es) @ vs, es'))"

lemma turn_recorded:
  assumes q: "timer_queries s Q"
  shows "\<exists>s' Q'. thread_turn (recording nodes) (False, s) = Some (False, s') \<and> timer_queries s' Q' \<and> same_globals s s' \<and>
    rc_clock (ts_world s') = rc_clock (ts_world s) + 1 \<and>
    waiting Q' = concat (map (pass_entry (rc_clock (ts_world s) + 1)) (waiting Q)) \<and>
    rc_log (ts_world s') = rc_log (ts_world s) @ concat (map (entry_events (ts_rpt_callbacks s) (rc_clock (ts_world s) + 1)) (waiting Q))"
proof -
  let ?s = "s\<lparr>ts_world := (ts_world s)\<lparr>rc_clock := rc_clock (ts_world s) + 1\<rparr>\<rparr>"
  have "timer_queries ?s Q" using q by (simp add: timer_queries_def represents_world)
  from retransmit_represents [OF recording_calls [of nodes] this] obtain s' Q' where s': "raw_pkt_retransmit (recording nodes) ?s = Some s'"
    "timer_queries s' Q'" "same_globals ?s s'"
    "pass_entries (recording nodes) record_call (ts_rpt_callbacks s) (waiting Q) ((ts_world s)\<lparr>rc_clock := rc_clock (ts_world s) + 1\<rparr>) =
      (waiting Q', ts_world s')"
    by auto
  moreover have "thread_turn (recording nodes) (False, s) = Some (False, s')" using s'(1) by (simp add: thread_turn_def recording_def)
  moreover have "ts_world s' = (ts_world s)\<lparr>rc_clock := rc_clock (ts_world s) + 1,
      rc_log := rc_log (ts_world s) @ concat (map (entry_events (ts_rpt_callbacks s) (rc_clock (ts_world s) + 1)) (waiting Q))\<rparr>"
    "waiting Q' = concat (map (pass_entry (rc_clock (ts_world s) + 1)) (waiting Q))"
    using s'(4) by (simp_all add: pass_recorded)
  ultimately show ?thesis by (intro exI [of _ s'] exI [of _ Q']) (simp add: same_globals_def)
qed

lemma thread_turns:
  "timer_queries s Q \<Longrightarrow> \<exists>s' Q'. for_each (\<lambda>_. thread_turn (recording nodes)) xs (False, s) = Some (False, s') \<and> timer_queries s' Q' \<and>
     same_globals s s' \<and> (\<forall>pkt. case timeline (ts_rpt_callbacks s) (rc_clock (ts_world s)) (length xs) (holding pkt (waiting Q)) of (vs, es) \<Rightarrow>
       holding pkt (waiting Q') = es \<and> of_packet pkt (rc_log (ts_world s')) = of_packet pkt (rc_log (ts_world s)) @ vs)"
proof (induction xs arbitrary: s Q)
  case Nil
  then show ?case by (auto simp: same_globals_def)
next
  case (Cons x xs)
  obtain s1 Q1 where s1: "thread_turn (recording nodes) (False, s) = Some (False, s1)" "timer_queries s1 Q1" "same_globals s s1"
    "rc_clock (ts_world s1) = rc_clock (ts_world s) + 1"
    "waiting Q1 = concat (map (pass_entry (rc_clock (ts_world s) + 1)) (waiting Q))"
    "rc_log (ts_world s1) = rc_log (ts_world s) @ concat (map (entry_events (ts_rpt_callbacks s) (rc_clock (ts_world s) + 1)) (waiting Q))"
    using turn_recorded [OF Cons.prems] by blast
  have cb: "ts_rpt_callbacks s1 = ts_rpt_callbacks s" using s1(3) by (simp add: same_globals_def)
  have log: "of_packet pkt (rc_log (ts_world s1)) = of_packet pkt (rc_log (ts_world s)) @
      concat (map (entry_events (ts_rpt_callbacks s) (rc_clock (ts_world s) + 1)) (holding pkt (waiting Q)))" for pkt
    using of_packet_events [of pkt "ts_rpt_callbacks s" _ "waiting Q"] by (simp add: s1(6) of_packet_def)
  have hold: "holding pkt (waiting Q1) = concat (map (pass_entry (rc_clock (ts_world s) + 1)) (holding pkt (waiting Q)))" for pkt
    by (simp add: s1(5) holding_pass)
  obtain s' Q' where s': "for_each (\<lambda>_. thread_turn (recording nodes)) xs (False, s1) = Some (False, s')" "timer_queries s' Q'"
    "same_globals s1 s'"
    "\<forall>pkt. case timeline (ts_rpt_callbacks s) (rc_clock (ts_world s) + 1) (length xs) (holding pkt (waiting Q1)) of (vs, es) \<Rightarrow>
       holding pkt (waiting Q') = es \<and> of_packet pkt (rc_log (ts_world s')) = of_packet pkt (rc_log (ts_world s1)) @ vs"
    using Cons.IH [OF s1(2)] unfolding cb s1(4) by blast
  have "for_each (\<lambda>_. thread_turn (recording nodes)) (x # xs) (False, s) = Some (False, s')" using s1(1) s'(1) by simp
  moreover have "same_globals s s'" using s1(3) s'(3) by (simp add: same_globals_def)
  moreover have "\<forall>pkt. case timeline (ts_rpt_callbacks s) (rc_clock (ts_world s)) (length (x # xs)) (holding pkt (waiting Q)) of (vs, es) \<Rightarrow>
       holding pkt (waiting Q') = es \<and> of_packet pkt (rc_log (ts_world s')) = of_packet pkt (rc_log (ts_world s)) @ vs"
    using s'(4) by (auto simp: log hold split: prod.splits)
  ultimately show ?case using s'(2) by blast
qed

section \<open>The schedule\<close>

lemma timeline_nil [simp]: "timeline cbs now n [] = ([], [])"
  by (induction n arbitrary: now) auto

text \<open>Nothing happens until the interval is over; then the entry is sent again or given up.\<close>

lemma timeline_wait:
  assumes "now < d" and d: "d = pt_lastSentTime e + retry_gap (pt_transmitCount e)"
  shows "d - now \<le> int n \<Longrightarrow> timeline cbs now n [e] = (case timeline cbs d (n - nat (d - now)) (pass_entry d e) of
    (vs, es) \<Rightarrow> (entry_events cbs d e @ vs, es))"
  using assms(1)
proof (induction n arbitrary: now)
  case 0
  then show ?case by simp
next
  case (Suc n)
  show ?case
  proof (cases "now + 1 = d")
    case True
    then have "nat (d - now) = 1" by simp
    then show ?thesis using True by simp
  next
    case False
    then have "\<not> expired (now + 1) e" using Suc.prems d by (simp add: expired_def)
    then have "timeline cbs now (Suc n) [e] = timeline cbs (now + 1) n [e]" by (simp add: pass_entry_def entry_events_def split: prod.split)
    moreover have "Suc n - nat (d - now) = n - nat (d - (now + 1))" using Suc.prems False by auto
    ultimately show ?thesis using Suc.IH [of "now + 1"] Suc.prems False by simp
  qed
qed

text \<open>The \<open>k\<close>th interval ends this long after the first transmission.\<close>

definition retry_time :: "nat \<Rightarrow> int" where
  "retry_time k = 2 ^ k - 1 + int k"

lemma retry_time_Suc: "retry_time (Suc k) = retry_time k + retry_gap (int (Suc k))"
  by (simp add: retry_time_def retry_gap_def)

lemma retry_time_pos: "0 < k \<Longrightarrow> 0 < retry_gap k"
  by (simp add: retry_gap_def add_pos_pos)

definition resent :: "raw_proto_pkt_timer_t \<Rightarrow> int \<Rightarrow> nat \<Rightarrow> raw_proto_pkt_timer_t" where
  "resent e t k = e\<lparr>pt_transmitCount := int k + 1, pt_lastSentTime := t + retry_time k\<rparr>"

lemma report_events_resent: "report_events cbs now (resent e t k) = report_events cbs now e"
  by (cases "cbs ! nat (pt_owner e)") (simp_all add: report_events_def resent_def)

lemma timeline_retry:
  assumes "pt_maxNumRetransmit e = int m"
  shows "k \<le> m \<Longrightarrow> retry_time (Suc m) - retry_time k \<le> int n \<Longrightarrow>
    timeline cbs (t + retry_time k) n [resent e t k] =
      (map (\<lambda>j. Sent (t + retry_time j) (pt_sockFd e) (pt_rawPkt e) (pt_addr e)) [Suc k..<Suc m] @ report_events cbs (t + retry_time (Suc m)) e, [])"
proof (induction "m - k" arbitrary: k n)
  case 0
  then have k: "k = m" by simp
  let ?d = "t + retry_time (Suc m)"
  have d: "?d = pt_lastSentTime (resent e t m) + retry_gap (pt_transmitCount (resent e t m))"
    by (simp add: resent_def retry_time_Suc add.commute)
  then have "expired ?d (resent e t m)" by (simp add: expired_def)
  then have "pass_entry ?d (resent e t m) = []" "entry_events cbs ?d (resent e t m) = report_events cbs ?d e"
    using assms by (simp_all add: pass_entry_def entry_events_def report_events_resent) (simp_all add: resent_def)
  then show ?case
    using 0 k timeline_wait [OF _ d, of "t + retry_time m" n cbs] retry_time_pos [of "int (Suc m)"] by (simp add: retry_time_Suc)
next
  case (Suc r)
  let ?d = "t + retry_time (Suc k)"
  have km: "Suc k \<le> m" "r = m - Suc k" using Suc.hyps(2) by auto
  have d: "?d = pt_lastSentTime (resent e t k) + retry_gap (pt_transmitCount (resent e t k))"
    by (simp add: resent_def retry_time_Suc add.commute)
  then have "expired ?d (resent e t k)" by (simp add: expired_def)
  then have e: "pass_entry ?d (resent e t k) = [resent e t (Suc k)]"
    "entry_events cbs ?d (resent e t k) = [Sent ?d (pt_sockFd e) (pt_rawPkt e) (pt_addr e)]"
    using assms km by (simp_all add: pass_entry_def entry_events_def resent_def stamped_def)
  have gap: "?d - (t + retry_time k) = retry_gap (int (Suc k))" "0 < retry_gap (int (Suc k))"
    using retry_time_pos [of "int (Suc k)"] by (simp_all add: retry_time_Suc)
  have mono: "retry_time (Suc k) \<le> retry_time (Suc m)"
    using km(1) power_increasing [of "Suc k" "Suc m" "2::int"] unfolding retry_time_def by linarith
  have "timeline cbs (t + retry_time (Suc k)) (n - nat (retry_gap (int (Suc k)))) [resent e t (Suc k)] =
      (map (\<lambda>j. Sent (t + retry_time j) (pt_sockFd e) (pt_rawPkt e) (pt_addr e)) [Suc (Suc k)..<Suc m] @
       report_events cbs (t + retry_time (Suc m)) e, [])"
    using Suc.hyps(1) [OF km(2) km(1)] Suc.prems(2) gap mono by (simp add: retry_time_Suc)
  moreover have "[Suc k..<Suc m] = Suc k # [Suc (Suc k)..<Suc m]" using km by (simp add: upt_conv_Cons)
  ultimately show ?case
    using timeline_wait [OF _ d, of "t + retry_time k" n cbs] e gap mono Suc.prems(2) by simp
qed

section \<open>A query that is started\<close>

lemma holding_empty: "holding pkt (waiting Q) = [] \<longleftrightarrow> (\<forall>i < MAX_HASH_BUCKET. \<forall>e \<in> set (Q i). pt_rawPkt e \<noteq> pkt)"
  by (auto simp: holding_def waiting_def filter_empty_conv)

lemma filter_concat_add:
  "i < n \<Longrightarrow> \<forall>j < n. filter P (Q j) = [] \<Longrightarrow> P e \<Longrightarrow> filter P (concat (map (Q(i := Q i @ [e])) [0..<n])) = [e]"
proof (induction n)
  case (Suc n)
  show ?case
  proof (cases "i = n")
    case True
    have "map (Q(i := Q i @ [e])) [0..<n] = map Q [0..<n]" using True by simp
    moreover have "\<forall>j < n. filter P (Q j) = []" using Suc.prems(2) by simp
    then have "filter P (concat (map Q [0..<n])) = []" by (auto simp: filter_empty_conv)
    ultimately have "filter P (concat (map (Q(i := Q i @ [e])) [0..<n])) = []" by metis
    then show ?thesis using Suc.prems True by (simp del: fun_upd_apply add: fun_upd_same)
  next
    case False
    then show ?thesis using Suc by (simp add: less_Suc_eq)
  qed
qed simp

lemma holding_add:
  assumes "holding pkt (waiting Q) = []" and "i < MAX_HASH_BUCKET" and "pt_rawPkt e = pkt"
  shows "holding pkt (waiting (Q(i := Q i @ [e]))) = [e]"
proof -
  have "\<forall>j < MAX_HASH_BUCKET. filter (\<lambda>e. pt_rawPkt e = pkt) (Q j) = []" using assms(1) by (simp add: holding_empty filter_empty_conv)
  then show ?thesis unfolding holding_def waiting_def using assms(3) by (intro filter_concat_add assms(2))
qed

lemma started_timeline:
  assumes "rp_maxNumRetransmit p = int m" and "retry_time (Suc m) \<le> int n"
  shows "timeline cbs t n [query_entry k p t] = (map (\<lambda>j. Sent (t + retry_time j) (rp_sockFd p) (take (rp_len p) (rp_data p)) (take SIZEOF_SOCKADDR (rp_addr p)))
    [1..<Suc m] @ report_events cbs (t + retry_time (Suc m)) (query_entry k p t), [])"
proof -
  have "resent (query_entry k p t) t 0 = query_entry k p t" by (simp add: resent_def query_entry_def new_timer_node_def retry_time_def)
  moreover have "pt_maxNumRetransmit (query_entry k p t) = int m" using assms(1) by (simp add: query_entry_def new_timer_node_def)
  ultimately show ?thesis
    using timeline_retry [of "query_entry k p t" m 0 n cbs t] assms(2)
    by (simp add: retry_time_def [of 0] query_entry_def new_timer_node_def)
qed

end
