(* ===== verification/Dps_Client_Timer.thy ===== *)
theory Dps_Client_Timer
  imports Dps_Client_Exchange Raw_Proto_Time
begin

text \<open>
  The timer of the client calls back into the packet code and the table of
  servers.  The callback does not touch the timer itself, so a pass of the
  timer is a pass over the waiting queries; the state of the client stays
  well-formed under every operation.
\<close>

section \<open>The callback\<close>

definition client_effect :: "'w client_env \<Rightarrow> 'w client_world option callback_effect" where
  "client_effect env f status pkt context owner w = do {
     c \<leftarrow> w;
     (if f \<noteq> CALLBACK then None
      else if status \<noteq> RAW_PROTO_MAX_NUM_RETRANSMIT_EXCEEDED then Some c
      else do {
        (h, _) \<leftarrow> dps_get_pkt_hdr pkt zero_hdr;
        c \<leftarrow> dps_req_new_dps_node env (ch_vnid h) c;
        (if \<not> valid_type (ch_type h) then do {
           tbl \<leftarrow> bump 0 (\<lambda>s. s\<lparr>ps_transmit_error := ps_transmit_error s + 1\<rparr>) (cw_stats c);
           Some (c\<lparr>cw_stats := tbl\<rparr>) }
         else
           let data = \<lparr>cd_context = 0, cd_hdr = h, cd_body = No_body\<rparr>;
               data = (case snd (dps_construct_msg_reply_table ! unat (ch_type h)) of None \<Rightarrow> data | Some g \<Rightarrow> g data)
           in Some (io_do (ce_deliver env (data\<lparr>cd_context := context,
                cd_hdr := (cd_hdr data)\<lparr>ch_resp_status := DPS_NO_RESPONSE, ch_sub_type := ch_type h\<rparr>\<rparr>)) c)) }) }"

lemma client_callback_effect:
  "client_callback env f status pkt context owner s = Some (s\<lparr>ts_world := client_effect env f status pkt context owner (ts_world s)\<rparr>)"
proof (cases "ts_world s")
  case None
  then show ?thesis by (simp add: client_callback_def client_effect_def)
next
  case w: (Some c)
  show ?thesis
  proof (cases "f = CALLBACK \<and> status = RAW_PROTO_MAX_NUM_RETRANSMIT_EXCEEDED")
    case False
    then show ?thesis
      using w by (cases status) (auto simp: client_callback_def client_effect_def crashed_def dps_retransmit_callback_def put_stats_def on_client_def)
  next
    case True
    show ?thesis
    proof (cases "dps_get_pkt_hdr pkt zero_hdr")
      case None
      then show ?thesis using True w by (simp add: client_callback_def client_effect_def dps_retransmit_callback_def crashed_def)
    next
      case (Some hn)
      obtain h n where hn: "hn = (h, n)" by fastforce
      show ?thesis
      proof (cases "dps_req_new_dps_node env (ch_vnid h) c")
        case None
        then show ?thesis
          using True w Some hn by (auto simp: client_callback_def client_effect_def dps_retransmit_callback_def client_link_world crashed_def
            dps_send_to_protocol_client_def put_stats_def on_client_def Let_def client_link_def split: bind_splits option.splits)
      next
        case c': (Some c')
        then show ?thesis
          using True w Some hn new_node_stats [OF c']
          by (auto simp: client_callback_def client_effect_def dps_retransmit_callback_def client_link_world crashed_def
            dps_send_to_protocol_client_def put_stats_def on_client_def Let_def client_link_def io_do_def split: bind_splits option.splits)
      qed
    qed
  qed
qed

lemma client_calls_only: "calls_only (client_timer env) (client_effect env)"
  by (simp add: calls_only_def client_timer_def timer_calls_def client_callback_effect)

section \<open>Queries that are given up\<close>

lemma effect_no_response:
  assumes w: "world_ok env c m" and h: "dps_get_pkt_hdr pkt zero_hdr = Some (h, n)" "valid_type (ch_type h)"
  shows "\<exists>b c'. client_effect env CALLBACK RAW_PROTO_MAX_NUM_RETRANSMIT_EXCEEDED pkt context owner (Some c) = Some c' \<and>
    world_ok env c' (m(ch_vnid h := None)) \<and> cw_svr c' = cw_svr c \<and> cw_outer c' = ce_deliver env \<lparr>cd_context = context,
      cd_hdr = h\<lparr>ch_type := reply_type (ch_type h), ch_resp_status := DPS_NO_RESPONSE, ch_sub_type := ch_type h\<rparr>, cd_body = b\<rparr>
      (node_asked env (cw_last_sent_time c) (cw_outer c))"
proof -
  obtain c1 where c1: "dps_req_new_dps_node env (ch_vnid h) c = Some c1" "world_ok env c1 (m(ch_vnid h := None))" "cw_svr c1 = cw_svr c"
    "cw_outer c1 = node_asked env (cw_last_sent_time c) (cw_outer c)"
    using new_node_forgets [OF w] by blast
  define d where "d = (case snd (dps_construct_msg_reply_table ! unat (ch_type h)) of
      None \<Rightarrow> \<lparr>cd_context = 0, cd_hdr = h, cd_body = No_body\<rparr> | Some g \<Rightarrow> g \<lparr>cd_context = 0, cd_hdr = h, cd_body = No_body\<rparr>)"
  have "cd_hdr d = h\<lparr>ch_type := reply_type (ch_type h)\<rparr>"
    using reply_row [OF h(2)] by (auto simp: d_def reply_row_def split: option.splits)
  then have d: "d\<lparr>cd_context := context, cd_hdr := (cd_hdr d)\<lparr>ch_resp_status := DPS_NO_RESPONSE, ch_sub_type := ch_type h\<rparr>\<rparr> = \<lparr>cd_context = context,
      cd_hdr = h\<lparr>ch_type := reply_type (ch_type h), ch_resp_status := DPS_NO_RESPONSE, ch_sub_type := ch_type h\<rparr>, cd_body = cd_body d\<rparr>"
    by (cases d) simp
  have "client_effect env CALLBACK RAW_PROTO_MAX_NUM_RETRANSMIT_EXCEEDED pkt context owner (Some c) =
      Some (io_do (ce_deliver env (d\<lparr>cd_context := context, cd_hdr := (cd_hdr d)\<lparr>ch_resp_status := DPS_NO_RESPONSE, ch_sub_type := ch_type h\<rparr>\<rparr>)) c1)"
    using c1(1) h by (simp add: client_effect_def Let_def d_def)
  then show ?thesis using c1 unfolding d by (intro exI conjI) (assumption | simp | erule world_ok_cong)+
qed

text \<open>While the clock stands still, a pass leaves the queries alone whose interval is not over.\<close>

lemma pass_waiting:
  assumes "\<And>w. ce_time env w = (now, w)" and "\<forall>e \<in> set es. \<not> expired now e"
  shows "pass_entries (client_timer env) cw cbs es (Some c) = (es, Some c)"
  using assms(2)
proof (induction es)
  case (Cons e es)
  have "io (ce_time env) c = (now, c)" using assms(1) by (simp add: io_def)
  then have "tm_time (client_timer env) (Some c) = (now, Some c)" by (simp add: client_timer_time)
  then show ?case using Cons by (auto simp: expired_def not_le [symmetric])
qed simp

lemma pass_gives_up:
  assumes t: "\<And>w. ce_time env w = (now, w)" and es: "\<forall>e' \<in> set (xs @ ys). \<not> expired now e'"
    and e: "dropped now e" "pt_owner e = RPT_OWNER_DPSA" "cbs ! 2 = Some CALLBACK"
  shows "pass_entries (client_timer env) (client_effect env) cbs (xs @ e # ys) (Some c) =
    (case client_effect env CALLBACK RAW_PROTO_MAX_NUM_RETRANSMIT_EXCEEDED (pt_rawPkt e) (pt_context e) RPT_OWNER_DPSA (Some c) of
       Some c' \<Rightarrow> (xs @ ys, Some c')
     | None \<Rightarrow> (case pass_entries (client_timer env) (client_effect env) cbs ys None of (ys', w) \<Rightarrow> (xs @ ys', w)))"
proof -
  have "io (ce_time env) c = (now, c)" using t by (simp add: io_def)
  then have now: "tm_time (client_timer env) (Some c) = (now, Some c)" by (simp add: client_timer_time)
  have o: "IS_VALID_RPT_OWNER RPT_OWNER_DPSA" by (simp add: IS_VALID_RPT_OWNER_def)
  have "pass_entries (client_timer env) (client_effect env) cbs (e # ys) (Some c) = pass_entries (client_timer env) (client_effect env) cbs ys
      (client_effect env CALLBACK RAW_PROTO_MAX_NUM_RETRANSMIT_EXCEEDED (pt_rawPkt e) (pt_context e) RPT_OWNER_DPSA (Some c))"
    using now e o by (simp add: dropped_def report_def)
  moreover have "pass_entries (client_timer env) (client_effect env) cbs xs (Some c) = (xs, Some c)"
    "\<And>c'. pass_entries (client_timer env) (client_effect env) cbs ys (Some c') = (ys, Some c')"
    using es by (auto intro!: pass_waiting [OF t])
  ultimately show ?thesis by (auto simp: pass_entries_append split: option.split prod.split)
qed

section \<open>The invariant of the client\<close>

lemma get_pkt_hdr_long: "20 \<le> length pkt \<Longrightarrow> \<exists>h n. dps_get_pkt_hdr pkt u = Some (h, n)"
  by (simp add: dps_get_pkt_hdr_def ld8_def ld16_def ld32_def peek_def)

text \<open>What is kept of the queries that wait: a packet with a header, of the client.\<close>

definition client_entry :: "raw_proto_pkt_timer_t \<Rightarrow> bool" where
  "client_entry e \<longleftrightarrow> 20 \<le> length (pt_rawPkt e) \<and> pt_owner e = RPT_OWNER_DPSA"

definition client_inv :: "'w client_env \<Rightarrow> 'w client_state \<Rightarrow> bool" where
  "client_inv env s \<longleftrightarrow> (\<exists>c m Q. client_ok env s c m Q \<and> (\<forall>e \<in> set (waiting Q). client_entry e) \<and>
     ts_rpt_callbacks s ! 2 \<in> {None, Some CALLBACK})"

lemma effect_world_ok:
  assumes w: "world_ok env c m" and l: "20 \<le> length pkt"
  shows "\<exists>c' m'. client_effect env CALLBACK status pkt context owner (Some c) = Some c' \<and> world_ok env c' m'"
proof (cases "status = RAW_PROTO_MAX_NUM_RETRANSMIT_EXCEEDED")
  case False
  then show ?thesis using w by (auto simp: client_effect_def)
next
  case True
  obtain h n where h: "dps_get_pkt_hdr pkt zero_hdr = Some (h, n)" using get_pkt_hdr_long [OF l] by blast
  show ?thesis
  proof (cases "valid_type (ch_type h)")
    case v: True
    then show ?thesis using effect_no_response [OF w h v] True by blast
  next
    case False
    obtain c1 where "dps_req_new_dps_node env (ch_vnid h) c = Some c1" "world_ok env c1 (m(ch_vnid h := None))"
      using new_node_forgets [OF w] by blast
    then show ?thesis using True False h by (auto simp: client_effect_def bump_def world_ok_def)
  qed
qed

lemma pass_keeps:
  assumes "cbs ! 2 \<in> {None, Some CALLBACK}"
  shows "world_ok env c m \<Longrightarrow> list_all client_entry es \<Longrightarrow>
    \<exists>es' c' m'. pass_entries (client_timer env) (client_effect env) cbs es (Some c) = (es', Some c') \<and> world_ok env c' m' \<and> list_all client_entry es'"
proof (induction es arbitrary: c m)
  case Nil
  then show ?case by auto
next
  case (Cons e es)
  let ?pass = "pass_entries (client_timer env) (client_effect env) cbs"
  obtain now c1 where t1: "tm_time (client_timer env) (Some c) = (now, Some c1)" "world_ok env c1 m"
    using Cons.prems(1) world_ok_cong by (fastforce simp: client_timer_time)
  obtain now2 c2 where t2: "tm_time (client_timer env) (Some c1) = (now2, Some c2)" "world_ok env c2 m"
    using t1(2) world_ok_cong by (fastforce simp: client_timer_time)
  obtain c3 where t3: "tm_sendto (client_timer env) (pt_sockFd e) (pt_rawPkt e) (pt_addr e) (Some c2) = Some c3" "world_ok env c3 m"
    using t2(2) world_ok_cong by (fastforce simp: client_timer_def timer_calls_def)
  have e: "client_entry e" "list_all client_entry es" using Cons.prems(2) by simp_all
  obtain c5 m5 where "client_effect env CALLBACK RAW_PROTO_MAX_NUM_RETRANSMIT_EXCEEDED (pt_rawPkt e) (pt_context e) RPT_OWNER_DPSA (Some c1) = Some c5"
    "world_ok env c5 m5"
    using effect_world_ok [OF t1(2), of "pt_rawPkt e"] e(1) unfolding client_entry_def by blast
  then obtain c4 m4 where r: "report (client_effect env) cbs e (Some c1) = Some c4" "world_ok env c4 m4"
    using assms t1(2) e(1) by (cases "cbs ! 2") (auto simp: report_def client_entry_def IS_VALID_RPT_OWNER_def)
  show ?case
    using Cons.IH [OF t1(2) e(2)] Cons.IH [OF t3(2) e(2)] Cons.IH [OF r(2) e(2)] t1(1) t2(1) t3(1) r(1) e(1)
    by (auto simp: client_entry_def)
qed

lemma client_pass:
  assumes "client_inv env s"
  shows "\<exists>s'. raw_pkt_retransmit (client_timer env) s = Some s' \<and> client_inv env s'"
proof -
  obtain c m Q where i: "client_ok env s c m Q" "\<forall>e \<in> set (waiting Q). client_entry e" "ts_rpt_callbacks s ! 2 \<in> {None, Some CALLBACK}"
    using assms by (auto simp: client_inv_def)
  have t: "timer_queries s Q" and w: "ts_world s = Some c" "world_ok env c m" using i(1) by (simp_all add: client_ok_def)
  obtain s' Q' where s': "raw_pkt_retransmit (client_timer env) s = Some s'" "timer_queries s' Q'" "same_globals s s'"
    "pass_entries (client_timer env) (client_effect env) (ts_rpt_callbacks s) (waiting Q) (ts_world s) = (waiting Q', ts_world s')"
    using retransmit_represents [OF client_calls_only t] by blast
  obtain c' m' where "ts_world s' = Some c'" "world_ok env c' m'" "list_all client_entry (waiting Q')"
    using pass_keeps [OF i(3) w(2), of "waiting Q"] i(2) s'(4) w(1) by (auto simp: list_all_iff)
  then have "client_ok env s' c' m' Q'" using i(1) s'(2) by (simp add: client_ok_def)
  moreover have "ts_rpt_callbacks s' ! 2 \<in> {None, Some CALLBACK}" using i(3) s'(3) by (simp add: same_globals_def)
  ultimately show ?thesis using s'(1) \<open>list_all client_entry (waiting Q')\<close> by (auto simp: client_inv_def list_all_iff)
qed

end
