(* ===== verification/Dps_Client_Inv.thy ===== *)
theory Dps_Client_Inv
  imports Dps_Client_Timer
begin

text \<open>
  Every state the client can be brought into is well-formed: no operation
  reaches freed memory or runs on, and the table of servers and the timer
  stay what they are meant to be.
\<close>

section \<open>Single operations\<close>

lemma client_invE:
  assumes "client_inv env s"
  obtains c m Q where "client_ok env s c m Q" and "\<forall>e \<in> set (waiting Q). client_entry e" and "ts_rpt_callbacks s ! 2 \<in> {None, Some CALLBACK}"
  using assms by (auto simp: client_inv_def)

lemma client_inv_world:
  assumes "client_inv env s" and "world_ok env c m"
  shows "client_inv env (s\<lparr>ts_world := Some c\<rparr>)"
proof -
  obtain c0 m0 Q where i: "client_ok env s c0 m0 Q" "\<forall>e \<in> set (waiting Q). client_entry e" "ts_rpt_callbacks s ! 2 \<in> {None, Some CALLBACK}"
    by (rule client_invE [OF assms(1)])
  have "client_ok env (s\<lparr>ts_world := Some c\<rparr>) c m Q" using i(1) assms(2) by (simp add: client_ok_def timer_queries_def represents_world)
  then show ?thesis using i(2,3) by (auto simp: client_inv_def)
qed

lemma client_inv_queries:
  assumes "client_ok env s' c m Q'" and "same_globals s s'" and "ts_rpt_callbacks s ! 2 \<in> {None, Some CALLBACK}"
    and "\<And>i e. e \<in> set (Q' i) \<Longrightarrow> client_entry e"
  shows "client_inv env s'"
proof -
  have "\<forall>e \<in> set (waiting Q'). client_entry e" using assms(4) by (auto simp: waiting_def)
  then show ?thesis using assms(1-3) by (auto simp: client_inv_def same_globals_def)
qed

lemma bucket_entries: "client_ok env s c m Q \<Longrightarrow> \<forall>e \<in> set (waiting Q). client_entry e \<Longrightarrow> e \<in> set (Q i) \<Longrightarrow> client_entry e"
  using waiting_iff [of s Q] by (auto simp: client_ok_def timer_queries_def)

lemma open_socket_ok:
  assumes w: "world_ok env c m" and u: "usable node"
  shows "\<exists>st c' m'. open_socket env node c = Some (st, c') \<and> world_ok env c' m'"
proof -
  obtain fd c1 where c1: "io (ce_socket env (si_ip4_family (cw_svr c))) c = (fd, c1)" by fastforce
  define c2 where "c2 = c1\<lparr>cw_svr := (cw_svr c1)\<lparr>si_sock_fd := fd\<rparr>\<rparr>"
  obtain rc c3 where c3: "io (ce_fcntl env fd) c2 = (rc, c3)" by fastforce
  obtain cs c4 where c4: "io (ce_add_fd env fd) c3 = (cs, c4)" by fastforce
  have w2: "world_ok env (set_inuse False c2) m" "world_ok env c3 m" "world_ok env c4 m" "world_ok env (io_do (ce_close env fd) (set_inuse False c4)) m"
    using w by (rule world_ok_cong, use c1 c3 c4 in \<open>auto simp: c2_def io_def set_inuse_def split: prod.splits\<close>)+
  show ?thesis
    using w2 add_server_ok [OF w2(3) u, of 0] c1 c3 c4 by (auto simp: open_socket_def c2_def [symmetric] Let_def)
qed

lemma server_add_ok:
  assumes w: "world_ok env c m" and u: "usable node"
  shows "\<exists>st c' m'. dps_server_add env node c = Some (st, c') \<and> world_ok env c' m'"
proof (cases "si_inuse (cw_svr c)")
  case True
  have m: "vnid_map (cw_table c) m" using w by (simp add: world_ok_def table_repr_def)
  show ?thesis
  proof (cases "m 0")
    case None
    then show ?thesis using True search_map [OF m, of 0 zero_ip_addr] add_server_ok [OF w u, of 0] by (auto simp: dps_server_add_def)
  next
    case (Some old)
    obtain t where t: "dps_vnid_node_mapping_del_dup_node old (cw_table c) = Some t"
      "vnid_map t (\<lambda>v. if v < 64 \<and> (\<exists>o'. m v = Some o' \<and> same_node o' old) then None else m v)"
      using del_dup_map [OF m] by blast
    let ?c = "c\<lparr>cw_table := t, cw_svr := dps_update_svr_addr_list node (cw_svr c)\<rparr>"
    have "world_ok env ?c (\<lambda>v. if v < 64 \<and> (\<exists>o'. m v = Some o' \<and> same_node o' old) then None else m v)"
      using w by (rule world_ok_table) (use t(2) in \<open>auto simp: ran_def split: if_splits\<close>)
    from add_server_ok [OF this u, of 0] show ?thesis
      using True w search_map [OF m, of 0 zero_ip_addr] Some t(1) by (auto simp: dps_server_add_def)
  qed
next
  case False
  define c1 where "c1 = set_inuse True (c\<lparr>cw_svr := dps_update_svr_addr_list node (cw_svr c)\<rparr>)"
  have w1: "world_ok env c1 m" using w by (rule world_ok_cong) (simp_all add: c1_def set_inuse_def)
  then show ?thesis using False open_socket_ok [OF w1 u] by (auto simp: dps_server_add_def c1_def Let_def)
qed

text \<open>What may be handed to the transport: a packet with a header; with a context, also a query id that has a bucket.\<close>

definition may_xmit :: "'w client_env \<Rightarrow> bytes \<Rightarrow> ip_addr_t \<Rightarrow> nat \<Rightarrow> bool" where
  "may_xmit env buff addr context \<longleftrightarrow> 20 \<le> length buff \<and> (known_family addr \<longrightarrow> wf_ip addr) \<and>
     (context \<noteq> 0 \<longrightarrow> (case dps_get_pkt_hdr buff (ce_uninit_hdr env) of None \<Rightarrow> False | Some (h, _) \<Rightarrow> bucket_of (ch_query_id h) \<noteq> None))"

lemma xmit_ok:
  assumes ok: "client_ok env s c m Q" and may: "may_xmit env buff addr context"
  shows "\<exists>st s' c' Q'. dps_protocol_xmit env buff addr context s = Some (st, s') \<and> client_ok env s' c' m Q' \<and> same_globals s s' \<and>
    (Q' = Q \<or> (\<exists>i e. Q' = Q(i := Q i @ [e]) \<and> pt_rawPkt e = buff \<and> pt_owner e = RPT_OWNER_DPSA))"
proof -
  obtain h n where h: "dps_get_pkt_hdr buff (ce_uninit_hdr env) = Some (h, n)" using may get_pkt_hdr_long unfolding may_xmit_def by blast
  have w: "ts_world s = Some c" using ok by (simp add: client_ok_def)
  have same: "client_ok env (s\<lparr>ts_world := Some (snd (sends_to env c buff ip))\<rparr>) (snd (sends_to env c buff ip)) m Q" for ip
    by (rule client_ok_world [OF ok]) (simp_all add: sends_to_def)
  have g: "same_globals s (s\<lparr>ts_world := w\<rparr>)" for w by (simp add: same_globals_def)
  consider "\<not> si_inuse (cw_svr c)" | "si_inuse (cw_svr c)" "\<not> known_family addr" "m = Map.empty"
    | "si_inuse (cw_svr c)" "if known_family addr then wf_ip addr else m \<noteq> Map.empty"
    using may by (cases "si_inuse (cw_svr c)"; cases "known_family addr"; cases "m = Map.empty") (simp_all add: may_xmit_def)
  then show ?thesis
  proof cases
    case 1
    then show ?thesis using ok w by (intro exI conjI) (auto simp: dps_protocol_xmit_def same_globals_def)
  next
    case 2
    then show ?thesis using ok xmit_no_server [OF _ 2(1) h 2(2)] by (intro exI conjI) (auto simp: same_globals_def)
  next
    case 3
    show ?thesis
    proof (cases "context = 0")
      case True
      then show ?thesis using xmit_plain [OF ok 3(1) h 3(2)] same g by blast
    next
      case False
      obtain i where i: "bucket_of (ch_query_id h) = Some i" using may False h by (auto simp: may_xmit_def)
      show ?thesis
      proof (cases "has_room (client_timer env) s")
        case True
        then show ?thesis
          using xmit_request [OF ok 3(1) h 3(2) False i True] by (fastforce simp: query_entry_def new_timer_node_def)
      next
        case no: False
        then show ?thesis using xmit_no_room [OF ok 3(1) h 3(2) False i no] same g by blast
      qed
    qed
  qed
qed

section \<open>Reachable states\<close>

datatype client_op =
    Add_server ip_addr_t
  | Del_server ip_addr_t
  | New_node u32
  | Xmit bytes ip_addr_t nat
  | Stop_timer u32
  | Next_id
  | Retransmit

definition with_world :: "('w client_world \<Rightarrow> 'w client_world option) \<Rightarrow> 'w client_state \<Rightarrow> 'w client_state option" where
  "with_world f s = do { c \<leftarrow> ts_world s; c \<leftarrow> f c; Some (s\<lparr>ts_world := Some c\<rparr>) }"

definition client_do :: "'w client_env \<Rightarrow> client_op \<Rightarrow> 'w client_state \<Rightarrow> 'w client_state option" where
  "client_do env x s = (case x of
     Add_server node \<Rightarrow> with_world (\<lambda>c. map_option snd (dps_server_add env node c)) s
   | Del_server node \<Rightarrow> with_world (dps_server_del node) s
   | New_node v \<Rightarrow> with_world (dps_req_new_dps_node env v) s
   | Xmit buff addr context \<Rightarrow> map_option snd (dps_protocol_xmit env buff addr context s)
   | Stop_timer q \<Rightarrow> map_option (snd \<circ> snd) (raw_proto_timer_stop q True True s)
   | Next_id \<Rightarrow> Some (snd (raw_proto_query_id_generate s))
   | Retransmit \<Rightarrow> raw_pkt_retransmit (client_timer env) s)"

definition may_do :: "'w client_env \<Rightarrow> client_op \<Rightarrow> bool" where
  "may_do env x \<longleftrightarrow> (case x of
     Add_server node \<Rightarrow> usable node
   | Xmit buff addr context \<Rightarrow> may_xmit env buff addr context
   | Stop_timer q \<Rightarrow> bucket_of q \<noteq> None
   | _ \<Rightarrow> True)"

lemma with_world_inv:
  assumes "client_inv env s" and "\<And>c m. world_ok env c m \<Longrightarrow> \<exists>c' m'. f c = Some c' \<and> world_ok env c' m'"
  shows "\<exists>s'. with_world f s = Some s' \<and> client_inv env s'"
proof -
  obtain c m where c: "ts_world s = Some c" "world_ok env c m" using assms(1) by (auto simp: client_inv_def client_ok_def)
  then obtain c' m' where "f c = Some c'" "world_ok env c' m'" using assms(2) by blast
  then show ?thesis using c(1) client_inv_world [OF assms(1)] by (auto simp: with_world_def)
qed

lemma client_do_inv:
  assumes inv: "client_inv env s" and may: "may_do env x"
  shows "\<exists>s'. client_do env x s = Some s' \<and> client_inv env s'"
proof -
  obtain c m Q where i: "client_ok env s c m Q" "\<forall>e \<in> set (waiting Q). client_entry e" "ts_rpt_callbacks s ! 2 \<in> {None, Some CALLBACK}"
    by (rule client_invE [OF inv])
  show ?thesis
  proof (cases x)
    case (Add_server node)
    then show ?thesis using with_world_inv [OF inv, of "\<lambda>c. map_option snd (dps_server_add env node c)"] server_add_ok [of env _ _ node] may
      by (fastforce simp: client_do_def may_do_def)
  next
    case (Del_server node)
    have "\<exists>s'. with_world (dps_server_del node) s = Some s' \<and> client_inv env s'"
      by (rule with_world_inv [OF inv]) (drule server_del_purges [where node = node], blast)
    then show ?thesis using Del_server by (simp add: client_do_def)
  next
    case (New_node v)
    have "\<exists>s'. with_world (dps_req_new_dps_node env v) s = Some s' \<and> client_inv env s'"
      by (rule with_world_inv [OF inv]) (drule new_node_forgets [where v = v], blast)
    then show ?thesis using New_node by (simp add: client_do_def)
  next
    case (Xmit buff addr ctx)
    then have mx: "may_xmit env buff addr ctx" using may by (simp add: may_do_def)
    then obtain st s' c' Q' where s': "dps_protocol_xmit env buff addr ctx s = Some (st, s')" "client_ok env s' c' m Q'" "same_globals s s'"
      "Q' = Q \<or> (\<exists>i e. Q' = Q(i := Q i @ [e]) \<and> pt_rawPkt e = buff \<and> pt_owner e = RPT_OWNER_DPSA)"
      using xmit_ok [OF i(1)] by blast
    have "client_entry e" if "e \<in> set (Q' j)" for e j
      using s'(4) that bucket_entries [OF i(1,2)] mx by (auto simp: client_entry_def may_xmit_def split: if_splits)
    then show ?thesis using client_inv_queries [OF s'(2,3) i(3)] s'(1) Xmit by (auto simp: client_do_def)
  next
    case (Stop_timer q)
    show ?thesis
    proof (cases "q = 0")
      case True
      then show ?thesis using Stop_timer inv by (auto simp: client_do_def raw_proto_timer_stop_def)
    next
      case False
      obtain j where j: "bucket_of q = Some j" using may Stop_timer by (auto simp: may_do_def)
      have t: "timer_queries s Q" using i(1) by (simp add: client_ok_def)
      obtain s' cx where s': "stop_query q s = Some (cx, s')" "same_globals s s'" "ts_world s' = ts_world s"
        "timer_queries s' (Q(j := drop_first (\<lambda>e. pt_pktId e = q) (Q j)))"
        using stop_queries [OF t False j] by blast
      have "client_ok env s' c m (Q(j := drop_first (\<lambda>e. pt_pktId e = q) (Q j)))" using i(1) s'(3,4) by (simp add: client_ok_def)
      then have "client_inv env s'"
        by (rule client_inv_queries [OF _ s'(2) i(3)])
          (use bucket_entries [OF i(1,2)] drop_first_subset [of "\<lambda>e. pt_pktId e = q" "Q j"] in \<open>auto split: if_splits\<close>)
      moreover have "\<exists>rc. raw_proto_timer_stop q True True s = Some (rc, Some cx, s')" using s'(1) by (auto simp: stop_query_def split: bind_splits)
      ultimately show ?thesis using Stop_timer by (auto simp: client_do_def)
    qed
  next
    case Next_id
    then show ?thesis using client_ok_query_id [OF i(1)] i(2,3)
      by (fastforce simp: client_do_def client_inv_def raw_proto_query_id_generate_def Let_def)
  next
    case Retransmit
    then show ?thesis using client_pass [OF inv] by (simp add: client_do_def)
  qed
qed

definition client_boot :: "'w client_world \<Rightarrow> 'w client_state" where
  "client_boot c = timer_boot (Some c)"

text \<open>A program starts the client, uses it, and other things happen in between.\<close>

inductive client_reaches :: "'w client_env \<Rightarrow> 'w client_state \<Rightarrow> bool" for env :: "'w client_env" where
  init: "vt_heap (cw_table c) = Map.empty \<Longrightarrow> length (cw_stats c) = unat DPS_MAX_MSG_TYPE \<Longrightarrow>
    dps_client_init env sem_ok (client_boot c) = Some (r, s) \<Longrightarrow> client_reaches env s"
| op: "client_reaches env s \<Longrightarrow> may_do env x \<Longrightarrow> client_do env x s = Some s' \<Longrightarrow> client_reaches env s'"
| elsewhere: "client_reaches env s \<Longrightarrow> ts_world s = Some c \<Longrightarrow> client_reaches env (s\<lparr>ts_world := Some (c\<lparr>cw_outer := w\<rparr>)\<rparr>)"

definition client_env_ok :: "'w client_env \<Rightarrow> bool" where
  "client_env_ok env \<longleftrightarrow> fresh_alloc (client_timer env) \<and> fresh_entries (ce_alloc_entry env) \<and> length (ce_uninit_storage env) = SIZEOF_STORAGE"

lemma client_init_inv:
  assumes e: "client_env_ok env" and c: "vt_heap (cw_table c) = Map.empty" "length (cw_stats c) = unat DPS_MAX_MSG_TYPE"
    and s: "dps_client_init env sem_ok (client_boot c) = Some (r, s)"
  shows "client_inv env s"
proof -
  let ?c = "c\<lparr>cw_table := snd (dps_vnid_node_mapping_table_init sem_ok (cw_table c))\<rparr>"
  have w: "world_ok env ?c Map.empty" using e c init_map [OF c(1)] by (simp add: world_ok_def table_repr_def client_env_ok_def)
  have b: "client_timer env = timer_calls env (client_callback env)" "IS_VALID_RPT_OWNER RPT_OWNER_DPSA"
    by (simp_all add: client_timer_def IS_VALID_RPT_OWNER_def)
  have s: "ts_heap s = Map.empty" "ts_gHashTab s = replicate MAX_HASH_BUCKET None" "ts_world s = Some ?c"
    "length (ts_rpt_callbacks s) = 5" "ts_rpt_callbacks s ! 2 \<in> {None, Some CALLBACK}"
    using s b(2) by (cases "ce_mutex_ok env"; auto simp: b(1) timer_calls_def dps_client_init_def raw_proto_timer_init_def client_boot_def timer_boot_def
      on_client_def Let_def split: if_splits)+
  have "timer_queries s (\<lambda>_. [])" using s(1,2,4) by (rule timer_queries_empty)
  then have "client_ok env s ?c Map.empty (\<lambda>_. [])" using w e s(3) by (simp add: client_ok_def client_env_ok_def)
  moreover have "waiting (\<lambda>_. []) = []" by (auto simp: waiting_def)
  ultimately show ?thesis using s(5) by (fastforce simp: client_inv_def)
qed

lemma client_reaches_inv:
  assumes e: "client_env_ok env"
  shows "client_reaches env s \<Longrightarrow> client_inv env s"
proof (induction rule: client_reaches.induct)
  case (init c sem_ok r s)
  then show ?case by (intro client_init_inv [OF e])
next
  case (op s x s')
  then show ?case using client_do_inv [OF op.IH op.hyps(2)] by simp
next
  case (elsewhere s c w)
  then obtain m where "world_ok env c m" by (auto simp: client_inv_def client_ok_def)
  then have "world_ok env (c\<lparr>cw_outer := w\<rparr>) m" by (rule world_ok_cong) simp_all
  then show ?case by (rule client_inv_world [OF elsewhere.IH])
qed

end
