(* ===== verification/Raw_Proto_Conduct.thy ===== *)
theory Raw_Proto_Conduct
  imports Raw_Proto_Time
begin

text \<open>
  The properties of the retransmission timer, with instances: the table stays
  well-formed, it behaves as a set of queues, a query that is not answered is
  sent again on schedule and then reported, one that is answered is not; and
  the inputs for which the code goes wrong.
\<close>

section \<open>Sample states\<close>

definition timer_ready :: "'w \<Rightarrow> 'w timer_state" where
  "timer_ready w = (timer_boot w)\<lparr>ts_rpt_callbacks := [None, None, Some 7, None, None], ts_init_done := True\<rparr>"

definition sample_clock :: recorder where
  "sample_clock = \<lparr>rc_clock = 100, rc_log = []\<rparr>"

definition sample_query :: "nat \<Rightarrow> raw_packet_t" where
  "sample_query c = \<lparr>rp_data = [1, 2, 3, of_nat c], rp_pktId = 0, rp_len = 4, rp_retransmitInterval = 4, rp_maxNumRetransmit = 3,
     rp_context = c, rp_owner = RPT_OWNER_DPSA, rp_sockFd = 5, rp_addr = replicate 16 0\<rparr>"

lemma timer_ready_queries: "timer_queries (timer_ready w) (\<lambda>_. [])"
  by (rule timer_queries_empty) (simp_all add: timer_ready_def timer_boot_def)

lemma timer_ready_repr: "timer_repr (recording n) (timer_ready w) (\<lambda>_. [])"
  by (rule timer_repr_queries [OF timer_ready_queries]) (simp_all add: contexts_def pending_def fun_eq_iff split: option.split)

lemma sample_query_valid: "valid_query (sample_query c)"
  by (simp add: valid_query_def sample_query_def IS_VALID_RPT_OWNER_def)

lemma sample_query_simps [simp]:
  "rp_context (sample_query c) = c" "rp_owner (sample_query c) = RPT_OWNER_DPSA" "rp_maxNumRetransmit (sample_query c) = 3"
  "rp_sockFd (sample_query c) = 5" "take (rp_len (sample_query c)) (rp_data (sample_query c)) = [1, 2, 3, of_nat c]"
  "take SIZEOF_SOCKADDR (rp_addr (sample_query c)) = replicate 16 0"
  by (simp_all add: sample_query_def)

lemma bucket_of_small: "0 \<le> sint k \<Longrightarrow> bucket_of k = Some (nat (sint k mod 1000))"
  by (simp add: bucket_of_def hash_def)

lemma sample_ids: "valid_id 1" "valid_id 1001" "bucket_of 1 = Some 1" "bucket_of 1001 = Some 1"
  by (simp_all add: valid_id_def bucket_of_small)

section \<open>The table\<close>



text \<open>
  C13.  Any sequence of starts and stops does what it would do to a queue of
  contexts per query id: a start appends unless memory is exhausted, a stop
  hands back the oldest context of its id, or none.
\<close>

theorem timer_refines_queues:
  assumes "timer_repr env s P" and "\<forall>x \<in> set ops. valid_id (op_key x) \<and> op_query_ok valid_query x"
  shows "\<exists>outs s' P'. run_store (start_query env) stop_query ops s = Some (outs, s') \<and>
    accepts query_context ops outs P = Some P' \<and> timer_repr env s' P'"
  using assms by (rule timer_store.run_accepted)

theorem timer_refines_queues_witness:
  "\<exists>outs s' P'. run_store (start_query (recording 8)) stop_query
      [Start 1 (sample_query 21), Start 1001 (sample_query 22), Stop 1, Stop 1001, Stop 1001] (timer_ready sample_clock) = Some (outs, s') \<and>
    accepts query_context [Start 1 (sample_query 21), Start 1001 (sample_query 22), Stop 1, Stop 1001, Stop 1001] outs (\<lambda>_. []) = Some P' \<and>
    timer_repr (recording 8) s' P'"
  using timer_refines_queues [OF timer_ready_repr, of "[Start 1 (sample_query 21), Start 1001 (sample_query 22), Stop 1, Stop 1001, Stop 1001]"]
    sample_ids sample_query_valid by simp

text \<open>
  C23.  A query is matched with its answer once: whatever is started and
  stopped under other ids meanwhile, the first stop returns its context and
  owner, and a second stop returns none.
\<close>

theorem query_answered_once:
  assumes "timer_repr env s P" and "valid_id k" and "valid_query q" and "P k = []" and "start_query env k q s = Some (0, s1)"
    and "\<forall>x \<in> set ops. valid_id (op_key x) \<and> op_query_ok valid_query x \<and> op_key x \<noteq> k"
  shows "\<exists>outs s2 s3 s4. run_store (start_query env) stop_query ops s1 = Some (outs, s2) \<and>
    stop_query k s2 = Some ((rp_context q, rp_owner q), s3) \<and> stop_query k s3 = Some ((0, RPT_OWNER_FIRST), s4)"
  using timer_store.answered_once [OF assms] by (simp add: query_context_def)

lemma sample_start:
  "\<exists>s1. start_query (recording 8) 1 (sample_query 21) (timer_ready sample_clock) = Some (0, s1)"
  using start_queries [OF timer_ready_queries [of sample_clock] recording_fresh [of 8] sample_ids(3) sample_query_valid [of 21]]
  by (auto simp: has_room_def recording_def timer_ready_def timer_boot_def upt_rec split: if_splits)

theorem query_answered_once_witness:
  "\<exists>s1 outs s2 s3 s4. start_query (recording 8) 1 (sample_query 21) (timer_ready sample_clock) = Some (0, s1) \<and>
    run_store (start_query (recording 8)) stop_query [Start 1001 (sample_query 22), Stop 1001] s1 = Some (outs, s2) \<and>
    stop_query 1 s2 = Some ((21, RPT_OWNER_DPSA), s3) \<and> stop_query 1 s3 = Some ((0, RPT_OWNER_FIRST), s4)"
proof -
  obtain s1 where s1: "start_query (recording 8) 1 (sample_query 21) (timer_ready sample_clock) = Some (0, s1)" using sample_start by blast
  show ?thesis
    using s1 query_answered_once [OF timer_ready_repr sample_ids(1) sample_query_valid _ s1, of "[Start 1001 (sample_query 22), Stop 1001]"]
      sample_ids sample_query_valid by (simp del: run_store.simps)
qed

section \<open>The schedule\<close>



text \<open>
  C7.  A query that is never answered is sent again exactly as often as it
  asks for, the \<open>j\<close>th time \<open>2 ^ j - 1 + j\<close> seconds after it
  was started, and one interval later its owner is told once, with its packet
  and its context; then it is gone.  Other queries do not change this.
\<close>

theorem query_retried_then_reported:
  assumes "timer_queries s Q" and "bucket_of k = Some i" and "valid_query p" and "rp_maxNumRetransmit p = int m"
    and "pkt = take (rp_len p) (rp_data p)" and "holding pkt (waiting Q) = []" and "ts_rpt_callbacks s ! nat (rp_owner p) = Some f"
    and "start_query (recording nodes) k p s = Some (0, s1)" and "retry_time (Suc m) \<le> int n" and "t = rc_clock (ts_world s)"
  shows "\<exists>s' Q'. raw_pkt_retransmision_thread_entry (recording nodes) n (False, s1) = Some (False, s') \<and>
    of_packet pkt (rc_log (ts_world s')) = of_packet pkt (rc_log (ts_world s)) @
      map (\<lambda>j. Sent (t + retry_time j) (rp_sockFd p) pkt (take SIZEOF_SOCKADDR (rp_addr p))) [1..<Suc m] @
      [Reported (t + retry_time (Suc m)) f RAW_PROTO_MAX_NUM_RETRANSMIT_EXCEEDED pkt (rp_context p) (rp_owner p)] \<and>
    timer_queries s' Q' \<and> holding pkt (waiting Q') = []"
proof -
  have now: "tm_time (recording nodes) (ts_world s) = (t, ts_world s)" by (simp add: recording_def assms(10))
  let ?e = "query_entry k p t"
  have s1: "timer_queries s1 (Q(i := Q i @ [?e]))" "same_globals s s1" "ts_world s1 = ts_world s"
    using start_queries [OF assms(1) recording_fresh assms(2,3), of nodes] assms(8) now by (auto split: if_splits)
  have e: "pt_rawPkt ?e = pkt" "pt_owner ?e = rp_owner p" "pt_context ?e = rp_context p"
    by (simp_all add: query_entry_def new_timer_node_def assms(5))
  have hold: "holding pkt (waiting (Q(i := Q i @ [?e]))) = [?e]"
    by (rule holding_add [OF assms(6) bucket_of_less [OF assms(2)] e(1)])
  have "report_events (ts_rpt_callbacks s1) u ?e = [Reported u f RAW_PROTO_MAX_NUM_RETRANSMIT_EXCEEDED pkt (rp_context p) (rp_owner p)]" for u
    using s1(2) assms(3,7) e by (simp add: report_events_def same_globals_def valid_query_def)
  then have line: "timeline (ts_rpt_callbacks s1) (rc_clock (ts_world s1)) (length [0..<n]) (holding pkt (waiting (Q(i := Q i @ [?e])))) =
      (map (\<lambda>j. Sent (t + retry_time j) (rp_sockFd p) pkt (take SIZEOF_SOCKADDR (rp_addr p))) [1..<Suc m] @
       [Reported (t + retry_time (Suc m)) f RAW_PROTO_MAX_NUM_RETRANSMIT_EXCEEDED pkt (rp_context p) (rp_owner p)], [])"
    using started_timeline [OF assms(4,9), of "ts_rpt_callbacks s1" t k] by (simp add: hold s1(3) assms(5,10) [symmetric])
  obtain s' Q' where s': "for_each (\<lambda>_. thread_turn (recording nodes)) [0..<n] (False, s1) = Some (False, s')" "timer_queries s' Q'"
    "\<forall>pkt. case timeline (ts_rpt_callbacks s1) (rc_clock (ts_world s1)) (length [0..<n]) (holding pkt (waiting (Q(i := Q i @ [?e])))) of (vs, es) \<Rightarrow>
       holding pkt (waiting Q') = es \<and> of_packet pkt (rc_log (ts_world s')) = of_packet pkt (rc_log (ts_world s1)) @ vs"
    using thread_turns [OF s1(1), of nodes "[0..<n]"] by blast
  show ?thesis using s'(1,2) spec [OF s'(3), of pkt] unfolding line raw_pkt_retransmision_thread_entry_def by (auto simp: s1(3))
qed

lemma sample_waiting: "holding pkt (waiting (\<lambda>_. [])) = []"
  by (simp add: holding_empty)

theorem query_retried_then_reported_witness:
  "\<exists>s1 s' Q'. start_query (recording 8) 1 (sample_query 21) (timer_ready sample_clock) = Some (0, s1) \<and>
    raw_pkt_retransmision_thread_entry (recording 8) 19 (False, s1) = Some (False, s') \<and>
    of_packet [1, 2, 3, 21] (rc_log (ts_world s')) = [Sent 102 5 [1, 2, 3, 21] (replicate 16 0), Sent 105 5 [1, 2, 3, 21] (replicate 16 0),
      Sent 110 5 [1, 2, 3, 21] (replicate 16 0), Reported 119 7 RAW_PROTO_MAX_NUM_RETRANSMIT_EXCEEDED [1, 2, 3, 21] 21 RPT_OWNER_DPSA] \<and>
    timer_queries s' Q'"
proof -
  obtain s1 where s1: "start_query (recording 8) 1 (sample_query 21) (timer_ready sample_clock) = Some (0, s1)" using sample_start by blast
  have "ts_rpt_callbacks (timer_ready sample_clock) ! nat (rp_owner (sample_query 21)) = Some 7" by (simp add: timer_ready_def)
  from query_retried_then_reported [OF timer_ready_queries sample_ids(3) sample_query_valid _ refl sample_waiting this s1, of 3 19 100]
  show ?thesis using s1 by (fastforce simp: timer_ready_def timer_boot_def sample_clock_def retry_time_def of_packet_def upt_rec)
qed

lemma thread_silent:
  assumes "timer_queries s Q" and "holding pkt (waiting Q) = []"
  shows "\<exists>s'. raw_pkt_retransmision_thread_entry (recording nodes) n (False, s) = Some (False, s') \<and>
    of_packet pkt (rc_log (ts_world s')) = of_packet pkt (rc_log (ts_world s))"
proof -
  obtain s' Q' where s': "for_each (\<lambda>_. thread_turn (recording nodes)) [0..<n] (False, s) = Some (False, s')"
    "\<forall>pkt. case timeline (ts_rpt_callbacks s) (rc_clock (ts_world s)) (length [0..<n]) (holding pkt (waiting Q)) of (vs, es) \<Rightarrow>
       holding pkt (waiting Q') = es \<and> of_packet pkt (rc_log (ts_world s')) = of_packet pkt (rc_log (ts_world s)) @ vs"
    using thread_turns [OF assms(1), of nodes "[0..<n]"] by blast
  show ?thesis using s'(1) spec [OF s'(2), of pkt] by (simp add: raw_pkt_retransmision_thread_entry_def assms(2))
qed

text \<open>
  C25.  Once a query has been answered, its packet is not sent again and
  its owner is not told that it failed, however long the thread runs.
\<close>

theorem answered_query_silent:
  assumes "timer_queries s Q" and "pending Q k = [e]" and "holding (pt_rawPkt e) (waiting Q) = [e]" and "k \<noteq> 0"
  shows "\<exists>s1 s'. stop_query k s = Some ((pt_context e, pt_owner e), s1) \<and>
    raw_pkt_retransmision_thread_entry (recording nodes) n (False, s1) = Some (False, s') \<and>
    of_packet (pt_rawPkt e) (rc_log (ts_world s')) = of_packet (pt_rawPkt e) (rc_log (ts_world s))"
proof -
  let ?Q = "\<lambda>i. Q(i := drop_first (\<lambda>e. pt_pktId e = k) (Q i))"
  obtain i where i: "bucket_of k = Some i" "filter (\<lambda>e. pt_pktId e = k) (Q i) = [e]"
    using assms(2) by (auto simp: pending_def split: option.splits)
  obtain s1 where s1: "stop_query k s = Some (context_of [e], s1)" "timer_queries s1 (?Q i)" "ts_world s1 = ts_world s"
    using stop_queries [OF assms(1,4) i(1)] assms(2) by auto
  have "pt_rawPkt x \<noteq> pt_rawPkt e" if x: "j < MAX_HASH_BUCKET" "x \<in> set (?Q i j)" for x j
  proof
    assume "pt_rawPkt x = pt_rawPkt e"
    moreover have xQ: "x \<in> set (Q j)" using x(2) drop_first_subset [of _ "Q i"] by (auto split: if_splits)
    ultimately have "x \<in> set (holding (pt_rawPkt e) (waiting Q))" using x(1) by (auto simp: holding_def waiting_def)
    then have e: "x = e" "pt_pktId e = k" using assms(3) i(2) by (auto simp: filter_eq_Cons_iff)
    then have "j = i" using represents_bucket [of s Q e j] xQ assms(1) i(1) by (simp add: timer_queries_def)
    then have "e \<in> set (filter (\<lambda>e. pt_pktId e = k) (drop_first (\<lambda>e. pt_pktId e = k) (Q i)))" using x(2) e by simp
    then show False unfolding filter_drop_first(1) i(2) by simp
  qed
  then have "holding (pt_rawPkt e) (waiting (?Q i)) = []" unfolding holding_empty by blast
  then show ?thesis using s1 thread_silent [OF s1(2)] by (auto simp: context_of_def)
qed

theorem answered_query_silent_witness:
  "\<exists>s0 s1 s'. start_query (recording 8) 1 (sample_query 21) (timer_ready sample_clock) = Some (0, s0) \<and>
    stop_query 1 s0 = Some ((21, RPT_OWNER_DPSA), s1) \<and>
    raw_pkt_retransmision_thread_entry (recording 8) 60 (False, s1) = Some (False, s') \<and> of_packet [1, 2, 3, 21] (rc_log (ts_world s')) = []"
proof -
  let ?e = "query_entry 1 (sample_query 21) 100"
  obtain s0 where s0: "start_query (recording 8) 1 (sample_query 21) (timer_ready sample_clock) = Some (0, s0)"
    "timer_queries s0 ((\<lambda>_. [])(1 := [?e]))" "ts_world s0 = sample_clock"
    using start_queries [OF timer_ready_queries [of sample_clock] recording_fresh [of 8] sample_ids(3) sample_query_valid [of 21]] sample_start
    by (auto simp: recording_def timer_ready_def timer_boot_def sample_clock_def split: if_splits)
  have e: "pt_rawPkt ?e = [1, 2, 3, 21]" "pt_pktId ?e = 1" "pt_context ?e = 21" "pt_owner ?e = 2"
    by (simp_all add: query_entry_def new_timer_node_def)
  have h: "holding (pt_rawPkt ?e) (waiting ((\<lambda>_. [])(1 := [?e]))) = [?e]"
    using holding_add [OF sample_waiting, of 1 ?e] by simp
  have "pending ((\<lambda>_. [])(1 := [?e])) 1 = [?e]" using e by (simp add: pending_def sample_ids)
  from answered_query_silent [OF s0(2) this h, of 8 60] show ?thesis using s0 e by (fastforce simp: sample_clock_def of_packet_def)
qed

section \<open>Query ids\<close>

fun query_ids :: "nat \<Rightarrow> 'w timer_state \<Rightarrow> u32 list" where
  "query_ids 0 s = []"
| "query_ids (Suc n) s = (case raw_proto_query_id_generate s of (k, s) \<Rightarrow> k # query_ids n s)"

lemma query_id_next:
  assumes "raw_proto_query_id_generate s = (k, s')"
  shows "unat k = unat (ts_queryId s) mod 4294967295 + 1 \<and> ts_queryId s' = k"
proof (cases "ts_queryId s = 0xFFFFFFFF")
  case True
  then show ?thesis using assms by (auto simp: raw_proto_query_id_generate_def)
next
  case False
  have "unat (ts_queryId s) \<noteq> 4294967295" using False word_unat_eq_iff [of "ts_queryId s" "0xFFFFFFFF"] by simp
  then have u: "unat (ts_queryId s) < 4294967295" using unsigned_less [where 'a = nat, of "ts_queryId s"] by simp
  then have "unat (ts_queryId s + 1) = unat (ts_queryId s) + 1" by (simp add: unat_word_ariths)
  then show ?thesis using assms u False by (auto simp: raw_proto_query_id_generate_def Let_def)
qed

lemma query_ids_nth:
  "j < n \<Longrightarrow> unat (query_ids n s ! j) = (unat (ts_queryId s) + j) mod 4294967295 + 1"
proof (induction n arbitrary: s j)
  case (Suc n)
  obtain k s' where k: "raw_proto_query_id_generate s = (k, s')" by fastforce
  note q = query_id_next [OF k]
  show ?case
  proof (cases j)
    case 0
    then show ?thesis using k q by simp
  next
    case (Suc i)
    then have "unat (query_ids (Suc n) s ! j) = (unat (ts_queryId s) mod 4294967295 + 1 + i) mod 4294967295 + 1"
      using Suc.IH [of i s'] Suc.prems k q by simp
    moreover have "(unat (ts_queryId s) mod 4294967295 + 1 + i) mod 4294967295 = (unat (ts_queryId s) + j) mod 4294967295"
      unfolding Suc add.assoc mod_add_left_eq by simp
    ultimately show ?thesis by simp
  qed
qed simp

lemma query_ids_length [simp]: "length (query_ids n s) = n"
  by (induction n arbitrary: s) (auto split: prod.split)

lemma add_mod_inj:
  assumes "(q + i) mod m = (q + j) mod (m::nat)" and "i < m" and "j < m"
  shows "i = j"
  using assms
proof (induction i j rule: linorder_wlog)
  case (le i j)
  then have "m dvd j - i" using mod_eq_dvd_iff_nat [of "q + i" "q + j" m] by simp
  then show ?case using le by (cases "j - i = 0") (auto dest: dvd_imp_le)
next
  case (sym i j)
  then show ?case by simp
qed

text \<open>
  C28.  The ids of \<open>2 ^ 32 - 1\<close> consecutive queries are different and
  none is 0, which the timer does not accept, also where the counter wraps.
\<close>

theorem query_ids_distinct:
  assumes "n < 2 ^ 32"
  shows "distinct (query_ids n s) \<and> 0 \<notin> set (query_ids n s)"
proof -
  have "i = j" if "i < n" "j < n" "query_ids n s ! i = query_ids n s ! j" for i j
    using add_mod_inj [of "unat (ts_queryId s)" i 4294967295 j] query_ids_nth [of i n s] query_ids_nth [of j n s] that assms by simp
  then have "distinct (query_ids n s)" by (auto simp: distinct_conv_nth)
  moreover have "unat k \<noteq> 0" if "k \<in> set (query_ids n s)" for k
    using that query_ids_nth [of _ n s] by (auto simp: in_set_conv_nth)
  ultimately show ?thesis using unat_0 by metis
qed

theorem query_ids_distinct_witness:
  "query_ids 3 ((timer_ready sample_clock)\<lparr>ts_queryId := 0xFFFFFFFE\<rparr>) = [0xFFFFFFFF, 1, 2] \<and>
   distinct (query_ids 3 ((timer_ready sample_clock)\<lparr>ts_queryId := 0xFFFFFFFE\<rparr>))"
  using query_ids_distinct [of 3 "(timer_ready sample_clock)\<lparr>ts_queryId := 0xFFFFFFFE\<rparr>"]
  by (simp add: numeral_3_eq_3 raw_proto_query_id_generate_def)

section \<open>Where the code goes wrong\<close>



text \<open>
  The generated ids are unsigned, the table takes them as signed:
  after \<open>2 ^ 31 - 1\<close> queries the next id has a negative bucket, and
  starting its timer writes outside the table.
\<close>

theorem query_id_outside_table:
  assumes "ts_queryId s = 0x7FFFFFFF" and "valid_query p" and "raw_proto_query_id_generate s = (k, s1)" and "has_room env s1"
  shows "hash k < 0 \<and> start_query env k p s1 = None"
proof -
  have k: "k = 0x80000000" using assms(1,3) by (auto simp: raw_proto_query_id_generate_def Let_def)
  have "sint (0x80000000 :: u32) = - 2147483648" by simp
  then have "hash k = - 648" by (simp add: k hash_def)
  then show ?thesis using assms(2,4) by (auto simp: start_query_eq has_room_def insert_raw_pkt_def bucket_of_def time_now_eq)
qed

theorem query_id_outside_table_witness:
  "hash 0x80000000 < 0 \<and> start_query (recording 8) 0x80000000 (sample_query 21) ((timer_ready sample_clock)\<lparr>ts_queryId := 0x80000000\<rparr>) = None"
  using query_id_outside_table [of "(timer_ready sample_clock)\<lparr>ts_queryId := 0x7FFFFFFF\<rparr>" "sample_query 21" "0x80000000"
      "(timer_ready sample_clock)\<lparr>ts_queryId := 0x80000000\<rparr>" "recording 8"] sample_query_valid
  by (simp add: raw_proto_query_id_generate_def has_room_def recording_def timer_ready_def timer_boot_def upt_rec)

text \<open>
  While a callback runs the mutex is released.  Here the callback of a query
  stops the next query of the same bucket, as the arrival of its answer does.
\<close>

definition stopping_env :: "recorder timer_env" where
  "stopping_env = (recording 8)\<lparr>tm_call := \<lambda>f status pkt context owner s. map_option (snd \<circ> snd) (raw_proto_timer_stop 1001 True True s)\<rparr>"

definition first_query :: raw_proto_pkt_timer_t where
  "first_query = (query_entry 1 ((sample_query 21)\<lparr>rp_maxNumRetransmit := 0\<rparr>) 100)\<lparr>pt_next := Some 1\<rparr>"

definition second_query :: raw_proto_pkt_timer_t where
  "second_query = query_entry 1001 (sample_query 22) 100"

definition two_queries :: "recorder timer_state" where
  "two_queries = (timer_ready \<lparr>rc_clock = 102, rc_log = []\<rparr>)\<lparr>ts_heap := [0 \<mapsto> first_query, 1 \<mapsto> second_query],
     ts_gHashTab := (replicate MAX_HASH_BUCKET None)[1 := Some 0]\<rparr>"

lemma sample_entries [simp]:
  "pt_pktId first_query = 1" "pt_next first_query = Some 1" "pt_transmitCount first_query = 1" "pt_maxNumRetransmit first_query = 0"
  "pt_lastSentTime first_query = 100" "pt_owner first_query = RPT_OWNER_DPSA" "pt_rawPkt first_query = [1, 2, 3, 21]" "pt_context first_query = 21"
  "pt_pktId second_query = 1001" "pt_next second_query = None" "pt_transmitCount second_query = 1" "pt_maxNumRetransmit second_query = 3"
  by (simp_all add: first_query_def second_query_def query_entry_def new_timer_node_def)

lemma two_queries_simps [simp]:
  "ts_heap two_queries = [0 \<mapsto> first_query, 1 \<mapsto> second_query]" "ts_gHashTab two_queries = (replicate MAX_HASH_BUCKET None)[1 := Some 0]"
  "ts_rpt_callbacks two_queries = [None, None, Some 7, None, None]" "rc_clock (ts_world two_queries) = 102"
  by (simp_all add: two_queries_def timer_ready_def timer_boot_def)

lemma two_queries_table: "table two_queries ((\<lambda>_. [])(1 := [0, 1])) {}"
  by (auto simp: table_def sample_ids nth_list_update)

lemma two_queries_entries: "timer_queries two_queries ((\<lambda>_. [])(1 := [first_query\<lparr>pt_next := None\<rparr>, second_query]))"
proof -
  have "entry_at two_queries 0 = first_query\<lparr>pt_next := None\<rparr>" "entry_at two_queries 1 = second_query"
    by (simp_all add: entry_at_def second_query_def query_entry_def new_timer_node_def)
  then have "(\<lambda>i. map (entry_at two_queries) (((\<lambda>_. [])(1 := [0, 1])) i)) = (\<lambda>_. [])(1 := [first_query\<lparr>pt_next := None\<rparr>, second_query])"
    by (simp add: fun_eq_iff)
  then have r: "represents two_queries ((\<lambda>_. [])(1 := [first_query\<lparr>pt_next := None\<rparr>, second_query]))"
    using two_queries_table unfolding represents_def by metis
  then show ?thesis using waiting_iff [OF r] by (auto simp: timer_queries_def ok_entry_def split: if_splits)
qed

lemma first_given_up:
  "\<exists>p h s. retransmit_step stopping_env 1 (Some 0, Some 0, Some 0, two_queries) = Some (Some 1, p, h, s) \<and> ts_heap s 1 = None"
  by (simp add: retransmit_step_def calculate_retry_interval_eq retry_gap_def time_now_eq stopping_env_def recording_def give_up_def
      set_next_def store_node_def set_bucket_def call_owner_def IS_VALID_RPT_OWNER_def raw_proto_timer_stop_def delete_raw_pkt_def
      sample_ids get_bucket_def free_node_def)

lemma pass_after_free: "retransmit_bucket stopping_env 1 two_queries = None"
proof -
  obtain p h s where s: "retransmit_step stopping_env 1 (Some 0, Some 0, Some 0, two_queries) = Some (Some 1, p, h, s)" "ts_heap s 1 = None"
    using first_given_up by blast
  have "retransmit_step stopping_env 1 (Some 1, p, h, s) = None" using s(2) by (simp add: retransmit_step_def)
  then have "pass_loop stopping_env 1 (Some 1, p, h, s) = None" unfolding pass_loop_def by (intro while_opt_fault) simp_all
  then show ?thesis using pass_loop_step [OF s(1)] by (simp add: retransmit_bucket_def pass_loop_def get_bucket_def)
qed

text \<open>
  The table is well-formed and the callback leaves it well-formed, but
  the pass goes on with the node it saved before it released the mutex, which
  has been freed.
\<close>

theorem callback_frees_next:
  "(\<exists>Q. timer_queries two_queries Q) \<and>
   (\<exists>s Q. tm_call stopping_env 7 RAW_PROTO_MAX_NUM_RETRANSMIT_EXCEEDED [1, 2, 3, 21] 21 RPT_OWNER_DPSA two_queries = Some s \<and> timer_queries s Q) \<and>
   raw_pkt_retransmit stopping_env two_queries = None"
proof -
  have "(1001 :: u32) \<noteq> 0" by simp
  from stop_queries [OF two_queries_entries this sample_ids(4)]
  obtain c s Q where s: "stop_query 1001 two_queries = Some (c, s)" "timer_queries s Q" by blast
  have "tm_call stopping_env 7 RAW_PROTO_MAX_NUM_RETRANSMIT_EXCEEDED [1, 2, 3, 21] 21 RPT_OWNER_DPSA two_queries = Some s"
    using s(1) by (auto simp: stopping_env_def stop_query_def split: bind_splits)
  moreover have "retransmit_bucket stopping_env 0 two_queries = Some two_queries"
    by (simp add: retransmit_bucket_def get_bucket_def while_opt_done)
  then have "raw_pkt_retransmit stopping_env two_queries = None"
    using pass_after_free upt_conv_Cons [of 0 1000] upt_conv_Cons [of 1 1000] by (simp add: raw_pkt_retransmit_def)
  ultimately show ?thesis using two_queries_entries s(2) by blast
qed

end
