(* ===== verification/Dps_Client_Conduct.thy ===== *)
theory Dps_Client_Conduct
  imports Dps_Client_Inv Raw_Proto_Conduct
begin

text \<open>
  The properties of the client's transport, with instances: the table of
  servers is a map, a request goes to the right server and is kept for
  retransmission, its answer finds it, and one that is not answered is
  reported.
\<close>

section \<open>Sample clients\<close>

text \<open>A system with a clock that stands still, a queue of packets to read and a record of what goes out.\<close>

record outer_world =
  ow_inbox :: "(bytes \<times> bytes) list"
  ow_sent :: "(bytes \<times> bytes) list"
  ow_handed :: "dps_client_data_t list"

definition sample_env :: "int \<Rightarrow> outer_world client_env" where
  "sample_env now = \<lparr>
     ce_alloc_entry = (\<lambda>t. (List.find (\<lambda>a. vt_heap t a = None) [0..<8], True)),
     ce_alloc_node = (\<lambda>s. List.find (\<lambda>a. ts_heap s a = None) [0..<8]),
     ce_alloc_pkt = (\<lambda>_. True),
     ce_malloc = (\<lambda>w. (Some (replicate DPS_MAX_BUFF_SZ 0), w)),
     ce_free = (\<lambda>w. w),
     ce_time = (\<lambda>w. (now, w)),
     ce_wait = (\<lambda>w. (True, w)),
     ce_mutex_ok = True, ce_unlock_ok = True, ce_thread_ok = True,
     ce_socket = (\<lambda>_ w. (5, w)), ce_fcntl = (\<lambda>_ w. (0, w)), ce_add_fd = (\<lambda>_ w. (0, w)), ce_close = (\<lambda>_ w. w),
     ce_sendto = (\<lambda>_ pkt addr w. (int (length pkt), w\<lparr>ow_sent := ow_sent w @ [(pkt, addr)]\<rparr>)),
     ce_recvfrom = (\<lambda>_ alen w. case ow_inbox w of [] \<Rightarrow> ((-1, [], [], alen), w)
       | (pkt, addr) # ps \<Rightarrow> ((int (length pkt), pkt, addr, length addr), w\<lparr>ow_inbox := ps\<rparr>)),
     ce_deliver = (\<lambda>d w. w\<lparr>ow_handed := ow_handed w @ [d]\<rparr>),
     ce_interval = 132,
     ce_uninit_addr = zero_ip_addr, ce_uninit_tail = replicate 8 0, ce_uninit_storage = replicate SIZEOF_STORAGE 0, ce_uninit_hdr = zero_hdr\<rparr>"

definition sample_empty_table :: dps_vnid_node_mapping_table_t where
  "sample_empty_table = snd (dps_vnid_node_mapping_table_init True \<lparr>vt_hash_size = 0, vt_hash = [], vt_heap = Map.empty\<rparr>)"

definition sample_table :: dps_vnid_node_mapping_table_t where
  "sample_table = snd (the (dps_vnid_node_mapping_entry_add (Some 0, True) 7 sample_ip sample_empty_table))"

definition sample_client :: "outer_world \<Rightarrow> outer_world client_world" where
  "sample_client w = \<lparr>cw_svr = \<lparr>si_family = AF_INET, si_ip4_family = AF_INET, si_ip4_addr = 0, si_ip4_port = 0, si_ip6_family = 0,
       si_ip6_addr = replicate 16 0, si_sock_fd = 5, si_xport_type = 2, si_inuse = True, si_buff = []\<rparr>,
     cw_table = sample_table, cw_last_sent_time = 0, cw_stats = dps_pkt_stats_tbl, cw_outer = w\<rparr>"

definition sample_quiet :: outer_world where
  "sample_quiet = \<lparr>ow_inbox = [], ow_sent = [], ow_handed = []\<rparr>"

lemma sample_env_fresh: "fresh_alloc (client_timer (sample_env now))" "fresh_entries (ce_alloc_entry (sample_env now))"
  "client_env_ok (sample_env now)"
  by (auto simp: fresh_alloc_def fresh_entries_def client_env_ok_def client_timer_def timer_calls_def sample_env_def find_Some_iff)

lemma sample_usable: "usable sample_ip"
  using sample_addr_ok(1) by (simp add: usable_def known_family_def samples)

lemma sample_empty_map: "vnid_map sample_empty_table Map.empty"
  unfolding sample_empty_table_def by (rule init_map) simp

lemma sample_table_map: "vnid_map sample_table [7 \<mapsto> sample_ip]"
proof -
  have "vt_heap sample_empty_table = Map.empty" by (simp add: sample_empty_table_def dps_vnid_node_mapping_table_init_def)
  then show ?thesis using add_map [OF sample_empty_map, of "(Some 0, True)" 7 sample_ip] by (auto simp: sample_table_def)
qed

lemma sample_world_ok: "world_ok (sample_env now) (sample_client w) [7 \<mapsto> sample_ip]"
  using sample_table_map sample_usable
  by (simp add: world_ok_def table_repr_def sample_env_fresh sample_client_def stats_length)

definition sample_state :: "outer_world \<Rightarrow> outer_world client_state" where
  "sample_state w = (timer_boot (Some (sample_client w)))\<lparr>ts_rpt_callbacks := [None, None, Some CALLBACK, None, None], ts_init_done := True\<rparr>"

lemma sample_storage: "length (ce_uninit_storage (sample_env now)) = SIZEOF_STORAGE"
  by (simp add: sample_env_def)

lemma sample_state_queries: "timer_queries (sample_state w) (\<lambda>_. [])"
  by (rule timer_queries_empty) (simp_all add: sample_state_def timer_boot_def)

lemma sample_client_ok: "client_ok (sample_env now) (sample_state w) (sample_client w) [7 \<mapsto> sample_ip] (\<lambda>_. [])"
  using sample_state_queries [of w] sample_world_ok [of now w] sample_storage [of now]
  by (simp add: client_ok_def sample_env_fresh) (simp add: sample_state_def timer_boot_def)

section \<open>Servers\<close>



text \<open>
  A server that was learnt for a network is the one found for it, whatever
  is done for other networks in between.
\<close>

theorem learnt_server_found:
  assumes "table_repr alloc t m" and "table_act alloc addr (Learn v ip) t = Some (Status DPS_SUCCESS, t1)" and "\<forall>x \<in> set ops. network_of x \<noteq> Some v"
  shows "\<exists>rs t2. run_ops (table_act alloc addr) ops t1 = Some (rs, t2) \<and> dps_vnid_node_mapping_entry_find t2 v addr = Some (DPS_SUCCESS, ip)"
  using table_dir.learnt_answers [OF assms] by auto

theorem learnt_server_found_witness:
  "\<exists>t1 rs t2. table_act (ce_alloc_entry (sample_env 100)) zero_ip_addr (Learn 7 sample_ip6) sample_table = Some (Status DPS_SUCCESS, t1) \<and>
    run_ops (table_act (ce_alloc_entry (sample_env 100)) zero_ip_addr) [Learn 71 sample_ip, Forget 71] t1 = Some (rs, t2) \<and>
    dps_vnid_node_mapping_entry_find t2 7 zero_ip_addr = Some (DPS_SUCCESS, sample_ip6)"
proof -
  have r: "table_repr (ce_alloc_entry (sample_env 100)) sample_table [7 \<mapsto> sample_ip]" by (simp add: table_repr_def sample_env_fresh sample_table_map)
  then obtain t1 r m' where t1: "table_act (ce_alloc_entry (sample_env 100)) zero_ip_addr (Learn 7 sample_ip6) sample_table = Some (r, t1)"
    "directory_step [7 \<mapsto> sample_ip] (Learn 7 sample_ip6) r m'"
    using table_act_law by blast
  then have "r = Status DPS_SUCCESS" by (auto elim: learn_cases)
  then show ?thesis
    using t1(1) learnt_server_found [OF r, of zero_ip_addr 7 sample_ip6 t1 "[Learn 71 sample_ip, Forget 71]"] by simp
qed

text \<open>
  C34.  Deleting a server removes it only from the networks 0 to 63: for any
  other network the server that was deleted is still the one that is found.
\<close>

theorem deleted_server_found:
  assumes "vnid_map (cw_table c) m" and "m v = Some node" and "64 \<le> v"
  shows "\<exists>c'. dps_server_del node c = Some c' \<and> dps_vnid_node_mapping_entry_find (cw_table c') v addr = Some (DPS_SUCCESS, node)"
proof -
  obtain t where t: "dps_vnid_node_mapping_del_dup_node node (cw_table c) = Some t"
    "vnid_map t (\<lambda>v. if v < 64 \<and> (\<exists>old. m v = Some old \<and> same_node old node) then None else m v)"
    using del_dup_map [OF assms(1)] by blast
  have "\<not> v < 64" using assms(3) by simp
  then show ?thesis using search_map [OF t(2), of v addr] t(1) assms(2) by (simp add: dps_server_del_def dps_vnid_node_mapping_entry_find_def)
qed

theorem deleted_server_found_witness:
  "\<exists>t c'. dps_vnid_node_mapping_entry_add (Some 1, True) 100 sample_ip sample_empty_table = Some (DPS_SUCCESS, t) \<and>
    dps_server_del sample_ip ((sample_client sample_quiet)\<lparr>cw_table := t\<rparr>) = Some c' \<and>
    dps_vnid_node_mapping_entry_find (cw_table c') 100 zero_ip_addr = Some (DPS_SUCCESS, sample_ip)"
proof -
  have "vt_heap sample_empty_table = Map.empty" by (simp add: sample_empty_table_def dps_vnid_node_mapping_table_init_def)
  then obtain t where t: "dps_vnid_node_mapping_entry_add (Some 1, True) 100 sample_ip sample_empty_table = Some (DPS_SUCCESS, t)"
    "vnid_map t [100 \<mapsto> sample_ip]"
    using add_map [OF sample_empty_map, of "(Some 1, True)" 100 sample_ip] by auto
  then show ?thesis using deleted_server_found [of "(sample_client sample_quiet)\<lparr>cw_table := t\<rparr>" "[100 \<mapsto> sample_ip]" 100 sample_ip zero_ip_addr] by simp
qed

section \<open>Socket addresses\<close>

text \<open>
  A node that is written to a socket address and read back has the same
  family, port and address, whatever was in the storage before.
\<close>

theorem sockaddr_round_trip:
  assumes "usable a" and "length st = SIZEOF_STORAGE" and "wf_ip d"
  shows "\<exists>b a'. dps_copy_laddr_saddr a st = Some (DPS_SUCCESS, b) \<and> length b = SIZEOF_STORAGE \<and> dps_copy_saddr_laddr b d = Some a' \<and>
    ia_family a' = ia_family a \<and> ia_port a' = ia_port a \<and> ia_ip4 a' = ia_ip4 a \<and> (ia_family a = AF_INET6 \<longrightarrow> ia_ip6 a' = ia_ip6 a)"
proof -
  have a: "wf_ip a" "known_family a" "24 \<le> length st" using assms by (simp_all add: usable_def)
  have "length (sockaddr_of a st) = SIZEOF_STORAGE" using a assms(2) by (auto simp: sockaddr_of_def wf_ip_def)
  moreover have "ia_ip4 (d\<lparr>ia_ip6 := set_ip4 (ia_ip4 a) (ia_ip6 d)\<rparr>) = ia_ip4 a" by (simp add: ia_ip4_def set_ip4_def)
  ultimately show ?thesis
    using copy_laddr_saddr [OF a] copy_saddr_laddr [OF a, of "[]" d] a(2) by (auto simp: known_family_def ia_ip4_def)
qed

theorem sockaddr_round_trip_witness:
  "\<exists>b a'. dps_copy_laddr_saddr sample_ip (replicate SIZEOF_STORAGE 9) = Some (DPS_SUCCESS, b) \<and> dps_copy_saddr_laddr b sample_ip6 = Some a' \<and>
    ia_ip4 a' = ia_ip4 sample_ip"
  using sockaddr_round_trip [OF sample_usable, of "replicate SIZEOF_STORAGE 9" sample_ip6] sample_addr_ok(2) by auto

section \<open>Requests\<close>


definition sample_request :: dps_client_data_t where
  "sample_request = \<lparr>cd_context = 21, cd_hdr = zero_hdr\<lparr>ch_type := DPS_ENDPOINT_LOC_REQ, ch_vnid := 7\<rparr>, cd_body = Endpoint_loc_req sample_loc_req\<rparr>"

lemma sample_request_simps [simp]:
  "cd_body sample_request = Endpoint_loc_req sample_loc_req" "ch_type (cd_hdr sample_request) = DPS_ENDPOINT_LOC_REQ"
  "ch_query_id (cd_hdr sample_request) = 0" "ch_vnid (cd_hdr sample_request) = 7" "cd_context sample_request = 21"
  "\<not> known_family (ch_reply_addr (cd_hdr sample_request))"
  by (simp_all add: sample_request_def zero_hdr_def known_family_def zero_ip_addr_def)

lemma sample_request_id: "request_id (sample_state w) = 1" "valid_id (request_id (sample_state w))"
  using sample_ids(1) by (simp_all add: request_id_def raw_proto_query_id_generate_def sample_state_def timer_boot_def Let_def)

lemma sample_room: "has_room (client_timer (sample_env now)) (at_xmit (sample_env now) (sample_client w) (sample_state w))"
  by (simp add: has_room_def client_timer_def timer_calls_def sample_env_def at_xmit_def raw_proto_query_id_generate_def sample_state_def
      timer_boot_def Let_def upt_rec)

lemma sample_client_simps [simp]: "si_inuse (cw_svr (sample_client w))" "cw_outer (sample_client w) = w" "has_client_buffer (sample_env now) w"
  by (simp_all add: sample_client_def has_client_buffer_def sample_env_def)

lemma sample_loc_req_ok: "ok_loc_req sample_loc_req"
  by (simp add: sample_loc_req_def ok_loc_req_def sample_addr_ok)

lemma contexts_none [simp]: "contexts (\<lambda>_. []) = (\<lambda>_. [])"
  by (simp add: contexts_def pending_def fun_eq_iff split: option.split)


text \<open>A packet from a node waits on the socket, and there is memory for the message it becomes.\<close>

definition arrives :: "'w client_env \<Rightarrow> 'w client_world \<Rightarrow> int \<Rightarrow> nat \<Rightarrow> bytes \<Rightarrow> ip_addr_t \<Rightarrow> bytes \<Rightarrow> nat \<Rightarrow> 'w \<Rightarrow> bool" where
  "arrives env c socket alen pkt ip st alen' w \<longleftrightarrow> usable ip \<and> 24 \<le> length st \<and> has_client_buffer env w \<and>
     ce_recvfrom env socket alen (cw_outer c) = ((int (length pkt), pkt, sockaddr_of ip st, alen'), w)"

lemma client_answered:
  assumes ok: "client_ok env s c m Q" and a: "arrives env c socket alen pkt ip st alen' w" and d: "wf_ip sender"
    and pkt: "pkt = pkt_hdrb t h len @ p" and t: "valid_type t" and q: "valid_id (ch_query_id h)" "contexts Q (ch_query_id h) = (ctx, owner) # cs"
    and proc: "\<And>s junk. has_buffer (client_link env) s \<Longrightarrow> \<exists>b. got b \<and>
      dps_process_rcvd_pkt (client_link env) (pkt @ junk) (heard_from ip sender) (cw_stats c, s) =
        count_rcvd t (deliver_answer keep (client_link env) ((recv_hdr t h zero_hdr)\<lparr>ch_reply_addr := heard_from ip sender\<rparr>) b
          (cw_stats c, snd (lk_malloc (client_link env) s)))"
  shows "\<exists>b s' c' m' Q'. receive_loop env socket (Suc k) (sender, ca, alen) s =
      receive_loop env socket k (heard_from ip sender, over (sockaddr_of ip st) ca, alen') s' \<and> got b \<and>
    client_ok env s' c' m' Q' \<and> learnt_from m (ch_vnid h) (heard_from ip sender) m' \<and> contexts Q' = (contexts Q)(ch_query_id h := cs) \<and>
    cw_outer c' = ce_free env (ce_deliver env \<lparr>cd_context = ctx,
      cd_hdr = (recv_hdr t h zero_hdr)\<lparr>ch_reply_addr := heard_from ip sender\<rparr>, cd_body = b\<rparr> (snd (ce_malloc env w)))"
proof -
  have n: "0 < int (length pkt)" using pkt by simp
  have a': "usable ip" "24 \<le> length st" "has_client_buffer env w"
    "ce_recvfrom env socket alen (cw_outer c) = ((int (length pkt), pkt, sockaddr_of ip st, alen'), w)"
    using a by (simp_all add: arrives_def)
  obtain c1 m1 junk where c1: "receive_loop env socket (Suc k) (sender, ca, alen) s = do {
      (_, (tbl, s')) \<leftarrow> dps_process_rcvd_pkt (client_link env) (pkt @ junk) (heard_from ip sender) (cw_stats c1, s\<lparr>ts_world := Some c1\<rparr>);
      receive_loop env socket k (heard_from ip sender, over (sockaddr_of ip st) ca, alen') (put_stats tbl s') }"
    "client_ok env (s\<lparr>ts_world := Some c1\<rparr>) c1 m1 Q" "learnt_from m (ch_vnid h) (heard_from ip sender) m1" "cw_outer c1 = w" "cw_stats c1 = cw_stats c"
    using receive_learns [OF ok a'(4) n a'(1,2) d pkt, of k ca] by blast
  let ?h = "(recv_hdr t h zero_hdr)\<lparr>ch_reply_addr := heard_from ip sender\<rparr>" and ?s = "s\<lparr>ts_world := Some c1\<rparr>"
  have "has_buffer (client_link env) ?s" using client_has_buffer [of ?s c1] a'(3) c1(4) by simp
  then obtain b where b: "got b" "dps_process_rcvd_pkt (client_link env) (pkt @ junk) (heard_from ip sender) (cw_stats c, ?s) =
      count_rcvd t (deliver_answer keep (client_link env) ?h b (cw_stats c, snd (lk_malloc (client_link env) ?s)))"
    using proc by blast
  have hq: "ch_query_id ?h = ch_query_id h" by (simp add: recv_hdr_def)
  obtain s2 c2 Q2 where s2: "deliver_answer keep (client_link env) ?h b (cw_stats c, snd (lk_malloc (client_link env) ?s)) = Some (DPS_SUCCESS, (cw_stats c, s2))"
    "client_ok env s2 c2 m1 Q2" "contexts Q2 = (contexts Q)(ch_query_id h := cs)"
    "cw_outer c2 = ce_free env (ce_deliver env \<lparr>cd_context = ctx, cd_hdr = ?h, cd_body = b\<rparr> (snd (ce_malloc env w)))"
    using client_delivers_answer [OF c1(2), of ?h keep b "cw_stats c"] q unfolding hq c1(4) by (auto simp: first_context_def)
  have len: "length (cw_stats c) = unat DPS_MAX_MSG_TYPE" using ok by (simp add: client_ok_def world_ok_def)
  have "unat t < length (cw_stats c)" using t len by (auto simp: valid_type_def word_le_nat_alt word_less_nat_alt)
  then obtain tbl where tbl: "bump (unat t) (count_recv DPS_SUCCESS) (cw_stats c) = Some tbl" "length tbl = unat DPS_MAX_MSG_TYPE"
    using len by (simp add: bump_def)
  have "client_ok env (put_stats tbl s2) (c2\<lparr>cw_stats := tbl\<rparr>) m1 Q2" by (rule client_ok_stats [OF s2(2) tbl(2)])
  moreover have "receive_loop env socket (Suc k) (sender, ca, alen) s =
      receive_loop env socket k (heard_from ip sender, over (sockaddr_of ip st) ca, alen') (put_stats tbl s2)"
    using c1(1,5) b(2) s2(1) tbl(1) by (simp add: count_rcvd_def)
  moreover have "cw_outer (c2\<lparr>cw_stats := tbl\<rparr>) = ce_free env (ce_deliver env \<lparr>cd_context = ctx, cd_hdr = ?h, cd_body = b\<rparr> (snd (ce_malloc env w)))"
    using s2(4) by simp
  ultimately show ?thesis using b(1) c1(3) s2(3) by blast
qed


text \<open>A client that waits for the answer to a query that is sent at most \<open>n\<close> more times.\<close>

lemma waiting_client:
  assumes "0 \<le> n" and "n < 23"
  shows "\<exists>s Q. client_ok (sample_env now) s (sample_client w) [7 \<mapsto> sample_ip] Q \<and> same_globals (sample_state w) s \<and>
    waiting Q = [query_entry 9 ((client_query pkt 5 [] 21)\<lparr>rp_maxNumRetransmit := n\<rparr>) now] \<and> contexts Q 9 = [(21, RPT_OWNER_DPSA)]"
proof -
  let ?q = "(client_query pkt 5 [] 21)\<lparr>rp_maxNumRetransmit := n\<rparr>"
  have b: "bucket_of 9 = Some 9" by (simp add: bucket_of_small)
  have v: "valid_query ?q" using assms by (simp add: valid_query_def client_query_def IS_VALID_RPT_OWNER_def)
  have w: "ts_world (sample_state w) = Some (sample_client w)" by (simp add: sample_state_def timer_boot_def)
  have now: "tm_time (client_timer (sample_env now)) (Some (sample_client w)) = (now, Some (sample_client w))"
    by (simp add: client_timer_time io_def sample_env_def)
  have "has_room (client_timer (sample_env now)) (sample_state w)"
    by (simp add: has_room_def client_timer_def timer_calls_def sample_env_def sample_state_def timer_boot_def upt_rec)
  then obtain s where s: "same_globals (sample_state w) s" "ts_world s = Some (sample_client w)"
    "timer_queries s ((\<lambda>_. [])(9 := [query_entry 9 ?q now]))"
    using start_queries [OF sample_state_queries [of w] sample_env_fresh(1) b v, of now] w now by auto
  have "client_ok (sample_env now) s (sample_client w) [7 \<mapsto> sample_ip] ((\<lambda>_. [])(9 := [query_entry 9 ?q now]))"
    using sample_client_ok [of now w] s(2,3) by (simp add: client_ok_def)
  moreover have "waiting ((\<lambda>_. [])(9 := [query_entry 9 ?q now])) = [query_entry 9 ?q now]"
    using filter_concat_add [of 9 MAX_HASH_BUCKET "\<lambda>_. True" "\<lambda>_. []" "query_entry 9 ?q now"] by (simp add: waiting_def del: fun_upd_apply)
  moreover have "contexts ((\<lambda>_. [])(9 := [query_entry 9 ?q now])) 9 = [(21, RPT_OWNER_DPSA)]"
    by (simp add: contexts_def pending_def b query_entry_def new_timer_node_def client_query_def)
  ultimately show ?thesis using s(1) by blast
qed

definition sample_server :: "int dps_link" where
  "sample_server = sample_node\<lparr>lk_server := True\<rparr>"

definition sample_reply :: dps_client_data_t where
  "sample_reply = sample_msg DPS_ENDPOINT_LOC_REPLY (Endpoint_loc_reply sample_loc_reply)"

lemma sample_server_ready: "has_buffer sample_server w" "may_send sample_server w" "lk_server sample_server"
  using sample_node_ready(1) by (simp_all add: sample_server_def has_buffer_def may_send_def) (simp add: sample_node_def)

lemma sample_reply_ready: "ok_loc_reply_msg (cd_hdr sample_reply) sample_loc_reply" "cd_body sample_reply = Endpoint_loc_reply sample_loc_reply"
  "ch_type (cd_hdr sample_reply) = DPS_ENDPOINT_LOC_REPLY" "ch_query_id (cd_hdr sample_reply) = 9" "valid_id 9"
  by (simp_all add: sample_reply_def ok_loc_reply_msg_def sample_loc_ok sample_ready)
     (simp_all add: sample_msg_def valid_id_def bucket_of_small)


text \<open>
  C8.  When a query has been sent as often as it may be and its last interval
  is over, the pass of the timer hands the program above a reply with the
  status \<open>DPS_NO_RESPONSE\<close> and the context of the query, asks for
  another server unless that was done recently, forgets the server of the
  network, and drops the query; the other queries keep waiting.
\<close>

theorem client_request_reported:
  assumes "client_ok env s c m Q" and "\<forall>w. ce_time env w = (now, w)" and "waiting Q = xs @ e # ys" and "\<forall>e' \<in> set (xs @ ys). \<not> expired now e'"
    and "dropped now e" and "pt_owner e = RPT_OWNER_DPSA" and "ts_rpt_callbacks s ! 2 = Some CALLBACK"
    and "dps_get_pkt_hdr (pt_rawPkt e) zero_hdr = Some (h, n)" and "valid_type (ch_type h)"
  shows "\<exists>s' c' Q' b. raw_pkt_retransmit (client_timer env) s = Some s' \<and> client_ok env s' c' (m(ch_vnid h := None)) Q' \<and> waiting Q' = xs @ ys \<and>
    cw_outer c' = ce_deliver env \<lparr>cd_context = pt_context e, cd_hdr = h\<lparr>ch_type := reply_type (ch_type h), ch_resp_status := DPS_NO_RESPONSE,
      ch_sub_type := ch_type h\<rparr>, cd_body = b\<rparr> (node_asked env (cw_last_sent_time c) (cw_outer c))"
proof -
  have w: "ts_world s = Some c" "world_ok env c m" "timer_queries s Q" using assms(1) by (simp_all add: client_ok_def)
  obtain s' Q' where s': "raw_pkt_retransmit (client_timer env) s = Some s'" "timer_queries s' Q'"
    "pass_entries (client_timer env) (client_effect env) (ts_rpt_callbacks s) (waiting Q) (ts_world s) = (waiting Q', ts_world s')"
    using retransmit_represents [OF client_calls_only w(3)] by blast
  obtain b c' where c': "client_effect env CALLBACK RAW_PROTO_MAX_NUM_RETRANSMIT_EXCEEDED (pt_rawPkt e) (pt_context e) RPT_OWNER_DPSA (Some c) = Some c'"
    "world_ok env c' (m(ch_vnid h := None))"
    "cw_outer c' = ce_deliver env \<lparr>cd_context = pt_context e, cd_hdr = h\<lparr>ch_type := reply_type (ch_type h), ch_resp_status := DPS_NO_RESPONSE,
      ch_sub_type := ch_type h\<rparr>, cd_body = b\<rparr> (node_asked env (cw_last_sent_time c) (cw_outer c))"
    using effect_no_response [OF w(2) assms(8,9)] by blast
  have "pass_entries (client_timer env) (client_effect env) (ts_rpt_callbacks s) (xs @ e # ys) (Some c) = (xs @ ys, Some c')"
    using pass_gives_up [of env now xs ys e "ts_rpt_callbacks s" c] assms(2,4-7) c'(1) by simp
  then have "waiting Q' = xs @ ys" "ts_world s' = Some c'" using s'(3) assms(3) w(1) by simp_all
  moreover have "client_ok env s' c' (m(ch_vnid h := None)) Q'" using assms(1) s'(2) c'(2) calculation(2) by (simp add: client_ok_def)
  ultimately show ?thesis using s'(1) c'(3) by blast
qed

definition sample_unanswered :: bytes where
  "sample_unanswered = pkt_hdrb DPS_POLICY_REQ (zero_hdr\<lparr>ch_vnid := 7\<rparr>) 20 @ []"

theorem client_request_reported_witness:
  "\<exists>s c' s' b Q Q'. client_ok (sample_env 200) s (sample_client sample_quiet) [7 \<mapsto> sample_ip] Q \<and>
    raw_pkt_retransmit (client_timer (sample_env 200)) s = Some s' \<and> client_ok (sample_env 200) s' c' Map.empty Q' \<and> waiting Q' = [] \<and>
    ow_handed (cw_outer c') = [new_node_request (sample_env 200),
      \<lparr>cd_context = 21, cd_hdr = (recv_hdr DPS_POLICY_REQ (zero_hdr\<lparr>ch_vnid := 7\<rparr>) zero_hdr)\<lparr>ch_type := DPS_POLICY_REPLY,
        ch_resp_status := DPS_NO_RESPONSE, ch_sub_type := DPS_POLICY_REQ\<rparr>, cd_body = b\<rparr>]"
proof -
  let ?e = "query_entry 9 ((client_query sample_unanswered 5 [] 21)\<lparr>rp_maxNumRetransmit := 0\<rparr>) 100"
  let ?h = "recv_hdr DPS_POLICY_REQ (zero_hdr\<lparr>ch_vnid := 7\<rparr>) zero_hdr"
  obtain s Q where s: "client_ok (sample_env 100) s (sample_client sample_quiet) [7 \<mapsto> sample_ip] Q" "same_globals (sample_state sample_quiet) s"
    "waiting Q = [] @ ?e # []"
    using waiting_client [of 0 100 sample_quiet sample_unanswered] by auto
  have ok: "client_ok (sample_env 200) s (sample_client sample_quiet) [7 \<mapsto> sample_ip] Q"
    using s(1) sample_world_ok [of 200] sample_storage [of 200] by (simp add: client_ok_def sample_env_fresh)
  have e: "dropped 200 ?e" "pt_owner ?e = RPT_OWNER_DPSA" "pt_context ?e = 21" "pt_rawPkt ?e = sample_unanswered"
    by (simp_all add: dropped_def retry_gap_def query_entry_def new_timer_node_def client_query_def)
  have cb: "ts_rpt_callbacks s ! 2 = Some CALLBACK" using s(2) by (simp add: same_globals_def sample_state_def)
  have h: "dps_get_pkt_hdr (pt_rawPkt ?e) zero_hdr = Some (?h, 0)" "ch_type ?h = DPS_POLICY_REQ" "ch_vnid ?h = 7"
    using get_pkt_hdr_image [of 20 DPS_POLICY_REQ "zero_hdr\<lparr>ch_vnid := 7\<rparr>" "[]" zero_hdr] unfolding e(4) unfolding sample_unanswered_def
    by (simp_all add: recv_hdr_def)
  have v: "valid_type (ch_type ?h)" "reply_type (ch_type ?h) = DPS_POLICY_REPLY" by (simp_all add: h(2) valid_type_def reply_type_def)
  have t: "\<forall>w. ce_time (sample_env 200) w = (200, w)" by (simp add: sample_env_def)
  obtain s' c' Q' b where "raw_pkt_retransmit (client_timer (sample_env 200)) s = Some s'"
    "client_ok (sample_env 200) s' c' ([7 \<mapsto> sample_ip](7 := None)) Q'" "waiting Q' = [] @ []"
    "cw_outer c' = ce_deliver (sample_env 200) \<lparr>cd_context = 21, cd_hdr = ?h\<lparr>ch_type := DPS_POLICY_REPLY, ch_resp_status := DPS_NO_RESPONSE,
      ch_sub_type := DPS_POLICY_REQ\<rparr>, cd_body = b\<rparr> (node_asked (sample_env 200) (cw_last_sent_time (sample_client sample_quiet)) sample_quiet)"
    using client_request_reported [OF ok t s(3) _ e(1,2) cb h(1) v(1)] unfolding v(2) unfolding h(2,3) e(3) by auto
  moreover have "cw_last_sent_time (sample_client sample_quiet) = 0" by (simp add: sample_client_def)
  ultimately show ?thesis
    using ok by (intro exI conjI) (assumption | simp add: node_asked_def sample_env_def sample_quiet_def)+
qed


lemma sample_init:
  "\<exists>r s. dps_client_init (sample_env 100) True (client_boot ((sample_client sample_quiet)\<lparr>cw_table := sample_empty_table\<rparr>)) = Some (r, s)"
  by (simp add: dps_client_init_def raw_proto_timer_init_def client_boot_def timer_boot_def client_timer_def timer_calls_def sample_env_def
      IS_VALID_RPT_OWNER_def on_client_def Let_def)


text \<open>
  C35.  When there is no memory to keep a request for retransmission, it is sent
  to the server all the same, but the caller is told that it was not.
\<close>

theorem unkept_request_sent:
  assumes "client_ok env s c m Q" and "si_inuse (cw_svr c)" and "dps_get_pkt_hdr buff (ce_uninit_hdr env) = Some (h, n)"
    and "if known_family addr then wf_ip addr else m \<noteq> Map.empty" and "context \<noteq> 0"
    and "bucket_of (ch_query_id h) = Some i" and "\<not> has_room (client_timer env) s" and "\<forall>to w. 0 < fst (ce_sendto env (si_sock_fd (cw_svr c)) buff to w)"
  shows "\<exists>ip. destination m (ch_vnid h) addr ip \<and> dps_protocol_xmit env buff addr context s =
    Some (DPS_ERROR_NO_RESOURCES, s\<lparr>ts_world := Some (snd (sends_to env c buff ip))\<rparr>)"
proof -
  have "\<not> fst (sends_to env c buff ip) \<le> 0" for ip using assms(8) by (simp add: sends_to_def not_le)
  then show ?thesis using xmit_no_room [OF assms(1-7)] by simp
qed

theorem unkept_request_sent_witness:
  "\<exists>ip. dps_protocol_xmit ((sample_env 100)\<lparr>ce_alloc_pkt := \<lambda>_. False\<rparr>) (pkt_hdrb DPS_POLICY_REQ (zero_hdr\<lparr>ch_vnid := 7, ch_query_id := 9\<rparr>) 20 @ [])
      zero_ip_addr 21 (sample_state sample_quiet) = Some (DPS_ERROR_NO_RESOURCES, (sample_state sample_quiet)\<lparr>ts_world :=
        Some (snd (sends_to ((sample_env 100)\<lparr>ce_alloc_pkt := \<lambda>_. False\<rparr>) (sample_client sample_quiet)
          (pkt_hdrb DPS_POLICY_REQ (zero_hdr\<lparr>ch_vnid := 7, ch_query_id := 9\<rparr>) 20 @ []) ip))\<rparr>)"
proof -
  let ?env = "(sample_env 100)\<lparr>ce_alloc_pkt := \<lambda>_. False\<rparr>" and ?h = "recv_hdr DPS_POLICY_REQ (zero_hdr\<lparr>ch_vnid := 7, ch_query_id := 9\<rparr>) zero_hdr"
  let ?pkt = "pkt_hdrb DPS_POLICY_REQ (zero_hdr\<lparr>ch_vnid := 7, ch_query_id := 9\<rparr>) 20 @ []"
  have "fresh_alloc (client_timer ?env)" using sample_env_fresh(1) [of 100] by (simp add: fresh_alloc_def client_timer_def timer_calls_def)
  then have ok: "client_ok ?env (sample_state sample_quiet) (sample_client sample_quiet) [7 \<mapsto> sample_ip] (\<lambda>_. [])"
    using sample_client_ok [of 100 sample_quiet] by (simp add: client_ok_def world_ok_def)
  have h: "dps_get_pkt_hdr ?pkt (ce_uninit_hdr ?env) = Some (?h, 0)"
    using get_pkt_hdr_image [of 20 DPS_POLICY_REQ "zero_hdr\<lparr>ch_vnid := 7, ch_query_id := 9\<rparr>" "[]" zero_hdr] by (simp add: sample_env_def)
  have "bucket_of (ch_query_id ?h) = Some 9" by (simp add: recv_hdr_def bucket_of_small)
  moreover have "\<not> has_room (client_timer ?env) (sample_state sample_quiet)" by (simp add: has_room_def client_timer_def timer_calls_def)
  moreover have "[7 \<mapsto> sample_ip] \<noteq> (Map.empty :: directory_map)" by (metis map_upd_nonempty)
  moreover have "\<not> known_family zero_ip_addr" by (simp add: known_family_def zero_ip_addr_def)
  ultimately show ?thesis
    using unkept_request_sent [OF ok _ h, of zero_ip_addr 21 9] by (auto simp: sample_env_def)
qed

end
