(* ===== verification/Dps_Network.thy ===== *)
theory Dps_Network
  imports Dps_Server_Exchange Dps_Client_Conduct
begin

text \<open>
  A client and a server that exchange packets: what each of them makes of a
  packet of the other, whatever else it is doing at the time.
\<close>

section \<open>Taking a packet\<close>

text \<open>
  \<open>server_takes env pkt msg\<close>: when the packet arrives, the server hands
  its data handler a message that satisfies \<open>msg\<close> with the address of
  the sender, and goes on to the next packet.
\<close>

definition server_takes :: "'w server_env \<Rightarrow> bytes \<Rightarrow> (ip_addr_t \<Rightarrow> dps_client_data_t \<Rightarrow> bool) \<Rightarrow> bool" where
  "server_takes env pkt msg \<longleftrightarrow> (\<forall>E s c socket alen ip zs alen' w sender k. server_ok env E s c \<longrightarrow>
     server_arrives env c socket alen pkt ip zs alen' w \<longrightarrow> ia_family sender = AF_INET \<longrightarrow>
     (\<exists>d s' c'. msg (server_heard ip sender) d \<and>
       server_receive_loop env socket (Suc k) (sender, alen) s = server_receive_loop env socket k (server_heard ip sender, alen') s' \<and>
       server_ok env E s' c' \<and> message_for s' = message_for s \<and>
       sw_outer c' = se_free env (se_deliver env d (snd (se_malloc env w)))))"

text \<open>\<open>server_matches env pkt q msg\<close>: the same for an answer to the message kept for \<open>q\<close>, which is then forgotten.\<close>

definition server_matches :: "'w server_env \<Rightarrow> bytes \<Rightarrow> u32 \<Rightarrow> (nat \<Rightarrow> ip_addr_t \<Rightarrow> dps_client_data_t \<Rightarrow> bool) \<Rightarrow> bool" where
  "server_matches env pkt q msg \<longleftrightarrow> (\<forall>E s c socket alen ip zs alen' w sender k m. server_ok env E s c \<longrightarrow>
     server_arrives env c socket alen pkt ip zs alen' w \<longrightarrow> ia_family sender = AF_INET \<longrightarrow> message_for s q = Some m \<longrightarrow>
     (\<exists>d s' c'. msg (rc_context m) (server_heard ip sender) d \<and>
       server_receive_loop env socket (Suc k) (sender, alen) s = server_receive_loop env socket k (server_heard ip sender, alen') s' \<and>
       server_ok env E s' c' \<and> message_for s' = (message_for s)(q := None) \<and>
       sw_outer c' = se_free env (se_deliver env d (snd (se_malloc env w)))))"

definition client_matches :: "'w client_env \<Rightarrow> bytes \<Rightarrow> u32 \<Rightarrow> (nat \<Rightarrow> ip_addr_t \<Rightarrow> dps_client_data_t \<Rightarrow> bool) \<Rightarrow> bool" where
  "client_matches env pkt q msg \<longleftrightarrow> (\<forall>s c m Q socket alen ip st alen' w sender ca k ctx owner cs. client_ok env s c m Q \<longrightarrow>
     arrives env c socket alen pkt ip st alen' w \<longrightarrow> wf_ip sender \<longrightarrow> contexts Q q = (ctx, owner) # cs \<longrightarrow>
     (\<exists>d s' c' m' Q'. msg ctx (heard_from ip sender) d \<and> receive_loop env socket (Suc k) (sender, ca, alen) s =
         receive_loop env socket k (heard_from ip sender, over (sockaddr_of ip st) ca, alen') s' \<and>
       client_ok env s' c' m' Q' \<and> contexts Q' = (contexts Q)(q := cs) \<and>
       cw_outer c' = ce_free env (ce_deliver env d (snd (ce_malloc env w)))))"

text \<open>
  \<open>client_acks env pkt msg ack\<close>: a client that has a socket hands the
  program above the message and sends the packet \<open>ack\<close> to the node the
  message came from.
\<close>

definition client_acks :: "'w client_env \<Rightarrow> bytes \<Rightarrow> (ip_addr_t \<Rightarrow> dps_client_data_t \<Rightarrow> bool) \<Rightarrow> bytes \<Rightarrow> bool" where
  "client_acks env pkt msg ack \<longleftrightarrow> (\<forall>s c m Q socket alen ip st alen' w sender ca k. client_ok env s c m Q \<longrightarrow>
     arrives env c socket alen pkt ip st alen' w \<longrightarrow> wf_ip sender \<longrightarrow> si_inuse (cw_svr c) \<longrightarrow>
     (\<exists>d s' c' m'. msg (heard_from ip sender) d \<and> receive_loop env socket (Suc k) (sender, ca, alen) s =
         receive_loop env socket k (heard_from ip sender, over (sockaddr_of ip st) ca, alen') s' \<and>
       client_ok env s' c' m' Q \<and> cw_outer c' = ce_free env (snd (ce_sendto env (si_sock_fd (cw_svr c)) ack
         (take (if ia_family ip = AF_INET then 16 else 28) (sockaddr_of (heard_from ip sender) (ce_uninit_storage env)))
         (ce_deliver env d (snd (ce_malloc env w)))))))"

lemma counted:
  assumes "valid_type t" and "length tbl = unat DPS_MAX_MSG_TYPE"
  shows "\<exists>tbl'. count_rcvd t (Some (ret, (tbl, s))) = Some (ret, (tbl', s)) \<and> length tbl' = unat DPS_MAX_MSG_TYPE"
proof -
  have "unat t < length tbl" using assms by (auto simp: valid_type_def word_le_nat_alt word_less_nat_alt)
  then show ?thesis using assms(2) by (simp add: count_rcvd_def bump_def)
qed

lemma server_takes_packet:
  assumes t: "valid_type t" and proc: "\<And>s tbl addr junk. has_buffer (server_link env) s \<Longrightarrow>
      \<exists>b. got addr b \<and> dps_process_rcvd_pkt (server_link env) (pkt @ junk) addr (tbl, s) =
        count_rcvd t (deliver (server_link env) (hdr addr) b (tbl, snd (lk_malloc (server_link env) s)))"
  shows "server_takes env pkt (\<lambda>addr d. \<exists>b. got addr b \<and> d = \<lparr>cd_context = 0, cd_hdr = hdr addr, cd_body = b\<rparr>)"
  unfolding server_takes_def
proof (intro allI impI)
  fix E s c socket alen ip zs alen' w and sender :: ip_addr_t and k
  assume a: "server_ok env E s c" "server_arrives env c socket alen pkt ip zs alen' w" "ia_family sender = AF_INET"
  let ?a = "server_heard ip sender"
  obtain c1 junk where c1: "server_receive_loop env socket (Suc k) (sender, alen) s = do {
      (_, (tbl, s')) \<leftarrow> dps_process_rcvd_pkt (server_link env) (pkt @ junk) ?a (sw_stats c, s\<lparr>rt_world := Some c1\<rparr>);
      server_receive_loop env socket k (?a, alen') (put_server_stats tbl s') }"
    "server_ok env E (s\<lparr>rt_world := Some c1\<rparr>) c1" "sw_outer c1 = w" "sw_stats c1 = sw_stats c"
    using server_receives [OF a, of k] by blast
  let ?s = "s\<lparr>rt_world := Some c1\<rparr>"
  have "has_buffer (server_link env) ?s" using a(2) c1(3) server_has_buffer [of ?s c1 env] by (simp add: server_arrives_def)
  then obtain b where b: "got ?a b" "dps_process_rcvd_pkt (server_link env) (pkt @ junk) ?a (sw_stats c, ?s) =
      count_rcvd t (deliver (server_link env) (hdr ?a) b (sw_stats c, snd (lk_malloc (server_link env) ?s)))"
    using proc by blast
  let ?d = "\<lparr>cd_context = 0, cd_hdr = hdr ?a, cd_body = b\<rparr>"
  obtain s2 c2 where s2: "deliver (server_link env) (hdr ?a) b (sw_stats c, snd (lk_malloc (server_link env) ?s)) = Some (DPS_SUCCESS, (sw_stats c, s2))"
    "server_ok env E s2 c2" "message_for s2 = message_for s" "sw_outer c2 = se_free env (se_deliver env ?d (snd (se_malloc env w)))"
    using server_delivers [OF c1(2), of "hdr ?a" b "sw_stats c"] unfolding message_for_world c1(3) by (elim exE conjE) (rule that)
  have len: "length (sw_stats c) = unat DPS_MAX_MSG_TYPE" using a(1) by (simp add: server_ok_def)
  obtain tbl where tbl: "count_rcvd t (Some (DPS_SUCCESS, (sw_stats c, s2))) = Some (DPS_SUCCESS, (tbl, s2))" "length tbl = unat DPS_MAX_MSG_TYPE"
    using counted [OF t len, of DPS_SUCCESS s2] by (elim exE conjE) (rule that)
  have "server_receive_loop env socket (Suc k) (sender, alen) s = server_receive_loop env socket k (?a, alen') (put_server_stats tbl s2)"
    using c1(1) b(2) s2(1) tbl(1) by simp
  moreover have "server_ok env E (put_server_stats tbl s2) (c2\<lparr>sw_stats := tbl\<rparr>)" by (rule server_ok_stats [OF s2(2) tbl(2)])
  moreover have "message_for (put_server_stats tbl s2) = message_for s" using s2(3) by (simp add: put_server_stats_def on_server_def)
  ultimately show "\<exists>d s' c'. (\<exists>b. got ?a b \<and> d = \<lparr>cd_context = 0, cd_hdr = hdr ?a, cd_body = b\<rparr>) \<and>
      server_receive_loop env socket (Suc k) (sender, alen) s = server_receive_loop env socket k (?a, alen') s' \<and>
      server_ok env E s' c' \<and> message_for s' = message_for s \<and> sw_outer c' = se_free env (se_deliver env d (snd (se_malloc env w)))"
    using b(1) s2(4) by (intro exI [of _ ?d] exI [of _ "put_server_stats tbl s2"] exI [of _ "c2\<lparr>sw_stats := tbl\<rparr>"]) auto
qed

lemma server_matches_packet:
  assumes t: "valid_type t" and q: "q \<noteq> 0" "\<And>addr. ch_query_id (hdr addr) = q" and ok: "\<forall>w. se_args_ok env w"
    and proc: "\<And>s tbl addr junk. has_buffer (server_link env) s \<Longrightarrow>
      \<exists>b. got addr b \<and> dps_process_rcvd_pkt (server_link env) (pkt @ junk) addr (tbl, s) =
        count_rcvd t (deliver_answer keep (server_link env) (hdr addr) b (tbl, snd (lk_malloc (server_link env) s)))"
  shows "server_matches env pkt q (\<lambda>ctx addr d. \<exists>b. got addr b \<and> d = \<lparr>cd_context = ctx, cd_hdr = hdr addr, cd_body = b\<rparr>)"
  unfolding server_matches_def
proof (intro allI impI)
  fix E s c socket alen ip zs alen' w and sender :: ip_addr_t and k m
  assume a: "server_ok env E s c" "server_arrives env c socket alen pkt ip zs alen' w" "ia_family sender = AF_INET" and m: "message_for s q = Some m"
  let ?a = "server_heard ip sender"
  obtain c1 junk where c1: "server_receive_loop env socket (Suc k) (sender, alen) s = do {
      (_, (tbl, s')) \<leftarrow> dps_process_rcvd_pkt (server_link env) (pkt @ junk) ?a (sw_stats c, s\<lparr>rt_world := Some c1\<rparr>);
      server_receive_loop env socket k (?a, alen') (put_server_stats tbl s') }"
    "server_ok env E (s\<lparr>rt_world := Some c1\<rparr>) c1" "sw_outer c1 = w" "sw_stats c1 = sw_stats c"
    using server_receives [OF a, of k] by blast
  let ?s = "s\<lparr>rt_world := Some c1\<rparr>"
  have "has_buffer (server_link env) ?s" using a(2) c1(3) server_has_buffer [of ?s c1 env] by (simp add: server_arrives_def)
  then obtain b where b: "got ?a b" "dps_process_rcvd_pkt (server_link env) (pkt @ junk) ?a (sw_stats c, ?s) =
      count_rcvd t (deliver_answer keep (server_link env) (hdr ?a) b (sw_stats c, snd (lk_malloc (server_link env) ?s)))"
    using proc by blast
  let ?d = "\<lparr>cd_context = rc_context m, cd_hdr = hdr ?a, cd_body = b\<rparr>"
  have "ch_query_id (hdr ?a) \<noteq> 0" "message_for ?s (ch_query_id (hdr ?a)) = Some m" using q m by simp_all
  from server_delivers_answer [OF c1(2) this ok, of keep b "sw_stats c"]
  obtain s2 c2 where s2: "deliver_answer keep (server_link env) (hdr ?a) b (sw_stats c, snd (lk_malloc (server_link env) ?s)) = Some (DPS_SUCCESS, (sw_stats c, s2))"
    "server_ok env E s2 c2" "message_for s2 = (message_for s)(q := None)" "sw_outer c2 = se_free env (se_deliver env ?d (snd (se_malloc env w)))"
    unfolding message_for_world c1(3) q(2) by (elim exE conjE) (rule that)
  have len: "length (sw_stats c) = unat DPS_MAX_MSG_TYPE" using a(1) by (simp add: server_ok_def)
  obtain tbl where tbl: "count_rcvd t (Some (DPS_SUCCESS, (sw_stats c, s2))) = Some (DPS_SUCCESS, (tbl, s2))" "length tbl = unat DPS_MAX_MSG_TYPE"
    using counted [OF t len, of DPS_SUCCESS s2] by (elim exE conjE) (rule that)
  have "server_receive_loop env socket (Suc k) (sender, alen) s = server_receive_loop env socket k (?a, alen') (put_server_stats tbl s2)"
    using c1(1) b(2) s2(1) tbl(1) by simp
  moreover have "server_ok env E (put_server_stats tbl s2) (c2\<lparr>sw_stats := tbl\<rparr>)" by (rule server_ok_stats [OF s2(2) tbl(2)])
  moreover have "message_for (put_server_stats tbl s2) = (message_for s)(q := None)" using s2(3) by (simp add: put_server_stats_def on_server_def)
  ultimately show "\<exists>d s' c'. (\<exists>b. got ?a b \<and> d = \<lparr>cd_context = rc_context m, cd_hdr = hdr ?a, cd_body = b\<rparr>) \<and>
      server_receive_loop env socket (Suc k) (sender, alen) s = server_receive_loop env socket k (?a, alen') s' \<and>
      server_ok env E s' c' \<and> message_for s' = (message_for s)(q := None) \<and> sw_outer c' = se_free env (se_deliver env d (snd (se_malloc env w)))"
    using b(1) s2(4) by (intro exI [of _ ?d] exI [of _ "put_server_stats tbl s2"] exI [of _ "c2\<lparr>sw_stats := tbl\<rparr>"]) auto
qed

lemma client_matches_packet:
  assumes pkt: "pkt = pkt_hdrb t h len @ p" and t: "valid_type t" and q: "valid_id (ch_query_id h)"
    and proc: "\<And>s tbl addr junk. has_buffer (client_link env) s \<Longrightarrow>
      \<exists>b. got addr b \<and> dps_process_rcvd_pkt (client_link env) (pkt @ junk) addr (tbl, s) =
        count_rcvd t (deliver_answer keep (client_link env) ((recv_hdr t h zero_hdr)\<lparr>ch_reply_addr := addr\<rparr>) b (tbl, snd (lk_malloc (client_link env) s)))"
  shows "client_matches env pkt (ch_query_id h) (\<lambda>ctx addr d. \<exists>b. got addr b \<and>
    d = \<lparr>cd_context = ctx, cd_hdr = (recv_hdr t h zero_hdr)\<lparr>ch_reply_addr := addr\<rparr>, cd_body = b\<rparr>)"
  unfolding client_matches_def
proof (intro allI impI)
  fix s c m Q socket alen ip st alen' w and sender :: ip_addr_t and ca k ctx owner cs
  assume a: "client_ok env s c m Q" "arrives env c socket alen pkt ip st alen' w" "wf_ip sender" "contexts Q (ch_query_id h) = (ctx, owner) # cs"
  let ?h = "(recv_hdr t h zero_hdr)\<lparr>ch_reply_addr := heard_from ip sender\<rparr>"
  obtain b s' c' m' Q' where "receive_loop env socket (Suc k) (sender, ca, alen) s =
      receive_loop env socket k (heard_from ip sender, over (sockaddr_of ip st) ca, alen') s'" "got (heard_from ip sender) b"
    "client_ok env s' c' m' Q'" "contexts Q' = (contexts Q)(ch_query_id h := cs)"
    "cw_outer c' = ce_free env (ce_deliver env \<lparr>cd_context = ctx, cd_hdr = ?h, cd_body = b\<rparr> (snd (ce_malloc env w)))"
    using client_answered [OF a(1-3) pkt t q a(4) proc, of k ca] by blast
  then show "\<exists>d s' c' m' Q'. (\<exists>b. got (heard_from ip sender) b \<and> d = \<lparr>cd_context = ctx, cd_hdr = ?h, cd_body = b\<rparr>) \<and>
      receive_loop env socket (Suc k) (sender, ca, alen) s =
        receive_loop env socket k (heard_from ip sender, over (sockaddr_of ip st) ca, alen') s' \<and>
      client_ok env s' c' m' Q' \<and> contexts Q' = (contexts Q)(ch_query_id h := cs) \<and>
      cw_outer c' = ce_free env (ce_deliver env d (snd (ce_malloc env w)))"
    by (intro exI [of _ "\<lparr>cd_context = ctx, cd_hdr = ?h, cd_body = b\<rparr>"] exI [of _ s'] exI [of _ c'] exI [of _ m'] exI [of _ Q']) auto
qed

section \<open>An acknowledgement\<close>

lemma ack_packet_addr [simp]: "ack_packet lk (h\<lparr>ch_reply_addr := addr\<rparr>) = ack_packet lk h"
  by (simp add: ack_packet_def ack_hdr_def pkt_hdrb_def)

text \<open>A client hands the message on, and answers the node that sent it over its own socket.\<close>

lemma client_delivers_acked:
  assumes ok: "client_ok env s c m Q" and use: "si_inuse (cw_svr c)" and q: "ch_query_id h \<noteq> 0" and addr: "usable (ch_reply_addr h)"
    and tbl: "length tbl = unat DPS_MAX_MSG_TYPE"
  shows "\<exists>tbl' s' c'. deliver_acked (client_link env) h b (tbl, snd (lk_malloc (client_link env) s)) = Some (DPS_SUCCESS, (tbl', s')) \<and>
    length tbl' = unat DPS_MAX_MSG_TYPE \<and> client_ok env s' c' m Q \<and>
    cw_outer c' = ce_free env (snd (ce_sendto env (si_sock_fd (cw_svr c)) (ack_packet (client_link env) h)
      (take (if ia_family (ch_reply_addr h) = AF_INET then 16 else 28) (sockaddr_of (ch_reply_addr h) (ce_uninit_storage env)))
      (ce_deliver env \<lparr>cd_context = 0, cd_hdr = h, cd_body = b\<rparr> (snd (ce_malloc env (cw_outer c))))))"
proof -
  let ?d = "\<lparr>cd_context = 0, cd_hdr = h, cd_body = b\<rparr>"
  let ?c = "io_do (ce_deliver env ?d) (snd (io (ce_malloc env) c))" and ?pkt = "ack_packet (client_link env) h"
  let ?s = "s\<lparr>ts_world := Some ?c\<rparr>" and ?c2 = "snd (sends_to env ?c ?pkt (ch_reply_addr h))"
    and ?i = "unat (ch_type (ack_hdr h))"
  have w: "ts_world s = Some c" using ok by (simp add: client_ok_def)
  have ok1: "client_ok env ?s ?c m Q" by (rule client_ok_world [OF ok]) simp_all
  obtain h' n where h': "dps_get_pkt_hdr ?pkt (ce_uninit_hdr env) = Some (h', n)"
    unfolding ack_packet_def using get_pkt_hdr_any [of _ _ _ "[]"] by (metis append_Nil2)
  have addr1: "if known_family (ch_reply_addr h) then wf_ip (ch_reply_addr h) else m \<noteq> Map.empty" using addr by (simp add: usable_def)
  have use1: "si_inuse (cw_svr ?c)" using use by simp
  obtain ip where ip: "destination m (ch_vnid h') (ch_reply_addr h) ip"
    "dps_protocol_xmit env ?pkt (ch_reply_addr h) 0 ?s = Some (sent_status (fst (sends_to env ?c ?pkt ip)), ?s\<lparr>ts_world := Some (snd (sends_to env ?c ?pkt ip))\<rparr>)"
    using xmit_plain [OF ok1 use1 h' addr1] by (elim exE conjE) (rule that)
  have ipe: "ip = ch_reply_addr h" using ip(1) addr by (simp add: destination_def usable_def)
  have x: "lk_xmit (client_link env) ?pkt (ch_reply_addr h) 0 ?s =
      (sent_status (fst (sends_to env ?c ?pkt (ch_reply_addr h))), s\<lparr>ts_world := Some ?c2\<rparr>)"
    using ip(2) by (simp add: client_link_def ipe)
  let ?tbl = "tbl[?i := count_sent (sent_status (fst (sends_to env ?c ?pkt (ch_reply_addr h)))) (tbl ! ?i)]"
  have "dps_client_create_general_ack (client_link env) h (tbl, ?s) = Some (?tbl, s\<lparr>ts_world := Some ?c2\<rparr>)"
    using ack_sent [OF q, of "client_link env" ?s tbl] tbl x by (simp add: Let_def)
  then have "deliver_acked (client_link env) h b (tbl, snd (lk_malloc (client_link env) s)) =
      Some (DPS_SUCCESS, (?tbl, s\<lparr>ts_world := Some (io_do (ce_free env) ?c2)\<rparr>))"
    using w by (simp add: deliver_acked_def client_link_world)
  moreover have "client_ok env (s\<lparr>ts_world := Some (io_do (ce_free env) ?c2)\<rparr>) (io_do (ce_free env) ?c2) m Q"
    by (rule client_ok_world [OF ok]) (simp_all add: sends_to_def)
  ultimately show ?thesis using tbl
    by (intro exI [of _ ?tbl] exI [of _ "s\<lparr>ts_world := Some (io_do (ce_free env) ?c2)\<rparr>"] exI [of _ "io_do (ce_free env) ?c2"]) (simp add: sends_to_def)
qed

lemma client_acks_packet:
  assumes pkt: "pkt = pkt_hdrb t h len @ p" and t: "valid_type t" and q: "ch_query_id h \<noteq> 0"
    and proc: "\<And>s tbl addr junk. has_buffer (client_link env) s \<Longrightarrow>
      \<exists>b. got addr b \<and> dps_process_rcvd_pkt (client_link env) (pkt @ junk) addr (tbl, s) =
        count_rcvd t (deliver_acked (client_link env) ((recv_hdr t h zero_hdr)\<lparr>ch_reply_addr := addr\<rparr>) b (tbl, snd (lk_malloc (client_link env) s)))"
  shows "client_acks env pkt (\<lambda>addr d. \<exists>b. got addr b \<and> d = \<lparr>cd_context = 0, cd_hdr = (recv_hdr t h zero_hdr)\<lparr>ch_reply_addr := addr\<rparr>, cd_body = b\<rparr>)
    (ack_packet (client_link env) (recv_hdr t h zero_hdr))"
  unfolding client_acks_def
proof (intro allI impI)
  fix s c m Q socket alen ip st alen' w and sender :: ip_addr_t and ca k
  assume ok: "client_ok env s c m Q" and a: "arrives env c socket alen pkt ip st alen' w" and d: "wf_ip sender" and use: "si_inuse (cw_svr c)"
  have n: "0 < int (length pkt)" using pkt by simp
  have a': "usable ip" "24 \<le> length st" "has_client_buffer env w"
    "ce_recvfrom env socket alen (cw_outer c) = ((int (length pkt), pkt, sockaddr_of ip st, alen'), w)"
    using a by (simp_all add: arrives_def)
  let ?a = "heard_from ip sender"
  let ?h = "(recv_hdr t h zero_hdr)\<lparr>ch_reply_addr := ?a\<rparr>"
  obtain c1 m1 junk where c1: "receive_loop env socket (Suc k) (sender, ca, alen) s = do {
      (_, (tbl, s')) \<leftarrow> dps_process_rcvd_pkt (client_link env) (pkt @ junk) ?a (cw_stats c1, s\<lparr>ts_world := Some c1\<rparr>);
      receive_loop env socket k (?a, over (sockaddr_of ip st) ca, alen') (put_stats tbl s') }"
    "client_ok env (s\<lparr>ts_world := Some c1\<rparr>) c1 m1 Q" "cw_outer c1 = w" "cw_stats c1 = cw_stats c"
    "si_inuse (cw_svr c1) = si_inuse (cw_svr c)" "si_sock_fd (cw_svr c1) = si_sock_fd (cw_svr c)"
    using receive_learns [OF ok a'(4) n a'(1,2) d pkt, of k ca] by blast
  let ?s = "s\<lparr>ts_world := Some c1\<rparr>"
  have "has_buffer (client_link env) ?s" using client_has_buffer [of ?s c1] a'(3) c1(3) by simp
  then obtain b where b: "got ?a b" "dps_process_rcvd_pkt (client_link env) (pkt @ junk) ?a (cw_stats c1, ?s) =
      count_rcvd t (deliver_acked (client_link env) ?h b (cw_stats c1, snd (lk_malloc (client_link env) ?s)))"
    using proc by blast
  have h: "ch_query_id ?h \<noteq> 0" "usable (ch_reply_addr ?h)" and use1: "si_inuse (cw_svr c1)" and fam: "ia_family ?a = ia_family ip"
    and len: "length (cw_stats c1) = unat DPS_MAX_MSG_TYPE"
    using q usable_heard [OF a'(1) d] use c1(4,5) ok by (simp_all add: recv_hdr_def client_ok_def world_ok_def heard_from_def)
  let ?d = "\<lparr>cd_context = 0, cd_hdr = ?h, cd_body = b\<rparr>" and ?ack = "ack_packet (client_link env) (recv_hdr t h zero_hdr)"
  obtain tbl2 s2 c2 where s2: "deliver_acked (client_link env) ?h b (cw_stats c1, snd (lk_malloc (client_link env) ?s)) = Some (DPS_SUCCESS, (tbl2, s2))"
    "length tbl2 = unat DPS_MAX_MSG_TYPE" "client_ok env s2 c2 m1 Q"
    "cw_outer c2 = ce_free env (snd (ce_sendto env (si_sock_fd (cw_svr c)) (ack_packet (client_link env) ?h)
      (take (if ia_family (ch_reply_addr ?h) = AF_INET then 16 else 28) (sockaddr_of (ch_reply_addr ?h) (ce_uninit_storage env)))
      (ce_deliver env ?d (snd (ce_malloc env w)))))"
    using client_delivers_acked [OF c1(2) use1 h len, of b] unfolding c1(3,6) by (elim exE conjE) (rule that)
  obtain tbl where tbl: "count_rcvd t (Some (DPS_SUCCESS, (tbl2, s2))) = Some (DPS_SUCCESS, (tbl, s2))" "length tbl = unat DPS_MAX_MSG_TYPE"
    using counted [OF t s2(2), of DPS_SUCCESS s2] by (elim exE conjE) (rule that)
  have "receive_loop env socket (Suc k) (sender, ca, alen) s = receive_loop env socket k (?a, over (sockaddr_of ip st) ca, alen') (put_stats tbl s2)"
    using c1(1) b(2) s2(1) tbl(1) by simp
  moreover have "client_ok env (put_stats tbl s2) (c2\<lparr>cw_stats := tbl\<rparr>) m1 Q" by (rule client_ok_stats [OF s2(3) tbl(2)])
  moreover have "cw_outer c2 = ce_free env (snd (ce_sendto env (si_sock_fd (cw_svr c)) ?ack
      (take (if ia_family ip = AF_INET then 16 else 28) (sockaddr_of ?a (ce_uninit_storage env))) (ce_deliver env ?d (snd (ce_malloc env w)))))"
    using s2(4) fam by simp
  ultimately show "\<exists>d s' c' m'. (\<exists>b. got ?a b \<and> d = \<lparr>cd_context = 0, cd_hdr = ?h, cd_body = b\<rparr>) \<and>
      receive_loop env socket (Suc k) (sender, ca, alen) s = receive_loop env socket k (?a, over (sockaddr_of ip st) ca, alen') s' \<and>
      client_ok env s' c' m' Q \<and> cw_outer c' = ce_free env (snd (ce_sendto env (si_sock_fd (cw_svr c)) ?ack
        (take (if ia_family ip = AF_INET then 16 else 28) (sockaddr_of ?a (ce_uninit_storage env))) (ce_deliver env d (snd (ce_malloc env w)))))"
    using b(1) by (intro exI [of _ ?d] exI [of _ "put_stats tbl s2"] exI [of _ "c2\<lparr>cw_stats := tbl\<rparr>"] exI [of _ m1]) auto
qed

end
