(* ===== verification/Dps_Server_Conduct.thy ===== *)
theory Dps_Server_Conduct
  imports Dps_Network
begin

text \<open>
  The properties of the server's transport and of the exchanges of a client
  with a server, with instances.
\<close>

section \<open>A sample server\<close>

definition server_sample_env :: "outer_world server_env" where
  "server_sample_env = \<lparr>
     se_alloc_message = (\<lambda>s. List.find (\<lambda>a. rt_heap s a = None) [0..<8]),
     se_object_ok = (\<lambda>_. True), se_args_ok = (\<lambda>_. True), se_keys = rev,
     se_malloc = (\<lambda>w. (Some (replicate DPS_MAX_BUFF_SZ 0), w)), se_free = (\<lambda>w. w), se_active = (\<lambda>_. True),
     se_timer_init = (\<lambda>w. (RAW_PROTO_TIMER_RETURN_OK, w)), se_socket = (\<lambda>w. (6, w)), se_bind = (\<lambda>_ _ w. (0, w)),
     se_buffer_size = (\<lambda>_ w. w), se_fcntl = (\<lambda>_ w. (0, w)), se_add_fd = (\<lambda>_ w. (0, w)),
     se_sendto = (\<lambda>_ pkt addr w. (int (length pkt), w\<lparr>ow_sent := ow_sent w @ [(pkt, addr)]\<rparr>)),
     se_recvfrom = (\<lambda>_ alen w. case ow_inbox w of [] \<Rightarrow> ((-1, [], [], alen), w)
       | (pkt, addr) # ps \<Rightarrow> ((int (length pkt), pkt, addr, length addr), w\<lparr>ow_inbox := ps\<rparr>)),
     se_deliver = (\<lambda>d w. w\<lparr>ow_handed := ow_handed w @ [d]\<rparr>),
     se_uninit_zero = replicate 8 0, se_uninit_hdr = zero_hdr\<rparr>"

definition server_sample :: "outer_world \<Rightarrow> outer_world server_world" where
  "server_sample w = \<lparr>sw_server_sock = 6, sw_buffer = replicate DPS_MAX_BUFF_SZ 0, sw_stats = dps_pkt_stats_tbl, sw_outer = w\<rparr>"

lemma server_sample_env_ok: "server_env_ok server_sample_env" "\<forall>w. se_args_ok server_sample_env w"
  by (auto simp: server_env_ok_def server_sample_env_def find_Some_iff)

lemma server_sample_simps [simp]: "sw_server_sock (server_sample w) = 6" "sw_outer (server_sample w) = w" "sw_stats (server_sample w) = dps_pkt_stats_tbl"
  by (simp_all add: server_sample_def)

lemma server_sample_ok: "server_sock_ok server_sample_env [] (rt_boot (Some (server_sample w))) (server_sample w)"
  using server_sample_env_ok stats_length
  by (simp add: server_sock_ok_def server_ok_def rt_inv_empty rt_boot_def has_server_buffer_def) (simp add: server_sample_env_def server_sample_def)

section \<open>Memory\<close>

text \<open>
  C3.  However the threads of the server interleave, the store of messages
  stays well-formed: every message has one block of memory and no block is
  used twice; no operation of the handler reads or frees memory it does not
  own, and the timer and the reports end.
\<close>

theorem server_memory_safe:
  assumes "server_env_ok env" and "rt_reaches (server_retransmit env) (E, s)"
  shows "rt_inv E s \<and> (\<forall>k q. ok_query q \<longrightarrow> start_message (server_retransmit env) k q s \<noteq> None) \<and>
    (\<forall>k. retransmit_timer_stop (server_retransmit env) k s \<noteq> None) \<and> (E = [] \<longrightarrow> Timer_Routine (server_retransmit env) s \<noteq> None) \<and>
    timeout_all (server_retransmit env) E s \<noteq> None"
proof (intro conjI allI impI)
  note ok = server_rt_env_ok [OF assms(1)]
  show i: "rt_inv E s" using assms(2) ok by (rule rt_reaches_inv)
  show "start_message (server_retransmit env) k q s \<noteq> None" if "ok_query q" for k q
    using start_any [OF i _ that] ok unfolding rt_env_ok_def by fastforce
  show "retransmit_timer_stop (server_retransmit env) k s \<noteq> None" for k using stop_any [OF i] by fastforce
  show "Timer_Routine (server_retransmit env) s \<noteq> None" if "E = []"
    using round_law [OF i [unfolded that] _ server_calls_outside] ok unfolding rt_env_ok_def by fastforce
  show "timeout_all (server_retransmit env) E s \<noteq> None" using timeout_all_outside [OF i server_calls_outside] by auto
qed

definition sample_notice :: "nat \<Rightarrow> dps_retransmit_context_t" where
  "sample_notice n = server_message server_sample_env [1, 2, 3] 6 sample_ip n"

lemma sample_notice_ok: "ok_query (sample_notice n)"
  using dst_addr_ok [OF server_sample_env_ok(1)] by (simp add: ok_query_def sample_notice_def server_message_def)

lemma rt_inv_boot: "rt_inv [] (rt_boot w)"
  by (rule rt_inv_empty) (simp_all add: rt_boot_def)

lemma sample_started:
  "\<exists>s. start_message (server_retransmit server_sample_env) 9 (sample_notice 21) (rt_boot (Some (server_sample sample_quiet))) = Some (0, s) \<and>
    length (rt_Query_ID_Hash s) = 1"
  using start_message [OF sample_notice_ok, of "server_retransmit server_sample_env" 9 21 "rt_boot (Some (server_sample sample_quiet))"]
    server_fresh(1) [OF server_sample_env_ok(1)]
  by (simp add: server_retransmit_def keeps_room_def rt_boot_def added_def upt_rec sample_notice_def) (simp add: server_sample_env_def upt_rec)

theorem server_memory_safe_witness:
  "\<exists>s. rt_Query_ID_Hash s \<noteq> [] \<and> rt_inv [] s \<and> Timer_Routine (server_retransmit server_sample_env) s \<noteq> None"
proof -
  obtain s where s: "start_message (server_retransmit server_sample_env) 9 (sample_notice 21) (rt_boot (Some (server_sample sample_quiet))) = Some (0, s)"
    "length (rt_Query_ID_Hash s) = 1"
    using sample_started by blast
  then have "rt_reaches (server_retransmit server_sample_env) ([], s)"
    unfolding rt_reaches_def using rt_step.start [OF sample_notice_ok s(1)] by blast
  from server_memory_safe [OF server_sample_env_ok(1) this] show ?thesis using s(2) by (intro exI [of _ s]) auto
qed

text \<open>
  C14.  Any sequence of starts and stops of retransmissions at the server does
  what it would do to a queue of contexts per query id, of which each holds
  at most one.
\<close>

theorem server_refines_queues:
  assumes "message_repr env s P" and "\<forall>x \<in> set ops. op_query_ok ok_query x"
  shows "\<exists>outs s' P'. run_store (start_message env) (stop_for env) ops s = Some (outs, s') \<and>
    accepts message_context ops outs P = Some P' \<and> message_repr env s' P' \<and> (\<forall>k. length (P' k) \<le> 1)"
proof -
  obtain outs s' P' where *: "run_store (start_message env) (stop_for env) ops s = Some (outs, s')"
    "accepts message_context ops outs P = Some P'" "message_repr env s' P'"
    using message_store.run_accepted [OF assms(1)] assms(2) by blast
  have "length (P' k) \<le> 1" for k using *(3) by (auto simp: message_repr_def split: option.split)
  then show ?thesis using * by blast
qed

theorem server_refines_queues_witness:
  "\<exists>outs s' P'. run_store (start_message (server_retransmit server_sample_env)) (stop_for (server_retransmit server_sample_env))
      [Start 9 (sample_notice 21), Start 9 (sample_notice 22), Stop 9, Stop 9] (rt_boot (Some (server_sample sample_quiet))) = Some (outs, s') \<and>
    accepts message_context [Start 9 (sample_notice 21), Start 9 (sample_notice 22), Stop 9, Stop 9] outs (\<lambda>_. []) = Some P'"
proof -
  have "message_repr (server_retransmit server_sample_env) (rt_boot (Some (server_sample sample_quiet))) (\<lambda>_. [])"
    using server_fresh(1) [OF server_sample_env_ok(1)] rt_inv_boot [of "Some (server_sample sample_quiet)"]
    by (auto simp: message_repr_def server_retransmit_def retransmit_calls_def server_sample_env_ok message_for_def rt_boot_def split: option.split)
  from server_refines_queues [OF this, of "[Start 9 (sample_notice 21), Start 9 (sample_notice 22), Stop 9, Stop 9]"]
  show ?thesis using sample_notice_ok by auto
qed

section \<open>How many messages are kept\<close>

lemma removed_length: "length (rt_Query_ID_Hash (removed k s)) \<le> length (rt_Query_ID_Hash s)"
  by (simp add: removed_def AList.length_delete_le split: option.split)

lemma aged_length: "length (aged K d) \<le> length d"
  by (simp add: aged_def)

lemma step_bound:
  assumes "rt_step env (E, s) (E', s')" and ok: "rt_env_ok env" and g: "calls_outside env g" and i: "rt_inv E s"
    and n: "length (rt_Query_ID_Hash s) \<le> max_queue_len + 1"
  shows "length (rt_Query_ID_Hash s') \<le> max_queue_len + 1"
  using assms(1)
proof (cases rule: rt_step.cases)
  case (start q k rc)
  then show ?thesis using n start_message [of q env k s] ok by (auto simp: rt_env_ok_def keeps_room_def added_def split: if_splits)
next
  case (stop k rc c)
  then show ?thesis using n removed_length [of k s] stop_message [OF i, of env k]
    by (cases "re_args_ok env (rt_world s)") (auto simp: retransmit_timer_stop_def)
next
  case (next_id q)
  then show ?thesis using n by (auto simp: retransmit_timer_query_id_generate_def generate_query_id_def Let_def split: if_splits)
next
  case expire
  then show ?thesis using n i ok expire_law [of s env] aged_length [of UNIV "rt_Query_ID_Hash s"] unfolding rt_env_ok_def by force
next
  case (report m)
  obtain c where "rt_heap s m = Some c" using i report by (auto simp: rt_inv_def)
  then show ?thesis using n timeout_outside [OF _ g, of m E' s c] i report by auto
next
  case (elsewhere w)
  then show ?thesis using n by simp
qed

text \<open>
  C37.  The handler never keeps more than 8193 messages, one more than its
  limit \<open>max_queue_len\<close>: a message that arrives when there are 8192
  is still accepted.
\<close>

theorem server_queue_bound:
  assumes "server_env_ok env" and "rt_reaches (server_retransmit env) (E, s)"
  shows "length (rt_Query_ID_Hash s) \<le> 8193 \<and> (length (rt_Query_ID_Hash s) = 8193 \<longrightarrow> Queue k m z s = (-1, s)) \<and>
    (length (rt_Query_ID_Hash s) = 8192 \<and> k \<notin> fst ` set (rt_Query_ID_Hash s) \<longrightarrow>
      fst (Queue k m z s) = 0 \<and> length (rt_Query_ID_Hash (snd (Queue k m z s))) = 8193)"
proof -
  note ok = server_rt_env_ok [OF assms(1)]
  have bd: "rt_inv (fst es') (snd es') \<and> length (rt_Query_ID_Hash (snd es')) \<le> 8193"
    if "(rt_step (server_retransmit env))\<^sup>*\<^sup>* es es'" "rt_inv (fst es) (snd es)" "length (rt_Query_ID_Hash (snd es)) \<le> 8193" for es es'
    using that
  proof (induction)
    case (step es1 es2)
    then show ?case using rt_step_inv [OF _ ok, of "fst es1" "snd es1" "fst es2" "snd es2"]
        step_bound [OF _ ok server_calls_outside, of "fst es1" "snd es1" "fst es2" "snd es2"] by simp
  qed simp
  obtain w where w: "(rt_step (server_retransmit env))\<^sup>*\<^sup>* ([], rt_boot w) (E, s)" using assms(2) by (auto simp: rt_reaches_def)
  have "length (rt_Query_ID_Hash s) \<le> 8193" using bd [OF w] rt_inv_boot [of w] by (simp add: rt_boot_def)
  then show ?thesis by (auto simp: Queue_def update_new map_of_None [THEN iffD2])
qed

theorem server_queue_bound_witness:
  "\<exists>s. length (rt_Query_ID_Hash s) = 1 \<and> rt_reaches (server_retransmit server_sample_env) ([], s) \<and> length (rt_Query_ID_Hash s) \<le> 8193"
proof -
  obtain s where s: "start_message (server_retransmit server_sample_env) 9 (sample_notice 21) (rt_boot (Some (server_sample sample_quiet))) = Some (0, s)"
    "length (rt_Query_ID_Hash s) = 1"
    using sample_started by blast
  then have "rt_reaches (server_retransmit server_sample_env) ([], s)"
    unfolding rt_reaches_def using rt_step.start [OF sample_notice_ok s(1)] by blast
  from server_queue_bound [OF server_sample_env_ok(1) this] this show ?thesis using s(2) by blast
qed

text \<open>
  A message that asks to be retransmitted and that the handler does not
  accept is not sent at all; the caller gets
  \<open>DPS_ERROR_NO_RESOURCES\<close>, and nothing is kept.
\<close>

theorem server_unkept_not_sent:
  assumes "server_env_ok env" and "rt_world s = Some c" and "dps_get_pkt_hdr pkt (se_uninit_hdr env) = Some (h, n)" and "cntxt \<noteq> 0"
    and "sw_server_sock c < 0 \<or> se_alloc_message env s = None \<or> \<not> se_args_ok env (sw_outer c) \<or>
      length (rt_Query_ID_Hash s) = 8193 \<or> message_for s (ch_query_id h) = Some m"
  shows "Dps_Server_Ctrl.dps_protocol_xmit env pkt addr cntxt s = Some (DPS_ERROR_NO_RESOURCES, s)"
proof (rule server_xmit_refused [OF assms(1-4)])
  have "ch_query_id h \<in> fst ` set (rt_Query_ID_Hash s)" if "message_for s (ch_query_id h) = Some m"
    using that map_of_None [of "rt_Query_ID_Hash s" "ch_query_id h"] by (auto simp: message_for_def split: option.splits)
  then show "\<not> keeps_room (no_calls env) (ch_query_id h) (server_message env pkt (sw_server_sock c) addr cntxt) s"
    using assms(2,5) by (auto simp: keeps_room_def no_calls_def)
qed

theorem server_unkept_not_sent_witness:
  "Dps_Server_Ctrl.dps_protocol_xmit server_sample_env (pkt_hdrb DPS_UNSOLICITED_VNID_POLICY_LIST zero_hdr 20 @ []) sample_ip 21
      (rt_boot (Some ((server_sample sample_quiet)\<lparr>sw_server_sock := -1\<rparr>))) =
    Some (DPS_ERROR_NO_RESOURCES, rt_boot (Some ((server_sample sample_quiet)\<lparr>sw_server_sock := -1\<rparr>)))"
proof -
  obtain h n where "dps_get_pkt_hdr (pkt_hdrb DPS_UNSOLICITED_VNID_POLICY_LIST zero_hdr 20 @ []) (se_uninit_hdr server_sample_env) = Some (h, n)"
    using get_pkt_hdr_any by blast
  then show ?thesis
    by (intro server_unkept_not_sent [OF server_sample_env_ok(1), where m = "sample_notice 0" and c = "(server_sample sample_quiet)\<lparr>sw_server_sock := -1\<rparr>"])
      (simp_all add: rt_boot_def)
qed

section \<open>A message nobody acknowledges\<close>

text \<open>The messages the server keeps: for IPv4, with its own callback, and with a packet it has built itself.\<close>

definition own_message :: "dps_retransmit_context_t \<Rightarrow> dps_client_hdr_t \<Rightarrow> bool" where
  "own_message m h \<longleftrightarrow> rc_family m = AF_INET \<and> rc_callback_function m = SERVER_CALLBACK \<and>
     (\<exists>n. dps_get_pkt_hdr (rc_data m) zero_hdr = Some (h, n)) \<and> valid_type (ch_type h)"

definition no_answer :: "nat \<Rightarrow> dps_client_hdr_t \<Rightarrow> dps_client_body \<Rightarrow> dps_client_data_t" where
  "no_answer cntxt h b = \<lparr>cd_context = cntxt,
     cd_hdr = h\<lparr>ch_type := reply_type (ch_type h), ch_resp_status := DPS_NO_RESPONSE, ch_sub_type := ch_type h\<rparr>, cd_body = b\<rparr>"

lemma own_resent:
  assumes "own_message m h"
  shows "sent_again (server_retransmit env) m (Some c) = Some (snd (sio (se_sendto env (rc_sock_fd m) (rc_data m) (rc_address m)) c))"
    "sent_again (server_retransmit env) m None = None"
  using assms by (simp_all add: sent_again_def own_message_def server_retransmit_def) (simp add: retransmit_calls_def)

lemma own_reported:
  assumes "own_message m h"
  shows "\<exists>b. reported (server_effect env) m (Some c) = Some (sio_do (se_deliver env (no_answer (rc_context m) h b)) c)"
    "reported (server_effect env) m None = None"
proof -
  obtain n where n: "dps_get_pkt_hdr (rc_data m) zero_hdr = Some (h, n)" "valid_type (ch_type h)" and f: "rc_callback_function m = SERVER_CALLBACK"
    using assms by (auto simp: own_message_def)
  let ?s = "rt_boot (Some c) :: 'a server_state"
  obtain b where b: "dps_retransmit_callback (server_link env) RAW_PROTO_MAX_NUM_RETRANSMIT_EXCEEDED (rc_data m) (rc_context m) (sw_stats c, ?s) =
      Some (sw_stats c, lk_deliver (server_link env) (no_answer (rc_context m) h b) ?s)"
    using callback_delivers [OF n, of "server_link env" "rc_context m" "sw_stats c" ?s] by (auto simp: no_answer_def)
  have w: "rt_world ?s = Some c" by (simp add: rt_boot_def)
  show "\<exists>b. reported (server_effect env) m (Some c) = Some (sio_do (se_deliver env (no_answer (rc_context m) h b)) c)"
    using b w f by (intro exI [of _ b]) (simp add: reported_def server_effect_def server_callback_def server_link_world put_server_stats_def on_server_def sio_do_def)
  show "reported (server_effect env) m None = None" by (simp add: reported_def server_effect_def server_callback_def rt_boot_def)
qed

lemma own_view:
  assumes o: "own_message m h" and sent: "\<forall>w. view (snd (se_sendto env (rc_sock_fd m) (rc_data m) (rc_address m) w)) = sent (view w)"
    and rep: "\<forall>w b. view (se_deliver env (no_answer (rc_context m) h b) w) = rep (view w)"
  shows "map_option (\<lambda>c. view (sw_outer c)) (sent_again (server_retransmit env) m w) = map_option sent (map_option (\<lambda>c. view (sw_outer c)) w) \<and>
    map_option (\<lambda>c. view (sw_outer c)) (reported (server_effect env) m w) = map_option rep (map_option (\<lambda>c. view (sw_outer c)) w)"
proof (cases w)
  case None
  then show ?thesis using own_resent [OF o, of env] own_reported(2) [OF o, of env] by simp
next
  case (Some c)
  obtain b where "reported (server_effect env) m (Some c) = Some (sio_do (se_deliver env (no_answer (rc_context m) h b)) c)"
    using own_reported(1) [OF o, of env c] by (elim exE)
  then show ?thesis using Some own_resent(1) [OF o, of env c] sent rep by simp
qed

text \<open>
  C6.  A message that nobody acknowledges is sent again in each round of the
  timer as often as it has attempts left, and the next round hands the data
  handler a made-up answer with the status \<open>DPS_NO_RESPONSE\<close> and
  forgets the message.  Other messages may wait at the same time:
  \<open>view\<close> shows what concerns this one.
\<close>

theorem server_message_reported:
  assumes "server_ok env [] s c" and "message_left s k = Some (m, n)" and "own_message m h"
    and sent: "\<forall>w. view (snd (se_sendto env (rc_sock_fd m) (rc_data m) (rc_address m) w)) = sent (view w)"
    and rep: "\<forall>w b. view (se_deliver env (no_answer (rc_context m) h b) w) = rep (view w)"
    and rest: "\<forall>m' \<in> others s k. \<exists>h'. own_message m' h' \<and>
      (\<forall>w. view (snd (se_sendto env (rc_sock_fd m') (rc_data m') (rc_address m') w)) = view w) \<and>
      (\<forall>w b. view (se_deliver env (no_answer (rc_context m') h' b) w) = view w)"
  shows "\<exists>s' c'. rounds (server_retransmit env) (Suc n) s = Some s' \<and> rt_inv [] s' \<and> rt_world s' = Some c' \<and> message_for s' k = None \<and>
    view (sw_outer c') = rep ((sent ^^ n) (view (sw_outer c)))"
proof -
  let ?v = "map_option (\<lambda>c. view (sw_outer c))"
  note m = own_view [OF assms(3) sent rep]
  have m': "?v (sent_again (server_retransmit env) m' w) = ?v w \<and> ?v (reported (server_effect env) m' w) = ?v w" if o: "m' \<in> others s k" for m' w
  proof -
    obtain h' where h': "own_message m' h'" "\<forall>w. view (snd (se_sendto env (rc_sock_fd m') (rc_data m') (rc_address m') w)) = (\<lambda>x. x) (view w)"
      "\<forall>w b. view (se_deliver env (no_answer (rc_context m') h' b) w) = (\<lambda>x. x) (view w)"
      using rest o by blast
    show ?thesis using own_view [OF h'] by (simp add: option.map_ident)
  qed
  have "watches (server_retransmit env) (server_effect env) (others s k) ?v (map_option sent) (map_option rep) m"
    unfolding watches_def using m m' by blast
  moreover have i: "rt_inv [] s" "rt_world s = Some c" "lists_keys (server_retransmit env)"
    using assms(1) server_fresh(2) [of env] by (simp_all add: server_ok_def server_retransmit_def)
  ultimately obtain s' where s': "rounds (server_retransmit env) (Suc n) s = Some s'" "rt_inv [] s'" "message_left s' k = None"
    "?v (rt_world s') = map_option rep ((map_option sent ^^ n) (?v (rt_world s)))"
    using rounds_watched [OF i(1,3) server_calls_outside assms(2)] by blast
  have "(map_option sent ^^ n) (Some x) = Some ((sent ^^ n) x)" for x by (induction n) simp_all
  then have "?v (rt_world s') = Some (rep ((sent ^^ n) (view (sw_outer c))))" using s'(4) i(2) by simp
  then show ?thesis using s'(1-3) by (auto simp: message_for_left)
qed

definition sample_pkt :: bytes where
  "sample_pkt = pkt_hdrb DPS_UNSOLICITED_VNID_POLICY_LIST (zero_hdr\<lparr>ch_query_id := 9\<rparr>) 20"

definition sample_hdr :: dps_client_hdr_t where
  "sample_hdr = recv_hdr DPS_UNSOLICITED_VNID_POLICY_LIST (zero_hdr\<lparr>ch_query_id := 9\<rparr>) zero_hdr"

definition sample_kept :: dps_retransmit_context_t where
  "sample_kept = (server_message server_sample_env sample_pkt 6 sample_ip 21)\<lparr>rc_query_id := 9\<rparr>"

definition waiting_server :: "outer_world server_state" where
  "waiting_server = added 9 0 sample_kept (rt_boot (Some (server_sample sample_quiet)))"

lemma waiting_server_ok: "server_ok server_sample_env [] waiting_server (server_sample sample_quiet)" "message_left waiting_server 9 = Some (sample_kept, 3)"
  "others waiting_server 9 = {}"
proof -
  have "rt_inv [] waiting_server" unfolding waiting_server_def added_def by (rule rt_inv_add [OF rt_inv_boot]) (simp_all add: rt_boot_def sample_kept_def)
  then show "server_ok server_sample_env [] waiting_server (server_sample sample_quiet)"
    using server_sample_env_ok stats_length by (simp add: server_ok_def waiting_server_def added_def rt_boot_def) (simp add: server_sample_def)
  show "message_left waiting_server 9 = Some (sample_kept, 3)" unfolding waiting_server_def by (rule message_left_added) (simp add: rt_boot_def)
  show "others waiting_server 9 = {}" by (auto simp: others_def message_for_def waiting_server_def added_def rt_boot_def split: option.splits if_splits)
qed

lemma sample_kept_own: "own_message sample_kept sample_hdr"
  using get_pkt_hdr_any [of DPS_UNSOLICITED_VNID_POLICY_LIST "zero_hdr\<lparr>ch_query_id := 9\<rparr>" 20 "[]" zero_hdr]
  by (simp add: own_message_def sample_kept_def server_message_def sample_pkt_def sample_hdr_def) (simp add: recv_hdr_def valid_type_def)

theorem server_message_reported_witness:
  "\<exists>s' c'. rounds (server_retransmit server_sample_env) 4 waiting_server = Some s' \<and> rt_world s' = Some c' \<and> message_for s' 9 = None \<and>
    ow_sent (sw_outer c') = replicate 3 (sample_pkt, rc_address sample_kept) \<and>
    map (\<lambda>d. (cd_context d, ch_resp_status (cd_hdr d), ch_query_id (cd_hdr d))) (ow_handed (sw_outer c')) = [(21, DPS_NO_RESPONSE, 9)]"
proof -
  let ?v = "\<lambda>w. (ow_sent w, map (\<lambda>d. (cd_context d, ch_resp_status (cd_hdr d), ch_query_id (cd_hdr d))) (ow_handed w))"
  let ?sent = "\<lambda>(ps, ds). (ps @ [(sample_pkt, rc_address sample_kept)], ds)" and ?rep = "\<lambda>(ps, ds). (ps, ds @ [(21, DPS_NO_RESPONSE, 9)])"
  have "rc_data sample_kept = sample_pkt" "rc_context sample_kept = 21" by (simp_all add: sample_kept_def)
  then have "\<exists>s' c'. rounds (server_retransmit server_sample_env) (Suc 3) waiting_server = Some s' \<and> rt_inv [] s' \<and> rt_world s' = Some c' \<and>
      message_for s' 9 = None \<and> ?v (sw_outer c') = ?rep ((?sent ^^ 3) (?v (sw_outer (server_sample sample_quiet))))"
    by (intro server_message_reported [OF waiting_server_ok(1,2) sample_kept_own])
       (simp_all add: waiting_server_ok(3) server_sample_env_def no_answer_def sample_hdr_def recv_hdr_def)
  then show ?thesis by (fastforce simp: sample_quiet_def numeral_eq_Suc simp del: rounds.simps)
qed

end
