(* ===== verification/Osw_Timer.thy ===== *)
theory Osw_Timer
  imports Dove_Prelude
begin

text \<open>
  The tasks and timers of the operating system wrapper, \<open>task.c\<close> and
  \<open>timer.c\<close> with \<open>osw_task.h\<close>, \<open>osw_timer.h\<close>
  and \<open>osw_list.h\<close>: the events of a task and a hierarchical timing
  wheel.
\<close>

type_synonym u64 = "64 word"

abbreviation (input) OSW_OK :: int where "OSW_OK \<equiv> 0"
abbreviation (input) OSW_ERROR :: int where "OSW_ERROR \<equiv> -1"
abbreviation (input) OSW_NO_WAIT :: u32 where "OSW_NO_WAIT \<equiv> 0"
abbreviation (input) TASK_NAME_LEN :: nat where "TASK_NAME_LEN \<equiv> 16"

section \<open>State\<close>

text \<open>
  A list of nodes is the list of their addresses, first node first.  A node
  that has been initialised is \<open>Unlinked\<close>; one that was removed
  holds the two poison values.
\<close>

datatype hlist_node = Unlinked | Linked | Poisoned

record task_info =
  tk_name :: string
  tk_events :: u32

record timer_list =
  tr_entry :: hlist_node
  tr_expires :: u64
  tr_tid :: nat
  tr_event :: u32
  tr_callback :: "nat option"
  tr_data :: u64

datatype tvec = TV1 | TV2 | TV3 | TV4 | TV5

text \<open>Both bases, with the memory of their nodes; \<open>os_world\<close> is what else the callbacks of the timers change.\<close>

record 'w osw =
  os_task_list :: "nat list"
  os_tasks :: "nat \<Rightarrow> task_info option"
  os_ticks :: u64
  os_tv :: "tvec \<Rightarrow> nat \<Rightarrow> nat list"
  os_timers :: "nat \<Rightarrow> timer_list option"
  os_world :: 'w

section \<open>Tasks\<close>

text \<open>The address of the task, or \<open>None\<close> for the 0 of the source.\<close>

definition search_task :: "string \<Rightarrow> 'w osw \<Rightarrow> nat option" where
  "search_task name s = List.find (\<lambda>a. map_option tk_name (os_tasks s a) = Some name) (os_task_list s)"

text \<open>\<open>mem\<close> is the block \<open>malloc\<close> returns, \<open>thread_ok\<close> whether the thread starts.\<close>

definition create_task :: "string \<Rightarrow> nat option \<Rightarrow> bool \<Rightarrow> 'w osw \<Rightarrow> int \<times> nat option \<times> 'w osw" where
  "create_task name mem thread_ok s =
     (if search_task name s \<noteq> None then (OSW_ERROR, None, s)
      else case mem of
        None \<Rightarrow> (OSW_ERROR, None, s)
      | Some a \<Rightarrow> if thread_ok
          then (OSW_OK, Some a, s\<lparr>os_task_list := a # os_task_list s,
            os_tasks := (os_tasks s)(a \<mapsto> \<lparr>tk_name = take TASK_NAME_LEN name, tk_events = 0\<rparr>)\<rparr>)
          else (OSW_ERROR, Some a, s))"

definition del_task :: "nat \<Rightarrow> 'w osw \<Rightarrow> 'w osw option" where
  "del_task tid s = (case os_tasks s tid of None \<Rightarrow> None
     | Some _ \<Rightarrow> Some (s\<lparr>os_task_list := remove1 tid (os_task_list s), os_tasks := (os_tasks s)(tid := None)\<rparr>))"

text \<open>The body of the thread of a task: it is deleted when its function returns.\<close>

definition wrapper :: "('w osw \<Rightarrow> 'w osw option) \<Rightarrow> nat \<Rightarrow> 'w osw \<Rightarrow> 'w osw option" where
  "wrapper fn ti s = fn s \<bind> del_task ti"

definition send_event :: "nat \<Rightarrow> u32 \<Rightarrow> 'w osw \<Rightarrow> 'w osw option" where
  "send_event tid event s = do {
     t \<leftarrow> os_tasks s tid;
     Some (s\<lparr>os_tasks := (os_tasks s)(tid \<mapsto> t\<lparr>tk_events := or (tk_events t) event\<rparr>)\<rparr>) }"

text \<open>One turn of the loop of \<open>recv_event\<close>: it returns, or the task waits for a signal and looks again.\<close>

datatype received = Received int u32 | Waits

definition recv_event :: "nat \<Rightarrow> u32 \<Rightarrow> u32 \<Rightarrow> 'w osw \<Rightarrow> (received \<times> 'w osw) option" where
  "recv_event tid interest_events flag s = do {
     t \<leftarrow> os_tasks s tid;
     (let recv_events = and (tk_events t) interest_events;
          s = s\<lparr>os_tasks := (os_tasks s)(tid \<mapsto> t\<lparr>tk_events := and (tk_events t) (not recv_events)\<rparr>)\<rparr>
      in Some (if recv_events \<noteq> 0 then Received OSW_OK recv_events
         else if flag = OSW_NO_WAIT then Received OSW_ERROR recv_events else Waits, s)) }"

section \<open>The wheel\<close>

fun tv_size :: "tvec \<Rightarrow> u64" where
  "tv_size TV1 = 64"
| "tv_size v = 16"

fun tv_interval :: "tvec \<Rightarrow> u64" where
  "tv_interval TV1 = 1"
| "tv_interval TV2 = 64"
| "tv_interval TV3 = 1024"
| "tv_interval TV4 = 16384"
| "tv_interval TV5 = 262144"

fun tv_offset :: "tvec \<Rightarrow> u64" where
  "tv_offset TV1 = 64"
| "tv_offset TV2 = 1024"
| "tv_offset TV3 = 16384"
| "tv_offset TV4 = 262144"
| "tv_offset TV5 = 4194304"

definition set_timer :: "nat \<Rightarrow> timer_list \<Rightarrow> 'w osw \<Rightarrow> 'w osw" where
  "set_timer a t s = s\<lparr>os_timers := (os_timers s)(a \<mapsto> t)\<rparr>"

text \<open>
  A node that is put at the head of a second list while it is linked would
  join the two lists; the model does not go on from there.
\<close>

definition hlist_head_add :: "tvec \<Rightarrow> nat \<Rightarrow> nat \<Rightarrow> 'w osw \<Rightarrow> 'w osw option" where
  "hlist_head_add v i a s = do {
     t \<leftarrow> os_timers s a;
     (if tr_entry t = Linked then None
      else Some ((set_timer a (t\<lparr>tr_entry := Linked\<rparr>) s)\<lparr>os_tv := (os_tv s)(v := (os_tv s v)(i := a # os_tv s v i))\<rparr>)) }"

text \<open>Removing a node that is in no list writes through a null or a poisoned pointer.\<close>

definition hlist_node_remove :: "nat \<Rightarrow> 'w osw \<Rightarrow> 'w osw option" where
  "hlist_node_remove a s = do {
     t \<leftarrow> os_timers s a;
     (if tr_entry t = Linked then Some ((set_timer a (t\<lparr>tr_entry := Poisoned\<rparr>) s)\<lparr>os_tv := (\<lambda>v i. remove1 a (os_tv s v i))\<rparr>)
      else None) }"

text \<open>The \<open>next\<close> pointer of a linked node.\<close>

fun behind :: "nat \<Rightarrow> nat list \<Rightarrow> nat option" where
  "behind a (x # y # xs) = (if x = a then Some y else behind a (y # xs))"
| "behind a _ = None"

definition all_lists :: "'w osw \<Rightarrow> nat list list" where
  "all_lists s = concat (map (\<lambda>v. map (os_tv s v) [0..<unat (tv_size v)]) [TV1, TV2, TV3, TV4, TV5])"

definition next_of :: "nat \<Rightarrow> 'w osw \<Rightarrow> nat option" where
  "next_of a s = (case List.find (\<lambda>xs. a \<in> set xs) (all_lists s) of None \<Rightarrow> None | Some xs \<Rightarrow> behind a xs)"

definition vec_for :: "u64 \<Rightarrow> tvec" where
  "vec_for offset = (if offset < tv_offset TV1 then TV1 else if offset < tv_offset TV2 then TV2
     else if offset < tv_offset TV3 then TV3 else if offset < tv_offset TV4 then TV4 else TV5)"

definition tv_index :: "tvec \<Rightarrow> u64 \<Rightarrow> nat" where
  "tv_index v expires = unat (expires div tv_interval v mod tv_size v)"

definition add_timer :: "nat \<Rightarrow> 'w osw \<Rightarrow> 'w osw option" where
  "add_timer a s = do {
     t \<leftarrow> os_timers s a;
     (let v = vec_for (tr_expires t - os_ticks s) in hlist_head_add v (tv_index v (tr_expires t)) a s) }"

text \<open>The expiry time of a new timer is not set until it is started.\<close>

definition create_timer :: "string option \<Rightarrow> u32 \<Rightarrow> nat option \<Rightarrow> u64 \<Rightarrow> nat option \<Rightarrow> 'w osw \<Rightarrow> (int \<times> nat option \<times> 'w osw) option" where
  "create_timer task_name event callback data mem s =
     (if task_name = None \<and> callback = None then Some (OSW_ERROR, None, s)
      else do {
        tid \<leftarrow> (if callback = None then (case task_name of None \<Rightarrow> None | Some name \<Rightarrow> Some (search_task name s)) else Some (Some 0));
        Some (case tid of None \<Rightarrow> (OSW_ERROR, None, s)
          | Some tid \<Rightarrow> (case mem of None \<Rightarrow> (OSW_ERROR, None, s)
             | Some a \<Rightarrow> (OSW_OK, Some a, set_timer a \<lparr>tr_entry = Unlinked, tr_expires = 0, tr_tid = tid, tr_event = event,
                 tr_callback = callback, tr_data = data\<rparr> s))) })"

definition del_timer :: "nat option \<Rightarrow> 'w osw \<Rightarrow> (int \<times> 'w osw) option" where
  "del_timer timer s = (case timer of None \<Rightarrow> Some (OSW_ERROR, s)
     | Some a \<Rightarrow> (case os_timers s a of None \<Rightarrow> None
        | Some _ \<Rightarrow> Some (OSW_OK, s\<lparr>os_timers := (os_timers s)(a := None)\<rparr>)))"

text \<open>
  The two bases are cleared; the task \<open>Timer\<close> runs \<open>timer_main\<close>.
  \<open>base_ok\<close> is whether \<open>malloc\<close> has room for the base.
\<close>

definition task_base_init :: "bool \<Rightarrow> 'w osw \<Rightarrow> int \<times> 'w osw" where
  "task_base_init base_ok s = (if base_ok then (OSW_OK, s\<lparr>os_task_list := []\<rparr>) else (OSW_ERROR, s))"

definition timer_base_init :: "bool \<Rightarrow> nat option \<Rightarrow> bool \<Rightarrow> 'w osw \<Rightarrow> int \<times> 'w osw" where
  "timer_base_init base_ok mem thread_ok s =
     (if \<not> base_ok then (OSW_ERROR, s)
      else case create_task ''Timer'' mem thread_ok (s\<lparr>os_ticks := 0, os_tv := (\<lambda>v i. [])\<rparr>) of
        (rc, _, s) \<Rightarrow> if rc \<noteq> OSW_OK then (OSW_ERROR, s) else (OSW_OK, s))"

definition start_timer_internal :: "nat \<Rightarrow> u64 \<Rightarrow> 'w osw \<Rightarrow> 'w osw option" where
  "start_timer_internal a expires s = do {
     t \<leftarrow> os_timers s a;
     add_timer a (set_timer a (t\<lparr>tr_expires := expires + os_ticks s\<rparr>) s) }"

text \<open>The seconds are multiplied in an \<open>unsigned int\<close>.\<close>

definition start_timer :: "nat \<Rightarrow> u32 \<Rightarrow> u32 \<Rightarrow> 'w osw \<Rightarrow> 'w osw option" where
  "start_timer a sec msec = start_timer_internal a (ucast ((sec * 1000 + msec) div 100))"

definition stop_timer :: "nat option \<Rightarrow> 'w osw \<Rightarrow> 'w osw option" where
  "stop_timer timer s = (case timer of None \<Rightarrow> Some s
     | Some a \<Rightarrow> do {
         t \<leftarrow> os_timers s a;
         (if tr_entry t = Linked then hlist_node_remove a s else Some s) })"

section \<open>Ticks\<close>

text \<open>The functions timers call back, which may use the wheel themselves.\<close>

type_synonym 'w callbacks = "nat \<Rightarrow> u64 \<Rightarrow> 'w osw \<Rightarrow> 'w osw option"

definition expire_timer :: "'w callbacks \<Rightarrow> timer_list \<Rightarrow> 'w osw \<Rightarrow> 'w osw option" where
  "expire_timer call t s = (case tr_callback t of
     Some f \<Rightarrow> call f (tr_data t) s
   | None \<Rightarrow> send_event (tr_tid t) (tr_event t) s)"

text \<open>One turn of the loop of \<open>process_tvec\<close>; the node behind is noted before the timer is removed.\<close>

definition process_node :: "'w callbacks \<Rightarrow> nat option \<times> 'w osw \<Rightarrow> (nat option \<times> 'w osw) option" where
  "process_node call = (\<lambda>(hnode, s). do {
     a \<leftarrow> hnode;
     t \<leftarrow> os_timers s a;
     (let hnode = next_of a s in do {
        s \<leftarrow> hlist_node_remove a s;
        s \<leftarrow> (if tr_expires t - os_ticks s = 0 then expire_timer call t s else add_timer a s);
        Some (hnode, s) }) })"

definition process_tvec :: "'w callbacks \<Rightarrow> tvec \<Rightarrow> nat \<Rightarrow> 'w osw \<Rightarrow> 'w osw option" where
  "process_tvec call v i s = do {
     (_, s) \<leftarrow> while_opt (\<lambda>(hnode, s). hnode \<noteq> None) (process_node call)
       (case os_tv s v i of [] \<Rightarrow> None | a # _ \<Rightarrow> Some a, s);
     Some s }"

text \<open>The vectors in their order; the next one is processed when the index into this one is 0.\<close>

fun process_vecs :: "'w callbacks \<Rightarrow> tvec list \<Rightarrow> 'w osw \<Rightarrow> 'w osw option" where
  "process_vecs call [] s = Some s"
| "process_vecs call (v # vs) s = (let index = tv_index v (os_ticks s) in do {
     s \<leftarrow> process_tvec call v index s;
     (if index = 0 then process_vecs call vs s else Some s) })"

definition process_tick :: "'w callbacks \<Rightarrow> 'w osw \<Rightarrow> 'w osw option" where
  "process_tick call s = do {
     s \<leftarrow> process_vecs call [TV1, TV2, TV3, TV4, TV5] s;
     Some (s\<lparr>os_ticks := os_ticks s + 1\<rparr>) }"

section \<open>The clock\<close>

text \<open>A time of day is a pair of seconds and microseconds.\<close>

record tick_clock =
  tc_last :: "int \<times> int"
  tc_total_elapsed_usec :: u64
  tc_total_ticks :: u64

definition COMPUTE_ELAPSED_TIME :: "int \<times> int \<Rightarrow> int \<times> int \<Rightarrow> int" where
  "COMPUTE_ELAPSED_TIME tv1 tv2 = (let delta_sec = fst tv1 - fst tv2; delta_usec = snd tv1 - snd tv2 in
     if delta_sec = 2 then delta_usec + 1000000 + 1000000
     else if delta_sec = 1 then delta_usec + 1000000
     else if delta_sec = 0 then delta_usec
     else delta_sec * 1000000 + delta_usec)"

text \<open>How many ticks are due when the clock shows \<open>cur\<close>, with the correction of the accumulated error.\<close>

definition due_ticks :: "int \<times> int \<Rightarrow> tick_clock \<Rightarrow> u64 \<times> tick_clock" where
  "due_ticks cur tc =
     (let last = (if tc_last tc = (0, 0) then cur else tc_last tc);
          elapsed_usec = word_of_int (COMPUTE_ELAPSED_TIME cur last);
          ticks = elapsed_usec div 100000;
          total_elapsed_usec = tc_total_elapsed_usec tc + elapsed_usec;
          real_total_ticks = total_elapsed_usec div 100000;
          total_ticks = tc_total_ticks tc + ticks
      in if real_total_ticks \<noteq> total_ticks
         then (ticks + (real_total_ticks - total_ticks), \<lparr>tc_last = cur, tc_total_elapsed_usec = 0, tc_total_ticks = 0\<rparr>)
         else (ticks, \<lparr>tc_last = cur, tc_total_elapsed_usec = total_elapsed_usec, tc_total_ticks = total_ticks\<rparr>))"

fun process_ticks :: "'w callbacks \<Rightarrow> nat \<Rightarrow> 'w osw \<Rightarrow> 'w osw option" where
  "process_ticks call 0 s = Some s"
| "process_ticks call (Suc n) s = process_tick call s \<bind> process_ticks call n"

text \<open>One cycle of \<open>timer_main\<close>, up to its sleep.\<close>

definition timer_cycle :: "'w callbacks \<Rightarrow> int \<times> int \<Rightarrow> tick_clock \<times> 'w osw \<Rightarrow> (tick_clock \<times> 'w osw) option" where
  "timer_cycle call cur = (\<lambda>(tc, s). case due_ticks cur tc of (ticks, tc) \<Rightarrow> do {
     s \<leftarrow> process_ticks call (unat ticks) s;
     Some (tc, s) })"

end
