(* ===== verification/Osw_Wheel.thy ===== *)
theory Osw_Wheel
  imports Osw_Timer
begin

text \<open>
  The invariant of the timing wheel, and that each operation does to the set
  of running timers what its description says.
\<close>

section \<open>Arithmetic of the vectors\<close>

definition ivl :: "tvec \<Rightarrow> nat" where "ivl v = unat (tv_interval v)"
definition slots_of :: "tvec \<Rightarrow> nat" where "slots_of v = unat (tv_size v)"

lemma ivl_simps [simp]: "ivl TV1 = 1" "ivl TV2 = 64" "ivl TV3 = 1024" "ivl TV4 = 16384" "ivl TV5 = 262144"
  "slots_of TV1 = 64" "slots_of TV2 = 16" "slots_of TV3 = 16" "slots_of TV4 = 16" "slots_of TV5 = 16"
  by (simp_all add: ivl_def slots_of_def)

lemma ivl_pos [simp]: "0 < ivl v" "0 < slots_of v"
  by (cases v; simp)+

text \<open>The tick at which the timers of a slot are looked at.\<close>

definition base :: "tvec \<Rightarrow> nat \<Rightarrow> nat" where "base v e = e div ivl v * ivl v"

lemma tv_index_nat: "tv_index v e = unat e div ivl v mod slots_of v"
  by (simp add: tv_index_def ivl_def slots_of_def unat_div unat_mod)

lemma vec_for_nat:
  "vec_for d = (if unat d < 64 then TV1 else if unat d < 1024 then TV2 else if unat d < 16384 then TV3 else if unat d < 262144 then TV4 else TV5)"
  by (simp add: vec_for_def word_less_nat_alt)

lemma base_TV1 [simp]: "base TV1 e = e"
  by (simp add: base_def)

lemma base_le: "base v e \<le> e" "e < base v e + ivl v"
proof -
  show "base v e \<le> e" by (simp add: base_def)
  have "e mod ivl v < ivl v" by simp
  then show "e < base v e + ivl v" unfolding base_def using div_mult_mod_eq [of e "ivl v"] by linarith
qed

text \<open>A timer is put where it is looked at after now, but not more than a turn of the vector later.\<close>

lemma vec_window:
  assumes "t \<le> e" and "v = vec_for d" and "unat d = e - t"
  shows "t \<le> base v e" and "t < e \<Longrightarrow> t < base v e" and "v \<noteq> TV5 \<Longrightarrow> base v e < t + slots_of v * ivl v"
proof -
  have "v = TV1 \<and> e - t < 64 \<or> v \<noteq> TV1 \<and> ivl v \<le> e - t \<and> (v \<noteq> TV5 \<longrightarrow> e - t < slots_of v * ivl v)"
    using assms(2,3) by (auto simp: vec_for_nat)
  then show "t \<le> base v e" "t < e \<Longrightarrow> t < base v e" "v \<noteq> TV5 \<Longrightarrow> base v e < t + slots_of v * ivl v"
    using base_le [where v = v and e = e] assms(1) by auto
qed

text \<open>When a slot is looked at, its timers have reached it.\<close>

lemma base_now:
  assumes "ivl v dvd t" and "t \<le> base v e" and "v \<noteq> TV5 \<Longrightarrow> base v e < t + slots_of v * ivl v"
    and "e div ivl v mod slots_of v = t div ivl v mod slots_of v" and "v \<noteq> TV5"
  shows "base v e = t"
proof -
  obtain k where k: "t = k * ivl v" using assms(1) by (metis dvd_def mult.commute)
  have "k \<le> e div ivl v" "e div ivl v < k + slots_of v"
    using assms(2,3,5) unfolding base_def k add_mult_distrib [symmetric] by simp_all
  moreover have "e div ivl v mod slots_of v = k mod slots_of v" using assms(4) k by simp
  ultimately have "slots_of v dvd e div ivl v - k" "e div ivl v - k < slots_of v" by (simp_all add: mod_eq_dvd_iff_nat)
  then have "e div ivl v = k" using \<open>k \<le> e div ivl v\<close> nat_dvd_not_less [of "e div ivl v - k" "slots_of v"] by force
  then show ?thesis by (simp add: base_def k)
qed

lemma base_other:
  assumes "ivl v dvd t" and "t \<le> base v e" and "e div ivl v mod slots_of v \<noteq> t div ivl v mod slots_of v"
  shows "t < base v e"
proof -
  have "base v e \<noteq> t" using assms(3) by (auto simp: base_def)
  then show ?thesis using assms(2) by simp
qed

lemma base_not_due: "\<not> ivl v dvd t \<Longrightarrow> t \<le> base v e \<Longrightarrow> t < base v e"
  by (metis base_def dvd_triv_right le_neq_implies_less)

section \<open>The invariant\<close>

text \<open>
  A timer sits in the slot its expiry time calls for, which will be looked at
  before the timer is due.  The vectors in \<open>D\<close> have been processed
  in the current tick.
\<close>

definition placed :: "tvec set \<Rightarrow> nat \<Rightarrow> tvec \<Rightarrow> nat \<Rightarrow> timer_list \<Rightarrow> bool" where
  "placed D t v i r \<longleftrightarrow> tr_entry r = Linked \<and> i = tv_index v (tr_expires r) \<and> t \<le> base v (unat (tr_expires r)) \<and>
     (v \<in> D \<longrightarrow> t < base v (unat (tr_expires r))) \<and> (v \<noteq> TV5 \<longrightarrow> base v (unat (tr_expires r)) < t + slots_of v * ivl v)"

definition wheel_inv :: "tvec set \<Rightarrow> 'w osw \<Rightarrow> bool" where
  "wheel_inv D s \<longleftrightarrow>
     (\<forall>v i a. a \<in> set (os_tv s v i) \<longrightarrow> (\<exists>r. os_timers s a = Some r \<and> placed D (unat (os_ticks s)) v i r)) \<and>
     (\<forall>v i. distinct (os_tv s v i)) \<and>
     (\<forall>v i v' i' a. a \<in> set (os_tv s v i) \<longrightarrow> a \<in> set (os_tv s v' i') \<longrightarrow> v = v' \<and> i = i') \<and>
     (\<forall>a r. os_timers s a = Some r \<longrightarrow> tr_entry r = Linked \<longrightarrow> (\<exists>v i. a \<in> set (os_tv s v i)))"

text \<open>The timers that run.\<close>

definition live :: "'w osw \<Rightarrow> nat \<Rightarrow> timer_list option" where
  "live s a = (case os_timers s a of None \<Rightarrow> None | Some r \<Rightarrow> if tr_entry r = Linked then Some r else None)"

lemma live_world [simp]: "live (s\<lparr>os_world := w\<rparr>) = live s" "live (s\<lparr>os_tasks := ts\<rparr>) = live s"
  "live (s\<lparr>os_ticks := t\<rparr>) = live s" "live (s\<lparr>os_tv := tv\<rparr>) = live s"
  by (simp_all add: live_def fun_eq_iff)

lemma inv_world [simp]: "wheel_inv D (s\<lparr>os_world := w\<rparr>) = wheel_inv D s" "wheel_inv D (s\<lparr>os_tasks := ts\<rparr>) = wheel_inv D s"
  by (simp_all add: wheel_inv_def)

lemma inv_listed:
  assumes "wheel_inv D s" and "a \<in> set (os_tv s v i)"
  obtains r where "os_timers s a = Some r" "placed D (unat (os_ticks s)) v i r"
  using assms unfolding wheel_inv_def by blast

lemma inv_idle: "wheel_inv D s \<Longrightarrow> os_timers s a = Some r \<Longrightarrow> tr_entry r \<noteq> Linked \<Longrightarrow> a \<notin> set (os_tv s v i)"
  by (metis inv_listed option.inject placed_def)

lemma set_timer_simps [simp]:
  "os_timers (set_timer a r s) = (os_timers s)(a \<mapsto> r)" "os_tv (set_timer a r s) = os_tv s" "os_ticks (set_timer a r s) = os_ticks s"
  "os_tasks (set_timer a r s) = os_tasks s" "os_world (set_timer a r s) = os_world s" "os_task_list (set_timer a r s) = os_task_list s"
  by (simp_all add: set_timer_def)

text \<open>What an operation on the wheel leaves alone.\<close>

definition same_outside :: "'w osw \<Rightarrow> 'w osw \<Rightarrow> bool" where
  "same_outside s s' \<longleftrightarrow> os_tasks s' = os_tasks s \<and> os_task_list s' = os_task_list s \<and> os_world s' = os_world s \<and> os_ticks s' = os_ticks s"

lemma add_timer_ok:
  assumes i: "wheel_inv D s" and a: "os_timers s a = Some r" "tr_entry r \<noteq> Linked"
    and e: "os_ticks s \<le> tr_expires r" "TV1 \<in> D \<Longrightarrow> os_ticks s < tr_expires r"
  shows "\<exists>v s'. add_timer a s = Some s' \<and> wheel_inv D s' \<and> live s' = (live s)(a \<mapsto> r\<lparr>tr_entry := Linked\<rparr>) \<and> same_outside s s' \<and>
    os_timers s' = (os_timers s)(a \<mapsto> r\<lparr>tr_entry := Linked\<rparr>) \<and> v = vec_for (tr_expires r - os_ticks s) \<and>
    os_tv s' = (os_tv s)(v := (os_tv s v)(tv_index v (tr_expires r) := a # os_tv s v (tv_index v (tr_expires r))))"
proof -
  let ?t = "unat (os_ticks s)" and ?e = "unat (tr_expires r)"
  define v where "v = vec_for (tr_expires r - os_ticks s)"
  define j where "j = tv_index v (tr_expires r)"
  let ?r = "r\<lparr>tr_entry := Linked\<rparr>"
  let ?s = "(set_timer a ?r s)\<lparr>os_tv := (os_tv s)(v := (os_tv s v)(j := a # os_tv s v j))\<rparr>"
  have le: "?t \<le> ?e" using e(1) by (simp add: word_le_nat_alt)
  have d: "unat (tr_expires r - os_ticks s) = ?e - ?t" using e(1) by (rule unat_sub)
  have n: "a \<notin> set (os_tv s v' i')" for v' i' by (rule inv_idle [OF i a])
  have "placed D ?t v j ?r"
  proof -
    have "v \<in> D \<Longrightarrow> ?t < ?e" using e(2) d by (auto simp: word_less_nat_alt v_def vec_for_nat split: if_splits)
    then show ?thesis using vec_window [OF le v_def d] by (auto simp: placed_def j_def)
  qed
  then have "wheel_inv D ?s"
    using i n unfolding wheel_inv_def by (auto split: if_splits) metis
  moreover have "add_timer a s = Some ?s" using a by (simp add: add_timer_def hlist_head_add_def v_def j_def Let_def)
  moreover have "live ?s = (live s)(a \<mapsto> ?r)" by (auto simp: live_def fun_eq_iff)
  ultimately show ?thesis by (intro exI [of _ v] exI [of _ ?s]) (simp add: v_def j_def same_outside_def)
qed

lemma remove_ok:
  assumes i: "wheel_inv D s" and a: "os_timers s a = Some r" "tr_entry r = Linked"
  shows "\<exists>s'. hlist_node_remove a s = Some s' \<and> wheel_inv D s' \<and> live s' = (live s)(a := None) \<and> same_outside s s' \<and>
    os_timers s' = (os_timers s)(a \<mapsto> r\<lparr>tr_entry := Poisoned\<rparr>) \<and> os_tv s' = (\<lambda>v i. remove1 a (os_tv s v i))"
proof -
  let ?s = "(set_timer a (r\<lparr>tr_entry := Poisoned\<rparr>) s)\<lparr>os_tv := (\<lambda>v i. remove1 a (os_tv s v i))\<rparr>"
  have d: "distinct (os_tv s v i)" for v i using i by (simp add: wheel_inv_def)
  have "wheel_inv D ?s"
    using i unfolding wheel_inv_def by (auto simp: d split: if_splits)
  moreover have "live ?s = (live s)(a := None)" by (auto simp: live_def fun_eq_iff)
  ultimately show ?thesis using a by (intro exI [of _ ?s]) (simp add: hlist_node_remove_def same_outside_def)
qed

section \<open>Order in a list\<close>

definition first_of :: "nat list \<Rightarrow> nat option" where
  "first_of xs = (case xs of [] \<Rightarrow> None | a # _ \<Rightarrow> Some a)"

lemma behind_append: "distinct (zs @ a # ys) \<Longrightarrow> behind a (zs @ a # ys) = first_of ys"
proof (induction zs)
  case Nil
  then show ?case by (cases ys) (simp_all add: first_of_def)
next
  case (Cons z zs)
  then show ?case by (cases zs) auto
qed

lemma next_of_list:
  assumes "wheel_inv D s" and "os_tv s v i = zs @ a # ys" and "i < slots_of v"
  shows "next_of a s = first_of ys"
proof -
  have "os_tv s v i \<in> set (all_lists s)" using assms(3) by (cases v) (auto simp: all_lists_def slots_of_def)
  moreover have "a \<in> set (os_tv s v i)" using assms(2) by simp
  ultimately obtain xs where xs: "List.find (\<lambda>xs. a \<in> set xs) (all_lists s) = Some xs" "a \<in> set xs" "xs \<in> set (all_lists s)"
    by (metis (mono_tags, lifting) find_None_iff find_Some_iff not_None_eq nth_mem)
  then obtain v' i' where "xs = os_tv s v' i'" by (auto simp: all_lists_def)
  then have "xs = os_tv s v i" using assms(1) xs(2) \<open>a \<in> set (os_tv s v i)\<close> unfolding wheel_inv_def by metis
  moreover have "distinct (os_tv s v i)" using assms(1) by (simp add: wheel_inv_def)
  ultimately show ?thesis using xs(1) behind_append assms(2) by (simp add: next_of_def)
qed

section \<open>Callbacks that use the wheel\<close>

text \<open>A callback may send events, start timers that do not run, with a delay of at least a tick, and change the rest of the program.\<close>

inductive rearms :: "'w osw \<Rightarrow> 'w osw \<Rightarrow> bool" for s where
  nothing: "rearms s s"
| elsewhere: "rearms s s1 \<Longrightarrow> rearms s (s1\<lparr>os_world := w\<rparr>)"
| event: "rearms s s1 \<Longrightarrow> send_event tid ev s1 = Some s2 \<Longrightarrow> rearms s s2"
| start: "rearms s s1 \<Longrightarrow> live s1 a = None \<Longrightarrow> 0 < d \<Longrightarrow> unat (os_ticks s1) + unat d < 2 ^ 64 \<Longrightarrow>
    start_timer_internal a d s1 = Some s2 \<Longrightarrow> rearms s s2"

definition well_behaved :: "'w callbacks \<Rightarrow> bool" where
  "well_behaved call \<longleftrightarrow> (\<forall>f d s. (\<exists>D. wheel_inv D s) \<longrightarrow> (\<exists>s'. call f d s = Some s' \<and> rearms s s'))"

text \<open>What happens to the timers that run when those in \<open>X\<close> expire at tick \<open>t\<close>.\<close>

definition passes :: "nat \<Rightarrow> nat set \<Rightarrow> (nat \<Rightarrow> timer_list option) \<Rightarrow> (nat \<Rightarrow> timer_list option) \<Rightarrow> bool" where
  "passes t X R R' \<longleftrightarrow> (\<forall>a r. R a = Some r \<longrightarrow> a \<notin> X \<longrightarrow> R' a = Some r) \<and>
     (\<forall>a. R a = None \<or> a \<in> X \<longrightarrow> R' a = None \<or> (\<exists>r. R' a = Some r \<and> t < unat (tr_expires r)))"

lemma passes_refl: "passes t {} R R"
  by (auto simp: passes_def)

lemma passes_trans: "passes t X R R1 \<Longrightarrow> passes t Y R1 R2 \<Longrightarrow> passes t (X \<union> Y) R R2"
  unfolding passes_def by (metis UnE UnI1 UnI2 option.exhaust)

lemma len64: "LENGTH(64) = 64"
  by simp

lemma start_internal_ok:
  assumes i: "wheel_inv D s" and a: "live s a = None" and d: "TV1 \<in> D \<Longrightarrow> 0 < d" "unat (os_ticks s) + unat d < 2 ^ 64"
    and r: "os_timers s a = Some r"
  shows "\<exists>v s'. start_timer_internal a d s = Some s' \<and> wheel_inv D s' \<and> live s' = (live s)(a \<mapsto> r\<lparr>tr_expires := d + os_ticks s, tr_entry := Linked\<rparr>) \<and>
    same_outside s s' \<and> os_timers s' = (os_timers s)(a \<mapsto> r\<lparr>tr_expires := d + os_ticks s, tr_entry := Linked\<rparr>) \<and>
    os_tv s' = (os_tv s)(v := (os_tv s v)(tv_index v (d + os_ticks s) := a # os_tv s v (tv_index v (d + os_ticks s)))) \<and> v = vec_for d"
proof -
  let ?r = "r\<lparr>tr_expires := d + os_ticks s\<rparr>" and ?s = "set_timer a (r\<lparr>tr_expires := d + os_ticks s\<rparr>) s"
  have n: "tr_entry r \<noteq> Linked" using a r by (auto simp: live_def split: if_splits)
  have "unat d + unat (os_ticks s) < 2 ^ LENGTH(64)" using d(2) unfolding len64 by linarith
  then have u: "unat (d + os_ticks s) = unat d + unat (os_ticks s)" by (rule unat_add_lem [THEN iffD1])
  have i': "wheel_inv D ?s" using i inv_idle [OF i r n] n unfolding wheel_inv_def by auto
  have l: "live ?s = live s" using n r by (auto simp: live_def fun_eq_iff)
  have e: "os_ticks ?s \<le> tr_expires ?r" "TV1 \<in> D \<Longrightarrow> os_ticks ?s < tr_expires ?r"
    using u d(1) by (auto simp: word_le_nat_alt word_less_nat_alt)
  have "os_timers ?s a = Some ?r" "tr_entry ?r \<noteq> Linked" using n by simp_all
  from add_timer_ok [OF i' this e] show ?thesis using r l by (auto simp: start_timer_internal_def same_outside_def)
qed

end
