(* ===== verification/Osw_Tick.thy ===== *)
theory Osw_Tick
  imports Osw_Wheel
begin

text \<open>
  A tick of the timing wheel: the timers that are due expire, each of them
  once, and the others stay as they are.
\<close>

section \<open>What a callback leaves\<close>

text \<open>The tasks of timers without a callback exist.\<close>

definition tasks_ok :: "'w osw \<Rightarrow> bool" where
  "tasks_ok s \<longleftrightarrow> (\<forall>a r. os_timers s a = Some r \<longrightarrow> tr_callback r = None \<longrightarrow> os_tasks s (tr_tid r) \<noteq> None)"

lemma tasks_ok_world [simp]: "tasks_ok (s\<lparr>os_world := w\<rparr>) = tasks_ok s" "tasks_ok (s\<lparr>os_ticks := t\<rparr>) = tasks_ok s"
  by (simp_all add: tasks_ok_def)

lemma tasks_ok_timer:
  assumes "tasks_ok s" and "os_timers s a = Some r" and "tr_callback r' = tr_callback r" and "tr_tid r' = tr_tid r"
    and "os_timers s' = (os_timers s)(a \<mapsto> r')" and "os_tasks s' = os_tasks s"
  shows "tasks_ok s'"
  using assms by (auto simp: tasks_ok_def split: if_splits)

lemma send_event_ok:
  assumes "send_event tid ev s = Some s'"
  shows "\<exists>ts. s' = s\<lparr>os_tasks := ts\<rparr> \<and> dom ts = dom (os_tasks s)"
proof -
  obtain t where t: "os_tasks s tid = Some t" "s' = s\<lparr>os_tasks := (os_tasks s)(tid \<mapsto> t\<lparr>tk_events := or (tk_events t) ev\<rparr>)\<rparr>"
    using assms by (auto simp: send_event_def bind_eq_Some_conv)
  then show ?thesis by (intro exI [of _ "(os_tasks s)(tid \<mapsto> t\<lparr>tk_events := or (tk_events t) ev\<rparr>)"]) auto
qed

definition extends :: "'w osw \<Rightarrow> 'w osw \<Rightarrow> bool" where
  "extends s s' \<longleftrightarrow> os_ticks s' = os_ticks s \<and> passes (unat (os_ticks s)) {} (live s) (live s') \<and>
     (\<forall>v i. \<exists>ns. os_tv s' v i = ns @ os_tv s v i \<and>
       (\<forall>a \<in> set ns. live s a = None \<and> (\<exists>r. live s' a = Some r \<and> unat (os_ticks s) < base v (unat (tr_expires r)))))"

lemma extends_refl: "extends s s"
  by (simp add: extends_def passes_refl)

lemma extends_live: "extends s s' \<Longrightarrow> live s a = Some r \<Longrightarrow> live s' a = Some r"
  by (simp add: extends_def passes_def)

lemma extends_trans: assumes "extends s s1" and "extends s1 s2" shows "extends s s2"
proof -
  have t: "os_ticks s1 = os_ticks s" "os_ticks s2 = os_ticks s" using assms by (simp_all add: extends_def)
  have "passes (unat (os_ticks s)) ({} \<union> {}) (live s) (live s2)"
    using assms unfolding extends_def by (metis passes_trans)
  moreover have "\<exists>ns. os_tv s2 v i = ns @ os_tv s v i \<and>
      (\<forall>a \<in> set ns. live s a = None \<and> (\<exists>r. live s2 a = Some r \<and> unat (os_ticks s) < base v (unat (tr_expires r))))" for v i
  proof -
    obtain n1 where n1: "os_tv s1 v i = n1 @ os_tv s v i"
      "\<forall>a \<in> set n1. live s a = None \<and> (\<exists>r. live s1 a = Some r \<and> unat (os_ticks s) < base v (unat (tr_expires r)))"
      using assms(1) unfolding extends_def by blast
    obtain n2 where n2: "os_tv s2 v i = n2 @ os_tv s1 v i"
      "\<forall>a \<in> set n2. live s1 a = None \<and> (\<exists>r. live s2 a = Some r \<and> unat (os_ticks s1) < base v (unat (tr_expires r)))"
      using assms(2) unfolding extends_def by blast
    have "live s a = None" if "a \<in> set n2" for a
      using n2(2) that extends_live [OF assms(1), of a] by (cases "live s a") auto
    moreover have "\<exists>r. live s2 a = Some r \<and> unat (os_ticks s) < base v (unat (tr_expires r))" if "a \<in> set n1" for a
      using n1(2) that extends_live [OF assms(2), of a] by auto
    ultimately show ?thesis using n1 n2 t by (intro exI [of _ "n2 @ n1"]) auto
  qed
  ultimately show ?thesis using t by (simp add: extends_def)
qed

lemma start_extends:
  assumes "wheel_inv D s" and "live s a = None" and "0 < d" and "unat (os_ticks s) + unat d < 2 ^ 64" and "start_timer_internal a d s = Some s'"
  shows "extends s s'" and "wheel_inv D s'" and "tasks_ok s \<Longrightarrow> tasks_ok s'"
proof -
  obtain r where r: "os_timers s a = Some r" using assms(5) by (auto simp: start_timer_internal_def bind_eq_Some_conv)
  from start_internal_ok [OF assms(1,2) _ assms(4) r] assms(3,5)
  obtain v where s': "wheel_inv D s'" "live s' = (live s)(a \<mapsto> r\<lparr>tr_expires := d + os_ticks s, tr_entry := Linked\<rparr>)" "same_outside s s'"
    "os_timers s' = (os_timers s)(a \<mapsto> r\<lparr>tr_expires := d + os_ticks s, tr_entry := Linked\<rparr>)"
    "os_tv s' = (os_tv s)(v := (os_tv s v)(tv_index v (d + os_ticks s) := a # os_tv s v (tv_index v (d + os_ticks s))))" "v = vec_for d"
    by auto
  have "unat d + unat (os_ticks s) < 2 ^ LENGTH(64)" using assms(4) unfolding len64 by linarith
  then have u: "unat (d + os_ticks s) = unat d + unat (os_ticks s)" by (rule unat_add_lem [THEN iffD1])
  have "0 < unat d" using assms(3) by (simp add: unat_gt_0)
  then have "passes (unat (os_ticks s)) {} (live s) (live s')" using assms(2) u by (auto simp: passes_def s'(2))
  moreover have "\<exists>ns. os_tv s' w i = ns @ os_tv s w i \<and>
      (\<forall>a \<in> set ns. live s a = None \<and> (\<exists>r. live s' a = Some r \<and> unat (os_ticks s) < base w (unat (tr_expires r))))" for w i
  proof (cases "w = v \<and> i = tv_index v (d + os_ticks s)")
    case True
    have "unat (os_ticks s) \<le> unat (d + os_ticks s)" "unat d = unat (d + os_ticks s) - unat (os_ticks s)" "unat (os_ticks s) < unat (d + os_ticks s)"
      using u \<open>0 < unat d\<close> by linarith+
    then have "unat (os_ticks s) < base v (unat (d + os_ticks s))" by (rule vec_window(2) [OF _ s'(6)])
    then show ?thesis using True assms(2) unfolding s'(2,5) by (intro exI [of _ "[a]"]) simp
  qed (auto simp: s'(5))
  ultimately show "extends s s'" using s'(3) by (simp add: extends_def same_outside_def)
  show "wheel_inv D s'" by (rule s'(1))
  show "tasks_ok s \<Longrightarrow> tasks_ok s'"
    by (rule tasks_ok_timer [OF _ r _ _ s'(4)]) (use s'(3) in \<open>simp_all add: same_outside_def\<close>)
qed

lemma rearms_extends:
  assumes "rearms s s'" and "wheel_inv D s"
  shows "extends s s' \<and> wheel_inv D s' \<and> (tasks_ok s \<longrightarrow> tasks_ok s')"
  using assms
proof (induction)
  case nothing
  then show ?case by (simp add: extends_refl)
next
  case (elsewhere s1 w)
  then show ?case using extends_trans [of s s1 "s1\<lparr>os_world := w\<rparr>"] by (simp add: extends_def [of s1] passes_refl)
next
  case (event s1 tid ev s2)
  obtain ts where ts: "s2 = s1\<lparr>os_tasks := ts\<rparr>" "dom ts = dom (os_tasks s1)" using send_event_ok [OF event(2)] by blast
  have "tasks_ok s1 \<Longrightarrow> tasks_ok s2" using ts(2) unfolding ts(1) tasks_ok_def by (auto simp: dom_def)
  then show ?case using event extends_trans [of s s1 s2] by (simp add: ts(1) extends_def [of s1] passes_refl)
next
  case (start s1 a d s2)
  then show ?case using start_extends [of D s1 a d s2] extends_trans [of s s1 s2] by simp
qed

section \<open>One slot\<close>

text \<open>The timers \<open>rs\<close> expire one after the other; between them the wheel may be rearranged.\<close>

inductive rung :: "'w callbacks \<Rightarrow> timer_list list \<Rightarrow> 'w osw \<Rightarrow> 'w osw \<Rightarrow> bool" for call where
  silent: "same_outside s s' \<Longrightarrow> rung call [] s s'"
| ring: "same_outside s s1 \<Longrightarrow> expire_timer call r s1 = Some s2 \<Longrightarrow> rung call rs s2 s' \<Longrightarrow> rung call (r # rs) s s'"

lemma same_outside_trans: "same_outside s s1 \<Longrightarrow> same_outside s1 s2 \<Longrightarrow> same_outside s s2"
  by (simp add: same_outside_def)

lemma rung_before: "rung call rs s1 s2 \<Longrightarrow> same_outside s s1 \<Longrightarrow> rung call rs s s2"
  by (induction rule: rung.induct) (auto intro: rung.intros same_outside_trans)

lemma rung_append: "rung call rs s s1 \<Longrightarrow> rung call rs' s1 s2 \<Longrightarrow> rung call (rs @ rs') s s2"
  by (induction rule: rung.induct) (auto intro: rung.intros rung_before)

text \<open>An expiring timer keeps the rest.\<close>

lemma expire_ok:
  assumes "well_behaved call" and "wheel_inv D s" and "tasks_ok s" and "tr_callback r = None \<Longrightarrow> os_tasks s (tr_tid r) \<noteq> None"
  shows "\<exists>s'. expire_timer call r s = Some s' \<and> extends s s' \<and> wheel_inv D s' \<and> tasks_ok s' \<and> (tr_callback r = None \<longrightarrow> live s' = live s)"
proof (cases "tr_callback r")
  case None
  then obtain s' where s': "send_event (tr_tid r) (tr_event r) s = Some s'" "live s' = live s" using assms(4) by (auto simp: send_event_def)
  then have "rearms s s'" by (intro rearms.event [OF rearms.nothing])
  from rearms_extends [OF this assms(2)] show ?thesis using s' None assms(3) by (simp add: expire_timer_def)
next
  case (Some f)
  obtain s' where s': "call f (tr_data r) s = Some s'" "rearms s s'" using assms(1,2) unfolding well_behaved_def by blast
  from rearms_extends [OF s'(2) assms(2)] show ?thesis using s' Some assms(3) by (simp add: expire_timer_def)
qed

text \<open>A slot that is being processed: \<open>zs\<close> has been put there again, \<open>ys\<close> is still to be looked at.\<close>

definition half_done :: "tvec set \<Rightarrow> tvec \<Rightarrow> nat \<Rightarrow> nat list \<Rightarrow> 'w osw \<Rightarrow> bool" where
  "half_done D v i ys s \<longleftrightarrow> wheel_inv D s \<and> tasks_ok s \<and> (\<exists>zs. os_tv s v i = zs @ ys \<and>
     (\<forall>a \<in> set zs. \<forall>r. os_timers s a = Some r \<longrightarrow> unat (os_ticks s) < base v (unat (tr_expires r))))"

lemma half_done_extends:
  assumes h: "half_done D v i ys s" and e: "extends s s'" and i: "wheel_inv D s'" "tasks_ok s'"
  shows "half_done D v i ys s'"
proof -
  obtain zs where zs: "os_tv s v i = zs @ ys" "\<forall>a \<in> set zs. \<forall>r. os_timers s a = Some r \<longrightarrow> unat (os_ticks s) < base v (unat (tr_expires r))"
    and inv: "wheel_inv D s" using h unfolding half_done_def by blast
  obtain ns where ns: "os_tv s' v i = ns @ os_tv s v i"
    "\<forall>a \<in> set ns. live s a = None \<and> (\<exists>r. live s' a = Some r \<and> unat (os_ticks s) < base v (unat (tr_expires r)))"
    using e unfolding extends_def by blast
  have t: "os_ticks s' = os_ticks s" using e by (simp add: extends_def)
  have "unat (os_ticks s') < base v (unat (tr_expires r))" if a: "a \<in> set (ns @ zs)" "os_timers s' a = Some r" for a r
  proof -
    have "a \<in> set (os_tv s' v i)" using a(1) ns(1) zs(1) by auto
    then have p: "placed D (unat (os_ticks s)) v i r" using inv_listed [OF i(1)] a(2) t by (metis option.inject)
    then have l: "live s' a = Some r" using a(2) by (simp add: live_def placed_def)
    show ?thesis
    proof (cases "a \<in> set ns")
      case True
      then show ?thesis using ns(2) l t by auto
    next
      case False
      then have "a \<in> set (os_tv s v i)" using a(1) zs(1) by simp
      then obtain r' where "os_timers s a = Some r'" "placed D (unat (os_ticks s)) v i r'" by (rule inv_listed [OF inv])
      then have "live s a = Some r'" by (simp add: live_def placed_def)
      then have "r' = r" using e l by (simp add: extends_def passes_def)
      then show ?thesis using zs(2) False a(1) \<open>os_timers s a = Some r'\<close> t by auto
    qed
  qed
  then show ?thesis using i ns(1) zs(1) unfolding half_done_def by (intro conjI exI [of _ "ns @ zs"]) auto
qed

lemma half_done_remove:
  assumes h: "half_done D v i (a # ys) s"
  shows "\<exists>r s'. os_timers s a = Some r \<and> placed D (unat (os_ticks s)) v i r \<and> hlist_node_remove a s = Some s' \<and> half_done D v i ys s' \<and>
    live s' = (live s)(a := None) \<and> same_outside s s' \<and> os_timers s' = (os_timers s)(a \<mapsto> r\<lparr>tr_entry := Poisoned\<rparr>)"
proof -
  obtain zs where zs: "os_tv s v i = zs @ a # ys" "\<forall>a \<in> set zs. \<forall>r. os_timers s a = Some r \<longrightarrow> unat (os_ticks s) < base v (unat (tr_expires r))"
    and inv: "wheel_inv D s" "tasks_ok s" using h unfolding half_done_def by auto
  obtain r where r: "os_timers s a = Some r" "placed D (unat (os_ticks s)) v i r" using inv_listed [OF inv(1), of a v i] zs(1) by auto
  then have "tr_entry r = Linked" by (simp add: placed_def)
  then obtain s' where s': "hlist_node_remove a s = Some s'" "wheel_inv D s'" "live s' = (live s)(a := None)" "same_outside s s'"
    "os_timers s' = (os_timers s)(a \<mapsto> r\<lparr>tr_entry := Poisoned\<rparr>)" "os_tv s' = (\<lambda>v i. remove1 a (os_tv s v i))"
    using remove_ok [OF inv(1) r(1)] by blast
  have "distinct (os_tv s v i)" using inv(1) by (simp add: wheel_inv_def)
  then have "a \<notin> set zs" "os_tv s' v i = zs @ ys" using zs(1) s'(6) by (simp_all add: remove1_append)
  moreover have "tasks_ok s'" by (rule tasks_ok_timer [OF inv(2) r(1) _ _ s'(5)]) (use s'(4) in \<open>simp_all add: same_outside_def\<close>)
  ultimately have "half_done D v i ys s'" using s'(2,4,5) zs(2) by (auto simp: half_done_def same_outside_def)
  then show ?thesis using r s' by blast
qed

lemma node_due:
  assumes wb: "well_behaved call" and h: "half_done D v i (a # ys) s" and sl: "i < slots_of v" and r: "os_timers s a = Some r" "tr_expires r = os_ticks s"
  shows "\<exists>s'. process_node call (Some a, s) = Some (first_of ys, s') \<and> half_done D v i ys s' \<and> os_ticks s' = os_ticks s \<and>
    passes (unat (os_ticks s)) {a} (live s) (live s') \<and> rung call [r] s s' \<and> (tr_callback r = None \<longrightarrow> live s' = (live s)(a := None))"
proof -
  obtain s1 where s1: "hlist_node_remove a s = Some s1" "half_done D v i ys s1" "live s1 = (live s)(a := None)" "same_outside s s1"
    using half_done_remove [OF h] by auto
  have inv: "wheel_inv D s" "tasks_ok s" "wheel_inv D s1" "tasks_ok s1" using h s1(2) by (simp_all add: half_done_def)
  have n: "next_of a s = first_of ys" using h next_of_list [OF inv(1) _ sl] unfolding half_done_def by blast
  have t: "os_ticks s1 = os_ticks s" using s1(4) by (simp add: same_outside_def)
  have cb: "tr_callback r = None \<Longrightarrow> os_tasks s1 (tr_tid r) \<noteq> None" using inv(2) r(1) s1(4) by (simp add: tasks_ok_def same_outside_def)
  have ex: "\<exists>s'. expire_timer call r s1 = Some s' \<and> extends s1 s' \<and> wheel_inv D s' \<and> tasks_ok s' \<and> (tr_callback r = None \<longrightarrow> live s' = live s1)"
    by (rule expire_ok [OF wb inv(3,4) cb])
  obtain s2 where s2: "expire_timer call r s1 = Some s2" "extends s1 s2" "wheel_inv D s2" "tasks_ok s2" "tr_callback r = None \<longrightarrow> live s2 = live s1"
    using ex by (elim exE conjE) (rule that)
  have "passes (unat (os_ticks s)) {a} (live s) (live s1)" by (auto simp: passes_def s1(3))
  moreover have "passes (unat (os_ticks s)) {} (live s1) (live s2)" using s2(2) t by (simp add: extends_def)
  ultimately have "passes (unat (os_ticks s)) {a} (live s) (live s2)" using passes_trans by fastforce
  moreover have "rung call [r] s s2" by (rule rung.ring [OF s1(4) s2(1) rung.silent]) (simp add: same_outside_def)
  moreover have "half_done D v i ys s2" by (rule half_done_extends [OF s1(2) s2(2-4)])
  moreover have "process_node call (Some a, s) = Some (first_of ys, s2)" using r n s1(1) s2(1) t by (simp add: process_node_def)
  moreover have "os_ticks s2 = os_ticks s" using s2(2) t by (simp add: extends_def)
  ultimately show ?thesis using s2(5) s1(3) by auto
qed

lemma node_later:
  assumes h: "half_done D v i (a # ys) s" and sl: "i < slots_of v" and r: "os_timers s a = Some r" "tr_expires r \<noteq> os_ticks s"
  shows "\<exists>s'. process_node call (Some a, s) = Some (first_of ys, s') \<and> half_done D v i ys s' \<and> os_ticks s' = os_ticks s \<and>
    live s' = live s \<and> same_outside s s'"
proof -
  obtain s1 where s1: "hlist_node_remove a s = Some s1" "half_done D v i ys s1" "live s1 = (live s)(a := None)" "same_outside s s1"
    "os_timers s1 = (os_timers s)(a \<mapsto> r\<lparr>tr_entry := Poisoned\<rparr>)" "placed D (unat (os_ticks s)) v i r"
    using half_done_remove [OF h] r(1) by auto
  let ?r = "r\<lparr>tr_entry := Poisoned\<rparr>"
  have inv: "wheel_inv D s" "wheel_inv D s1" "tasks_ok s1" using h s1(2) by (simp_all add: half_done_def)
  obtain zs where zs: "os_tv s1 v i = zs @ ys" "\<forall>a \<in> set zs. \<forall>r. os_timers s1 a = Some r \<longrightarrow> unat (os_ticks s1) < base v (unat (tr_expires r))"
    using s1(2) unfolding half_done_def by blast
  have n: "next_of a s = first_of ys" using h next_of_list [OF inv(1) _ sl] unfolding half_done_def by blast
  have t: "os_ticks s1 = os_ticks s" using s1(4) by (simp add: same_outside_def)
  have "unat (os_ticks s) \<le> unat (tr_expires r)" using s1(6) base_le(1) [where v = v and e = "unat (tr_expires r)"] by (simp add: placed_def)
  then have lt: "os_ticks s1 \<le> tr_expires ?r" "os_ticks s1 < tr_expires ?r" using r(2) t by (simp_all add: word_le_nat_alt order.strict_iff_order)
  have un: "os_timers s1 a = Some ?r" "tr_entry ?r \<noteq> Linked" using s1(5) by simp_all
  obtain w s2 where s2: "add_timer a s1 = Some s2" "wheel_inv D s2" "live s2 = (live s1)(a \<mapsto> ?r\<lparr>tr_entry := Linked\<rparr>)" "same_outside s1 s2"
    "os_timers s2 = (os_timers s1)(a \<mapsto> ?r\<lparr>tr_entry := Linked\<rparr>)" "w = vec_for (tr_expires ?r - os_ticks s1)"
    "os_tv s2 = (os_tv s1)(w := (os_tv s1 w)(tv_index w (tr_expires ?r) := a # os_tv s1 w (tv_index w (tr_expires ?r))))"
    using add_timer_ok [OF inv(2) un lt] by auto
  have "tr_entry r = Linked" using s1(6) by (simp add: placed_def)
  then have rr: "?r\<lparr>tr_entry := Linked\<rparr> = r" "live s a = Some r" using r(1) by (simp_all add: live_def)
  have "live s2 = live s" using s2(3) s1(3) rr by (auto simp: fun_eq_iff)
  moreover have "half_done D v i ys s2"
  proof -
    have na: "a \<notin> set (os_tv s1 v i)" by (rule inv_idle [OF inv(2) un])
    have tk: "tasks_ok s2" by (rule tasks_ok_timer [OF inv(3) un(1) _ _ s2(5)]) (use s2(4) in \<open>simp_all add: same_outside_def\<close>)
    have "unat (os_ticks s1) < base w (unat (tr_expires r))"
      using vec_window(2) [OF _ s2(6), of "unat (os_ticks s1)" "unat (tr_expires ?r)"] lt by (simp add: word_le_nat_alt word_less_nat_alt unat_sub)
    then have "half_done D v i ys s2" if "w = v \<and> tv_index w (tr_expires r) = i"
      unfolding half_done_def using s2(2,4,5,7) zs tk na that rr(1) by (intro conjI exI [of _ "a # zs"]) (auto simp: same_outside_def)
    moreover have "half_done D v i ys s2" if "\<not> (w = v \<and> tv_index w (tr_expires r) = i)"
      unfolding half_done_def using s2(2,4,5,7) zs tk na that by (intro conjI exI [of _ zs]) (auto simp: same_outside_def)
    ultimately show ?thesis by blast
  qed
  moreover have "same_outside s s2" by (rule same_outside_trans [OF s1(4) s2(4)])
  moreover have "process_node call (Some a, s) = Some (first_of ys, s2)" using r n s1(1) s2(1) t by (simp add: process_node_def)
  moreover have "os_ticks s2 = os_ticks s" using s2(4) t by (simp add: same_outside_def)
  ultimately show ?thesis by blast
qed

section \<open>One tick\<close>

text \<open>
  The timers \<open>ids\<close> are due and expire in this order, each of them
  once; every other running timer goes on, and without callbacks there is no
  new one.
\<close>

definition rings :: "'w callbacks \<Rightarrow> nat list \<Rightarrow> 'w osw \<Rightarrow> 'w osw \<Rightarrow> bool" where
  "rings call ids s s' \<longleftrightarrow> os_ticks s' = os_ticks s \<and> distinct ids \<and> (\<forall>a \<in> set ids. \<exists>r. live s a = Some r \<and> tr_expires r = os_ticks s) \<and>
     passes (unat (os_ticks s)) (set ids) (live s) (live s') \<and> rung call (map (the \<circ> live s) ids) s s' \<and>
     ((\<forall>a \<in> set ids. tr_callback (the (live s a)) = None) \<longrightarrow> live s' = (\<lambda>a. if a \<in> set ids then None else live s a))"

lemma rings_nothing: "live s' = live s \<Longrightarrow> same_outside s s' \<Longrightarrow> rings call [] s s'"
  by (simp add: rings_def passes_refl rung.silent) (simp add: same_outside_def)

lemma passes_back:
  assumes p: "passes t X R R'" and r: "R' a = Some r" "unat (tr_expires r) \<le> t"
  shows "R a = Some r \<and> a \<notin> X"
proof -
  have "\<not> (R a = None \<or> a \<in> X)"
  proof
    assume "R a = None \<or> a \<in> X"
    then have "R' a = None \<or> (\<exists>r. R' a = Some r \<and> t < unat (tr_expires r))" using p unfolding passes_def by blast
    then show False using r by auto
  qed
  then obtain r' where "R a = Some r'" "a \<notin> X" by auto
  moreover then have "R' a = Some r'" using p unfolding passes_def by blast
  ultimately show ?thesis using r(1) by simp
qed

lemma rings_append:
  assumes "rings call ids s s1" and "rings call ids' s1 s2"
  shows "rings call (ids @ ids') s s2"
proof -
  have t: "os_ticks s1 = os_ticks s" "os_ticks s2 = os_ticks s" using assms by (simp_all add: rings_def)
  have p: "passes (unat (os_ticks s)) (set ids) (live s) (live s1)" "passes (unat (os_ticks s)) (set ids') (live s1) (live s2)"
    using assms t by (simp_all add: rings_def)
  have old: "live s a = live s1 a \<and> a \<notin> set ids" if a: "a \<in> set ids'" for a
  proof -
    obtain r where r: "live s1 a = Some r" "tr_expires r = os_ticks s" using assms(2) a t by (auto simp: rings_def)
    then show ?thesis using passes_back [OF p(1) r(1)] by simp
  qed
  then have "map (the \<circ> live s1) ids' = map (the \<circ> live s) ids'" by simp
  then have "rung call (map (the \<circ> live s) ids') s1 s2" using assms(2) unfolding rings_def by metis
  then have "rung call (map (the \<circ> live s) (ids @ ids')) s s2"
    using rung_append [of call "map (the \<circ> live s) ids" s s1] assms(1) unfolding rings_def by simp
  moreover have "\<exists>r. live s a = Some r \<and> tr_expires r = os_ticks s" if "a \<in> set (ids @ ids')" for a
    using assms old that t by (auto simp: rings_def)
  moreover have "distinct (ids @ ids')" using assms old by (auto simp: rings_def)
  moreover have "passes (unat (os_ticks s)) (set (ids @ ids')) (live s) (live s2)" using passes_trans [OF p] by simp
  moreover have "live s2 = (\<lambda>a. if a \<in> set (ids @ ids') then None else live s a)" if q: "\<forall>a \<in> set (ids @ ids'). tr_callback (the (live s a)) = None"
  proof -
    have "live s1 = (\<lambda>a. if a \<in> set ids then None else live s a)" using q assms(1) by (simp add: rings_def)
    moreover have "\<forall>a \<in> set ids'. tr_callback (the (live s1 a)) = None" using q old by (metis Un_iff set_append)
    then have "live s2 = (\<lambda>a. if a \<in> set ids' then None else live s1 a)" using assms(2) by (simp add: rings_def)
    ultimately show ?thesis by auto
  qed
  ultimately show ?thesis using t by (simp add: rings_def)
qed

lemma listed_live: "wheel_inv D s \<Longrightarrow> a \<in> set (os_tv s v i) \<Longrightarrow> \<exists>r. os_timers s a = Some r \<and> live s a = Some r \<and> placed D (unat (os_ticks s)) v i r"
  by (erule (1) inv_listed) (simp add: live_def placed_def)

lemma slot_loop:
  assumes wb: "well_behaved call" and sl: "i < slots_of v" and h: "half_done D v i ys s"
  shows "\<exists>s' ids. while_opt (\<lambda>(hnode, s). hnode \<noteq> None) (process_node call) (first_of ys, s) = Some (None, s') \<and>
    half_done D v i [] s' \<and> rings call ids s s'"
  using h
proof (induction ys arbitrary: s)
  case Nil
  then show ?case using rings_nothing [of s s] by (auto simp: first_of_def while_opt_done same_outside_def)
next
  case (Cons a ys)
  obtain r where r: "os_timers s a = Some r" "live s a = Some r" using half_done_remove [OF Cons(2)] Cons(2) listed_live [of D s a v i]
    by (auto simp: half_done_def)
  have "\<exists>s1 ids. process_node call (Some a, s) = Some (first_of ys, s1) \<and> half_done D v i ys s1 \<and> rings call ids s s1"
  proof (cases "tr_expires r = os_ticks s")
    case True
    then show ?thesis using node_due [OF wb Cons(2) sl r(1) True] r(2) by (auto simp: rings_def fun_upd_def intro!: exI [of _ "[a]"])
  next
    case False
    then show ?thesis using node_later [OF Cons(2) sl r(1) False] rings_nothing by blast
  qed
  then obtain s1 ids where s1: "process_node call (Some a, s) = Some (first_of ys, s1)" "half_done D v i ys s1" "rings call ids s s1" by blast
  obtain s2 ids' where "while_opt (\<lambda>(hnode, s). hnode \<noteq> None) (process_node call) (first_of ys, s1) = Some (None, s2)"
    "half_done D v i [] s2" "rings call ids' s1 s2" using Cons(1) [OF s1(2)] by blast
  moreover have "while_opt (\<lambda>(hnode, s). hnode \<noteq> None) (process_node call) (first_of (a # ys), s) =
      while_opt (\<lambda>(hnode, s). hnode \<noteq> None) (process_node call) (first_of ys, s1)"
    by (rule while_opt_step) (simp_all add: first_of_def s1(1) [unfolded first_of_def])
  ultimately show ?case using rings_append [OF s1(3)] by metis
qed

lemma inv_grow:
  assumes "wheel_inv D s" and "\<And>v i a r. v \<in> E \<Longrightarrow> a \<in> set (os_tv s v i) \<Longrightarrow> os_timers s a = Some r \<Longrightarrow> placed D (unat (os_ticks s)) v i r \<Longrightarrow>
    unat (os_ticks s) < base v (unat (tr_expires r))"
  shows "wheel_inv (D \<union> E) s"
proof -
  have "\<exists>r. os_timers s a = Some r \<and> placed (D \<union> E) (unat (os_ticks s)) v i r" if a: "a \<in> set (os_tv s v i)" for v i a
  proof -
    obtain r where r: "os_timers s a = Some r" "placed D (unat (os_ticks s)) v i r" using inv_listed [OF assms(1) a] by blast
    then have "placed (D \<union> E) (unat (os_ticks s)) v i r" using assms(2) [OF _ a r] by (auto simp: placed_def)
    then show ?thesis using r(1) by simp
  qed
  then show ?thesis using assms(1) unfolding wheel_inv_def by blast
qed

lemma process_tvec_ok:
  assumes wb: "well_behaved call" and i: "wheel_inv D s" "tasks_ok s" and v: "ivl v dvd unat (os_ticks s)"
  shows "\<exists>s' ids. process_tvec call v (tv_index v (os_ticks s)) s = Some s' \<and> wheel_inv (insert v D) s' \<and> tasks_ok s' \<and> rings call ids s s'"
proof -
  let ?i = "tv_index v (os_ticks s)"
  have sl: "?i < slots_of v" by (simp add: tv_index_nat)
  have "half_done D v ?i (os_tv s v ?i) s" using i by (simp add: half_done_def)
  from slot_loop [OF wb sl this] obtain s' ids where
    s': "while_opt (\<lambda>(hnode, s). hnode \<noteq> None) (process_node call) (first_of (os_tv s v ?i), s) = Some (None, s')"
    "half_done D v ?i [] s'" "rings call ids s s'" by blast
  have t: "os_ticks s' = os_ticks s" using s'(3) by (simp add: rings_def)
  have "unat (os_ticks s') < base v (unat (tr_expires r))"
    if a: "a \<in> set (os_tv s' v j)" "os_timers s' a = Some r" "placed D (unat (os_ticks s')) v j r" for j a r
  proof (cases "j = ?i")
    case True
    then show ?thesis using s'(2) a by (auto simp: half_done_def)
  next
    case False
    then show ?thesis using a(3) base_other [OF v, of "unat (tr_expires r)"] t by (auto simp: placed_def tv_index_nat)
  qed
  then have "wheel_inv (D \<union> {v}) s'" using s'(2) by (intro inv_grow) (auto simp: half_done_def)
  then show ?thesis using s' by (auto simp: process_tvec_def first_of_def half_done_def)
qed

text \<open>Each vector turns once while the next one moves by a slot.\<close>

fun geared :: "tvec list \<Rightarrow> bool" where
  "geared [] = True"
| "geared (v # vs) = ((\<forall>w \<in> set vs. slots_of v * ivl v dvd ivl w) \<and> (vs \<noteq> [] \<longrightarrow> ivl (hd vs) = slots_of v * ivl v) \<and> geared vs)"

lemma index_0: "ivl v dvd t \<Longrightarrow> (t div ivl v mod slots_of v = 0) = (slots_of v * ivl v dvd t)"
  using ivl_pos(1) [of v] by (auto simp: mod_eq_0_iff_dvd simp del: ivl_pos elim!: dvdE)

lemma process_vecs_ok:
  assumes wb: "well_behaved call" and i: "wheel_inv D s" "tasks_ok s" and g: "geared vs" and c: "D \<union> set vs = UNIV"
    and v: "vs \<noteq> [] \<Longrightarrow> ivl (hd vs) dvd unat (os_ticks s)"
  shows "\<exists>s' ids. process_vecs call vs s = Some s' \<and> wheel_inv UNIV s' \<and> tasks_ok s' \<and> rings call ids s s'"
  using i g c v
proof (induction vs arbitrary: D s)
  case Nil
  then show ?case using rings_nothing [of s s] by (auto simp: same_outside_def)
next
  case (Cons v vs)
  let ?t = "unat (os_ticks s)"
  have dv: "ivl v dvd ?t" using Cons.prems(5) by simp
  obtain s1 ids where s1: "process_tvec call v (tv_index v (os_ticks s)) s = Some s1" "wheel_inv (insert v D) s1" "tasks_ok s1" "rings call ids s s1"
    using process_tvec_ok [OF wb Cons.prems(1,2) dv] by blast
  have t: "os_ticks s1 = os_ticks s" using s1(4) by (simp add: rings_def)
  have ix: "(tv_index v (os_ticks s) = 0) = (slots_of v * ivl v dvd ?t)" unfolding tv_index_nat by (rule index_0 [OF dv])
  show ?case
  proof (cases "tv_index v (os_ticks s) = 0")
    case True
    have "vs \<noteq> [] \<Longrightarrow> ivl (hd vs) dvd unat (os_ticks s1)" using True ix Cons.prems(3) t by simp
    then obtain s2 ids' where "process_vecs call vs s1 = Some s2" "wheel_inv UNIV s2" "tasks_ok s2" "rings call ids' s1 s2"
      using Cons.IH [OF s1(2,3)] Cons.prems(3,4) by auto
    then show ?thesis using s1(1) rings_append [OF s1(4)] True by (auto simp: Let_def)
  next
    case False
    have "unat (os_ticks s1) < base w (unat (tr_expires r))" if "w \<in> set vs" "placed (insert v D) (unat (os_ticks s1)) w i r" for w i r
    proof -
      have "\<not> ivl w dvd unat (os_ticks s1)" using that(1) False ix Cons.prems(3) t dvd_trans by auto
      then show ?thesis using that(2) by (intro base_not_due) (simp_all add: placed_def)
    qed
    then have "wheel_inv (insert v D \<union> set vs) s1" by (intro inv_grow [OF s1(2)])
    moreover have "insert v D \<union> set vs = UNIV" using Cons.prems(4) by auto
    ultimately show ?thesis using s1 False by (auto simp: Let_def)
  qed
qed

lemma all_vectors: "set [TV1, TV2, TV3, TV4, TV5] = UNIV"
proof -
  have "v \<in> set [TV1, TV2, TV3, TV4, TV5]" for v by (cases v) simp_all
  then show ?thesis by blast
qed

lemma inv_next:
  assumes "wheel_inv UNIV s" and "unat (os_ticks s) + 1 < 2 ^ 64"
  shows "wheel_inv {} (s\<lparr>os_ticks := os_ticks s + 1\<rparr>)" and "unat (os_ticks s + 1) = unat (os_ticks s) + 1"
proof -
  have "unat (os_ticks s) + unat (1 :: u64) < 2 ^ LENGTH(64)" using assms(2) unfolding len64 by simp
  then have u: "unat (os_ticks s + 1) = unat (os_ticks s) + unat (1 :: u64)" by (rule unat_add_lem [THEN iffD1])
  then show u1: "unat (os_ticks s + 1) = unat (os_ticks s) + 1" by simp
  have p: "placed UNIV (unat (os_ticks s)) v i r \<Longrightarrow> placed {} (unat (os_ticks s + 1)) v i r" for v i r
    unfolding u1 placed_def by auto
  have "\<exists>r. os_timers s a = Some r \<and> placed {} (unat (os_ticks s + 1)) v i r" if "a \<in> set (os_tv s v i)" for a v i
    by (rule inv_listed [OF assms(1) that]) (simp add: p)
  then show "wheel_inv {} (s\<lparr>os_ticks := os_ticks s + 1\<rparr>)" using assms(1) by (simp add: wheel_inv_def)
qed

lemma all_later: "wheel_inv UNIV s \<Longrightarrow> live s a = Some r \<Longrightarrow> os_ticks s \<noteq> tr_expires r"
proof
  assume i: "wheel_inv UNIV s" and l: "live s a = Some r" and e: "os_ticks s = tr_expires r"
  have "os_timers s a = Some r" "tr_entry r = Linked" using l by (auto simp: live_def split: option.splits if_splits)
  then obtain v j where "a \<in> set (os_tv s v j)" using i unfolding wheel_inv_def by blast
  then obtain r' where "os_timers s a = Some r'" "placed UNIV (unat (os_ticks s)) v j r'" by (rule inv_listed [OF i])
  then have "unat (os_ticks s) < base v (unat (tr_expires r))" using \<open>os_timers s a = Some r\<close> by (simp add: placed_def)
  then show False using base_le(1) [of v "unat (tr_expires r)"] e by simp
qed

text \<open>The timers that expire at tick \<open>t\<close>.\<close>

definition due_at :: "u64 \<Rightarrow> 'w osw \<Rightarrow> nat set" where
  "due_at t s = {a. \<exists>r. live s a = Some r \<and> tr_expires r = t}"

theorem process_tick_ok:
  assumes wb: "well_behaved call" and i: "wheel_inv {} s" "tasks_ok s" and t: "unat (os_ticks s) + 1 < 2 ^ 64"
  shows "\<exists>s' s'' ids. process_tick call s = Some s' \<and> wheel_inv {} s' \<and> tasks_ok s' \<and> unat (os_ticks s') = unat (os_ticks s) + 1 \<and>
    s' = s''\<lparr>os_ticks := os_ticks s + 1\<rparr> \<and> rings call ids s s'' \<and> set ids = due_at (os_ticks s) s"
proof -
  have "geared [TV1, TV2, TV3, TV4, TV5]" by simp
  moreover have "ivl (hd [TV1, TV2, TV3, TV4, TV5]) dvd unat (os_ticks s)" by simp
  ultimately obtain s' ids where s': "process_vecs call [TV1, TV2, TV3, TV4, TV5] s = Some s'" "wheel_inv UNIV s'" "tasks_ok s'" "rings call ids s s'"
    using process_vecs_ok [OF wb i] all_vectors by (metis Un_UNIV_right)
  have t': "os_ticks s' = os_ticks s" using s'(4) by (simp add: rings_def)
  have "a \<in> set ids" if a: "live s a = Some r" "tr_expires r = os_ticks s" for a r
  proof (rule ccontr)
    assume "a \<notin> set ids"
    then have "live s' a = Some r" using a(1) s'(4) unfolding rings_def passes_def by blast
    from all_later [OF s'(2) this] show False using a(2) t' by simp
  qed
  then have "set ids = due_at (os_ticks s) s" using s'(4) by (auto simp: due_at_def rings_def)
  moreover have "process_tick call s = Some (s'\<lparr>os_ticks := os_ticks s + 1\<rparr>)" using s'(1) t' by (simp add: process_tick_def)
  ultimately show ?thesis using inv_next [OF s'(2)] s'(3,4) t t' by (intro exI [of _ "s'\<lparr>os_ticks := os_ticks s + 1\<rparr>"] exI [of _ s'] exI [of _ ids]) simp
qed

text \<open>The events the expired timers send.\<close>

definition has_event :: "'w osw \<Rightarrow> nat \<Rightarrow> nat \<Rightarrow> bool" where
  "has_event s tid k \<longleftrightarrow> (\<exists>t. os_tasks s tid = Some t \<and> bit (tk_events t) k)"

lemma send_event_bits:
  "send_event tid ev s = Some s' \<Longrightarrow> has_event s' tid' k \<longleftrightarrow> has_event s tid' k \<or> tid' = tid \<and> bit ev k"
  by (auto simp: send_event_def has_event_def bind_eq_Some_conv bit_or_iff split: if_splits)

lemma has_event_outside: "same_outside s s' \<Longrightarrow> has_event s' = has_event s"
  by (simp add: same_outside_def has_event_def fun_eq_iff)

lemma rung_events:
  "rung call rs s s' \<Longrightarrow> \<forall>r \<in> set rs. tr_callback r = None \<Longrightarrow>
    has_event s' tid k \<longleftrightarrow> has_event s tid k \<or> (\<exists>r \<in> set rs. tr_tid r = tid \<and> bit (tr_event r) k)"
proof (induction rule: rung.induct)
  case (silent s s')
  then show ?case by (simp add: has_event_outside)
next
  case (ring s s1 r s2 rs s')
  then have "send_event (tr_tid r) (tr_event r) s1 = Some s2" by (simp add: expire_timer_def)
  then show ?case using ring send_event_bits [of "tr_tid r" "tr_event r" s1 s2 tid k] has_event_outside [OF ring(1)] by auto
qed

end
