(* ===== verification/Osw_Conduct.thy ===== *)
theory Osw_Conduct
  imports Osw_Tick
begin

text \<open>
  Programs that use the tasks and timers of the wrapper: sequences of its
  operations and of ticks.  No sequence that keeps to the rules of the
  interface corrupts the wheel, and a timer that is started and not stopped
  expires at the tick its delay calls for.
\<close>

section \<open>Operations\<close>

datatype 'w osw_op =
    Create_Timer "string option" u32 "nat option" u64 "nat option"
  | Delete_Timer "nat option"
  | Start_Timer nat u32 u32
  | Stop_Timer "nat option"
  | Create_Task string "nat option" bool
  | Send_Event nat u32
  | Recv_Event nat u32 u32
  | Elsewhere 'w
  | Tick

fun run_op :: "'w callbacks \<Rightarrow> 'w osw_op \<Rightarrow> 'w osw \<Rightarrow> 'w osw option" where
  "run_op call (Create_Timer name event callback data mem) s = map_option (snd \<circ> snd) (create_timer name event callback data mem s)"
| "run_op call (Delete_Timer timer) s = map_option snd (del_timer timer s)"
| "run_op call (Start_Timer a sec msec) s = start_timer a sec msec s"
| "run_op call (Stop_Timer timer) s = stop_timer timer s"
| "run_op call (Create_Task name mem thread_ok) s = Some (snd (snd (create_task name mem thread_ok s)))"
| "run_op call (Send_Event tid event) s = send_event tid event s"
| "run_op call (Recv_Event tid events flag) s = map_option snd (recv_event tid events flag s)"
| "run_op call (Elsewhere w) s = Some (s\<lparr>os_world := w\<rparr>)"
| "run_op call Tick s = process_tick call s"

text \<open>The delay of a timer in ticks, with the multiplication at 32 bits.\<close>

definition delay_ticks :: "u32 \<Rightarrow> u32 \<Rightarrow> u64" where
  "delay_ticks sec msec = ucast ((sec * 1000 + msec) div 100)"

text \<open>
  The rules: handles are those of blocks that are allocated, fresh blocks are
  fresh, a timer that runs is neither started again nor deleted, and the
  count of ticks does not wrap.
\<close>

fun op_ok :: "'w osw_op \<Rightarrow> 'w osw \<Rightarrow> bool" where
  "op_ok (Create_Timer name event callback data mem) s = (case mem of None \<Rightarrow> True | Some a \<Rightarrow> os_timers s a = None)"
| "op_ok (Delete_Timer timer) s = (case timer of None \<Rightarrow> True | Some a \<Rightarrow> os_timers s a \<noteq> None \<and> live s a = None)"
| "op_ok (Start_Timer a sec msec) s = (os_timers s a \<noteq> None \<and> live s a = None \<and> os_ticks s \<le> os_ticks s + delay_ticks sec msec)"
| "op_ok (Stop_Timer timer) s = (case timer of None \<Rightarrow> True | Some a \<Rightarrow> os_timers s a \<noteq> None)"
| "op_ok (Create_Task name mem thread_ok) s = (case mem of None \<Rightarrow> True | Some a \<Rightarrow> os_tasks s a = None)"
| "op_ok (Send_Event tid event) s = (os_tasks s tid \<noteq> None)"
| "op_ok (Recv_Event tid events flag) s = (os_tasks s tid \<noteq> None)"
| "op_ok (Elsewhere w) s = True"
| "op_ok Tick s = (os_ticks s + 1 \<noteq> 0)"

fun run_ops :: "'w callbacks \<Rightarrow> 'w osw_op list \<Rightarrow> 'w osw \<Rightarrow> 'w osw option" where
  "run_ops call [] s = Some s"
| "run_ops call (op # ops) s = run_op call op s \<bind> run_ops call ops"

fun ops_ok :: "'w callbacks \<Rightarrow> 'w osw_op list \<Rightarrow> 'w osw \<Rightarrow> bool" where
  "ops_ok call [] s = True"
| "ops_ok call (op # ops) s = (op_ok op s \<and> (case run_op call op s of None \<Rightarrow> True | Some s' \<Rightarrow> ops_ok call ops s'))"

definition osw_inv :: "'w osw \<Rightarrow> bool" where
  "osw_inv s \<longleftrightarrow> wheel_inv {} s \<and> tasks_ok s"

section \<open>Each operation\<close>

text \<open>What each operation promises: it keeps the invariant, the ticks and the other timers.\<close>

definition promises :: "'w osw \<Rightarrow> 'w osw \<Rightarrow> bool \<Rightarrow> nat set \<Rightarrow> bool" where
  "promises s s' ticked X \<longleftrightarrow> osw_inv s' \<and> unat (os_ticks s') = unat (os_ticks s) + (if ticked then 1 else 0) \<and>
     (\<forall>a r. live s a = Some r \<longrightarrow> a \<notin> X \<longrightarrow> live s' a = Some r)"

lemma searched: "search_task name s = Some tid \<Longrightarrow> os_tasks s tid \<noteq> None"
  unfolding search_task_def by (auto simp: find_Some_iff)

lemma delay_lt: "unat (delay_ticks sec msec) = unat (sec * 1000 + msec) div 100"
proof -
  have "unat (sec * 1000 + msec) < 2 ^ 32" using unsigned_less [of "sec * 1000 + msec"] by simp
  then have "unat (sec * 1000 + msec) div 100 < 2 ^ 64" by simp
  then show ?thesis by (simp add: delay_ticks_def unat_div unsigned_ucast_eq take_bit_nat_eq_self)
qed

text \<open>The clock does not wrap.\<close>

lemma start_room: "os_ticks s \<le> os_ticks s + d \<longleftrightarrow> unat (os_ticks s) + unat d < 2 ^ 64"
  using no_olen_add_nat [of "os_ticks s" d] by simp

lemma tick_room: "os_ticks s + 1 \<noteq> 0 \<longleftrightarrow> unat (os_ticks s) + 1 < 2 ^ 64"
proof -
  have "unat (os_ticks s) < 2 ^ 64" using unsigned_less [of "os_ticks s"] by simp
  then show ?thesis by (auto simp: unat_word_ariths word_unat_eq_iff mod_Suc)
qed

lemma create_timer_promises:
  assumes i: "osw_inv s" and ok: "op_ok (Create_Timer name event callback data mem) s"
  shows "\<exists>s'. run_op call (Create_Timer name event callback data mem) s = Some s' \<and> promises s s' False {}"
proof -
  have same: "promises s s False {}" using i by (simp add: promises_def)
  have new: "promises s (set_timer a \<lparr>tr_entry = Unlinked, tr_expires = 0, tr_tid = tid, tr_event = event, tr_callback = callback, tr_data = data\<rparr> s) False {}"
    if a: "os_timers s a = None" and t: "callback = None \<Longrightarrow> os_tasks s tid \<noteq> None" for a tid
  proof -
    have "a \<notin> set (os_tv s v j)" for v j using i a unfolding osw_inv_def wheel_inv_def by fastforce
    then show ?thesis using i a t by (auto simp: promises_def osw_inv_def wheel_inv_def tasks_ok_def live_def)
  qed
  show ?thesis using same new ok by (auto simp: create_timer_def dest!: searched split: option.splits)
qed

lemma delete_timer_promises:
  assumes i: "osw_inv s" and ok: "op_ok (Delete_Timer timer) s"
  shows "\<exists>s'. run_op call (Delete_Timer timer) s = Some s' \<and> promises s s' False {}"
proof (cases timer)
  case (Some a)
  then obtain r where r: "os_timers s a = Some r" "live s a = None" using ok by auto
  have "tr_entry r \<noteq> Linked" using r by (auto simp: live_def split: if_splits)
  then have "a \<notin> set (os_tv s v j)" for v j using i inv_idle [of "{}" s a r v j] r(1) by (simp add: osw_inv_def)
  then have "promises s (s\<lparr>os_timers := (os_timers s)(a := None)\<rparr>) False {}"
    using i r(2) by (auto simp: promises_def osw_inv_def wheel_inv_def tasks_ok_def live_def)
  then show ?thesis using Some r(1) by (simp add: del_timer_def)
qed (use i in \<open>simp add: del_timer_def promises_def\<close>)

lemma start_timer_promises:
  assumes i: "osw_inv s" and ok: "op_ok (Start_Timer a sec msec) s"
  shows "\<exists>s' r. run_op call (Start_Timer a sec msec) s = Some s' \<and> promises s s' False {} \<and>
    live s' a = Some r \<and> tr_expires r = delay_ticks sec msec + os_ticks s"
proof -
  obtain r where r: "os_timers s a = Some r" "live s a = None" "unat (os_ticks s) + unat (delay_ticks sec msec) < 2 ^ 64"
    using ok by (auto simp: start_room)
  have i': "wheel_inv {} s" "tasks_ok s" using i by (simp_all add: osw_inv_def)
  let ?r = "r\<lparr>tr_expires := delay_ticks sec msec + os_ticks s, tr_entry := Linked\<rparr>"
  obtain s' where s': "start_timer_internal a (delay_ticks sec msec) s = Some s'" "wheel_inv {} s'" "live s' = (live s)(a \<mapsto> ?r)"
    "same_outside s s'" "os_timers s' = (os_timers s)(a \<mapsto> ?r)" using start_internal_ok [OF i'(1) r(2) _ r(3,1)] by auto
  have "tasks_ok s'" by (rule tasks_ok_timer [OF i'(2) r(1) _ _ s'(5)]) (use s'(4) in \<open>simp_all add: same_outside_def\<close>)
  then have "promises s s' False {}" using i s'(2,3,4) r(2) by (auto simp: promises_def osw_inv_def same_outside_def)
  then show ?thesis using s'(1,3) by (simp add: start_timer_def delay_ticks_def)
qed

lemma stop_timer_promises:
  assumes i: "osw_inv s" and ok: "op_ok (Stop_Timer timer) s"
  shows "\<exists>s'. run_op call (Stop_Timer timer) s = Some s' \<and> promises s s' False (set_option timer)"
proof (cases timer)
  case (Some a)
  then obtain r where r: "os_timers s a = Some r" using ok by auto
  have i': "wheel_inv {} s" "tasks_ok s" using i by (simp_all add: osw_inv_def)
  show ?thesis
  proof (cases "tr_entry r = Linked")
    case True
    obtain s' where s': "hlist_node_remove a s = Some s'" "wheel_inv {} s'" "live s' = (live s)(a := None)" "same_outside s s'"
      "os_timers s' = (os_timers s)(a \<mapsto> r\<lparr>tr_entry := Poisoned\<rparr>)" using remove_ok [OF i'(1) r True] by blast
    have "tasks_ok s'" by (rule tasks_ok_timer [OF i'(2) r _ _ s'(5)]) (use s'(4) in \<open>simp_all add: same_outside_def\<close>)
    then show ?thesis using Some r True i s' by (auto simp: stop_timer_def promises_def osw_inv_def same_outside_def)
  qed (use Some r i in \<open>simp add: stop_timer_def promises_def\<close>)
qed (use i in \<open>simp add: stop_timer_def promises_def\<close>)

lemma event_promises:
  assumes i: "osw_inv s" and ok: "op_ok (Send_Event tid event) s"
  shows "\<exists>s'. run_op call (Send_Event tid event) s = Some s' \<and> promises s s' False {}"
proof -
  obtain s' where s': "send_event tid event s = Some s'" using ok by (auto simp: send_event_def)
  obtain ts where ts: "s' = s\<lparr>os_tasks := ts\<rparr>" "dom ts = dom (os_tasks s)" using send_event_ok [OF s'] by blast
  then have "ts a \<noteq> None \<longleftrightarrow> os_tasks s a \<noteq> None" for a by (auto simp: dom_def)
  then show ?thesis using i s' by (simp add: ts(1) promises_def osw_inv_def tasks_ok_def)
qed

lemma recv_promises:
  assumes i: "osw_inv s" and ok: "op_ok (Recv_Event tid events flag) s"
  shows "\<exists>s'. run_op call (Recv_Event tid events flag) s = Some s' \<and> promises s s' False {}"
  using assms by (auto simp: recv_event_def Let_def promises_def osw_inv_def tasks_ok_def)

lemma create_task_promises:
  assumes i: "osw_inv s" and ok: "op_ok (Create_Task name mem thread_ok) s"
  shows "\<exists>s'. run_op call (Create_Task name mem thread_ok) s = Some s' \<and> promises s s' False {}"
  using assms by (auto simp: create_task_def promises_def osw_inv_def tasks_ok_def wheel_inv_def live_def split: option.splits)

text \<open>A tick ends the timers that are due.\<close>

lemma tick_promises:
  assumes wb: "well_behaved call" and i: "osw_inv s" and ok: "op_ok Tick s"
  shows "\<exists>s'. run_op call Tick s = Some s' \<and> promises s s' True (due_at (os_ticks s) s)"
proof -
  have "wheel_inv {} s" "tasks_ok s" "unat (os_ticks s) + 1 < 2 ^ 64" using i ok tick_room [of s] by (simp_all add: osw_inv_def)
  from process_tick_ok [OF wb this] obtain s' s'' ids where
    "process_tick call s = Some s'" "wheel_inv {} s'" "tasks_ok s'" "unat (os_ticks s') = unat (os_ticks s) + 1"
    "s' = s''\<lparr>os_ticks := os_ticks s + 1\<rparr>" "rings call ids s s''" "set ids = due_at (os_ticks s) s" by blast
  then show ?thesis by (auto simp: promises_def osw_inv_def rings_def passes_def)
qed

section \<open>Sequences of operations\<close>

text \<open>The timers an operation may end.\<close>

fun ends :: "'w osw_op \<Rightarrow> 'w osw \<Rightarrow> nat set" where
  "ends (Stop_Timer timer) s = set_option timer"
| "ends Tick s = due_at (os_ticks s) s"
| "ends _ s = {}"

lemma run_op_promises:
  assumes "well_behaved call" and "osw_inv s" and "op_ok op s"
  shows "\<exists>s'. run_op call op s = Some s' \<and> promises s s' (op = Tick) (ends op s)"
proof (cases op)
  case (Elsewhere w)
  then show ?thesis using assms by (simp add: promises_def osw_inv_def)
next
  case (Start_Timer a sec msec)
  then show ?thesis using start_timer_promises [of s a sec msec call] assms by auto
qed (use assms create_timer_promises delete_timer_promises stop_timer_promises event_promises recv_promises create_task_promises tick_promises in \<open>simp_all del: run_op.simps op_ok.simps\<close>)

lemma run_ops_inv:
  assumes "well_behaved call" and "osw_inv s" and "ops_ok call ops s"
  shows "\<exists>s'. run_ops call ops s = Some s' \<and> osw_inv s' \<and> unat (os_ticks s') = unat (os_ticks s) + count_list ops Tick"
  using assms(2,3)
proof (induction ops arbitrary: s)
  case (Cons op ops)
  then obtain s1 where s1: "run_op call op s = Some s1" "promises s s1 (op = Tick) (ends op s)"
    using run_op_promises [OF assms(1) Cons.prems(1)] Cons.prems(2) by auto
  then have "osw_inv s1" "ops_ok call ops s1" using Cons.prems by (simp_all add: promises_def)
  from Cons.IH [OF this] show ?case using s1 by (auto simp: promises_def)
qed simp

text \<open>A timer that nobody stops runs until its tick.\<close>

lemma run_ops_keep:
  assumes "well_behaved call" and "osw_inv s" and "ops_ok call ops s" and "run_ops call ops s = Some s'"
    and "live s a = Some r" and "Stop_Timer (Some a) \<notin> set ops" and "unat (os_ticks s) + count_list ops Tick \<le> unat (tr_expires r)"
  shows "live s' a = Some r"
  using assms(2-)
proof (induction ops arbitrary: s)
  case (Cons op ops)
  then obtain s1 where s1: "run_op call op s = Some s1" "promises s s1 (op = Tick) (ends op s)"
    using run_op_promises [OF assms(1) Cons.prems(1)] Cons.prems(2) by auto
  have "a \<notin> ends op s"
  proof (cases "op = Tick")
    case True
    then have "unat (os_ticks s) < unat (tr_expires r)" using Cons.prems(6) by simp
    then show ?thesis using True Cons.prems(4) by (auto simp: due_at_def)
  next
    case False
    then show ?thesis using Cons.prems(5) by (cases op) auto
  qed
  then have "live s1 a = Some r" using s1(2) Cons.prems(4) by (simp add: promises_def)
  moreover have "unat (os_ticks s1) + count_list ops Tick \<le> unat (tr_expires r)" using s1(2) Cons.prems(6) by (auto simp: promises_def split: if_splits)
  ultimately show ?case using Cons.IH [of s1] Cons.prems s1 by (simp add: promises_def)
qed simp

lemma ops_ok_append:
  "ops_ok call (xs @ ys) s \<longleftrightarrow> ops_ok call xs s \<and> (case run_ops call xs s of None \<Rightarrow> True | Some s' \<Rightarrow> ops_ok call ys s')"
  by (induction xs arbitrary: s) (auto split: option.splits bind_splits)

lemma run_ops_append: "run_ops call (xs @ ys) s = run_ops call xs s \<bind> run_ops call ys"
  by (induction xs arbitrary: s) (auto split: bind_splits)

section \<open>From the start\<close>

text \<open>The wrapper after its initialisation; \<open>a\<close> is the task of the timers.\<close>

definition osw_start :: "nat \<Rightarrow> 'w \<Rightarrow> 'w osw" where
  "osw_start a w = snd (timer_base_init True (Some a) True (snd (task_base_init True
     \<lparr>os_task_list = [], os_tasks = (\<lambda>_. None), os_ticks = 0, os_tv = (\<lambda>_ _. []), os_timers = (\<lambda>_. None), os_world = w\<rparr>)))"

lemma osw_start_inv: "osw_inv (osw_start a w)"
  by (simp add: osw_start_def timer_base_init_def task_base_init_def create_task_def search_task_def osw_inv_def wheel_inv_def tasks_ok_def)



text \<open>
  C15. A timer expires exactly when its delay is over.  Whatever else happens
  after it was started, as long as nobody stops it, the tick that comes after
  \<open>n\<close> others expires it just if \<open>n\<close> is its delay in
  ticks, and no earlier tick does; within that tick it expires once.
\<close>

theorem timer_on_time:
  assumes "well_behaved call" and "ops_ok call (ops @ Start_Timer b sec msec # later @ [Tick]) (osw_start a w)"
    and "Stop_Timer (Some b) \<notin> set later" and "count_list later Tick \<le> unat (delay_ticks sec msec)"
  shows "\<exists>s s' ids. run_ops call (ops @ Start_Timer b sec msec # later) (osw_start a w) = Some s \<and>
    process_tick call s = Some (s'\<lparr>os_ticks := os_ticks s + 1\<rparr>) \<and> rings call ids s s' \<and>
    (b \<in> set ids \<longleftrightarrow> count_list later Tick = unat (delay_ticks sec msec))"
proof -
  obtain s0 where s0: "run_ops call ops (osw_start a w) = Some s0" "osw_inv s0" "op_ok (Start_Timer b sec msec) s0"
    "ops_ok call (Start_Timer b sec msec # later @ [Tick]) s0"
    using run_ops_inv [OF assms(1) osw_start_inv, of ops a w] assms(2) unfolding ops_ok_append by auto
  obtain s1 r where s1: "run_op call (Start_Timer b sec msec) s0 = Some s1" "promises s0 s1 False {}" "live s1 b = Some r"
    "tr_expires r = delay_ticks sec msec + os_ticks s0" using start_timer_promises [OF s0(2,3)] by metis
  have ok1: "osw_inv s1" "ops_ok call later s1" "ops_ok call (later @ [Tick]) s1" using s0(4) s1(1,2) by (simp_all add: promises_def ops_ok_append)
  obtain s where s: "run_ops call later s1 = Some s" "osw_inv s" "unat (os_ticks s) = unat (os_ticks s1) + count_list later Tick" "op_ok Tick s"
    using run_ops_inv [OF assms(1) ok1(1,2)] ok1(3) by (auto simp: ops_ok_append)
  have "unat (delay_ticks sec msec) + unat (os_ticks s0) < 2 ^ LENGTH(64)" using s0(3) start_room [of s0] unfolding len64 by simp
  then have "unat (delay_ticks sec msec + os_ticks s0) = unat (delay_ticks sec msec) + unat (os_ticks s0)" by (rule unat_add_lem [THEN iffD1])
  then have e: "unat (tr_expires r) = unat (delay_ticks sec msec) + unat (os_ticks s1)" using s1(2,4) by (simp add: promises_def)
  have l: "live s b = Some r" by (rule run_ops_keep [OF assms(1) ok1(1,2) s(1) s1(3) assms(3)]) (use assms(4) e in simp)
  have "wheel_inv {} s" "tasks_ok s" "unat (os_ticks s) + 1 < 2 ^ 64" using s(2,4) tick_room [of s] by (simp_all add: osw_inv_def)
  from process_tick_ok [OF assms(1) this] obtain s' ids where
    s': "process_tick call s = Some (s'\<lparr>os_ticks := os_ticks s + 1\<rparr>)" "rings call ids s s'" "set ids = due_at (os_ticks s) s" by metis
  have "b \<in> set ids \<longleftrightarrow> unat (tr_expires r) = unat (os_ticks s)" unfolding s'(3) using l by (auto simp: due_at_def word_unat_eq_iff)
  then have "b \<in> set ids \<longleftrightarrow> count_list later Tick = unat (delay_ticks sec msec)" using e s(3) by auto
  moreover have "run_ops call (ops @ Start_Timer b sec msec # later) (osw_start a w) = Some s"
    using s0(1) s1(1) s(1) by (simp add: run_ops_append)
  ultimately show ?thesis using s'(1,2) by blast
qed

text \<open>A program with a task, a timer that sends it an event, and one that calls back.\<close>

definition quiet_calls :: "unit callbacks" where "quiet_calls f d s = Some s"

definition sample_ops :: "unit osw_op list" where
  "sample_ops = [Create_Task ''HATASK'' (Some 8) True, Create_Timer (Some ''HATASK'') 4 None 0 (Some 16), Create_Timer None 0 (Some 1) 7 (Some 24),
     Start_Timer 24 0 150]"

lemma quiet_well_behaved: "well_behaved quiet_calls"
  by (auto simp: well_behaved_def quiet_calls_def intro: rearms.nothing)

declare while_opt.simps [code]

lemma sample_ops_ok: "ops_ok quiet_calls (sample_ops @ [Start_Timer 16 0 250, Tick, Tick, Tick]) (osw_start 4 ())"
  by code_simp


theorem timer_on_time_witness:
  "\<exists>s s' ids. run_ops quiet_calls (sample_ops @ Start_Timer 16 0 250 # [Tick, Tick]) (osw_start 4 ()) = Some s \<and>
    process_tick quiet_calls s = Some (s'\<lparr>os_ticks := os_ticks s + 1\<rparr>) \<and> rings quiet_calls ids s s' \<and> 16 \<in> set ids"
  using timer_on_time [OF quiet_well_behaved, of sample_ops 16 0 250 "[Tick, Tick]" 4 "()"] sample_ops_ok by (simp add: delay_ticks_def)

definition event_ops :: "unit osw_op list" where
  "event_ops = [Create_Task ''HATASK'' (Some 8) True, Create_Timer (Some ''HATASK'') 4 None 0 (Some 16), Start_Timer 16 0 50]"

definition event_state :: "unit osw" where
  "event_state = the (run_ops quiet_calls event_ops (osw_start 4 ()))"

lemma event_run: "run_ops quiet_calls event_ops (osw_start 4 ()) = Some event_state"
  "ops_ok quiet_calls (event_ops @ [Tick]) (osw_start 4 ())"
proof -
  have "run_ops quiet_calls event_ops (osw_start 4 ()) \<noteq> None" unfolding Option.is_none_def [symmetric] by code_simp
  then show "run_ops quiet_calls event_ops (osw_start 4 ()) = Some event_state" by (simp add: event_state_def)
  show "ops_ok quiet_calls (event_ops @ [Tick]) (osw_start 4 ())" by code_simp
qed

lemma event_due: "due_at (os_ticks event_state) event_state = {16}" "live event_state 16 = Some \<lparr>tr_entry = Linked, tr_expires = 0, tr_tid = 8,
    tr_event = 4, tr_callback = None, tr_data = 0\<rparr>"
  by (auto simp: event_state_def event_ops_def due_at_def live_def osw_start_def timer_base_init_def task_base_init_def create_task_def search_task_def
    create_timer_def start_timer_def start_timer_internal_def add_timer_def hlist_head_add_def set_timer_def Let_def split: if_splits)


section \<open>Delays\<close>

text \<open>
  C38. The delay a timer gets is counted in tenths of a second, rounded down,
  and is computed modulo the size of an unsigned 32-bit number of
  milliseconds: a delay of 2^32 milliseconds or more is cut short.
\<close>

theorem start_timer_delay:
  assumes "osw_inv s" and "op_ok (Start_Timer a sec msec) s"
  shows "\<exists>s' r. start_timer a sec msec s = Some s' \<and> live s' = (live s)(a \<mapsto> r) \<and>
    unat (tr_expires r) = unat (os_ticks s) + (unat sec * 1000 + unat msec) mod 2 ^ 32 div 100"
proof -
  obtain r where r: "os_timers s a = Some r" "live s a = None" "unat (os_ticks s) + unat (delay_ticks sec msec) < 2 ^ 64"
    using assms(2) by (auto simp: start_room)
  have "wheel_inv {} s" using assms(1) by (simp add: osw_inv_def)
  let ?r = "r\<lparr>tr_expires := delay_ticks sec msec + os_ticks s, tr_entry := Linked\<rparr>"
  obtain s' where s': "start_timer_internal a (delay_ticks sec msec) s = Some s'" "live s' = (live s)(a \<mapsto> ?r)"
    using start_internal_ok [OF \<open>wheel_inv {} s\<close> r(2) _ r(3,1)] by auto
  have "unat (delay_ticks sec msec) + unat (os_ticks s) < 2 ^ LENGTH(64)" using r(3) unfolding len64 by simp
  then have "unat (delay_ticks sec msec + os_ticks s) = unat (delay_ticks sec msec) + unat (os_ticks s)" by (rule unat_add_lem [THEN iffD1])
  moreover have "unat (sec * 1000 + msec) = (unat sec * 1000 + unat msec) mod 2 ^ 32" by (simp add: unat_word_ariths mod_simps)
  ultimately have "unat (tr_expires ?r) = unat (os_ticks s) + (unat sec * 1000 + unat msec) mod 2 ^ 32 div 100" by (simp add: delay_lt)
  then show ?thesis using s' by (auto simp: start_timer_def delay_ticks_def)
qed

text \<open>A delay of 4294968 seconds, nearly fifty days, ends after seven ticks.\<close>

theorem start_timer_delay_witness:
  "\<exists>s' r. start_timer 16 4294968 0 (the (run_ops quiet_calls (take 2 event_ops) (osw_start 4 ()))) = Some s' \<and> live s' 16 = Some r \<and> unat (tr_expires r) = 7"
proof -
  let ?s = "the (run_ops quiet_calls (take 2 event_ops) (osw_start 4 ()))"
  have "ops_ok quiet_calls (take 2 event_ops) (osw_start 4 ())" by code_simp
  from run_ops_inv [OF quiet_well_behaved osw_start_inv this] have i: "osw_inv ?s" by auto
  have ok: "op_ok (Start_Timer 16 4294968 0) ?s" by code_simp
  have "os_ticks ?s = 0" by code_simp
  then show ?thesis using start_timer_delay [OF i ok] by auto
qed

end
