(* ===== verification/Osw_Clock.thy ===== *)
theory Osw_Clock
  imports Osw_Timer
begin

text \<open>
  How the task of the timers turns readings of the clock into ticks: with the
  correction of the accumulated error, ticks never run ahead of the time, and
  at least every second one of them is counted.
\<close>

section \<open>One cycle\<close>

definition usec_of :: "int \<times> int \<Rightarrow> int" where
  "usec_of tv = fst tv * 1000000 + snd tv"

lemma elapsed_usec: "COMPUTE_ELAPSED_TIME tv1 tv2 = usec_of tv1 - usec_of tv2"
  by (auto simp: COMPUTE_ELAPSED_TIME_def usec_of_def Let_def)

text \<open>The whole tenths of a second of the current period have been counted.\<close>

definition clock_inv :: "tick_clock \<Rightarrow> bool" where
  "clock_inv tc \<longleftrightarrow> 0 < usec_of (tc_last tc) \<and> uint (tc_total_ticks tc) = uint (tc_total_elapsed_usec tc) div 100000"

lemma due_ticks_step:
  assumes c: "clock_inv tc" and n: "due_ticks cur tc = (n, tc')" and e: "usec_of (tc_last tc) \<le> usec_of cur"
    and b: "uint (tc_total_elapsed_usec tc) + (usec_of cur - usec_of (tc_last tc)) < 2 ^ 64"
  shows "clock_inv tc' \<and> tc_last tc' = cur \<and>
    uint (tc_total_elapsed_usec tc') \<le> uint (tc_total_elapsed_usec tc) + (usec_of cur - usec_of (tc_last tc)) \<and>
    (\<exists>k. uint n + uint (tc_total_ticks tc) = k + uint (tc_total_ticks tc') \<and>
      100000 * k + uint (tc_total_elapsed_usec tc') \<le> uint (tc_total_elapsed_usec tc) + (usec_of cur - usec_of (tc_last tc)) \<and>
      uint (tc_total_elapsed_usec tc) + (usec_of cur - usec_of (tc_last tc)) \<le> 200000 * k + uint (tc_total_elapsed_usec tc'))"
proof -
  define d where "d = usec_of cur - usec_of (tc_last tc)"
  define U where "U = uint (tc_total_elapsed_usec tc)"
  define N where "N = uint (tc_total_ticks tc)"
  define E where "E = (word_of_int d :: u64)"
  have nn: "0 \<le> d" "0 \<le> U" "0 \<le> N" "N = U div 100000" "U + d < 2 ^ 64" using e c b by (simp_all add: d_def U_def N_def clock_inv_def pos_imp_zdiv_nonneg_iff)
  have l: "tc_last tc \<noteq> (0, 0)" using c by (auto simp: clock_inv_def usec_of_def)
  have Ew: "word_of_int (COMPUTE_ELAPSED_TIME cur (tc_last tc)) = E" by (simp only: E_def d_def elapsed_usec)
  have uE: "uint E = d" using nn by (simp add: E_def uint_word_of_int)
  have uq: "uint (E div 100000) = d div 100000" by (simp add: uint_div uE)
  have uU: "uint (tc_total_elapsed_usec tc + E) = U + d" using nn by (simp add: uint_word_ariths uE U_def)
  have uR: "uint ((tc_total_elapsed_usec tc + E) div 100000) = (U + d) div 100000" by (simp add: uint_div uU)
  have lim: "N + d div 100000 \<le> (U + d) div 100000" "(U + d) div 100000 \<le> N + d div 100000 + 1" "(U + d) div 100000 < 2 ^ 64"
    using nn by linarith+
  have uN: "uint (tc_total_ticks tc + E div 100000) = N + d div 100000" using lim nn by (simp add: uint_word_ariths uq N_def)
  show ?thesis
  proof (cases "(U + d) div 100000 = N + d div 100000")
    case True
    then have "(tc_total_elapsed_usec tc + E) div 100000 = tc_total_ticks tc + E div 100000" using uR uN by (simp add: word_uint_eq_iff)
    then have "n = E div 100000" "tc' = \<lparr>tc_last = cur, tc_total_elapsed_usec = tc_total_elapsed_usec tc + E, tc_total_ticks = tc_total_ticks tc + E div 100000\<rparr>"
      using n l by (auto simp: due_ticks_def Let_def Ew)
    then show ?thesis using True nn e c uq uU uN by (simp add: clock_inv_def d_def [symmetric] U_def [symmetric] N_def [symmetric])
  next
    case False
    then have ne: "(tc_total_elapsed_usec tc + E) div 100000 \<noteq> tc_total_ticks tc + E div 100000" using uR uN by (auto simp: word_uint_eq_iff)
    then have n': "n = E div 100000 + ((tc_total_elapsed_usec tc + E) div 100000 - (tc_total_ticks tc + E div 100000))"
      and tc': "tc' = \<lparr>tc_last = cur, tc_total_elapsed_usec = 0, tc_total_ticks = 0\<rparr>"
      using n l by (auto simp: due_ticks_def Let_def Ew)
    have k: "(U + d) div 100000 = N + d div 100000 + 1" using False lim by linarith
    have "n = (tc_total_elapsed_usec tc + E) div 100000 - tc_total_ticks tc" by (simp add: n')
    then have "uint n = (U + d) div 100000 - N" using uR k nn lim by (simp add: uint_word_ariths N_def)
    moreover have "1 \<le> (U + d) div 100000" using k nn(1,3) by (simp add: pos_imp_zdiv_nonneg_iff)
    then have "100000 * ((U + d) div 100000) \<le> U + d" "U + d \<le> 200000 * ((U + d) div 100000)" by linarith+
    ultimately show ?thesis using nn e c unfolding tc'
      by (simp add: clock_inv_def d_def [symmetric] U_def [symmetric] N_def [symmetric])
  qed
qed

section \<open>Readings of the clock\<close>

text \<open>The ticks that the readings give, and the time that passes.\<close>

fun ticked :: "(int \<times> int) list \<Rightarrow> tick_clock \<Rightarrow> int" where
  "ticked [] tc = 0"
| "ticked (cur # readings) tc = (case due_ticks cur tc of (n, tc') \<Rightarrow> uint n + ticked readings tc')"

fun rising :: "int \<times> int \<Rightarrow> (int \<times> int) list \<Rightarrow> bool" where
  "rising tv [] = True"
| "rising tv (cur # readings) = (usec_of tv \<le> usec_of cur \<and> rising cur readings)"

lemma rising_last: "rising tv readings \<Longrightarrow> usec_of tv \<le> usec_of (last (tv # readings))"
proof (induction readings arbitrary: tv)
  case (Cons cur readings)
  from Cons.IH [of cur] Cons.prems show ?case by auto
qed simp

lemma ticked_bounds:
  assumes "clock_inv tc" and "rising (tc_last tc) readings"
    and "uint (tc_total_elapsed_usec tc) + (usec_of (last (tc_last tc # readings)) - usec_of (tc_last tc)) < 2 ^ 64"
  shows "100000 * (ticked readings tc + uint (tc_total_ticks tc)) \<le> uint (tc_total_elapsed_usec tc) + (usec_of (last (tc_last tc # readings)) - usec_of (tc_last tc)) \<and>
    uint (tc_total_elapsed_usec tc) + (usec_of (last (tc_last tc # readings)) - usec_of (tc_last tc)) < 200000 * (ticked readings tc + uint (tc_total_ticks tc)) + 100000"
  using assms
proof (induction readings arbitrary: tc)
  case Nil
  define U where "U = uint (tc_total_elapsed_usec tc)"
  have "0 \<le> U div 100000" by (simp add: U_def pos_imp_zdiv_nonneg_iff)
  then have "100000 * (U div 100000) \<le> U" "U < 200000 * (U div 100000) + 100000" by linarith+
  then show ?case using Nil(1) by (simp add: clock_inv_def U_def)
next
  case (Cons cur readings)
  obtain n tc' where n: "due_ticks cur tc = (n, tc')" by (cases "due_ticks cur tc")
  have r: "usec_of (tc_last tc) \<le> usec_of cur" "rising cur readings" "usec_of cur \<le> usec_of (last (cur # readings))" using Cons.prems(2) rising_last by auto
  then have b: "uint (tc_total_elapsed_usec tc) + (usec_of cur - usec_of (tc_last tc)) < 2 ^ 64" using Cons.prems(3) by simp
  from due_ticks_step [OF Cons.prems(1) n r(1) b] obtain k where k: "clock_inv tc'" "tc_last tc' = cur"
    "uint (tc_total_elapsed_usec tc') \<le> uint (tc_total_elapsed_usec tc) + (usec_of cur - usec_of (tc_last tc))"
    "uint n + uint (tc_total_ticks tc) = k + uint (tc_total_ticks tc')"
    "100000 * k + uint (tc_total_elapsed_usec tc') \<le> uint (tc_total_elapsed_usec tc) + (usec_of cur - usec_of (tc_last tc))"
    "uint (tc_total_elapsed_usec tc) + (usec_of cur - usec_of (tc_last tc)) \<le> 200000 * k + uint (tc_total_elapsed_usec tc')" by blast
  have "rising (tc_last tc') readings" "uint (tc_total_elapsed_usec tc') + (usec_of (last (tc_last tc' # readings)) - usec_of (tc_last tc')) < 2 ^ 64"
    using r k(2,3) Cons.prems(3) by simp_all
  from Cons.IH [OF k(1) this] show ?case using n k(2,4-6) by simp
qed

text \<open>The clock before the first reading.\<close>

definition clock_start :: tick_clock where
  "clock_start = \<lparr>tc_last = (0, 0), tc_total_elapsed_usec = 0, tc_total_ticks = 0\<rparr>"

lemma first_reading: "due_ticks cur clock_start = (0, \<lparr>tc_last = cur, tc_total_elapsed_usec = 0, tc_total_ticks = 0\<rparr>)"
  by (auto simp: due_ticks_def clock_start_def Let_def elapsed_usec)

text \<open>
  C39. Ticks follow the clock of the machine.  As long as the clock does not
  step back, the ticks of any sequence of readings never count more time than
  has passed since the first one; they may fall behind, because the part of a
  tick that is left when an error is corrected is dropped, but never by more
  than half of the time and one tick.
\<close>

theorem tick_count_bounds:
  assumes "0 < usec_of first" and "rising first readings" and "usec_of (last (first # readings)) - usec_of first < 2 ^ 64"
  shows "100000 * ticked (first # readings) clock_start \<le> usec_of (last (first # readings)) - usec_of first \<and>
    usec_of (last (first # readings)) - usec_of first < 200000 * ticked (first # readings) clock_start + 100000"
  using ticked_bounds [of "\<lparr>tc_last = first, tc_total_elapsed_usec = 0, tc_total_ticks = 0\<rparr>" readings] assms
  by (simp add: first_reading clock_inv_def)

text \<open>Cycles of just under two ticks: three ticks are counted in the time of four.\<close>

theorem tick_count_bounds_witness:
  "ticked [(1, 0), (1, 199999), (1, 399998)] clock_start = 3 \<and> 100000 * ticked [(1, 0), (1, 199999), (1, 399998)] clock_start \<le> 399998"
proof -
  have "ticked [(1, 0), (1, 199999), (1, 399998)] clock_start = 3" by code_simp
  moreover have "100000 * ticked [(1, 0), (1, 199999), (1, 399998)] clock_start \<le> 399998"
    using tick_count_bounds [of "(1, 0)" "[(1, 199999), (1, 399998)]"] by (simp add: usec_of_def del: ticked.simps)
  ultimately show ?thesis by simp
qed

end
