(* ===== verification/Osw_Queue.thy ===== *)
theory Osw_Queue
  imports Osw_Timer
begin

text \<open>
  The message queues of the operating system wrapper, \<open>queue.c\<close>
  with \<open>osw_queue.h\<close>, as it is built with
  \<open>NON_POSIX_MQUEUE\<close>: a ring buffer of slots of one size.  The
  buffer is a list of bytes; \<open>None\<close> is an access outside it or a
  division by zero.
\<close>

abbreviation (input) QUEUE_NAME_LEN :: nat where "QUEUE_NAME_LEN \<equiv> 16"
abbreviation (input) ETIMEDOUT :: int where "ETIMEDOUT \<equiv> 110"

section \<open>State and operations\<close>

record queue_info =
  qi_name :: string
  qi_msg_len :: u32
  qi_msg_num :: u32
  qi_buffer :: bytes
  qi_write_index :: u32
  qi_read_index :: u32
  qi_avail_num :: u32

record queue_base =
  qb_queue_list :: "nat list"
  qb_queues :: "nat \<Rightarrow> queue_info option"

definition memcpy_to :: "bytes \<Rightarrow> nat \<Rightarrow> bytes \<Rightarrow> bytes option" where
  "memcpy_to dst off src = (if off + length src \<le> length dst then Some (take off dst @ src @ drop (off + length src) dst) else None)"

definition memcpy_from :: "bytes \<Rightarrow> nat \<Rightarrow> nat \<Rightarrow> bytes option" where
  "memcpy_from src off n = (if off + n \<le> length src then Some (take n (drop off src)) else None)"

definition search_queue :: "string \<Rightarrow> queue_base \<Rightarrow> nat option" where
  "search_queue name qb = List.find (\<lambda>a. map_option qi_name (qb_queues qb a) = Some name) (qb_queue_list qb)"

text \<open>
  \<open>mem\<close> is the block for the queue, \<open>buf\<close> the block for its
  messages with whatever it contains; its size is computed at 32 bits.
\<close>

definition create_queue :: "string \<Rightarrow> u32 \<Rightarrow> u32 \<Rightarrow> nat option \<Rightarrow> bytes option \<Rightarrow> queue_base \<Rightarrow> int \<times> nat option \<times> queue_base" where
  "create_queue name msg_len msg_num mem buf qb =
     (if search_queue name qb \<noteq> None then (OSW_ERROR, None, qb)
      else case mem of
        None \<Rightarrow> (OSW_ERROR, None, qb)
      | Some a \<Rightarrow> (case buf of
          None \<Rightarrow> (OSW_ERROR, Some a, qb)
        | Some bs \<Rightarrow> (OSW_OK, Some a, qb\<lparr>qb_queue_list := a # qb_queue_list qb, qb_queues := (qb_queues qb)(a \<mapsto>
            \<lparr>qi_name = take QUEUE_NAME_LEN name, qi_msg_len = msg_len, qi_msg_num = msg_num, qi_buffer = take (unat (msg_len * msg_num)) bs,
             qi_write_index = 0, qi_read_index = 0, qi_avail_num = 0\<rparr>)\<rparr>)))"

definition del_queue :: "nat \<Rightarrow> queue_base \<Rightarrow> queue_base option" where
  "del_queue qid qb = (case qb_queues qb qid of None \<Rightarrow> None
     | Some _ \<Rightarrow> Some (qb\<lparr>qb_queue_list := remove1 qid (qb_queue_list qb), qb_queues := (qb_queues qb)(qid := None)\<rparr>))"

definition queue_base_init :: "bool \<Rightarrow> queue_base \<Rightarrow> int \<times> queue_base" where
  "queue_base_init base_ok qb = (if base_ok then (OSW_OK, qb\<lparr>qb_queue_list := []\<rparr>) else (OSW_ERROR, qb))"

definition queue_send :: "bytes \<Rightarrow> u32 \<Rightarrow> queue_info \<Rightarrow> (int \<times> queue_info) option" where
  "queue_send msg_buf msg_len qi =
     (if qi_msg_len qi < msg_len then Some (OSW_ERROR, qi)
      else if qi_msg_num qi \<le> qi_avail_num qi then Some (OSW_ERROR, qi)
      else do {
        src \<leftarrow> memcpy_from msg_buf 0 (unat msg_len);
        buffer \<leftarrow> memcpy_to (qi_buffer qi) (unat (qi_write_index qi * qi_msg_len qi)) src;
        Some (OSW_OK, qi\<lparr>qi_buffer := buffer, qi_write_index := (qi_write_index qi + 1) mod qi_msg_num qi, qi_avail_num := qi_avail_num qi + 1\<rparr>) })"

text \<open>The end of \<open>queue_receive\<close>: the message at the read index is copied out.\<close>

datatype q_result = Returns int bytes | Q_Waits

definition take_message :: "u32 \<Rightarrow> queue_info \<Rightarrow> (q_result \<times> queue_info) option" where
  "take_message msg_len qi = do {
     data \<leftarrow> memcpy_from (qi_buffer qi) (unat (qi_read_index qi * qi_msg_len qi)) (unat msg_len);
     (if qi_msg_num qi = 0 then None
      else Some (Returns OSW_OK data, qi\<lparr>qi_read_index := (qi_read_index qi + 1) mod qi_msg_num qi, qi_avail_num := qi_avail_num qi - 1\<rparr>)) }"

text \<open>
  \<open>queue_receive\<close> runs until it returns or waits on the condition,
  and \<open>queue_woken\<close> from there; \<open>rc\<close> is what
  \<open>pthread_cond_timedwait\<close> returned.  Only the wait without a limit
  looks again whether there is a message.
\<close>

definition clamp_len :: "u32 \<Rightarrow> queue_info \<Rightarrow> u32" where
  "clamp_len msg_len qi = (if qi_msg_len qi < msg_len then qi_msg_len qi else msg_len)"

definition queue_receive :: "u32 \<Rightarrow> int \<Rightarrow> queue_info \<Rightarrow> (q_result \<times> queue_info) option" where
  "queue_receive msg_len timeout qi =
     (if qi_avail_num qi \<noteq> 0 then take_message (clamp_len msg_len qi) qi
      else if timeout = 0 then Some (Returns OSW_ERROR [], qi)
      else Some (Q_Waits, qi))"

definition queue_woken :: "u32 \<Rightarrow> int \<Rightarrow> int \<Rightarrow> queue_info \<Rightarrow> (q_result \<times> queue_info) option" where
  "queue_woken msg_len timeout rc qi =
     (if timeout = -1 then (if qi_avail_num qi = 0 then Some (Q_Waits, qi) else take_message (clamp_len msg_len qi) qi)
      else if rc = ETIMEDOUT then Some (Returns OSW_ERROR [], qi)
      else take_message (clamp_len msg_len qi) qi)"

text \<open>The time until which a receiver with a limit waits, from the time of day in seconds and microseconds.\<close>

definition wait_until :: "int \<times> u32 \<Rightarrow> int \<Rightarrow> int \<times> u32" where
  "wait_until tp timeout =
     (let usec = snd tp + word_of_int (timeout * 1000);
          (sec, usec) = (if 1000000 < usec then (usec div 1000000, usec mod 1000000) else (0, usec))
      in (fst tp + uint sec, usec * 1000))"

section \<open>Slots\<close>

definition slot :: "queue_info \<Rightarrow> nat \<Rightarrow> bytes" where
  "slot qi i = take (unat (qi_msg_len qi)) (drop (i * unat (qi_msg_len qi)) (qi_buffer qi))"

text \<open>The well-formed queues: the indices agree with the number of messages and every slot is inside the buffer.\<close>

definition queue_inv :: "queue_info \<Rightarrow> bool" where
  "queue_inv qi \<longleftrightarrow> length (qi_buffer qi) = unat (qi_msg_num qi) * unat (qi_msg_len qi) \<and>
     unat (qi_msg_num qi) * unat (qi_msg_len qi) < 2 ^ 32 \<and> qi_read_index qi < qi_msg_num qi \<and> qi_avail_num qi \<le> qi_msg_num qi \<and>
     unat (qi_write_index qi) = (unat (qi_read_index qi) + unat (qi_avail_num qi)) mod unat (qi_msg_num qi)"

text \<open>The messages in the order they were sent.\<close>

definition q_contents :: "queue_info \<Rightarrow> bytes list" where
  "q_contents qi = map (\<lambda>i. slot qi ((unat (qi_read_index qi) + i) mod unat (qi_msg_num qi))) [0..<unat (qi_avail_num qi)]"

lemma slot_offset:
  assumes "queue_inv qi" and "i < qi_msg_num qi"
  shows "unat (i * qi_msg_len qi) = unat i * unat (qi_msg_len qi)" and "unat i * unat (qi_msg_len qi) + unat (qi_msg_len qi) \<le> length (qi_buffer qi)"
proof -
  have i: "Suc (unat i) \<le> unat (qi_msg_num qi)" using assms(2) by (simp add: word_less_nat_alt)
  have "Suc (unat i) * unat (qi_msg_len qi) \<le> unat (qi_msg_num qi) * unat (qi_msg_len qi)" by (rule mult_le_mono1 [OF i])
  then show le: "unat i * unat (qi_msg_len qi) + unat (qi_msg_len qi) \<le> length (qi_buffer qi)" using assms(1) by (simp add: queue_inv_def)
  then have "unat i * unat (qi_msg_len qi) < 2 ^ LENGTH(32)" using assms(1) by (simp add: queue_inv_def)
  then show "unat (i * qi_msg_len qi) = unat i * unat (qi_msg_len qi)" by (rule unat_mult_lem [THEN iffD1])
qed

lemma succ32:
  assumes "i < (n :: u32)"
  shows "unat (i + 1) = unat i + 1"
proof -
  have "unat i < unat n" "unat n < 2 ^ LENGTH(32)" using assms by (simp_all only: word_less_nat_alt unsigned_less)
  then have "unat i + unat (1 :: u32) < 2 ^ LENGTH(32)" by simp
  then have "unat (i + 1) = unat i + unat (1 :: u32)" by (rule unat_add_lem [THEN iffD1])
  then show ?thesis by simp
qed

lemma next_index:
  assumes "i < (n :: u32)"
  shows "unat ((i + 1) mod n) = (unat i + 1) mod unat n" and "(i + 1) mod n < n"
proof -
  show "unat ((i + 1) mod n) = (unat i + 1) mod unat n" by (simp add: unat_mod succ32 [OF assms])
  then show "(i + 1) mod n < n" using assms by (simp add: word_less_nat_alt)
qed

lemma write_slot:
  assumes "length src \<le> L" and "w * L + L \<le> length B" and "j * L + L \<le> length B"
  shows "take L (drop (j * L) (take (w * L) B @ src @ drop (w * L + length src) B)) =
    (if j = w then src @ drop (length src) (take L (drop (w * L) B)) else take L (drop (j * L) B))"
proof (cases "j = w")
  case True
  then show ?thesis using assms by (simp add: drop_take min_def) (simp add: add.commute)
next
  case False
  have apart: "j * L + L \<le> w * L \<or> w * L + L \<le> j * L"
  proof (cases "j < w")
    case True
    then have "Suc j * L \<le> w * L" by (intro mult_le_mono1) simp
    then show ?thesis by simp
  next
    case False
    then have "Suc w * L \<le> j * L" using \<open>j \<noteq> w\<close> by (intro mult_le_mono1) simp
    then show ?thesis by simp
  qed
  define C where "C = take (w * L) B @ src @ drop (w * L + length src) B"
  have len: "length C = length B" using assms by (simp add: C_def)
  have same: "C ! m = B ! m" if "m < w * L \<or> w * L + L \<le> m" "m < length B" for m
    using that assms(1,2) by (auto simp: C_def nth_append)
  have "C ! (j * L + k) = B ! (j * L + k)" if "k < L" for k by (rule same) (use that apart assms(3) in auto)
  then have "take L (drop (j * L) C) = take L (drop (j * L) B)" using len assms(3) by (intro nth_equalityI) simp_all
  then show ?thesis using False by (simp add: C_def)
qed

section \<open>A queue is first in, first out\<close>

lemma ring_apart:
  assumes "i < k" and "k < n"
  shows "(r + i) mod n \<noteq> (r + k) mod (n :: nat)"
proof
  assume "(r + i) mod n = (r + k) mod n"
  then have "n dvd (r + k) - (r + i)" using assms by (metis add_le_cancel_left less_imp_le_nat mod_eq_dvd_iff_nat)
  then show False using assms nat_dvd_not_less [of "k - i" n] by simp
qed

lemma send_contents:
  assumes i: "queue_inv qi" and l: "msg_len \<le> qi_msg_len qi" "unat msg_len \<le> length msg" and a: "qi_avail_num qi < qi_msg_num qi"
  shows "\<exists>qi' pad. queue_send msg msg_len qi = Some (OSW_OK, qi') \<and> queue_inv qi' \<and> q_contents qi' = q_contents qi @ [take (unat msg_len) msg @ pad] \<and>
    qi_msg_len qi' = qi_msg_len qi \<and> qi_msg_num qi' = qi_msg_num qi"
proof -
  let ?L = "unat (qi_msg_len qi)" and ?n = "unat (qi_msg_num qi)" and ?r = "unat (qi_read_index qi)" and ?k = "unat (qi_avail_num qi)"
  define w where "w = unat (qi_write_index qi)"
  define src where "src = take (unat msg_len) msg"
  have n: "?k < ?n" "?r < ?n" using a i by (simp_all add: word_less_nat_alt queue_inv_def)
  then have wi: "w = (?r + ?k) mod ?n" "qi_write_index qi < qi_msg_num qi" using i by (simp_all add: w_def queue_inv_def word_less_nat_alt)
  have off: "unat (qi_write_index qi * qi_msg_len qi) = w * ?L" "w * ?L + ?L \<le> length (qi_buffer qi)" using slot_offset [OF i wi(2)] by (simp_all add: w_def)
  have src: "length src = unat msg_len" "length src \<le> ?L" "memcpy_from msg 0 (unat msg_len) = Some src"
    using l by (simp_all add: src_def memcpy_from_def word_le_nat_alt)
  define B where "B = take (w * ?L) (qi_buffer qi) @ src @ drop (w * ?L + length src) (qi_buffer qi)"
  define q where "q = qi\<lparr>qi_buffer := B, qi_write_index := (qi_write_index qi + 1) mod qi_msg_num qi, qi_avail_num := qi_avail_num qi + 1\<rparr>"
  have k: "unat (qi_avail_num qi + 1) = ?k + 1" by (rule succ32 [OF a])
  have lB: "length B = length (qi_buffer qi)" using off(2) src(2) by (simp add: B_def)
  have sent: "queue_send msg msg_len qi = Some (OSW_OK, q)"
    using l(1) a src off by (simp add: queue_send_def memcpy_to_def q_def B_def not_less not_le)
  have "unat ((qi_write_index qi + 1) mod qi_msg_num qi) = (?r + (?k + 1)) mod ?n"
    unfolding next_index(1) [OF wi(2)] using wi(1) by (simp add: w_def mod_Suc_eq)
  then have inv: "queue_inv q" using i lB k n(1) by (simp add: queue_inv_def q_def word_le_nat_alt)
  have sl: "slot q j = (if j = w then src @ drop (length src) (slot qi w) else slot qi j)" if "j < ?n" for j
  proof -
    have "Suc j * ?L \<le> ?n * ?L" using that by (intro mult_le_mono1) simp
    then have "j * ?L + ?L \<le> length (qi_buffer qi)" using i by (simp add: queue_inv_def)
    from write_slot [OF src(2) off(2) this] show ?thesis by (simp add: slot_def q_def B_def)
  qed
  have "slot q ((?r + j) mod ?n) = slot qi ((?r + j) mod ?n)" if "j < ?k" for j
    using sl [of "(?r + j) mod ?n"] ring_apart [OF that n(1)] wi(1) n(1) by simp
  moreover have "slot q ((?r + ?k) mod ?n) = src @ drop (length src) (slot qi w)" using sl [of w] wi(1) n by simp
  ultimately have "q_contents q = q_contents qi @ [src @ drop (length src) (slot qi w)]" using k by (simp add: q_contents_def q_def [unfolded slot_def])
  then show ?thesis using sent inv by (auto simp: src_def q_def)
qed

lemma take_contents:
  assumes i: "queue_inv qi" and a: "qi_avail_num qi \<noteq> 0" and l: "msg_len \<le> qi_msg_len qi"
  shows "\<exists>qi' sl rest. q_contents qi = sl # rest \<and> take_message msg_len qi = Some (Returns OSW_OK (take (unat msg_len) sl), qi') \<and> queue_inv qi' \<and>
    q_contents qi' = rest \<and> qi_msg_len qi' = qi_msg_len qi \<and> qi_msg_num qi' = qi_msg_num qi"
proof -
  let ?L = "unat (qi_msg_len qi)" and ?n = "unat (qi_msg_num qi)" and ?r = "unat (qi_read_index qi)" and ?k = "unat (qi_avail_num qi)"
  have r: "qi_read_index qi < qi_msg_num qi" "?r < ?n" "?k \<le> ?n" using i by (simp_all add: queue_inv_def word_less_nat_alt word_le_nat_alt)
  have off: "unat (qi_read_index qi * qi_msg_len qi) = ?r * ?L" "?r * ?L + ?L \<le> length (qi_buffer qi)" using slot_offset [OF i r(1)] by simp_all
  have "1 \<le> qi_avail_num qi" using a by (simp add: word_le_nat_alt unat_gt_0 Suc_le_eq)
  then have k: "unat (qi_avail_num qi - 1) = ?k - 1" "0 < ?k" using a by (simp_all add: unat_sub unat_gt_0)
  define q where "q = qi\<lparr>qi_read_index := (qi_read_index qi + 1) mod qi_msg_num qi, qi_avail_num := qi_avail_num qi - 1\<rparr>"
  have ri: "unat ((qi_read_index qi + 1) mod qi_msg_num qi) = (?r + 1) mod ?n" "(qi_read_index qi + 1) mod qi_msg_num qi < qi_msg_num qi"
    by (rule next_index [OF r(1)])+
  have "take_message msg_len qi = Some (Returns OSW_OK (take (unat msg_len) (slot qi ?r)), q)"
    using off l r(2) by (auto simp: take_message_def memcpy_from_def slot_def q_def word_le_nat_alt min_def)
  moreover have "queue_inv q"
  proof -
    have "((?r + 1) mod ?n + (?k - 1)) mod ?n = (?r + 1 + (?k - 1)) mod ?n" by (rule mod_add_left_eq)
    then have "(?r + ?k) mod ?n = ((?r + 1) mod ?n + (?k - 1)) mod ?n" using k(2) by simp
    then show ?thesis using i ri k(1) r(3) by (simp add: queue_inv_def q_def word_le_nat_alt)
  qed
  moreover have "q_contents q = map (\<lambda>j. slot qi ((?r + Suc j) mod ?n)) [0..<?k - 1]"
    using ri(1) k(1) by (simp add: q_contents_def q_def slot_def mod_add_left_eq)
  moreover have "q_contents qi = slot qi ?r # map (\<lambda>j. slot qi ((?r + Suc j) mod ?n)) [0..<?k - 1]"
    using k(2) r(2) by (cases ?k) (simp_all add: q_contents_def upt_conv_Cons map_Suc_upt [symmetric] del: upt_Suc)
  ultimately show ?thesis by (auto simp: q_def)
qed

end
