(* ===== verification/Osw_Queue_Conduct.thy ===== *)
theory Osw_Queue_Conduct
  imports Osw_Queue
begin

text \<open>
  What a message queue promises its users: it is first in, first out, takes
  as many messages as it has slots, and refuses the others.  The promise is
  stated against a plain list of messages, for every interleaving of senders
  and receivers, including receivers that wait.
\<close>

section \<open>The interface\<close>

datatype q_op =
    Q_Send bytes u32
  | Q_Receive u32 int
  | Q_Woken u32 int int

text \<open>A list of messages, with a bound on their number and on their size.\<close>

fun fifo_take :: "u32 \<Rightarrow> q_result \<Rightarrow> bytes list \<Rightarrow> q_result \<times> bytes list" where
  "fifo_take len none [] = (none, [])"
| "fifo_take len none (m # ms) = (Returns OSW_OK (take (unat len) m), ms)"

fun fifo_step :: "nat \<Rightarrow> nat \<Rightarrow> q_op \<Rightarrow> bytes list \<Rightarrow> q_result \<times> bytes list" where
  "fifo_step cap width (Q_Send m len) ms =
     (if unat len \<le> width \<and> length ms < cap then (Returns OSW_OK [], ms @ [take (unat len) m]) else (Returns OSW_ERROR [], ms))"
| "fifo_step cap width (Q_Receive len timeout) ms = fifo_take len (if timeout = 0 then Returns OSW_ERROR [] else Q_Waits) ms"
| "fifo_step cap width (Q_Woken len timeout rc) ms =
     (if timeout \<noteq> -1 \<and> rc = ETIMEDOUT then (Returns OSW_ERROR [], ms) else fifo_take len Q_Waits ms)"

text \<open>A receiver may get more bytes than the message has: the rest of its slot.\<close>

fun answers :: "q_result \<Rightarrow> q_result \<Rightarrow> bool" where
  "answers (Returns rc data) (Returns rc' m) = (rc = rc' \<and> take (length m) data = m)"
| "answers Q_Waits Q_Waits = True"
| "answers _ _ = False"

fun run_queue :: "(q_op \<Rightarrow> 'q \<Rightarrow> (q_result \<times> 'q) option) \<Rightarrow> q_op list \<Rightarrow> 'q \<Rightarrow> (q_result list \<times> 'q) option" where
  "run_queue step [] q = Some ([], q)"
| "run_queue step (op # ops) q = do {
     (out, q) \<leftarrow> step op q;
     (outs, q) \<leftarrow> run_queue step ops q;
     Some (out # outs, q) }"

fun run_fifo :: "nat \<Rightarrow> nat \<Rightarrow> q_op list \<Rightarrow> bytes list \<Rightarrow> q_result list \<times> bytes list" where
  "run_fifo cap width [] ms = ([], ms)"
| "run_fifo cap width (op # ops) ms = (case fifo_step cap width op ms of (out, ms) \<Rightarrow> case run_fifo cap width ops ms of (outs, ms) \<Rightarrow> (out # outs, ms))"

fun all_allowed :: "(q_op \<Rightarrow> 'q \<Rightarrow> (q_result \<times> 'q) option) \<Rightarrow> (q_op \<Rightarrow> 'q \<Rightarrow> bool) \<Rightarrow> q_op list \<Rightarrow> 'q \<Rightarrow> bool" where
  "all_allowed step allowed [] q = True"
| "all_allowed step allowed (op # ops) q = (allowed op q \<and> (case step op q of None \<Rightarrow> True | Some (_, q') \<Rightarrow> all_allowed step allowed ops q'))"

locale message_queue =
  fixes step :: "q_op \<Rightarrow> 'q \<Rightarrow> (q_result \<times> 'q) option"
    and allowed :: "q_op \<Rightarrow> 'q \<Rightarrow> bool"
    and held :: "'q \<Rightarrow> bytes list \<Rightarrow> bool"
    and cap :: nat
    and width :: nat
  assumes serve: "held q ms \<Longrightarrow> allowed op q \<Longrightarrow>
    \<exists>out q'. step op q = Some (out, q') \<and> held q' (snd (fifo_step cap width op ms)) \<and> answers out (fst (fifo_step cap width op ms))"
begin

lemma ops_served:
  assumes "held q ms" and "all_allowed step allowed ops q"
  shows "\<exists>outs q'. run_queue step ops q = Some (outs, q') \<and> held q' (snd (run_fifo cap width ops ms)) \<and>
    list_all2 answers outs (fst (run_fifo cap width ops ms))"
  using assms
proof (induction ops arbitrary: q ms)
  case (Cons op ops)
  then obtain out q1 where s: "step op q = Some (out, q1)" "held q1 (snd (fifo_step cap width op ms))" "answers out (fst (fifo_step cap width op ms))"
    using serve [of q ms op] by auto
  then have "all_allowed step allowed ops q1" using Cons.prems(2) by simp
  from Cons.IH [OF s(2) this] show ?case using s by (auto simp: case_prod_unfold)
qed simp

end

section \<open>The ring buffer\<close>

definition queue_step :: "q_op \<Rightarrow> queue_info \<Rightarrow> (q_result \<times> queue_info) option" where
  "queue_step op qi = (case op of
     Q_Send m len \<Rightarrow> map_option (\<lambda>(rc, qi). (Returns rc [], qi)) (queue_send m len qi)
   | Q_Receive len timeout \<Rightarrow> queue_receive len timeout qi
   | Q_Woken len timeout rc \<Rightarrow> queue_woken len timeout rc qi)"

text \<open>
  Callers pass a buffer that is as long as they say, and a receiver with a
  limit is woken by the limit or by a message that is there for it.
\<close>

definition queue_allowed :: "q_op \<Rightarrow> queue_info \<Rightarrow> bool" where
  "queue_allowed op qi = (case op of
     Q_Send m len \<Rightarrow> unat len \<le> length m
   | Q_Receive len timeout \<Rightarrow> True
   | Q_Woken len timeout rc \<Rightarrow> timeout = -1 \<or> rc = ETIMEDOUT \<or> qi_avail_num qi \<noteq> 0)"

definition in_slot :: "nat \<Rightarrow> bytes \<Rightarrow> bytes \<Rightarrow> bool" where
  "in_slot width sl m \<longleftrightarrow> length m \<le> width \<and> take (length m) sl = m"

definition queue_held :: "nat \<Rightarrow> nat \<Rightarrow> queue_info \<Rightarrow> bytes list \<Rightarrow> bool" where
  "queue_held cap width qi ms \<longleftrightarrow> queue_inv qi \<and> unat (qi_msg_num qi) = cap \<and> unat (qi_msg_len qi) = width \<and> list_all2 (in_slot width) (q_contents qi) ms"

lemma held_length: "queue_held cap width qi ms \<Longrightarrow> length ms = unat (qi_avail_num qi)"
  by (auto simp: queue_held_def q_contents_def dest: list_all2_lengthD)

lemma send_served:
  assumes h: "queue_held cap width qi ms" and l: "unat len \<le> length m"
  shows "\<exists>out q'. queue_step (Q_Send m len) qi = Some (out, q') \<and> queue_held cap width q' (snd (fifo_step cap width (Q_Send m len) ms)) \<and>
    answers out (fst (fifo_step cap width (Q_Send m len) ms))"
proof (cases "unat len \<le> width \<and> length ms < cap")
  case True
  then have "len \<le> qi_msg_len qi" "qi_avail_num qi < qi_msg_num qi" using h held_length [OF h] by (simp_all add: queue_held_def word_le_nat_alt word_less_nat_alt)
  moreover have "queue_inv qi" using h by (simp add: queue_held_def)
  ultimately obtain q pad where q: "queue_send m len qi = Some (OSW_OK, q)" "queue_inv q" "q_contents q = q_contents qi @ [take (unat len) m @ pad]"
    "qi_msg_len q = qi_msg_len qi" "qi_msg_num q = qi_msg_num qi" using send_contents [of qi len m] l by blast
  then have "queue_held cap width q (ms @ [take (unat len) m])" using h True l by (simp add: queue_held_def list_all2_appendI in_slot_def)
  then show ?thesis using True q(1) by (simp add: queue_step_def)
next
  case False
  then have "qi_msg_len qi < len \<or> qi_msg_num qi \<le> qi_avail_num qi" using h held_length [OF h] by (auto simp: queue_held_def word_le_nat_alt word_less_nat_alt)
  then have "queue_send m len qi = Some (OSW_ERROR, qi)" by (auto simp: queue_send_def)
  then show ?thesis using False h by (auto simp: queue_step_def)
qed

lemma take_served:
  assumes h: "queue_held cap width qi ms" and a: "qi_avail_num qi \<noteq> 0"
  shows "\<exists>out q'. take_message (clamp_len len qi) qi = Some (out, q') \<and> queue_held cap width q' (snd (fifo_take len none ms)) \<and>
    answers out (fst (fifo_take len none ms))"
proof -
  have c: "clamp_len len qi \<le> qi_msg_len qi" "unat (clamp_len len qi) = min (unat len) width" using h
    by (auto simp: clamp_len_def queue_held_def word_less_nat_alt not_less word_le_nat_alt)
  have "queue_inv qi" using h by (simp add: queue_held_def)
  from take_contents [OF this a c(1)] obtain q sl rest where q: "q_contents qi = sl # rest"
    "take_message (clamp_len len qi) qi = Some (Returns OSW_OK (take (unat (clamp_len len qi)) sl), q)" "queue_inv q" "q_contents q = rest"
    "qi_msg_len q = qi_msg_len qi" "qi_msg_num q = qi_msg_num qi" by blast
  then obtain m ms' where ms: "ms = m # ms'" "in_slot width sl m" "list_all2 (in_slot width) rest ms'"
    using h by (auto simp: queue_held_def list_all2_Cons1)
  have "take (min (length m) (unat len)) (take (min (unat len) width) sl) = take (unat len) m"
  proof -
    have "min (min (length m) (unat len)) (min (unat len) width) = min (unat len) (length m)" using ms(2) by (auto simp: in_slot_def)
    moreover have "take (unat len) m = take (min (unat len) (length m)) sl" using ms(2) take_take [of "unat len" "length m" sl] by (simp add: in_slot_def)
    ultimately show ?thesis by simp
  qed
  then have "answers (Returns OSW_OK (take (unat (clamp_len len qi)) sl)) (fst (fifo_take len none ms))" by (simp add: ms(1) c(2) min.commute)
  moreover have "queue_held cap width q ms'" using h q(3-6) ms(3) by (simp add: queue_held_def)
  ultimately show ?thesis using q(2) ms(1) by simp
qed

lemma queue_serve:
  assumes h: "queue_held cap width qi ms" and a: "queue_allowed op qi"
  shows "\<exists>out q'. queue_step op qi = Some (out, q') \<and> queue_held cap width q' (snd (fifo_step cap width op ms)) \<and> answers out (fst (fifo_step cap width op ms))"
proof (cases op)
  case (Q_Send m len)
  then show ?thesis using send_served [OF h] a by (simp add: queue_allowed_def)
next
  case (Q_Receive len timeout)
  show ?thesis
  proof (cases "qi_avail_num qi = 0")
    case True
    then have "ms = []" using held_length [OF h] by simp
    then show ?thesis using Q_Receive True h by (simp add: queue_step_def queue_receive_def)
  next
    case False
    then show ?thesis using Q_Receive take_served [OF h False] by (simp add: queue_step_def queue_receive_def)
  qed
next
  case (Q_Woken len timeout rc)
  show ?thesis
  proof (cases "qi_avail_num qi = 0")
    case True
    then have "ms = []" using held_length [OF h] by simp
    then show ?thesis using Q_Woken True h a by (auto simp: queue_step_def queue_woken_def queue_allowed_def)
  next
    case False
    then show ?thesis using Q_Woken take_served [OF h False, of len Q_Waits] h by (auto simp: queue_step_def queue_woken_def)
  qed
qed

interpretation ring: message_queue queue_step queue_allowed "queue_held cap width" cap width for cap width
  by unfold_locales (rule queue_serve)

section \<open>Properties\<close>

lemma created_held:
  assumes "create_queue name msg_len msg_num (Some a) (Some bs) qb = (OSW_OK, Some a, qb')" and "qb_queues qb' a = Some qi" and "0 < msg_num"
    and "unat msg_num * unat msg_len < 2 ^ 32" and "unat msg_num * unat msg_len \<le> length bs"
  shows "queue_held (unat msg_num) (unat msg_len) qi []"
proof -
  have "qi = \<lparr>qi_name = take QUEUE_NAME_LEN name, qi_msg_len = msg_len, qi_msg_num = msg_num, qi_buffer = take (unat (msg_len * msg_num)) bs,
      qi_write_index = 0, qi_read_index = 0, qi_avail_num = 0\<rparr>"
    using assms(1,2) by (auto simp: create_queue_def split: if_splits)
  moreover have "unat (msg_len * msg_num) = unat msg_num * unat msg_len"
  proof -
    have "unat msg_len * unat msg_num < 2 ^ LENGTH(32)" using assms(4) by (simp add: mult.commute)
    then have "unat (msg_len * msg_num) = unat msg_len * unat msg_num" by (rule unat_mult_lem [THEN iffD1])
    then show ?thesis by (simp add: mult.commute)
  qed
  ultimately show ?thesis using assms(3-5) by (simp add: queue_held_def queue_inv_def q_contents_def)
qed


definition sample_queue :: queue_info where
  "sample_queue = \<lparr>qi_name = ''HAMSG'', qi_msg_len = 4, qi_msg_num = 2, qi_buffer = replicate 8 0, qi_write_index = 0, qi_read_index = 0, qi_avail_num = 0\<rparr>"

definition sample_calls :: "q_op list" where
  "sample_calls = [Q_Receive 4 (-1), Q_Send [1, 2, 3] 3, Q_Send [4] 1, Q_Send [5] 1, Q_Woken 2 (-1) 0, Q_Receive 8 0, Q_Receive 8 0]"


text \<open>
  C40. A receiver with a limit that is woken without a message spoils the
  queue.  The wait is not repeated: the call reports success with whatever
  the slot holds, the number of messages wraps to 2^32 - 1, and from then on
  every message is refused.
\<close>

theorem woken_without_message:
  assumes "queue_inv qi" and "qi_avail_num qi = 0" and "timeout \<noteq> -1" and "rc \<noteq> ETIMEDOUT"
  shows "\<exists>data qi'. queue_woken len timeout rc qi = Some (Returns OSW_OK data, qi') \<and> unat (qi_avail_num qi') = 2 ^ 32 - 1 \<and>
    (\<forall>m l. queue_send m l qi' = Some (OSW_ERROR, qi'))"
proof -
  have r: "qi_read_index qi < qi_msg_num qi" using assms(1) by (simp add: queue_inv_def)
  have c: "unat (clamp_len len qi) \<le> unat (qi_msg_len qi)" by (auto simp: clamp_len_def word_less_nat_alt)
  obtain data where "memcpy_from (qi_buffer qi) (unat (qi_read_index qi * qi_msg_len qi)) (unat (clamp_len len qi)) = Some data"
    using slot_offset [OF assms(1) r] c by (simp add: memcpy_from_def)
  moreover have "qi_msg_num qi \<noteq> 0" using r by auto
  ultimately have "queue_woken len timeout rc qi = Some (Returns OSW_OK data, qi\<lparr>qi_read_index := (qi_read_index qi + 1) mod qi_msg_num qi, qi_avail_num := -1\<rparr>)"
    using assms(2-4) by (simp add: queue_woken_def take_message_def)
  moreover have "unat (-1 :: u32) = 2 ^ 32 - 1" by (simp add: unsigned_minus_1_eq_mask mask_eq_exp_minus_1)
  ultimately show ?thesis by (auto simp: queue_send_def)
qed

text \<open>An error of \<open>EINVAL\<close> is enough, and the limit that ends at a full second gives it: the nanoseconds are not below 10^9.\<close>

lemma full_second_limit: "wait_until (0, 900000) 100 = (0, 1000000000)"
  by code_simp

theorem woken_without_message_witness:
  "\<exists>data qi'. queue_woken 4 100 22 sample_queue = Some (Returns OSW_OK data, qi') \<and> queue_send [1] 1 qi' = Some (OSW_ERROR, qi')"
proof -
  have "queue_inv sample_queue" by (simp add: sample_queue_def queue_inv_def)
  moreover have "qi_avail_num sample_queue = 0" by (simp add: sample_queue_def)
  ultimately show ?thesis using woken_without_message [of sample_queue 100 22 4] by fastforce
qed

end
