(* ===== verification/Osw_Semaphore.thy ===== *)
theory Osw_Semaphore
  imports Osw_Queue
begin

text \<open>
  The semaphores of the operating system wrapper, \<open>semaphore.c\<close>
  with \<open>osw_semaphore.h\<close>, over the counting semaphores of POSIX,
  and the initialisation of the whole wrapper, \<open>init.c\<close>.
\<close>

abbreviation (input) SEM_NAME_LEN :: nat where "SEM_NAME_LEN \<equiv> 16"
abbreviation (input) SEM_VALUE_MAX :: nat where "SEM_VALUE_MAX \<equiv> 2147483647"

section \<open>Semaphores\<close>

record sem_info =
  sm_name :: string
  sm_value :: nat

record sem_base =
  sb_sem_list :: "nat list"
  sb_sems :: "nat \<Rightarrow> sem_info option"

definition search_sem :: "string \<Rightarrow> sem_base \<Rightarrow> nat option" where
  "search_sem name sb = List.find (\<lambda>a. map_option sm_name (sb_sems sb a) = Some name) (sb_sem_list sb)"

text \<open>\<open>sem_init\<close> refuses a value above the largest; the block then stays allocated, outside the list.\<close>

definition create_sem :: "string \<Rightarrow> u32 \<Rightarrow> nat option \<Rightarrow> sem_base \<Rightarrow> int \<times> nat option \<times> sem_base" where
  "create_sem name init_val mem sb =
     (if search_sem name sb \<noteq> None then (OSW_ERROR, None, sb)
      else case mem of
        None \<Rightarrow> (OSW_ERROR, None, sb)
      | Some a \<Rightarrow>
          (if SEM_VALUE_MAX < unat init_val
           then (OSW_ERROR, Some a, sb\<lparr>sb_sems := (sb_sems sb)(a \<mapsto> \<lparr>sm_name = take SEM_NAME_LEN name, sm_value = 0\<rparr>)\<rparr>)
           else (OSW_OK, Some a, sb\<lparr>sb_sem_list := a # sb_sem_list sb,
             sb_sems := (sb_sems sb)(a \<mapsto> \<lparr>sm_name = take SEM_NAME_LEN name, sm_value = unat init_val\<rparr>)\<rparr>)))"

text \<open>The block of a deleted semaphore is not freed.\<close>

definition del_sem :: "nat \<Rightarrow> sem_base \<Rightarrow> sem_base option" where
  "del_sem sid sb = (case sb_sems sb sid of None \<Rightarrow> None
     | Some _ \<Rightarrow> if sid \<in> set (sb_sem_list sb) then Some (sb\<lparr>sb_sem_list := remove1 sid (sb_sem_list sb)\<rparr>) else None)"

text \<open>A task that takes a semaphore waits until there is one, or until a signal interrupts it.\<close>

datatype taken = Taken int | Must_Wait

definition sem_take :: "bool \<Rightarrow> sem_info \<Rightarrow> taken \<times> sem_info" where
  "sem_take interrupted si =
     (if 0 < sm_value si then (Taken OSW_OK, si\<lparr>sm_value := sm_value si - 1\<rparr>)
      else if interrupted then (Taken OSW_ERROR, si)
      else (Must_Wait, si))"

definition sem_give :: "sem_info \<Rightarrow> int \<times> sem_info" where
  "sem_give si = (if sm_value si = SEM_VALUE_MAX then (OSW_ERROR, si) else (OSW_OK, si\<lparr>sm_value := sm_value si + 1\<rparr>))"

definition sem_base_init :: "bool \<Rightarrow> sem_base \<Rightarrow> int \<times> sem_base" where
  "sem_base_init base_ok sb = (if base_ok then (OSW_OK, sb\<lparr>sb_sem_list := []\<rparr>) else (OSW_ERROR, sb))"

section \<open>Initialisation\<close>

text \<open>
  The four bases, each of them initialised only if the one before was.
  \<open>oks\<close> says for which of them there is memory; the last two
  arguments are those of the task of the timers.
\<close>

definition osw_init :: "bool \<times> bool \<times> bool \<times> bool \<Rightarrow> nat option \<Rightarrow> bool \<Rightarrow> 'w osw \<times> sem_base \<times> queue_base \<Rightarrow> int \<times> 'w osw \<times> sem_base \<times> queue_base" where
  "osw_init oks mem thread_ok = (\<lambda>(s, sb, qb). case oks of (task_ok, sem_ok, queue_ok, timer_ok) \<Rightarrow>
     (case task_base_init task_ok s of (rc, s) \<Rightarrow> if rc \<noteq> OSW_OK then (OSW_ERROR, s, sb, qb)
      else case sem_base_init sem_ok sb of (rc, sb) \<Rightarrow> if rc \<noteq> OSW_OK then (OSW_ERROR, s, sb, qb)
      else case queue_base_init queue_ok qb of (rc, qb) \<Rightarrow> if rc \<noteq> OSW_OK then (OSW_ERROR, s, sb, qb)
      else case timer_base_init timer_ok mem thread_ok s of (rc, s) \<Rightarrow> if rc \<noteq> OSW_OK then (OSW_ERROR, s, sb, qb)
      else (OSW_OK, s, sb, qb)))"

section \<open>A semaphore counts\<close>

datatype sem_op = Take bool | Give

fun sem_run :: "sem_op list \<Rightarrow> sem_info \<Rightarrow> nat \<times> nat \<times> sem_info" where
  "sem_run [] si = (0, 0, si)"
| "sem_run (Take interrupted # ops) si =
     (case sem_take interrupted si of (out, si) \<Rightarrow> case sem_run ops si of (t, g, si) \<Rightarrow> (if out = Taken OSW_OK then Suc t else t, g, si))"
| "sem_run (Give # ops) si =
     (case sem_give si of (rc, si) \<Rightarrow> case sem_run ops si of (t, g, si) \<Rightarrow> (t, if rc = OSW_OK then Suc g else g, si))"

text \<open>What has been taken was there at the beginning or was given back.\<close>

lemma sem_counts: "sem_run ops si = (t, g, si') \<Longrightarrow> sm_value si' + t = sm_value si + g"
proof (induction ops si arbitrary: t g si' rule: sem_run.induct)
  case (2 interrupted ops si)
  then show ?case by (fastforce simp: sem_take_def split: if_splits prod.splits)
next
  case (3 ops si)
  then show ?case by (fastforce simp: sem_give_def split: if_splits prod.splits)
qed simp

lemma osw_init_ok: "osw_init (True, True, True, True) (Some a) True (s, sb, qb) = (rc, s', sb', qb') \<Longrightarrow> os_task_list s' = [a] \<and> rc = OSW_OK"
  by (auto simp: osw_init_def task_base_init_def sem_base_init_def queue_base_init_def timer_base_init_def create_task_def search_task_def)

end
