(* ===== verification/Spec2Isabelle.thy ===== *)
theory Spec2Isabelle
  imports Dps_Server_Conduct Osw_Conduct Osw_Clock Osw_Queue_Conduct Osw_Semaphore
begin

text \<open>
  Verification of the protocol between the DOVE Connectivity Server and its
  clients, the switches and gateways of a DOVE overlay network.

  \<^bold>\<open>The program.\<close>  A client asks the server where an endpoint
  is, which policy connects two networks, and so on; both sides build and
  parse packets with the same source,
  \<open>src/odcs/client_server_protocol/src/dps_pkt_process.c\<close>.  A packet
  is a header of twenty bytes and a sequence of TLVs.  A request that expects
  an answer is handed to the retransmission timer
  (\<open>src/odcs/timer/src/raw_proto_timer.c\<close>) under its query id; the
  answer stops the timer, and a timer that gives up makes up an answer that
  says that there was none.  A client
  (\<open>dps_client_ctrl.c\<close>) has one socket and a table that says
  which server is responsible for which virtual network.  The server
  (\<open>dps_svr_ctrl.c\<close>) has one socket too; it keeps what it wants
  acknowledged in a dictionary of Python
  (\<open>src/odcs/data_handler\<close>,
  \<open>python/retransmit_handler.py\<close> and
  \<open>src/retransmit_interface.c\<close>), whose entries are blocks of C
  memory.

  \<^bold>\<open>Conventions.\<close>  C integers are words of their width.  The
  host is little-endian.  A pointer into a packet is the list of bytes from
  there to the end of its buffer; a structure is a record.  An operation of
  type \<open>option\<close> yields \<open>None\<close> where the behaviour of the
  code is undefined (an access outside its block, to a freed node, or through
  a null pointer) or where it does not return; error codes are values.  A
  loop is \<open>while_opt\<close> of \<open>Dove_Prelude\<close>, which is
  \<open>None\<close> when it does not end; no fuel is used anywhere.

  \<^bold>\<open>Packets.\<close>
  \<^item> \<open>Dove_Prelude\<close>: bytes and byte order, bounded memory
    access, combinators for routines that fill or scan a buffer, loops.
  \<^item> \<open>Dps_Types\<close>: the structures and constants of
    \<open>dps_client_common.h\<close>, \<open>dps_pkt.h\<close> and
    \<open>raw_proto_timer.h\<close>.
  \<^item> \<open>Dps_Tlv_Set\<close>, \<open>Dps_Tlv_Get\<close>: every
    \<open>dps_set_*\<close> and \<open>dps_get_*\<close> routine.
  \<^item> \<open>Dps_Link\<close>: what the packet code calls, as the record
    \<open>dps_link\<close> (allocation, transmission, timer, delivery); buffers,
    header, lengths.  \<open>Dps_Send\<close>: every \<open>dps_send_*\<close>.
    \<open>Dps_Process\<close>: every \<open>dps_process_*\<close>.
    \<open>Dps_Dispatch\<close>, \<open>Dps_Receive\<close>: the dispatch tables
    (\<open>dps_protocol_client_send\<close>, \<open>dps_process_rcvd_pkt\<close>),
    statistics, acknowledgements, \<open>dps_retransmit_callback\<close>.
  \<^item> \<open>Dps_Tlv_Image\<close>, \<open>Dps_Tlv_Codec\<close>,
    \<open>Dps_Tlv_Nested\<close>, \<open>Dps_Tlv_Group\<close>,
    \<open>Dps_Tlv_Lists\<close>, \<open>Dps_Tlv_Laws\<close>: the bytes each
    writer leaves and that its reader recovers the value; the contract of a
    writer and its reader is the locale \<open>tlv_codec\<close>.
  \<^item> \<open>Dps_Packet\<close>: the locales \<open>dps_message\<close> and
    \<open>scanned_message\<close>, which carry a message from the send routine
    over the wire to the receiver's client; \<open>Dps_Messages\<close>,
    \<open>Dps_Policy_Messages\<close>, \<open>Dps_List_Messages\<close>,
    \<open>Dps_Group_Messages\<close> interpret them, one message type each.
    \<open>Dps_Exchange\<close> states the results: a message that fits a packet
    is delivered unchanged.
  \<^item> \<open>Dps_Control\<close>, \<open>Dps_Conduct\<close>: acknowledgements,
    buffers, statistics, refusal of invalid messages, made-up replies, and the
    packets on which the code loops or reads beyond its input.

  \<^bold>\<open>The timer.\<close>
  \<^item> \<open>Dove_Chain\<close>: singly linked lists in a store.
  \<^item> \<open>Raw_Proto_Timer\<close>: the state (\<open>gHashTab\<close> and its
    nodes, the callbacks, the query id) and every operation.  A critical
    section of \<open>pktTimerListMutex\<close> is one step; what happens while
    the mutex is released for a callback is the parameter \<open>tm_call\<close>.
  \<^item> \<open>Raw_Proto_Table\<close>, \<open>Raw_Proto_Pass\<close>,
    \<open>Raw_Proto_Store\<close>: the invariant of the table, and that each
    operation does to lists of entries what its description says.
  \<^item> \<open>Raw_Proto_Queries\<close>: the interface of the timer as the
    locale \<open>query_store\<close>, its interpretation on
    \<open>raw_proto_timer_start\<close> and \<open>raw_proto_timer_stop\<close>,
    and the reachable states.
  \<^item> \<open>Raw_Proto_Time\<close>, \<open>Raw_Proto_Conduct\<close>: the thread
    against the clock, and the properties.

  \<^bold>\<open>The client.\<close>
  \<^item> \<open>Dps_Vnid_Map\<close>: the table of servers, a hash table of
    doubly linked lists (\<open>dps_list.h\<close>,
    \<open>dps_vnid_node_mapping_*\<close>).  \<open>Dps_Vnid_Table\<close>,
    \<open>Dps_Vnid_Laws\<close>: its invariant and its operations as
    operations on a partial map.  \<open>Dps_Directory\<close>: the locale
    \<open>node_directory\<close>, interpreted on them.
  \<^item> \<open>Dps_Client_Ctrl\<close>: the state of a client and every
    operation of \<open>dps_client_ctrl.c\<close>; it gives the
    \<open>dps_link\<close> of a client.  The clock, sockets and memory are the
    record \<open>client_env\<close>.
  \<^item> \<open>Dps_Client_Laws\<close>, \<open>Dps_Client_Exchange\<close>,
    \<open>Dps_Client_Timer\<close>, \<open>Dps_Client_Inv\<close>: what a client
    does with a request, with a packet and with a query that is not answered,
    and the invariant of its reachable states.
    \<open>Dps_Client_Conduct\<close> states the properties.

  \<^bold>\<open>The server.\<close>
  \<^item> \<open>Dcs_Retransmit\<close>: the dictionary, its blocks of memory and
    the timer.  \<open>Dcs_Retransmit_Laws\<close>: the invariant (one block for
    each message, none shared) and each operation; a second interpretation of
    \<open>query_store\<close>.  \<open>Dcs_Retransmit_Rounds\<close>: the
    threads as the step relation \<open>rt_step\<close>, in which other threads
    may run between any two reports of the timer, and the fate of one message
    over several rounds.
  \<^item> \<open>Dps_Server_Ctrl\<close>: every operation of
    \<open>dps_svr_ctrl.c\<close> and the \<open>dps_link\<close> of the server.
    \<open>Dps_Server_Laws\<close>, \<open>Dps_Server_Exchange\<close>: a message
    on its way out, a packet that comes in, a message that is reported.
    \<open>Dps_Server_Conduct\<close> states the properties.

  \<^bold>\<open>Both.\<close>  \<open>Dps_Network\<close> says what a client and
  a server make of a packet of the other; below, whole exchanges between them.

  \<^bold>\<open>The wrapper of the operating system.\<close>  The tasks, timers,
  message queues and semaphores that the programs of the repository use
  (\<open>src/odcs/osw\<close>, the same files as \<open>src/common/osw\<close>).
  \<^item> \<open>Osw_Timer\<close>: tasks with their events, and the timing wheel
    of five vectors (\<open>task.c\<close>, \<open>timer.c\<close>,
    \<open>osw_list.h\<close>).  A list of nodes is the list of their addresses;
    a node says whether it is linked, so that unlinking one that is not, or
    linking one twice, is \<open>None\<close>.
  \<^item> \<open>Osw_Wheel\<close>, \<open>Osw_Tick\<close>: the invariant of the wheel
    (a timer sits in a slot that is looked at before it is due), what each
    operation and one tick do to the timers that run.  Callbacks may send
    events, start idle timers with a delay of a tick or more, and change the
    rest of the program (\<open>well_behaved\<close>); they do not stop timers,
    since the loop of the source holds on to the node behind.
  \<^item> \<open>Osw_Conduct\<close>: programs as sequences of operations and
    ticks, and the properties.  \<open>Osw_Clock\<close>: from readings of the
    clock to ticks.
  \<^item> \<open>Osw_Queue\<close>: the ring buffer of \<open>queue.c\<close>, as it
    is built; a receiver that waits is split at the wait.
    \<open>Osw_Queue_Conduct\<close>: the locale \<open>message_queue\<close>, its
    interpretation \<open>ring\<close>, and the properties.
    \<open>Osw_Semaphore\<close>: \<open>semaphore.c\<close> and
    \<open>init.c\<close>.

  \<^bold>\<open>Bounds.\<close>  A query may ask for at most 22 retransmissions:
  up to there the interval, a \<open>float\<close> in the source, is exact.  Query
  ids are taken where \<open>hash\<close> gives a bucket; that it does not for
  ids from \<open>2 ^ 31\<close> on is a theorem of its own.  A packet fits in
  \<open>DPS_MAX_BUFF_SZ\<close>.  The server sends a message three times
  more, once in each round of its timer; its receive loop takes at most 50000
  packets, the bound of the source.  The 64-bit count of ticks does not wrap.

  \<^bold>\<open>Not modelled.\<close>  Sockets, threads and locks apart from what
  is said above (a tick is one step, although the source counts it after it
  has released its lock), logging and dumps; the server's data base of endpoints and
  policies, which is reached only through the Python interpreter; the cluster
  and controller protocols, which hand JSON to it over HTTP; the
  gateway, the switch agent and the management console, which are separate
  programs.
\<close>

section \<open>A request and its answer\<close>

text \<open>The packet of a location request, and of a location reply.\<close>

lemma ex_image: "(\<exists>b. (\<exists>x. P x \<and> b = f x) \<and> R b) = (\<exists>x. P x \<and> R (f x))"
  by blast

lemma loc_req_taken:
  assumes "ok_loc_req d" and "\<forall>(mem :: bytes) addr. reads loc_req_switch (\<lambda>st. st = zero_loc_req\<lparr>lq_dps_client_addr := addr\<rparr>) p (got_loc_req d addr)"
    and "length p = loc_req_size d"
  shows "server_takes senv (pkt_hdrb DPS_ENDPOINT_LOC_REQ h (20 + loc_req_size d) @ p) (\<lambda>addr msg. \<exists>d'. got_loc_req d addr d' \<and>
    msg = \<lparr>cd_context = 0, cd_hdr = (recv_hdr DPS_ENDPOINT_LOC_REQ h zero_hdr)\<lparr>ch_reply_addr := addr\<rparr>, cd_body = Endpoint_loc_req d'\<rparr>)"
proof -
  let ?pkt = "pkt_hdrb DPS_ENDPOINT_LOC_REQ h (20 + loc_req_size d) @ p" and ?h = "\<lambda>addr. (recv_hdr DPS_ENDPOINT_LOC_REQ h zero_hdr)\<lparr>ch_reply_addr := addr\<rparr>"
  have t: "valid_type DPS_ENDPOINT_LOC_REQ" by (simp add: valid_type_def word_le_nat_alt)
  have proc: "\<exists>b. (\<exists>d'. got_loc_req d addr d' \<and> b = Endpoint_loc_req d') \<and> dps_process_rcvd_pkt (server_link senv) (?pkt @ junk) addr (tbl, s) =
      count_rcvd DPS_ENDPOINT_LOC_REQ (deliver (server_link senv) (?h addr) b (tbl, snd (lk_malloc (server_link senv) s)))"
    if "has_buffer (server_link senv) s" for s tbl addr junk
    using loc_req_msg.message_received [OF assms that, where addr = addr and h = h and junk = junk and tbl' = tbl] by blast
  from server_takes_packet [OF t proc] show ?thesis unfolding ex_image .
qed

lemma loc_reply_matched:
  assumes "ok_loc_reply_msg h a" and "loc_reply_image a p" and "length p = loc_size a" and "valid_id (ch_query_id h)"
  shows "client_matches env (pkt_hdrb DPS_ENDPOINT_LOC_REPLY h (20 + loc_size a) @ p) (ch_query_id h) (\<lambda>cntxt addr msg. \<exists>a'. got_loc_reply a zero_loc_reply a' \<and>
    msg = \<lparr>cd_context = cntxt, cd_hdr = (recv_hdr DPS_ENDPOINT_LOC_REPLY h zero_hdr)\<lparr>ch_reply_addr := addr\<rparr>, cd_body = Endpoint_loc_reply a'\<rparr>)"
proof -
  let ?pkt = "pkt_hdrb DPS_ENDPOINT_LOC_REPLY h (20 + loc_size a) @ p" and ?h = "\<lambda>addr. (recv_hdr DPS_ENDPOINT_LOC_REPLY h zero_hdr)\<lparr>ch_reply_addr := addr\<rparr>"
  have t: "valid_type DPS_ENDPOINT_LOC_REPLY" by (simp add: valid_type_def)
  have proc: "\<exists>b. (\<exists>a'. got_loc_reply a zero_loc_reply a' \<and> b = Endpoint_loc_reply a') \<and> dps_process_rcvd_pkt (client_link env) (?pkt @ junk) addr (tbl, s) =
      count_rcvd DPS_ENDPOINT_LOC_REPLY (deliver_answer True (client_link env) (?h addr) b (tbl, snd (lk_malloc (client_link env) s)))"
    if "has_buffer (client_link env) s" for s tbl addr junk
    using loc_reply_msg.message_received [OF assms(1-3) that, where addr = addr and h = h and junk = junk and tbl' = tbl] by blast
  from client_matches_packet [OF refl t assms(4) proc] show ?thesis unfolding ex_image .
qed

text \<open>
  C1.  A client asks where an endpoint is.  The request goes to a server of
  its network and is kept; any server that the packet arrives at hands the
  same question to its data handler.  An answer that a server sends with the
  query id of the request, whatever the server is doing, becomes a packet
  with which the client matches the request: it is handed on with the context
  of the request, and the request is not sent any more.
\<close>

theorem request_answered:
  fixes env :: "'w client_env"
  assumes "client_ok env s c m Q" and "si_inuse (cw_svr c)" and "has_client_buffer env (cw_outer c)" and "length tbl = unat DPS_MAX_MSG_TYPE"
    and "ok_loc_req d" and "cd_body req = Endpoint_loc_req d" and "ch_type (cd_hdr req) = DPS_ENDPOINT_LOC_REQ"
    and "ch_query_id (cd_hdr req) = 0" and "cd_context req \<noteq> 0"
    and "if known_family (ch_reply_addr (cd_hdr req)) then wf_ip (ch_reply_addr (cd_hdr req)) else m \<noteq> Map.empty"
    and "valid_id (request_id s)" and "has_room (client_timer env) (at_xmit env c s)"
  shows "\<exists>pkt ip tbl' s' c' Q'. destination m (ch_vnid (cd_hdr req)) (ch_reply_addr (cd_hdr req)) ip \<and>
    dps_protocol_client_send (client_link env) req (tbl, s) = Some (fst (request_effect env c pkt ip), request_hdr s (cd_hdr req), (tbl', s')) \<and>
    client_ok env s' c' m Q' \<and> cw_outer c' = snd (request_effect env c pkt ip) \<and>
    contexts Q' (request_id s) = contexts Q (request_id s) @ [(cd_context req, RPT_OWNER_DPSA)] \<and>
    (\<forall>senv :: 'v server_env. server_takes senv pkt (\<lambda>addr msg. \<exists>d'. got_loc_req d addr d' \<and> msg = \<lparr>cd_context = 0,
      cd_hdr = (recv_hdr DPS_ENDPOINT_LOC_REQ (request_hdr s (cd_hdr req)) zero_hdr)\<lparr>ch_reply_addr := addr\<rparr>, cd_body = Endpoint_loc_req d'\<rparr>)) \<and>
    (\<forall>(senv :: 'v server_env) E t sc stbl ans a. server_sock_ok senv E t sc \<longrightarrow> length stbl = unat DPS_MAX_MSG_TYPE \<longrightarrow>
      ok_loc_reply_msg (cd_hdr ans) a \<longrightarrow> cd_body ans = Endpoint_loc_reply a \<longrightarrow> ch_type (cd_hdr ans) = DPS_ENDPOINT_LOC_REPLY \<longrightarrow>
      ch_query_id (cd_hdr ans) = request_id s \<longrightarrow> cd_context ans = 0 \<longrightarrow>
      (\<exists>apkt stbl' t' sc'. dps_protocol_client_send (server_link senv) ans (stbl, t) =
          Some (fst (server_send_effect senv sc apkt (ch_reply_addr (cd_hdr ans))), cd_hdr ans, (stbl', t')) \<and>
        server_ok senv E t' sc' \<and> sw_outer sc' = snd (server_send_effect senv sc apkt (ch_reply_addr (cd_hdr ans))) \<and>
        client_matches env apkt (request_id s) (\<lambda>cntxt addr msg. \<exists>a'. got_loc_reply a zero_loc_reply a' \<and> msg = \<lparr>cd_context = cntxt,
          cd_hdr = (recv_hdr DPS_ENDPOINT_LOC_REPLY (cd_hdr ans) zero_hdr)\<lparr>ch_reply_addr := addr\<rparr>, cd_body = Endpoint_loc_reply a'\<rparr>)))"
proof -
  have w: "ts_world s = Some c" using assms(1) by (simp add: client_ok_def)
  have b: "has_buffer (client_link env) s" using client_has_buffer [OF w] assms(3) by simp
  obtain p where p: "length p = loc_req_size d" "\<forall>(mem :: bytes) addr. reads loc_req_switch (\<lambda>st. st = zero_loc_req\<lparr>lq_dps_client_addr := addr\<rparr>) p (got_loc_req d addr)"
    "sends (\<lambda>s. s) (client_link env) req tbl s (pkt_hdrb DPS_ENDPOINT_LOC_REQ (request_hdr s (cd_hdr req)) (20 + loc_req_size d) @ p)"
    using loc_req_msg.message_sent [OF assms(5,6,7) b client_link_simps(3) assms(4)] client_sent_hdr [OF w assms(8), of env] by auto
  have answer: "\<exists>apkt stbl' t' sc'. dps_protocol_client_send (server_link senv) ans (stbl, t) =
          Some (fst (server_send_effect senv sc apkt (ch_reply_addr (cd_hdr ans))), cd_hdr ans, (stbl', t')) \<and>
        server_ok senv E t' sc' \<and> sw_outer sc' = snd (server_send_effect senv sc apkt (ch_reply_addr (cd_hdr ans))) \<and>
        client_matches env apkt (request_id s) (\<lambda>cntxt addr msg. \<exists>a'. got_loc_reply a zero_loc_reply a' \<and> msg = \<lparr>cd_context = cntxt,
          cd_hdr = (recv_hdr DPS_ENDPOINT_LOC_REPLY (cd_hdr ans) zero_hdr)\<lparr>ch_reply_addr := addr\<rparr>, cd_body = Endpoint_loc_reply a'\<rparr>)"
    if a: "server_sock_ok senv E t sc" "length stbl = unat DPS_MAX_MSG_TYPE" "ok_loc_reply_msg (cd_hdr ans) a" "cd_body ans = Endpoint_loc_reply a"
      "ch_type (cd_hdr ans) = DPS_ENDPOINT_LOC_REPLY" "ch_query_id (cd_hdr ans) = request_id s" "cd_context ans = 0"
    for senv :: "'v server_env" and E t sc stbl ans a
  proof -
    obtain q where q: "length q = loc_size a" "loc_reply_image a q"
      "sends (\<lambda>s. s) (server_link senv) ans stbl t (pkt_hdrb DPS_ENDPOINT_LOC_REPLY (cd_hdr ans) (20 + loc_size a) @ q)"
      using loc_reply_msg.message_sent [OF a(3-5) server_ready(1,2) [OF a(1)] a(2)] by (auto simp: server_sent_hdr)
    have "valid_id (ch_query_id (cd_hdr ans))" using assms(11) a(6) by simp
    from loc_reply_matched [OF a(3) q(2,1) this, of env] server_answers [OF a(1) q(3) a(7)] show ?thesis unfolding a(6) by blast
  qed
  let ?pkt = "pkt_hdrb DPS_ENDPOINT_LOC_REQ (request_hdr s (cd_hdr req)) (20 + loc_req_size d) @ p"
  obtain ip tbl' s' c' Q' where s': "destination m (ch_vnid (cd_hdr req)) (ch_reply_addr (cd_hdr req)) ip"
    "dps_protocol_client_send (client_link env) req (tbl, s) = Some (fst (request_effect env c ?pkt ip), request_hdr s (cd_hdr req), (tbl', s'))"
    "client_ok env s' c' m Q'" "cw_outer c' = snd (request_effect env c ?pkt ip)"
    "contexts Q' = (contexts Q)(request_id s := contexts Q (request_id s) @ [(cd_context req, RPT_OWNER_DPSA)])"
    using client_sends [OF assms(1,2,8,9) p(3) refl assms(10-12)] by (elim exE conjE) (rule that)
  show ?thesis
  proof (rule exI [of _ ?pkt], rule exI [of _ ip], rule exI [of _ tbl'], rule exI [of _ s'], rule exI [of _ c'], rule exI [of _ Q'],
      intro conjI allI impI s'(1-4) loc_req_taken [OF assms(5) p(2,1)])
    show "contexts Q' (request_id s) = contexts Q (request_id s) @ [(cd_context req, RPT_OWNER_DPSA)]" using s'(5) by simp
  qed (rule answer)
qed

definition sample_answer :: dps_client_data_t where
  "sample_answer = sample_reply\<lparr>cd_hdr := (cd_hdr sample_reply)\<lparr>ch_query_id := 1\<rparr>\<rparr>"

lemma sample_answer_ready: "ok_loc_reply_msg (cd_hdr sample_answer) sample_loc_reply" "cd_body sample_answer = Endpoint_loc_reply sample_loc_reply"
  "ch_type (cd_hdr sample_answer) = DPS_ENDPOINT_LOC_REPLY" "ch_query_id (cd_hdr sample_answer) = 1" "cd_context sample_answer = 0"
  using sample_reply_ready by (simp_all add: sample_answer_def ok_loc_reply_msg_def) (simp add: sample_reply_def sample_msg_def)

theorem request_answered_witness:
  "\<exists>pkt ip tbl' s' c' Q' apkt stbl' t'. dps_protocol_client_send (client_link (sample_env 100)) sample_request (dps_pkt_stats_tbl, sample_state sample_quiet) =
      Some (fst (request_effect (sample_env 100) (sample_client sample_quiet) pkt ip), request_hdr (sample_state sample_quiet) (cd_hdr sample_request), (tbl', s')) \<and>
    client_ok (sample_env 100) s' c' [7 \<mapsto> sample_ip] Q' \<and> contexts Q' 1 = [(21, RPT_OWNER_DPSA)] \<and>
    dps_protocol_client_send (server_link server_sample_env) sample_answer (dps_pkt_stats_tbl, waiting_server) =
      Some (fst (server_send_effect server_sample_env (server_sample sample_quiet) apkt zero_ip_addr), cd_hdr sample_answer, (stbl', t')) \<and>
    client_matches (sample_env 100) apkt 1 (\<lambda>cntxt addr msg. \<exists>a'. got_loc_reply sample_loc_reply zero_loc_reply a' \<and> msg = \<lparr>cd_context = cntxt,
      cd_hdr = (recv_hdr DPS_ENDPOINT_LOC_REPLY (cd_hdr sample_answer) zero_hdr)\<lparr>ch_reply_addr := addr\<rparr>, cd_body = Endpoint_loc_reply a'\<rparr>)"
proof -
  have ne: "[7 \<mapsto> sample_ip] \<noteq> (Map.empty :: directory_map)" by (metis map_upd_nonempty)
  have sock: "server_sock_ok server_sample_env [] waiting_server (server_sample sample_quiet)"
    using waiting_server_ok(1) server_sample_ok [of sample_quiet] by (simp add: server_sock_ok_def)
  have fam: "if known_family (ch_reply_addr (cd_hdr sample_request)) then wf_ip (ch_reply_addr (cd_hdr sample_request)) else [7 \<mapsto> sample_ip] \<noteq> Map.empty"
    using ne by simp
  have ctx: "cd_context sample_request \<noteq> 0" and q: "ch_query_id (cd_hdr sample_answer) = request_id (sample_state sample_quiet)"
    and to: "ch_reply_addr (cd_hdr sample_answer) = zero_ip_addr"
    using sample_request_id(1) sample_answer_ready(4) by (simp_all add: sample_answer_def sample_reply_def sample_msg_def zero_hdr_def)
  from request_answered [OF sample_client_ok [of 100 sample_quiet] sample_client_simps(1) sample_client_simps(3) stats_length sample_loc_req_ok
      sample_request_simps(1-3) ctx fam sample_request_id(2) sample_room, where 'v = outer_world]
  show ?thesis
  proof (elim exE conjE, goal_cases)
    case (1 pkt ip tbl' s' c' Q')
    from 1(7) [rule_format, OF sock stats_length sample_answer_ready(1-3) q sample_answer_ready(5)]
    show ?case
    proof (elim exE conjE, goal_cases)
      case (1 apkt stbl' t' sc')
      then show ?case
        using \<open>dps_protocol_client_send (client_link (sample_env 100)) _ _ = _\<close> \<open>client_ok _ _ _ _ _\<close> \<open>contexts Q' _ = _\<close>
          sample_request_id(1) unfolding to by fastforce
    qed
  qed
qed

section \<open>A notice and its acknowledgement\<close>

lemma keeps_room_data: "keeps_room env k (kept_message senv c msg pkt) s = keeps_room env k (kept_message senv c msg []) s"
  by (simp add: keeps_room_def kept_message_def)

lemma ack_matched:
  assumes "ch_query_id h \<noteq> 0" and "\<forall>w. se_args_ok senv w"
  shows "server_matches senv (ack_packet lk h) (ch_query_id h) (\<lambda>cntxt addr d. d = \<lparr>cd_context = cntxt, cd_hdr = zero_hdr\<lparr>ch_type := ch_type (ack_hdr h),
    ch_sub_type := ch_type h, ch_vnid := ch_vnid h, ch_query_id := ch_query_id h, ch_client_id := ch_client_id h,
    ch_transaction_type := (if lk_server lk then ch_transaction_type h else DPS_TRANSACTION_NORMAL), ch_resp_status := DPS_NO_ERR,
    ch_reply_addr := addr\<rparr>, cd_body = No_body\<rparr>)"
proof -
  let ?h = "\<lambda>addr. zero_hdr\<lparr>ch_type := ch_type (ack_hdr h),
    ch_sub_type := ch_type h, ch_vnid := ch_vnid h, ch_query_id := ch_query_id h, ch_client_id := ch_client_id h,
    ch_transaction_type := (if lk_server lk then ch_transaction_type h else DPS_TRANSACTION_NORMAL), ch_resp_status := DPS_NO_ERR,
    ch_reply_addr := addr\<rparr>"
  have t: "valid_type (ch_type (ack_hdr h))" using ack_type [of h] by (auto simp: table_rows)
  have q: "ch_query_id (?h addr) = ch_query_id h" for addr by simp
  have proc: "\<exists>b. b = No_body \<and> dps_process_rcvd_pkt (server_link senv) (ack_packet lk h @ junk) addr (tbl, s) =
      count_rcvd (ch_type (ack_hdr h)) (deliver_answer True (server_link senv) (?h addr) b (tbl, snd (lk_malloc (server_link senv) s)))"
    if "has_buffer (server_link senv) s" for s tbl addr junk
    using ack_received [OF that, of lk h junk addr tbl] by simp
  show ?thesis using server_matches_packet [OF t assms(1) q assms(2) proc] by simp
qed

text \<open>
  C2.  A notice of the server: the new policies of a network, sent to a
  client with a context.  It is kept with three attempts left; a client that
  the packet arrives at hands the same policies on and sends an
  acknowledgement to the server; when that arrives, the server hands its data
  handler the context and does not send the notice any more.
\<close>

theorem notice_acknowledged:
  fixes senv :: "'w server_env"
  assumes "server_sock_ok senv E t sc" and "\<forall>w. se_args_ok senv w" and "length stbl = unat DPS_MAX_MSG_TYPE"
    and "ok_bulk d" and "cd_body msg = Bulk_vnid_policy d" and "ch_type (cd_hdr msg) = DPS_UNSOLICITED_VNID_POLICY_LIST"
    and "cd_context msg \<noteq> 0" and "ch_query_id (cd_hdr msg) \<noteq> 0"
    and "keeps_room (no_calls senv) (ch_query_id (cd_hdr msg)) (kept_message senv sc msg []) (at_server_xmit senv sc t)"
  shows "\<exists>pkt stbl' t' sc'. dps_protocol_client_send (server_link senv) msg (stbl, t) =
      Some (fst (server_send_effect senv sc pkt (ch_reply_addr (cd_hdr msg))), cd_hdr msg, (stbl', t')) \<and>
    server_ok senv E t' sc' \<and> sw_outer sc' = snd (server_send_effect senv sc pkt (ch_reply_addr (cd_hdr msg))) \<and>
    message_for t' = (message_for t)(ch_query_id (cd_hdr msg) \<mapsto> kept_message senv sc msg pkt) \<and>
    message_left t' (ch_query_id (cd_hdr msg)) = Some (kept_message senv sc msg pkt, 3) \<and>
    (\<forall>env :: 'v client_env. \<exists>ack. client_acks env pkt (\<lambda>addr got. \<exists>d'. got_bulk d d' \<and> got = \<lparr>cd_context = 0,
        cd_hdr = (recv_hdr DPS_UNSOLICITED_VNID_POLICY_LIST (cd_hdr msg) zero_hdr)\<lparr>ch_reply_addr := addr\<rparr>, cd_body = Bulk_vnid_policy d'\<rparr>) ack \<and>
      server_matches senv ack (ch_query_id (cd_hdr msg)) (\<lambda>cntxt addr got. got = \<lparr>cd_context = cntxt, cd_hdr = zero_hdr\<lparr>ch_type := DPS_GENERAL_ACK,
        ch_sub_type := DPS_UNSOLICITED_VNID_POLICY_LIST, ch_vnid := ch_vnid (cd_hdr msg), ch_query_id := ch_query_id (cd_hdr msg),
        ch_client_id := ch_client_id (cd_hdr msg), ch_transaction_type := DPS_TRANSACTION_NORMAL, ch_resp_status := DPS_NO_ERR,
        ch_reply_addr := addr\<rparr>, cd_body = No_body\<rparr>))"
proof -
  let ?t = DPS_UNSOLICITED_VNID_POLICY_LIST and ?q = "ch_query_id (cd_hdr msg)"
  have ty: "valid_type ?t" by (simp add: valid_type_def word_le_nat_alt)
  obtain p where p: "length p = bulk_len d" "p = bulk_img d" "sends (\<lambda>s. s) (server_link senv) msg stbl t (pkt_hdrb ?t (cd_hdr msg) (20 + bulk_len d) @ p)"
    using unsolicited_bulk_msg.message_sent [OF assms(4-6) server_ready(1,2) [OF assms(1)] assms(3)] by (auto simp: server_sent_hdr)
  let ?pkt = "pkt_hdrb ?t (cd_hdr msg) (20 + bulk_len d) @ p" and ?h = "recv_hdr ?t (cd_hdr msg) zero_hdr"
  have room: "keeps_room (no_calls senv) ?q (kept_message senv sc msg ?pkt) (at_server_xmit senv sc t)"
    unfolding keeps_room_data [of _ _ senv sc msg ?pkt] by (rule assms(9))
  have acks: "client_acks env ?pkt (\<lambda>addr got. \<exists>d'. got_bulk d d' \<and> got = \<lparr>cd_context = 0, cd_hdr = ?h\<lparr>ch_reply_addr := addr\<rparr>,
      cd_body = Bulk_vnid_policy d'\<rparr>) (ack_packet (client_link env) ?h)" for env :: "'v client_env"
  proof -
    have proc: "\<exists>b. (\<exists>d'. got_bulk d d' \<and> b = Bulk_vnid_policy d') \<and> dps_process_rcvd_pkt (client_link env) (?pkt @ junk) addr (tbl, s) =
        count_rcvd ?t (deliver_acked (client_link env) (?h\<lparr>ch_reply_addr := addr\<rparr>) b (tbl, snd (lk_malloc (client_link env) s)))"
      if "has_buffer (client_link env) s" for s tbl addr junk
      using unsolicited_bulk_msg.message_received [OF assms(4) p(2,1) that, where addr = addr and h = "cd_hdr msg" and junk = junk and tbl' = tbl] by blast
    from client_acks_packet [OF refl ty assms(8) proc] show ?thesis unfolding ex_image .
  qed
  have h: "ch_query_id ?h = ?q" "ch_type (ack_hdr ?h) = DPS_GENERAL_ACK" "ch_type ?h = ?t" "ch_vnid ?h = ch_vnid (cd_hdr msg)"
    "ch_client_id ?h = ch_client_id (cd_hdr msg)"
    by (simp_all add: recv_hdr_def ack_hdr_def registration_types_def)
  have "ch_query_id ?h \<noteq> 0" using h(1) assms(8) by simp
  note matches = ack_matched [OF this assms(2), of "client_link env" for env :: "'v client_env", unfolded h client_link_simps(1) if_False]
  show ?thesis
    using server_notifies [OF assms(1) p(3) assms(7) refl room] acks matches by blast
qed

definition sample_bulk_notice :: dps_client_data_t where
  "sample_bulk_notice = (sample_msg DPS_UNSOLICITED_VNID_POLICY_LIST (Bulk_vnid_policy sample_bulk))\<lparr>cd_context := 21\<rparr>"

lemma sample_bulk_notice_simps [simp]:
  "cd_body sample_bulk_notice = Bulk_vnid_policy sample_bulk" "ch_type (cd_hdr sample_bulk_notice) = DPS_UNSOLICITED_VNID_POLICY_LIST"
  "cd_context sample_bulk_notice = 21" "ch_query_id (cd_hdr sample_bulk_notice) = 9"
  by (simp_all add: sample_bulk_notice_def sample_msg_def)

theorem notice_acknowledged_witness:
  "\<exists>pkt stbl' t' sc'. dps_protocol_client_send (server_link server_sample_env) sample_bulk_notice (dps_pkt_stats_tbl, rt_boot (Some (server_sample sample_quiet))) =
      Some (fst (server_send_effect server_sample_env (server_sample sample_quiet) pkt (ch_reply_addr (cd_hdr sample_bulk_notice))), cd_hdr sample_bulk_notice, (stbl', t')) \<and>
    server_ok server_sample_env [] t' sc' \<and> map_option rc_context (message_for t' 9) = Some 21"
proof -
  have ok: "ok_bulk sample_bulk" by (simp add: sample_bulk_def ok_bulk_def wf_bulk_def)
  have ids: "cd_context sample_bulk_notice \<noteq> 0" "ch_query_id (cd_hdr sample_bulk_notice) \<noteq> 0" by simp_all
  have room: "keeps_room (no_calls server_sample_env) (ch_query_id (cd_hdr sample_bulk_notice)) (kept_message server_sample_env (server_sample sample_quiet) sample_bulk_notice [])
      (at_server_xmit server_sample_env (server_sample sample_quiet) (rt_boot (Some (server_sample sample_quiet))))"
    by (simp add: keeps_room_def no_calls_def kept_message_def at_server_xmit_def rt_boot_def) (simp add: server_sample_env_def upt_rec)
  from notice_acknowledged [OF server_sample_ok [of sample_quiet] server_sample_env_ok(2) stats_length ok sample_bulk_notice_simps(1,2) ids room, where 'v = outer_world]
  show ?thesis
  proof (elim exE conjE, goal_cases)
    case (1 pkt stbl' t' sc')
    have "map_option rc_context (message_for t' 9) = Some 21" unfolding 1(4) by (simp add: kept_message_def)
    then show ?case using 1(1,2) by blast
  qed
qed

end
